(* ===== verification/Hato_Prelude.thy ===== *)
theory Hato_Prelude
  imports Main "HOL-Library.Word" "HOL-Library.List_Lexorder" "HOL-Library.Char_ord"
begin

text \<open>
  The prelude of the development: the names of the machine types the server uses, results that
  carry a C++ exception, C strings inside std::string values, decimal printing as the printf
  conversions do it, and the two ordered containers (std::set and std::map) as the lists their
  iterators walk. The collections below gather the facts the component theories share:
  \<^item> \<open>res_simps\<close>: how results with exceptions compose;
  \<^item> \<open>render_simps\<close>: how text is put together from its parts;
  \<^item> \<open>std_simps\<close>: lookups in the ordered containers after an insertion.
\<close>

named_theorems res_simps "results that carry an exception"
named_theorems render_simps "text assembled from parts"
named_theorems std_simps "ordered containers"

section \<open>Machine types\<close>

type_synonym u8 = "8 word"
type_synonym u16 = "16 word"
type_synonym u32 = "32 word"
type_synonym u64 = "64 word"

section \<open>Results\<close>

text \<open>
  A call either returns or leaves by an exception. \<open>UndefinedBehaviour\<close> marks the operations
  C++ gives no meaning to, such as reading through a past-the-end iterator: no call of a correct
  program reaches it.
\<close>

datatype cxx_exc = HatoholException | StdOutOfRange | StdRangeError | UndefinedBehaviour

type_synonym 'a res = "cxx_exc + 'a"

definition bindR :: "'e + 'a \<Rightarrow> ('a \<Rightarrow> 'e + 'b) \<Rightarrow> 'e + 'b" where
  "bindR m f = (case m of Inl e \<Rightarrow> Inl e | Inr x \<Rightarrow> f x)"

lemma bindR_simps [simp, res_simps]:
  "bindR (Inl e) f = Inl e"
  "bindR (Inr x) f = f x"
  by (simp_all add: bindR_def)

lemma bindR_eq_Inr [res_simps]: "bindR m f = Inr y \<longleftrightarrow> (\<exists>x. m = Inr x \<and> f x = Inr y)"
  by (cases m) auto

lemma bindR_assoc: "bindR (bindR m f) g = bindR m (\<lambda>x. bindR (f x) g)"
  by (cases m) auto

lemma bindR_cong [fundef_cong]:
  "m = m' \<Longrightarrow> (\<And>x. m' = Inr x \<Longrightarrow> f x = f' x) \<Longrightarrow> bindR m f = bindR m' f'"
  by (cases m') auto

text \<open>A loop whose body may raise: the fold stops at the first exception.\<close>

fun foldR :: "('a \<Rightarrow> 's \<Rightarrow> 'e + 's) \<Rightarrow> 'a list \<Rightarrow> 's \<Rightarrow> 'e + 's" where
  "foldR f [] s = Inr s"
| "foldR f (x # xs) s = bindR (f x s) (foldR f xs)"

lemma foldR_append [res_simps]: "foldR f (xs @ ys) s = bindR (foldR f xs s) (foldR f ys)"
proof (induction xs arbitrary: s)
  case (Cons x xs)
  then have "foldR f (xs @ ys) = (\<lambda>s. bindR (foldR f xs s) (foldR f ys))" by (simp add: fun_eq_iff)
  then show ?case by (simp add: bindR_assoc)
qed simp

lemma foldR_total:
  assumes "\<And>x s. x \<in> set xs \<Longrightarrow> f x s = Inr (g x s)"
  shows "foldR f xs s = Inr (fold g xs s)"
  using assms by (induction xs arbitrary: s) auto

section \<open>C strings\<close>

definition nul :: char where
  "nul = CHR 0x00"

text \<open>What a loop over \<open>c_str()\<close> sees: the characters before the first NUL.\<close>

definition cstr :: "string \<Rightarrow> string" where
  "cstr s = takeWhile (\<lambda>c. c \<noteq> nul) s"

lemma cstr_no_nul [simp]: "nul \<notin> set (cstr s)"
  by (auto simp: cstr_def dest: set_takeWhileD)

lemma cstr_id [simp]: "nul \<notin> set s \<Longrightarrow> cstr s = s"
  by (auto simp: cstr_def takeWhile_eq_all_conv)

lemma cstr_idem [simp]: "cstr (cstr s) = cstr s"
  by simp

lemma cstr_Nil [simp]: "cstr [] = []"
  by (simp add: cstr_def)

section \<open>Decimal printing\<close>

definition digit_char :: "nat \<Rightarrow> char" where
  "digit_char d = char_of (48 + d)"

fun dec_nat :: "nat \<Rightarrow> string" where
  "dec_nat n = (if n < 10 then [digit_char n] else dec_nat (n div 10) @ [digit_char (n mod 10)])"

declare dec_nat.simps [simp del]

definition dec_int :: "int \<Rightarrow> string" where
  "dec_int i = (if i < 0 then CHR ''-'' # dec_nat (nat (- i)) else dec_nat (nat i))"

definition char_digit :: "char \<Rightarrow> nat" where
  "char_digit c = of_char c - 48"

definition undec_nat :: "string \<Rightarrow> nat" where
  "undec_nat s = foldl (\<lambda>a c. a * 10 + char_digit c) 0 s"

lemma char_digit_digit_char [simp]: "d < 10 \<Longrightarrow> char_digit (digit_char d) = d"
  by (simp add: char_digit_def digit_char_def)

lemma of_char_digit_char: "d < 10 \<Longrightarrow> of_char (digit_char d) = (48 + d :: nat)"
  by (simp add: digit_char_def)

lemma undec_nat_dec_nat [simp]: "undec_nat (dec_nat n) = n"
proof (induction n rule: dec_nat.induct)
  case (1 n)
  then show ?case
    by (cases "n < 10") (simp_all add: dec_nat.simps [of n] undec_nat_def)
qed

lemma dec_nat_nonempty [simp]: "dec_nat n \<noteq> []"
  by (subst dec_nat.simps) simp

lemma dec_nat_inj [simp]: "dec_nat m = dec_nat n \<longleftrightarrow> m = n"
  by (metis undec_nat_dec_nat)

lemma dec_nat_digits: "c \<in> set (dec_nat n) \<Longrightarrow> (48::nat) \<le> of_char c \<and> of_char c \<le> (57::nat)"
proof (induction n rule: dec_nat.induct)
  case (1 n)
  then show ?case
    by (cases "n < 10") (auto simp: dec_nat.simps [of n] of_char_digit_char)
qed

lemma dec_nat_not_minus: "CHR ''-'' \<notin> set (dec_nat n)"
  using dec_nat_digits [of "CHR ''-''" n] by auto

lemma dec_int_nonempty [simp]: "dec_int i \<noteq> []"
  by (simp add: dec_int_def)

lemma dec_int_inj [simp]: "dec_int i = dec_int j \<longleftrightarrow> i = j"
proof
  assume eq: "dec_int i = dec_int j"
  have h: "hd (dec_nat n) \<noteq> CHR ''-''" for n
    using dec_nat_not_minus [of n] hd_in_set [of "dec_nat n"] by fastforce
  show "i = j"
    using eq h [of "nat i"] h [of "nat j"]
    by (auto simp: dec_int_def split: if_splits) (metis list.sel(1))+
qed simp

lemma dec_int_chars: "c \<in> set (dec_int i) \<Longrightarrow> c = CHR ''-'' \<or> (48::nat) \<le> of_char c \<and> of_char c \<le> (57::nat)"
  by (auto simp: dec_int_def dest: dec_nat_digits split: if_splits)

section \<open>Joining with a separator\<close>

fun join_with :: "'a list \<Rightarrow> 'a list list \<Rightarrow> 'a list" where
  "join_with sep [] = []"
| "join_with sep [x] = x"
| "join_with sep (x # y # xs) = x @ sep @ join_with sep (y # xs)"

lemma join_with_append [render_simps]:
  "xs \<noteq> [] \<Longrightarrow> ys \<noteq> [] \<Longrightarrow> join_with sep (xs @ ys) = join_with sep xs @ sep @ join_with sep ys"
proof (induction sep xs rule: join_with.induct)
  case (2 sep x)
  then show ?case by (cases ys) auto
qed auto

lemma join_with_Cons [render_simps]:
  "ys \<noteq> [] \<Longrightarrow> join_with sep (x # ys) = x @ sep @ join_with sep ys"
  by (cases ys) auto

lemma join_with_eq_Nil:
  "(\<And>x. x \<in> set xs \<Longrightarrow> x \<noteq> []) \<Longrightarrow> join_with sep xs = [] \<longleftrightarrow> xs = []"
  by (induction sep xs rule: join_with.induct) auto

text \<open>
  A loop that appends the elements to a string, with a \<open>SeparatorInjector\<close>
  (src/server/mlpl/src/SeparatorInjector.cc) in front of each: the injector does nothing the first time.
\<close>

fun inject_loop :: "bool \<Rightarrow> string \<Rightarrow> string list \<Rightarrow> string \<Rightarrow> string" where
  "inject_loop first separator [] str = str"
| "inject_loop first separator (x # xs) str =
     inject_loop False separator xs ((if first then str else str @ separator) @ x)"

lemma inject_loop_join:
  "inject_loop first separator xs str = str @ (if first \<or> xs = [] then [] else separator) @ join_with separator xs"
proof (induction first separator xs str rule: inject_loop.induct)
  case (2 first separator x xs str)
  then show ?case by (cases xs) simp_all
qed simp

section \<open>Ordered containers\<close>

text \<open>
  A \<open>std::set\<close> is the strictly ascending list its iterator walks; \<open>insert\<close> keeps the order and
  leaves an element that is present alone. A \<open>std::map\<close> is the association list in ascending
  key order; \<open>operator[]\<close> and an assignment through it are \<open>std_map_put\<close>.
\<close>

definition std_set_insert :: "'a::linorder \<Rightarrow> 'a list \<Rightarrow> 'a list" where
  "std_set_insert x xs = insort_insert x xs"

fun std_map_put :: "'k::linorder \<Rightarrow> 'v \<Rightarrow> ('k \<times> 'v) list \<Rightarrow> ('k \<times> 'v) list" where
  "std_map_put k v [] = [(k, v)]"
| "std_map_put k v ((k', v') # m) =
     (if k < k' then (k, v) # (k', v') # m
      else if k = k' then (k, v) # m
      else (k', v') # std_map_put k v m)"

definition std_map_wf :: "('k::linorder \<times> 'v) list \<Rightarrow> bool" where
  "std_map_wf m \<longleftrightarrow> sorted_wrt (<) (map fst m)"

definition std_set_wf :: "'a::linorder list \<Rightarrow> bool" where
  "std_set_wf xs \<longleftrightarrow> sorted xs \<and> distinct xs"

lemma set_std_set_insert [simp, std_simps]: "set (std_set_insert x xs) = insert x (set xs)"
  by (simp add: std_set_insert_def set_insort_insert)

lemma std_set_wf_insert [intro, std_simps]: "std_set_wf xs \<Longrightarrow> std_set_wf (std_set_insert x xs)"
  by (simp add: std_set_wf_def std_set_insert_def sorted_insort_insert distinct_insort_insert)

lemma std_set_wf_Nil [simp]: "std_set_wf []"
  by (simp add: std_set_wf_def)

lemma std_map_wf_Nil [simp]: "std_map_wf []"
  by (simp add: std_map_wf_def)

lemma std_map_wf_Cons:
  "std_map_wf (kv # m) \<longleftrightarrow> (\<forall>k \<in> fst ` set m. fst kv < k) \<and> std_map_wf m"
  by (auto simp: std_map_wf_def)

lemma fst_set_std_map_put: "fst ` set (std_map_put k v m) = insert k (fst ` set m)"
  by (induction k v m rule: std_map_put.induct) auto

lemma std_map_wf_put [intro]: "std_map_wf m \<Longrightarrow> std_map_wf (std_map_put k v m)"
  by (induction k v m rule: std_map_put.induct)
     (auto simp: std_map_wf_Cons fst_set_std_map_put intro: less_trans)

lemma std_map_wf_fresh: "std_map_wf m \<Longrightarrow> (\<And>k'. k' \<in> fst ` set m \<Longrightarrow> k < k') \<Longrightarrow> map_of m k = None"
  by (auto simp: map_of_eq_None_iff)

lemma map_of_std_map_put [std_simps]:
  "std_map_wf m \<Longrightarrow> map_of (std_map_put k v m) = (map_of m)(k \<mapsto> v)"
proof (induction k v m rule: std_map_put.induct)
  case (2 k v k' v' m)
  then show ?case by (auto simp: std_map_wf_Cons fun_eq_iff)
qed auto

lemma std_map_wf_distinct: "std_map_wf m \<Longrightarrow> distinct (map fst m)"
  by (simp add: std_map_wf_def strict_sorted_iff)

definition std_map_erase :: "'k \<Rightarrow> ('k \<times> 'v) list \<Rightarrow> ('k \<times> 'v) list" where
  "std_map_erase k m = filter (\<lambda>e. fst e \<noteq> k) m"

lemma map_of_std_map_erase [std_simps]: "map_of (std_map_erase k m) = (map_of m)(k := None)"
  by (induction m) (auto simp: std_map_erase_def fun_eq_iff)

lemma std_map_wf_erase [intro]: "std_map_wf m \<Longrightarrow> std_map_wf (std_map_erase k m)"
  by (induction m) (auto simp: std_map_erase_def std_map_wf_Cons)

lemma set_std_map_erase: "set (std_map_erase k m) = {e \<in> set m. fst e \<noteq> k}"
  by (auto simp: std_map_erase_def)

section \<open>Numbers in a text\<close>

text \<open>
  \<open>sscanf\<close> with a signed decimal conversion (\<open>%d\<close>, \<open>%zd\<close>): white space, an optional sign and at least
  one digit; the rest of the text is ignored. A number that does not fit the type of the variable,
  for which C defines no result, is returned as it is.
\<close>

definition is_digit_char :: "char \<Rightarrow> bool" where
  "is_digit_char c \<longleftrightarrow> (48 :: nat) \<le> of_char c \<and> of_char c \<le> (57 :: nat)"

definition is_space_char :: "char \<Rightarrow> bool" where
  "is_space_char c \<longleftrightarrow> (of_char c :: nat) \<in> {9, 10, 11, 12, 13, 32}"

definition scan_dec :: "string \<Rightarrow> int option" where
  "scan_dec s =
     (let s = dropWhile is_space_char (cstr s);
          neg = (s \<noteq> [] \<and> hd s = CHR ''-'');
          s = (if s \<noteq> [] \<and> (hd s = CHR ''-'' \<or> hd s = CHR ''+'') then tl s else s);
          ds = takeWhile is_digit_char s
      in if ds = [] then None else Some (if neg then - int (undec_nat ds) else int (undec_nat ds)))"

lemma find_append: "find P (xs @ ys) = (case find P xs of None \<Rightarrow> find P ys | Some x \<Rightarrow> Some x)"
  by (induction xs) auto

end
