(* ===== verification/Hato_Error.thy ===== *)
theory Hato_Error
  imports Hato_Prelude
begin

text \<open>
  \<open>HatoholError\<close> (src/server/common/HatoholError.h, HatoholError.cc): the error codes every
  operation of the server returns, the tables of code names and messages that \<open>init\<close> fills,
  and the error object itself, a code with an optional message.
\<close>

section \<open>Error codes\<close>

datatype (plugins del: size transfer lifting quickcheck_exhaustive quickcheck_random quickcheck_full_exhaustive quickcheck_narrowing) hterr =
    HTERR_OK
  | HTERR_UNINITIALIZED
  | HTERR_UNKNOWN_REASON
  | HTERR_NOT_IMPLEMENTED
  | HTERR_GOT_EXCEPTION
  | HTERR_INTERNAL_ERROR
  | HTERR_INVALID_USER
  | HTERR_INVALID_URL
  | HTERR_BAD_REST_RESPONSE
  | HTERR_FAILED_TO_PARSE_JSON_DATA
  | HTERR_NOT_FOUND_TARGET_RECORD
  | HTERR_INVALID_MONITORING_SYSTEM_TYPE
  | HTERR_INVALID_PORT_NUMBER
  | HTERR_INVALID_IP_ADDRESS
  | HTERR_INVALID_HOST_NAME
  | HTERR_INVALID_ARM_PLUGIN_TYPE
  | HTERR_INVALID_ARM_PLUGIN_ID
  | HTERR_INVALID_ARM_PLUGIN_PATH
  | HTERR_DIFFER_TYPE_SERVER_AND_ARM_PLUGIN
  | HTERR_NO_IP_ADDRESS_AND_HOST_NAME
  | HTERR_INVALID_INCIDENT_TRACKER_TYPE
  | HTERR_NO_INCIDENT_TRACKER_LOCATION
  | HTERR_EMPTY_USER_NAME
  | HTERR_TOO_LONG_USER_NAME
  | HTERR_INVALID_CHAR
  | HTERR_EMPTY_PASSWORD
  | HTERR_TOO_LONG_PASSWORD
  | HTERR_USER_NAME_EXIST
  | HTERR_NO_PRIVILEGE
  | HTERR_INVALID_PRIVILEGE_FLAGS
  | HTERR_EMPTY_USER_ROLE_NAME
  | HTERR_TOO_LONG_USER_ROLE_NAME
  | HTERR_USER_ROLE_NAME_OR_PRIVILEGE_FLAGS_EXIST
  | HTERR_OFFSET_WITHOUT_LIMIT
  | HTERR_NOT_FOUND_SORT_ORDER
  | HTERR_DELETE_INCOMPLETE
  | HTERR_INVALID_ARGS
  | HTERR_FAILED_TO_SPAWN
  | HTERR_UNSUPPORTED_FORMAT
  | HTERR_NOT_FOUND_SESSION_ID
  | HTERR_NOT_FOUND_ID_IN_URL
  | HTERR_NOT_FOUND_PARAMETER
  | HTERR_INVALID_PARAMETER
  | HTERR_AUTH_FAILED
  | HTERR_NOT_TEST_MODE
  | HTERR_FAILED_TO_CREATE_DATA_STORE
  | HTERR_FAILED_TO_REGISTER_DATA_STORE
  | HTERR_FAILED_TO_STOP_DATA_STORE
  | HTERR_FAILED_TO_SEND_INCIDENT
  | HTERR_FAILED_CONNECT_ZABBIX
  | HTERR_FAILED_CONNECT_MYSQL
  | HTERR_FAILED_CONNECT_BROKER
  | HTERR_FAILED_CONNECT_HAP
  | HTERR_HAP_INTERNAL_ERROR
  | HTERR_ERROR_TEST
  | HTERR_ERROR_TEST_WITHOUT_MESSAGE
  | HTERR_NOT_FOUND_SERVER_TYPE
  | HTERR_INVALID_SERVER_TYPE
  | HTERR_NOT_FOUND_HYPERVISOR
  | HTERR_DELETE_MYSELF
  | HTERR_INVALID_POLLING_INTERVAL
  | HTERR_INVALID_RETRY_INTERVAL
  | HTERR_VALID_DBAGENT_NO_LONGER_EXISTS
  | HTERR_FAILED_CONNECT_HAP2
  | HTERR_INVALID_OBJECT_PASSED_BY_HAP2
  | HTERR_RECORD_EXISTS
  | HTERR_OBSOLETE_ARM_PLUGIN_TYPE
  | HTERR_DUPLICATE_QUEUE_NAME
  | HTERR_RESERVED_QUEUE_NAME
  | NUM_HATOHOL_ERROR_CODE

section \<open>The tables filled by \<open>init\<close>\<close>

record error_tables =
  errorCodeNames :: "hterr \<Rightarrow> string option"
  errorMessages :: "hterr \<Rightarrow> string option"

definition empty_tables :: error_tables where
  "empty_tables = \<lparr>errorCodeNames = (\<lambda>_. None), errorMessages = (\<lambda>_. None)\<rparr>"

definition defineError :: "hterr \<Rightarrow> string \<Rightarrow> string \<Rightarrow> error_tables \<Rightarrow> error_tables" where
  "defineError errorCode errorCodeName errorMessage t =
     t\<lparr>errorCodeNames := (errorCodeNames t)(errorCode \<mapsto> errorCodeName),
       errorMessages := (errorMessages t)(errorCode \<mapsto> errorMessage)\<rparr>"

definition init_defs :: "(hterr \<times> string \<times> string) list" where
  "init_defs =
  [(HTERR_OK, ''HTERR_OK'', ''OK.''),
   (HTERR_UNINITIALIZED, ''HTERR_UNINITIALIZED'', ''Uninitialized (This is probably a bug).''),
   (HTERR_UNKNOWN_REASON, ''HTERR_UNKNOWN_REASON'', ''Unknown reason.''),
   (HTERR_NOT_IMPLEMENTED, ''HTERR_NOT_IMPLEMENTED'', ''Not implemented.''),
   (HTERR_GOT_EXCEPTION, ''HTERR_GOT_EXCEPTION'', ''Got exception.''),
   (HTERR_INTERNAL_ERROR, ''HTERR_INTERNAL_ERROR'', ''Internal error happend.''),
   (HTERR_INVALID_USER, ''HTERR_INVALID_USER'', ''Invalid user.''),
   (HTERR_INVALID_URL, ''HTERR_INVALID_URL'', ''Invalid URL.''),
   (HTERR_BAD_REST_RESPONSE, ''HTERR_BAD_REST_RESPONSE'', ''Invalid URL.''),
   (HTERR_FAILED_TO_PARSE_JSON_DATA, ''HTERR_FAILED_TO_PARSE_JSON_DATA'', ''Failed to parse JSON data.''),
   (HTERR_NOT_FOUND_TARGET_RECORD, ''HTERR_NOT_FOUND_TARGET_RECORD'', ''Not found target record.''),
   (HTERR_INVALID_MONITORING_SYSTEM_TYPE, ''HTERR_INVALID_MONITORING_SYSTEM_TYPE'', ''Invalid monitoring system type.''),
   (HTERR_INVALID_PORT_NUMBER, ''HTERR_INVALID_PORT_NUMBER'', ''Invalid port number.''),
   (HTERR_INVALID_IP_ADDRESS, ''HTERR_INVALID_IP_ADDRESS'', ''Invalid IP address.''),
   (HTERR_INVALID_HOST_NAME, ''HTERR_INVALID_HOST_NAME'', ''Invalid host name.''),
   (HTERR_INVALID_ARM_PLUGIN_TYPE, ''HTERR_INVALID_ARM_PLUGIN_TYPE'', ''Invalid arm plugin type.''),
   (HTERR_INVALID_ARM_PLUGIN_ID, ''HTERR_INVALID_ARM_PLUGIN_ID'', ''Invalid arm plugin ID.''),
   (HTERR_INVALID_ARM_PLUGIN_PATH, ''HTERR_INVALID_ARM_PLUGIN_PATH'', ''Invalid arm plugin path.''),
   (HTERR_DIFFER_TYPE_SERVER_AND_ARM_PLUGIN, ''HTERR_DIFFER_TYPE_SERVER_AND_ARM_PLUGIN'', ''Differ type server and arm plugin.''),
   (HTERR_NO_IP_ADDRESS_AND_HOST_NAME, ''HTERR_NO_IP_ADDRESS_AND_HOST_NAME'', ''No IP address and host name.''),
   (HTERR_INVALID_INCIDENT_TRACKER_TYPE, ''HTERR_INVALID_INCIDENT_TRACKER_TYPE'', ''Invalid incident tracker type.''),
   (HTERR_NO_INCIDENT_TRACKER_LOCATION, ''HTERR_NO_INCIDENT_TRACKER_LOCATION'', ''NO incident tracker location.''),
   (HTERR_EMPTY_USER_NAME, ''HTERR_EMPTY_USER_NAME'', ''Empty user name.''),
   (HTERR_TOO_LONG_USER_NAME, ''HTERR_TOO_LONG_USER_NAME'', ''Too long user name.''),
   (HTERR_INVALID_CHAR, ''HTERR_INVALID_CHAR'', ''Invalid character.''),
   (HTERR_EMPTY_PASSWORD, ''HTERR_EMPTY_PASSWORD'', ''Password is empty.''),
   (HTERR_TOO_LONG_PASSWORD, ''HTERR_TOO_LONG_PASSWORD'', ''Too long password.''),
   (HTERR_USER_NAME_EXIST, ''HTERR_USER_NAME_EXIST'', ''The same user name already exists.''),
   (HTERR_NO_PRIVILEGE, ''HTERR_NO_PRIVILEGE'', ''No privilege.''),
   (HTERR_INVALID_PRIVILEGE_FLAGS, ''HTERR_INVALID_PRIVILEGE_FLAGS'', ''Invalid privilege flags.''),
   (HTERR_EMPTY_USER_ROLE_NAME, ''HTERR_EMPTY_USER_ROLE_NAME'', ''Empty user role name.''),
   (HTERR_TOO_LONG_USER_ROLE_NAME, ''HTERR_TOO_LONG_USER_ROLE_NAME'', ''Too long User role name.''),
   (HTERR_USER_ROLE_NAME_OR_PRIVILEGE_FLAGS_EXIST, ''HTERR_USER_ROLE_NAME_OR_PRIVILEGE_FLAGS_EXIST'', ''The same user role name or a user role with the same privilege already exists.''),
   (HTERR_OFFSET_WITHOUT_LIMIT, ''HTERR_OFFSET_WITHOUT_LIMIT'', ''An offset value is specified but no limit value is specified.''),
   (HTERR_NOT_FOUND_SORT_ORDER, ''HTERR_NOT_FOUND_SORT_ORDER'', ''Not found sort order.''),
   (HTERR_DELETE_INCOMPLETE, ''HTERR_DELETE_INCOMPLETE'', ''The delete operation was incomplete.''),
   (HTERR_INVALID_ARGS, ''HTERR_INVALID_ARGS'', ''Invalid args.''),
   (HTERR_FAILED_TO_SPAWN, ''HTERR_FAILED_TO_SPAWN'', ''Failed to spawn.''),
   (HTERR_UNSUPPORTED_FORMAT, ''HTERR_UNSUPPORTED_FORMAT'', ''Unsupported format.''),
   (HTERR_NOT_FOUND_SESSION_ID, ''HTERR_NOT_FOUND_SESSION_ID'', ''Not found session ID.''),
   (HTERR_NOT_FOUND_ID_IN_URL, ''HTERR_NOT_FOUND_ID_IN_URL'', ''Not found ID in the URL.''),
   (HTERR_NOT_FOUND_PARAMETER, ''HTERR_NOT_FOUND_PARAMETER'', ''Not found parameter.''),
   (HTERR_INVALID_PARAMETER, ''HTERR_INVALID_PARAMETER'', ''Invalid parameter.''),
   (HTERR_AUTH_FAILED, ''HTERR_AUTH_FAILED'', ''Authentication failed.''),
   (HTERR_NOT_TEST_MODE, ''HTERR_NOT_TEST_MODE'', ''Not test mode.''),
   (HTERR_FAILED_TO_CREATE_DATA_STORE, ''HTERR_FAILED_TO_CREATE_DATA_STORE'', ''Failed to create a DataStore object.''),
   (HTERR_FAILED_TO_REGISTER_DATA_STORE, ''HTERR_FAILED_TO_REGISTER_DATA_STORE'', ''Failed to register a DataStore object.''),
   (HTERR_FAILED_TO_STOP_DATA_STORE, ''HTERR_FAILED_TO_STOP_DATA_STORE'', ''Failed to stop a DataStore object.''),
   (HTERR_FAILED_TO_SEND_INCIDENT, ''HTERR_FAILED_TO_SEND_INCIDENT'', ''Failed to send an incident to an incident tracker.''),
   (HTERR_FAILED_CONNECT_ZABBIX, ''HTERR_FAILED_CONNECT_ZABBIX'', ''Failed in connecting to Zabbix.''),
   (HTERR_FAILED_CONNECT_MYSQL, ''HTERR_FAILED_CONNECT_MYSQL'', ''Failed in connecting to MySQL.''),
   (HTERR_FAILED_CONNECT_BROKER, ''HTERR_FAILED_CONNECT_BROKER'', ''Failed in connecting to Broker.''),
   (HTERR_FAILED_CONNECT_HAP, ''HTERR_FAILED_CONNECT_HAP'', ''Failed in connecting to ArmPlugin.''),
   (HTERR_HAP_INTERNAL_ERROR, ''HTERR_HAP_INTERNAL_ERROR'', ''Internal error happend in ArmPlugin.''),
   (HTERR_ERROR_TEST, ''HTERR_ERROR_TEST'', ''Error test.''),
   (HTERR_ERROR_TEST_WITHOUT_MESSAGE, ''HTERR_ERROR_TEST_WITHOUT_MESSAGE'', ''''),
   (HTERR_NOT_FOUND_SERVER_TYPE, ''HTERR_NOT_FOUND_SERVER_TYPE'', ''The server type doesn't exist.''),
   (HTERR_INVALID_SERVER_TYPE, ''HTERR_INVALID_SERVER_TYPE'', ''The server type is invalid.''),
   (HTERR_NOT_FOUND_HYPERVISOR, ''HTERR_NOT_FOUND_HYPERVISOR'', ''Not found hypervisor.''),
   (HTERR_DELETE_MYSELF, ''HTERR_DELETE_MYSELF'', ''A user cannot delete itself.''),
   (HTERR_INVALID_POLLING_INTERVAL, ''HTERR_INVALID_POLLING_INTERVAL'', ''Invalid polling interval.''),
   (HTERR_INVALID_RETRY_INTERVAL, ''HTERR_INVALID_RETRY_INTERVAL'', ''Invalid retry interval.''),
   (HTERR_VALID_DBAGENT_NO_LONGER_EXISTS, ''HTERR_VALID_DBAGENT_NO_LONGER_EXISTS'', ''Valid DBAgent no longer exists.''),
   (HTERR_FAILED_CONNECT_HAP2, ''HTERR_FAILED_CONNECT_HAP2'', ''HAP2 connection unavailable.''),
   (HTERR_INVALID_OBJECT_PASSED_BY_HAP2, ''HTERR_INVALID_OBJECT_PASSED_BY_HAP2'', ''Invalid object passed by HAP2.''),
   (HTERR_RECORD_EXISTS, ''HTERR_RECORD_EXISTS'', ''The record already exists.''),
   (HTERR_OBSOLETE_ARM_PLUGIN_TYPE, ''HTERR_OBSOLETE_ARM_PLUGIN_TYPE'', ''The plugin type is already obsoleted.''),
   (HTERR_DUPLICATE_QUEUE_NAME, ''HTERR_DUPLICATE_QUEUE_NAME'', ''Input queue name has been used by other plugin.''),
   (HTERR_RESERVED_QUEUE_NAME, ''HTERR_RESERVED_QUEUE_NAME'', ''Input queue name has been reserved by Hatohol server.'')]"

definition hatohol_error_init :: "error_tables \<Rightarrow> error_tables" where
  "hatohol_error_init t = fold (\<lambda>(c, n, m). defineError c n m) init_defs t"

section \<open>The error object\<close>

record hatohol_error =
  m_code :: hterr
  m_optMessage :: string

definition mk_error :: "hterr \<Rightarrow> string \<Rightarrow> hatohol_error" where
  "mk_error code optMessage =
     \<lparr>m_code = code, m_optMessage = (if optMessage \<noteq> [] then optMessage else [])\<rparr>"

definition error_getCodeName :: "error_tables \<Rightarrow> hatohol_error \<Rightarrow> string" where
  "error_getCodeName t e = (case errorCodeNames t (m_code e) of Some n \<Rightarrow> n | None \<Rightarrow> [])"

definition error_getMessage :: "error_tables \<Rightarrow> hterr \<Rightarrow> string" where
  "error_getMessage t code = (case errorMessages t code of Some m \<Rightarrow> m | None \<Rightarrow> [])"

definition error_eq_code :: "hatohol_error \<Rightarrow> hterr \<Rightarrow> bool" where
  "error_eq_code e rhs \<longleftrightarrow> m_code e = rhs"

definition error_assign_code :: "hatohol_error \<Rightarrow> hterr \<Rightarrow> hatohol_error" where
  "error_assign_code e code = e\<lparr>m_code := code, m_optMessage := []\<rparr>"

section \<open>Lookups after \<open>init\<close>\<close>

lemma fold_defineError_names:
  "errorCodeNames (fold (\<lambda>(c, n, m). defineError c n m) ds t) c =
     (case map_of (rev (map (\<lambda>(c, n, m). (c, n)) ds)) c of Some n \<Rightarrow> Some n | None \<Rightarrow> errorCodeNames t c)"
  by (induction ds arbitrary: t) (auto simp: defineError_def map_add_def split: option.splits)

lemma fold_defineError_messages:
  "errorMessages (fold (\<lambda>(c, n, m). defineError c n m) ds t) c =
     (case map_of (rev (map (\<lambda>(c, n, m). (c, m)) ds)) c of Some m \<Rightarrow> Some m | None \<Rightarrow> errorMessages t c)"
  by (induction ds arbitrary: t) (auto simp: defineError_def map_add_def split: option.splits)

lemma error_assign_code_eq: "error_eq_code (error_assign_code e c) c' \<longleftrightarrow> c = c'"
  by (simp add: error_eq_code_def error_assign_code_def)

end
