(* ===== verification/Op_Privilege.thy ===== *)
theory Op_Privilege
  imports Hato_Error
begin

unbundle bit_operations_syntax

text \<open>
  \<open>OperationPrivilege\<close> (src/server/src/OperationPrivilege.h, OperationPrivilege.cc): the
  privileges of a user as bits of a 64-bit word. The shifts are kept at the width the C++
  expressions have: \<open>makeFlag\<close> shifts an unsigned 64-bit one, \<open>addFlag\<close> and \<open>removeFlag\<close> shift
  an \<open>int\<close> and widen the result with its sign. The user table is a parameter
  of \<open>setUserId\<close>: what \<open>getUserInfo\<close> finds for an id.
\<close>

section \<open>Privilege types\<close>

datatype (plugins del: size transfer lifting quickcheck_exhaustive quickcheck_random quickcheck_full_exhaustive quickcheck_narrowing) opprvlg =
    OPPRVLG_CREATE_USER
  | OPPRVLG_UPDATE_USER
  | OPPRVLG_DELETE_USER
  | OPPRVLG_GET_ALL_USER
  | OPPRVLG_CREATE_SERVER
  | OPPRVLG_UPDATE_SERVER
  | OPPRVLG_UPDATE_ALL_SERVER
  | OPPRVLG_DELETE_SERVER
  | OPPRVLG_DELETE_ALL_SERVER
  | OPPRVLG_GET_ALL_SERVER
  | OPPRVLG_CREATE_ACTION
  | OPPRVLG_UPDATE_ACTION
  | OPPRVLG_UPDATE_ALL_ACTION
  | OPPRVLG_DELETE_ACTION
  | OPPRVLG_DELETE_ALL_ACTION
  | OPPRVLG_GET_ALL_ACTION
  | OPPRVLG_CREATE_USER_ROLE
  | OPPRVLG_UPDATE_ALL_USER_ROLE
  | OPPRVLG_DELETE_ALL_USER_ROLE
  | OPPRVLG_CREATE_INCIDENT_SETTING
  | OPPRVLG_UPDATE_INCIDENT_SETTING
  | OPPRVLG_DELETE_INCIDENT_SETTING
  | OPPRVLG_GET_ALL_INCIDENT_SETTINGS
  | OPPRVLG_GET_SYSTEM_INFO
  | OPPRVLG_SYSTEM_OPERATION
  | OPPRVLG_CREATE_SEVERITY_RANK
  | OPPRVLG_UPDATE_SEVERITY_RANK
  | OPPRVLG_DELETE_SEVERITY_RANK
  | NUM_OPPRVLG

fun opprvlg_index :: "opprvlg \<Rightarrow> nat" where
  "opprvlg_index OPPRVLG_CREATE_USER = 0"
| "opprvlg_index OPPRVLG_UPDATE_USER = 1"
| "opprvlg_index OPPRVLG_DELETE_USER = 2"
| "opprvlg_index OPPRVLG_GET_ALL_USER = 3"
| "opprvlg_index OPPRVLG_CREATE_SERVER = 4"
| "opprvlg_index OPPRVLG_UPDATE_SERVER = 5"
| "opprvlg_index OPPRVLG_UPDATE_ALL_SERVER = 6"
| "opprvlg_index OPPRVLG_DELETE_SERVER = 7"
| "opprvlg_index OPPRVLG_DELETE_ALL_SERVER = 8"
| "opprvlg_index OPPRVLG_GET_ALL_SERVER = 9"
| "opprvlg_index OPPRVLG_CREATE_ACTION = 10"
| "opprvlg_index OPPRVLG_UPDATE_ACTION = 11"
| "opprvlg_index OPPRVLG_UPDATE_ALL_ACTION = 12"
| "opprvlg_index OPPRVLG_DELETE_ACTION = 13"
| "opprvlg_index OPPRVLG_DELETE_ALL_ACTION = 14"
| "opprvlg_index OPPRVLG_GET_ALL_ACTION = 15"
| "opprvlg_index OPPRVLG_CREATE_USER_ROLE = 16"
| "opprvlg_index OPPRVLG_UPDATE_ALL_USER_ROLE = 17"
| "opprvlg_index OPPRVLG_DELETE_ALL_USER_ROLE = 18"
| "opprvlg_index OPPRVLG_CREATE_INCIDENT_SETTING = 19"
| "opprvlg_index OPPRVLG_UPDATE_INCIDENT_SETTING = 20"
| "opprvlg_index OPPRVLG_DELETE_INCIDENT_SETTING = 21"
| "opprvlg_index OPPRVLG_GET_ALL_INCIDENT_SETTINGS = 22"
| "opprvlg_index OPPRVLG_GET_SYSTEM_INFO = 23"
| "opprvlg_index OPPRVLG_SYSTEM_OPERATION = 24"
| "opprvlg_index OPPRVLG_CREATE_SEVERITY_RANK = 25"
| "opprvlg_index OPPRVLG_UPDATE_SEVERITY_RANK = 26"
| "opprvlg_index OPPRVLG_DELETE_SEVERITY_RANK = 27"
| "opprvlg_index NUM_OPPRVLG = 28"

section \<open>Flags\<close>

type_synonym opflag = u64

definition makeFlag :: "opprvlg \<Rightarrow> opflag" where
  "makeFlag type = push_bit (opprvlg_index type) 1"

definition NONE_PRIVILEGE :: opflag where
  "NONE_PRIVILEGE = 0"

definition ALL_PRIVILEGES :: opflag where
  "ALL_PRIVILEGES = makeFlag NUM_OPPRVLG - 1"

text \<open>The \<open>int\<close> expression \<open>1 << type\<close>, widened to 64 bits where it meets the flags.\<close>

definition int_flag :: "opprvlg \<Rightarrow> 32 word" where
  "int_flag type = push_bit (opprvlg_index type) 1"

definition addFlag :: "opflag \<Rightarrow> opprvlg \<Rightarrow> opflag" where
  "addFlag flags type = (flags OR scast (int_flag type))"

definition removeFlag :: "opflag \<Rightarrow> opprvlg \<Rightarrow> opflag" where
  "removeFlag flags type = (flags AND scast (NOT (int_flag type)))"

section \<open>The privilege object\<close>

record op_privilege =
  op_userId :: int
  op_flags :: opflag

definition INVALID_USER_ID :: int where
  "INVALID_USER_ID = -1"

definition USER_ID_SYSTEM :: int where
  "USER_ID_SYSTEM = 0"

definition mk_privilege :: "opflag \<Rightarrow> op_privilege" where
  "mk_privilege flags = \<lparr>op_userId = INVALID_USER_ID, op_flags = flags\<rparr>"

definition op_add :: "op_privilege \<Rightarrow> opprvlg \<Rightarrow> op_privilege" where
  "op_add p type = p\<lparr>op_flags := addFlag (op_flags p) type\<rparr>"

definition op_remove :: "op_privilege \<Rightarrow> opprvlg \<Rightarrow> op_privilege" where
  "op_remove p type = p\<lparr>op_flags := removeFlag (op_flags p) type\<rparr>"

definition op_setFlags :: "op_privilege \<Rightarrow> opflag \<Rightarrow> op_privilege" where
  "op_setFlags p flags = p\<lparr>op_flags := flags\<rparr>"

definition op_has :: "op_privilege \<Rightarrow> opprvlg \<Rightarrow> bool" where
  "op_has p type \<longleftrightarrow> (op_flags p AND makeFlag type) \<noteq> 0"

definition op_eq :: "op_privilege \<Rightarrow> op_privilege \<Rightarrow> bool" where
  "op_eq l r \<longleftrightarrow>
     (if op_userId l \<noteq> op_userId r then False
      else if op_flags l \<noteq> op_flags r then False
      else True)"

text \<open>\<open>lookup\<close> stands for \<open>DBTablesUser::getUserInfo\<close>: the flags stored for an id, if any.\<close>

definition op_setUserId :: "(int \<Rightarrow> opflag option) \<Rightarrow> op_privilege \<Rightarrow> int \<Rightarrow> op_privilege" where
  "op_setUserId lookup p userId =
     (let p = p\<lparr>op_userId := userId, op_flags := 0\<rparr>
      in if userId = INVALID_USER_ID then p
         else if userId = USER_ID_SYSTEM then op_setFlags p ALL_PRIVILEGES
         else (case lookup userId of
             None \<Rightarrow> p\<lparr>op_userId := INVALID_USER_ID\<rparr>
           | Some flags \<Rightarrow> op_setFlags p flags))"

definition privilege_of_user :: "(int \<Rightarrow> opflag option) \<Rightarrow> int \<Rightarrow> op_privilege" where
  "privilege_of_user lookup userId = op_setUserId lookup (mk_privilege 0) userId"

section \<open>Bits\<close>

lemma opprvlg_index_bound: "opprvlg_index t \<le> 28"
  by (cases t) simp_all

lemma opprvlg_index_lt: "t \<noteq> NUM_OPPRVLG \<Longrightarrow> opprvlg_index t < 28"
  by (cases t) simp_all

lemma opprvlg_of_index: "n < 29 \<Longrightarrow> \<exists>t. opprvlg_index t = n"
proof -
  assume "n < 29"
  then have "n \<in> set (map opprvlg_index [OPPRVLG_CREATE_USER, OPPRVLG_UPDATE_USER, OPPRVLG_DELETE_USER, OPPRVLG_GET_ALL_USER, OPPRVLG_CREATE_SERVER, OPPRVLG_UPDATE_SERVER, OPPRVLG_UPDATE_ALL_SERVER, OPPRVLG_DELETE_SERVER, OPPRVLG_DELETE_ALL_SERVER, OPPRVLG_GET_ALL_SERVER, OPPRVLG_CREATE_ACTION, OPPRVLG_UPDATE_ACTION, OPPRVLG_UPDATE_ALL_ACTION, OPPRVLG_DELETE_ACTION, OPPRVLG_DELETE_ALL_ACTION, OPPRVLG_GET_ALL_ACTION, OPPRVLG_CREATE_USER_ROLE, OPPRVLG_UPDATE_ALL_USER_ROLE, OPPRVLG_DELETE_ALL_USER_ROLE, OPPRVLG_CREATE_INCIDENT_SETTING, OPPRVLG_UPDATE_INCIDENT_SETTING, OPPRVLG_DELETE_INCIDENT_SETTING, OPPRVLG_GET_ALL_INCIDENT_SETTINGS, OPPRVLG_GET_SYSTEM_INFO, OPPRVLG_SYSTEM_OPERATION, OPPRVLG_CREATE_SEVERITY_RANK, OPPRVLG_UPDATE_SEVERITY_RANK, OPPRVLG_DELETE_SEVERITY_RANK, NUM_OPPRVLG])"
    by (simp add: numeral_eq_Suc less_Suc_eq) 
  then show ?thesis by (auto simp del: opprvlg_index.simps)
qed

lemma opprvlg_index_inj: "opprvlg_index s = opprvlg_index t \<longleftrightarrow> s = t"
proof
  assume eq: "opprvlg_index s = opprvlg_index t"
  have "inv_idx ! opprvlg_index t = t" if "inv_idx = [OPPRVLG_CREATE_USER, OPPRVLG_UPDATE_USER, OPPRVLG_DELETE_USER, OPPRVLG_GET_ALL_USER, OPPRVLG_CREATE_SERVER, OPPRVLG_UPDATE_SERVER, OPPRVLG_UPDATE_ALL_SERVER, OPPRVLG_DELETE_SERVER, OPPRVLG_DELETE_ALL_SERVER, OPPRVLG_GET_ALL_SERVER, OPPRVLG_CREATE_ACTION, OPPRVLG_UPDATE_ACTION, OPPRVLG_UPDATE_ALL_ACTION, OPPRVLG_DELETE_ACTION, OPPRVLG_DELETE_ALL_ACTION, OPPRVLG_GET_ALL_ACTION, OPPRVLG_CREATE_USER_ROLE, OPPRVLG_UPDATE_ALL_USER_ROLE, OPPRVLG_DELETE_ALL_USER_ROLE, OPPRVLG_CREATE_INCIDENT_SETTING, OPPRVLG_UPDATE_INCIDENT_SETTING, OPPRVLG_DELETE_INCIDENT_SETTING, OPPRVLG_GET_ALL_INCIDENT_SETTINGS, OPPRVLG_GET_SYSTEM_INFO, OPPRVLG_SYSTEM_OPERATION, OPPRVLG_CREATE_SEVERITY_RANK, OPPRVLG_UPDATE_SEVERITY_RANK, OPPRVLG_DELETE_SEVERITY_RANK, NUM_OPPRVLG]" for inv_idx t
    unfolding that by (cases t) simp_all
  then show "s = t" using eq by metis
qed simp

lemma bit_push_one: "bit (push_bit k 1 :: 'a::len word) n \<longleftrightarrow> n = k \<and> k < LENGTH('a)"
  by (auto simp: bit_exp_iff)

lemma bit_makeFlag: "bit (makeFlag t) n \<longleftrightarrow> n = opprvlg_index t"
  using opprvlg_index_bound [of t] by (auto simp: makeFlag_def bit_push_one simp del: push_bit_of_1)

lemma bit_int_flag: "bit (int_flag t) n \<longleftrightarrow> n = opprvlg_index t"
  using opprvlg_index_bound [of t] by (auto simp: int_flag_def bit_push_one simp del: push_bit_of_1)

lemma bit_scast_int_flag: "bit (scast (int_flag t) :: opflag) n \<longleftrightarrow> n = opprvlg_index t"
  using opprvlg_index_bound [of t] by (auto simp: bit_signed_iff bit_int_flag min_def)

lemma bit_scast_not_int_flag:
  "bit (scast (NOT (int_flag t)) :: opflag) n \<longleftrightarrow> n < 64 \<and> n \<noteq> opprvlg_index t"
  using opprvlg_index_bound [of t] by (auto simp: bit_signed_iff bit_not_iff bit_int_flag min_def)

lemma and_makeFlag_zero: "(f AND makeFlag t) = 0 \<longleftrightarrow> \<not> bit f (opprvlg_index t)"
proof
  assume "(f AND makeFlag t) = 0"
  then have "\<not> bit (f AND makeFlag t) (opprvlg_index t)" by simp
  then show "\<not> bit f (opprvlg_index t)" by (simp add: bit_and_iff bit_makeFlag)
next
  assume "\<not> bit f (opprvlg_index t)"
  then show "(f AND makeFlag t) = 0"
    by (intro bit_word_eqI) (auto simp: bit_and_iff bit_makeFlag)
qed

lemma op_has_bit: "op_has p t \<longleftrightarrow> bit (op_flags p) (opprvlg_index t)"
  by (simp add: op_has_def and_makeFlag_zero)

lemma bit_addFlag: "bit (addFlag f t) n \<longleftrightarrow> bit f n \<or> n = opprvlg_index t"
  by (simp add: addFlag_def bit_or_iff bit_scast_int_flag)

lemma bit_removeFlag: "bit (removeFlag f t) n \<longleftrightarrow> bit f n \<and> n \<noteq> opprvlg_index t"
  using bit_imp_le_length [of f n] by (auto simp: removeFlag_def bit_and_iff bit_scast_not_int_flag)

lemmas privilege_bits = op_has_bit bit_addFlag bit_removeFlag opprvlg_index_inj

lemma ALL_PRIVILEGES_mask: "ALL_PRIVILEGES = mask 28"
  by (simp add: ALL_PRIVILEGES_def makeFlag_def mask_eq_exp_minus_1 push_bit_eq_mult)

lemma bit_ALL_PRIVILEGES: "bit ALL_PRIVILEGES n \<longleftrightarrow> n < 28"
  by (auto simp: ALL_PRIVILEGES_mask bit_mask_iff)

section \<open>Granting and revoking\<close>

lemma op_has_add: "op_has (op_add p t) u \<longleftrightarrow> op_has p u \<or> u = t"
  by (auto simp: op_add_def privilege_bits)

lemma op_has_remove: "op_has (op_remove p t) u \<longleftrightarrow> op_has p u \<and> u \<noteq> t"
  by (auto simp: op_remove_def privilege_bits)

lemma op_has_setFlags_all: "op_has (op_setFlags p ALL_PRIVILEGES) t \<longleftrightarrow> t \<noteq> NUM_OPPRVLG"
  using opprvlg_index_lt [of t] by (auto simp: op_setFlags_def op_has_bit bit_ALL_PRIVILEGES)

lemma op_has_none: "\<not> op_has (p\<lparr>op_flags := 0\<rparr>) t"
  by (simp add: op_has_bit)

lemma privilege_of_user_userId:
  "op_userId (privilege_of_user lookup u) =
     (if u = INVALID_USER_ID \<or> u \<noteq> USER_ID_SYSTEM \<and> lookup u = None then INVALID_USER_ID else u)"
  by (auto simp: privilege_of_user_def op_setUserId_def op_setFlags_def mk_privilege_def Let_def
      INVALID_USER_ID_def USER_ID_SYSTEM_def split: option.splits)

lemma privilege_of_user_flags:
  "op_flags (privilege_of_user lookup u) =
     (if u = INVALID_USER_ID then 0
      else if u = USER_ID_SYSTEM then ALL_PRIVILEGES
      else case lookup u of None \<Rightarrow> 0 | Some f \<Rightarrow> f)"
  by (simp add: privilege_of_user_def op_setUserId_def op_setFlags_def Let_def split: option.splits)

end
