(* ===== verification/Sql_Term.thy ===== *)
theory Sql_Term
  imports Hato_Prelude
begin

text \<open>
  Terms and conditions of the SQL text the server assembles.
  \<^item> \<open>DBTermCodec::enc\<close> (src/server/src/DBTermCodec.cc) writes a value as an SQL literal.
    Two readers of quoted literals, as the SQL standard (and SQLite) and as MySQL in its default
    mode define them, say what a database makes of the text.
  \<^item> \<open>DataQueryOption::addCondition\<close> and \<open>DB::getAlwaysFalseCondition\<close> build the text of WHERE
    conditions. The datatype \<open>sql_atom\<close> with \<open>render\<close> and \<open>holds\<close> is the abstract reading of
    such a text: a disjunction of conjunctions, AND binding tighter than OR, exactly as SQL
    parses an unparenthesised chain of the two.
\<close>

section \<open>Literals\<close>

abbreviation (input) quot :: char where
  "quot \<equiv> CHR 0x27"

definition enc_int :: "int \<Rightarrow> string" where
  "enc_int val = dec_int val"

definition enc_u64 :: "u64 \<Rightarrow> string" where
  "enc_u64 val = dec_nat (unat val)"

text \<open>The first loop: the offsets of the quotations before the terminating NUL.\<close>

fun quot_positions :: "nat \<Rightarrow> string \<Rightarrow> nat list" where
  "quot_positions i [] = []"
| "quot_positions i (ch # cs) =
     (if ch = nul then []
      else if ch = quot then i # quot_positions (Suc i) cs
      else quot_positions (Suc i) cs)"

text \<open>The second loop: every segment up to a quotation is copied and the quotation doubled.\<close>

fun enc_segments :: "string \<Rightarrow> nat \<Rightarrow> nat list \<Rightarrow> string \<Rightarrow> string" where
  "enc_segments val head [] str = str @ cstr (drop head val)"
| "enc_segments val head (tail # ps) str =
     enc_segments val (tail + 1) ps (str @ take (tail - head + 1) (drop head val) @ [quot])"

definition enc_str :: "string \<Rightarrow> string" where
  "enc_str val = enc_segments val 0 (quot_positions 0 val) [quot] @ [quot]"

definition double_quots :: "string \<Rightarrow> string" where
  "double_quots s = concat (map (\<lambda>c. if c = quot then [quot, quot] else [c]) s)"

lemma quot_positions_Suc: "quot_positions (Suc i) s = map Suc (quot_positions i s)"
  by (induction i s rule: quot_positions.induct) auto

lemma enc_segments_acc: "enc_segments val h ps (a @ b) = a @ enc_segments val h ps b"
  by (induction val h ps b arbitrary: a rule: enc_segments.induct) simp_all

lemma enc_segments_Nil_acc: "enc_segments val h ps a = a @ enc_segments val h ps []"
  using enc_segments_acc [of val h ps a "[]"] by simp

lemma enc_segments_Cons:
  "enc_segments (c # val) (Suc h) (map Suc ps) a = enc_segments val h ps a"
  by (induction val h ps a rule: enc_segments.induct) simp_all

lemma enc_segments_double: "enc_segments val 0 (quot_positions 0 val) [] = double_quots (cstr val)"
proof (induction val)
  case Nil
  then show ?case by (simp add: double_quots_def cstr_def)
next
  case (Cons c cs)
  consider (z) "c = nul" | (q) "c \<noteq> nul" "c = quot" | (o) "c \<noteq> nul" "c \<noteq> quot" by blast
  then show ?case
  proof cases
    case z
    then show ?thesis by (simp add: double_quots_def cstr_def)
  next
    case q
    then have "enc_segments (c # cs) 0 (quot_positions 0 (c # cs)) [] =
        [quot, quot] @ enc_segments (c # cs) (Suc 0) (map Suc (quot_positions 0 cs)) []"
      using enc_segments_Nil_acc [of "c # cs" "Suc 0" "map Suc (quot_positions 0 cs)" "[quot, quot]"]
      by (simp add: quot_positions_Suc)
    with q show ?thesis
      by (simp only: enc_segments_Cons Cons.IH) (simp add: double_quots_def cstr_def)
  next
    case o
    have first: "enc_segments (c # cs) 0 (map Suc ps) [] = c # enc_segments cs 0 ps []" for ps
    proof (cases ps)
      case Nil
      with o show ?thesis by (simp add: cstr_def)
    next
      case (Cons p qs)
      have "enc_segments (c # cs) 0 (map Suc ps) [] =
          (c # take (Suc p) cs @ [quot]) @ enc_segments (c # cs) (Suc (Suc p)) (map Suc qs) []"
        using enc_segments_Nil_acc [of "c # cs" "Suc (Suc p)" "map Suc qs" "c # take (Suc p) cs @ [quot]"]
        by (simp add: Cons)
      also have "\<dots> = c # (take (Suc p) cs @ [quot]) @ enc_segments cs (Suc p) qs []"
        by (simp only: enc_segments_Cons) simp
      also have "\<dots> = c # enc_segments cs 0 ps []"
        using enc_segments_Nil_acc [of cs "Suc p" qs "take (Suc p) cs @ [quot]"] by (simp add: Cons)
      finally show ?thesis .
    qed
    from o show ?thesis
      by (simp add: quot_positions_Suc first Cons.IH) (simp add: double_quots_def cstr_def)
  qed
qed

lemma enc_str_eq: "enc_str val = quot # double_quots (cstr val) @ [quot]"
  using enc_segments_Nil_acc [of val 0 "quot_positions 0 val" "[quot]"]
  by (simp add: enc_str_def enc_segments_double)

section \<open>Reading a literal back\<close>

text \<open>
  A quoted literal as standard SQL reads it: two adjacent quotations stand for one, a single
  quotation ends the literal. The result is the value and the text behind the literal.
\<close>

fun scan_body :: "string \<Rightarrow> (string \<times> string) option" where
  "scan_body [] = None"
| "scan_body (c # cs) =
     (if c = quot then
        (case cs of
           d # ds \<Rightarrow> if d = quot then map_option (\<lambda>(a, r). (quot # a, r)) (scan_body ds)
                    else Some ([], cs)
         | [] \<Rightarrow> Some ([], []))
      else map_option (\<lambda>(a, r). (c # a, r)) (scan_body cs))"

definition scan_literal :: "string \<Rightarrow> (string \<times> string) option" where
  "scan_literal s = (case s of c # cs \<Rightarrow> if c = quot then scan_body cs else None | [] \<Rightarrow> None)"

text \<open>
  MySQL in its default mode reads a backslash as the start of an escape sequence. The sequences
  of a quotation, a backslash and any other character stand for that character here (letters such
  as \<open>n\<close> stand for control characters, which makes no difference to where a literal ends).
\<close>

fun scan_body_mysql :: "string \<Rightarrow> (string \<times> string) option" where
  "scan_body_mysql [] = None"
| "scan_body_mysql (c # cs) =
     (if c = CHR 0x5C then
        (case cs of
           d # ds \<Rightarrow> map_option (\<lambda>(a, r). (d # a, r)) (scan_body_mysql ds)
         | [] \<Rightarrow> None)
      else if c = quot then
        (case cs of
           d # ds \<Rightarrow> if d = quot then map_option (\<lambda>(a, r). (quot # a, r)) (scan_body_mysql ds)
                    else Some ([], cs)
         | [] \<Rightarrow> Some ([], []))
      else map_option (\<lambda>(a, r). (c # a, r)) (scan_body_mysql cs))"

definition scan_literal_mysql :: "string \<Rightarrow> (string \<times> string) option" where
  "scan_literal_mysql s =
     (case s of c # cs \<Rightarrow> if c = quot then scan_body_mysql cs else None | [] \<Rightarrow> None)"

definition ends_literal :: "string \<Rightarrow> bool" where
  "ends_literal rest \<longleftrightarrow> (case rest of [] \<Rightarrow> True | c # _ \<Rightarrow> c \<noteq> quot)"

lemma double_quots_Cons [simp]:
  "double_quots (c # s) = (if c = quot then quot # quot # double_quots s else c # double_quots s)"
  by (simp add: double_quots_def)

lemma double_quots_Nil [simp]: "double_quots [] = []"
  by (simp add: double_quots_def)

lemma scan_body_double:
  "ends_literal rest \<Longrightarrow> scan_body (double_quots s @ quot # rest) = Some (s, rest)"
  by (induction s) (auto simp: ends_literal_def split: list.splits)

lemma scan_body_mysql_double:
  "ends_literal rest \<Longrightarrow> CHR 0x5C \<notin> set s \<Longrightarrow>
     scan_body_mysql (double_quots s @ quot # rest) = Some (s, rest)"
  by (induction s) (auto simp: ends_literal_def split: list.splits)

text \<open>
  C7. Whatever the value, a reader of standard SQL literals gets back exactly its C string
  from the encoded text and stops exactly at its end: no value can escape its quotation marks.
\<close>

theorem enc_str_no_injection:
  assumes "ends_literal rest"
  shows "scan_literal (enc_str val @ rest) = Some (cstr val, rest)"
  using scan_body_double [OF assms] by (simp add: scan_literal_def enc_str_eq)

theorem enc_str_no_injection_witness:
  "ends_literal '' AND 1'' \<and>
   scan_literal (enc_str [quot, CHR ''x'', quot] @ '' AND 1'') = Some ([quot, CHR ''x'', quot], '' AND 1'')"
proof -
  have e: "ends_literal '' AND 1''" by (simp add: ends_literal_def)
  have c: "cstr [quot, CHR ''x'', quot] = [quot, CHR ''x'', quot]" by (simp add: cstr_def nul_def)
  show ?thesis using enc_str_no_injection [OF e, of "[quot, CHR ''x'', quot]"] e by (simp add: c)
qed

text \<open>
  The reader MySQL uses by default treats the backslash as an escape character, and the
  encoder leaves backslashes alone. For the value consisting of a backslash, a quotation and
  some text, MySQL ends the literal at the encoder's doubled quotation and the text of the
  value stands in the statement as SQL.
\<close>

lemma enc_str_mysql_escape:
  "scan_literal_mysql (enc_str (CHR 0x5C # quot # '' OR 1=1 -- '') ) =
     Some ([quot], '' OR 1=1 -- '' @ [quot])"
  by (simp add: enc_str_eq cstr_def nul_def scan_literal_mysql_def)

end
