(* ===== verification/Sql_Cond.thy ===== *)
theory Sql_Cond
  imports Sql_Term
begin

text \<open>
  WHERE conditions. \<open>addCondition\<close> is \<open>DataQueryOption::addCondition\<close>
  (src/server/src/DataQueryOption.cc), which pastes text to text; \<open>alwaysFalseCondition\<close> is the
  constant of src/server/src/DB.cc. A \<open>sql_cond\<close> is what a database reads such a text as: a list
  of disjuncts, each a list of conjoined atoms, since AND binds tighter than OR in an
  unparenthesised chain. \<open>render\<close> writes a condition out, \<open>holds\<close> evaluates it on a row, and
  \<open>add_cond\<close> is what \<open>addCondition\<close> does to the reading: pasting with AND joins only the last
  disjunct of the left with the first of the right.
\<close>

section \<open>Values, rows and conditions\<close>

datatype sql_val = VNull | VInt int | VStr string

type_synonym sql_row = "string \<Rightarrow> sql_val"

fun enc_val :: "sql_val \<Rightarrow> string" where
  "enc_val VNull = ''NULL''"
| "enc_val (VInt i) = enc_int i"
| "enc_val (VStr s) = enc_str s"

text \<open>The value a database reads from the literal (see \<open>enc_str_eq\<close> and \<open>scan_body_double\<close>).\<close>

fun lit_val :: "sql_val \<Rightarrow> sql_val" where
  "lit_val VNull = VNull"
| "lit_val (VInt i) = VInt i"
| "lit_val (VStr s) = VStr (cstr s)"

datatype sql_cmp = CmpLt | CmpLe | CmpGt | CmpGe

fun cmp_text :: "sql_cmp \<Rightarrow> string" where
  "cmp_text CmpLt = ''<''"
| "cmp_text CmpLe = ''<=''"
| "cmp_text CmpGt = ''>''"
| "cmp_text CmpGe = ''>=''"

fun cmp_int :: "sql_cmp \<Rightarrow> int \<Rightarrow> int \<Rightarrow> bool" where
  "cmp_int CmpLt i j = (i < j)"
| "cmp_int CmpLe i j = (i \<le> j)"
| "cmp_int CmpGt i j = (i > j)"
| "cmp_int CmpGe i j = (i \<ge> j)"

datatype sql_atom =
    AtEq string sql_val
  | AtNe string sql_val
  | AtCmp sql_cmp string int
  | AtNull string
  | AtIn string "sql_val list"
  | AtNever
  | AtPar "sql_atom list list"
  | AtNot "sql_atom list list"

type_synonym sql_cond = "sql_atom list list"

definition alwaysFalseCondition :: string where
  "alwaysFalseCondition = ''0''"

definition isAlwaysFalseCondition :: "string \<Rightarrow> bool" where
  "isAlwaysFalseCondition condition \<longleftrightarrow> alwaysFalseCondition = condition"

primrec render_atom :: "sql_atom \<Rightarrow> string" where
  "render_atom (AtEq c v) = c @ ''='' @ enc_val v"
| "render_atom (AtNe c v) = c @ ''<>'' @ enc_val v"
| "render_atom (AtCmp p c i) = c @ cmp_text p @ enc_int i"
| "render_atom (AtNull c) = c @ '' IS NULL''"
| "render_atom (AtIn c vs) = c @ '' IN ('' @ join_with '','' (map enc_val vs) @ '')''"
| "render_atom AtNever = alwaysFalseCondition"
| "render_atom (AtPar c) =
     ''('' @ join_with '' OR '' (map (join_with '' AND '') (map (map render_atom) c)) @ '')''"
| "render_atom (AtNot c) =
     ''NOT ('' @ join_with '' OR '' (map (join_with '' AND '') (map (map render_atom) c)) @ '')''"

definition render :: "sql_cond \<Rightarrow> string" where
  "render c = join_with '' OR '' (map (join_with '' AND '') (map (map render_atom) c))"

text \<open>
  SQL has three truth values, since a comparison with NULL is neither true nor false: \<open>truth\<close> tells
  whether an atom is true and whether it is false. A WHERE clause selects the rows where it is true.
\<close>

fun same_val :: "sql_val \<Rightarrow> sql_val \<Rightarrow> bool" where
  "same_val VNull v = False"
| "same_val u v = (u = v)"

fun diff_val :: "sql_val \<Rightarrow> sql_val \<Rightarrow> bool" where
  "diff_val VNull v = False"
| "diff_val u VNull = False"
| "diff_val u v = (u \<noteq> v)"

primrec truth :: "sql_row \<Rightarrow> sql_atom \<Rightarrow> bool \<times> bool" where
  "truth row (AtEq c v) = (same_val (lit_val v) (row c), diff_val (lit_val v) (row c))"
| "truth row (AtNe c v) = (diff_val (lit_val v) (row c), same_val (lit_val v) (row c))"
| "truth row (AtCmp p c i) =
     (case row c of VInt j \<Rightarrow> (cmp_int p j i, \<not> cmp_int p j i) | _ \<Rightarrow> (False, False))"
| "truth row (AtNull c) = (row c = VNull, row c \<noteq> VNull)"
| "truth row (AtIn c vs) =
     (list_ex (\<lambda>v. same_val (lit_val v) (row c)) vs, list_all (\<lambda>v. diff_val (lit_val v) (row c)) vs)"
| "truth row AtNever = (False, True)"
| "truth row (AtPar c) =
     (list_ex (list_all fst) (map (map (truth row)) c), list_all (list_ex snd) (map (map (truth row)) c))"
| "truth row (AtNot c) =
     (list_all (list_ex snd) (map (map (truth row)) c), list_ex (list_all fst) (map (map (truth row)) c))"

definition holds_atom :: "sql_row \<Rightarrow> sql_atom \<Rightarrow> bool" where
  "holds_atom row a = fst (truth row a)"

definition fails_atom :: "sql_row \<Rightarrow> sql_atom \<Rightarrow> bool" where
  "fails_atom row a = snd (truth row a)"

definition holds :: "sql_row \<Rightarrow> sql_cond \<Rightarrow> bool" where
  "holds row c = (\<exists>d \<in> set c. \<forall>a \<in> set d. holds_atom row a)"

definition fails :: "sql_row \<Rightarrow> sql_cond \<Rightarrow> bool" where
  "fails row c = (\<forall>d \<in> set c. \<exists>a \<in> set d. fails_atom row a)"

text \<open>No text at all is no restriction.\<close>

definition selects :: "sql_cond \<Rightarrow> sql_row \<Rightarrow> bool" where
  "selects c row \<longleftrightarrow> c = [] \<or> holds row c"

text \<open>Well-formed conditions: nothing empty where SQL wants an operand.\<close>

primrec wf_atom :: "sql_atom \<Rightarrow> bool" where
  "wf_atom (AtEq c v) = True"
| "wf_atom (AtNe c v) = True"
| "wf_atom (AtCmp p c i) = True"
| "wf_atom (AtNull c) = True"
| "wf_atom (AtIn c vs) = (vs \<noteq> [])"
| "wf_atom AtNever = True"
| "wf_atom (AtPar c) = (c \<noteq> [] \<and> list_all (\<lambda>d. d \<noteq> [] \<and> list_all (\<lambda>b. b) d) (map (map wf_atom) c))"
| "wf_atom (AtNot c) = (c \<noteq> [] \<and> list_all (\<lambda>d. d \<noteq> [] \<and> list_all (\<lambda>b. b) d) (map (map wf_atom) c))"

definition wf_cond :: "sql_cond \<Rightarrow> bool" where
  "wf_cond c \<longleftrightarrow> (\<forall>d \<in> set c. d \<noteq> [] \<and> (\<forall>a \<in> set d. wf_atom a))"

text \<open>What the renderer needs: no empty conjunction.\<close>

definition no_gap :: "sql_cond \<Rightarrow> bool" where
  "no_gap c \<longleftrightarrow> [] \<notin> set c"

section \<open>Pasting conditions together\<close>

datatype add_condition_type = ADD_TYPE_AND | ADD_TYPE_OR

definition addCondition :: "string \<Rightarrow> string \<Rightarrow> add_condition_type \<Rightarrow> bool \<Rightarrow> string" where
  "addCondition currCondition addedCondition type useParenthesis =
     (if addedCondition = [] then currCondition
      else if currCondition = [] then addedCondition
      else currCondition
           @ (case type of ADD_TYPE_AND \<Rightarrow> '' AND '' | ADD_TYPE_OR \<Rightarrow> '' OR '')
           @ (if useParenthesis then ''('' else [])
           @ addedCondition
           @ (if useParenthesis then '')'' else []))"

fun cond_and :: "sql_cond \<Rightarrow> sql_cond \<Rightarrow> sql_cond" where
  "cond_and [] a = a"
| "cond_and [d] a = (case a of [] \<Rightarrow> [d] | e # b \<Rightarrow> (d @ e) # b)"
| "cond_and (d # d' # c) a = d # cond_and (d' # c) a"

definition add_cond :: "sql_cond \<Rightarrow> sql_cond \<Rightarrow> add_condition_type \<Rightarrow> sql_cond" where
  "add_cond c a type = (case type of ADD_TYPE_AND \<Rightarrow> cond_and c a | ADD_TYPE_OR \<Rightarrow> c @ a)"

definition paren :: "sql_cond \<Rightarrow> sql_cond" where
  "paren c = [[AtPar c]]"

section \<open>Rendering\<close>

lemma render_Nil [simp]: "render [] = []"
  by (simp add: render_def)

lemma render_single: "render [[a]] = render_atom a"
  by (simp add: render_def)

lemma render_paren: "render (paren c) = ''('' @ render c @ '')''"
  by (simp add: render_def paren_def)

lemma render_par_atom: "render_atom (AtPar c) = ''('' @ render c @ '')''"
  by (simp add: render_def)

lemma render_not_atom: "render_atom (AtNot c) = ''NOT ('' @ render c @ '')''"
  by (simp add: render_def)

lemma enc_val_nonempty [simp]: "enc_val v \<noteq> []"
  by (cases v) (simp_all add: enc_int_def enc_str_eq)

lemma cmp_text_nonempty [simp]: "cmp_text p \<noteq> []"
  by (cases p) simp_all

lemma render_atom_nonempty [simp]: "render_atom a \<noteq> []"
  by (cases a) (auto simp: alwaysFalseCondition_def)

lemma join_and_nonempty: "d \<noteq> [] \<Longrightarrow> join_with '' AND '' (map render_atom d) \<noteq> []"
  by (subst join_with_eq_Nil) auto

lemma no_gap_Nil [simp]: "no_gap []"
  by (simp add: no_gap_def)

lemma no_gap_Cons [simp]: "no_gap (d # c) \<longleftrightarrow> d \<noteq> [] \<and> no_gap c"
  by (auto simp: no_gap_def)

lemma no_gap_append [simp]: "no_gap (c @ a) \<longleftrightarrow> no_gap c \<and> no_gap a"
  by (auto simp: no_gap_def)

lemma no_gap_paren [simp]: "no_gap (paren c)"
  by (simp add: paren_def)

lemma render_eq_Nil:
  assumes "no_gap c"
  shows "render c = [] \<longleftrightarrow> c = []"
proof -
  have "join_with '' AND '' (map render_atom d) \<noteq> []" if "d \<in> set c" for d
    using that assms by (intro join_and_nonempty) (auto simp: no_gap_def)
  then show ?thesis
    unfolding render_def by (subst join_with_eq_Nil) auto
qed

lemma render_or:
  "c \<noteq> [] \<Longrightarrow> a \<noteq> [] \<Longrightarrow> render (c @ a) = render c @ '' OR '' @ render a"
  by (simp add: render_def join_with_append)

lemma render_Cons:
  "c \<noteq> [] \<Longrightarrow> render (d # c) = join_with '' AND '' (map render_atom d) @ '' OR '' @ render c"
  by (simp add: render_def join_with_Cons)

lemma cond_and_Nil [simp]: "cond_and c [] = c"
  by (induction c "[] :: sql_cond" rule: cond_and.induct) auto

lemma cond_and_eq_Nil [simp]: "cond_and c a = [] \<longleftrightarrow> c = [] \<and> a = []"
  by (induction c a rule: cond_and.induct) (auto split: list.splits)

lemma render_and:
  "c \<noteq> [] \<Longrightarrow> a \<noteq> [] \<Longrightarrow> no_gap c \<Longrightarrow> no_gap a \<Longrightarrow>
     render (cond_and c a) = render c @ '' AND '' @ render a"
proof (induction c a rule: cond_and.induct)
  case (2 d a)
  then obtain e b where a: "a = e # b" by (cases a) auto
  with 2 show ?case
    by (cases "b = []") (auto simp: render_def join_with_append join_with_Cons)
next
  case (3 d d' c a)
  then have "render (cond_and (d' # c) a) = render (d' # c) @ '' AND '' @ render a"
    by simp
  then show ?case using 3(3) by (simp add: render_Cons)
qed auto

lemma addCondition_render:
  assumes "no_gap c" "no_gap a"
  shows "addCondition (render c) (render a) t False = render (add_cond c a t)"
  using assms
  by (cases "c = []"; cases "a = []"; cases t)
     (simp_all add: addCondition_def add_cond_def render_eq_Nil render_or render_and)

lemma addCondition_paren_render:
  assumes "no_gap c" "no_gap a" "c \<noteq> []" "a \<noteq> []"
  shows "addCondition (render c) (render a) t True = render (add_cond c (paren a) t)"
proof -
  have w: "paren a \<noteq> []" by (simp add: paren_def)
  show ?thesis
    using assms w
    by (cases t) (simp_all add: addCondition_def add_cond_def render_eq_Nil render_or render_and
        render_paren)
qed

lemma no_gap_cond_and: "no_gap c \<Longrightarrow> no_gap a \<Longrightarrow> no_gap (cond_and c a)"
  by (induction c a rule: cond_and.induct) (auto split: list.splits)

lemma no_gap_add_cond [intro, simp]: "no_gap c \<Longrightarrow> no_gap a \<Longrightarrow> no_gap (add_cond c a t)"
  by (cases t) (auto simp: add_cond_def no_gap_cond_and)

lemma add_cond_Nil [simp]: "add_cond [] a t = a" "add_cond c [] t = c"
  by (cases t; simp add: add_cond_def)+

section \<open>Meaning\<close>

lemma holds_Nil [simp]: "\<not> holds row []"
  by (simp add: holds_def)

lemma holds_append [simp]: "holds row (c @ a) \<longleftrightarrow> holds row c \<or> holds row a"
  by (auto simp: holds_def)

lemma holds_Cons [simp]: "holds row (d # c) \<longleftrightarrow> (\<forall>a \<in> set d. holds_atom row a) \<or> holds row c"
  by (auto simp: holds_def)

lemma same_val_iff [simp]:
  "same_val (VInt i) v \<longleftrightarrow> v = VInt i" "same_val (VStr s) v \<longleftrightarrow> v = VStr s"
  by auto

lemma diff_val_iff [simp]:
  "diff_val (VInt i) v \<longleftrightarrow> v \<noteq> VNull \<and> v \<noteq> VInt i" "diff_val (VStr s) v \<longleftrightarrow> v \<noteq> VNull \<and> v \<noteq> VStr s"
  by (cases v; auto)+

declare same_val.simps(2,3) [simp del] diff_val.simps(2-) [simp del]

lemma holds_par [simp]: "holds_atom row (AtPar c) \<longleftrightarrow> holds row c"
  by (simp add: holds_def holds_atom_def list_ex_iff list_all_iff)

lemma holds_not [simp]: "holds_atom row (AtNot c) \<longleftrightarrow> fails row c"
  by (simp add: fails_def holds_atom_def fails_atom_def list_ex_iff list_all_iff)

lemma holds_leaf [simp]:
  "holds_atom row (AtEq c v) \<longleftrightarrow> same_val (lit_val v) (row c)"
  "holds_atom row (AtNe c v) \<longleftrightarrow> diff_val (lit_val v) (row c)"
  "holds_atom row (AtNull c) \<longleftrightarrow> row c = VNull"
  "holds_atom row (AtCmp p c i) \<longleftrightarrow> (\<exists>j. row c = VInt j \<and> cmp_int p j i)"
  "holds_atom row (AtIn c vs) \<longleftrightarrow> (\<exists>v \<in> set vs. same_val (lit_val v) (row c))"
  "\<not> holds_atom row AtNever"
  by (auto simp: holds_atom_def list_ex_iff split: sql_val.splits)

lemma wf_par [simp]: "wf_atom (AtPar c) \<longleftrightarrow> c \<noteq> [] \<and> wf_cond c"
  by (auto simp: wf_cond_def list_all_iff)

lemma wf_not [simp]: "wf_atom (AtNot c) \<longleftrightarrow> c \<noteq> [] \<and> wf_cond c"
  by (auto simp: wf_cond_def list_all_iff)

declare wf_atom.simps(7,8) [simp del]

lemma wf_cond_Nil [simp]: "wf_cond []"
  by (simp add: wf_cond_def)

lemma wf_cond_append [simp]: "wf_cond (c @ a) \<longleftrightarrow> wf_cond c \<and> wf_cond a"
  by (auto simp: wf_cond_def)

lemma wf_cond_Cons [simp]: "wf_cond (d # c) \<longleftrightarrow> d \<noteq> [] \<and> (\<forall>a \<in> set d. wf_atom a) \<and> wf_cond c"
  by (auto simp: wf_cond_def)

lemma wf_cond_no_gap: "wf_cond c \<Longrightarrow> no_gap c"
  by (auto simp: wf_cond_def no_gap_def)

lemma wf_cond_and: "wf_cond c \<Longrightarrow> wf_cond a \<Longrightarrow> wf_cond (cond_and c a)"
  by (induction c a rule: cond_and.induct) (auto split: list.splits)

lemma wf_add_cond [intro]: "wf_cond c \<Longrightarrow> wf_cond a \<Longrightarrow> wf_cond (add_cond c a t)"
  by (cases t) (auto simp: add_cond_def wf_cond_and)

text \<open>Every disjunct but the last of the left and the first of the right stands alone.\<close>

lemma holds_cond_and:
  "c \<noteq> [] \<Longrightarrow> a \<noteq> [] \<Longrightarrow>
     holds row (cond_and c a) \<longleftrightarrow>
       holds row (butlast c) \<or> holds row [last c] \<and> holds row [hd a] \<or> holds row (tl a)"
  by (induction c a rule: cond_and.induct) (auto split: list.splits)

text \<open>A condition of at most one disjunct can be combined with AND as one expects.\<close>

definition tight :: "sql_cond \<Rightarrow> bool" where
  "tight c \<longleftrightarrow> length c \<le> 1"

lemma tight_cases: "tight c \<Longrightarrow> c = [] \<or> (\<exists>d. c = [d])"
  by (cases c) (auto simp: tight_def)

lemma tight_paren [simp]: "tight (paren c)"
  by (simp add: tight_def paren_def)

lemma tight_Nil [simp]: "tight []"
  by (simp add: tight_def)

lemma tight_single [simp]: "tight [d]"
  by (simp add: tight_def)

lemma tight_add_and [intro]: "tight c \<Longrightarrow> tight a \<Longrightarrow> tight (add_cond c a ADD_TYPE_AND)"
  by (auto dest!: tight_cases simp: add_cond_def split: list.splits)

lemma selects_add_and:
  "tight c \<Longrightarrow> tight a \<Longrightarrow>
     selects (add_cond c a ADD_TYPE_AND) row \<longleftrightarrow> selects c row \<and> selects a row"
  by (auto dest!: tight_cases simp: add_cond_def selects_def)

lemma selects_paren [simp]: "selects (paren c) row \<longleftrightarrow> holds row c"
  by (simp add: selects_def paren_def)

lemma selects_Nil [simp]: "selects [] row"
  by (simp add: selects_def)

end
