(* ===== verification/Db_Schema.thy ===== *)
theory Db_Schema
  imports Hato_Prelude
begin

text \<open>
  Tables as the server describes them: column types, key types, \<open>ColumnDef\<close>
  (src/server/src/SQLProcessorTypes.h), \<open>IndexDef\<close> and \<open>TableProfile\<close> with its constructor
  (src/server/src/DBAgent.h, DBAgent.cc). The arrays that the C++ ends with a marker element are
  lists here, and a column index is a position in the list.
\<close>

datatype SQLColumnType =
    SQL_COLUMN_TYPE_INT
  | SQL_COLUMN_TYPE_BIGUINT
  | SQL_COLUMN_TYPE_VARCHAR
  | SQL_COLUMN_TYPE_CHAR
  | SQL_COLUMN_TYPE_TEXT
  | SQL_COLUMN_TYPE_DOUBLE
  | SQL_COLUMN_TYPE_DATETIME
  | NUM_SQL_COLUMN_TYPES

datatype SQLKeyType = SQL_KEY_NONE | SQL_KEY_PRI | SQL_KEY_UNI | SQL_KEY_IDX

definition SQL_COLUMN_FLAG_AUTO_INC :: u16 where
  "SQL_COLUMN_FLAG_AUTO_INC = 1"

record column_def =
  cd_columnName :: string
  cd_type :: SQLColumnType
  cd_columnLength :: nat
  cd_decFracLength :: nat
  cd_canBeNull :: bool
  cd_keyType :: SQLKeyType
  cd_flags :: u16
  cd_defaultValue :: "string option"

record index_def =
  ix_name :: string
  ix_columnIndexes :: "nat list"
  ix_isUnique :: bool

record table_profile =
  tp_name :: string
  tp_columnDefs :: "column_def list"
  tp_indexDefs :: "index_def list"
  tp_uniqueKeyColumnIndexes :: "nat list"

definition tp_numColumns :: "table_profile \<Rightarrow> nat" where
  "tp_numColumns tp = length (tp_columnDefs tp)"

text \<open>The two loops of the constructor: the columns with a unique key, then the unique indexes.\<close>

fun unique_columns :: "nat \<Rightarrow> column_def list \<Rightarrow> nat \<times> nat list" where
  "unique_columns i [] = (0, [])"
| "unique_columns i (cd # cds) =
     (case unique_columns (Suc i) cds of (n, is) \<Rightarrow>
        if cd_keyType cd \<noteq> SQL_KEY_UNI then (n, is) else (Suc n, i # is))"

fun unique_indexes :: "index_def list \<Rightarrow> nat \<times> nat list" where
  "unique_indexes [] = (0, [])"
| "unique_indexes (ix # ixs) =
     (case unique_indexes ixs of (n, is) \<Rightarrow>
        if \<not> ix_isUnique ix then (n, is) else (Suc n, ix_columnIndexes ix @ is))"

definition mk_table_profile ::
  "string \<Rightarrow> column_def list \<Rightarrow> index_def list \<Rightarrow> table_profile res" where
  "mk_table_profile name columnDefs indexDefs =
     (case unique_columns 0 columnDefs of (n1, is1) \<Rightarrow>
      case unique_indexes indexDefs of (n2, is2) \<Rightarrow>
        if n1 + n2 \<le> 1
        then Inr \<lparr>tp_name = name, tp_columnDefs = columnDefs, tp_indexDefs = indexDefs,
                  tp_uniqueKeyColumnIndexes = is1 @ is2\<rparr>
        else Inl HatoholException)"

text \<open>Callers pass an index below the number of columns; beyond it the C++ reads out of bounds.\<close>

definition getColumnName :: "table_profile \<Rightarrow> nat \<Rightarrow> string res" where
  "getColumnName tp idx =
     (if idx < length (tp_columnDefs tp) then Inr (cd_columnName (tp_columnDefs tp ! idx))
      else Inl UndefinedBehaviour)"

definition getFullColumnName :: "table_profile \<Rightarrow> nat \<Rightarrow> string res" where
  "getFullColumnName tp index =
     (if index < length (tp_columnDefs tp)
      then Inr (tp_name tp @ ''.'' @ cd_columnName (tp_columnDefs tp ! index))
      else Inl UndefinedBehaviour)"

lemma unique_columns_spec:
  "snd (unique_columns i cds) =
     map (\<lambda>k. i + k) (filter (\<lambda>k. cd_keyType (cds ! k) = SQL_KEY_UNI) [0..<length cds])"
proof (induction i cds rule: unique_columns.induct)
  case (2 i cd cds)
  have split: "[0..<length (cd # cds)] = 0 # map Suc [0..<length cds]"
    by (simp add: upt_conv_Cons map_Suc_upt del: upt_Suc)
  show ?case
    using 2 unfolding split by (auto simp: filter_map comp_def split: prod.splits)
qed simp

lemma unique_columns_count: "fst (unique_columns i cds) = length (snd (unique_columns i cds))"
  by (induction i cds rule: unique_columns.induct) (auto split: prod.splits)

lemma mk_table_profile_fields:
  assumes "mk_table_profile n cds ixs = Inr tp"
  shows "tp_name tp = n" "tp_columnDefs tp = cds" "tp_indexDefs tp = ixs"
  using assms by (auto simp: mk_table_profile_def split: prod.splits if_splits)

end
