(* ===== verification/Query_Option.thy ===== *)
theory Query_Option
  imports Op_Privilege Sql_Cond Db_Schema
begin

text \<open>
  Query options: the text that restricts what a user may read.
  \<^item> \<open>DataQueryContext\<close> (src/server/src/DataQueryContext.cc): the privilege of the caller and two
    tables fetched from the database on first use.
  \<^item> \<open>DataQueryOption\<close> (src/server/src/DataQueryOption.cc): ordering, grouping, limits.
  \<^item> \<open>HostResourceQueryOption\<close> (src/server/src/HostResourceQueryOption.cc): the WHERE condition
    that every query on hosts, triggers, items and events carries.
  The definitions build text exactly as the C++ does; the theory \<open>Query_Condition\<close> gives their
  abstract readings and proves what they select.
\<close>

section \<open>Special identifiers (src/server/common/Params.h)\<close>

definition ALL_SERVERS :: int where
  "ALL_SERVERS = -1"

definition ALL_LOCAL_HOSTS :: string where
  "ALL_LOCAL_HOSTS = ''*''"

definition ALL_HOST_GROUPS :: string where
  "ALL_HOST_GROUPS = ''*''"

definition INVALID_COLUMN_IDX :: nat where
  "INVALID_COLUMN_IDX = 2 ^ 64 - 1"

type_synonym server_id_set = "int list"
type_synonym server_grp_map = "(int \<times> string list) list"

section \<open>The data query context\<close>

record data_query_context =
  dqc_privilege :: op_privilege
  dqc_srvHostGrpSetMap :: "server_grp_map option"
  dqc_serverIdSet :: "server_id_set option"

definition dqc_clear :: "data_query_context \<Rightarrow> data_query_context" where
  "dqc_clear c = c\<lparr>dqc_srvHostGrpSetMap := None, dqc_serverIdSet := None\<rparr>"

definition mk_data_query_context :: "(int \<Rightarrow> opflag option) \<Rightarrow> int \<Rightarrow> data_query_context" where
  "mk_data_query_context lookup userId =
     \<lparr>dqc_privilege = privilege_of_user lookup userId,
      dqc_srvHostGrpSetMap = None, dqc_serverIdSet = None\<rparr>"

definition dqc_setUserId ::
  "(int \<Rightarrow> opflag option) \<Rightarrow> data_query_context \<Rightarrow> int \<Rightarrow> data_query_context" where
  "dqc_setUserId lookup c userId =
     dqc_clear (c\<lparr>dqc_privilege := op_setUserId lookup (dqc_privilege c) userId\<rparr>)"

definition dqc_setFlags :: "data_query_context \<Rightarrow> opflag \<Rightarrow> data_query_context" where
  "dqc_setFlags c flags = dqc_clear (c\<lparr>dqc_privilege := op_setFlags (dqc_privilege c) flags\<rparr>)"

text \<open>\<open>fetch\<close> stands for \<open>DBTablesUser::getServerHostGrpSetMap\<close>.\<close>

definition dqc_getServerHostGrpSetMap ::
  "(int \<Rightarrow> server_grp_map) \<Rightarrow> data_query_context \<Rightarrow> server_grp_map \<times> data_query_context" where
  "dqc_getServerHostGrpSetMap fetch c =
     (case dqc_srvHostGrpSetMap c of
        Some m \<Rightarrow> (m, c)
      | None \<Rightarrow> (let m = fetch (op_userId (dqc_privilege c))
                 in (m, c\<lparr>dqc_srvHostGrpSetMap := Some m\<rparr>)))"

text \<open>\<open>fetch\<close> stands for \<open>DBTablesConfig::getServerIdSet\<close>, which is given the context.\<close>

definition dqc_getValidServerIdSet ::
  "(data_query_context \<Rightarrow> server_id_set) \<Rightarrow> data_query_context
     \<Rightarrow> server_id_set \<times> data_query_context" where
  "dqc_getValidServerIdSet fetch c =
     (case dqc_serverIdSet c of
        Some s \<Rightarrow> (s, c)
      | None \<Rightarrow> (let s = fetch c in (s, c\<lparr>dqc_serverIdSet := Some s\<rparr>)))"

definition dqc_isValidServer ::
  "(data_query_context \<Rightarrow> server_id_set) \<Rightarrow> data_query_context \<Rightarrow> int
     \<Rightarrow> bool \<times> data_query_context" where
  "dqc_isValidServer fetch c serverId =
     (case dqc_getValidServerIdSet fetch c of (s, c') \<Rightarrow> (serverId \<in> set s, c'))"

section \<open>Ordering, grouping, limits\<close>

datatype sort_direction = SORT_DONT_CARE | SORT_ASCENDING | SORT_DESCENDING

record sort_order =
  so_columnName :: string
  so_direction :: sort_direction

record data_query_option =
  dqo_maxNumber :: nat
  dqo_offset :: nat
  dqo_sortOrderVect :: "sort_order list"
  dqo_groupByVect :: "string list"
  dqo_tableNameAlways :: bool

definition NO_LIMIT :: nat where
  "NO_LIMIT = 0"

definition mk_data_query_option :: data_query_option where
  "mk_data_query_option =
     \<lparr>dqo_maxNumber = NO_LIMIT, dqo_offset = 0, dqo_sortOrderVect = [], dqo_groupByVect = [],
      dqo_tableNameAlways = False\<rparr>"

definition dqo_setMaximumNumber :: "data_query_option \<Rightarrow> nat \<Rightarrow> data_query_option" where
  "dqo_setMaximumNumber opt maximum = opt\<lparr>dqo_maxNumber := maximum\<rparr>"

definition dqo_setOffset :: "data_query_option \<Rightarrow> nat \<Rightarrow> data_query_option" where
  "dqo_setOffset opt offset = opt\<lparr>dqo_offset := offset\<rparr>"

definition dqo_setTableNameAlways :: "data_query_option \<Rightarrow> bool \<Rightarrow> data_query_option" where
  "dqo_setTableNameAlways opt enable = opt\<lparr>dqo_tableNameAlways := enable\<rparr>"

definition dqo_setSortOrderVect :: "data_query_option \<Rightarrow> sort_order list \<Rightarrow> data_query_option" where
  "dqo_setSortOrderVect opt sortOrderVect = opt\<lparr>dqo_sortOrderVect := sortOrderVect\<rparr>"

definition dqo_setGroupByVect :: "data_query_option \<Rightarrow> string list \<Rightarrow> data_query_option" where
  "dqo_setGroupByVect opt groupByVect = opt\<lparr>dqo_groupByVect := groupByVect\<rparr>"

definition dqo_setSortOrder :: "data_query_option \<Rightarrow> sort_order \<Rightarrow> data_query_option" where
  "dqo_setSortOrder opt sortOrder = opt\<lparr>dqo_sortOrderVect := [] @ [sortOrder]\<rparr>"

definition dqo_setGroupBy :: "data_query_option \<Rightarrow> string \<Rightarrow> data_query_option" where
  "dqo_setGroupBy opt groupBy = opt\<lparr>dqo_groupByVect := [] @ [groupBy]\<rparr>"

definition dqo_eq :: "data_query_option \<Rightarrow> data_query_option \<Rightarrow> bool" where
  "dqo_eq l r \<longleftrightarrow>
     (if dqo_maxNumber l \<noteq> dqo_maxNumber r then False
      else if dqo_sortOrderVect l \<noteq> dqo_sortOrderVect r then False
      else True)"

text \<open>The loop of \<open>getOrderBy\<close>; the flag says whether the iterator is at the first element.\<close>

fun order_by_loop :: "bool \<Rightarrow> sort_order list \<Rightarrow> string \<Rightarrow> string" where
  "order_by_loop atBegin [] orderBy = orderBy"
| "order_by_loop atBegin (so # sos) orderBy =
     (if so_columnName so = [] then order_by_loop False sos orderBy
      else if so_direction so = SORT_DONT_CARE then order_by_loop False sos orderBy
      else order_by_loop False sos
             (orderBy @ (if \<not> atBegin then '', '' else [])
                @ so_columnName so
                @ (if so_direction so = SORT_ASCENDING then '' ASC'' else '' DESC'')))"

definition getOrderBy :: "data_query_option \<Rightarrow> string" where
  "getOrderBy opt = order_by_loop True (dqo_sortOrderVect opt) []"

fun group_by_loop :: "bool \<Rightarrow> string list \<Rightarrow> string \<Rightarrow> string" where
  "group_by_loop atBegin [] groupBy = groupBy"
| "group_by_loop atBegin (c # cs) groupBy =
     (if c = [] then group_by_loop False cs groupBy
      else group_by_loop False cs (groupBy @ (if \<not> atBegin then '', '' else []) @ c))"

definition getGroupBy :: "data_query_option \<Rightarrow> string" where
  "getGroupBy opt = group_by_loop True (dqo_groupByVect opt) []"

section \<open>Host resource query options\<close>

record synapse =
  sy_tableProfile :: table_profile
  sy_selfIdColumnIdx :: nat
  sy_serverIdColumnIdx :: nat
  sy_hostTableProfile :: table_profile
  sy_hostIdColumnIdx :: nat
  sy_needToJoinHostgroup :: bool
  sy_hostgroupMapTableProfile :: table_profile
  sy_hostgroupMapServerIdColumnIdx :: nat
  sy_hostgroupMapHostIdColumnIdx :: nat
  sy_hostgroupMapGroupIdColumnIdx :: nat
  sy_globalHostIdColumnIdx :: nat
  sy_hostgroupMapGlobalHostIdColumnIdx :: nat

text \<open>
  What the option reads of its context: the privilege and the two tables, as
  \<open>dqc_getServerHostGrpSetMap\<close> and \<open>dqc_getValidServerIdSet\<close> return them.
\<close>

record host_option =
  ho_synapse :: synapse
  ho_tableNameAlways :: bool
  ho_privilege :: op_privilege
  ho_ctxValidServers :: server_id_set
  ho_ctxAllowed :: server_grp_map
  ho_targetServerId :: int
  ho_targetHostId :: string
  ho_targetHostgroupId :: string
  ho_excludeDefunctServers :: bool
  ho_selectedServerIdSet :: server_id_set
  ho_excludedServerIdSet :: server_id_set
  ho_selectedServerHostgroupSetMap :: server_grp_map
  ho_excludedServerHostgroupSetMap :: server_grp_map
  ho_selectedServerHostSetMap :: server_grp_map
  ho_excludedServerHostSetMap :: server_grp_map
  ho_validServerIdSet :: "server_id_set option"
  ho_allowedServersAndHostgroups :: "server_grp_map option"

definition mk_host_option ::
  "synapse \<Rightarrow> op_privilege \<Rightarrow> server_id_set \<Rightarrow> server_grp_map \<Rightarrow> host_option" where
  "mk_host_option sy priv valid allowed =
     \<lparr>ho_synapse = sy, ho_tableNameAlways = False, ho_privilege = priv,
      ho_ctxValidServers = valid, ho_ctxAllowed = allowed,
      ho_targetServerId = ALL_SERVERS, ho_targetHostId = ALL_LOCAL_HOSTS,
      ho_targetHostgroupId = ALL_HOST_GROUPS, ho_excludeDefunctServers = True,
      ho_selectedServerIdSet = [], ho_excludedServerIdSet = [],
      ho_selectedServerHostgroupSetMap = [], ho_excludedServerHostgroupSetMap = [],
      ho_selectedServerHostSetMap = [], ho_excludedServerHostSetMap = [],
      ho_validServerIdSet = None, ho_allowedServersAndHostgroups = None\<rparr>"

text \<open>\<open>Impl::operator=\<close>: the test overrides and the synapse stay.\<close>

definition ho_assign :: "host_option \<Rightarrow> host_option \<Rightarrow> host_option" where
  "ho_assign self rhs =
     self\<lparr>ho_targetServerId := ho_targetServerId rhs,
          ho_targetHostId := ho_targetHostId rhs,
          ho_targetHostgroupId := ho_targetHostgroupId rhs,
          ho_excludeDefunctServers := ho_excludeDefunctServers rhs,
          ho_selectedServerIdSet := ho_selectedServerIdSet rhs,
          ho_excludedServerIdSet := ho_excludedServerIdSet rhs,
          ho_selectedServerHostgroupSetMap := ho_selectedServerHostgroupSetMap rhs,
          ho_excludedServerHostgroupSetMap := ho_excludedServerHostgroupSetMap rhs,
          ho_selectedServerHostSetMap := ho_selectedServerHostSetMap rhs,
          ho_excludedServerHostSetMap := ho_excludedServerHostSetMap rhs\<rparr>"

definition setTargetServerId :: "host_option \<Rightarrow> int \<Rightarrow> host_option" where
  "setTargetServerId opt v = opt\<lparr>ho_targetServerId := v\<rparr>"

definition setTargetHostId :: "host_option \<Rightarrow> string \<Rightarrow> host_option" where
  "setTargetHostId opt v = opt\<lparr>ho_targetHostId := v\<rparr>"

definition setTargetHostgroupId :: "host_option \<Rightarrow> string \<Rightarrow> host_option" where
  "setTargetHostgroupId opt v = opt\<lparr>ho_targetHostgroupId := v\<rparr>"

definition setExcludeDefunctServers :: "host_option \<Rightarrow> bool \<Rightarrow> host_option" where
  "setExcludeDefunctServers opt v = opt\<lparr>ho_excludeDefunctServers := v\<rparr>"

definition setSelectedServerIds :: "host_option \<Rightarrow> server_id_set \<Rightarrow> host_option" where
  "setSelectedServerIds opt v = opt\<lparr>ho_selectedServerIdSet := v\<rparr>"

definition setExcludedServerIds :: "host_option \<Rightarrow> server_id_set \<Rightarrow> host_option" where
  "setExcludedServerIds opt v = opt\<lparr>ho_excludedServerIdSet := v\<rparr>"

definition setSelectedHostgroupIds :: "host_option \<Rightarrow> server_grp_map \<Rightarrow> host_option" where
  "setSelectedHostgroupIds opt v = opt\<lparr>ho_selectedServerHostgroupSetMap := v\<rparr>"

definition setExcludedHostgroupIds :: "host_option \<Rightarrow> server_grp_map \<Rightarrow> host_option" where
  "setExcludedHostgroupIds opt v = opt\<lparr>ho_excludedServerHostgroupSetMap := v\<rparr>"

definition setSelectedHostIds :: "host_option \<Rightarrow> server_grp_map \<Rightarrow> host_option" where
  "setSelectedHostIds opt v = opt\<lparr>ho_selectedServerHostSetMap := v\<rparr>"

definition setExcludedHostIds :: "host_option \<Rightarrow> server_grp_map \<Rightarrow> host_option" where
  "setExcludedHostIds opt v = opt\<lparr>ho_excludedServerHostSetMap := v\<rparr>"

definition setValidServerIdSet :: "host_option \<Rightarrow> server_id_set option \<Rightarrow> host_option" where
  "setValidServerIdSet opt v = opt\<lparr>ho_validServerIdSet := v\<rparr>"

definition setAllowedServersAndHostgroups :: "host_option \<Rightarrow> server_grp_map option \<Rightarrow> host_option" where
  "setAllowedServersAndHostgroups opt v = opt\<lparr>ho_allowedServersAndHostgroups := v\<rparr>"

abbreviation ho_has :: "host_option \<Rightarrow> opprvlg \<Rightarrow> bool" where
  "ho_has opt type \<equiv> op_has (ho_privilege opt) type"

definition getValidServerIdSet :: "host_option \<Rightarrow> server_id_set" where
  "getValidServerIdSet opt =
     (case ho_validServerIdSet opt of Some s \<Rightarrow> s | None \<Rightarrow> ho_ctxValidServers opt)"

definition getAllowedServersAndHostgroups :: "host_option \<Rightarrow> server_grp_map" where
  "getAllowedServersAndHostgroups opt =
     (case ho_allowedServersAndHostgroups opt of Some m \<Rightarrow> m | None \<Rightarrow> ho_ctxAllowed opt)"

fun enumerates_hostgroup :: "server_grp_map \<Rightarrow> bool" where
  "enumerates_hostgroup [] = False"
| "enumerates_hostgroup ((serverId, hostgrpIdSet) # m) =
     (if serverId = ALL_SERVERS then enumerates_hostgroup m
      else if ALL_HOST_GROUPS \<notin> set hostgrpIdSet then True
      else enumerates_hostgroup m)"

definition isHostgroupEnumerationInCondition :: "host_option \<Rightarrow> bool" where
  "isHostgroupEnumerationInCondition opt \<longleftrightarrow>
     (if ho_has opt OPPRVLG_GET_ALL_SERVER then False
      else enumerates_hostgroup (getAllowedServersAndHostgroups opt))"

definition isHostgroupUsed :: "host_option \<Rightarrow> bool" where
  "isHostgroupUsed opt \<longleftrightarrow>
     (if \<not> sy_needToJoinHostgroup (ho_synapse opt) then False
      else if isHostgroupEnumerationInCondition opt then True
      else ho_targetHostgroupId opt \<noteq> ALL_HOST_GROUPS
         \<or> ho_selectedServerHostgroupSetMap opt \<noteq> []
         \<or> ho_excludedServerHostgroupSetMap opt \<noteq> [])"

definition getColumnNameCommon :: "host_option \<Rightarrow> table_profile \<Rightarrow> nat \<Rightarrow> string res" where
  "getColumnNameCommon opt tp idx =
     (if \<not> idx < tp_numColumns tp then Inl HatoholException
      else if ho_tableNameAlways opt \<or> isHostgroupUsed opt then getFullColumnName tp idx
      else getColumnName tp idx)"

definition getServerIdColumnName :: "host_option \<Rightarrow> string res" where
  "getServerIdColumnName opt =
     getColumnNameCommon opt (sy_tableProfile (ho_synapse opt)) (sy_serverIdColumnIdx (ho_synapse opt))"

definition getHostgroupIdColumnName :: "host_option \<Rightarrow> string res" where
  "getHostgroupIdColumnName opt =
     getColumnNameCommon opt (sy_hostgroupMapTableProfile (ho_synapse opt))
       (sy_hostgroupMapGroupIdColumnIdx (ho_synapse opt))"

definition getHostIdColumnName :: "host_option \<Rightarrow> string res" where
  "getHostIdColumnName opt =
     getColumnNameCommon opt (sy_hostTableProfile (ho_synapse opt)) (sy_hostIdColumnIdx (ho_synapse opt))"

subsection \<open>Permissions\<close>

definition isAllowedServer :: "host_option \<Rightarrow> int \<Rightarrow> bool" where
  "isAllowedServer opt targetServerId \<longleftrightarrow>
     (if ho_has opt OPPRVLG_GET_ALL_SERVER then True
      else let m = getAllowedServersAndHostgroups opt
           in map_of m ALL_SERVERS \<noteq> None \<or> map_of m targetServerId \<noteq> None)"

text \<open>
  The second lookup returns when the server is found and goes on to read through the
  iterator when it is not.
\<close>

definition isAllowedHostgroup :: "host_option \<Rightarrow> int \<Rightarrow> string \<Rightarrow> bool res" where
  "isAllowedHostgroup opt targetServerId targetHostgroupId =
     (if ho_has opt OPPRVLG_GET_ALL_SERVER then Inr True
      else let m = getAllowedServersAndHostgroups opt
           in if map_of m ALL_SERVERS \<noteq> None then Inr True
              else if map_of m targetServerId \<noteq> None then Inr False
              else Inl UndefinedBehaviour)"

subsection \<open>Pieces of the condition\<close>

definition eq_text :: "string \<Rightarrow> string \<Rightarrow> string" where
  "eq_text column term = column @ ''='' @ term"

definition wrap_text :: "string \<Rightarrow> string" where
  "wrap_text condition = ''('' @ condition @ '')''"

definition makeConditionTargetIds :: "host_option \<Rightarrow> string res" where
  "makeConditionTargetIds opt =
     bindR
       (if ho_targetServerId opt \<noteq> ALL_SERVERS then
          bindR (getServerIdColumnName opt) (\<lambda>col.
            Inr (addCondition [] (eq_text col (enc_int (ho_targetServerId opt))) ADD_TYPE_AND False))
        else Inr []) (\<lambda>condition.
     bindR
       (if ho_targetHostId opt \<noteq> ALL_LOCAL_HOSTS then
          bindR (getHostIdColumnName opt) (\<lambda>col.
            Inr (addCondition condition (eq_text col (enc_str (ho_targetHostId opt))) ADD_TYPE_AND False))
        else Inr condition) (\<lambda>condition.
     bindR
       (if ho_targetHostgroupId opt \<noteq> ALL_HOST_GROUPS then
          bindR (getHostgroupIdColumnName opt) (\<lambda>col.
            Inr (addCondition condition (eq_text col (enc_str (ho_targetHostgroupId opt))) ADD_TYPE_AND False))
        else Inr condition) (\<lambda>condition.
     Inr (if condition = [] then condition else wrap_text condition))))"

text \<open>The loop of \<open>makeConditionHostgroup\<close>; \<open>None\<close> is the early return of the empty text.\<close>

fun hostgroup_list_loop :: "string list \<Rightarrow> nat \<Rightarrow> string \<Rightarrow> string option" where
  "hostgroup_list_loop [] commaCnt hostGrps = Some hostGrps"
| "hostgroup_list_loop (hostgroupId # ids) commaCnt hostGrps =
     (if hostgroupId = ALL_HOST_GROUPS then None
      else hostgroup_list_loop ids (commaCnt - 1)
             (hostGrps @ enc_str hostgroupId @ (if commaCnt \<noteq> 0 then '','' else [])))"

definition makeConditionHostgroup :: "string list \<Rightarrow> string \<Rightarrow> string" where
  "makeConditionHostgroup hostgroupIdSet hostgroupIdColumnName =
     (case hostgroup_list_loop hostgroupIdSet (length hostgroupIdSet - 1) [] of
        None \<Rightarrow> []
      | Some hostGrps \<Rightarrow> hostgroupIdColumnName @ '' IN ('' @ hostGrps @ '')'')"

fun server_list_loop :: "bool \<Rightarrow> int list \<Rightarrow> string \<Rightarrow> string" where
  "server_list_loop first [] condition = condition"
| "server_list_loop first (serverId # ids) condition =
     server_list_loop False ids
       (condition @ (if first then [] else '','') @ enc_int serverId)"

definition makeConditionServerSet :: "server_id_set \<Rightarrow> string \<Rightarrow> string" where
  "makeConditionServerSet serverIdSet serverIdColumnName =
     (if serverIdSet = [] then alwaysFalseCondition
      else server_list_loop True serverIdSet (serverIdColumnName @ '' IN ('') @ '')'')"

definition makeConditionServer ::
  "int \<Rightarrow> string list \<Rightarrow> string \<Rightarrow> string \<Rightarrow> string \<Rightarrow> string" where
  "makeConditionServer serverId hostgroupIdSet serverIdColumnName hostgroupIdColumnName hostgroupId =
     (let condition = eq_text serverIdColumnName (enc_int serverId);
          conditionHostgroup =
            (if hostgroupId = ALL_HOST_GROUPS
             then makeConditionHostgroup hostgroupIdSet hostgroupIdColumnName
             else eq_text hostgroupIdColumnName (enc_str (cstr hostgroupId)))
      in if conditionHostgroup \<noteq> []
         then ''('' @ condition @ '' AND '' @ conditionHostgroup @ '')''
         else condition)"

text \<open>
  The loop over the allowed servers: \<open>None\<close> is the early return of the empty text, otherwise
  the condition so far and the number of servers in it.
\<close>

fun allowed_loop ::
  "int \<Rightarrow> string \<Rightarrow> string \<Rightarrow> string \<Rightarrow> server_grp_map \<Rightarrow> string \<Rightarrow> nat \<Rightarrow> (string \<times> nat) option" where
  "allowed_loop target hg scol hcol [] condition numServers = Some (condition, numServers)"
| "allowed_loop target hg scol hcol ((serverId, hgs) # m) condition numServers =
     (if target \<noteq> ALL_SERVERS \<and> target \<noteq> serverId
      then allowed_loop target hg scol hcol m condition numServers
      else if serverId = ALL_SERVERS then None
      else allowed_loop target hg scol hcol m
             (addCondition condition (makeConditionServer serverId hgs scol hcol hg) ADD_TYPE_OR False)
             (numServers + 1))"

definition makeConditionAllowedHosts :: "host_option \<Rightarrow> string res" where
  "makeConditionAllowedHosts opt =
     bindR (getServerIdColumnName opt) (\<lambda>serverIdColumnName.
     bindR (getHostgroupIdColumnName opt) (\<lambda>hostgroupIdColumnName.
     bindR (if ho_targetHostId opt \<noteq> ALL_LOCAL_HOSTS then getHostIdColumnName opt else Inr [])
       (\<lambda>hostIdColumnName.
     let m = getAllowedServersAndHostgroups opt
     in if m = [] then Inr alwaysFalseCondition
        else if ho_targetServerId opt \<noteq> ALL_SERVERS \<and> \<not> isAllowedServer opt (ho_targetServerId opt)
        then Inr alwaysFalseCondition
        else (case allowed_loop (ho_targetServerId opt) (ho_targetHostgroupId opt)
                     serverIdColumnName hostgroupIdColumnName m [] 0 of
            None \<Rightarrow> Inr []
          | Some (condition, numServers) \<Rightarrow>
              Inr (if numServers = 1 then condition else wrap_text condition)))))"

subsection \<open>Filters\<close>

definition wrap_if_many :: "'a list \<Rightarrow> string \<Rightarrow> string" where
  "wrap_if_many container condition = (if length container > 1 then wrap_text condition else condition)"

definition makeConditionSelectedServers :: "host_option \<Rightarrow> string res" where
  "makeConditionSelectedServers opt =
     (if ho_selectedServerIdSet opt = [] then Inr []
      else bindR
        (foldR (\<lambda>serverId condition.
           if \<not> isAllowedServer opt serverId then Inr condition
           else bindR (getServerIdColumnName opt) (\<lambda>col.
             Inr (addCondition condition (eq_text col (enc_int serverId)) ADD_TYPE_OR False)))
           (ho_selectedServerIdSet opt) [])
        (\<lambda>condition. Inr (wrap_if_many (ho_selectedServerIdSet opt) condition)))"

definition makeConditionExcludedServers :: "host_option \<Rightarrow> string res" where
  "makeConditionExcludedServers opt =
     (if ho_excludedServerIdSet opt = [] then Inr []
      else bindR
        (foldR (\<lambda>serverId condition.
           if \<not> isAllowedServer opt serverId then Inr condition
           else bindR (getServerIdColumnName opt) (\<lambda>col.
             Inr (addCondition condition (col @ ''<>'' @ enc_int serverId) ADD_TYPE_AND False)))
           (ho_excludedServerIdSet opt) [])
        (\<lambda>condition. Inr (wrap_if_many (ho_excludedServerIdSet opt) condition)))"

definition pair_text :: "string \<Rightarrow> int \<Rightarrow> string \<Rightarrow> string \<Rightarrow> string" where
  "pair_text scol serverId col term =
     ''('' @ scol @ ''='' @ enc_int serverId @ '' AND '' @ col @ ''='' @ term @ '')''"

definition makeConditionSelectedHostgroups :: "host_option \<Rightarrow> string res" where
  "makeConditionSelectedHostgroups opt =
     (if ho_selectedServerHostgroupSetMap opt = [] then Inr []
      else bindR (getServerIdColumnName opt) (\<lambda>serverIdColumnName.
           bindR (getHostgroupIdColumnName opt) (\<lambda>hostgroupIdColumnName.
           bindR
             (foldR (\<lambda>(serverId, hostgroupIds) condition.
                if \<not> isAllowedServer opt serverId then Inr condition
                else foldR (\<lambda>hostgroupId condition.
                  bindR (isAllowedHostgroup opt serverId hostgroupId) (\<lambda>allowed.
                    if \<not> allowed then Inr condition
                    else Inr (addCondition condition
                      (pair_text serverIdColumnName serverId hostgroupIdColumnName (enc_str hostgroupId))
                      ADD_TYPE_OR False)))
                  hostgroupIds condition)
                (ho_selectedServerHostgroupSetMap opt) [])
             (\<lambda>condition. Inr (wrap_if_many (ho_selectedServerHostgroupSetMap opt) condition)))))"

definition makeConditionExcludedHostgroups :: "host_option \<Rightarrow> string res" where
  "makeConditionExcludedHostgroups opt =
     (if ho_excludedServerHostgroupSetMap opt = [] then Inr []
      else bindR (getServerIdColumnName opt) (\<lambda>serverIdColumnName.
           bindR (getHostgroupIdColumnName opt) (\<lambda>hostgroupIdColumnName.
           bindR
             (foldR (\<lambda>(serverId, hostgroupIds) condition.
                if \<not> isAllowedServer opt serverId then Inr condition
                else foldR (\<lambda>hostgroupId condition.
                  bindR (isAllowedHostgroup opt serverId hostgroupId) (\<lambda>allowed.
                    if \<not> allowed then Inr condition
                    else Inr (addCondition condition
                      (''NOT '' @ pair_text serverIdColumnName serverId hostgroupIdColumnName (enc_str hostgroupId))
                      ADD_TYPE_AND False)))
                  hostgroupIds condition)
                (ho_excludedServerHostgroupSetMap opt) [])
             (\<lambda>condition. Inr (wrap_if_many (ho_excludedServerHostgroupSetMap opt) condition)))))"

definition makeConditionSelectedHosts :: "host_option \<Rightarrow> string res" where
  "makeConditionSelectedHosts opt =
     (if ho_selectedServerHostSetMap opt = [] then Inr []
      else bindR (getServerIdColumnName opt) (\<lambda>serverIdColumnName.
           bindR (getHostIdColumnName opt) (\<lambda>hostIdColumnName.
           bindR
             (foldR (\<lambda>(serverId, hostIds) condition.
                if \<not> isAllowedServer opt serverId then Inr condition
                else foldR (\<lambda>hostId condition.
                  Inr (addCondition condition
                    (pair_text serverIdColumnName serverId hostIdColumnName (enc_str hostId))
                    ADD_TYPE_OR False))
                  hostIds condition)
                (ho_selectedServerHostSetMap opt) [])
             (\<lambda>condition. Inr (wrap_if_many (ho_selectedServerHostSetMap opt) condition)))))"

definition makeConditionExcludedHosts :: "host_option \<Rightarrow> string res" where
  "makeConditionExcludedHosts opt =
     (if ho_excludedServerHostSetMap opt = [] then Inr []
      else bindR (getServerIdColumnName opt) (\<lambda>serverIdColumnName.
           bindR (getHostIdColumnName opt) (\<lambda>hostIdColumnName.
           bindR
             (foldR (\<lambda>(serverId, hostIds) condition.
                if \<not> isAllowedServer opt serverId then Inr condition
                else foldR (\<lambda>hostId condition.
                  Inr (addCondition condition
                    (''NOT '' @ pair_text serverIdColumnName serverId hostIdColumnName (enc_str hostId))
                    ADD_TYPE_AND False))
                  hostIds condition)
                (ho_excludedServerHostSetMap opt) [])
             (\<lambda>condition. Inr (wrap_if_many (ho_excludedServerHostSetMap opt) condition)))))"

text \<open>One step of \<open>makeConditionHostsFilter\<close>: count a non-empty filter and paste it.\<close>

definition filter_step ::
  "string res \<Rightarrow> add_condition_type \<Rightarrow> string \<times> nat \<Rightarrow> (string \<times> nat) res" where
  "filter_step next type st =
     bindR next (\<lambda>nextCondition.
       Inr (addCondition (fst st) nextCondition type False,
            if nextCondition \<noteq> [] then snd st + 1 else snd st))"

definition makeConditionHostsFilter :: "host_option \<Rightarrow> string res" where
  "makeConditionHostsFilter opt =
     bindR (filter_step (makeConditionSelectedServers opt) ADD_TYPE_OR ([], 0)) (\<lambda>st.
     bindR (filter_step (makeConditionExcludedServers opt) ADD_TYPE_AND st) (\<lambda>st.
     bindR (filter_step (makeConditionSelectedHostgroups opt) ADD_TYPE_OR st) (\<lambda>st.
     bindR (filter_step (makeConditionExcludedHostgroups opt) ADD_TYPE_AND st) (\<lambda>st.
     bindR (filter_step (makeConditionSelectedHosts opt) ADD_TYPE_OR st) (\<lambda>st.
     bindR (filter_step (makeConditionExcludedHosts opt) ADD_TYPE_AND st) (\<lambda>(condition, numFilters).
     Inr (if numFilters > 1 then wrap_text condition else condition)))))))"

subsection \<open>The condition and the FROM clause\<close>

definition getCondition :: "host_option \<Rightarrow> string res" where
  "getCondition opt =
     bindR
       (if ho_excludeDefunctServers opt then
          bindR (getServerIdColumnName opt) (\<lambda>col.
            Inr (addCondition [] (makeConditionServerSet (getValidServerIdSet opt) col) ADD_TYPE_AND False))
        else Inr []) (\<lambda>condition.
     let finish = (\<lambda>condition.
           bindR (makeConditionTargetIds opt) (\<lambda>targets.
           bindR (makeConditionHostsFilter opt) (\<lambda>filters.
           Inr (addCondition (addCondition condition targets ADD_TYPE_AND False) filters ADD_TYPE_AND False))))
     in if \<not> ho_has opt OPPRVLG_GET_ALL_SERVER then
          bindR (makeConditionAllowedHosts opt) (\<lambda>allowedHostsCondition.
            if isAlwaysFalseCondition allowedHostsCondition then Inr allowedHostsCondition
            else finish (addCondition condition allowedHostsCondition ADD_TYPE_AND False))
        else finish condition)"

definition getJoinClauseWithGlobalHostId :: "host_option \<Rightarrow> string res" where
  "getJoinClauseWithGlobalHostId opt =
     (let sy = ho_synapse opt
      in bindR (getFullColumnName (sy_tableProfile sy) (sy_globalHostIdColumnIdx sy)) (\<lambda>l.
         bindR (getFullColumnName (sy_hostgroupMapTableProfile sy)
                  (sy_hostgroupMapGlobalHostIdColumnIdx sy)) (\<lambda>r.
         Inr (''INNER JOIN '' @ tp_name (sy_hostgroupMapTableProfile sy) @ '' ON '' @ l @ ''='' @ r))))"

definition getJoinClause :: "host_option \<Rightarrow> string res" where
  "getJoinClause opt =
     (if \<not> isHostgroupUsed opt then Inr []
      else let sy = ho_synapse opt; hg = sy_hostgroupMapTableProfile sy
           in if sy_globalHostIdColumnIdx sy \<noteq> INVALID_COLUMN_IDX
                 \<and> sy_hostgroupMapGlobalHostIdColumnIdx sy \<noteq> INVALID_COLUMN_IDX
              then getJoinClauseWithGlobalHostId opt
              else
                bindR (getServerIdColumnName opt) (\<lambda>scol.
                bindR (getColumnName hg (sy_hostgroupMapServerIdColumnIdx sy)) (\<lambda>hscol.
                bindR (getHostIdColumnName opt) (\<lambda>hcol.
                bindR (getColumnName hg (sy_hostgroupMapHostIdColumnIdx sy)) (\<lambda>hhcol.
                Inr (''INNER JOIN '' @ tp_name hg @ '' ON (('' @ scol @ ''='' @ tp_name hg @ ''.'' @ hscol
                     @ '') AND ('' @ hcol @ ''='' @ tp_name hg @ ''.'' @ hhcol @ ''))''))))))"

definition getPrimaryTableName :: "host_option \<Rightarrow> string" where
  "getPrimaryTableName opt = tp_name (sy_tableProfile (ho_synapse opt))"

definition ho_getColumnName :: "host_option \<Rightarrow> nat \<Rightarrow> string res" where
  "ho_getColumnName opt idx = getColumnNameCommon opt (sy_tableProfile (ho_synapse opt)) idx"

definition ho_getHostgroupColumnName :: "host_option \<Rightarrow> nat \<Rightarrow> string res" where
  "ho_getHostgroupColumnName opt idx =
     getColumnNameCommon opt (sy_hostgroupMapTableProfile (ho_synapse opt)) idx"

definition getFromClauseForOneTable :: "host_option \<Rightarrow> string" where
  "getFromClauseForOneTable opt = getPrimaryTableName opt"

definition getFromClauseWithHostgroup :: "host_option \<Rightarrow> string res" where
  "getFromClauseWithHostgroup opt =
     bindR (getJoinClause opt) (\<lambda>j. Inr (tp_name (sy_tableProfile (ho_synapse opt)) @ '' '' @ j))"

definition getFromClause :: "host_option \<Rightarrow> string res" where
  "getFromClause opt =
     (if isHostgroupUsed opt then getFromClauseWithHostgroup opt
      else Inr (getFromClauseForOneTable opt))"

end
