(* ===== verification/Sql_Reader.thy ===== *)
theory Sql_Reader
  imports Sql_Cond
begin

text \<open>
  How a database reads the text of a condition. The conditions that the server sends are plain
  SQL: column names, integers, quoted strings, comparisons, IN lists, AND, OR, NOT and
  parentheses. \<open>sql_parse\<close> reads such a text as standard SQL does (keywords in any case, AND
  before OR), and \<open>sql_where\<close> evaluates it on a row; \<open>None\<close> is a syntax error. The database engines
  themselves are not part of the repository: the components that send conditions take the engine
  as an argument, and the locale \<open>sql_engine\<close> states what they rely on, namely that the engine
  agrees with \<open>sql_where\<close>.
\<close>

section \<open>Tokens\<close>

datatype tok =
    TId string | TInt int | TStr string
  | TLp | TRp | TComma | TEq | TNe | TCmp sql_cmp | TAnd | TOr | TNot | TIn | TIs | TNull

definition is_dig :: "char \<Rightarrow> bool" where
  "is_dig c \<longleftrightarrow> 48 \<le> (of_char c :: nat) \<and> (of_char c :: nat) \<le> 57"

definition is_lower :: "char \<Rightarrow> bool" where
  "is_lower c \<longleftrightarrow> 97 \<le> (of_char c :: nat) \<and> (of_char c :: nat) \<le> 122"

definition is_upper :: "char \<Rightarrow> bool" where
  "is_upper c \<longleftrightarrow> 65 \<le> (of_char c :: nat) \<and> (of_char c :: nat) \<le> 90"

definition id_start :: "char \<Rightarrow> bool" where
  "id_start c \<longleftrightarrow> is_lower c \<or> is_upper c \<or> c = CHR ''_''"

definition id_char :: "char \<Rightarrow> bool" where
  "id_char c \<longleftrightarrow> id_start c \<or> is_dig c \<or> c = CHR ''.''"

definition up_char :: "char \<Rightarrow> char" where
  "up_char c = (if is_lower c then char_of ((of_char c :: nat) - 32) else c)"

definition word_tok :: "string \<Rightarrow> tok" where
  "word_tok w =
     (let u = map up_char w
      in if u = ''AND'' then TAnd else if u = ''OR'' then TOr
         else if u = ''NOT'' then TNot else if u = ''IN'' then TIn
         else if u = ''IS'' then TIs else if u = ''NULL'' then TNull else TId w)"

definition lex_tok :: "char \<Rightarrow> string \<Rightarrow> (tok \<times> string) option" where
  "lex_tok c s =
     (if c = CHR ''('' then Some (TLp, s)
      else if c = CHR '')'' then Some (TRp, s)
      else if c = CHR '','' then Some (TComma, s)
      else if c = CHR ''='' then Some (TEq, s)
      else if c = CHR ''<'' then
        (case s of
           d # r \<Rightarrow> if d = CHR ''>'' then Some (TNe, r) else if d = CHR ''='' then Some (TCmp CmpLe, r) else Some (TCmp CmpLt, s)
         | [] \<Rightarrow> None)
      else if c = CHR ''>'' then
        (case s of d # r \<Rightarrow> if d = CHR ''='' then Some (TCmp CmpGe, r) else Some (TCmp CmpGt, s) | [] \<Rightarrow> None)
      else if c = CHR ''!'' then (case s of d # r \<Rightarrow> if d = CHR ''='' then Some (TNe, r) else None | [] \<Rightarrow> None)
      else if c = quot then map_option (\<lambda>(v, r). (TStr v, r)) (scan_body s)
      else if c = CHR ''-'' then
        (if takeWhile is_dig s = [] then None
         else Some (TInt (- int (undec_nat (takeWhile is_dig s))), dropWhile is_dig s))
      else if is_dig c then
        Some (TInt (int (undec_nat (c # takeWhile is_dig s))), dropWhile is_dig s)
      else if id_start c then Some (word_tok (c # takeWhile id_char s), dropWhile id_char s)
      else None)"

lemma scan_body_shorter: "scan_body s = Some (v, r) \<Longrightarrow> length r < length s"
  by (induction s arbitrary: v r rule: scan_body.induct)
     (fastforce split: if_splits list.splits)+

lemma lex_tok_shorter: "lex_tok c s = Some (t, r) \<Longrightarrow> length r \<le> length s"
  using length_dropWhile_le [of is_dig s] length_dropWhile_le [of id_char s]
  by (auto simp: lex_tok_def dest: scan_body_shorter split: if_splits list.splits)

function lex :: "string \<Rightarrow> tok list option" where
  "lex [] = Some []"
| "lex (c # s) =
     (if c = CHR '' '' then lex s
      else case lex_tok c s of
        None \<Rightarrow> None
      | Some (t, r) \<Rightarrow> map_option (Cons t) (lex r))"
  by pat_completeness auto
termination
  by (relation "measure length") (auto dest: lex_tok_shorter)

declare lex.simps(2) [simp del]

section \<open>Grammar\<close>

fun p_val :: "tok \<Rightarrow> sql_val option" where
  "p_val TNull = Some VNull"
| "p_val (TInt i) = Some (VInt i)"
| "p_val (TStr s) = Some (VStr s)"
| "p_val _ = None"

fun p_vals :: "tok list \<Rightarrow> (sql_val list \<times> tok list) option" where
  "p_vals (t # TComma # r) =
     (case p_val t of None \<Rightarrow> None | Some v \<Rightarrow> map_option (\<lambda>(vs, r'). (v # vs, r')) (p_vals r))"
| "p_vals (t # TRp # r) = map_option (\<lambda>v. ([v], r)) (p_val t)"
| "p_vals _ = None"

text \<open>The fuel bounds the nesting; \<open>sql_parse\<close> gives three units for every token.\<close>

fun p_cond :: "nat \<Rightarrow> tok list \<Rightarrow> (sql_cond \<times> tok list) option"
  and p_conj :: "nat \<Rightarrow> tok list \<Rightarrow> (sql_atom list \<times> tok list) option"
  and p_atom :: "nat \<Rightarrow> tok list \<Rightarrow> (sql_atom \<times> tok list) option" where
  "p_cond 0 ts = None"
| "p_cond (Suc n) ts =
     (case p_conj n ts of
        None \<Rightarrow> None
      | Some (d, r) \<Rightarrow>
          (case r of
             TOr # r' \<Rightarrow> map_option (\<lambda>(c, r''). (d # c, r'')) (p_cond n r')
           | _ \<Rightarrow> Some ([d], r)))"
| "p_conj 0 ts = None"
| "p_conj (Suc n) ts =
     (case p_atom n ts of
        None \<Rightarrow> None
      | Some (a, r) \<Rightarrow>
          (case r of
             TAnd # r' \<Rightarrow> map_option (\<lambda>(d, r''). (a # d, r'')) (p_conj n r')
           | _ \<Rightarrow> Some ([a], r)))"
| "p_atom 0 ts = None"
| "p_atom (Suc n) (TLp # r) =
     (case p_cond n r of Some (c, TRp # r') \<Rightarrow> Some (AtPar c, r') | _ \<Rightarrow> None)"
| "p_atom (Suc n) (TNot # TLp # r) =
     (case p_cond n r of Some (c, TRp # r') \<Rightarrow> Some (AtNot c, r') | _ \<Rightarrow> None)"
| "p_atom (Suc n) (TId c # TEq # v # r) = map_option (\<lambda>v. (AtEq c v, r)) (p_val v)"
| "p_atom (Suc n) (TId c # TNe # v # r) = map_option (\<lambda>v. (AtNe c v, r)) (p_val v)"
| "p_atom (Suc n) (TId c # TCmp p # TInt i # r) = Some (AtCmp p c i, r)"
| "p_atom (Suc n) (TId c # TIs # TNull # r) = Some (AtNull c, r)"
| "p_atom (Suc n) (TId c # TIs # TNot # TNull # r) = Some (AtNot [[AtNull c]], r)"
| "p_atom (Suc n) (TId c # TIn # TLp # r) = map_option (\<lambda>(vs, r'). (AtIn c vs, r')) (p_vals r)"
| "p_atom (Suc n) (TInt i # r) = (if i = 0 then Some (AtNever, r) else None)"
| "p_atom (Suc n) ts = None"

definition sql_parse :: "string \<Rightarrow> sql_cond option" where
  "sql_parse s =
     (case lex s of
        None \<Rightarrow> None
      | Some ts \<Rightarrow> (case p_cond (3 * length ts) ts of Some (c, []) \<Rightarrow> Some c | _ \<Rightarrow> None))"

text \<open>No text at all is no WHERE clause.\<close>

definition sql_where :: "string \<Rightarrow> sql_row \<Rightarrow> bool option" where
  "sql_where s row = (if s = [] then Some True else map_option (holds row) (sql_parse s))"

section \<open>Reading back what was rendered\<close>

text \<open>The text behind a value or a name: nothing that would continue it.\<close>

definition sep :: "string \<Rightarrow> bool" where
  "sep rest \<longleftrightarrow> (case rest of [] \<Rightarrow> True | c # _ \<Rightarrow> \<not> id_char c \<and> c \<noteq> quot)"

definition ident :: "string \<Rightarrow> bool" where
  "ident w \<longleftrightarrow> w \<noteq> [] \<and> id_start (hd w) \<and> list_all id_char w \<and> word_tok w = TId w"

lemmas char_class_defs = id_char_def id_start_def is_dig_def is_lower_def is_upper_def

lemma sep_simps [simp]:
  "sep []" "sep (CHR '')'' # r)" "sep (CHR '','' # r)" "sep (CHR '' '' # r)"
  "sep (CHR ''='' # r)" "sep (CHR ''<'' # r)" "sep (CHR ''>'' # r)" "sep (CHR ''!'' # r)"
  by (simp_all add: sep_def char_class_defs)

lemma lex_space [simp]: "lex (CHR '' '' # r) = lex r"
  by (simp add: lex.simps(2))

lemma lex_marks [simp]:
  "lex (CHR ''('' # r) = map_option (Cons TLp) (lex r)"
  "lex (CHR '')'' # r) = map_option (Cons TRp) (lex r)"
  "lex (CHR '','' # r) = map_option (Cons TComma) (lex r)"
  "lex (CHR ''='' # r) = map_option (Cons TEq) (lex r)"
  "lex (CHR ''<'' # CHR ''>'' # r) = map_option (Cons TNe) (lex r)"
  "lex (CHR ''!'' # CHR ''='' # r) = map_option (Cons TNe) (lex r)"
  "lex (CHR ''<'' # CHR ''='' # r) = map_option (Cons (TCmp CmpLe)) (lex r)"
  "lex (CHR ''>'' # CHR ''='' # r) = map_option (Cons (TCmp CmpGe)) (lex r)"
  by (simp_all add: lex.simps(2) lex_tok_def)

lemma takeWhile_sep:
  assumes "sep rest" "list_all id_char w"
  shows "takeWhile id_char (w @ rest) = w" "dropWhile id_char (w @ rest) = rest"
  using assms by (auto simp: sep_def list_all_iff takeWhile_append dropWhile_append split: list.splits)

lemma id_start_not_mark:
  assumes "id_start c"
  shows "c \<noteq> CHR '' ''" "c \<noteq> CHR ''(''" "c \<noteq> CHR '')''" "c \<noteq> CHR '',''" "c \<noteq> CHR ''=''" "c \<noteq> CHR ''<''"
    "c \<noteq> CHR ''>''" "c \<noteq> CHR ''!''"
    "c \<noteq> quot" "c \<noteq> CHR ''-''" "\<not> is_dig c"
  using assms by (auto simp: char_class_defs)

lemma lex_word:
  assumes "id_start c" "list_all id_char w" "sep rest"
  shows "lex (c # w @ rest) = map_option (Cons (word_tok (c # w))) (lex rest)"
  using id_start_not_mark [OF assms(1)] assms
  by (simp add: lex.simps(2) lex_tok_def takeWhile_sep)

lemma lex_ident: "ident w \<Longrightarrow> sep rest \<Longrightarrow> lex (w @ rest) = map_option (Cons (TId w)) (lex rest)"
  by (cases w) (auto simp: ident_def lex_word)

lemma lex_and [simp]: "lex (CHR ''A'' # CHR ''N'' # CHR ''D'' # CHR '' '' # r) = map_option (Cons TAnd) (lex r)"
  using lex_word [of "CHR ''A''" "''ND''" "CHR '' '' # r"]
  by (simp add: char_class_defs word_tok_def up_char_def)

lemma lex_or [simp]: "lex (CHR ''O'' # CHR ''R'' # CHR '' '' # r) = map_option (Cons TOr) (lex r)"
  using lex_word [of "CHR ''O''" "''R''" "CHR '' '' # r"]
  by (simp add: char_class_defs word_tok_def up_char_def)

lemma lex_not [simp]: "lex (CHR ''N'' # CHR ''O'' # CHR ''T'' # CHR '' '' # r) = map_option (Cons TNot) (lex r)"
  using lex_word [of "CHR ''N''" "''OT''" "CHR '' '' # r"]
  by (simp add: char_class_defs word_tok_def up_char_def)

lemma lex_in [simp]: "lex (CHR ''I'' # CHR ''N'' # CHR '' '' # r) = map_option (Cons TIn) (lex r)"
  using lex_word [of "CHR ''I''" "''N''" "CHR '' '' # r"]
  by (simp add: char_class_defs word_tok_def up_char_def)

lemma lex_null:
  assumes "sep r"
  shows "lex (CHR ''N'' # CHR ''U'' # CHR ''L'' # CHR ''L'' # r) = map_option (Cons TNull) (lex r)"
  using lex_word [of "CHR ''N''" "''ULL''" r] assms
  by (simp add: char_class_defs word_tok_def up_char_def)

lemma lex_is [simp]: "lex (CHR ''I'' # CHR ''S'' # CHR '' '' # r) = map_option (Cons TIs) (lex r)"
  using lex_word [of "CHR ''I''" "''S''" "CHR '' '' # r"]
  by (simp add: char_class_defs word_tok_def up_char_def)

lemma up_char_values: "up_char CHR ''a'' = CHR ''A''" "up_char CHR ''n'' = CHR ''N''"
    "up_char CHR ''d'' = CHR ''D''" "up_char CHR ''o'' = CHR ''O''" "up_char CHR ''r'' = CHR ''R''"
    "up_char CHR ''i'' = CHR ''I''"
  by code_simp+

lemma lex_in_lower [simp]: "lex (CHR ''i'' # CHR ''n'' # CHR '' '' # r) = map_option (Cons TIn) (lex r)"
  using lex_word [of "CHR ''i''" "''n''" "CHR '' '' # r"]
  by (simp add: char_class_defs word_tok_def up_char_values)

lemma lex_and_lower [simp]: "lex (CHR ''a'' # CHR ''n'' # CHR ''d'' # CHR '' '' # r) = map_option (Cons TAnd) (lex r)"
  using lex_word [of "CHR ''a''" "''nd''" "CHR '' '' # r"]
  by (simp add: char_class_defs word_tok_def up_char_values)

lemma lex_or_lower [simp]: "lex (CHR ''o'' # CHR ''r'' # CHR '' '' # r) = map_option (Cons TOr) (lex r)"
  using lex_word [of "CHR ''o''" "''r''" "CHR '' '' # r"]
  by (simp add: char_class_defs word_tok_def up_char_values)

subsection \<open>Values\<close>

lemma is_dig_not_mark:
  assumes "is_dig c"
  shows "c \<noteq> CHR '' ''" "c \<noteq> CHR ''(''" "c \<noteq> CHR '')''" "c \<noteq> CHR '',''" "c \<noteq> CHR ''=''" "c \<noteq> CHR ''<''"
    "c \<noteq> CHR ''>''" "c \<noteq> CHR ''!''"
    "c \<noteq> quot" "c \<noteq> CHR ''-''"
  using assms by (auto simp: char_class_defs)

lemma dec_nat_dig: "list_all is_dig (dec_nat n)"
  using dec_nat_digits by (auto simp: list_all_iff is_dig_def)

lemma takeWhile_dec:
  assumes "sep rest"
  shows "takeWhile is_dig (dec_nat n @ rest) = dec_nat n" "dropWhile is_dig (dec_nat n @ rest) = rest"
  using assms dec_nat_dig [of n]
  by (auto simp: sep_def list_all_iff takeWhile_append dropWhile_append id_char_def split: list.splits)

lemma lex_dec_nat: "sep rest \<Longrightarrow> lex (dec_nat n @ rest) = map_option (Cons (TInt (int n))) (lex rest)"
proof -
  assume sep: "sep rest"
  obtain c w where w: "dec_nat n = c # w" by (cases "dec_nat n") auto
  have dig: "is_dig c" using dec_nat_dig [of n] by (simp add: w)
  have tw: "takeWhile is_dig (w @ rest) = w" "dropWhile is_dig (w @ rest) = rest"
    using takeWhile_dec [OF sep, of n] dig by (simp_all add: w)
  show ?thesis
    using is_dig_not_mark [OF dig] dig tw undec_nat_dec_nat [of n]
    by (simp add: lex.simps(2) lex_tok_def w)
qed

lemma lex_int: "sep rest \<Longrightarrow> lex (dec_int i @ rest) = map_option (Cons (TInt i)) (lex rest)"
  using lex_dec_nat [of rest "nat i"] takeWhile_dec [of rest "nat (- i)"]
  by (auto simp: dec_int_def lex.simps(2) lex_tok_def)

lemma sep_ends: "sep rest \<Longrightarrow> ends_literal rest"
  by (auto simp: sep_def ends_literal_def split: list.splits)

lemma lex_str: "sep rest \<Longrightarrow> lex (enc_str v @ rest) = map_option (Cons (TStr (cstr v))) (lex rest)"
  using scan_body_double [OF sep_ends, of rest "cstr v"]
  by (simp add: enc_str_eq lex.simps(2) lex_tok_def)

fun val_tok :: "sql_val \<Rightarrow> tok" where
  "val_tok VNull = TNull"
| "val_tok (VInt i) = TInt i"
| "val_tok (VStr s) = TStr (cstr s)"

lemma lex_val: "sep rest \<Longrightarrow> lex (enc_val v @ rest) = map_option (Cons (val_tok v)) (lex rest)"
  by (cases v) (simp_all add: enc_int_def lex_int lex_str lex_null)

lemma p_val_tok [simp]: "p_val (val_tok v) = Some (lit_val v)"
  by (cases v) simp_all

subsection \<open>Conditions\<close>

text \<open>The tokens of a condition, and the condition with its literals as the database stores them.\<close>

primrec atom_toks :: "sql_atom \<Rightarrow> tok list" where
  "atom_toks (AtEq c v) = [TId c, TEq, val_tok v]"
| "atom_toks (AtNe c v) = [TId c, TNe, val_tok v]"
| "atom_toks (AtCmp p c i) = [TId c, TCmp p, TInt i]"
| "atom_toks (AtNull c) = [TId c, TIs, TNull]"
| "atom_toks (AtIn c vs) = TId c # TIn # TLp # join_with [TComma] (map (\<lambda>v. [val_tok v]) vs) @ [TRp]"
| "atom_toks AtNever = [TInt 0]"
| "atom_toks (AtPar c) =
     TLp # join_with [TOr] (map (join_with [TAnd]) (map (map atom_toks) c)) @ [TRp]"
| "atom_toks (AtNot c) =
     TNot # TLp # join_with [TOr] (map (join_with [TAnd]) (map (map atom_toks) c)) @ [TRp]"

definition cond_toks :: "sql_cond \<Rightarrow> tok list" where
  "cond_toks c = join_with [TOr] (map (join_with [TAnd]) (map (map atom_toks) c))"

primrec norm_atom :: "sql_atom \<Rightarrow> sql_atom" where
  "norm_atom (AtEq c v) = AtEq c (lit_val v)"
| "norm_atom (AtNe c v) = AtNe c (lit_val v)"
| "norm_atom (AtCmp p c i) = AtCmp p c i"
| "norm_atom (AtNull c) = AtNull c"
| "norm_atom (AtIn c vs) = AtIn c (map lit_val vs)"
| "norm_atom AtNever = AtNever"
| "norm_atom (AtPar c) = AtPar (map (map norm_atom) c)"
| "norm_atom (AtNot c) = AtNot (map (map norm_atom) c)"

primrec cols_ok :: "sql_atom \<Rightarrow> bool" where
  "cols_ok (AtEq c v) = ident c"
| "cols_ok (AtNe c v) = ident c"
| "cols_ok (AtCmp p c i) = ident c"
| "cols_ok (AtNull c) = ident c"
| "cols_ok (AtIn c vs) = ident c"
| "cols_ok AtNever = True"
| "cols_ok (AtPar c) = list_all (list_all (\<lambda>b. b)) (map (map cols_ok) c)"
| "cols_ok (AtNot c) = list_all (list_all (\<lambda>b. b)) (map (map cols_ok) c)"

definition cond_ok :: "sql_cond \<Rightarrow> bool" where
  "cond_ok c \<longleftrightarrow> (\<forall>d \<in> set c. \<forall>a \<in> set d. wf_atom a \<and> cols_ok a) \<and> [] \<notin> set c"

text \<open>\<open>lexes s ts\<close>: in front of a separator, the text \<open>s\<close> gives the tokens \<open>ts\<close>.\<close>

definition lexes :: "string \<Rightarrow> tok list \<Rightarrow> bool" where
  "lexes s ts \<longleftrightarrow> (\<forall>rest. sep rest \<longrightarrow> lex (s @ rest) = map_option ((@) ts) (lex rest))"

lemma lexesD: "lexes s ts \<Longrightarrow> sep rest \<Longrightarrow> lex (s @ rest) = map_option ((@) ts) (lex rest)"
  by (simp add: lexes_def)

lemma append_eta: "(@) [] = (\<lambda>x. x)" "(@) (t # ts) = (\<lambda>x. t # ts @ x)"
  by (simp_all add: fun_eq_iff)

lemma lexes_join:
  assumes "\<And>x. x \<in> set xs \<Longrightarrow> lexes (f x) (g x)"
    and "\<And>s. sep (glue @ s)" "\<And>s. lex (glue @ s) = map_option (Cons t) (lex s)"
  shows "lexes (join_with glue (map f xs)) (join_with [t] (map g xs))"
  using assms(1)
proof (induction xs)
  case (Cons x xs)
  then have hd: "lexes (f x) (g x)" and tl: "lexes (join_with glue (map f xs)) (join_with [t] (map g xs))"
    by auto
  show ?case
  proof (cases xs)
    case Nil
    with hd show ?thesis by simp
  next
    case (Cons y ys)
    have "lex (f x @ glue @ join_with glue (map f xs) @ rest) =
        map_option ((@) (g x @ t # join_with [t] (map g xs))) (lex rest)" if "sep rest" for rest
      using lexesD [OF hd, of "glue @ join_with glue (map f xs) @ rest"] lexesD [OF tl that]
      by (cases "lex rest") (simp_all add: assms(2,3))
    with Cons show ?thesis by (simp add: lexes_def)
  qed
qed (simp add: lexes_def append_eta option.map_ident)

lemma lexes_and: "(\<And>a. a \<in> set d \<Longrightarrow> lexes (render_atom a) (atom_toks a)) \<Longrightarrow>
    lexes (join_with '' AND '' (map render_atom d)) (join_with [TAnd] (map atom_toks d))"
  by (rule lexes_join) simp_all

lemma lexes_or:
  assumes "\<And>d a. d \<in> set c \<Longrightarrow> a \<in> set d \<Longrightarrow> lexes (render_atom a) (atom_toks a)"
  shows "lexes (render c) (cond_toks c)"
proof -
  have "lexes (join_with '' OR '' (map (\<lambda>d. join_with '' AND '' (map render_atom d)) c))
      (join_with [TOr] (map (\<lambda>d. join_with [TAnd] (map atom_toks d)) c))"
    by (rule lexes_join) (simp_all add: lexes_and assms)
  then show ?thesis by (simp add: render_def cond_toks_def comp_def)
qed

lemma lexes_vals: "lexes (join_with '','' (map enc_val vs)) (join_with [TComma] (map (\<lambda>v. [val_tok v]) vs))"
  by (rule lexes_join) (simp_all add: lexes_def lex_val append_eta)

lemma lexes_wrap:
  assumes "lexes s ts"
  shows "lexes (CHR ''('' # s @ '')'') (TLp # ts @ [TRp])"
  using lexesD [OF assms, of "CHR '')'' # _"] by (auto simp: lexes_def option.map_comp comp_def append_eta)

lemma lexes_never: "lexes alwaysFalseCondition [TInt 0]"
proof -
  have "dec_int 0 = ''0''" by code_simp
  then show ?thesis
    using lex_int [of _ 0] by (simp add: lexes_def alwaysFalseCondition_def append_eta)
qed

lemma lexes_ident_eq: "ident c \<Longrightarrow> lexes (c @ ''='' @ enc_val v) [TId c, TEq, val_tok v]"
  by (simp add: lexes_def lex_ident lex_val option.map_comp comp_def append_eta)

lemma lexes_ident_ne: "ident c \<Longrightarrow> lexes (c @ ''<>'' @ enc_val v) [TId c, TNe, val_tok v]"
  by (simp add: lexes_def lex_ident lex_val option.map_comp comp_def append_eta)

lemma lex_cmp: "lex (cmp_text p @ dec_int i @ rest) = map_option (Cons (TCmp p)) (lex (dec_int i @ rest))"
proof -
  obtain c w where w: "dec_int i = c # w" by (cases "dec_int i") auto
  then have "c \<noteq> CHR ''=''" "c \<noteq> CHR ''>''" using dec_int_chars [of c i] by auto
  then show ?thesis by (cases p) (simp_all add: w lex.simps(2) lex_tok_def)
qed

lemma sep_cmp: "sep (cmp_text p @ r)"
  by (cases p) simp_all

lemma lexes_ident_cmp: "ident c \<Longrightarrow> lexes (c @ cmp_text p @ enc_int i) [TId c, TCmp p, TInt i]"
  by (simp add: lexes_def enc_int_def lex_ident sep_cmp lex_cmp lex_int option.map_comp comp_def append_eta)

lemma lexes_ident_null: "ident c \<Longrightarrow> lexes (c @ '' IS NULL'') [TId c, TIs, TNull]"
  by (simp add: lexes_def lex_ident lex_null option.map_comp comp_def append_eta)

lemma lexes_ident_in:
  assumes "ident c"
  shows "lexes (c @ '' IN ('' @ join_with '','' (map enc_val vs) @ '')'')
     (TId c # TIn # TLp # join_with [TComma] (map (\<lambda>v. [val_tok v]) vs) @ [TRp])"
  using assms lexesD [OF lexes_wrap [OF lexes_vals], of _ vs]
  by (auto simp: lexes_def lex_ident option.map_comp comp_def append_eta)

lemma lexes_atom: "cols_ok a \<Longrightarrow> lexes (render_atom a) (atom_toks a)"
proof (induction a)
  case (AtPar c)
  then have "lexes (render c) (cond_toks c)"
    by (intro lexes_or) (auto simp: list_all_iff)
  then show ?case
    using lexes_wrap [of "render c" "cond_toks c"]
    by (simp add: render_par_atom cond_toks_def del: render_atom.simps)
next
  case (AtNot c)
  then have "lexes (render c) (cond_toks c)"
    by (intro lexes_or) (auto simp: list_all_iff)
  then have "lexes (CHR ''('' # render c @ '')'') (TLp # cond_toks c @ [TRp])"
    by (rule lexes_wrap)
  then have "lexes (''NOT '' @ CHR ''('' # render c @ '')'') (TNot # TLp # cond_toks c @ [TRp])"
    by (auto simp: lexes_def option.map_comp comp_def append_eta)
  then show ?case
    by (simp add: render_not_atom cond_toks_def del: render_atom.simps)
qed (use lexes_never lexes_ident_eq lexes_ident_ne lexes_ident_cmp lexes_ident_null lexes_ident_in in simp_all)

lemma lex_render: "cond_ok c \<Longrightarrow> lex (render c) = Some (cond_toks c)"
  using lexesD [OF lexes_or, of c "[]"] lexes_atom by (fastforce simp: cond_ok_def)

subsection \<open>Parsing\<close>

lemma p_vals_toks:
  "vs \<noteq> [] \<Longrightarrow> p_vals (join_with [TComma] (map (\<lambda>v. [val_tok v]) vs) @ TRp # r) = Some (map lit_val vs, r)"
proof (induction vs)
  case (Cons v vs)
  then show ?case by (cases vs) simp_all
qed simp

text \<open>What may stand behind a condition or a conjunction for it to end there.\<close>

definition stops :: "tok set \<Rightarrow> tok list \<Rightarrow> bool" where
  "stops X r \<longleftrightarrow> (case r of [] \<Rightarrow> True | t # _ \<Rightarrow> t \<notin> X)"

lemma stops_simps [simp]: "stops X []" "stops X (t # r) \<longleftrightarrow> t \<notin> X"
  by (simp_all add: stops_def)

definition reads :: "(nat \<Rightarrow> tok list \<Rightarrow> ('a \<times> tok list) option) \<Rightarrow> tok set \<Rightarrow> nat \<Rightarrow> tok list \<Rightarrow> 'a \<Rightarrow> bool" where
  "reads p X k ts x \<longleftrightarrow>
     (\<forall>n r. 3 * length ts \<le> n + k \<longrightarrow> stops X r \<longrightarrow> p n (ts @ r) = Some (x, r))"

lemma readsD: "reads p X k ts x \<Longrightarrow> 3 * length ts \<le> n + k \<Longrightarrow> stops X r \<Longrightarrow> p n (ts @ r) = Some (x, r)"
  by (simp add: reads_def)

lemma atom_toks_nonempty [simp]: "atom_toks a \<noteq> []"
  by (cases a) simp_all

lemma p_conj_last:
  "p_atom m ts = Some (a, r) \<Longrightarrow> stops {TAnd} r \<Longrightarrow> p_conj (Suc m) ts = Some ([a], r)"
  by (auto simp: stops_def split: list.splits tok.splits)

lemma p_cond_last:
  "p_conj m ts = Some (d, r) \<Longrightarrow> stops {TOr} r \<Longrightarrow> p_cond (Suc m) ts = Some ([d], r)"
  by (auto simp: stops_def split: list.splits tok.splits)

text \<open>A list of elements with a token between them, as \<open>p_conj\<close> and \<open>p_cond\<close> read it.\<close>

lemma reads_list:
  assumes last: "\<And>m ts x r. pe m ts = Some (x, r) \<Longrightarrow> stops {t} r \<Longrightarrow> pl (Suc m) ts = Some ([x], r)"
    and more: "\<And>m ts x r xs r'. pe m ts = Some (x, t # r) \<Longrightarrow> pl m r = Some (xs, r') \<Longrightarrow>
        pl (Suc m) ts = Some (x # xs, r')"
    and "t \<notin> X" "d \<noteq> []" "k \<le> 1"
    and elem: "\<And>a. a \<in> set d \<Longrightarrow> f a \<noteq> [] \<and> reads pe X (Suc k) (f a) (g a)"
  shows "reads pl (insert t X) k (join_with [t] (map f d)) (map g d)"
  using assms(4) elem
proof (induction d)
  case (Cons a d)
  have a: "reads pe X (Suc k) (f a) (g a)" and one: "length (f a) \<ge> 1"
    using Cons.prems by (auto simp: Suc_le_eq)
  show ?case unfolding reads_def
  proof (intro allI impI)
    fix n r assume fuel: "3 * length (join_with [t] (map f (a # d))) \<le> n + k" and r: "stops (insert t X) r"
    have stop: "stops X r" "stops {t} r" using r by (auto simp: stops_def split: list.splits)
    show "pl n (join_with [t] (map f (a # d)) @ r) = Some (map g (a # d), r)"
    proof (cases d)
      case Nil
      obtain m where n: "n = Suc m" using fuel one \<open>k \<le> 1\<close> Nil by (cases n) auto
      have "pe m (f a @ r) = Some (g a, r)"
        using fuel stop by (intro readsD [OF a]) (simp_all add: Nil n)
      with stop show ?thesis by (simp add: Nil n last)
    next
      case (Cons b d')
      let ?ds = "join_with [t] (map f d)"
      have len: "length (join_with [t] (map f (a # d))) = length (f a) + 1 + length ?ds"
        by (simp add: Cons)
      obtain m where n: "n = Suc m" using fuel one len \<open>k \<le> 1\<close> by (cases n) auto
      have "pe m (f a @ t # ?ds @ r) = Some (g a, t # ?ds @ r)"
        using fuel len \<open>t \<notin> X\<close> by (intro readsD [OF a]) (simp_all add: n)
      moreover have "pl m (?ds @ r) = Some (map g d, r)"
        using fuel len one r Cons.IH Cons.prems
        by (intro readsD [of pl "insert t X" k]) (simp_all add: Cons n)
      ultimately show ?thesis using more by (simp add: Cons n)
    qed
  qed
qed simp

lemma reads_conj:
  assumes "d \<noteq> []" "\<And>a. a \<in> set d \<Longrightarrow> reads p_atom {} 2 (atom_toks a) (norm_atom a)"
  shows "reads p_conj {TAnd} 1 (join_with [TAnd] (map atom_toks d)) (map norm_atom d)"
  by (rule reads_list [where pe = p_atom and t = TAnd])
     (use assms in \<open>simp_all add: p_conj_last numeral_2_eq_2 del: p_conj.simps(2)\<close>, simp)

lemma and_toks_nonempty: "d \<noteq> [] \<Longrightarrow> join_with [TAnd] (map atom_toks d) \<noteq> []"
  by (cases d; cases "tl d") auto

lemma reads_cond:
  assumes "c \<noteq> []" "[] \<notin> set c"
    and "\<And>d a. d \<in> set c \<Longrightarrow> a \<in> set d \<Longrightarrow> reads p_atom {} 2 (atom_toks a) (norm_atom a)"
  shows "reads p_cond {TOr, TAnd} 0 (cond_toks c) (map (map norm_atom) c)"
proof -
  have "reads p_cond (insert TOr {TAnd}) 0 (join_with [TOr] (map (\<lambda>d. join_with [TAnd] (map atom_toks d)) c))
      (map (map norm_atom) c)"
  proof (rule reads_list [where pe = p_conj and t = TOr])
    fix d assume d: "d \<in> set c"
    then have "d \<noteq> []" using assms(2) by auto
    then show "join_with [TAnd] (map atom_toks d) \<noteq> []
        \<and> reads p_conj {TAnd} (Suc 0) (join_with [TAnd] (map atom_toks d)) (map norm_atom d)"
      using reads_conj [of d] assms(3) d and_toks_nonempty [of d] by simp
  qed (use assms(1) in \<open>simp_all add: p_cond_last del: p_cond.simps(2)\<close>, simp)
  then show ?thesis by (simp add: cond_toks_def comp_def)
qed

lemma p_atom_fuel:
  assumes "Suc 0 \<le> n"
  shows "p_atom n (TId c # TEq # val_tok v # r) = Some (AtEq c (lit_val v), r)"
    "p_atom n (TId c # TNe # val_tok v # r) = Some (AtNe c (lit_val v), r)"
    "p_atom n (TId c # TCmp p # TInt i # r) = Some (AtCmp p c i, r)"
    "p_atom n (TId c # TIs # TNull # r) = Some (AtNull c, r)"
    "p_atom n (TInt 0 # r) = Some (AtNever, r)"
  using assms by (cases n; simp)+

lemma reads_atom: "wf_atom a \<Longrightarrow> reads p_atom {} 2 (atom_toks a) (norm_atom a)"
proof (induction a)
  case (AtIn c vs)
  show ?case unfolding reads_def
  proof (intro allI impI)
    fix n r assume "3 * length (atom_toks (AtIn c vs)) \<le> n + 2"
    then obtain m where "n = Suc m" by (cases n) auto
    with AtIn show "p_atom n (atom_toks (AtIn c vs) @ r) = Some (norm_atom (AtIn c vs), r)"
      by (simp add: p_vals_toks)
  qed
next
  case (AtPar c)
  have c: "reads p_cond {TOr, TAnd} 0 (cond_toks c) (map (map norm_atom) c)"
    using AtPar by (intro reads_cond) (auto simp: wf_cond_def)
  show ?case unfolding reads_def
  proof (intro allI impI)
    fix n r assume n: "3 * length (atom_toks (AtPar c)) \<le> n + 2"
    then obtain m where m: "n = Suc m" by (cases n) auto
    have "p_cond m (cond_toks c @ TRp # r) = Some (map (map norm_atom) c, TRp # r)"
      using n by (intro readsD [OF c]) (simp_all add: m cond_toks_def)
    then show "p_atom n (atom_toks (AtPar c) @ r) = Some (norm_atom (AtPar c), r)"
      by (simp add: m cond_toks_def)
  qed
next
  case (AtNot c)
  have c: "reads p_cond {TOr, TAnd} 0 (cond_toks c) (map (map norm_atom) c)"
    using AtNot by (intro reads_cond) (auto simp: wf_cond_def)
  show ?case unfolding reads_def
  proof (intro allI impI)
    fix n r assume n: "3 * length (atom_toks (AtNot c)) \<le> n + 2"
    then obtain m where m: "n = Suc m" by (cases n) auto
    have "p_cond m (cond_toks c @ TRp # r) = Some (map (map norm_atom) c, TRp # r)"
      using n by (intro readsD [OF c]) (simp_all add: m cond_toks_def)
    then show "p_atom n (atom_toks (AtNot c) @ r) = Some (norm_atom (AtNot c), r)"
      by (simp add: m cond_toks_def)
  qed
qed (auto simp: reads_def p_atom_fuel)


lemma lit_lit [simp]: "lit_val (lit_val v) = lit_val v"
  by (cases v) (simp_all add: cstr_idem)

lemma norm_atom_truth [simp]: "truth row (norm_atom a) = truth row a"
proof (induction a)
  case (AtPar c)
  then have "map (map (truth row)) (map (map norm_atom) c) = map (map (truth row)) c" by auto
  then show ?case by (simp only: norm_atom.simps truth.simps)
next
  case (AtNot c)
  then have "map (map (truth row)) (map (map norm_atom) c) = map (map (truth row)) c" by auto
  then show ?case by (simp only: norm_atom.simps truth.simps)
qed (simp_all add: list_ex_iff list_all_iff)

lemma norm_atom_holds [simp]: "holds_atom row (norm_atom a) = holds_atom row a"
  by (simp add: holds_atom_def)

lemma holds_norm: "holds row (map (map norm_atom) c) = holds row c"
  by (auto simp: holds_def)

lemma sql_parse_render: "c \<noteq> [] \<Longrightarrow> cond_ok c \<Longrightarrow> sql_parse (render c) = Some (map (map norm_atom) c)"
  using readsD [OF reads_cond, of c "3 * length (cond_toks c)" "[]"]
  by (simp add: sql_parse_def lex_render cond_ok_def reads_atom)

text \<open>
  The reader undoes the renderer: for every condition built from well-formed atoms over column
  names, the text the server assembles is read back, and evaluates on every row, as that condition.
\<close>

lemma sql_where_render:
  assumes "cond_ok c"
  shows "sql_where (render c) row = Some (selects c row)"
proof (cases "c = []")
  case False
  moreover have "render c \<noteq> []"
    using False assms render_eq_Nil [of c] by (auto simp: cond_ok_def no_gap_def)
  ultimately show ?thesis
    using sql_parse_render [OF False assms] by (simp add: sql_where_def selects_def holds_norm)
qed (simp add: sql_where_def selects_def)

text \<open>Other spellings of the same tokens: a lower-case \<open>in\<close>, and \<open>!=\<close>.\<close>

lemma lexes_ident_in_lower:
  assumes "ident c"
  shows "lexes (c @ '' in ('' @ join_with '','' (map enc_val vs) @ '')'') (atom_toks (AtIn c vs))"
  using assms lexesD [OF lexes_wrap [OF lexes_vals], of _ vs]
  by (auto simp: lexes_def lex_ident option.map_comp comp_def append_eta)

lemma lexes_ident_bang: "ident c \<Longrightarrow> lexes (c @ ''!='' @ enc_val v) (atom_toks (AtNe c v))"
  by (simp add: lexes_def lex_ident lex_val option.map_comp comp_def append_eta)

lemma sql_where_lexes:
  assumes "lexes s (cond_toks c)" "cond_ok c" "c \<noteq> []" "s \<noteq> []"
  shows "sql_where s row = Some (holds row c)"
proof -
  have "lex s = Some (cond_toks c)" using lexesD [OF assms(1), of "[]"] by simp
  then show ?thesis
    using sql_parse_render [OF assms(3,2)] lex_render [OF assms(2)] assms(4)
    by (simp add: sql_where_def sql_parse_def holds_norm)
qed

text \<open>A conjunction whose parts are texts of atoms.\<close>

lemma sql_where_and:
  assumes "\<And>s a. (s, a) \<in> set ps \<Longrightarrow> lexes s (atom_toks a) \<and> wf_atom a \<and> cols_ok a" "ps \<noteq> []"
    and "join_with '' AND '' (map fst ps) \<noteq> []"
  shows "sql_where (join_with '' AND '' (map fst ps)) row = Some (\<forall>(s, a) \<in> set ps. holds_atom row a)"
proof -
  have "lexes (join_with '' AND '' (map fst ps)) (join_with [TAnd] (map (\<lambda>p. atom_toks (snd p)) ps))"
    by (rule lexes_join) (use assms(1) in auto)
  then have "lexes (join_with '' AND '' (map fst ps)) (cond_toks [map snd ps])"
    by (simp add: cond_toks_def comp_def)
  moreover have "cond_ok [map snd ps]" using assms(1,2) by (auto simp: cond_ok_def)
  ultimately have "sql_where (join_with '' AND '' (map fst ps)) row = Some (holds row [map snd ps])"
    using assms(3) by (intro sql_where_lexes) simp_all
  then show ?thesis by (auto simp: holds_def)
qed

section \<open>The engine\<close>

text \<open>
  The database as its clients use it: given the text of a WHERE clause and a row, whether the row
  matches. Clients rely on the agreement with \<open>sql_where\<close> for the texts that it can read.
\<close>

locale sql_engine =
  fixes matches :: "string \<Rightarrow> sql_row \<Rightarrow> bool"
  assumes matches_where: "sql_where s row = Some b \<Longrightarrow> matches s row = b"
begin

lemma matches_render: "cond_ok c \<Longrightarrow> matches (render c) row = selects c row"
  by (rule matches_where) (rule sql_where_render)

end

text \<open>The reader itself, with a syntax error selecting no row, is such an engine.\<close>

definition std_matches :: "string \<Rightarrow> sql_row \<Rightarrow> bool" where
  "std_matches s row = (case sql_where s row of Some b \<Rightarrow> b | None \<Rightarrow> False)"

interpretation std: sql_engine std_matches
  by unfold_locales (simp add: std_matches_def)

end
