(* ===== verification/Query_Condition.thy ===== *)
theory Query_Condition
  imports Query_Option Sql_Reader
begin

text \<open>
  What the condition of \<open>HostResourceQueryOption::getCondition\<close> selects. For every piece of text
  of \<open>Query_Option\<close> there is its reading as a \<open>sql_cond\<close> (the \<open>c_\<close> definitions), and a lemma
  that the text is the rendering of the reading. \<open>getCondition_render\<close> puts them together; the
  properties evaluate the reading on rows.
\<close>

declare render_atom.simps(7,8) [simp del]

section \<open>Columns\<close>

definition option_cols :: "host_option \<Rightarrow> string \<Rightarrow> string \<Rightarrow> string \<Rightarrow> bool" where
  "option_cols opt sc gc hc \<longleftrightarrow>
     getServerIdColumnName opt = Inr sc \<and> getHostgroupIdColumnName opt = Inr gc
     \<and> getHostIdColumnName opt = Inr hc"

section \<open>Readings\<close>

definition c_valid :: "server_id_set \<Rightarrow> string \<Rightarrow> sql_cond" where
  "c_valid valid sc = (if valid = [] then [[AtNever]] else [[AtIn sc (map VInt valid)]])"

definition hg_atom :: "string list \<Rightarrow> string \<Rightarrow> string \<Rightarrow> sql_atom option" where
  "hg_atom hgs gc hg =
     (if hg = ALL_HOST_GROUPS
      then (if ALL_HOST_GROUPS \<in> set hgs then None else Some (AtIn gc (map VStr hgs)))
      else Some (AtEq gc (VStr (cstr hg))))"

definition server_atom :: "string \<Rightarrow> string \<Rightarrow> string \<Rightarrow> int \<times> string list \<Rightarrow> sql_atom" where
  "server_atom sc gc hg e =
     (case hg_atom (snd e) gc hg of
        None \<Rightarrow> AtEq sc (VInt (fst e))
      | Some a \<Rightarrow> AtPar [[AtEq sc (VInt (fst e)), a]])"

definition targeted :: "int \<Rightarrow> server_grp_map \<Rightarrow> server_grp_map" where
  "targeted target m = filter (\<lambda>e. target = ALL_SERVERS \<or> target = fst e) m"

definition c_allowed :: "host_option \<Rightarrow> string \<Rightarrow> string \<Rightarrow> sql_cond" where
  "c_allowed opt sc gc =
     (let m = getAllowedServersAndHostgroups opt; target = ho_targetServerId opt;
          es = targeted target m; ds = map (\<lambda>e. [server_atom sc gc (ho_targetHostgroupId opt) e]) es
      in if m = [] \<or> target \<noteq> ALL_SERVERS \<and> \<not> isAllowedServer opt target then [[AtNever]]
         else if ALL_SERVERS \<in> fst ` set es then []
         else if length ds = 1 then ds else paren ds)"

definition target_atoms :: "host_option \<Rightarrow> string \<Rightarrow> string \<Rightarrow> string \<Rightarrow> sql_atom list" where
  "target_atoms opt sc gc hc =
     (if ho_targetServerId opt \<noteq> ALL_SERVERS then [AtEq sc (VInt (ho_targetServerId opt))] else [])
     @ (if ho_targetHostId opt \<noteq> ALL_LOCAL_HOSTS then [AtEq hc (VStr (ho_targetHostId opt))] else [])
     @ (if ho_targetHostgroupId opt \<noteq> ALL_HOST_GROUPS
        then [AtEq gc (VStr (ho_targetHostgroupId opt))] else [])"

definition c_target :: "host_option \<Rightarrow> string \<Rightarrow> string \<Rightarrow> string \<Rightarrow> sql_cond" where
  "c_target opt sc gc hc =
     (case target_atoms opt sc gc hc of [] \<Rightarrow> [] | as \<Rightarrow> paren [as])"

definition cond_all :: "sql_atom list \<Rightarrow> sql_cond" where
  "cond_all as = (if as = [] then [] else [as])"

definition cond_any :: "sql_atom list \<Rightarrow> sql_cond" where
  "cond_any as = map (\<lambda>a. [a]) as"

definition c_many :: "'a list \<Rightarrow> sql_cond \<Rightarrow> sql_cond" where
  "c_many container c = (if length container > 1 then paren c else c)"

definition pair_cond :: "string \<Rightarrow> string \<Rightarrow> int \<Rightarrow> string \<Rightarrow> sql_cond" where
  "pair_cond sc col sid i = [[AtEq sc (VInt sid), AtEq col (VStr i)]]"

text \<open>The hostgroups of an entry that pass \<open>isAllowedHostgroup\<close>.\<close>

definition unrestricted :: "host_option \<Rightarrow> bool" where
  "unrestricted opt \<longleftrightarrow>
     ho_has opt OPPRVLG_GET_ALL_SERVER \<or> map_of (getAllowedServersAndHostgroups opt) ALL_SERVERS \<noteq> None"

definition entries :: "(int \<Rightarrow> bool) \<Rightarrow> server_grp_map \<Rightarrow> (int \<times> string) list" where
  "entries ok m = concat (map (\<lambda>(sid, is). map (Pair sid) is) (filter (\<lambda>e. ok (fst e)) m))"

definition c_selServers :: "host_option \<Rightarrow> string \<Rightarrow> sql_cond" where
  "c_selServers opt sc =
     c_many (ho_selectedServerIdSet opt)
       (cond_any (map (\<lambda>s. AtEq sc (VInt s)) (filter (isAllowedServer opt) (ho_selectedServerIdSet opt))))"

definition c_exclServers :: "host_option \<Rightarrow> string \<Rightarrow> sql_cond" where
  "c_exclServers opt sc =
     c_many (ho_excludedServerIdSet opt)
       (cond_all (map (\<lambda>s. AtNe sc (VInt s)) (filter (isAllowedServer opt) (ho_excludedServerIdSet opt))))"

definition c_selHostgroups :: "host_option \<Rightarrow> string \<Rightarrow> string \<Rightarrow> sql_cond" where
  "c_selHostgroups opt sc gc =
     c_many (ho_selectedServerHostgroupSetMap opt)
       (cond_any (map (\<lambda>(s, g). AtPar (pair_cond sc gc s g))
          (entries (\<lambda>s. isAllowedServer opt s \<and> unrestricted opt) (ho_selectedServerHostgroupSetMap opt))))"

definition c_exclHostgroups :: "host_option \<Rightarrow> string \<Rightarrow> string \<Rightarrow> sql_cond" where
  "c_exclHostgroups opt sc gc =
     c_many (ho_excludedServerHostgroupSetMap opt)
       (cond_all (map (\<lambda>(s, g). AtNot (pair_cond sc gc s g))
          (entries (\<lambda>s. isAllowedServer opt s \<and> unrestricted opt) (ho_excludedServerHostgroupSetMap opt))))"

definition c_selHosts :: "host_option \<Rightarrow> string \<Rightarrow> string \<Rightarrow> sql_cond" where
  "c_selHosts opt sc hc =
     c_many (ho_selectedServerHostSetMap opt)
       (cond_any (map (\<lambda>(s, h). AtPar (pair_cond sc hc s h))
          (entries (isAllowedServer opt) (ho_selectedServerHostSetMap opt))))"

definition c_exclHosts :: "host_option \<Rightarrow> string \<Rightarrow> string \<Rightarrow> sql_cond" where
  "c_exclHosts opt sc hc =
     c_many (ho_excludedServerHostSetMap opt)
       (cond_all (map (\<lambda>(s, h). AtNot (pair_cond sc hc s h))
          (entries (isAllowedServer opt) (ho_excludedServerHostSetMap opt))))"

definition c_filters :: "host_option \<Rightarrow> string \<Rightarrow> string \<Rightarrow> string
    \<Rightarrow> (sql_cond \<times> add_condition_type) list" where
  "c_filters opt sc gc hc =
     [(c_selServers opt sc, ADD_TYPE_OR), (c_exclServers opt sc, ADD_TYPE_AND),
      (c_selHostgroups opt sc gc, ADD_TYPE_OR), (c_exclHostgroups opt sc gc, ADD_TYPE_AND),
      (c_selHosts opt sc hc, ADD_TYPE_OR), (c_exclHosts opt sc hc, ADD_TYPE_AND)]"

definition c_filter :: "host_option \<Rightarrow> string \<Rightarrow> string \<Rightarrow> string \<Rightarrow> sql_cond" where
  "c_filter opt sc gc hc =
     (let fs = c_filters opt sc gc hc; c = fold (\<lambda>(f, t) c. add_cond c f t) fs []
      in if length (filter (\<lambda>f. fst f \<noteq> []) fs) > 1 then paren c else c)"

definition c_condition :: "host_option \<Rightarrow> string \<Rightarrow> string \<Rightarrow> string \<Rightarrow> sql_cond" where
  "c_condition opt sc gc hc =
     (let valid = (if ho_excludeDefunctServers opt then c_valid (getValidServerIdSet opt) sc else []);
          allowed = (if ho_has opt OPPRVLG_GET_ALL_SERVER then [] else c_allowed opt sc gc)
      in if allowed = [[AtNever]] then allowed
         else add_cond (add_cond (add_cond valid allowed ADD_TYPE_AND) (c_target opt sc gc hc) ADD_TYPE_AND)
                (c_filter opt sc gc hc) ADD_TYPE_AND)"

section \<open>The text is the rendering of the reading\<close>

lemmas text_defs = eq_text_def wrap_text_def pair_text_def enc_int_def

lemma hostgroup_list_loop_all: "ALL_HOST_GROUPS \<in> set hgs \<Longrightarrow> hostgroup_list_loop hgs n acc = None"
  by (induction hgs n acc rule: hostgroup_list_loop.induct) auto

lemma hostgroup_list_loop_join:
  "ALL_HOST_GROUPS \<notin> set hgs \<Longrightarrow>
     hostgroup_list_loop hgs (length hgs - 1) acc = Some (acc @ join_with '','' (map enc_str hgs))"
proof (induction hgs arbitrary: acc)
  case (Cons h hgs)
  then show ?case by (cases hgs) (auto simp: join_with_Cons)
qed simp

lemma makeConditionHostgroup_render:
  "makeConditionHostgroup hgs gc =
     (if ALL_HOST_GROUPS \<in> set hgs then [] else render_atom (AtIn gc (map VStr hgs)))"
  using hostgroup_list_loop_join [of hgs "[]"]
  by (simp add: makeConditionHostgroup_def hostgroup_list_loop_all comp_def)

lemma server_list_loop_join:
  "server_list_loop first ids acc =
     acc @ (if first \<or> ids = [] then [] else '','') @ join_with '','' (map enc_int ids)"
proof (induction first ids acc rule: server_list_loop.induct)
  case (2 first serverId ids condition)
  then show ?case by (cases ids) auto
qed simp

lemma makeConditionServerSet_render: "makeConditionServerSet valid sc = render (c_valid valid sc)"
  by (simp add: makeConditionServerSet_def c_valid_def render_single server_list_loop_join comp_def)

lemma makeConditionServer_render:
  "makeConditionServer (fst e) (snd e) sc gc hg = render_atom (server_atom sc gc hg e)"
proof -
  have "makeConditionHostgroup (snd e) gc \<noteq> [] \<longleftrightarrow> ALL_HOST_GROUPS \<notin> set (snd e)"
    by (simp add: makeConditionHostgroup_render)
  then show ?thesis
    by (auto simp: makeConditionServer_def server_atom_def hg_atom_def Let_def text_defs
        makeConditionHostgroup_render render_par_atom render_def)
qed

lemma render_add_any:
  "no_gap c \<Longrightarrow> addCondition (render c) (render_atom a) ADD_TYPE_OR False = render (c @ [[a]])"
  using addCondition_render [of c "[[a]]" ADD_TYPE_OR] by (simp add: render_single add_cond_def)

lemma render_add_all:
  "addCondition (render (cond_all as)) (render_atom a) ADD_TYPE_AND False = render (cond_all (as @ [a]))"
  using addCondition_render [of "cond_all as" "[[a]]" ADD_TYPE_AND]
  by (auto simp: render_single add_cond_def cond_all_def)

lemma allowed_loop_render:
  assumes "no_gap c"
  shows "allowed_loop target hg sc gc m (render c) n =
     (if ALL_SERVERS \<in> fst ` set (targeted target m) then None
      else Some (render (c @ map (\<lambda>e. [server_atom sc gc hg e]) (targeted target m)),
                 n + length (targeted target m)))"
  using assms
proof (induction m arbitrary: c n)
  case (Cons e m)
  obtain sid hgs where e: "e = (sid, hgs)" by (cases e)
  show ?case
    using Cons.IH [of "c @ [[server_atom sc gc hg e]]" "n + 1"] Cons.IH [of c n] Cons.prems
      render_add_any [OF Cons.prems, of "server_atom sc gc hg e"]
      makeConditionServer_render [of e sc gc hg]
    by (auto simp: e targeted_def)
qed (simp add: targeted_def)

lemma makeConditionAllowedHosts_render:
  assumes "option_cols opt sc gc hc"
  shows "makeConditionAllowedHosts opt = Inr (render (c_allowed opt sc gc))"
  using assms allowed_loop_render [of "[]"]
  by (auto simp: makeConditionAllowedHosts_def option_cols_def c_allowed_def Let_def render_single
      wrap_text_def render_paren)

lemma makeConditionTargetIds_render:
  assumes "option_cols opt sc gc hc"
  shows "makeConditionTargetIds opt = Inr (render (c_target opt sc gc hc))"
  using assms
  by (auto simp: makeConditionTargetIds_def option_cols_def c_target_def target_atoms_def
      addCondition_def text_defs render_def paren_def render_par_atom)


subsection \<open>Filters\<close>

text \<open>A loop that pastes atoms to a condition, one list of them for every element.\<close>

lemma foldR_build:
  assumes "\<And>x as. x \<in> set xs \<Longrightarrow> step x (B as) = Inr (B (as @ g x))"
  shows "foldR step xs (B as) = Inr (B (as @ concat (map g xs)))"
  using assms by (induction xs arbitrary: as) auto

lemmas foldR_disj = foldR_build [where B = "\<lambda>as. render (cond_any as)"]
lemmas foldR_conj = foldR_build [where B = "\<lambda>as. render (cond_all as)"]

lemma render_any_Nil [simp]: "render (cond_any []) = []" "render (cond_all []) = []"
  by (simp_all add: cond_any_def cond_all_def)

lemma no_gap_any [simp]: "no_gap (cond_any as)" "no_gap (cond_all as)"
  by (auto simp: cond_any_def cond_all_def no_gap_def)

lemma add_any: "addCondition (render (cond_any as)) (render_atom a) ADD_TYPE_OR False = render (cond_any (as @ [a]))"
  using render_add_any [OF no_gap_any(1) [of as], of a] by (simp add: cond_any_def)

lemma concat_if: "concat (map (\<lambda>x. if P x then [f x] else []) xs) = map f (filter P xs)"
  by (induction xs) auto

lemma concat_entries:
  "concat (map (\<lambda>(sid, is). if ok sid then map (\<lambda>i. f (sid, i)) is else []) m) = map f (entries ok m)"
  by (induction m) (auto simp: entries_def comp_def)

lemma concat_map_Nil [simp]: "concat (map (\<lambda>i. []) is) = []"
  by (induction "is") auto

lemma concat_singles: "concat (map (\<lambda>i. [f i]) is) = map f is"
  by (induction "is") auto

lemma wrap_many_render: "wrap_if_many xs (render c) = render (c_many xs c)"
  by (simp add: wrap_if_many_def c_many_def wrap_text_def render_paren)

lemma pair_text_render: "pair_text sc sid col (enc_str i) = render_atom (AtPar (pair_cond sc col sid i))"
  by (simp add: pair_text_def pair_cond_def render_par_atom render_def)

lemma not_pair_text_render:
  "CHR ''N'' # CHR ''O'' # CHR ''T'' # CHR '' '' # pair_text sc sid col (enc_str i) =
     render_atom (AtNot (pair_cond sc col sid i))"
  by (simp add: pair_text_def pair_cond_def render_not_atom render_def)

lemma isAllowedHostgroup_allowed:
  assumes "isAllowedServer opt sid"
  shows "isAllowedHostgroup opt sid g = Inr (unrestricted opt)"
  using assms
  by (auto simp: isAllowedHostgroup_def isAllowedServer_def unrestricted_def Let_def split: if_splits)

lemma makeConditionSelectedServers_render:
  assumes "option_cols opt sc gc hc"
  shows "makeConditionSelectedServers opt = Inr (render (c_selServers opt sc))"
proof -
  have "foldR (\<lambda>serverId condition.
      if \<not> isAllowedServer opt serverId then Inr condition
      else bindR (getServerIdColumnName opt) (\<lambda>col.
        Inr (addCondition condition (eq_text col (enc_int serverId)) ADD_TYPE_OR False)))
      xs (render (cond_any [])) =
    Inr (render (cond_any ([] @ concat (map (\<lambda>s. if isAllowedServer opt s then [AtEq sc (VInt s)] else []) xs))))"
    for xs
    by (rule foldR_disj)
       (use assms in \<open>auto simp: option_cols_def eq_text_def add_any [symmetric]\<close>)
  then show ?thesis
    by (auto simp: makeConditionSelectedServers_def c_selServers_def concat_if wrap_many_render)
       (simp add: c_many_def cond_any_def)
qed

lemma makeConditionExcludedServers_render:
  assumes "option_cols opt sc gc hc"
  shows "makeConditionExcludedServers opt = Inr (render (c_exclServers opt sc))"
proof -
  have "foldR (\<lambda>serverId condition.
      if \<not> isAllowedServer opt serverId then Inr condition
      else bindR (getServerIdColumnName opt) (\<lambda>col.
        Inr (addCondition condition (col @ ''<>'' @ enc_int serverId) ADD_TYPE_AND False)))
      xs (render (cond_all [])) =
    Inr (render (cond_all ([] @ concat (map (\<lambda>s. if isAllowedServer opt s then [AtNe sc (VInt s)] else []) xs))))"
    for xs
    by (rule foldR_conj)
       (use assms in \<open>auto simp: option_cols_def render_add_all [symmetric]\<close>)
  then show ?thesis
    by (auto simp: makeConditionExcludedServers_def c_exclServers_def concat_if wrap_many_render)
       (simp add: c_many_def cond_all_def)
qed

text \<open>The four filters over (server, identifier) pairs share two nested loops.\<close>

lemma pair_loop_disj:
  assumes step: "\<And>sid i c. isAllowedServer opt sid \<Longrightarrow>
      inner sid i c = Inr (if ok then addCondition c (pair_text sc sid col (enc_str i)) ADD_TYPE_OR False else c)"
  shows "foldR (\<lambda>(sid, is) c. if \<not> isAllowedServer opt sid then Inr c else foldR (inner sid) is c)
      m (render (cond_any [])) =
    Inr (render (cond_any (map (\<lambda>(s, i). AtPar (pair_cond sc col s i))
      (entries (\<lambda>s. isAllowedServer opt s \<and> ok) m))))"
proof -
  let ?f = "\<lambda>(s, i). AtPar (pair_cond sc col s i)"
  have inner: "foldR (inner sid) is (render (cond_any as)) =
      Inr (render (cond_any (as @ concat (map (\<lambda>i. if ok then [?f (sid, i)] else []) is))))"
    if "isAllowedServer opt sid" for sid "is" as
    by (rule foldR_disj) (auto simp: step [OF that] pair_text_render add_any)
  have "foldR (\<lambda>(sid, is) c. if \<not> isAllowedServer opt sid then Inr c else foldR (inner sid) is c)
      m (render (cond_any [])) =
    Inr (render (cond_any ([] @ concat (map (\<lambda>(sid, is).
      if isAllowedServer opt sid \<and> ok then map (\<lambda>i. ?f (sid, i)) is else []) m))))"
    by (rule foldR_disj) (auto simp: inner concat_singles)
  then show ?thesis
    using concat_entries [of "\<lambda>s. isAllowedServer opt s \<and> ok" ?f m] by simp
qed

lemma pair_loop_conj:
  assumes step: "\<And>sid i c. isAllowedServer opt sid \<Longrightarrow>
      inner sid i c = Inr (if ok then addCondition c (''NOT '' @ pair_text sc sid col (enc_str i)) ADD_TYPE_AND False else c)"
  shows "foldR (\<lambda>(sid, is) c. if \<not> isAllowedServer opt sid then Inr c else foldR (inner sid) is c)
      m (render (cond_all [])) =
    Inr (render (cond_all (map (\<lambda>(s, i). AtNot (pair_cond sc col s i))
      (entries (\<lambda>s. isAllowedServer opt s \<and> ok) m))))"
proof -
  let ?f = "\<lambda>(s, i). AtNot (pair_cond sc col s i)"
  have inner: "foldR (inner sid) is (render (cond_all as)) =
      Inr (render (cond_all (as @ concat (map (\<lambda>i. if ok then [?f (sid, i)] else []) is))))"
    if "isAllowedServer opt sid" for sid "is" as
    by (rule foldR_conj) (auto simp: step [OF that] not_pair_text_render render_add_all)
  have "foldR (\<lambda>(sid, is) c. if \<not> isAllowedServer opt sid then Inr c else foldR (inner sid) is c)
      m (render (cond_all [])) =
    Inr (render (cond_all ([] @ concat (map (\<lambda>(sid, is).
      if isAllowedServer opt sid \<and> ok then map (\<lambda>i. ?f (sid, i)) is else []) m))))"
    by (rule foldR_conj) (auto simp: inner concat_singles)
  then show ?thesis
    using concat_entries [of "\<lambda>s. isAllowedServer opt s \<and> ok" ?f m] by simp
qed

lemma c_many_Nil [simp]: "c_many [] c = c"
  by (simp add: c_many_def)

lemma entries_Nil [simp]: "entries ok [] = []"
  by (simp add: entries_def)

lemma cond_any_all_Nil [simp]: "cond_any [] = []" "cond_all [] = []"
  by (simp_all add: cond_any_def cond_all_def)

lemma makeConditionSelectedHostgroups_render:
  assumes "option_cols opt sc gc hc"
  shows "makeConditionSelectedHostgroups opt = Inr (render (c_selHostgroups opt sc gc))"
  using assms
  by (auto simp: makeConditionSelectedHostgroups_def c_selHostgroups_def option_cols_def wrap_many_render
      pair_loop_disj [where ok = "unrestricted opt" and col = gc and sc = sc, simplified]
      isAllowedHostgroup_allowed)


lemma makeConditionExcludedHostgroups_render:
  assumes "option_cols opt sc gc hc"
  shows "makeConditionExcludedHostgroups opt = Inr (render (c_exclHostgroups opt sc gc))"
  using assms
  by (auto simp: makeConditionExcludedHostgroups_def c_exclHostgroups_def option_cols_def wrap_many_render
      pair_loop_conj [where ok = "unrestricted opt" and col = gc and sc = sc, simplified]
      isAllowedHostgroup_allowed)

lemma makeConditionSelectedHosts_render:
  assumes "option_cols opt sc gc hc"
  shows "makeConditionSelectedHosts opt = Inr (render (c_selHosts opt sc hc))"
  using assms
  by (auto simp: makeConditionSelectedHosts_def c_selHosts_def option_cols_def wrap_many_render
      pair_loop_disj [where ok = True and col = hc and sc = sc, simplified])

lemma makeConditionExcludedHosts_render:
  assumes "option_cols opt sc gc hc"
  shows "makeConditionExcludedHosts opt = Inr (render (c_exclHosts opt sc hc))"
  using assms
  by (auto simp: makeConditionExcludedHosts_def c_exclHosts_def option_cols_def wrap_many_render
      pair_loop_conj [where ok = True and col = hc and sc = sc, simplified])

lemmas filter_renders = makeConditionSelectedServers_render makeConditionExcludedServers_render
  makeConditionSelectedHostgroups_render makeConditionExcludedHostgroups_render
  makeConditionSelectedHosts_render makeConditionExcludedHosts_render

lemma no_gap_c_many [simp]: "no_gap c \<Longrightarrow> no_gap (c_many xs c)"
  by (simp add: c_many_def)

lemma no_gap_filters [simp]:
  "no_gap (c_selServers opt sc)" "no_gap (c_exclServers opt sc)"
  "no_gap (c_selHostgroups opt sc gc)" "no_gap (c_exclHostgroups opt sc gc)"
  "no_gap (c_selHosts opt sc hc)" "no_gap (c_exclHosts opt sc hc)"
  by (simp_all add: c_selServers_def c_exclServers_def c_selHostgroups_def c_exclHostgroups_def
      c_selHosts_def c_exclHosts_def)

lemma filter_step_render:
  "no_gap c \<Longrightarrow> no_gap f \<Longrightarrow>
     filter_step (Inr (render f)) t (render c, n) =
       Inr (render (add_cond c f t), if f \<noteq> [] then n + 1 else n)"
  by (simp add: filter_step_def addCondition_render render_eq_Nil)

lemma makeConditionHostsFilter_render:
  assumes "option_cols opt sc gc hc"
  shows "makeConditionHostsFilter opt = Inr (render (c_filter opt sc gc hc))"
proof -
  have start: "([], 0) = (render [], 0)" by simp
  show ?thesis
    unfolding makeConditionHostsFilter_def filter_renders [OF assms] start
    by (simp add: filter_step_render c_filter_def c_filters_def Let_def wrap_text_def render_paren
        del: render_Nil)
qed

lemma no_gap_c_filter [simp]: "no_gap (c_filter opt sc gc hc)"
  by (simp add: c_filter_def c_filters_def Let_def)

lemma no_gap_c_target [simp]: "no_gap (c_target opt sc gc hc)"
  by (simp add: c_target_def split: list.splits)

lemma no_gap_c_allowed [simp]: "no_gap (c_allowed opt sc gc)"
  by (auto simp: c_allowed_def Let_def no_gap_def paren_def)

lemma no_gap_c_valid [simp]: "no_gap (c_valid v sc)"
  by (simp add: c_valid_def)

subsection \<open>The whole condition\<close>

lemma render_server_atom_long: "length (render_atom (server_atom sc gc hg e)) \<ge> 2"
  by (auto simp: server_atom_def render_par_atom enc_int_def Suc_le_eq split: option.splits)

lemma c_allowed_never:
  "isAlwaysFalseCondition (render (c_allowed opt sc gc)) \<longleftrightarrow> c_allowed opt sc gc = [[AtNever]]"
proof
  assume *: "isAlwaysFalseCondition (render (c_allowed opt sc gc))"
  then have len: "length (render (c_allowed opt sc gc)) = 1"
    by (auto simp: isAlwaysFalseCondition_def alwaysFalseCondition_def dest: arg_cong [where f = length])
  have two: "length (render [[server_atom sc gc hg e]]) \<noteq> 1" for hg e
    using render_server_atom_long [of sc gc hg e] by (simp add: render_single)
  show "c_allowed opt sc gc = [[AtNever]]"
    using len two
    by (auto simp: c_allowed_def Let_def render_paren length_Suc_conv split: if_splits)
qed (simp add: isAlwaysFalseCondition_def render_single)

lemma getCondition_render:
  assumes "option_cols opt sc gc hc"
  shows "getCondition opt = Inr (render (c_condition opt sc gc hc))"
proof -
  let ?v = "if ho_excludeDefunctServers opt then c_valid (getValidServerIdSet opt) sc else []"
  have v: "(if ho_excludeDefunctServers opt then bindR (getServerIdColumnName opt) (\<lambda>col.
        Inr (addCondition [] (makeConditionServerSet (getValidServerIdSet opt) col) ADD_TYPE_AND False))
      else Inr []) = Inr (render ?v)"
    using assms by (simp add: option_cols_def makeConditionServerSet_render addCondition_def)
  have ng: "no_gap ?v" by simp
  show ?thesis
    unfolding getCondition_def v
    using assms ng
    by (simp add: Let_def makeConditionAllowedHosts_render makeConditionTargetIds_render
        makeConditionHostsFilter_render c_allowed_never addCondition_render c_condition_def)
qed


section \<open>What the condition selects\<close>

text \<open>
  The access list of a user: a row may be read when some entry of the list covers its server
  and its hostgroup.
\<close>

definition may_read :: "server_grp_map \<Rightarrow> string \<Rightarrow> string \<Rightarrow> sql_row \<Rightarrow> bool" where
  "may_read m sc gc row \<longleftrightarrow>
     (\<exists>e \<in> set m. fst e = ALL_SERVERS
        \<or> row sc = VInt (fst e)
          \<and> (ALL_HOST_GROUPS \<in> set (snd e) \<or> (\<exists>g \<in> set (snd e). row gc = VStr (cstr g))))"

text \<open>
  What the condition of a query asks of the access list: all of it, or only the server when the query
  names a hostgroup, which then takes the place of the hostgroups of the list.
\<close>

definition covered :: "host_option \<Rightarrow> string \<Rightarrow> string \<Rightarrow> sql_row \<Rightarrow> bool" where
  "covered opt sc gc row \<longleftrightarrow>
     (if ho_targetHostgroupId opt = ALL_HOST_GROUPS then may_read (getAllowedServersAndHostgroups opt) sc gc row
      else \<exists>e \<in> set (getAllowedServersAndHostgroups opt). fst e = ALL_SERVERS \<or> row sc = VInt (fst e))"

definition targets_match :: "host_option \<Rightarrow> string \<Rightarrow> string \<Rightarrow> string \<Rightarrow> sql_row \<Rightarrow> bool" where
  "targets_match opt sc gc hc row \<longleftrightarrow>
     (ho_targetServerId opt = ALL_SERVERS \<or> row sc = VInt (ho_targetServerId opt))
     \<and> (ho_targetHostId opt = ALL_LOCAL_HOSTS \<or> row hc = VStr (cstr (ho_targetHostId opt)))
     \<and> (ho_targetHostgroupId opt = ALL_HOST_GROUPS \<or> row gc = VStr (cstr (ho_targetHostgroupId opt)))"

definition registered :: "host_option \<Rightarrow> string \<Rightarrow> sql_row \<Rightarrow> bool" where
  "registered opt sc row \<longleftrightarrow>
     ho_excludeDefunctServers opt \<longrightarrow> (\<exists>s \<in> set (getValidServerIdSet opt). row sc = VInt s)"

definition no_filters :: "host_option \<Rightarrow> bool" where
  "no_filters opt \<longleftrightarrow>
     ho_selectedServerIdSet opt = [] \<and> ho_excludedServerIdSet opt = []
     \<and> ho_selectedServerHostgroupSetMap opt = [] \<and> ho_excludedServerHostgroupSetMap opt = []
     \<and> ho_selectedServerHostSetMap opt = [] \<and> ho_excludedServerHostSetMap opt = []"

lemma c_filter_none: "no_filters opt \<Longrightarrow> c_filter opt sc gc hc = []"
  by (simp add: no_filters_def c_filter_def c_filters_def Let_def c_selServers_def c_exclServers_def
      c_selHostgroups_def c_exclHostgroups_def c_selHosts_def c_exclHosts_def)

lemma tight_pieces [simp]:
  "tight (c_valid v sc)" "tight (c_allowed opt sc gc)" "tight (c_target opt sc gc hc)"
  by (auto simp: c_valid_def c_allowed_def c_target_def Let_def tight_def paren_def split: list.splits)

lemma selects_c_valid: "selects (c_valid v sc) row \<longleftrightarrow> (\<exists>s \<in> set v. row sc = VInt s)"
  by (auto simp: c_valid_def selects_def image_image image_iff)

lemma selects_c_target: "selects (c_target opt sc gc hc) row \<longleftrightarrow> targets_match opt sc gc hc row"
  by (auto simp: c_target_def target_atoms_def targets_match_def split: list.splits)

lemma holds_server_atom:
  "holds_atom row (server_atom sc gc hg e) \<longleftrightarrow>
     row sc = VInt (fst e)
     \<and> (if hg = ALL_HOST_GROUPS
        then ALL_HOST_GROUPS \<in> set (snd e) \<or> (\<exists>g \<in> set (snd e). row gc = VStr (cstr g))
        else row gc = VStr (cstr hg))"
  by (auto simp: server_atom_def hg_atom_def image_image image_iff)

text \<open>The tables of an access list as \<open>getServerHostGrpSetMap\<close> builds them.\<close>

definition access_ok :: "host_option \<Rightarrow> bool" where
  "access_ok opt \<longleftrightarrow>
     (\<forall>e \<in> set (getAllowedServersAndHostgroups opt). snd e \<noteq> [])
     \<and> (ALL_SERVERS \<in> fst ` set (getAllowedServersAndHostgroups opt) \<longrightarrow> ho_targetServerId opt = ALL_SERVERS)"

lemma map_of_key: "map_of m k \<noteq> None \<longleftrightarrow> k \<in> fst ` set m"
  by (simp add: map_of_eq_None_iff)

lemma isAllowedServer_key:
  "\<not> ho_has opt OPPRVLG_GET_ALL_SERVER \<Longrightarrow>
     isAllowedServer opt s \<longleftrightarrow>
       ALL_SERVERS \<in> fst ` set (getAllowedServersAndHostgroups opt)
       \<or> s \<in> fst ` set (getAllowedServersAndHostgroups opt)"
  by (simp only: isAllowedServer_def Let_def map_of_key if_False)

lemma selects_c_covered:
  assumes "\<not> ho_has opt OPPRVLG_GET_ALL_SERVER" "access_ok opt"
    and "ho_targetServerId opt = ALL_SERVERS \<or> row sc = VInt (ho_targetServerId opt)"
    and "ho_targetHostgroupId opt = ALL_HOST_GROUPS \<or> row gc = VStr (cstr (ho_targetHostgroupId opt))"
  shows "selects (c_allowed opt sc gc) row \<longleftrightarrow> covered opt sc gc row"
proof -
  let ?m = "getAllowedServersAndHostgroups opt" and ?t = "ho_targetServerId opt" and ?g = "ho_targetHostgroupId opt"
  let ?ds = "map (\<lambda>e. [server_atom sc gc ?g e]) (targeted ?t ?m)"
  have all: "ALL_SERVERS \<in> fst ` set ?m \<Longrightarrow> ?t = ALL_SERVERS"
    using assms(2) by (simp add: access_ok_def)
  have ds: "holds row ?ds \<longleftrightarrow> covered opt sc gc row" if "ALL_SERVERS \<notin> fst ` set ?m"
  proof -
    have "holds row ?ds \<longleftrightarrow>
        (\<exists>e \<in> set ?m. (?t = ALL_SERVERS \<or> ?t = fst e) \<and> holds_atom row (server_atom sc gc ?g e))"
      by (force simp: holds_def targeted_def)
    also have "\<dots> \<longleftrightarrow> covered opt sc gc row"
    proof (cases "?g = ALL_HOST_GROUPS")
      case True
      then show ?thesis
        unfolding covered_def may_read_def if_P [OF True]
        by (intro bex_cong [OF refl]) (use assms(3) that in \<open>auto simp: holds_server_atom image_iff\<close>)
    next
      case False
      then show ?thesis
        unfolding covered_def if_not_P [OF False]
        by (intro bex_cong [OF refl]) (use assms(3,4) that in \<open>auto simp: holds_server_atom image_iff\<close>)
    qed
    finally show ?thesis .
  qed
  have none: "targeted ?t ?m = []" if "ALL_SERVERS \<notin> fst ` set ?m" "?t \<noteq> ALL_SERVERS" "\<not> isAllowedServer opt ?t"
    using that by (force simp: targeted_def isAllowedServer_key [OF assms(1)] filter_empty_conv)
  show ?thesis
  proof (cases "ALL_SERVERS \<in> fst ` set ?m")
    case True
    then have "ALL_SERVERS \<in> fst ` set (targeted ?t ?m)" "?m \<noteq> []" "covered opt sc gc row"
      using all by (force simp: targeted_def covered_def may_read_def)+
    then show ?thesis using all [OF True] by (simp add: c_allowed_def Let_def selects_def)
  next
    case False
    then have f: "ALL_SERVERS \<notin> fst ` set (targeted ?t ?m)" by (auto simp: targeted_def)
    show ?thesis
    proof (cases "?m = [] \<or> ?t \<noteq> ALL_SERVERS \<and> \<not> isAllowedServer opt ?t")
      case True
      then have "targeted ?t ?m = []" using none False by (auto simp: targeted_def)
      then have "\<not> covered opt sc gc row" using ds [OF False] by simp
      with True show ?thesis by (simp add: c_allowed_def Let_def selects_def)
    next
      case nb: False
      then have "selects (c_allowed opt sc gc) row \<longleftrightarrow> holds row ?ds"
        using f by (auto simp: c_allowed_def Let_def selects_def paren_def)
      with ds [OF False] show ?thesis by simp
    qed
  qed
qed

lemma selects_c_allowed:
  assumes "\<not> ho_has opt OPPRVLG_GET_ALL_SERVER" "access_ok opt"
    and "ho_targetHostgroupId opt = ALL_HOST_GROUPS"
    and "ho_targetServerId opt = ALL_SERVERS \<or> row sc = VInt (ho_targetServerId opt)"
  shows "selects (c_allowed opt sc gc) row \<longleftrightarrow>
    may_read (getAllowedServersAndHostgroups opt) sc gc row"
  using selects_c_covered [OF assms(1,2), of row sc gc] assms(3,4) by (simp add: covered_def)

lemma selects_c_condition:
  assumes "tight (c_filter opt sc gc hc)"
  shows "selects (c_condition opt sc gc hc) row \<longleftrightarrow>
     registered opt sc row
     \<and> (ho_has opt OPPRVLG_GET_ALL_SERVER \<or> selects (c_allowed opt sc gc) row)
     \<and> targets_match opt sc gc hc row \<and> selects (c_filter opt sc gc hc) row"
  using assms
  by (auto simp: c_condition_def Let_def selects_add_and tight_add_and selects_c_valid
      selects_c_target registered_def selects_def [of "[[AtNever]]"])


lemma wf_c_allowed:
  assumes "\<not> ho_has opt OPPRVLG_GET_ALL_SERVER" "access_ok opt"
  shows "wf_cond (c_allowed opt sc gc)"
proof -
  let ?m = "getAllowedServersAndHostgroups opt" and ?t = "ho_targetServerId opt"
  have atom: "wf_atom (server_atom sc gc hg e)" if "e \<in> set (targeted ?t ?m)" for hg e
    using that assms(2) by (auto simp: server_atom_def hg_atom_def targeted_def access_ok_def)
  have "targeted ?t ?m \<noteq> []" if "?m \<noteq> []" "?t = ALL_SERVERS \<or> isAllowedServer opt ?t"
  proof (cases "?t = ALL_SERVERS")
    case True
    with that show ?thesis by (simp add: targeted_def)
  next
    case False
    with that assms have "?t \<in> fst ` set ?m"
      by (auto simp: isAllowedServer_key [OF assms(1)] access_ok_def simp del: image_iff)
    then show ?thesis by (force simp: targeted_def filter_empty_conv)
  qed
  then show ?thesis
    using atom by (auto simp: c_allowed_def Let_def paren_def wf_cond_def)
qed

lemma wf_c_target: "wf_cond (c_target opt sc gc hc)"
  by (auto simp: c_target_def target_atoms_def paren_def split: list.splits if_splits)

lemma wf_c_valid: "wf_cond (c_valid v sc)"
  by (simp add: c_valid_def)

lemma wf_c_condition:
  assumes "ho_has opt OPPRVLG_GET_ALL_SERVER \<or> access_ok opt" "wf_cond (c_filter opt sc gc hc)"
  shows "wf_cond (c_condition opt sc gc hc)"
  using assms by (auto simp: c_condition_def Let_def wf_c_allowed wf_c_target wf_c_valid intro!: wf_add_cond)

text \<open>
  When does the filter condition stay in one piece? Always, unless the only filter is a single
  server with several hosts or hostgroups selected.
\<close>

definition filters_in_one_piece :: "host_option \<Rightarrow> bool" where
  "filters_in_one_piece opt \<longleftrightarrow>
     (\<forall>e. ho_selectedServerHostSetMap opt = [e] \<longrightarrow> length (snd e) \<le> 1)
     \<and> (\<forall>e. ho_selectedServerHostgroupSetMap opt = [e] \<longrightarrow> length (snd e) \<le> 1)"

lemma tight_many: "(\<And>e. xs = [e] \<Longrightarrow> tight c) \<Longrightarrow> (xs = [] \<Longrightarrow> tight c) \<Longrightarrow> tight (c_many xs c)"
proof (cases xs)
  case (Cons x ys)
  then show "(\<And>e. xs = [e] \<Longrightarrow> tight c) \<Longrightarrow> tight (c_many xs c)"
    by (cases ys) (auto simp: c_many_def)
qed (simp add: c_many_def)

lemma tight_cond_all [simp]: "tight (cond_all as)"
  by (simp add: cond_all_def)

lemma tight_cond_any: "length as \<le> 1 \<Longrightarrow> tight (cond_any as)"
  by (simp add: cond_any_def tight_def)

lemma tight_filters:
  assumes "filters_in_one_piece opt"
  shows "tight (c_selServers opt sc)" "tight (c_exclServers opt sc)"
    "tight (c_selHostgroups opt sc gc)" "tight (c_exclHostgroups opt sc gc)"
    "tight (c_selHosts opt sc hc)" "tight (c_exclHosts opt sc hc)"
  unfolding c_selServers_def c_exclServers_def c_selHostgroups_def c_exclHostgroups_def
    c_selHosts_def c_exclHosts_def
  by (rule tight_many; use assms in \<open>auto simp: filters_in_one_piece_def entries_def intro!: tight_cond_any\<close>)+

lemma fold_add_cond_single:
  assumes "length (filter (\<lambda>f. fst f \<noteq> []) fs) \<le> 1" "\<forall>f \<in> set fs. tight (fst f)" "tight c"
    and "c \<noteq> [] \<Longrightarrow> filter (\<lambda>f. fst f \<noteq> []) fs = []"
  shows "tight (fold (\<lambda>(f, t) c. add_cond c f t) fs c)"
  using assms
proof (induction fs arbitrary: c)
  case (Cons f fs)
  obtain g t where f: "f = (g, t)" by (cases f)
  show ?case
  proof (cases "g = []")
    case True
    with Cons.prems show ?thesis by (simp add: f Cons.IH)
  next
    case False
    with Cons.prems have "c = []" "filter (\<lambda>f. fst f \<noteq> []) fs = []" "tight g" by (auto simp: f)
    with Cons.prems show ?thesis by (simp add: f Cons.IH)
  qed
qed simp

lemma tight_c_filter: "filters_in_one_piece opt \<Longrightarrow> tight (c_filter opt sc gc hc)"
  using fold_add_cond_single [of "c_filters opt sc gc hc" "[]"] tight_filters
  by (auto simp: c_filter_def Let_def c_filters_def)

subsection \<open>The condition can be read\<close>

text \<open>Nothing remains of a filter with several entries only when none of them may be seen.\<close>

definition filters_visible :: "host_option \<Rightarrow> bool" where
  "filters_visible opt \<longleftrightarrow>
     (length (ho_selectedServerIdSet opt) > 1 \<longrightarrow> filter (isAllowedServer opt) (ho_selectedServerIdSet opt) \<noteq> [])
     \<and> (length (ho_excludedServerIdSet opt) > 1 \<longrightarrow> filter (isAllowedServer opt) (ho_excludedServerIdSet opt) \<noteq> [])
     \<and> (length (ho_selectedServerHostgroupSetMap opt) > 1 \<longrightarrow>
          entries (\<lambda>s. isAllowedServer opt s \<and> unrestricted opt) (ho_selectedServerHostgroupSetMap opt) \<noteq> [])
     \<and> (length (ho_excludedServerHostgroupSetMap opt) > 1 \<longrightarrow>
          entries (\<lambda>s. isAllowedServer opt s \<and> unrestricted opt) (ho_excludedServerHostgroupSetMap opt) \<noteq> [])
     \<and> (length (ho_selectedServerHostSetMap opt) > 1 \<longrightarrow>
          entries (isAllowedServer opt) (ho_selectedServerHostSetMap opt) \<noteq> [])
     \<and> (length (ho_excludedServerHostSetMap opt) > 1 \<longrightarrow>
          entries (isAllowedServer opt) (ho_excludedServerHostSetMap opt) \<noteq> [])"

lemma cond_ok_simps [simp]:
  "cond_ok []" "cond_ok (d # c) \<longleftrightarrow> d \<noteq> [] \<and> (\<forall>a \<in> set d. wf_atom a \<and> cols_ok a) \<and> cond_ok c"
  "cond_ok (c @ c') \<longleftrightarrow> cond_ok c \<and> cond_ok c'"
  by (auto simp: cond_ok_def)

lemma cond_ok_cond_and: "cond_ok c \<Longrightarrow> cond_ok a \<Longrightarrow> cond_ok (cond_and c a)"
  by (induction c a rule: cond_and.induct) (auto split: list.splits)

lemma cond_ok_add [intro]: "cond_ok c \<Longrightarrow> cond_ok a \<Longrightarrow> cond_ok (add_cond c a t)"
  by (simp add: add_cond_def cond_ok_cond_and split: add_condition_type.splits)

lemma cond_ok_par: "cond_ok c \<Longrightarrow> c \<noteq> [] \<Longrightarrow> wf_atom (AtPar c) \<and> cols_ok (AtPar c)"
  by (auto simp: cond_ok_def wf_cond_def list_all_iff)

lemma cond_ok_paren: "cond_ok c \<Longrightarrow> c \<noteq> [] \<Longrightarrow> cond_ok (paren c)"
  using cond_ok_par by (simp add: paren_def del: wf_atom.simps cols_ok.simps)

lemma cond_ok_any: "(\<And>a. a \<in> set as \<Longrightarrow> wf_atom a \<and> cols_ok a) \<Longrightarrow> cond_ok (cond_any as)"
  by (auto simp: cond_any_def cond_ok_def)

lemma cond_ok_all: "(\<And>a. a \<in> set as \<Longrightarrow> wf_atom a \<and> cols_ok a) \<Longrightarrow> cond_ok (cond_all as)"
  by (auto simp: cond_all_def cond_ok_def)

lemma cond_ok_many: "cond_ok c \<Longrightarrow> (length xs > 1 \<Longrightarrow> c \<noteq> []) \<Longrightarrow> cond_ok (c_many xs c)"
  by (auto simp: c_many_def cond_ok_paren)

lemma pair_atoms_ok:
  assumes "ident sc" "ident col"
  shows "wf_atom (AtPar (pair_cond sc col s i)) \<and> cols_ok (AtPar (pair_cond sc col s i))"
    "wf_atom (AtNot (pair_cond sc col s i)) \<and> cols_ok (AtNot (pair_cond sc col s i))"
  using assms by (simp_all add: pair_cond_def wf_cond_def)

lemma cond_ok_many_any:
  "list_all (\<lambda>a. wf_atom a \<and> cols_ok a) as \<Longrightarrow> (length xs > 1 \<longrightarrow> as \<noteq> []) \<Longrightarrow> cond_ok (c_many xs (cond_any as))"
  by (intro cond_ok_many cond_ok_any) (auto simp: list_all_iff cond_any_def)

lemma cond_ok_many_all:
  "list_all (\<lambda>a. wf_atom a \<and> cols_ok a) as \<Longrightarrow> (length xs > 1 \<longrightarrow> as \<noteq> []) \<Longrightarrow> cond_ok (c_many xs (cond_all as))"
  by (intro cond_ok_many cond_ok_all) (auto simp: list_all_iff cond_all_def)

lemma list_all_pairs:
  "(\<And>s i. P (f (s, i))) \<Longrightarrow> list_all P (map f xs)"
  by (simp add: list_all_iff split_paired_all)

lemma cond_ok_filters:
  assumes "ident sc" "ident gc" "ident hc" "filters_visible opt"
  shows "cond_ok (c_selServers opt sc)" "cond_ok (c_exclServers opt sc)"
    "cond_ok (c_selHostgroups opt sc gc)" "cond_ok (c_exclHostgroups opt sc gc)"
    "cond_ok (c_selHosts opt sc hc)" "cond_ok (c_exclHosts opt sc hc)"
proof -
  note v = assms(4) [unfolded filters_visible_def]
  show "cond_ok (c_selServers opt sc)"
    unfolding c_selServers_def using v assms(1) by (intro cond_ok_many_any) (simp_all add: list_all_iff)
  show "cond_ok (c_exclServers opt sc)"
    unfolding c_exclServers_def using v assms(1) by (intro cond_ok_many_all) (simp_all add: list_all_iff)
  show "cond_ok (c_selHostgroups opt sc gc)"
    unfolding c_selHostgroups_def using v pair_atoms_ok [OF assms(1,2)]
    by (intro cond_ok_many_any list_all_pairs) simp_all
  show "cond_ok (c_exclHostgroups opt sc gc)"
    unfolding c_exclHostgroups_def using v pair_atoms_ok [OF assms(1,2)]
    by (intro cond_ok_many_all list_all_pairs) simp_all
  show "cond_ok (c_selHosts opt sc hc)"
    unfolding c_selHosts_def using v pair_atoms_ok [OF assms(1,3)]
    by (intro cond_ok_many_any list_all_pairs) simp_all
  show "cond_ok (c_exclHosts opt sc hc)"
    unfolding c_exclHosts_def using v pair_atoms_ok [OF assms(1,3)]
    by (intro cond_ok_many_all list_all_pairs) simp_all
qed

lemma fold_cond_ok:
  "cond_ok c \<Longrightarrow> \<forall>f \<in> set fs. cond_ok (fst f) \<Longrightarrow> cond_ok (fold (\<lambda>(f, t) c. add_cond c f t) fs c)"
  by (induction fs arbitrary: c) (auto simp: cond_ok_add)

lemma fold_add_nonempty:
  "c \<noteq> [] \<or> (\<exists>f \<in> set fs. fst f \<noteq> []) \<Longrightarrow> fold (\<lambda>(f, t) c. add_cond c f t) fs c \<noteq> []"
proof (induction fs arbitrary: c)
  case (Cons f fs)
  obtain g t where f: "f = (g, t)" by (cases f)
  have "add_cond c g t \<noteq> [] \<longleftrightarrow> c \<noteq> [] \<or> g \<noteq> []"
    by (cases c; cases "tl c") (auto simp: add_cond_def neq_Nil_conv split: add_condition_type.splits list.splits)
  with Cons.prems Cons.IH [of "add_cond c g t"] show ?case by (auto simp: f)
qed simp

lemma cond_ok_c_filter:
  assumes "ident sc" "ident gc" "ident hc" "filters_visible opt"
  shows "cond_ok (c_filter opt sc gc hc)"
proof -
  let ?fs = "c_filters opt sc gc hc"
  have ok: "cond_ok (fold (\<lambda>(f, t) c. add_cond c f t) ?fs [])"
    by (rule fold_cond_ok) (use cond_ok_filters [OF assms] in \<open>auto simp: c_filters_def\<close>)
  have "fold (\<lambda>(f, t) c. add_cond c f t) ?fs [] \<noteq> []" if "length (filter (\<lambda>f. fst f \<noteq> []) ?fs) > 1"
  proof (rule fold_add_nonempty)
    from that have "filter (\<lambda>f. fst f \<noteq> []) ?fs \<noteq> []" by auto
    then show "[] \<noteq> [] \<or> (\<exists>f \<in> set ?fs. fst f \<noteq> [])" by (auto simp: filter_empty_conv)
  qed
  with ok show ?thesis by (auto simp: c_filter_def Let_def intro!: cond_ok_paren)
qed

lemma cond_ok_c_allowed:
  assumes "\<not> ho_has opt OPPRVLG_GET_ALL_SERVER" "access_ok opt" "ident sc" "ident gc"
  shows "cond_ok (c_allowed opt sc gc)"
proof -
  have atom: "cols_ok (server_atom sc gc hg e)" for hg e
    using assms(3,4) by (auto simp: server_atom_def hg_atom_def)
  have "\<forall>d \<in> set (c_allowed opt sc gc). \<forall>a \<in> set d. cols_ok a"
    using atom by (auto simp: c_allowed_def Let_def paren_def list_all_iff)
  then show ?thesis
    using wf_c_allowed [OF assms(1,2), of sc gc] by (auto simp: cond_ok_def wf_cond_def)
qed

lemma cond_ok_c_condition:
  assumes "ident sc" "ident gc" "ident hc" "ho_has opt OPPRVLG_GET_ALL_SERVER \<or> access_ok opt"
    and "filters_visible opt"
  shows "cond_ok (c_condition opt sc gc hc)"
proof -
  have "cond_ok (c_valid v sc)" for v using assms(1) by (simp add: c_valid_def)
  moreover have "cond_ok (c_target opt sc gc hc)"
    using assms(1-3) by (auto simp: c_target_def target_atoms_def paren_def wf_cond_def split: list.splits if_splits)
  moreover have "\<not> ho_has opt OPPRVLG_GET_ALL_SERVER \<Longrightarrow> cond_ok (c_allowed opt sc gc)"
    using cond_ok_c_allowed assms by blast
  ultimately show ?thesis
    using cond_ok_c_filter [OF assms(1,2,3,5)] by (auto simp: c_condition_def Let_def)
qed

lemma no_filters_visible: "no_filters opt \<Longrightarrow> filters_visible opt"
  by (simp add: no_filters_def filters_visible_def)

section \<open>Properties\<close>

definition readable_columns :: "host_option \<Rightarrow> string \<Rightarrow> string \<Rightarrow> string \<Rightarrow> bool" where
  "readable_columns opt sc gc hc \<longleftrightarrow> option_cols opt sc gc hc \<and> ident sc \<and> ident gc \<and> ident hc"

lemma getCondition_covered:
  assumes "sql_engine matches" and "readable_columns opt sc gc hc"
    and "\<not> ho_has opt OPPRVLG_GET_ALL_SERVER" and "access_ok opt" and "no_filters opt"
  shows "\<exists>sql. getCondition opt = Inr sql
    \<and> (\<forall>row. matches sql row \<longleftrightarrow>
          registered opt sc row \<and> covered opt sc gc row \<and> targets_match opt sc gc hc row)"
proof (intro exI conjI allI)
  let ?c = "c_condition opt sc gc hc"
  show "getCondition opt = Inr (render ?c)"
    using assms(2) getCondition_render by (simp add: readable_columns_def)
  fix row
  have "matches (render ?c) row = selects ?c row"
    using assms(2,4,5)
    by (intro sql_engine.matches_render [OF assms(1)] cond_ok_c_condition)
       (simp_all add: readable_columns_def no_filters_visible)
  also have "\<dots> \<longleftrightarrow> registered opt sc row \<and> selects (c_allowed opt sc gc) row \<and> targets_match opt sc gc hc row"
    using assms(3,5) by (auto simp: selects_c_condition c_filter_none)
  finally show "matches (render ?c) row \<longleftrightarrow> registered opt sc row
      \<and> covered opt sc gc row \<and> targets_match opt sc gc hc row"
    using selects_c_covered [OF assms(3,4)] by (auto simp: targets_match_def)
qed

lemma getCondition_selects:
  assumes "sql_engine matches" and "readable_columns opt sc gc hc"
    and "\<not> ho_has opt OPPRVLG_GET_ALL_SERVER"
    and "access_ok opt" and "no_filters opt" and "ho_targetHostgroupId opt = ALL_HOST_GROUPS"
  shows "\<exists>sql. getCondition opt = Inr sql
    \<and> (\<forall>row. matches sql row \<longleftrightarrow>
          registered opt sc row \<and> may_read (getAllowedServersAndHostgroups opt) sc gc row
          \<and> targets_match opt sc gc hc row)"
  using getCondition_covered [OF assms(1-5)] assms(6) by (simp add: covered_def)

text \<open>
  C2. For a user without the privilege to see every server, and a query with any target server,
  hostgroup and host but without the six filters, the database selects with the condition exactly
  the rows of registered servers that match the targets and are \<open>covered\<close>: when the query names no
  hostgroup, by the server and the hostgroup of an entry of the access list; when it names one, by
  the server of an entry only, because the named hostgroup takes the place of the granted ones. The
  access list has no entry without hostgroups, and a query to one server is not made with a list that
  grants every server (both leave an empty pair of parentheses in the text).
\<close>

theorem getCondition_exact:
  assumes "sql_engine matches" and "readable_columns opt sc gc hc"
    and "\<not> ho_has opt OPPRVLG_GET_ALL_SERVER" and "access_ok opt" and "no_filters opt"
  shows "\<exists>sql. getCondition opt = Inr sql
    \<and> (\<forall>row. matches sql row \<longleftrightarrow>
          registered opt sc row \<and> covered opt sc gc row \<and> targets_match opt sc gc hc row)"
  using assms by (rule getCondition_covered)

text \<open>
  C5. Filters only narrow: for any combination of selected and excluded servers, hostgroups
  and hosts that is not a lone selection of several hosts or hostgroups of one server
  (\<open>filters_in_one_piece\<close>), and that leaves something visible of every filter with several entries
  (\<open>filters_visible\<close>), every row the database selects with the condition belongs to a registered
  server, is covered by the access list (by the server alone when the query names a hostgroup) and
  matches the targets. The access list has no entry without hostgroups, and a query that
  names a server is not made with a list that grants every server.
\<close>

theorem getCondition_filters_sound:
  assumes "sql_engine matches" and "readable_columns opt sc gc hc"
    and "\<not> ho_has opt OPPRVLG_GET_ALL_SERVER"
    and "access_ok opt" and "filters_in_one_piece opt" and "filters_visible opt"
  shows "\<exists>sql. getCondition opt = Inr sql
    \<and> (\<forall>row. matches sql row \<longrightarrow>
          registered opt sc row \<and> covered opt sc gc row \<and> targets_match opt sc gc hc row)"
proof (intro exI conjI allI impI)
  let ?c = "c_condition opt sc gc hc"
  show "getCondition opt = Inr (render ?c)"
    using assms(2) getCondition_render by (simp add: readable_columns_def)
  fix row
  assume "matches (render ?c) row"
  moreover have "matches (render ?c) row = selects ?c row"
    using assms(2,4,6)
    by (intro sql_engine.matches_render [OF assms(1)] cond_ok_c_condition)
       (simp_all add: readable_columns_def)
  ultimately have *: "registered opt sc row" "selects (c_allowed opt sc gc) row" "targets_match opt sc gc hc row"
    using assms(3) selects_c_condition [OF tight_c_filter [OF assms(5)], of sc gc hc row] by auto
  then show "registered opt sc row" "targets_match opt sc gc hc row" by simp_all
  show "covered opt sc gc row"
    using * selects_c_covered [OF assms(3,4)] by (auto simp: targets_match_def)
qed

section \<open>A concrete query\<close>

text \<open>
  Tables with the columns the properties below need, and the option of a user who may read
  the hostgroup \<open>A\<close> of server 1 only, while servers 1 and 2 are registered.
\<close>

definition ex_column :: "string \<Rightarrow> column_def" where
  "ex_column n = \<lparr>cd_columnName = n, cd_type = SQL_COLUMN_TYPE_INT, cd_columnLength = 11,
     cd_decFracLength = 0, cd_canBeNull = False, cd_keyType = SQL_KEY_NONE, cd_flags = 0,
     cd_defaultValue = None\<rparr>"

definition ex_triggers :: table_profile where
  "ex_triggers = \<lparr>tp_name = ''triggers'',
     tp_columnDefs = map ex_column [''id'', ''server_id'', ''host_id_in_server''],
     tp_indexDefs = [], tp_uniqueKeyColumnIndexes = []\<rparr>"

definition ex_members :: table_profile where
  "ex_members = \<lparr>tp_name = ''hostgroup_member'',
     tp_columnDefs = map ex_column [''id'', ''server_id'', ''host_id_in_server'', ''host_group_id''],
     tp_indexDefs = [], tp_uniqueKeyColumnIndexes = []\<rparr>"

definition ex_synapse :: synapse where
  "ex_synapse = \<lparr>sy_tableProfile = ex_triggers, sy_selfIdColumnIdx = 0, sy_serverIdColumnIdx = 1,
     sy_hostTableProfile = ex_triggers, sy_hostIdColumnIdx = 2, sy_needToJoinHostgroup = True,
     sy_hostgroupMapTableProfile = ex_members, sy_hostgroupMapServerIdColumnIdx = 1,
     sy_hostgroupMapHostIdColumnIdx = 2, sy_hostgroupMapGroupIdColumnIdx = 3,
     sy_globalHostIdColumnIdx = INVALID_COLUMN_IDX,
     sy_hostgroupMapGlobalHostIdColumnIdx = INVALID_COLUMN_IDX\<rparr>"

definition ex_option :: host_option where
  "ex_option = mk_host_option ex_synapse \<lparr>op_userId = 5, op_flags = 0\<rparr> [1, 2] [(1, [''A''])]"

definition ex_row :: "int \<Rightarrow> string \<Rightarrow> string \<Rightarrow> sql_row" where
  "ex_row server host grp =
     (\<lambda>_. VStr [])(''triggers.server_id'' := VInt server,
       ''triggers.host_id_in_server'' := VStr host, ''hostgroup_member.host_group_id'' := VStr grp)"

lemmas ex_defs = ex_option_def ex_synapse_def ex_triggers_def ex_members_def ex_column_def
  mk_host_option_def getColumnNameCommon_def getServerIdColumnName_def getHostgroupIdColumnName_def
  getHostIdColumnName_def isHostgroupUsed_def isHostgroupEnumerationInCondition_def
  getAllowedServersAndHostgroups_def getValidServerIdSet_def tp_numColumns_def getFullColumnName_def
  getColumnName_def ALL_SERVERS_def ALL_HOST_GROUPS_def ALL_LOCAL_HOSTS_def op_has_bit

abbreviation ex_sc :: string where "ex_sc \<equiv> ''triggers.server_id''"
abbreviation ex_gc :: string where "ex_gc \<equiv> ''hostgroup_member.host_group_id''"
abbreviation ex_hc :: string where "ex_hc \<equiv> ''triggers.host_id_in_server''"

lemma ex_ident: "ident ex_sc" "ident ex_gc" "ident ex_hc"
  by code_simp+

lemma ex_option_cols: "readable_columns ex_option ex_sc ex_gc ex_hc"
  by (simp add: readable_columns_def option_cols_def ex_defs ex_ident)

lemma ex_option_ok:
  "\<not> ho_has ex_option OPPRVLG_GET_ALL_SERVER" "access_ok ex_option" "no_filters ex_option"
  "ho_targetHostgroupId ex_option = ALL_HOST_GROUPS"
  by (simp_all add: ex_defs access_ok_def no_filters_def)

theorem getCondition_exact_witness:
  "\<exists>sql. getCondition ex_option = Inr sql
     \<and> std_matches sql (ex_row 1 ''h1'' ''A'') \<and> \<not> std_matches sql (ex_row 1 ''h1'' ''B'')
     \<and> \<not> std_matches sql (ex_row 2 ''h1'' ''A'')"
proof -
  obtain sql where sql: "getCondition ex_option = Inr sql"
    and sel: "\<And>row. std_matches sql row \<longleftrightarrow>
      registered ex_option ex_sc row \<and> covered ex_option ex_sc ex_gc row
      \<and> targets_match ex_option ex_sc ex_gc ex_hc row"
    using getCondition_exact [OF std.sql_engine_axioms ex_option_cols ex_option_ok(1-3)] by blast
  have "std_matches sql (ex_row 1 ''h1'' ''A'')" "\<not> std_matches sql (ex_row 1 ''h1'' ''B'')"
      "\<not> std_matches sql (ex_row 2 ''h1'' ''A'')"
    unfolding sel
    by (simp_all add: registered_def covered_def may_read_def targets_match_def ex_defs ex_row_def cstr_def nul_def)
  with sql show ?thesis by blast
qed

theorem getCondition_filters_sound_witness:
  "\<exists>sql. getCondition (ex_option\<lparr>ho_selectedServerHostSetMap := [(1, [''h1'']), (2, [''h2''])]\<rparr>) = Inr sql
     \<and> \<not> std_matches sql (ex_row 2 ''h2'' ''A'')"
proof -
  let ?o = "ex_option\<lparr>ho_selectedServerHostSetMap := [(1, [''h1'']), (2, [''h2''])]\<rparr>"
  have hyps: "readable_columns ?o ex_sc ex_gc ex_hc" "\<not> ho_has ?o OPPRVLG_GET_ALL_SERVER" "access_ok ?o"
      "filters_in_one_piece ?o" "filters_visible ?o"
    using ex_ident
    by (simp_all add: readable_columns_def option_cols_def ex_defs access_ok_def filters_in_one_piece_def
        filters_visible_def entries_def isAllowedServer_def)
  obtain sql where sql: "getCondition ?o = Inr sql"
    and sel: "\<And>row. std_matches sql row \<Longrightarrow> covered ?o ex_sc ex_gc row"
    using getCondition_filters_sound [OF std.sql_engine_axioms hyps] by blast
  have "\<not> covered ?o ex_sc ex_gc (ex_row 2 ''h2'' ''A'')"
    by (simp add: covered_def may_read_def ex_defs ex_row_def)
  with sql sel show ?thesis by blast
qed

section \<open>Where the condition departs from the access list\<close>

lemmas c_defs = c_condition_def c_valid_def c_allowed_def c_target_def c_filter_def c_filters_def
  c_selServers_def c_exclServers_def c_selHostgroups_def c_exclHostgroups_def c_selHosts_def
  c_exclHosts_def c_many_def cond_any_def cond_all_def entries_def pair_cond_def target_atoms_def
  targeted_def server_atom_def hg_atom_def isAllowedServer_def unrestricted_def add_cond_def paren_def

text \<open>The restricted user of \<open>ex_option\<close> selects two hosts of the one server in the list.\<close>

definition ex_two_hosts :: host_option where
  "ex_two_hosts = ex_option\<lparr>ho_selectedServerHostSetMap := [(1, [''h1'', ''h2''])]\<rparr>"

text \<open>The same user asks for the hostgroup \<open>B\<close> of the server, which the list does not grant.\<close>

definition ex_other_group :: host_option where
  "ex_other_group = ex_option\<lparr>ho_targetServerId := 1, ho_targetHostgroupId := ''B''\<rparr>"

text \<open>A user whose list grants every server asks for server 1.\<close>

definition ex_all_servers :: host_option where
  "ex_all_servers = (mk_host_option ex_synapse \<lparr>op_userId = 5, op_flags = 0\<rparr> [1, 2] [(ALL_SERVERS, [''*''])])
     \<lparr>ho_targetServerId := 1\<rparr>"

text \<open>The restricted user selects the hostgroup that the list does grant.\<close>

definition ex_own_group :: host_option where
  "ex_own_group = ex_option\<lparr>ho_selectedServerHostgroupSetMap := [(1, [''A'']), (2, [''A''])]\<rparr>"

lemmas ex_option_defs = ex_two_hosts_def ex_other_group_def ex_all_servers_def ex_own_group_def

lemma ex_cols:
  "option_cols ex_two_hosts ex_sc ex_gc ex_hc" "option_cols ex_other_group ex_sc ex_gc ex_hc"
  "option_cols ex_all_servers ''server_id'' ''host_group_id'' ''host_id_in_server''"
  "option_cols ex_own_group ex_sc ex_gc ex_hc"
  by (simp_all add: option_cols_def ex_option_defs ex_defs)

text \<open>A condition in one piece, followed by a disjunction that is not put in parentheses.\<close>

lemma selects_add_any:
  assumes "tight c"
  shows "selects (add_cond c (cond_any (a # as)) ADD_TYPE_AND) row \<longleftrightarrow>
    selects c row \<and> holds_atom row a \<or> (\<exists>b \<in> set as. holds_atom row b)"
proof (cases "c = []")
  case False
  with tight_cases [OF assms] obtain d where "c = [d]" by blast
  then show ?thesis by (auto simp: add_cond_def cond_any_def selects_def holds_def)
qed (auto simp: cond_any_def selects_def holds_def)

lemma c_filter_lone_hosts:
  assumes "no_filters (opt\<lparr>ho_selectedServerHostSetMap := []\<rparr>)" "ho_selectedServerHostSetMap opt = [(s, hs)]"
    and "isAllowedServer opt s"
  shows "c_filter opt sc gc hc = cond_any (map (\<lambda>h. AtPar (pair_cond sc hc s h)) hs)"
  using assms by (simp add: no_filters_def c_filter_def c_filters_def Let_def c_selServers_def c_exclServers_def
      c_selHostgroups_def c_exclHostgroups_def c_selHosts_def c_exclHosts_def entries_def c_many_def comp_def)

text \<open>The access list grants the target of the query, so the condition is not the constant 0.\<close>

definition target_granted :: "host_option \<Rightarrow> bool" where
  "target_granted opt \<longleftrightarrow> ho_targetServerId opt = ALL_SERVERS \<or> isAllowedServer opt (ho_targetServerId opt)"

text \<open>
  C6. What a lone selection of hosts of one granted server really selects: the parentheses round the
  disjunction are missing, so the access list, the set of registered servers and the targets restrict
  the first host only, and every row of every further host of the selection is returned to a user
  without the privilege to see every server, whatever its hostgroup.
\<close>

theorem getCondition_two_hosts_leak:
  assumes "sql_engine matches" and "readable_columns opt sc gc hc"
    and "\<not> ho_has opt OPPRVLG_GET_ALL_SERVER" and "access_ok opt" and "target_granted opt"
    and "ho_selectedServerHostSetMap opt = [(s, h # hs)]" and "isAllowedServer opt s"
    and "no_filters (opt\<lparr>ho_selectedServerHostSetMap := []\<rparr>)"
  shows "\<exists>sql. getCondition opt = Inr sql
    \<and> (\<forall>row. matches sql row \<longleftrightarrow>
          registered opt sc row \<and> covered opt sc gc row \<and> targets_match opt sc gc hc row
            \<and> row sc = VInt s \<and> row hc = VStr (cstr h)
          \<or> row sc = VInt s \<and> (\<exists>h' \<in> set hs. row hc = VStr (cstr h')))"
proof (intro exI conjI allI)
  let ?c = "c_condition opt sc gc hc" and ?o = "opt\<lparr>ho_selectedServerHostSetMap := []\<rparr>"
  show "getCondition opt = Inr (render ?c)"
    using assms(2) getCondition_render by (simp add: readable_columns_def)
  fix row
  let ?a = "\<lambda>h. AtPar (pair_cond sc hc s h)"
  have f: "c_filter opt sc gc hc = cond_any (?a h # map ?a hs)"
    using c_filter_lone_hosts [OF assms(8,6,7)] by simp
  have m: "getAllowedServersAndHostgroups opt \<noteq> []"
    using assms(7) by (auto simp: isAllowedServer_key [OF assms(3)])
  have never: "c_allowed opt sc gc \<noteq> [[AtNever]]"
    using m assms(5) by (auto simp: c_allowed_def Let_def target_granted_def paren_def server_atom_def hg_atom_def split: option.splits)
  define b where "b = add_cond (add_cond (if ho_excludeDefunctServers opt then c_valid (getValidServerIdSet opt) sc else [])
      (c_allowed opt sc gc) ADD_TYPE_AND) (c_target opt sc gc hc) ADD_TYPE_AND"
  have atom: "holds_atom row (?a h') \<longleftrightarrow> row sc = VInt s \<and> row hc = VStr (cstr h')" for h'
    by (auto simp: pair_cond_def holds_def)
  have b: "tight b" "selects b row \<longleftrightarrow> registered opt sc row \<and> selects (c_allowed opt sc gc) row \<and> targets_match opt sc gc hc row"
    by (auto simp: b_def selects_add_and tight_add_and selects_c_valid selects_c_target registered_def selects_def [of "[]"])
  have "?c = add_cond b (c_filter opt sc gc hc) ADD_TYPE_AND"
    using never assms(3) by (simp add: c_condition_def Let_def b_def)
  then have "selects ?c row \<longleftrightarrow> selects b row \<and> holds_atom row (?a h) \<or> (\<exists>h' \<in> set hs. holds_atom row (?a h'))"
    using selects_add_any [OF b(1)] by (simp add: f)
  moreover have "matches (render ?c) row = selects ?c row"
  proof (intro sql_engine.matches_render [OF assms(1)] cond_ok_c_condition)
    show "filters_visible opt" using assms(6,8) by (simp add: filters_visible_def no_filters_def)
  qed (use assms(2,4) in \<open>simp_all add: readable_columns_def\<close>)
  ultimately show "matches (render ?c) row \<longleftrightarrow>
      registered opt sc row \<and> covered opt sc gc row \<and> targets_match opt sc gc hc row
        \<and> row sc = VInt s \<and> row hc = VStr (cstr h)
      \<or> row sc = VInt s \<and> (\<exists>h' \<in> set hs. row hc = VStr (cstr h'))"
    using b(2) selects_c_covered [OF assms(3,4), of row sc gc] unfolding atom targets_match_def by blast
qed

theorem getCondition_two_hosts_leak_witness:
  "\<exists>sql. getCondition ex_two_hosts = Inr sql \<and> std_matches sql (ex_row 1 ''h2'' ''B'')
     \<and> \<not> may_read (getAllowedServersAndHostgroups ex_two_hosts) ex_sc ex_gc (ex_row 1 ''h2'' ''B'')
     \<and> \<not> std_matches sql (ex_row 1 ''h1'' ''B'')"
proof -
  have o: "readable_columns ex_two_hosts ex_sc ex_gc ex_hc" "\<not> ho_has ex_two_hosts OPPRVLG_GET_ALL_SERVER"
      "access_ok ex_two_hosts" "target_granted ex_two_hosts" "ho_selectedServerHostSetMap ex_two_hosts = [(1, [''h1'', ''h2''])]"
      "isAllowedServer ex_two_hosts 1" "no_filters (ex_two_hosts\<lparr>ho_selectedServerHostSetMap := []\<rparr>)"
    using ex_cols(1) ex_ident by (simp_all add: readable_columns_def ex_option_defs ex_defs access_ok_def no_filters_def
        target_granted_def isAllowedServer_def)
  obtain sql where sql: "getCondition ex_two_hosts = Inr sql"
    and sel: "\<And>row. std_matches sql row \<longleftrightarrow>
      registered ex_two_hosts ex_sc row \<and> covered ex_two_hosts ex_sc ex_gc row \<and> targets_match ex_two_hosts ex_sc ex_gc ex_hc row
        \<and> row ex_sc = VInt 1 \<and> row ex_hc = VStr (cstr ''h1'')
      \<or> row ex_sc = VInt 1 \<and> (\<exists>h' \<in> set [''h2'']. row ex_hc = VStr (cstr h'))"
    using getCondition_two_hosts_leak [OF std.sql_engine_axioms o] by blast
  have "std_matches sql (ex_row 1 ''h2'' ''B'')" "\<not> std_matches sql (ex_row 1 ''h1'' ''B'')"
    unfolding sel by (simp_all add: covered_def may_read_def ex_option_defs ex_defs ex_row_def cstr_def nul_def)
  moreover have "\<not> may_read (getAllowedServersAndHostgroups ex_two_hosts) ex_sc ex_gc (ex_row 1 ''h2'' ''B'')"
    by (simp add: may_read_def ex_row_def ex_option_defs ex_defs cstr_def nul_def)
  ultimately show ?thesis using sql by blast
qed

text \<open>
  A query for one hostgroup compares with the requested hostgroup only and drops the list of
  granted hostgroups: the user who may read \<open>A\<close> gets the rows of \<open>B\<close> by asking for it.
\<close>

lemma getCondition_hostgroup_bypass:
  "(case getCondition ex_other_group of
      Inl e \<Rightarrow> False
    | Inr sql \<Rightarrow> sql_where sql (ex_row 1 ''h2'' ''B'') = Some True)
   \<and> \<not> may_read (getAllowedServersAndHostgroups ex_other_group) ex_sc ex_gc (ex_row 1 ''h2'' ''B'')"
proof -
  let ?c = "[[AtIn ex_sc [VInt 1, VInt 2],
             AtPar [[AtEq ex_sc (VInt 1), AtEq ex_gc (VStr ''B'')]],
             AtPar [[AtEq ex_sc (VInt 1), AtEq ex_gc (VStr ''B'')]]]]"
  have c: "c_condition ex_other_group ex_sc ex_gc ex_hc = ?c"
    by (simp add: c_defs ex_option_defs ex_defs Let_def cstr_def nul_def)
  have "sql_where (render ?c) (ex_row 1 ''h2'' ''B'') = Some (selects ?c (ex_row 1 ''h2'' ''B''))"
    by (rule sql_where_render) (simp add: ex_ident wf_cond_def)
  moreover have "selects ?c (ex_row 1 ''h2'' ''B'')"
    by (simp add: selects_def holds_def ex_row_def cstr_def nul_def)
  moreover have "\<not> may_read (getAllowedServersAndHostgroups ex_other_group) ex_sc ex_gc (ex_row 1 ''h2'' ''B'')"
    by (simp add: may_read_def ex_row_def ex_option_defs ex_defs cstr_def nul_def)
  ultimately show ?thesis
    using getCondition_render [OF ex_cols(2)] by (simp only: c sum.case simp_thms)
qed

text \<open>
  The loop over the access list skips the entry for every server when the query names one, so
  a user who is granted every server gets a condition with an empty pair of parentheses, which is a
  syntax error; and so does a restricted user who selects granted hostgroups of two servers, because
  \<open>isAllowedHostgroup\<close> answers false for them.
\<close>

lemma getCondition_empty_parentheses:
  "(case getCondition ex_all_servers of Inl e \<Rightarrow> False | Inr sql \<Rightarrow> sql_where sql row = None)
   \<and> (case getCondition ex_own_group of Inl e \<Rightarrow> False | Inr sql \<Rightarrow> sql_where sql row = None)"
proof -
  have 1: "c_condition ex_all_servers ''server_id'' ''host_group_id'' ''host_id_in_server'' =
     [[AtIn ''server_id'' [VInt 1, VInt 2], AtPar [], AtPar [[AtEq ''server_id'' (VInt 1)]]]]"
    by (simp add: c_defs ex_option_defs ex_defs Let_def)
  have 2: "c_condition ex_own_group ex_sc ex_gc ex_hc =
     [[AtIn ex_sc [VInt 1, VInt 2], AtPar [[AtEq ex_sc (VInt 1), AtIn ex_gc [VStr ''A'']]], AtPar []]]"
    by (simp add: c_defs ex_option_defs ex_defs Let_def)
  have "sql_parse (render (c_condition ex_all_servers ''server_id'' ''host_group_id'' ''host_id_in_server'')) = None"
      "sql_parse (render (c_condition ex_own_group ex_sc ex_gc ex_hc)) = None"
    unfolding 1 2 by code_simp+
  moreover have "render (c_condition ex_all_servers ''server_id'' ''host_group_id'' ''host_id_in_server'') \<noteq> []"
      "render (c_condition ex_own_group ex_sc ex_gc ex_hc) \<noteq> []"
    unfolding 1 2 by (simp_all add: render_def)
  ultimately show ?thesis
    using getCondition_render [OF ex_cols(3)] getCondition_render [OF ex_cols(4)]
    by (simp add: sql_where_def)
qed

end
