(* ===== verification/Item_Data.thy ===== *)
theory Item_Data
  imports Hato_Prelude
begin

text \<open>
  Values of the data model (src/server/common/ItemData.h and ItemData.cc): five kinds of values
  with an identifier and a null flag, casts to the native types, arithmetic and comparisons. The
  generic class gives every kind its operators; the specialisations for \<open>int\<close> and \<open>uint64_t\<close>
  compare across the two kinds. Operations on \<open>double\<close> are an argument (\<open>double_ops\<close>); the model
  needs nothing of them.
\<close>

section \<open>Data\<close>

datatype item_exc =
    ITEM_DATA_EXCEPTION_UNDEFINED_OPERATION
  | ITEM_DATA_EXCEPTION_INVALID_OPERATION
  | ITEM_DATA_EXCEPTION_ITEM_NOT_FOUND
  | ItemUndefinedBehaviour

type_synonym 'a ires = "item_exc + 'a"

datatype item_type = ITEM_TYPE_BOOL | ITEM_TYPE_INT | ITEM_TYPE_UINT64 | ITEM_TYPE_DOUBLE | ITEM_TYPE_STRING

datatype 'd item_val =
    ItemBool bool
  | ItemInt int
  | ItemUint64 u64
  | ItemDouble 'd
  | ItemString string

record 'd double_ops =
  d_add :: "'d \<Rightarrow> 'd \<Rightarrow> 'd"
  d_div :: "'d \<Rightarrow> 'd \<Rightarrow> 'd"
  d_less :: "'d \<Rightarrow> 'd \<Rightarrow> bool"
  d_eq :: "'d \<Rightarrow> 'd \<Rightarrow> bool"
  d_show :: "'d \<Rightarrow> string"

record 'd item_data =
  it_id :: u64
  it_val :: "'d item_val"
  it_null :: bool

definition SYSTEM_ITEM_ID_ANONYMOUS :: u64 where
  "SYSTEM_ITEM_ID_ANONYMOUS = 0xffffffffffffffff"

definition mk_item :: "u64 \<Rightarrow> 'd item_val \<Rightarrow> bool \<Rightarrow> 'd item_data" where
  "mk_item itemId data null = \<lparr>it_id = itemId, it_val = data, it_null = null\<rparr>"

definition anon_item :: "'d item_val \<Rightarrow> 'd item_data" where
  "anon_item data = mk_item SYSTEM_ITEM_ID_ANONYMOUS data False"

fun val_type :: "'d item_val \<Rightarrow> item_type" where
  "val_type (ItemBool _) = ITEM_TYPE_BOOL"
| "val_type (ItemInt _) = ITEM_TYPE_INT"
| "val_type (ItemUint64 _) = ITEM_TYPE_UINT64"
| "val_type (ItemDouble _) = ITEM_TYPE_DOUBLE"
| "val_type (ItemString _) = ITEM_TYPE_STRING"

definition getItemType :: "'d item_data \<Rightarrow> item_type" where
  "getItemType item = val_type (it_val item)"

fun nativeTypeName :: "item_type \<Rightarrow> string" where
  "nativeTypeName ITEM_TYPE_BOOL = ''Boolean''"
| "nativeTypeName ITEM_TYPE_INT = ''Integer''"
| "nativeTypeName ITEM_TYPE_UINT64 = ''Unsigned''"
| "nativeTypeName ITEM_TYPE_DOUBLE = ''Double''"
| "nativeTypeName ITEM_TYPE_STRING = ''String''"

definition item_setNull :: "'d item_data \<Rightarrow> 'd item_data" where
  "item_setNull item = item\<lparr>it_null := True\<rparr>"

text \<open>\<open>clone\<close> passes the identifier and the value on, and nothing else.\<close>

definition item_clone :: "'d item_data \<Rightarrow> 'd item_data" where
  "item_clone item = mk_item (it_id item) (it_val item) False"

fun val_getString :: "'d double_ops \<Rightarrow> 'd item_val \<Rightarrow> string" where
  "val_getString ops (ItemBool b) = (if b then ''1'' else ''0'')"
| "val_getString ops (ItemInt i) = dec_int i"
| "val_getString ops (ItemUint64 u) = dec_nat (unat u)"
| "val_getString ops (ItemDouble d) = d_show ops d"
| "val_getString ops (ItemString s) = s"

text \<open>The range of a C \<open>int\<close>.\<close>

definition in_int :: "int \<Rightarrow> bool" where
  "in_int i \<longleftrightarrow> - (2 ^ 31) \<le> i \<and> i < 2 ^ 31"

fun val_wf :: "'d item_val \<Rightarrow> bool" where
  "val_wf (ItemInt i) = in_int i"
| "val_wf _ = True"

section \<open>Casts\<close>

fun cast_bool :: "'d item_val \<Rightarrow> bool ires" where
  "cast_bool (ItemBool b) = Inr b"
| "cast_bool _ = Inl ITEM_DATA_EXCEPTION_UNDEFINED_OPERATION"

fun cast_int :: "'d item_val \<Rightarrow> int ires" where
  "cast_int (ItemInt i) = Inr i"
| "cast_int _ = Inl ITEM_DATA_EXCEPTION_UNDEFINED_OPERATION"

fun cast_uint64 :: "'d item_val \<Rightarrow> u64 ires" where
  "cast_uint64 (ItemUint64 u) = Inr u"
| "cast_uint64 (ItemInt i) =
     (if i < 0 then Inl ITEM_DATA_EXCEPTION_INVALID_OPERATION else Inr (word_of_int i))"
| "cast_uint64 _ = Inl ITEM_DATA_EXCEPTION_UNDEFINED_OPERATION"

fun cast_double :: "'d item_val \<Rightarrow> 'd ires" where
  "cast_double (ItemDouble d) = Inr d"
| "cast_double _ = Inl ITEM_DATA_EXCEPTION_UNDEFINED_OPERATION"

fun cast_string :: "'d item_val \<Rightarrow> string ires" where
  "cast_string (ItemString s) = Inr s"
| "cast_string _ = Inl ITEM_DATA_EXCEPTION_UNDEFINED_OPERATION"

section \<open>Arithmetic\<close>

text \<open>Signed overflow and division by zero are undefined behaviour; booleans are added as integers.\<close>

definition int_result :: "int \<Rightarrow> 'd item_val ires" where
  "int_result i = (if in_int i then Inr (ItemInt i) else Inl ItemUndefinedBehaviour)"

fun val_add :: "'d double_ops \<Rightarrow> 'd item_val \<Rightarrow> 'd item_val \<Rightarrow> 'd item_val ires" where
  "val_add ops (ItemBool a) (ItemBool b) = Inr (ItemBool (a \<or> b))"
| "val_add ops (ItemInt a) (ItemInt b) = int_result (a + b)"
| "val_add ops (ItemUint64 a) (ItemUint64 b) = Inr (ItemUint64 (a + b))"
| "val_add ops (ItemDouble a) (ItemDouble b) = Inr (ItemDouble (d_add ops a b))"
| "val_add ops (ItemString a) (ItemString b) = Inr (ItemString (a @ b))"
| "val_add ops _ _ = Inl ITEM_DATA_EXCEPTION_UNDEFINED_OPERATION"

text \<open>C rounds an integer quotient towards zero.\<close>

definition c_div :: "int \<Rightarrow> int \<Rightarrow> int" where
  "c_div a b = sgn a * sgn b * (\<bar>a\<bar> div \<bar>b\<bar>)"

fun val_div :: "'d double_ops \<Rightarrow> 'd item_val \<Rightarrow> 'd item_val \<Rightarrow> 'd item_val ires" where
  "val_div ops (ItemString a) v = Inl ITEM_DATA_EXCEPTION_INVALID_OPERATION"
| "val_div ops (ItemBool a) (ItemBool b) =
     (if b then Inr (ItemBool a) else Inl ItemUndefinedBehaviour)"
| "val_div ops (ItemInt a) (ItemInt b) =
     (if b = 0 then Inl ItemUndefinedBehaviour else int_result (c_div a b))"
| "val_div ops (ItemUint64 a) (ItemUint64 b) =
     (if b = 0 then Inl ItemUndefinedBehaviour else Inr (ItemUint64 (a div b)))"
| "val_div ops (ItemDouble a) (ItemDouble b) = Inr (ItemDouble (d_div ops a b))"
| "val_div ops _ _ = Inl ITEM_DATA_EXCEPTION_UNDEFINED_OPERATION"

definition item_add :: "'d double_ops \<Rightarrow> 'd item_data \<Rightarrow> 'd item_data \<Rightarrow> 'd item_data ires" where
  "item_add ops l r = bindR (val_add ops (it_val l) (it_val r)) (\<lambda>v. Inr (anon_item v))"

definition item_div :: "'d double_ops \<Rightarrow> 'd item_data \<Rightarrow> 'd item_data \<Rightarrow> 'd item_data ires" where
  "item_div ops l r = bindR (val_div ops (it_val l) (it_val r)) (\<lambda>v. Inr (anon_item v))"

text \<open>\<open>+=\<close> and \<open>=\<close> keep the identifier and the null flag of the left-hand side.\<close>

definition item_add_assign :: "'d double_ops \<Rightarrow> 'd item_data \<Rightarrow> 'd item_data \<Rightarrow> 'd item_data ires" where
  "item_add_assign ops l r = bindR (val_add ops (it_val l) (it_val r)) (\<lambda>v. Inr (l\<lparr>it_val := v\<rparr>))"

definition item_assign :: "'d item_data \<Rightarrow> 'd item_data \<Rightarrow> 'd item_data ires" where
  "item_assign l r =
     (if val_type (it_val l) = val_type (it_val r) then Inr (l\<lparr>it_val := it_val r\<rparr>)
      else Inl ITEM_DATA_EXCEPTION_UNDEFINED_OPERATION)"

section \<open>Comparisons\<close>

text \<open>\<open>std::string\<close> compares the bytes as unsigned, which is the order of characters here.\<close>

text \<open>The operators of the generic class, for two values of one kind; it has no \<open>>=\<close> and no \<open><=\<close>.\<close>

fun generic_gt :: "'d double_ops \<Rightarrow> 'd item_val \<Rightarrow> 'd item_val \<Rightarrow> bool ires" where
  "generic_gt ops (ItemBool a) (ItemBool b) = Inr (a > b)"
| "generic_gt ops (ItemInt a) (ItemInt b) = Inr (a > b)"
| "generic_gt ops (ItemUint64 a) (ItemUint64 b) = Inr (a > b)"
| "generic_gt ops (ItemDouble a) (ItemDouble b) = Inr (d_less ops b a)"
| "generic_gt ops (ItemString a) (ItemString b) = Inr (a > b)"
| "generic_gt ops _ _ = Inl ITEM_DATA_EXCEPTION_UNDEFINED_OPERATION"

fun generic_lt :: "'d double_ops \<Rightarrow> 'd item_val \<Rightarrow> 'd item_val \<Rightarrow> bool ires" where
  "generic_lt ops (ItemBool a) (ItemBool b) = Inr (a < b)"
| "generic_lt ops (ItemInt a) (ItemInt b) = Inr (a < b)"
| "generic_lt ops (ItemUint64 a) (ItemUint64 b) = Inr (a < b)"
| "generic_lt ops (ItemDouble a) (ItemDouble b) = Inr (d_less ops a b)"
| "generic_lt ops (ItemString a) (ItemString b) = Inr (a < b)"
| "generic_lt ops _ _ = Inl ITEM_DATA_EXCEPTION_UNDEFINED_OPERATION"

fun generic_eq :: "'d double_ops \<Rightarrow> 'd item_val \<Rightarrow> 'd item_val \<Rightarrow> bool ires" where
  "generic_eq ops (ItemBool a) (ItemBool b) = Inr (a = b)"
| "generic_eq ops (ItemInt a) (ItemInt b) = Inr (a = b)"
| "generic_eq ops (ItemUint64 a) (ItemUint64 b) = Inr (a = b)"
| "generic_eq ops (ItemDouble a) (ItemDouble b) = Inr (d_eq ops a b)"
| "generic_eq ops (ItemString a) (ItemString b) = Inr (a = b)"
| "generic_eq ops _ _ = Inl ITEM_DATA_EXCEPTION_UNDEFINED_OPERATION"

definition generic_ge :: "bool ires" where
  "generic_ge = Inl ITEM_DATA_EXCEPTION_UNDEFINED_OPERATION"

definition generic_le :: "bool ires" where
  "generic_le = Inl ITEM_DATA_EXCEPTION_UNDEFINED_OPERATION"

text \<open>The specialisations.\<close>

fun ItemInt_gt :: "int \<Rightarrow> 'd item_val \<Rightarrow> bool ires" where
  "ItemInt_gt a (ItemInt b) = Inr (a > b)"
| "ItemInt_gt a _ = Inl ITEM_DATA_EXCEPTION_UNDEFINED_OPERATION"

fun ItemInt_lt :: "int \<Rightarrow> 'd item_val \<Rightarrow> bool ires" where
  "ItemInt_lt a (ItemInt b) = Inr (a < b)"
| "ItemInt_lt a (ItemUint64 b) = Inr (if a < 0 then True else word_of_int a < b)"
| "ItemInt_lt a _ = Inl ITEM_DATA_EXCEPTION_UNDEFINED_OPERATION"

fun ItemInt_ge :: "int \<Rightarrow> 'd item_val \<Rightarrow> bool ires" where
  "ItemInt_ge a (ItemInt b) = Inr (a \<ge> b)"
| "ItemInt_ge a _ = Inl ITEM_DATA_EXCEPTION_UNDEFINED_OPERATION"

fun ItemInt_le :: "int \<Rightarrow> 'd item_val \<Rightarrow> bool ires" where
  "ItemInt_le a (ItemInt b) = Inr (a \<le> b)"
| "ItemInt_le a _ = Inl ITEM_DATA_EXCEPTION_UNDEFINED_OPERATION"

fun ItemUint64_gt :: "u64 \<Rightarrow> 'd item_val \<Rightarrow> bool ires" where
  "ItemUint64_gt a (ItemUint64 b) = Inr (a > b)"
| "ItemUint64_gt a (ItemInt b) = Inr (if b < 0 then True else a > word_of_int b)"
| "ItemUint64_gt a _ = Inl ITEM_DATA_EXCEPTION_UNDEFINED_OPERATION"

fun ItemUint64_lt :: "u64 \<Rightarrow> 'd item_val \<Rightarrow> bool ires" where
  "ItemUint64_lt a (ItemUint64 b) = Inr (a < b)"
| "ItemUint64_lt a (ItemInt b) = Inr (if b < 0 then True else a < word_of_int b)"
| "ItemUint64_lt a _ = Inl ITEM_DATA_EXCEPTION_UNDEFINED_OPERATION"

fun ItemUint64_ge :: "u64 \<Rightarrow> 'd item_val \<Rightarrow> bool ires" where
  "ItemUint64_ge a (ItemUint64 b) = Inr (a \<ge> b)"
| "ItemUint64_ge a (ItemInt b) = Inr (if b < 0 then True else a \<ge> word_of_int b)"
| "ItemUint64_ge a _ = Inl ITEM_DATA_EXCEPTION_UNDEFINED_OPERATION"

fun ItemUint64_le :: "u64 \<Rightarrow> 'd item_val \<Rightarrow> bool ires" where
  "ItemUint64_le a (ItemUint64 b) = Inr (a \<le> b)"
| "ItemUint64_le a (ItemInt b) = Inr (if b < 0 then False else a \<le> word_of_int b)"
| "ItemUint64_le a _ = Inl ITEM_DATA_EXCEPTION_UNDEFINED_OPERATION"

fun ItemUint64_eq :: "u64 \<Rightarrow> 'd item_val \<Rightarrow> bool ires" where
  "ItemUint64_eq a (ItemUint64 b) = Inr (a = b)"
| "ItemUint64_eq a (ItemInt b) = Inr (if b < 0 then False else a = word_of_int b)"
| "ItemUint64_eq a _ = Inl ITEM_DATA_EXCEPTION_UNDEFINED_OPERATION"

text \<open>The virtual operators.\<close>

fun val_gt :: "'d double_ops \<Rightarrow> 'd item_val \<Rightarrow> 'd item_val \<Rightarrow> bool ires" where
  "val_gt ops (ItemInt a) r = ItemInt_gt a r"
| "val_gt ops (ItemUint64 a) r = ItemUint64_gt a r"
| "val_gt ops l r = generic_gt ops l r"

fun val_lt :: "'d double_ops \<Rightarrow> 'd item_val \<Rightarrow> 'd item_val \<Rightarrow> bool ires" where
  "val_lt ops (ItemInt a) r = ItemInt_lt a r"
| "val_lt ops (ItemUint64 a) r = ItemUint64_lt a r"
| "val_lt ops l r = generic_lt ops l r"

fun val_ge :: "'d item_val \<Rightarrow> 'd item_val \<Rightarrow> bool ires" where
  "val_ge (ItemInt a) r = ItemInt_ge a r"
| "val_ge (ItemUint64 a) r = ItemUint64_ge a r"
| "val_ge _ _ = generic_ge"

fun val_le :: "'d item_val \<Rightarrow> 'd item_val \<Rightarrow> bool ires" where
  "val_le (ItemInt a) r = ItemInt_le a r"
| "val_le (ItemUint64 a) r = ItemUint64_le a r"
| "val_le _ _ = generic_le"

fun val_eq :: "'d double_ops \<Rightarrow> 'd item_val \<Rightarrow> 'd item_val \<Rightarrow> bool ires" where
  "val_eq ops (ItemUint64 a) r = ItemUint64_eq a r"
| "val_eq ops l r = generic_eq ops l r"

definition val_ne :: "'d double_ops \<Rightarrow> 'd item_val \<Rightarrow> 'd item_val \<Rightarrow> bool ires" where
  "val_ne ops l r = bindR (val_eq ops l r) (\<lambda>b. Inr (\<not> b))"

section \<open>Properties\<close>

text \<open>The number a numeric value stands for.\<close>

fun val_num :: "'d item_val \<Rightarrow> int option" where
  "val_num (ItemInt i) = Some i"
| "val_num (ItemUint64 u) = Some (uint u)"
| "val_num _ = None"

lemma word_of_nonneg_int: "in_int i \<Longrightarrow> \<not> i < 0 \<Longrightarrow> uint (word_of_int i :: u64) = i"
  by (simp add: in_int_def uint_word_of_int_eq take_bit_int_eq_self_iff)

lemma uint_nonneg_iff: "(b::int) < 0 \<Longrightarrow> b < uint (u::u64)" "(b::int) < 0 \<Longrightarrow> \<not> uint (u::u64) \<le> b"
  "(b::int) < 0 \<Longrightarrow> uint (u::u64) \<noteq> b" "(b::int) < 0 \<Longrightarrow> b \<le> uint (u::u64)"
  using uint_ge_0 [of u] by linarith+

lemma word_cmp_uint: "(u < v) = (uint u < uint v)" "(u \<le> v) = (uint u \<le> uint v)" "(u = v) = (uint u = uint v)"
  for u v :: u64
  by (simp_all add: word_less_def word_le_def word_uint_eq_iff)

text \<open>
  Whatever the kinds of two integers, every comparison that returns tells how the numbers they
  stand for compare; the one exception is \<open>operator<\<close> of an unsigned value with a negative
  one, which the hypothesis leaves out.
\<close>

lemma item_comparisons_sound:
  assumes "val_wf l" "val_wf r" "val_num l = Some a" "val_num r = Some b"
  shows "(\<forall>x. val_gt ops l r = Inr x \<longrightarrow> x = (a > b))
    \<and> (\<forall>x. val_ge l r = Inr x \<longrightarrow> x = (a \<ge> b))
    \<and> (\<forall>x. val_le l r = Inr x \<longrightarrow> x = (a \<le> b))
    \<and> (\<forall>x. val_eq ops l r = Inr x \<longrightarrow> x = (a = b))
    \<and> (\<forall>x. val_type l = ITEM_TYPE_INT \<or> 0 \<le> b \<longrightarrow> val_lt ops l r = Inr x \<longrightarrow> x = (a < b))"
  using assms
  by (cases l; cases r)
     (auto simp: word_of_nonneg_int uint_nonneg_iff word_cmp_uint split: if_splits)

lemma item_comparisons_sound_witness:
  "\<exists>x. val_ge (ItemUint64 5 :: unit item_val) (ItemInt 3) = Inr x \<and> x = ((5 :: int) \<ge> 3)"
proof -
  obtain x where x: "val_ge (ItemUint64 5 :: unit item_val) (ItemInt 3) = Inr x" by simp
  have "val_wf (ItemInt 3 :: unit item_val)" by (simp add: in_int_def)
  then have "x = ((5 :: int) \<ge> 3)"
    using item_comparisons_sound [of "ItemUint64 5 :: unit item_val" "ItemInt 3" 5 3] x by fastforce
  with x show ?thesis by blast
qed

text \<open>
  An unsigned value and a negative integer compare both less and greater.
\<close>

lemma item_unsigned_negative:
  "val_lt ops (ItemUint64 u) (ItemInt (-1)) = Inr True \<and> val_gt ops (ItemUint64 u) (ItemInt (-1)) = Inr True"
  by simp

end
