(* ===== verification/Db_Agent.thy ===== *)
theory Db_Agent
  imports Db_Schema Item_Data Sql_Term
begin

text \<open>
  The part of the database layer that does not depend on the engine (src/server/src/DBAgent.cc):
  the text of statements, the maintenance of indexes, and transactions. What a concrete agent
  overrides, and what the environment provides (local time, the printing of doubles), is an
  argument. The locale \<open>transactional\<close> states what an engine's \<open>begin\<close>, \<open>commit\<close> and \<open>rollback\<close>
  promise, and \<open>runTransaction\<close> is shown to be atomic over it.
\<close>

section \<open>Values\<close>

record 'd value_env =
  ve_showDouble :: "nat \<Rightarrow> 'd \<Rightarrow> string"
  ve_time :: int
  ve_localtime :: "int \<Rightarrow> int \<times> int \<times> int \<times> int \<times> int \<times> int"

definition CURR_DATETIME :: int where
  "CURR_DATETIME = -1"

text \<open>The conversion \<open>%0wd\<close>.\<close>

definition zero_pad :: "nat \<Rightarrow> int \<Rightarrow> string" where
  "zero_pad w i =
     (if i < 0 then let s = dec_nat (nat (- i)) in CHR ''-'' # replicate (w - 1 - length s) (CHR ''0'') @ s
      else let s = dec_nat (nat i) in replicate (w - length s) (CHR ''0'') @ s)"

definition makeDatetimeString :: "'d value_env \<Rightarrow> int \<Rightarrow> string" where
  "makeDatetimeString env datetime =
     (let clock = (if datetime = CURR_DATETIME then ve_time env else datetime)
      in case ve_localtime env clock of (y, mo, d, h, mi, s) \<Rightarrow>
        [quot] @ zero_pad 4 (y + 1900) @ ''-'' @ zero_pad 2 (mo + 1) @ ''-'' @ zero_pad 2 d @ '' ''
        @ zero_pad 2 h @ '':'' @ zero_pad 2 mi @ '':'' @ zero_pad 2 s @ [quot])"

fun as_res :: "'a ires \<Rightarrow> 'a res" where
  "as_res (Inr x) = Inr x"
| "as_res (Inl ItemUndefinedBehaviour) = Inl UndefinedBehaviour"
| "as_res (Inl _) = Inl HatoholException"

definition getColumnValueString :: "'d value_env \<Rightarrow> column_def \<Rightarrow> 'd item_data \<Rightarrow> string res" where
  "getColumnValueString env columnDef itemData =
     (if it_null itemData then Inr ''NULL''
      else case cd_type columnDef of
        SQL_COLUMN_TYPE_INT \<Rightarrow> bindR (as_res (cast_int (it_val itemData))) (\<lambda>i. Inr (dec_int i))
      | SQL_COLUMN_TYPE_BIGUINT \<Rightarrow>
          bindR (as_res (cast_uint64 (it_val itemData))) (\<lambda>u. Inr (dec_nat (unat u)))
      | SQL_COLUMN_TYPE_VARCHAR \<Rightarrow> bindR (as_res (cast_string (it_val itemData))) (\<lambda>s. Inr (enc_str s))
      | SQL_COLUMN_TYPE_CHAR \<Rightarrow> bindR (as_res (cast_string (it_val itemData))) (\<lambda>s. Inr (enc_str s))
      | SQL_COLUMN_TYPE_TEXT \<Rightarrow> bindR (as_res (cast_string (it_val itemData))) (\<lambda>s. Inr (enc_str s))
      | SQL_COLUMN_TYPE_DOUBLE \<Rightarrow>
          bindR (as_res (cast_double (it_val itemData)))
            (\<lambda>d. Inr (ve_showDouble env (cd_decFracLength columnDef) d))
      | SQL_COLUMN_TYPE_DATETIME \<Rightarrow>
          bindR (as_res (cast_int (it_val itemData))) (\<lambda>i. Inr (makeDatetimeString env i))
      | NUM_SQL_COLUMN_TYPES \<Rightarrow> Inr [])"

section \<open>Statements\<close>

record 'd update_arg =
  ua_tableProfile :: table_profile
  ua_condition :: string
  ua_rows :: "(nat \<times> 'd item_data) list"

record delete_arg =
  da_tableProfile :: table_profile
  da_condition :: string

record select_arg =
  sa_tableProfile :: table_profile
  sa_columnIndexes :: "nat list"

record select_ex_arg =
  sx_tableProfile :: table_profile
  sx_statements :: "string list"
  sx_columnTypes :: "SQLColumnType list"
  sx_condition :: string
  sx_orderBy :: string
  sx_groupBy :: string
  sx_limit :: nat
  sx_offset :: nat
  sx_tableField :: string
  sx_useFullName :: bool
  sx_useDistinct :: bool

definition mk_select_ex_arg :: "table_profile \<Rightarrow> select_ex_arg" where
  "mk_select_ex_arg profile =
     \<lparr>sx_tableProfile = profile, sx_statements = [], sx_columnTypes = [], sx_condition = [],
      sx_orderBy = [], sx_groupBy = [], sx_limit = 0, sx_offset = 0, sx_tableField = [],
      sx_useFullName = False, sx_useDistinct = False\<rparr>"

definition sx_add_column :: "select_ex_arg \<Rightarrow> nat \<Rightarrow> select_ex_arg res" where
  "sx_add_column arg columnIndex =
     bindR (if sx_useFullName arg then getFullColumnName (sx_tableProfile arg) columnIndex
            else getColumnName (sx_tableProfile arg) columnIndex) (\<lambda>statement.
       Inr (arg\<lparr>sx_statements := sx_statements arg @ [statement],
                sx_columnTypes := sx_columnTypes arg @ [cd_type (tp_columnDefs (sx_tableProfile arg) ! columnIndex)]\<rparr>))"

definition sx_add_statement :: "select_ex_arg \<Rightarrow> string \<Rightarrow> SQLColumnType \<Rightarrow> select_ex_arg" where
  "sx_add_statement arg statement columnType =
     arg\<lparr>sx_statements := sx_statements arg @ [statement], sx_columnTypes := sx_columnTypes arg @ [columnType]\<rparr>"

definition ua_add :: "'d update_arg \<Rightarrow> nat \<Rightarrow> 'd item_val \<Rightarrow> bool \<Rightarrow> 'd update_arg" where
  "ua_add arg columnIndex val null =
     arg\<lparr>ua_rows := ua_rows arg @ [(columnIndex, mk_item SYSTEM_ITEM_ID_ANONYMOUS val null)]\<rparr>"

text \<open>The loops over the columns: the counter tells whether the column is the last one.\<close>

fun select_columns_loop :: "table_profile \<Rightarrow> nat list \<Rightarrow> string \<Rightarrow> string res" where
  "select_columns_loop tp [] sql = Inr sql"
| "select_columns_loop tp (idx # is) sql =
     bindR (getColumnName tp idx) (\<lambda>name.
       select_columns_loop tp is (sql @ name @ '' '' @ (if is \<noteq> [] then '','' else [])))"

definition makeSelectStatement :: "select_arg \<Rightarrow> string res" where
  "makeSelectStatement selectArg =
     bindR (select_columns_loop (sa_tableProfile selectArg) (sa_columnIndexes selectArg) ''SELECT '')
       (\<lambda>sql. Inr (sql @ ''FROM '' @ tp_name (sa_tableProfile selectArg)))"

fun select_statements_loop :: "string list \<Rightarrow> string \<Rightarrow> string" where
  "select_statements_loop [] sql = sql"
| "select_statements_loop (st # sts) sql =
     select_statements_loop sts (sql @ st @ (if sts \<noteq> [] then '','' else []))"

definition makeSelectStatementEx :: "select_ex_arg \<Rightarrow> string res" where
  "makeSelectStatementEx arg =
     (let numColumns = length (sx_statements arg)
      in if \<not> numColumns > 0 then Inl HatoholException
         else if numColumns \<noteq> length (sx_columnTypes arg) then Inl HatoholException
         else
           let sql = ''SELECT '';
               sql = (if sx_useDistinct arg then sql @ ''DISTINCT '' else sql);
               sql = select_statements_loop (sx_statements arg) sql;
               sql = sql @ '' FROM '';
               sql = (if sx_tableField arg \<noteq> [] then sql @ sx_tableField arg
                      else sql @ tp_name (sx_tableProfile arg));
               sql = (if sx_condition arg \<noteq> [] then sql @ '' WHERE '' @ sx_condition arg else sql);
               sql = (if sx_groupBy arg \<noteq> [] then sql @ '' GROUP BY '' @ sx_groupBy arg else sql);
               sql = (if sx_orderBy arg \<noteq> [] then sql @ '' ORDER BY '' @ sx_orderBy arg else sql);
               sql = (if sx_limit arg > 0 then sql @ '' LIMIT '' @ dec_nat (sx_limit arg) @ '' '' else sql);
               sql = (if sx_offset arg > 0 then sql @ '' OFFSET '' @ dec_nat (sx_offset arg) @ '' '' else sql)
           in Inr sql)"

fun update_rows_loop :: "'d value_env \<Rightarrow> table_profile \<Rightarrow> (nat \<times> 'd item_data) list \<Rightarrow> string \<Rightarrow> string res" where
  "update_rows_loop env tp [] statement = Inr statement"
| "update_rows_loop env tp ((columnIndex, data) # rows) statement =
     (if \<not> columnIndex < length (tp_columnDefs tp) then Inl UndefinedBehaviour
      else
        let columnDef = tp_columnDefs tp ! columnIndex
        in bindR (getColumnValueString env columnDef data) (\<lambda>valueStr.
             update_rows_loop env tp rows
               (statement @ cd_columnName columnDef @ ''='' @ cstr valueStr
                @ (if rows \<noteq> [] then '','' else []))))"

definition makeUpdateStatement :: "'d value_env \<Rightarrow> 'd update_arg \<Rightarrow> string res" where
  "makeUpdateStatement env arg =
     bindR (update_rows_loop env (ua_tableProfile arg) (ua_rows arg)
              (''UPDATE '' @ tp_name (ua_tableProfile arg) @ '' SET '')) (\<lambda>statement.
       Inr (if ua_condition arg \<noteq> [] then statement @ '' WHERE '' @ cstr (ua_condition arg) else statement))"

definition makeDeleteStatement :: "delete_arg \<Rightarrow> string" where
  "makeDeleteStatement arg =
     ''DELETE FROM '' @ tp_name (da_tableProfile arg)
     @ (if da_condition arg \<noteq> [] then '' WHERE '' @ da_condition arg else [])"

definition makeRenameTableStatement :: "string \<Rightarrow> string \<Rightarrow> string" where
  "makeRenameTableStatement srcName destName =
     ''ALTER TABLE '' @ cstr srcName @ '' RENAME TO '' @ cstr destName"

definition AUTO_INCREMENT_VALUE :: int where
  "AUTO_INCREMENT_VALUE = 0"

definition isAutoIncrementValue :: "'d item_data \<Rightarrow> bool" where
  "isAutoIncrementValue item =
     (case it_val item of
        ItemInt val \<Rightarrow> val = AUTO_INCREMENT_VALUE
      | ItemUint64 val \<Rightarrow> val = 0
      | _ \<Rightarrow> False)"

text \<open>
  \<open>updateIfExistElseInsert\<close> asks the agent whether a record exists and then issues one of two
  calls; the result is that answer and the call. The condition is built from the printed value,
  without the encoding of terms.
\<close>

datatype 'd upsert_call = UpsertUpdate "'d update_arg" | UpsertInsert "'d item_data list"

definition updateIfExistElseInsert ::
  "'d double_ops \<Rightarrow> (string \<Rightarrow> string \<Rightarrow> bool) \<Rightarrow> 'd item_data list \<Rightarrow> table_profile \<Rightarrow> nat
    \<Rightarrow> (bool \<times> 'd upsert_call) res" where
  "updateIfExistElseInsert ops isRecordExisting itemGroup tp targetIndex =
     (if \<not> targetIndex < length itemGroup then Inl HatoholException
      else if tp_numColumns tp \<noteq> length itemGroup then Inl HatoholException
      else
        let condition = cd_columnName (tp_columnDefs tp ! targetIndex) @ ''=''
                          @ cstr (val_getString ops (it_val (itemGroup ! targetIndex)));
            exist = isRecordExisting (tp_name tp) condition
        in if exist then
             Inr (exist, UpsertUpdate
               \<lparr>ua_tableProfile = tp, ua_condition = condition,
                ua_rows = map (\<lambda>i. (i, itemGroup ! i))
                  (filter (\<lambda>i. cd_keyType (tp_columnDefs tp ! i) \<noteq> SQL_KEY_PRI) [0..<tp_numColumns tp])\<rparr>)
           else Inr (exist, UpsertInsert (map (\<lambda>i. itemGroup ! i) [0..<tp_numColumns tp])))"

section \<open>Indexes\<close>

text \<open>The two agents differ in the names of indexes and in a space of the statements.\<close>

datatype agent_kind = AgentSQLite3 | AgentMySQL

record index_info =
  ii_name :: string
  ii_tableName :: string
  ii_sql :: string

definition makeIndexName :: "agent_kind \<Rightarrow> table_profile \<Rightarrow> index_def \<Rightarrow> string" where
  "makeIndexName kind tp indexDef =
     (case kind of
        AgentMySQL \<Rightarrow> ix_name indexDef
      | AgentSQLite3 \<Rightarrow> ''i_'' @ tp_name tp @ ''_'' @ ix_name indexDef)"

text \<open>The array of column indexes is read before the test for its end.\<close>

fun index_columns_loop :: "table_profile \<Rightarrow> nat list \<Rightarrow> string \<Rightarrow> string res" where
  "index_columns_loop tp [] sql = Inl UndefinedBehaviour"
| "index_columns_loop tp (idx # is) sql =
     bindR (getColumnName tp idx) (\<lambda>name.
       if is \<noteq> [] then index_columns_loop tp is (sql @ name @ '','')
       else Inr (sql @ name @ '')''))"

definition makeCreateIndexStatement :: "agent_kind \<Rightarrow> table_profile \<Rightarrow> index_def \<Rightarrow> string res" where
  "makeCreateIndexStatement kind tp indexDef =
     index_columns_loop tp (ix_columnIndexes indexDef)
       (''CREATE '' @ (if ix_isUnique indexDef then ''UNIQUE '' else []) @ ''INDEX ''
        @ (case kind of
             AgentMySQL \<Rightarrow> ix_name indexDef @ '' ON '' @ tp_name tp @ '' (''
           | AgentSQLite3 \<Rightarrow> makeIndexName kind tp indexDef @ '' ON '' @ tp_name tp @ ''(''))"

definition makeDropIndexStatement :: "agent_kind \<Rightarrow> string \<Rightarrow> string \<Rightarrow> string" where
  "makeDropIndexStatement kind name tableName =
     (case kind of
        AgentSQLite3 \<Rightarrow> ''DROP INDEX '' @ name
      | AgentMySQL \<Rightarrow> ''DROP INDEX '' @ name @ '' ON '' @ tableName)"

text \<open>What \<open>fixupIndexes\<close> sends to the database, in order.\<close>

datatype index_cmd =
    CreateIndex string string
  | DropIndex string string

definition createIndex :: "agent_kind \<Rightarrow> table_profile \<Rightarrow> index_def \<Rightarrow> index_cmd res" where
  "createIndex kind tp indexDef =
     bindR (makeCreateIndexStatement kind tp indexDef) (\<lambda>sql. Inr (CreateIndex (makeIndexName kind tp indexDef) sql))"

definition fixup_proc ::
  "agent_kind \<Rightarrow> table_profile \<Rightarrow> index_def \<Rightarrow> (string \<times> index_info) list \<times> index_cmd list
    \<Rightarrow> ((string \<times> index_info) list \<times> index_cmd list) res" where
  "fixup_proc kind tp indexDef = (\<lambda>(existing, cmds).
     let indexName = makeIndexName kind tp indexDef
     in case map_of existing indexName of
          None \<Rightarrow> bindR (createIndex kind tp indexDef) (\<lambda>c. Inr (existing, cmds @ [c]))
        | Some indexInfo \<Rightarrow>
            bindR (makeCreateIndexStatement kind tp indexDef) (\<lambda>reqSql.
            bindR (if reqSql \<noteq> ii_sql indexInfo
                   then bindR (createIndex kind tp indexDef) (\<lambda>c.
                          Inr (cmds @ [DropIndex indexName (tp_name tp), c]))
                   else Inr cmds) (\<lambda>cmds.
              Inr (std_map_erase indexName existing, cmds))))"

definition column_index_defs :: "table_profile \<Rightarrow> index_def list" where
  "column_index_defs tp =
     concat (map (\<lambda>(i, cd).
       case cd_keyType cd of
         SQL_KEY_UNI \<Rightarrow> [\<lparr>ix_name = cd_columnName cd, ix_columnIndexes = [i], ix_isUnique = True\<rparr>]
       | SQL_KEY_IDX \<Rightarrow> [\<lparr>ix_name = cd_columnName cd, ix_columnIndexes = [i], ix_isUnique = False\<rparr>]
       | _ \<Rightarrow> []) (enumerate 0 (tp_columnDefs tp)))"

definition fixupIndexes :: "agent_kind \<Rightarrow> table_profile \<Rightarrow> index_info list \<Rightarrow> index_cmd list res" where
  "fixupIndexes kind tp indexInfoVect =
     (let existing = fold (\<lambda>info m. std_map_put (ii_name info) info m) indexInfoVect []
      in bindR (foldR (fixup_proc kind tp) (column_index_defs tp @ tp_indexDefs tp) (existing, []))
           (\<lambda>(existing, cmds).
             Inr (cmds @ map (\<lambda>(_, info). DropIndex (ii_name info) (ii_tableName info)) existing)))"

subsection \<open>The indexes afterwards\<close>

text \<open>The catalogue of a table: the statement every index was created with.\<close>

fun index_exec :: "index_cmd \<Rightarrow> (string \<rightharpoonup> string) \<Rightarrow> (string \<rightharpoonup> string)" where
  "index_exec (CreateIndex name sql) cat = cat(name \<mapsto> sql)"
| "index_exec (DropIndex name tableName) cat = cat(name := None)"

definition required_indexes :: "agent_kind \<Rightarrow> table_profile \<Rightarrow> (string \<times> string res) list" where
  "required_indexes kind tp =
     map (\<lambda>ix. (makeIndexName kind tp ix, makeCreateIndexStatement kind tp ix))
       (column_index_defs tp @ tp_indexDefs tp)"

text \<open>
  Between two steps of the loop: the indexes that were handled (\<open>dn\<close>) are as required and no longer
  in the map of existing ones, the others are as the map says.
\<close>

definition fixup_inv :: "(string \<times> string) list \<Rightarrow> (string \<times> index_info) list \<Rightarrow> (string \<rightharpoonup> string) \<Rightarrow> bool" where
  "fixup_inv dn existing cat \<longleftrightarrow>
     (\<forall>(n, sql) \<in> set dn. cat n = Some sql \<and> map_of existing n = None)
     \<and> (\<forall>n. n \<notin> fst ` set dn \<longrightarrow> cat n = map_option ii_sql (map_of existing n))
     \<and> (\<forall>(k, i) \<in> set existing. ii_name i = k)"

lemma fixup_proc_step:
  assumes "fixup_inv dn ex (fold index_exec cmds cat)" "makeIndexName kind tp ix \<notin> fst ` set dn"
    and "makeCreateIndexStatement kind tp ix = Inr sql"
  shows "\<exists>ex' cmds'. fixup_proc kind tp ix (ex, cmds) = Inr (ex', cmds')
    \<and> fixup_inv ((makeIndexName kind tp ix, sql) # dn) ex' (fold index_exec cmds' cat)"
proof (cases "map_of ex (makeIndexName kind tp ix)")
  case None
  then show ?thesis
    using assms by (force simp: fixup_proc_def createIndex_def fixup_inv_def)
next
  case (Some info)
  let ?n = "makeIndexName kind tp ix"
  let ?cmds = "if sql \<noteq> ii_sql info then cmds @ [DropIndex ?n (tp_name tp), CreateIndex ?n sql] else cmds"
  have run: "fixup_proc kind tp ix (ex, cmds) = Inr (std_map_erase ?n ex, ?cmds)"
    using Some assms(3) by (simp add: fixup_proc_def createIndex_def Let_def)
  have "fold index_exec cmds cat ?n = Some (ii_sql info)"
    using assms(1,2) Some by (simp add: fixup_inv_def)
  then have "fold index_exec ?cmds cat = (fold index_exec cmds cat)(?n \<mapsto> sql)" by auto
  then have "fixup_inv ((?n, sql) # dn) (std_map_erase ?n ex) (fold index_exec ?cmds cat)"
    using assms(1,2) by (force simp: fixup_inv_def map_of_std_map_erase set_std_map_erase)
  with run show ?thesis by blast
qed

lemma fixup_loop:
  assumes "fixup_inv dn ex (fold index_exec cmds cat)"
    and "distinct (map (makeIndexName kind tp) ixs)"
    and "\<forall>ix \<in> set ixs. makeIndexName kind tp ix \<notin> fst ` set dn"
    and "\<forall>ix \<in> set ixs. makeCreateIndexStatement kind tp ix = Inr (f ix)"
  shows "\<exists>ex' cmds' dn'. foldR (fixup_proc kind tp) ixs (ex, cmds) = Inr (ex', cmds')
    \<and> fixup_inv dn' ex' (fold index_exec cmds' cat)
    \<and> set dn' = set dn \<union> (\<lambda>ix. (makeIndexName kind tp ix, f ix)) ` set ixs"
  using assms
proof (induction ixs arbitrary: dn ex cmds)
  case (Cons ix ixs)
  obtain ex1 cmds1 where run: "fixup_proc kind tp ix (ex, cmds) = Inr (ex1, cmds1)"
    and inv: "fixup_inv ((makeIndexName kind tp ix, f ix) # dn) ex1 (fold index_exec cmds1 cat)"
    using fixup_proc_step [OF Cons.prems(1), of kind tp ix "f ix"] Cons.prems by auto
  have fresh: "\<forall>jx \<in> set ixs. makeIndexName kind tp jx \<notin> fst ` set ((makeIndexName kind tp ix, f ix) # dn)"
    using Cons.prems(2,3) by (auto simp: image_iff)
  obtain ex2 cmds2 dn2 where *: "foldR (fixup_proc kind tp) ixs (ex1, cmds1) = Inr (ex2, cmds2)"
      "fixup_inv dn2 ex2 (fold index_exec cmds2 cat)"
      "set dn2 = set ((makeIndexName kind tp ix, f ix) # dn) \<union> (\<lambda>ix. (makeIndexName kind tp ix, f ix)) ` set ixs"
    using Cons.IH [OF inv] Cons.prems(2,3,4) fresh by force
  with run show ?case by (intro exI [of _ ex2] exI [of _ cmds2] exI [of _ dn2]) auto
qed auto

lemma fold_drops:
  "fold index_exec (map (\<lambda>(_, info). DropIndex (ii_name info) (ii_tableName info)) ex) cat =
     (\<lambda>n. if n \<in> (\<lambda>e. ii_name (snd e)) ` set ex then None else cat n)"
  by (induction ex arbitrary: cat) (auto simp: fun_eq_iff)

lemma existing_map:
  fixes m :: "(string \<times> index_info) list"
  defines "put \<equiv> (\<lambda>infos m. fold (\<lambda>info m. std_map_put (ii_name info) info m) infos m)"
  assumes "std_map_wf m" "\<forall>(k, i) \<in> set m. ii_name i = k"
  shows "std_map_wf (put infos m) \<and> (\<forall>(k, i) \<in> set (put infos m). ii_name i = k)"
  using assms(2,3)
proof (induction infos arbitrary: m)
  case (Cons info infos)
  have "set (std_map_put k v m) \<subseteq> insert (k, v) (set m)" for k :: string and v :: index_info
    by (induction k v m rule: std_map_put.induct) auto
  with Cons.prems have "std_map_wf (std_map_put (ii_name info) info m)"
      "\<forall>(k, i) \<in> set (std_map_put (ii_name info) info m). ii_name i = k"
    by (auto dest: subsetD)
  then show ?case using Cons.IH by (simp add: put_def)
qed (simp add: put_def)


definition ex_indexed :: table_profile where
  "ex_indexed = \<lparr>tp_name = ''t'', tp_columnDefs = [\<lparr>cd_columnName = ''a'', cd_type = SQL_COLUMN_TYPE_INT, cd_columnLength = 11,
     cd_decFracLength = 0, cd_canBeNull = False, cd_keyType = SQL_KEY_IDX, cd_flags = 0, cd_defaultValue = None\<rparr>],
     tp_indexDefs = [], tp_uniqueKeyColumnIndexes = []\<rparr>"

definition ex_indexes :: "index_info list" where
  "ex_indexes = [\<lparr>ii_name = ''old'', ii_tableName = ''t'', ii_sql = ''x''\<rparr>]"


section \<open>Transactions\<close>

datatype trx_exc = TransactionAbort | OtherException

text \<open>
  An agent is what it does to its state; a procedure has an object state of its own, which
  \<open>preproc\<close>, the body and \<open>postproc\<close> may change.
\<close>

record 's db_agent =
  ag_begin :: "'s \<Rightarrow> 's"
  ag_commit :: "'s \<Rightarrow> 's"
  ag_rollback :: "'s \<Rightarrow> 's"

record ('s, 'p) trx_proc =
  tr_preproc :: "'s \<Rightarrow> 'p \<Rightarrow> bool \<times> 's \<times> 'p"
  tr_body :: "'s \<Rightarrow> 'p \<Rightarrow> (trx_exc + unit) \<times> 's \<times> 'p"
  tr_postproc :: "'s \<Rightarrow> 'p \<Rightarrow> 's \<times> 'p"

record 's trx_hooks =
  hk_preAction :: "'s \<Rightarrow> bool \<times> 's"
  hk_postAction :: "'s \<Rightarrow> bool \<times> 's"

definition run_hook :: "('s \<Rightarrow> bool \<times> 's) option \<Rightarrow> 's \<Rightarrow> (trx_exc + unit) \<times> 's" where
  "run_hook hook s =
     (case hook of
        None \<Rightarrow> (Inr (), s)
      | Some h \<Rightarrow> (case h s of (ok, s') \<Rightarrow> (if ok then Inr () else Inl TransactionAbort, s')))"

text \<open>The statements inside the \<open>try\<close>: the first exception skips the rest.\<close>

definition trx_try :: "('s, 'p) trx_proc \<Rightarrow> 's trx_hooks option \<Rightarrow> 's \<Rightarrow> 'p \<Rightarrow> (trx_exc + unit) \<times> 's \<times> 'p" where
  "trx_try proc hooks s p =
     (case run_hook (map_option hk_preAction hooks) s of
        (Inl e, s1) \<Rightarrow> (Inl e, s1, p)
      | (Inr _, s1) \<Rightarrow>
          (case tr_body proc s1 p of
             (Inl e, s2, p2) \<Rightarrow> (Inl e, s2, p2)
           | (Inr _, s2, p2) \<Rightarrow>
               (case run_hook (map_option hk_postAction hooks) s2 of (r, s3) \<Rightarrow> (r, s3, p2))))"

definition runTransaction ::
  "'s db_agent \<Rightarrow> ('s, 'p) trx_proc \<Rightarrow> 's trx_hooks option \<Rightarrow> 's \<Rightarrow> 'p \<Rightarrow> (trx_exc + unit) \<times> 's \<times> 'p" where
  "runTransaction ag proc hooks s p =
     (case tr_preproc proc s p of (go, s0, p0) \<Rightarrow>
        if \<not> go then (Inr (), s0, p0)
        else case trx_try proc hooks (ag_begin ag s0) p0 of
          (Inl TransactionAbort, s1, p1) \<Rightarrow> (Inr (), ag_rollback ag s1, p1)
        | (Inl e, s1, p1) \<Rightarrow> (Inl e, ag_rollback ag s1, p1)
        | (Inr _, s1, p1) \<Rightarrow>
            (case tr_postproc proc (ag_commit ag s1) p1 of (s2, p2) \<Rightarrow> (Inr (), s2, p2)))"


subsection \<open>What engines promise, and atomicity\<close>

text \<open>
  \<open>data\<close> is what queries see, \<open>base\<close> what a rollback would restore, if a transaction is open.
\<close>

locale transactional =
  fixes ag :: "'s db_agent" and data :: "'s \<Rightarrow> 'd" and base :: "'s \<Rightarrow> 'd option"
  assumes begin_data: "data (ag_begin ag s) = data s"
    and begin_base: "base (ag_begin ag s) = Some (data s)"
    and commit_data: "data (ag_commit ag s) = data s"
    and commit_base: "base (ag_commit ag s) = None"
    and rollback_data: "base s = Some d \<Longrightarrow> data (ag_rollback ag s) = d"
    and rollback_base: "base (ag_rollback ag s) = None"
begin

text \<open>The statements of a procedure and of the hooks leave the transaction open.\<close>

definition stays_inside :: "('s, 'p) trx_proc \<Rightarrow> 's trx_hooks option \<Rightarrow> bool" where
  "stays_inside proc hooks \<longleftrightarrow>
     (\<forall>s p r s' p'. tr_body proc s p = (r, s', p') \<longrightarrow> base s' = base s)
     \<and> (\<forall>h s ok s'. hooks = Some h \<longrightarrow> hk_preAction h s = (ok, s') \<longrightarrow> base s' = base s)
     \<and> (\<forall>h s ok s'. hooks = Some h \<longrightarrow> hk_postAction h s = (ok, s') \<longrightarrow> base s' = base s)"

lemma run_hook_base:
  assumes "stays_inside proc hooks"
  shows "run_hook (map_option hk_preAction hooks) s = (r, s') \<Longrightarrow> base s' = base s"
    "run_hook (map_option hk_postAction hooks) s = (r, s') \<Longrightarrow> base s' = base s"
  using assms by (cases hooks; auto simp: run_hook_def stays_inside_def split: prod.splits)+

lemma trx_try_base:
  assumes "stays_inside proc hooks" and "trx_try proc hooks s p = (r, s', p')"
  shows "base s' = base s"
proof -
  have body: "tr_body proc s p = (r, s', p') \<Longrightarrow> base s' = base s" for s p r s' p'
    using assms(1) unfolding stays_inside_def by metis
  obtain r1 s1 where 1: "run_hook (map_option hk_preAction hooks) s = (r1, s1)" by fastforce
  obtain r2 s2 p2 where 2: "tr_body proc s1 p = (r2, s2, p2)" using prod_cases3 by blast
  obtain r3 s3 where 3: "run_hook (map_option hk_postAction hooks) s2 = (r3, s3)" by fastforce
  note bases = run_hook_base(1) [OF assms(1) 1] body [OF 2] run_hook_base(2) [OF assms(1) 3]
  show ?thesis
    using assms(2) bases by (cases r1; cases r2) (simp_all add: trx_try_def 1 2 3)
qed

lemma transaction_atomic:
  assumes "stays_inside proc hooks" and "tr_preproc proc s p = (True, s0, p0)"
    and "trx_try proc hooks (ag_begin ag s0) p0 = (Inl e, s1, p1)"
  shows "\<exists>s'. runTransaction ag proc hooks s p =
      ((if e = TransactionAbort then Inr () else Inl e), s', p1) \<and> data s' = data s0 \<and> base s' = None"
proof -
  have "base s1 = Some (data s0)" using trx_try_base [OF assms(1,3)] by (simp add: begin_base)
  then have "data (ag_rollback ag s1) = data s0 \<and> base (ag_rollback ag s1) = None"
    by (simp add: rollback_data rollback_base)
  then show ?thesis using assms(2,3) by (cases e) (simp_all add: runTransaction_def)
qed

lemma transaction_commits:
  assumes "tr_preproc proc s p = (True, s0, p0)"
    and "trx_try proc hooks (ag_begin ag s0) p0 = (Inr u, s1, p1)"
  shows "\<exists>s2. runTransaction ag proc hooks s p =
      (Inr (), fst (tr_postproc proc s2 p1), snd (tr_postproc proc s2 p1))
      \<and> data s2 = data s1 \<and> base s2 = None"
  using assms by (auto simp: runTransaction_def commit_data commit_base split: prod.splits)

end

text \<open>A database in memory with one level of transactions.\<close>

record 'd db_state =
  st_data :: 'd
  st_base :: "'d option"

definition mem_agent :: "'d db_state db_agent" where
  "mem_agent =
     \<lparr>ag_begin = (\<lambda>s. s\<lparr>st_base := Some (st_data s)\<rparr>),
      ag_commit = (\<lambda>s. s\<lparr>st_base := None\<rparr>),
      ag_rollback = (\<lambda>s. case st_base s of None \<Rightarrow> s | Some d \<Rightarrow> s\<lparr>st_data := d, st_base := None\<rparr>)\<rparr>"

interpretation mem: transactional mem_agent st_data st_base
  by unfold_locales (auto simp: mem_agent_def split: option.splits)

section \<open>Properties of statements\<close>

lemma select_columns_join:
  "(\<forall>i \<in> set is. i < tp_numColumns tp) \<Longrightarrow>
     select_columns_loop tp is sql =
       Inr (sql @ join_with '','' (map (\<lambda>i. cd_columnName (tp_columnDefs tp ! i) @ '' '') is))"
proof (induction "is" arbitrary: sql)
  case (Cons i "is")
  then show ?case by (auto simp: getColumnName_def tp_numColumns_def join_with_Cons)
qed simp

lemma select_statements_join: "select_statements_loop sts sql = sql @ join_with '','' sts"
proof (induction sts arbitrary: sql)
  case (Cons st sts)
  then show ?case by (auto simp: join_with_Cons)
qed simp

lemma update_rows_join:
  "(\<forall>r \<in> set rows. fst r < tp_numColumns tp
      \<and> getColumnValueString env (tp_columnDefs tp ! fst r) (snd r) = Inr (v r)) \<Longrightarrow>
     update_rows_loop env tp rows sql =
       Inr (sql @ join_with '','' (map (\<lambda>r. cd_columnName (tp_columnDefs tp ! fst r) @ ''='' @ cstr (v r)) rows))"
proof (induction rows arbitrary: sql)
  case (Cons r rows)
  then show ?case by (cases r) (auto simp: tp_numColumns_def Let_def join_with_Cons)
qed simp

end
