(* ===== verification/Db_Tables.thy ===== *)
theory Db_Tables
  imports Db_Agent Sql_Reader
begin

unbundle bit_operations_syntax

text \<open>
  Versioned groups of tables (src/server/src/DBTables.h, DBTables.cc): packing of version
  numbers, and the set-up that every \<open>DBTables\<close> object runs once in a transaction: it records or
  upgrades the version, creates missing tables, adjusts indexes and initialises the tables it
  created. The engine's evaluation of conditions (\<open>matches\<close>) and the kind of agent are arguments;
  the updater and the initialisers are functions on the rest of the database.
\<close>

section \<open>Versions\<close>

record version =
  vendorVer :: int
  majorVer :: int
  minorVer :: int

definition MINOR_BITS :: nat where "MINOR_BITS = 12"
definition MAJOR_BITS :: nat where "MAJOR_BITS = 8"
definition VENDOR_MASK :: int where "VENDOR_MASK = 0x0ff00000"
definition MAJOR_MASK :: int where "MAJOR_MASK = 0x000ff000"
definition MINOR_MASK :: int where "MINOR_MASK = 0x00000fff"

definition getPackedVer :: "int \<Rightarrow> int \<Rightarrow> int \<Rightarrow> int" where
  "getPackedVer vendor major minor =
     (let shiftBits = 0;
          ver = MINOR_MASK AND minor;
          shiftBits = shiftBits + MINOR_BITS;
          ver = ver + (MAJOR_MASK AND push_bit shiftBits major);
          shiftBits = shiftBits + MAJOR_BITS;
          ver = ver + (VENDOR_MASK AND push_bit shiftBits vendor)
      in ver)"

definition ver_getPackedVer :: "version \<Rightarrow> int" where
  "ver_getPackedVer v = getPackedVer (vendorVer v) (majorVer v) (minorVer v)"

definition setPackedVer :: "int \<Rightarrow> version" where
  "setPackedVer packedVer =
     \<lparr>vendorVer = drop_bit (MINOR_BITS + MAJOR_BITS) (VENDOR_MASK AND packedVer),
      majorVer = drop_bit MINOR_BITS (MAJOR_MASK AND packedVer),
      minorVer = MINOR_MASK AND packedVer\<rparr>"

definition ver_toString :: "version \<Rightarrow> string" where
  "ver_toString v = zero_pad 2 (majorVer v) @ ''.'' @ zero_pad 2 (minorVer v) @ '' ['' @ zero_pad 2 (vendorVer v) @ '']''"

section \<open>Set-up\<close>

record 'x setup_db =
  su_versions :: "(int \<times> int) list"
  su_tables :: "string list"
  su_indexes :: "string \<Rightarrow> index_info list"
  su_data :: 'x

record 'x setup_info =
  si_tablesId :: int
  si_version :: int
  si_tableInfos :: "(table_profile \<times> ('x \<Rightarrow> 'x) option) list"
  si_updater :: "(version \<Rightarrow> 'x \<Rightarrow> bool \<times> 'x) option"
  si_initialized :: bool

definition version_row :: "int \<times> int \<Rightarrow> sql_row" where
  "version_row r = (\<lambda>_. VStr [])(''tables_id'' := VInt (fst r), ''version'' := VInt (snd r))"

definition tables_id_cond :: "'x setup_info \<Rightarrow> string" where
  "tables_id_cond si = ''tables_id='' @ dec_int (si_tablesId si)"

definition getPackedTablesVersion :: "(string \<Rightarrow> sql_row \<Rightarrow> bool) \<Rightarrow> 'x setup_info \<Rightarrow> 'x setup_db \<Rightarrow> int res" where
  "getPackedTablesVersion matches si db =
     (case filter (\<lambda>r. matches (tables_id_cond si) (version_row r)) (su_versions db) of
        [r] \<Rightarrow> Inr (snd r)
      | _ \<Rightarrow> Inl HatoholException)"

definition getTablesVersion :: "(string \<Rightarrow> sql_row \<Rightarrow> bool) \<Rightarrow> 'x setup_info \<Rightarrow> 'x setup_db \<Rightarrow> version option res" where
  "getTablesVersion matches si db =
     (if filter (\<lambda>r. matches (tables_id_cond si) (version_row r)) (su_versions db) = [] then Inr None
      else bindR (getPackedTablesVersion matches si db) (\<lambda>packedVer. Inr (Some (setPackedVer packedVer))))"

definition insertTablesVersion :: "'x setup_info \<Rightarrow> 'x setup_db \<Rightarrow> 'x setup_db" where
  "insertTablesVersion si db = db\<lparr>su_versions := su_versions db @ [(si_tablesId si, si_version si)]\<rparr>"

definition setTablesVersion :: "(string \<Rightarrow> sql_row \<Rightarrow> bool) \<Rightarrow> 'x setup_info \<Rightarrow> 'x setup_db \<Rightarrow> 'x setup_db" where
  "setTablesVersion matches si db =
     db\<lparr>su_versions := map (\<lambda>r. if matches (tables_id_cond si) (version_row r)
          then (fst r, si_version si) else r) (su_versions db)\<rparr>"

definition updateTablesVersionIfNeeded ::
  "(string \<Rightarrow> sql_row \<Rightarrow> bool) \<Rightarrow> 'x setup_info \<Rightarrow> version \<Rightarrow> 'x setup_db \<Rightarrow> 'x setup_db res" where
  "updateTablesVersionIfNeeded matches si versionInDB db =
     (if ver_getPackedVer versionInDB = si_version si then Inr db
      else
        let versionInProg = setPackedVer (si_version si)
        in if vendorVer versionInDB \<noteq> vendorVer versionInProg then Inl HatoholException
           else if majorVer versionInDB \<noteq> majorVer versionInProg then Inl HatoholException
           else case si_updater si of
             None \<Rightarrow> Inl HatoholException
           | Some updater \<Rightarrow>
               (case updater versionInDB (su_data db) of (succeeded, d) \<Rightarrow>
                  if \<not> succeeded then Inl HatoholException
                  else Inr (setTablesVersion matches si (db\<lparr>su_data := d\<rparr>))))"

text \<open>The three loops: create what is missing, adjust the indexes of every table, initialise.\<close>

definition create_step ::
  "table_profile \<times> ('x \<Rightarrow> 'x) option \<Rightarrow> 'x setup_db \<times> (table_profile \<times> ('x \<Rightarrow> 'x) option) list
    \<Rightarrow> 'x setup_db \<times> (table_profile \<times> ('x \<Rightarrow> 'x) option) list" where
  "create_step tableInfo = (\<lambda>(db, created).
     if tp_name (fst tableInfo) \<in> set (su_tables db) then (db, created)
     else (db\<lparr>su_tables := su_tables db @ [tp_name (fst tableInfo)]\<rparr>, created @ [tableInfo]))"

fun index_apply :: "string \<Rightarrow> index_cmd \<Rightarrow> index_info list \<Rightarrow> index_info list" where
  "index_apply table (CreateIndex name sql) infos = infos @ [\<lparr>ii_name = name, ii_tableName = table, ii_sql = sql\<rparr>]"
| "index_apply table (DropIndex name tableName) infos = filter (\<lambda>i. ii_name i \<noteq> name) infos"

definition index_step :: "agent_kind \<Rightarrow> table_profile \<times> ('x \<Rightarrow> 'x) option \<Rightarrow> 'x setup_db \<Rightarrow> 'x setup_db res" where
  "index_step kind tableInfo db =
     (let tp = fst tableInfo; infos = su_indexes db (tp_name tp)
      in bindR (fixupIndexes kind tp infos) (\<lambda>cmds.
           Inr (db\<lparr>su_indexes := (su_indexes db)(tp_name tp := fold (index_apply (tp_name tp)) cmds infos)\<rparr>)))"

definition init_step :: "table_profile \<times> ('x \<Rightarrow> 'x) option \<Rightarrow> 'x setup_db \<Rightarrow> 'x setup_db" where
  "init_step tableInfo db =
     (case snd tableInfo of None \<Rightarrow> db | Some initializer \<Rightarrow> db\<lparr>su_data := initializer (su_data db)\<rparr>)"

definition setupTables ::
  "(string \<Rightarrow> sql_row \<Rightarrow> bool) \<Rightarrow> agent_kind \<Rightarrow> 'x setup_info \<Rightarrow> 'x setup_db \<Rightarrow> 'x setup_db res" where
  "setupTables matches kind si db =
     bindR (getTablesVersion matches si db) (\<lambda>ver.
     bindR (case ver of
              None \<Rightarrow> Inr (insertTablesVersion si db)
            | Some v \<Rightarrow> updateTablesVersionIfNeeded matches si v db) (\<lambda>db.
     let (db, created) = fold create_step (si_tableInfos si) (db, [])
     in bindR (foldR (index_step kind) (si_tableInfos si) db) (\<lambda>db.
          Inr (fold init_step created db))))"

text \<open>
  The procedure of the set-up transaction. What an exception leaves behind does not matter, because
  the transaction is rolled back.
\<close>

definition setup_trx ::
  "(string \<Rightarrow> sql_row \<Rightarrow> bool) \<Rightarrow> agent_kind \<Rightarrow> 'x setup_info \<Rightarrow> ('x setup_db db_state, unit) trx_proc" where
  "setup_trx matches kind si =
     \<lparr>tr_preproc = (\<lambda>s x. (True, s, x)),
      tr_body = (\<lambda>s x.
        case setupTables matches kind si (st_data s) of
          Inl _ \<Rightarrow> (Inl OtherException, s, x)
        | Inr db \<Rightarrow> (Inr (), s\<lparr>st_data := db\<rparr>, x)),
      tr_postproc = (\<lambda>s x. (s, x))\<rparr>"

definition mk_DBTables ::
  "(string \<Rightarrow> sql_row \<Rightarrow> bool) \<Rightarrow> agent_kind \<Rightarrow> 'x setup_info \<Rightarrow> 'x setup_db db_state
    \<Rightarrow> (trx_exc + unit) \<times> 'x setup_info \<times> 'x setup_db db_state" where
  "mk_DBTables matches kind si s =
     (if si_initialized si then (Inr (), si, s)
      else case runTransaction mem_agent (setup_trx matches kind si) None s () of
        (Inl e, s', _) \<Rightarrow> (Inl e, si, s')
      | (Inr u, s', _) \<Rightarrow> (Inr u, si\<lparr>si_initialized := True\<rparr>, s'))"

definition checkMajorVersionMain :: "(string \<Rightarrow> sql_row \<Rightarrow> bool) \<Rightarrow> 'x setup_info \<Rightarrow> 'x setup_db \<Rightarrow> unit res" where
  "checkMajorVersionMain matches si db =
     bindR (getTablesVersion matches si db) (\<lambda>ver.
       case ver of
         None \<Rightarrow> Inr ()
       | Some versionInDB \<Rightarrow>
           if majorVer versionInDB \<noteq> majorVer (setPackedVer (si_version si)) then Inl HatoholException
           else Inr ())"

section \<open>Properties of versions\<close>

lemma masks:
  "MINOR_MASK = mask MINOR_BITS" "MAJOR_MASK = push_bit MINOR_BITS (mask MAJOR_BITS)"
  "VENDOR_MASK = push_bit (MINOR_BITS + MAJOR_BITS) (mask 8)"
  by (simp_all add: MINOR_MASK_def MAJOR_MASK_def VENDOR_MASK_def MINOR_BITS_def MAJOR_BITS_def mask_eq_exp_minus_1
      push_bit_eq_mult)

lemma mask_and: "(mask n :: int) AND i = i mod 2 ^ n"
  by (simp add: and.commute [of "mask n"] flip: take_bit_eq_mask take_bit_eq_mod)

lemma push_mask_and: "push_bit k (mask n) AND push_bit k i = 2 ^ k * (i mod 2 ^ n)" for i :: int
proof -
  have "push_bit k (mask n) AND push_bit k i = push_bit k (mask n AND i)" by (simp only: push_bit_and)
  then show ?thesis by (simp add: mask_and push_bit_eq_mult mult.commute)
qed

lemma drop_mask_and: "drop_bit k (push_bit k (mask n) AND i) = i div 2 ^ k mod 2 ^ n" for i :: int
proof -
  have "drop_bit k (push_bit k (mask n) AND i) = drop_bit k (push_bit k (mask n)) AND drop_bit k i"
    by (simp only: drop_bit_and)
  also have "drop_bit k (push_bit k (mask n :: int)) = mask n" by (simp add: drop_bit_eq_div push_bit_eq_mult)
  finally show ?thesis by (simp add: mask_and drop_bit_eq_div)
qed

lemma getPackedVer_sum:
  "getPackedVer vendor major minor =
     minor mod 2 ^ 12 + 2 ^ 12 * (major mod 2 ^ 8) + 2 ^ 20 * (vendor mod 2 ^ 8)"
  using push_mask_and [of MINOR_BITS MAJOR_BITS major] push_mask_and [of "MINOR_BITS + MAJOR_BITS" 8 vendor]
  by (simp add: getPackedVer_def masks mask_and Let_def MINOR_BITS_def MAJOR_BITS_def)

lemma setPackedVer_div:
  "setPackedVer p = \<lparr>vendorVer = p div 2 ^ 20 mod 2 ^ 8, majorVer = p div 2 ^ 12 mod 2 ^ 8, minorVer = p mod 2 ^ 12\<rparr>"
  using drop_mask_and [of MINOR_BITS MAJOR_BITS p] drop_mask_and [of "MINOR_BITS + MAJOR_BITS" 8 p]
  by (simp add: setPackedVer_def masks mask_and MINOR_BITS_def MAJOR_BITS_def)

lemma powers: "(2::int) ^ 8 = 256" "(2::int) ^ 12 = 4096" "(2::int) ^ 20 = 1048576"
  by simp_all

lemma setPackedVer_nums:
  "setPackedVer p = \<lparr>vendorVer = p div 1048576 mod 256, majorVer = p div 4096 mod 256, minorVer = p mod 4096\<rparr>"
  using setPackedVer_div [of p] by (simp only: powers)

lemma digit_split: "0 \<le> a \<Longrightarrow> a < n \<Longrightarrow> (a + n * b) mod n = a" "0 \<le> a \<Longrightarrow> a < n \<Longrightarrow> (a + n * b) div n = b"
  for a b n :: int
  by simp_all

lemma packed_version_parts:
  "setPackedVer (getPackedVer vendor major minor) =
     \<lparr>vendorVer = vendor mod 256, majorVer = major mod 256, minorVer = minor mod 4096\<rparr>"
proof -
  define p where "p = getPackedVer vendor major minor"
  have p: "p = minor mod 4096 + 4096 * (major mod 256 + 256 * (vendor mod 256))"
    unfolding p_def getPackedVer_sum by (simp only: powers) algebra
  note parts = digit_split [of "minor mod 4096" 4096 "major mod 256 + 256 * (vendor mod 256)"]
    digit_split [of "major mod 256" 256 "vendor mod 256"]
  have "p mod 4096 = minor mod 4096" "p div 4096 mod 256 = major mod 256" "p div 4096 div 256 mod 256 = vendor mod 256"
    unfolding p using parts by (simp_all only: pos_mod_sign pos_mod_bound zero_less_numeral mod_mod_trivial)
  moreover have "p div 1048576 = p div 4096 div 256" using zdiv_zmult2_eq [of 256 p 4096] by simp
  ultimately have "p mod 4096 = minor mod 4096" "p div 4096 mod 256 = major mod 256"
      "p div 1048576 mod 256 = vendor mod 256"
    by (simp_all only:)
  then have "setPackedVer p = \<lparr>vendorVer = vendor mod 256, majorVer = major mod 256, minorVer = minor mod 4096\<rparr>"
    by (simp only: setPackedVer_nums)
  then show ?thesis by (simp only: p_def)
qed

text \<open>
  Packing a version keeps each part modulo the width of its field, and unpacking gives exactly
  these parts back.
\<close>

lemma packed_version_roundtrip:
  "setPackedVer (getPackedVer vendor major minor) =
     \<lparr>vendorVer = vendor mod 256, majorVer = major mod 256, minorVer = minor mod 4096\<rparr>"
  by (rule packed_version_parts)

section \<open>Properties of the set-up\<close>

lemma tables_id_matches:
  assumes "sql_engine matches"
  shows "matches (tables_id_cond si) (version_row r) \<longleftrightarrow> fst r = si_tablesId si"
proof -
  have "ident ''tables_id''" by code_simp
  then have "cond_ok [[AtEq ''tables_id'' (VInt (si_tablesId si))]]" by (simp add: cond_ok_def)
  moreover have "tables_id_cond si = render [[AtEq ''tables_id'' (VInt (si_tablesId si))]]"
    by (simp add: tables_id_cond_def render_single enc_int_def)
  ultimately show ?thesis
    using sql_engine.matches_render [OF assms] by (simp add: selects_def version_row_def)
qed

lemma filter_key:
  "distinct (map fst m) \<Longrightarrow>
     filter (\<lambda>r. fst r = k) m = (case map_of m k of None \<Rightarrow> [] | Some v \<Rightarrow> [(k, v)])"
proof (induction m)
  case (Cons r m)
  have "filter (\<lambda>r. fst r = k) m = []" if "k \<notin> fst ` set m" using that by (force simp: filter_empty_conv)
  with Cons show ?case by (auto split: option.splits)
qed simp

lemma getTablesVersion_eq:
  assumes "sql_engine matches" "distinct (map fst (su_versions db))"
  shows "getTablesVersion matches si db = Inr (map_option setPackedVer (map_of (su_versions db) (si_tablesId si)))"
  using filter_key [OF assms(2), of "si_tablesId si"]
  by (simp add: getTablesVersion_def getPackedTablesVersion_def tables_id_matches [OF assms(1)] split: option.splits)

lemma ver_packed_id: "0 \<le> p \<Longrightarrow> p < 2 ^ 28 \<Longrightarrow> ver_getPackedVer (setPackedVer p) = p"
proof -
  assume p: "0 \<le> p" "p < 2 ^ 28"
  define q where "q = p div 4096"
  have q: "p = 4096 * q + p mod 4096" "q = 256 * (q div 256) + q mod 256" by (simp_all add: q_def)
  have v: "p div 1048576 = q div 256" using zdiv_zmult2_eq [of 256 p 4096] by (simp add: q_def)
  have "0 \<le> q div 256" using p by (simp add: q_def)
  moreover have "q div 256 < 256"
  proof -
    have "0 \<le> p mod 4096" "0 \<le> q mod 256" "p < 268435456" using p by simp_all
    then show ?thesis using q by linarith
  qed
  ultimately have "q div 256 mod 256 = q div 256" by (rule mod_pos_pos_trivial)
  moreover have "ver_getPackedVer (setPackedVer p) = p mod 4096 + 4096 * (q mod 256) + 1048576 * (q div 256 mod 256)"
    unfolding ver_getPackedVer_def setPackedVer_nums getPackedVer_sum version.simps powers mod_mod_trivial v
    by (simp only: q_def)
  ultimately show ?thesis using q by linarith
qed

lemma map_of_setTablesVersion:
  assumes "sql_engine matches"
  shows "map_of (su_versions (setTablesVersion matches si db)) =
     (\<lambda>k. if k = si_tablesId si then map_option (\<lambda>_. si_version si) (map_of (su_versions db) k)
          else map_of (su_versions db) k)"
proof -
  have "map_of (map (\<lambda>r. if fst r = t then (fst r, v) else r) m) =
      (\<lambda>k. if k = t then map_option (\<lambda>_. v) (map_of m k) else map_of m k)" for t v and m :: "(int \<times> int) list"
    by (induction m) (auto simp: fun_eq_iff)
  then show ?thesis by (simp add: setTablesVersion_def tables_id_matches [OF assms])
qed

lemma create_steps:
  assumes "fold create_step tis (db, created) = (db', created')"
  shows "set (su_tables db') = set (su_tables db) \<union> (tp_name \<circ> fst) ` set tis \<and> su_versions db' = su_versions db"
  using assms
proof (induction tis arbitrary: db created)
  case (Cons ti tis)
  obtain db1 created1 where 1: "create_step ti (db, created) = (db1, created1)" by fastforce
  have "set (su_tables db1) = insert (tp_name (fst ti)) (set (su_tables db)) \<and> su_versions db1 = su_versions db"
    using 1 by (auto simp: create_step_def split: if_splits)
  moreover have "set (su_tables db') = set (su_tables db1) \<union> (tp_name \<circ> fst) ` set tis \<and> su_versions db' = su_versions db1"
    using Cons.prems 1 by (intro Cons.IH) simp
  ultimately show ?case by simp
qed simp

lemma index_steps:
  "foldR (index_step kind) tis db = Inr db' \<Longrightarrow> su_tables db' = su_tables db \<and> su_versions db' = su_versions db"
proof (induction tis arbitrary: db)
  case (Cons ti tis)
  then obtain db1 where "index_step kind ti db = Inr db1" "foldR (index_step kind) tis db1 = Inr db'"
    by (auto simp: bindR_eq_Inr)
  moreover from this(1) have "su_tables db1 = su_tables db \<and> su_versions db1 = su_versions db"
    by (auto simp: index_step_def Let_def bindR_eq_Inr)
  ultimately show ?case using Cons.IH by metis
qed simp

lemma init_steps: "su_tables (fold init_step tis db) = su_tables db \<and> su_versions (fold init_step tis db) = su_versions db"
  by (induction tis arbitrary: db) (auto simp: init_step_def split: option.splits)

text \<open>The first part of the set-up: afterwards the version of the program is recorded.\<close>

lemma version_step:
  assumes "sql_engine matches" and "distinct (map fst (su_versions db))"
    and "\<forall>r \<in> set (su_versions db). 0 \<le> snd r \<and> snd r < 2 ^ 28"
    and "(case map_option setPackedVer (map_of (su_versions db) (si_tablesId si)) of
            None \<Rightarrow> Inr (insertTablesVersion si db)
          | Some v \<Rightarrow> updateTablesVersionIfNeeded matches si v db) = Inr db'"
  shows "map_of (su_versions db') (si_tablesId si) = Some (si_version si) \<and> su_tables db' = su_tables db"
proof (cases "map_of (su_versions db) (si_tablesId si)")
  case None
  with assms(4) show ?thesis by (auto simp: insertTablesVersion_def map_add_def)
next
  case (Some p)
  then have p: "ver_getPackedVer (setPackedVer p) = p"
    using assms(3) map_of_SomeD [OF Some] by (intro ver_packed_id) auto
  show ?thesis
  proof (cases "p = si_version si")
    case True
    with Some assms(4) p show ?thesis by (simp add: updateTablesVersionIfNeeded_def)
  next
    case False
    with Some assms(4) p obtain d where "db' = setTablesVersion matches si (db\<lparr>su_data := d\<rparr>)"
      by (auto simp: updateTablesVersionIfNeeded_def Let_def split: if_splits option.splits prod.splits)
    then show ?thesis
      using map_of_setTablesVersion [OF assms(1), of si "db\<lparr>su_data := d\<rparr>"] Some
      by (auto simp: setTablesVersion_def)
  qed
qed

lemma fixupIndexes_total:
  assumes "\<forall>r \<in> set (required_indexes kind tp). \<exists>sql. snd r = Inr sql"
  shows "\<exists>cmds. fixupIndexes kind tp infos = Inr cmds"
proof -
  let ?ixs = "column_index_defs tp @ tp_indexDefs tp"
  have st: "\<exists>sql. makeCreateIndexStatement kind tp ix = Inr sql" if "ix \<in> set ?ixs" for ix
    using assms that by (auto simp: required_indexes_def ball_Un)
  have "\<exists>c'. fixup_proc kind tp ix c = Inr c'" if "ix \<in> set ?ixs" for ix c
    using st [OF that] by (cases c) (auto simp: fixup_proc_def createIndex_def Let_def split: option.splits)
  then obtain g where "\<And>ix c. ix \<in> set ?ixs \<Longrightarrow> fixup_proc kind tp ix c = Inr (g ix c)" by metis
  then show ?thesis using foldR_total [of ?ixs "fixup_proc kind tp" g] by (simp add: fixupIndexes_def split: prod.splits)
qed

lemma index_steps_total:
  assumes "\<forall>ti \<in> set tis. \<forall>r \<in> set (required_indexes kind (fst ti)). \<exists>sql. snd r = Inr sql"
  shows "\<exists>db'. foldR (index_step kind) tis db = Inr db'"
proof -
  have "\<exists>db'. index_step kind ti db = Inr db'" if "ti \<in> set tis" for ti and db :: "'a setup_db"
    using fixupIndexes_total [of kind "fst ti" "su_indexes db (tp_name (fst ti))"] assms that
    by (auto simp: index_step_def Let_def)
  then obtain g where "\<And>ti db. ti \<in> set tis \<Longrightarrow> index_step kind ti db = Inr (g ti db)" by metis
  then show ?thesis using foldR_total [of tis "index_step kind" g] by blast
qed

text \<open>
  The versions from which the set-up can start: none is recorded, the one of the program, or one of the
  same vendor and major version that the updater accepts.
\<close>

definition upgradable :: "'x setup_info \<Rightarrow> 'x setup_db \<Rightarrow> bool" where
  "upgradable si db \<longleftrightarrow>
     (case map_of (su_versions db) (si_tablesId si) of
        None \<Rightarrow> True
      | Some p \<Rightarrow> p = si_version si
          \<or> vendorVer (setPackedVer p) = vendorVer (setPackedVer (si_version si))
            \<and> majorVer (setPackedVer p) = majorVer (setPackedVer (si_version si))
            \<and> (case si_updater si of None \<Rightarrow> False | Some updater \<Rightarrow> fst (updater (setPackedVer p) (su_data db))))"

lemma version_step_total:
  assumes "\<forall>r \<in> set (su_versions db). 0 \<le> snd r \<and> snd r < 2 ^ 28"
  shows "(\<exists>db'. (case map_option setPackedVer (map_of (su_versions db) (si_tablesId si)) of
            None \<Rightarrow> Inr (insertTablesVersion si db)
          | Some v \<Rightarrow> updateTablesVersionIfNeeded matches si v db) = Inr db') \<longleftrightarrow> upgradable si db"
proof (cases "map_of (su_versions db) (si_tablesId si)")
  case (Some p)
  then have "ver_getPackedVer (setPackedVer p) = p"
    using assms map_of_SomeD [OF Some] by (intro ver_packed_id) auto
  then show ?thesis using Some
    by (auto simp: upgradable_def updateTablesVersionIfNeeded_def Let_def split: option.splits prod.splits)
qed (simp add: upgradable_def)

lemma setupTables_run:
  assumes "sql_engine matches" and "distinct (map fst (su_versions db))"
    and "\<forall>r \<in> set (su_versions db). 0 \<le> snd r \<and> snd r < 2 ^ 28"
    and "\<forall>ti \<in> set (si_tableInfos si). \<forall>r \<in> set (required_indexes kind (fst ti)). \<exists>sql. snd r = Inr sql"
    and "upgradable si db"
  shows "\<exists>db'. setupTables matches kind si db = Inr db'
    \<and> map_of (su_versions db') (si_tablesId si) = Some (si_version si)
    \<and> set (su_tables db') = set (su_tables db) \<union> (tp_name \<circ> fst) ` set (si_tableInfos si)"
proof -
  obtain db1 where db1: "(case map_option setPackedVer (map_of (su_versions db) (si_tablesId si)) of
            None \<Rightarrow> Inr (insertTablesVersion si db)
          | Some v \<Rightarrow> updateTablesVersionIfNeeded matches si v db) = Inr db1"
    using version_step_total [OF assms(3)] assms(5) by blast
  obtain db2 created where db2: "fold create_step (si_tableInfos si) (db1, []) = (db2, created)" by fastforce
  obtain db3 where db3: "foldR (index_step kind) (si_tableInfos si) db2 = Inr db3"
    using index_steps_total [OF assms(4)] by blast
  have "setupTables matches kind si db = Inr (fold init_step created db3)"
    unfolding setupTables_def getTablesVersion_eq [OF assms(1,2)] bindR_simps db1 db2 by (simp add: db3)
  then show ?thesis
    using version_step [OF assms(1-3) db1] create_steps [OF db2] index_steps [OF db3] init_steps [of created db3]
    by auto
qed

lemma setupTables_refused:
  assumes "sql_engine matches" and "distinct (map fst (su_versions db))"
    and "\<forall>r \<in> set (su_versions db). 0 \<le> snd r \<and> snd r < 2 ^ 28" and "\<not> upgradable si db"
  shows "\<exists>e. setupTables matches kind si db = Inl e"
proof -
  obtain e where "(case map_option setPackedVer (map_of (su_versions db) (si_tablesId si)) of
            None \<Rightarrow> Inr (insertTablesVersion si db)
          | Some v \<Rightarrow> updateTablesVersionIfNeeded matches si v db) = Inl e"
    using version_step_total [OF assms(3), of si matches] assms(4) by (metis sum.exhaust)
  then show ?thesis unfolding setupTables_def getTablesVersion_eq [OF assms(1,2)] bindR_simps by simp
qed

text \<open>What becomes of the database when the procedure of the set-up returns, and when it raises.\<close>

lemma mk_DBTables_commits:
  assumes "\<not> si_initialized si" "setupTables matches kind si (st_data s) = Inr db"
  shows "\<exists>s'. mk_DBTables matches kind si s = (Inr (), si\<lparr>si_initialized := True\<rparr>, s') \<and> st_data s' = db \<and> st_base s' = None"
  using assms by (simp add: mk_DBTables_def runTransaction_def setup_trx_def trx_try_def run_hook_def mem_agent_def)

lemma mk_DBTables_rolls_back:
  assumes "\<not> si_initialized si" "setupTables matches kind si (st_data s) = Inl e"
  shows "\<exists>s'. mk_DBTables matches kind si s = (Inl OtherException, si, s') \<and> st_data s' = st_data s \<and> st_base s' = None"
proof -
  have "trx_try (setup_trx matches kind si) None (ag_begin mem_agent s) () = (Inl OtherException, ag_begin mem_agent s, ())"
    using assms(2) by (simp add: trx_try_def run_hook_def setup_trx_def mem.begin_data)
  moreover have "mem.stays_inside (setup_trx matches kind si) None"
    by (auto simp: mem.stays_inside_def setup_trx_def split: sum.splits)
  ultimately obtain s' where "runTransaction mem_agent (setup_trx matches kind si) None s () = (Inl OtherException, s', ())"
      "st_data s' = st_data s" "st_base s' = None"
    using mem.transaction_atomic [of "setup_trx matches kind si" None s "()" s "()" OtherException]
    by (auto simp: setup_trx_def)
  with assms(1) show ?thesis by (simp add: mk_DBTables_def)
qed

text \<open>
  C9. The construction of the first \<open>DBTables\<close> object of a group. When no version is recorded, or the
  one of the program, or one of the same vendor and major version that the updater brings up to date, it
  returns and commits: the version of the program is recorded, the tables of the group are added to the
  existing ones, and the set-up is not run again. From any other version it raises, the transaction is
  rolled back, the data are as before and the next construction tries again. At most one version is
  recorded for a group, in the 28 bits of a packed version, and the index definitions of the profiles
  name columns of their tables.
\<close>

theorem dbtables_setup_ok:
  assumes "sql_engine matches" and "\<not> si_initialized si"
    and "distinct (map fst (su_versions (st_data s)))"
    and "\<forall>r \<in> set (su_versions (st_data s)). 0 \<le> snd r \<and> snd r < 2 ^ 28"
    and "\<forall>ti \<in> set (si_tableInfos si). \<forall>r \<in> set (required_indexes kind (fst ti)). \<exists>sql. snd r = Inr sql"
  shows "\<exists>s'. st_base s' = None \<and>
    (if upgradable si (st_data s)
     then mk_DBTables matches kind si s = (Inr (), si\<lparr>si_initialized := True\<rparr>, s')
       \<and> map_of (su_versions (st_data s')) (si_tablesId si) = Some (si_version si)
       \<and> set (su_tables (st_data s')) = set (su_tables (st_data s)) \<union> (tp_name \<circ> fst) ` set (si_tableInfos si)
     else mk_DBTables matches kind si s = (Inl OtherException, si, s') \<and> st_data s' = st_data s)"
proof (cases "upgradable si (st_data s)")
  case True
  then obtain db where "setupTables matches kind si (st_data s) = Inr db"
    "map_of (su_versions db) (si_tablesId si) = Some (si_version si)"
    "set (su_tables db) = set (su_tables (st_data s)) \<union> (tp_name \<circ> fst) ` set (si_tableInfos si)"
    using setupTables_run [OF assms(1,3,4,5)] by blast
  with mk_DBTables_commits [OF assms(2)] True show ?thesis by fastforce
next
  case False
  then obtain e where "setupTables matches kind si (st_data s) = Inl e"
    using setupTables_refused [OF assms(1,3,4)] by blast
  with mk_DBTables_rolls_back [OF assms(2)] False show ?thesis by fastforce
qed

section \<open>A concrete set-up\<close>

definition ex_profile :: table_profile where
  "ex_profile = \<lparr>tp_name = ''users'', tp_columnDefs = [], tp_indexDefs = [], tp_uniqueKeyColumnIndexes = []\<rparr>"

definition ex_setup :: "unit setup_info" where
  "ex_setup = \<lparr>si_tablesId = 3, si_version = getPackedVer 0 1 3, si_tableInfos = [(ex_profile, None)],
     si_updater = None, si_initialized = False\<rparr>"

definition ex_state :: "(int \<times> int) list \<Rightarrow> unit setup_db db_state" where
  "ex_state versions = \<lparr>st_data = \<lparr>su_versions = versions, su_tables = [], su_indexes = (\<lambda>_. []), su_data = ()\<rparr>,
     st_base = None\<rparr>"

theorem dbtables_setup_ok_witness:
  "(\<exists>s'. mk_DBTables std_matches AgentSQLite3 ex_setup (ex_state []) = (Inr (), ex_setup\<lparr>si_initialized := True\<rparr>, s')
     \<and> map_of (su_versions (st_data s')) 3 = Some (getPackedVer 0 1 3) \<and> ''users'' \<in> set (su_tables (st_data s')))
   \<and> (\<exists>s'. mk_DBTables std_matches AgentSQLite3 ex_setup (ex_state [(3, getPackedVer 0 2 0)]) =
     (Inl OtherException, ex_setup, s') \<and> st_data s' = st_data (ex_state [(3, getPackedVer 0 2 0)]))"
proof -
  have hyps: "\<not> si_initialized ex_setup"
      "\<forall>ti \<in> set (si_tableInfos ex_setup). \<forall>r \<in> set (required_indexes AgentSQLite3 (fst ti)). \<exists>sql. snd r = Inr sql"
    by (simp_all add: ex_setup_def ex_profile_def required_indexes_def column_index_defs_def)
  have ids: "si_tablesId ex_setup = 3" "si_version ex_setup = getPackedVer 0 1 3"
      "(tp_name \<circ> fst) ` set (si_tableInfos ex_setup) = {''users''}"
    by (simp_all add: ex_setup_def ex_profile_def)
  let ?old = "ex_state [(3, getPackedVer 0 2 0)]"
  have u: "upgradable ex_setup (st_data (ex_state []))" "\<not> upgradable ex_setup (st_data ?old)"
    by (simp_all add: upgradable_def ex_setup_def ex_state_def setPackedVer_nums getPackedVer_sum)
  have "\<forall>r \<in> set (su_versions (st_data (ex_state []))). 0 \<le> snd r \<and> snd r < 2 ^ 28" "distinct (map fst (su_versions (st_data (ex_state []))))"
    "\<forall>r \<in> set (su_versions (st_data ?old)). 0 \<le> snd r \<and> snd r < 2 ^ 28" "distinct (map fst (su_versions (st_data ?old)))"
    by (simp_all add: ex_state_def getPackedVer_sum)
  note runs = dbtables_setup_ok [OF std.sql_engine_axioms hyps(1) this(2,1) hyps(2)]
    dbtables_setup_ok [OF std.sql_engine_axioms hyps(1) this(4,3) hyps(2)]
  have "\<exists>s'. mk_DBTables std_matches AgentSQLite3 ex_setup (ex_state []) = (Inr (), ex_setup\<lparr>si_initialized := True\<rparr>, s')
     \<and> map_of (su_versions (st_data s')) 3 = Some (getPackedVer 0 1 3) \<and> ''users'' \<in> set (su_tables (st_data s'))"
    using runs(1) unfolding if_P [OF u(1)] ids by blast
  moreover have "\<exists>s'. mk_DBTables std_matches AgentSQLite3 ex_setup ?old = (Inl OtherException, ex_setup, s') \<and> st_data s' = st_data ?old"
    using runs(2) unfolding if_not_P [OF u(2)] by blast
  ultimately show ?thesis ..
qed

end
