(* ===== verification/User_Tables.thy ===== *)
theory User_Tables
  imports Hato_Error Query_Option Db_Tables
begin

text \<open>
  Users, access lists and user roles (src/server/src/DBTablesUser.h, DBTablesUser.cc). The three
  tables are lists of rows. Every operation builds the texts of its conditions as the source does
  and runs them through the engine, an argument: \<open>en_matches\<close> evaluates a condition on a row,
  \<open>en_nextId\<close> is the automatic value of a primary key, \<open>en_sha256\<close> the digest of passwords. An
  operation that runs a \<open>TransactionProc\<close> is a \<open>trx_proc\<close> given to \<open>runTransaction\<close>. Strings are
  written through \<open>DBAgent::getColumnValueString\<close>, so what is stored is the C string.
\<close>

section \<open>Data\<close>

record user_info =
  ui_id :: int
  ui_name :: string
  ui_password :: string
  ui_flags :: opflag

record access_info =
  ai_id :: int
  ai_userId :: int
  ai_serverId :: int
  ai_hostgroupId :: string

record user_role_info =
  ri_id :: int
  ri_name :: string
  ri_flags :: opflag

record user_tables =
  ut_users :: "user_info list"
  ut_access :: "access_info list"
  ut_roles :: "user_role_info list"

type_synonym user_db = "user_tables db_state"

record user_engine =
  en_matches :: "string \<Rightarrow> sql_row \<Rightarrow> bool"
  en_nextId :: "int list \<Rightarrow> int"
  en_sha256 :: "string \<Rightarrow> string"

definition MAX_USER_NAME_LENGTH :: nat where
  "MAX_USER_NAME_LENGTH = 128"

definition MAX_PASSWORD_LENGTH :: nat where
  "MAX_PASSWORD_LENGTH = 128"

definition MAX_USER_ROLE_NAME_LENGTH :: nat where
  "MAX_USER_ROLE_NAME_LENGTH = 128"

definition INVALID_USER_ROLE_ID :: int where
  "INVALID_USER_ROLE_ID = -1"

definition column :: "string \<Rightarrow> SQLColumnType \<Rightarrow> nat \<Rightarrow> SQLKeyType \<Rightarrow> u16 \<Rightarrow> column_def" where
  "column name type len key flags =
     \<lparr>cd_columnName = name, cd_type = type, cd_columnLength = len, cd_decFracLength = 0,
      cd_canBeNull = False, cd_keyType = key, cd_flags = flags, cd_defaultValue = None\<rparr>"

definition COLUMN_DEF_USERS :: "column_def list" where
  "COLUMN_DEF_USERS =
     [column ''id'' SQL_COLUMN_TYPE_INT 11 SQL_KEY_PRI SQL_COLUMN_FLAG_AUTO_INC,
      column ''name'' SQL_COLUMN_TYPE_VARCHAR 255 SQL_KEY_IDX 0,
      column ''password'' SQL_COLUMN_TYPE_VARCHAR 255 SQL_KEY_NONE 0,
      column ''flags'' SQL_COLUMN_TYPE_BIGUINT 20 SQL_KEY_IDX 0]"

definition COLUMN_DEF_ACCESS_LIST :: "column_def list" where
  "COLUMN_DEF_ACCESS_LIST =
     [column ''id'' SQL_COLUMN_TYPE_INT 11 SQL_KEY_PRI SQL_COLUMN_FLAG_AUTO_INC,
      column ''user_id'' SQL_COLUMN_TYPE_INT 11 SQL_KEY_IDX 0,
      column ''server_id'' SQL_COLUMN_TYPE_INT 11 SQL_KEY_IDX 0,
      column ''host_group_id'' SQL_COLUMN_TYPE_VARCHAR 255 SQL_KEY_IDX 0]"

definition COLUMN_DEF_USER_ROLES :: "column_def list" where
  "COLUMN_DEF_USER_ROLES =
     [column ''id'' SQL_COLUMN_TYPE_INT 11 SQL_KEY_PRI SQL_COLUMN_FLAG_AUTO_INC,
      column ''name'' SQL_COLUMN_TYPE_VARCHAR 255 SQL_KEY_IDX 0,
      column ''flags'' SQL_COLUMN_TYPE_BIGUINT 20 SQL_KEY_IDX 0]"

text \<open>The rows as the columns name their values.\<close>

definition user_row :: "user_info \<Rightarrow> sql_row" where
  "user_row u = (\<lambda>_. VStr [])(''id'' := VInt (ui_id u), ''name'' := VStr (ui_name u),
     ''password'' := VStr (ui_password u), ''flags'' := VInt (uint (ui_flags u)))"

definition access_row :: "access_info \<Rightarrow> sql_row" where
  "access_row a = (\<lambda>_. VStr [])(''id'' := VInt (ai_id a), ''user_id'' := VInt (ai_userId a),
     ''server_id'' := VInt (ai_serverId a), ''host_group_id'' := VStr (ai_hostgroupId a))"

definition role_row :: "user_role_info \<Rightarrow> sql_row" where
  "role_row r = (\<lambda>_. VStr [])(''id'' := VInt (ri_id r), ''name'' := VStr (ri_name r),
     ''flags'' := VInt (uint (ri_flags r)))"

text \<open>The statements of the agent on one table. Without a condition they concern every row.\<close>

definition where_rows :: "user_engine \<Rightarrow> ('r \<Rightarrow> sql_row) \<Rightarrow> string \<Rightarrow> 'r \<Rightarrow> bool" where
  "where_rows e row cond r \<longleftrightarrow> cond = [] \<or> en_matches e cond (row r)"

definition tbl_select :: "user_engine \<Rightarrow> ('r \<Rightarrow> sql_row) \<Rightarrow> string \<Rightarrow> 'r list \<Rightarrow> 'r list" where
  "tbl_select e row cond rows = filter (where_rows e row cond) rows"

definition tbl_exists :: "user_engine \<Rightarrow> ('r \<Rightarrow> sql_row) \<Rightarrow> string \<Rightarrow> 'r list \<Rightarrow> bool" where
  "tbl_exists e row cond rows \<longleftrightarrow> tbl_select e row cond rows \<noteq> []"

definition tbl_update :: "user_engine \<Rightarrow> ('r \<Rightarrow> sql_row) \<Rightarrow> string \<Rightarrow> ('r \<Rightarrow> 'r) \<Rightarrow> 'r list \<Rightarrow> 'r list" where
  "tbl_update e row cond f rows = map (\<lambda>r. if where_rows e row cond r then f r else r) rows"

definition tbl_delete :: "user_engine \<Rightarrow> ('r \<Rightarrow> sql_row) \<Rightarrow> string \<Rightarrow> 'r list \<Rightarrow> 'r list" where
  "tbl_delete e row cond rows = filter (\<lambda>r. \<not> where_rows e row cond r) rows"

section \<open>Validity\<close>

definition validUsernameChar :: "char \<Rightarrow> bool" where
  "validUsernameChar c \<longleftrightarrow>
     is_upper c \<or> is_lower c \<or> is_dig c \<or> c = CHR ''.'' \<or> c = CHR ''-'' \<or> c = CHR ''_'' \<or> c = CHR ''@''"

definition isValidUserName :: "string \<Rightarrow> hterr" where
  "isValidUserName name =
     (if name = [] then HTERR_EMPTY_USER_NAME
      else if length name > MAX_USER_NAME_LENGTH then HTERR_TOO_LONG_USER_NAME
      else if list_ex (\<lambda>c. \<not> validUsernameChar c) (cstr name) then HTERR_INVALID_CHAR
      else HTERR_OK)"

definition isValidPassword :: "string \<Rightarrow> hterr" where
  "isValidPassword password =
     (if password = [] then HTERR_EMPTY_PASSWORD
      else if length password > MAX_PASSWORD_LENGTH then HTERR_TOO_LONG_PASSWORD
      else HTERR_OK)"

definition isValidFlags :: "opflag \<Rightarrow> hterr" where
  "isValidFlags flags = (if flags \<ge> makeFlag NUM_OPPRVLG then HTERR_INVALID_PRIVILEGE_FLAGS else HTERR_OK)"

definition isValidUserRoleName :: "string \<Rightarrow> hterr" where
  "isValidUserRoleName name =
     (if name = [] then HTERR_EMPTY_USER_ROLE_NAME
      else if length name > MAX_USER_ROLE_NAME_LENGTH then HTERR_TOO_LONG_USER_ROLE_NAME
      else HTERR_OK)"

section \<open>Query options\<close>

record user_query_option =
  uq_privilege :: op_privilege
  uq_onlyMyself :: bool
  uq_targetName :: string
  uq_targetFlags :: opflag
  uq_hasPrivilegesFlags :: bool

definition mk_user_query_option :: "op_privilege \<Rightarrow> user_query_option" where
  "mk_user_query_option privilege =
     \<lparr>uq_privilege = privilege, uq_onlyMyself = False, uq_targetName = [], uq_targetFlags = 0,
      uq_hasPrivilegesFlags = False\<rparr>"

definition uq_setTargetName :: "user_query_option \<Rightarrow> string \<Rightarrow> hterr \<times> user_query_option" where
  "uq_setTargetName opt name =
     (let err = isValidUserName name
      in if err \<noteq> HTERR_OK then (err, opt) else (HTERR_OK, opt\<lparr>uq_targetName := name\<rparr>))"

definition uq_setPrivilegesFlag :: "user_query_option \<Rightarrow> opflag \<Rightarrow> user_query_option" where
  "uq_setPrivilegesFlag opt flags = opt\<lparr>uq_targetFlags := flags, uq_hasPrivilegesFlags := True\<rparr>"

definition uq_unsetPrivilegesFlag :: "user_query_option \<Rightarrow> user_query_option" where
  "uq_unsetPrivilegesFlag opt = opt\<lparr>uq_hasPrivilegesFlags := False\<rparr>"

definition uq_queryOnlyMyself :: "user_query_option \<Rightarrow> user_query_option" where
  "uq_queryOnlyMyself opt = opt\<lparr>uq_onlyMyself := True\<rparr>"

definition uq_getCondition :: "user_query_option \<Rightarrow> string" where
  "uq_getCondition opt =
     (let userId = op_userId (uq_privilege opt)
      in if userId = INVALID_USER_ID then alwaysFalseCondition
         else
           let condition = (if uq_hasPrivilegesFlags opt then ''flags='' @ enc_u64 (uq_targetFlags opt) else []);
               condition =
                 (if \<not> op_has (uq_privilege opt) OPPRVLG_GET_ALL_USER \<or> uq_onlyMyself opt
                  then addCondition condition (''id='' @ dec_int userId) ADD_TYPE_AND False else condition)
           in if uq_targetName opt \<noteq> []
              then addCondition condition (''name='' @ enc_str (uq_targetName opt)) ADD_TYPE_AND False
              else condition)"

record access_query_option =
  aq_privilege :: op_privilege
  aq_queryUserId :: int

definition mk_access_query_option :: "op_privilege \<Rightarrow> access_query_option" where
  "mk_access_query_option privilege = \<lparr>aq_privilege = privilege, aq_queryUserId = INVALID_USER_ID\<rparr>"

definition aq_setTargetUserId :: "access_query_option \<Rightarrow> int \<Rightarrow> access_query_option" where
  "aq_setTargetUserId opt userId = opt\<lparr>aq_queryUserId := userId\<rparr>"

definition aq_getCondition :: "access_query_option \<Rightarrow> string" where
  "aq_getCondition opt =
     (let userId = op_userId (aq_privilege opt)
      in if userId = INVALID_USER_ID then alwaysFalseCondition
         else if \<not> op_has (aq_privilege opt) OPPRVLG_GET_ALL_USER \<and> userId \<noteq> aq_queryUserId opt
         then alwaysFalseCondition
         else ''user_id='' @ dec_int (aq_queryUserId opt))"

record role_query_option =
  rq_targetUserRoleId :: int

definition mk_role_query_option :: role_query_option where
  "mk_role_query_option = \<lparr>rq_targetUserRoleId = INVALID_USER_ROLE_ID\<rparr>"

definition rq_setTargetUserRoleId :: "role_query_option \<Rightarrow> int \<Rightarrow> role_query_option" where
  "rq_setTargetUserRoleId opt userRoleId = opt\<lparr>rq_targetUserRoleId := userRoleId\<rparr>"

definition rq_getCondition :: "role_query_option \<Rightarrow> string" where
  "rq_getCondition opt =
     (if rq_targetUserRoleId opt \<noteq> INVALID_USER_ROLE_ID then ''id='' @ dec_int (rq_targetUserRoleId opt)
      else [])"

section \<open>Users\<close>

text \<open>The object of a transaction procedure on one row of a table.\<close>

record 'r row_trx =
  rx_err :: hterr
  rx_dupCheckCond :: string
  rx_info :: 'r

definition mk_row_trx :: "'r \<Rightarrow> 'r row_trx" where
  "mk_row_trx info = \<lparr>rx_err = HTERR_UNINITIALIZED, rx_dupCheckCond = [], rx_info = info\<rparr>"

abbreviation set_users :: "user_db \<Rightarrow> user_info list \<Rightarrow> user_db" where
  "set_users db us \<equiv> db\<lparr>st_data := (st_data db)\<lparr>ut_users := us\<rparr>\<rparr>"

abbreviation set_access :: "user_db \<Rightarrow> access_info list \<Rightarrow> user_db" where
  "set_access db as \<equiv> db\<lparr>st_data := (st_data db)\<lparr>ut_access := as\<rparr>\<rparr>"

abbreviation set_roles :: "user_db \<Rightarrow> user_role_info list \<Rightarrow> user_db" where
  "set_roles db rs \<equiv> db\<lparr>st_data := (st_data db)\<lparr>ut_roles := rs\<rparr>\<rparr>"

definition add_user_trx :: "user_engine \<Rightarrow> (user_db, user_info row_trx) trx_proc" where
  "add_user_trx e =
     \<lparr>tr_preproc = (\<lambda>db x. (True, db, x\<lparr>rx_dupCheckCond := ''name='' @ enc_str (ui_name (rx_info x))\<rparr>)),
      tr_body = (\<lambda>db x.
        let users = ut_users (st_data db); u = rx_info x
        in if tbl_exists e user_row (rx_dupCheckCond x) users
           then (Inr (), db, x\<lparr>rx_err := HTERR_USER_NAME_EXIST\<rparr>)
           else
             let newId = en_nextId e (map ui_id users);
                 r = \<lparr>ui_id = newId, ui_name = cstr (ui_name u),
                      ui_password = en_sha256 e (ui_password u), ui_flags = ui_flags u\<rparr>
             in (Inr (), set_users db (users @ [r]),
                 x\<lparr>rx_info := u\<lparr>ui_id := newId\<rparr>, rx_err := HTERR_OK\<rparr>)),
      tr_postproc = (\<lambda>db x. (db, x))\<rparr>"

definition addUserInfo ::
  "user_engine \<Rightarrow> user_db \<Rightarrow> user_info \<Rightarrow> op_privilege \<Rightarrow> hterr \<times> user_info \<times> user_db" where
  "addUserInfo e db userInfo privilege =
     (if \<not> op_has privilege OPPRVLG_CREATE_USER then (HTERR_NO_PRIVILEGE, userInfo, db)
      else if isValidUserName (ui_name userInfo) \<noteq> HTERR_OK
      then (isValidUserName (ui_name userInfo), userInfo, db)
      else if isValidPassword (ui_password userInfo) \<noteq> HTERR_OK
      then (isValidPassword (ui_password userInfo), userInfo, db)
      else if isValidFlags (ui_flags userInfo) \<noteq> HTERR_OK
      then (isValidFlags (ui_flags userInfo), userInfo, db)
      else case runTransaction mem_agent (add_user_trx e) None db (mk_row_trx userInfo) of
        (_, db', x) \<Rightarrow> (rx_err x, rx_info x, db'))"

definition getUserInfoList :: "user_engine \<Rightarrow> user_db \<Rightarrow> string \<Rightarrow> user_info list" where
  "getUserInfoList e db condition =
     (if isAlwaysFalseCondition condition then []
      else tbl_select e user_row condition (ut_users (st_data db)))"

definition getUserInfo :: "user_engine \<Rightarrow> user_db \<Rightarrow> int \<Rightarrow> user_info option res" where
  "getUserInfo e db userId =
     (case getUserInfoList e db (''id='' @ dec_int userId) of
        [] \<Rightarrow> Inr None
      | u # us \<Rightarrow> if us \<noteq> [] then Inl HatoholException else Inr (Some u))"

definition getUserIdSet :: "user_engine \<Rightarrow> user_db \<Rightarrow> int list \<Rightarrow> int list" where
  "getUserIdSet e db userIdSet = fold (\<lambda>u ids. std_set_insert (ui_id u) ids) (getUserInfoList e db []) userIdSet"

definition hasPrivilegeForUpdateUserInfo ::
  "user_engine \<Rightarrow> user_db \<Rightarrow> user_info \<Rightarrow> op_privilege \<Rightarrow> hterr res" where
  "hasPrivilegeForUpdateUserInfo e db userInfo privilege =
     (if op_has privilege OPPRVLG_UPDATE_USER then Inr HTERR_OK
      else if ui_id userInfo \<noteq> op_userId privilege then Inr HTERR_NO_PRIVILEGE
      else if ui_id userInfo = INVALID_USER_ID then Inr HTERR_NO_PRIVILEGE
      else bindR (getUserInfo e db (ui_id userInfo)) (\<lambda>found.
        case found of
          None \<Rightarrow> Inr HTERR_NO_PRIVILEGE
        | Some inDB \<Rightarrow>
            if inDB\<lparr>ui_password := ui_password userInfo\<rparr> = userInfo then Inr HTERR_OK
            else Inr HTERR_NO_PRIVILEGE))"

text \<open>The condition on the identifier belongs to the update argument, which the constructor fills.\<close>

definition update_user_trx :: "user_engine \<Rightarrow> (user_db, user_info row_trx) trx_proc" where
  "update_user_trx e =
     \<lparr>tr_preproc = (\<lambda>db x. (True, db, x\<lparr>rx_dupCheckCond :=
        ''(name='' @ enc_str (ui_name (rx_info x)) @ '' and id<>'' @ dec_int (ui_id (rx_info x)) @ '')''\<rparr>)),
      tr_body = (\<lambda>db x.
        let users = ut_users (st_data db); u = rx_info x; condition = ''id='' @ dec_int (ui_id u)
        in if \<not> tbl_exists e user_row condition users
           then (Inr (), db, x\<lparr>rx_err := HTERR_NOT_FOUND_TARGET_RECORD\<rparr>)
           else if tbl_exists e user_row (rx_dupCheckCond x) users
           then (Inr (), db, x\<lparr>rx_err := HTERR_USER_NAME_EXIST\<rparr>)
           else
             let upd = (\<lambda>r. r\<lparr>ui_name := cstr (ui_name u),
                   ui_password := (if ui_password u \<noteq> [] then en_sha256 e (ui_password u) else ui_password r),
                   ui_flags := ui_flags u\<rparr>)
             in (Inr (), set_users db (tbl_update e user_row condition upd users), x\<lparr>rx_err := HTERR_OK\<rparr>)),
      tr_postproc = (\<lambda>db x. (db, x))\<rparr>"

definition updateUserInfo ::
  "user_engine \<Rightarrow> user_db \<Rightarrow> user_info \<Rightarrow> op_privilege \<Rightarrow> (hterr \<times> user_db) res" where
  "updateUserInfo e db userInfo privilege =
     bindR (hasPrivilegeForUpdateUserInfo e db userInfo privilege) (\<lambda>err.
       if err \<noteq> HTERR_OK then Inr (err, db)
       else if isValidUserName (ui_name userInfo) \<noteq> HTERR_OK
       then Inr (isValidUserName (ui_name userInfo), db)
       else if ui_password userInfo \<noteq> [] \<and> isValidPassword (ui_password userInfo) \<noteq> HTERR_OK
       then Inr (isValidPassword (ui_password userInfo), db)
       else if isValidFlags (ui_flags userInfo) \<noteq> HTERR_OK
       then Inr (isValidFlags (ui_flags userInfo), db)
       else case runTransaction mem_agent (update_user_trx e) None db (mk_row_trx userInfo) of
         (_, db', x) \<Rightarrow> Inr (rx_err x, db'))"

definition update_flags_trx :: "user_engine \<Rightarrow> opflag \<Rightarrow> opflag \<Rightarrow> (user_db, hterr) trx_proc" where
  "update_flags_trx e oldUserFlag updateUserFlag =
     \<lparr>tr_preproc = (\<lambda>db x. (True, db, x)),
      tr_body = (\<lambda>db x.
        (Inr (), set_users db (tbl_update e user_row (''flags='' @ enc_u64 oldUserFlag)
                   (\<lambda>r. r\<lparr>ui_flags := updateUserFlag\<rparr>) (ut_users (st_data db))), HTERR_OK)),
      tr_postproc = (\<lambda>db x. (db, x))\<rparr>"

definition updateUserInfoFlags ::
  "user_engine \<Rightarrow> user_db \<Rightarrow> opflag \<Rightarrow> opflag \<Rightarrow> op_privilege \<Rightarrow> hterr \<times> user_db" where
  "updateUserInfoFlags e db oldUserFlag updateUserFlag privilege =
     (if \<not> op_has privilege OPPRVLG_UPDATE_USER then (HTERR_NO_PRIVILEGE, db)
      else if isValidFlags oldUserFlag \<noteq> HTERR_OK then (isValidFlags oldUserFlag, db)
      else if isValidFlags updateUserFlag \<noteq> HTERR_OK then (isValidFlags updateUserFlag, db)
      else case runTransaction mem_agent (update_flags_trx e oldUserFlag updateUserFlag) None db HTERR_UNINITIALIZED of
        (_, db', err) \<Rightarrow> (err, db'))"

definition delete_user_trx :: "user_engine \<Rightarrow> int \<Rightarrow> (user_db, unit) trx_proc" where
  "delete_user_trx e userId =
     \<lparr>tr_preproc = (\<lambda>db x. (True, db, x)),
      tr_body = (\<lambda>db x.
        let db1 = set_users db (tbl_delete e user_row (''id='' @ dec_int userId) (ut_users (st_data db)));
            db2 = set_access db1 (tbl_delete e access_row (''user_id='' @ dec_int userId) (ut_access (st_data db1)))
        in (Inr (), db2, x)),
      tr_postproc = (\<lambda>db x. (db, x))\<rparr>"

definition deleteUserInfo :: "user_engine \<Rightarrow> user_db \<Rightarrow> int \<Rightarrow> op_privilege \<Rightarrow> hterr \<times> user_db" where
  "deleteUserInfo e db userId privilege =
     (if \<not> op_has privilege OPPRVLG_DELETE_USER then (HTERR_NO_PRIVILEGE, db)
      else if userId = op_userId privilege then (HTERR_DELETE_MYSELF, db)
      else case runTransaction mem_agent (delete_user_trx e userId) None db () of
        (_, db', _) \<Rightarrow> (HTERR_OK, db'))"

definition getUserId :: "user_engine \<Rightarrow> user_db \<Rightarrow> string \<Rightarrow> string \<Rightarrow> int" where
  "getUserId e db user password =
     (if isValidUserName user \<noteq> HTERR_OK then INVALID_USER_ID
      else if isValidPassword password \<noteq> HTERR_OK then INVALID_USER_ID
      else case tbl_select e user_row (''name='' @ enc_str user) (ut_users (st_data db)) of
        [] \<Rightarrow> INVALID_USER_ID
      | r # _ \<Rightarrow> if ui_password r = en_sha256 e password then ui_id r else INVALID_USER_ID)"

section \<open>Access lists\<close>

text \<open>
  The check for an existing entry prints the server identifier with \<open>PRIu32\<close>, so a negative one
  appears as its remainder modulo \<open>2 ^ 32\<close>.
\<close>

definition addAccessInfo ::
  "user_engine \<Rightarrow> user_db \<Rightarrow> access_info \<Rightarrow> op_privilege \<Rightarrow> hterr \<times> access_info \<times> user_db" where
  "addAccessInfo e db accessInfo privilege =
     (if \<not> op_has privilege OPPRVLG_UPDATE_USER then (HTERR_NO_PRIVILEGE, accessInfo, db)
      else
        let condition = ''user_id='' @ dec_int (ai_userId accessInfo)
              @ '' AND server_id='' @ dec_int (ai_serverId accessInfo mod 2 ^ 32)
              @ '' AND host_group_id='' @ enc_str (ai_hostgroupId accessInfo);
            rows = ut_access (st_data db)
        in case tbl_select e access_row condition rows of
             r # _ \<Rightarrow> (HTERR_OK, accessInfo\<lparr>ai_id := ai_id r\<rparr>, db)
           | [] \<Rightarrow>
               let newId = en_nextId e (map ai_id rows);
                   r = accessInfo\<lparr>ai_id := newId, ai_hostgroupId := cstr (ai_hostgroupId accessInfo)\<rparr>
               in (HTERR_OK, accessInfo\<lparr>ai_id := newId\<rparr>, set_access db (rows @ [r])))"

definition deleteAccessInfo :: "user_engine \<Rightarrow> user_db \<Rightarrow> int \<Rightarrow> op_privilege \<Rightarrow> hterr \<times> user_db" where
  "deleteAccessInfo e db accessInfoId privilege =
     (if \<not> op_has privilege OPPRVLG_UPDATE_USER then (HTERR_NO_PRIVILEGE, db)
      else (HTERR_OK, set_access db (tbl_delete e access_row (''id='' @ dec_int accessInfoId) (ut_access (st_data db)))))"

text \<open>The nested map from servers to hostgroups to entries; the first entry of a pair stays.\<close>

definition access_map_insert ::
  "access_info \<Rightarrow> (int \<times> (string \<times> access_info) list) list \<Rightarrow> (int \<times> (string \<times> access_info) list) list" where
  "access_map_insert a m =
     (let hgs = (case map_of m (ai_serverId a) of None \<Rightarrow> [] | Some hgs \<Rightarrow> hgs);
          m = (case map_of m (ai_serverId a) of None \<Rightarrow> std_map_put (ai_serverId a) [] m | Some _ \<Rightarrow> m)
      in case map_of hgs (ai_hostgroupId a) of
           Some _ \<Rightarrow> m
         | None \<Rightarrow> std_map_put (ai_serverId a) (std_map_put (ai_hostgroupId a) a hgs) m)"

definition getAccessInfoMap ::
  "user_engine \<Rightarrow> user_db \<Rightarrow> access_query_option
    \<Rightarrow> hterr \<times> (int \<times> (string \<times> access_info) list) list" where
  "getAccessInfoMap e db opt =
     (let condition = aq_getCondition opt
      in if isAlwaysFalseCondition condition then (HTERR_NO_PRIVILEGE, [])
         else (HTERR_OK, fold access_map_insert (tbl_select e access_row condition (ut_access (st_data db))) []))"

definition grp_map_insert :: "access_info \<Rightarrow> server_grp_map \<Rightarrow> server_grp_map" where
  "grp_map_insert a m =
     (let hgs = (case map_of m (ai_serverId a) of None \<Rightarrow> [] | Some hgs \<Rightarrow> hgs)
      in std_map_put (ai_serverId a) (std_set_insert (ai_hostgroupId a) hgs) m)"

definition getServerHostGrpSetMap :: "user_engine \<Rightarrow> user_db \<Rightarrow> int \<Rightarrow> server_grp_map" where
  "getServerHostGrpSetMap e db userId =
     fold grp_map_insert (tbl_select e access_row (''user_id='' @ dec_int userId) (ut_access (st_data db))) []"

definition isAccessibleCond :: "user_engine \<Rightarrow> user_db \<Rightarrow> op_privilege \<Rightarrow> string \<Rightarrow> bool" where
  "isAccessibleCond e db privilege condition =
     (if op_userId privilege = INVALID_USER_ID then False
      else length (tbl_select e access_row condition (ut_access (st_data db))) > 0)"

definition isAccessibleServer :: "user_engine \<Rightarrow> user_db \<Rightarrow> int \<Rightarrow> op_privilege \<Rightarrow> bool" where
  "isAccessibleServer e db serverId privilege =
     (let userId = op_userId privilege
      in if userId = INVALID_USER_ID then False
         else
           let condition = ''user_id='' @ dec_int userId @ '' AND (server_id='' @ dec_int serverId
                 @ '' OR server_id='' @ dec_int ALL_SERVERS @ '') AND host_group_id='' @ enc_str ALL_HOST_GROUPS
           in length (tbl_select e access_row condition (ut_access (st_data db))) > 0)"

definition isAccessible :: "user_engine \<Rightarrow> user_db \<Rightarrow> int \<Rightarrow> string \<Rightarrow> op_privilege \<Rightarrow> bool" where
  "isAccessible e db serverId hostgroupId privilege =
     isAccessibleCond e db privilege
       (''user_id='' @ dec_int (op_userId privilege) @ '' AND ((server_id='' @ dec_int ALL_SERVERS
        @ '') OR  (server_id='' @ dec_int serverId @ '' AND   (host_group_id='' @ enc_str ALL_HOST_GROUPS
        @ '' OR host_group_id='' @ enc_str hostgroupId @ '')))'')"

section \<open>User roles\<close>

definition add_role_trx :: "user_engine \<Rightarrow> (user_db, user_role_info row_trx) trx_proc" where
  "add_role_trx e =
     \<lparr>tr_preproc = (\<lambda>db x. (True, db, x)),
      tr_body = (\<lambda>db x.
        let roles = ut_roles (st_data db); i = rx_info x
        in if tbl_exists e role_row (rx_dupCheckCond x) roles
           then (Inr (), db, x\<lparr>rx_err := HTERR_USER_ROLE_NAME_OR_PRIVILEGE_FLAGS_EXIST\<rparr>)
           else
             let newId = en_nextId e (map ri_id roles);
                 r = \<lparr>ri_id = newId, ri_name = cstr (ri_name i), ri_flags = ri_flags i\<rparr>
             in (Inr (), set_roles db (roles @ [r]),
                 x\<lparr>rx_info := i\<lparr>ri_id := newId\<rparr>, rx_err := HTERR_OK\<rparr>)),
      tr_postproc = (\<lambda>db x. (db, x))\<rparr>"

definition addUserRoleInfo ::
  "user_engine \<Rightarrow> user_db \<Rightarrow> user_role_info \<Rightarrow> op_privilege \<Rightarrow> hterr \<times> user_role_info \<times> user_db" where
  "addUserRoleInfo e db userRoleInfo privilege =
     (if \<not> op_has privilege OPPRVLG_CREATE_USER_ROLE then (HTERR_NO_PRIVILEGE, userRoleInfo, db)
      else if isValidUserRoleName (ri_name userRoleInfo) \<noteq> HTERR_OK
      then (isValidUserRoleName (ri_name userRoleInfo), userRoleInfo, db)
      else if isValidFlags (ri_flags userRoleInfo) \<noteq> HTERR_OK
      then (isValidFlags (ri_flags userRoleInfo), userRoleInfo, db)
      else if ri_flags userRoleInfo = ALL_PRIVILEGES \<or> ri_flags userRoleInfo = NONE_PRIVILEGE
      then (HTERR_USER_ROLE_NAME_OR_PRIVILEGE_FLAGS_EXIST, userRoleInfo, db)
      else
        let dupChkCond = ''(name='' @ enc_str (ri_name userRoleInfo) @ '' or flags='' @ enc_u64 (ri_flags userRoleInfo) @ '')''
        in case runTransaction mem_agent (add_role_trx e) None db ((mk_row_trx userRoleInfo)\<lparr>rx_dupCheckCond := dupChkCond\<rparr>) of
          (_, db', x) \<Rightarrow> (rx_err x, rx_info x, db'))"

definition update_role_trx :: "user_engine \<Rightarrow> (user_db, user_role_info row_trx) trx_proc" where
  "update_role_trx e =
     \<lparr>tr_preproc = (\<lambda>db x. (True, db, x)),
      tr_body = (\<lambda>db x.
        let roles = ut_roles (st_data db); i = rx_info x; condition = ''id='' @ dec_int (ri_id i)
        in if \<not> tbl_exists e role_row condition roles
           then (Inr (), db, x\<lparr>rx_err := HTERR_NOT_FOUND_TARGET_RECORD\<rparr>)
           else if tbl_exists e role_row (rx_dupCheckCond x) roles
           then (Inr (), db, x\<lparr>rx_err := HTERR_USER_ROLE_NAME_OR_PRIVILEGE_FLAGS_EXIST\<rparr>)
           else (Inr (), set_roles db (tbl_update e role_row condition
                   (\<lambda>r. r\<lparr>ri_name := cstr (ri_name i), ri_flags := ri_flags i\<rparr>) roles), x\<lparr>rx_err := HTERR_OK\<rparr>)),
      tr_postproc = (\<lambda>db x. (db, x))\<rparr>"

definition updateUserRoleInfo ::
  "user_engine \<Rightarrow> user_db \<Rightarrow> user_role_info \<Rightarrow> op_privilege \<Rightarrow> hterr \<times> user_db" where
  "updateUserRoleInfo e db userRoleInfo privilege =
     (if \<not> op_has privilege OPPRVLG_UPDATE_ALL_USER_ROLE then (HTERR_NO_PRIVILEGE, db)
      else if isValidUserRoleName (ri_name userRoleInfo) \<noteq> HTERR_OK
      then (isValidUserRoleName (ri_name userRoleInfo), db)
      else if isValidFlags (ri_flags userRoleInfo) \<noteq> HTERR_OK
      then (isValidFlags (ri_flags userRoleInfo), db)
      else if ri_flags userRoleInfo = ALL_PRIVILEGES \<or> ri_flags userRoleInfo = NONE_PRIVILEGE
      then (HTERR_USER_ROLE_NAME_OR_PRIVILEGE_FLAGS_EXIST, db)
      else
        let dupChkCond = ''((name='' @ enc_str (ri_name userRoleInfo) @ '' or flags='' @ enc_u64 (ri_flags userRoleInfo)
              @ '') and id<>'' @ dec_int (ri_id userRoleInfo) @ '')''
        in case runTransaction mem_agent (update_role_trx e) None db ((mk_row_trx userRoleInfo)\<lparr>rx_dupCheckCond := dupChkCond\<rparr>) of
          (_, db', x) \<Rightarrow> (rx_err x, db'))"

definition deleteUserRoleInfo :: "user_engine \<Rightarrow> user_db \<Rightarrow> int \<Rightarrow> op_privilege \<Rightarrow> hterr \<times> user_db" where
  "deleteUserRoleInfo e db userRoleId privilege =
     (if \<not> op_has privilege OPPRVLG_DELETE_ALL_USER_ROLE then (HTERR_NO_PRIVILEGE, db)
      else (HTERR_OK, set_roles db (tbl_delete e role_row (''id='' @ dec_int userRoleId) (ut_roles (st_data db)))))"

definition getUserRoleInfoList :: "user_engine \<Rightarrow> user_db \<Rightarrow> role_query_option \<Rightarrow> user_role_info list" where
  "getUserRoleInfoList e db opt = tbl_select e role_row (rq_getCondition opt) (ut_roles (st_data db))"

section \<open>Upgrades of the tables\<close>

text \<open>
  \<open>oldAdminFlags\<close> is a function-local static constant: the first call of \<open>updateAdminPrivilege\<close> in
  the process computes it, and every later call uses the same value. The \<open>option\<close> is its storage.
\<close>

definition updateAdminPrivilege ::
  "user_engine \<Rightarrow> nat \<Rightarrow> opflag option \<times> user_db \<Rightarrow> opflag option \<times> user_db" where
  "updateAdminPrivilege e old_NUM_OPPRVLG = (\<lambda>(static, db).
     let oldAdminFlags = (case static of Some f \<Rightarrow> f | None \<Rightarrow> push_bit old_NUM_OPPRVLG 1 - 1);
         condition = ''flags='' @ enc_u64 oldAdminFlags
     in (Some oldAdminFlags,
         set_users db (tbl_update e user_row condition (\<lambda>r. r\<lparr>ui_flags := ALL_PRIVILEGES\<rparr>) (ut_users (st_data db)))))"

definition updateDB :: "user_engine \<Rightarrow> int \<Rightarrow> opflag option \<times> user_db \<Rightarrow> opflag option \<times> user_db" where
  "updateDB e oldVer s0 =
     (let s1 = (if oldVer \<le> 1 then updateAdminPrivilege e 10 s0 else s0);
          s2 = (if oldVer \<le> 2 then updateAdminPrivilege e 16 s1 else s1);
          s3 = (if oldVer \<le> 3 then updateAdminPrivilege e 19 s2 else s2);
          s4 = (if oldVer \<le> getPackedVer 0 1 1 then updateAdminPrivilege e 23 s3 else s3);
          s5 = (if oldVer \<le> getPackedVer 0 1 2 then updateAdminPrivilege e 29 s4 else s4)
      in if oldVer \<le> getPackedVer 0 1 2 then updateAdminPrivilege e 32 s5 else s5)"

end
