(* ===== verification/User_Props.thy ===== *)
theory User_Props
  imports User_Tables
begin

text \<open>
  What the operations of \<open>User_Tables\<close> guarantee. The locale \<open>user_engine_ok\<close> extends
  \<open>sql_engine\<close> by the promise about automatic identifiers; inside it every condition text gets its
  meaning on rows and every operation its effect on the tables. The invariant \<open>users_inv\<close> and the
  step relation \<open>user_step\<close> over all operations follow.
\<close>

section \<open>Conditions\<close>

lemma idents: "ident ''id''" "ident ''name''" "ident ''flags''" "ident ''user_id''" "ident ''server_id''"
  "ident ''host_group_id''"
  by code_simp+

lemma lex_columns [simp]:
  "lex (CHR ''i'' # CHR ''d'' # CHR ''='' # r) = map_option (\<lambda>ts. TId ''id'' # TEq # ts) (lex r)"
  "lex (CHR ''i'' # CHR ''d'' # CHR ''<'' # CHR ''>'' # r) = map_option (\<lambda>ts. TId ''id'' # TNe # ts) (lex r)"
  "lex (CHR ''n'' # CHR ''a'' # CHR ''m'' # CHR ''e'' # CHR ''='' # r) = map_option (\<lambda>ts. TId ''name'' # TEq # ts) (lex r)"
  "lex (CHR ''f'' # CHR ''l'' # CHR ''a'' # CHR ''g'' # CHR ''s'' # CHR ''='' # r) =
     map_option (\<lambda>ts. TId ''flags'' # TEq # ts) (lex r)"
  "lex (CHR ''u'' # CHR ''s'' # CHR ''e'' # CHR ''r'' # CHR ''_'' # CHR ''i'' # CHR ''d'' # CHR ''='' # r) =
     map_option (\<lambda>ts. TId ''user_id'' # TEq # ts) (lex r)"
  "lex (CHR ''s'' # CHR ''e'' # CHR ''r'' # CHR ''v'' # CHR ''e'' # CHR ''r'' # CHR ''_'' # CHR ''i'' # CHR ''d'' # CHR ''='' # r) =
     map_option (\<lambda>ts. TId ''server_id'' # TEq # ts) (lex r)"
  "lex (CHR ''h'' # CHR ''o'' # CHR ''s'' # CHR ''t'' # CHR ''_'' # CHR ''g'' # CHR ''r'' # CHR ''o'' # CHR ''u'' # CHR ''p''
     # CHR ''_'' # CHR ''i'' # CHR ''d'' # CHR ''='' # r) = map_option (\<lambda>ts. TId ''host_group_id'' # TEq # ts) (lex r)"
  using lex_ident [OF idents(1), of "CHR ''='' # r"] lex_ident [OF idents(1), of "CHR ''<'' # CHR ''>'' # r"]
    lex_ident [OF idents(2), of "CHR ''='' # r"]
    lex_ident [OF idents(3), of "CHR ''='' # r"] lex_ident [OF idents(4), of "CHR ''='' # r"]
    lex_ident [OF idents(5), of "CHR ''='' # r"] lex_ident [OF idents(6), of "CHR ''='' # r"]
  by (simp_all add: option.map_comp comp_def)

lemma lex_u64: "sep rest \<Longrightarrow> lex (enc_u64 u @ rest) = map_option (Cons (TInt (uint u))) (lex rest)"
  using lex_dec_nat [of rest "unat u"] by (simp add: enc_u64_def)

lemma lex_at_end:
  "lex (dec_int i) = Some [TInt i]" "lex (enc_str s) = Some [TStr (cstr s)]" "lex (enc_u64 u) = Some [TInt (uint u)]"
  using lex_int [of "[]" i] lex_str [of "[]" s] lex_u64 [of "[]" u] by simp_all

lemmas lex_texts = lex_int lex_str lex_u64 lex_at_end

lemmas where_texts = sql_where_def sql_parse_def lex_texts holds_def numeral_eq_Suc

lemma where_id: "sql_where (''id='' @ dec_int i) row = Some (row ''id'' = VInt i)"
  by (simp add: where_texts)

lemma where_name: "sql_where (''name='' @ enc_str n) row = Some (row ''name'' = VStr (cstr n))"
  by (simp add: where_texts)

lemma where_flags: "sql_where (''flags='' @ enc_u64 f) row = Some (row ''flags'' = VInt (uint f))"
  by (simp add: where_texts)

lemma where_user_id: "sql_where (''user_id='' @ dec_int i) row = Some (row ''user_id'' = VInt i)"
  by (simp add: where_texts)

lemma where_user_dup:
  "sql_where (''(name='' @ enc_str n @ '' and id<>'' @ dec_int i @ '')'') row =
     Some (row ''name'' = VStr (cstr n) \<and> row ''id'' \<noteq> VNull \<and> row ''id'' \<noteq> VInt i)"
  by (simp add: where_texts)

lemma where_role_dup:
  "sql_where (''(name='' @ enc_str n @ '' or flags='' @ enc_u64 f @ '')'') row =
     Some (row ''name'' = VStr (cstr n) \<or> row ''flags'' = VInt (uint f))"
  by (simp add: where_texts)

lemma where_role_update_dup:
  "sql_where (''((name='' @ enc_str n @ '' or flags='' @ enc_u64 f @ '') and id<>'' @ dec_int i @ '')'') row =
     Some ((row ''name'' = VStr (cstr n) \<or> row ''flags'' = VInt (uint f)) \<and> row ''id'' \<noteq> VNull \<and> row ''id'' \<noteq> VInt i)"
  by (simp add: where_texts)

lemma where_access:
  "sql_where (''user_id='' @ dec_int u @ '' AND server_id='' @ dec_int s @ '' AND host_group_id='' @ enc_str g) row =
     Some (row ''user_id'' = VInt u \<and> row ''server_id'' = VInt s \<and> row ''host_group_id'' = VStr (cstr g))"
  by (simp add: where_texts)

lemma where_accessible_server:
  "sql_where (''user_id='' @ dec_int u @ '' AND (server_id='' @ dec_int s
     @ '' OR server_id='' @ dec_int a @ '') AND host_group_id='' @ enc_str g) row =
     Some (row ''user_id'' = VInt u \<and> (row ''server_id'' = VInt s \<or> row ''server_id'' = VInt a)
           \<and> row ''host_group_id'' = VStr (cstr g))"
  by (simp add: where_texts)

lemma where_accessible:
  "sql_where (''user_id='' @ dec_int u @ '' AND ((server_id='' @ dec_int a
      @ '') OR  (server_id='' @ dec_int s @ '' AND   (host_group_id='' @ enc_str g
      @ '' OR host_group_id='' @ enc_str h @ '')))'') row =
     Some (row ''user_id'' = VInt u \<and> (row ''server_id'' = VInt a
       \<or> row ''server_id'' = VInt s \<and> (row ''host_group_id'' = VStr (cstr g) \<or> row ''host_group_id'' = VStr (cstr h))))"
  by (simp add: where_texts)

lemma filter_unique:
  "distinct (map f us) \<Longrightarrow> filter (\<lambda>u. f u = k) us = (case find (\<lambda>u. f u = k) us of None \<Rightarrow> [] | Some u \<Rightarrow> [u])"
proof (induction us)
  case (Cons u us)
  have "filter (\<lambda>u. f u = k) us = []" if "k \<notin> f ` set us" using that by (auto simp: filter_empty_conv)
  with Cons show ?case by auto
qed simp

section \<open>The engine of the user tables\<close>

text \<open>An automatic identifier is positive and new in its column.\<close>

locale user_engine_ok = sql_engine "en_matches e" for e :: user_engine +
  assumes nextId_fresh: "en_nextId e ids \<notin> set ids"
    and nextId_pos: "0 < en_nextId e ids"
begin

lemma where_rows_sql:
  assumes "\<And>r. sql_where c (row r) = Some (P r)" "c \<noteq> []"
  shows "where_rows e row c = P"
  using assms matches_where by (auto simp: where_rows_def fun_eq_iff)

lemma rows_by_id:
  "where_rows e user_row (''id='' @ dec_int i) = (\<lambda>u. ui_id u = i)"
  "where_rows e access_row (''id='' @ dec_int i) = (\<lambda>a. ai_id a = i)"
  "where_rows e role_row (''id='' @ dec_int i) = (\<lambda>r. ri_id r = i)"
  by (rule where_rows_sql; simp add: where_id user_row_def access_row_def role_row_def del: append_Cons append_Nil)+

lemma rows_by_text:
  "where_rows e user_row (''name='' @ enc_str n) = (\<lambda>u. ui_name u = cstr n)"
  "where_rows e user_row (''flags='' @ enc_u64 f) = (\<lambda>u. ui_flags u = f)"
  "where_rows e access_row (''user_id='' @ dec_int i) = (\<lambda>a. ai_userId a = i)"
  "where_rows e user_row (''(name='' @ enc_str n @ '' and id<>'' @ dec_int i @ '')'') =
     (\<lambda>u. ui_name u = cstr n \<and> ui_id u \<noteq> i)"
  "where_rows e role_row (''(name='' @ enc_str n @ '' or flags='' @ enc_u64 f @ '')'') =
     (\<lambda>r. ri_name r = cstr n \<or> ri_flags r = f)"
  "where_rows e role_row (''((name='' @ enc_str n @ '' or flags='' @ enc_u64 f @ '') and id<>'' @ dec_int i @ '')'') =
     (\<lambda>r. (ri_name r = cstr n \<or> ri_flags r = f) \<and> ri_id r \<noteq> i)"
  "where_rows e access_row (''user_id='' @ dec_int u @ '' AND server_id='' @ dec_int sv @ '' AND host_group_id='' @ enc_str g) =
     (\<lambda>a. ai_userId a = u \<and> ai_serverId a = sv \<and> ai_hostgroupId a = cstr g)"
  by (rule where_rows_sql;
      simp add: where_name where_flags where_user_id where_user_dup where_role_dup where_role_update_dup where_access
        user_row_def access_row_def role_row_def word_uint_eq_iff del: append_Cons append_Nil)+

lemma rows_accessible:
  "where_rows e access_row (''user_id='' @ dec_int u @ '' AND (server_id='' @ dec_int sv
     @ '' OR server_id='' @ dec_int a @ '') AND host_group_id='' @ enc_str g) =
     (\<lambda>r. ai_userId r = u \<and> (ai_serverId r = sv \<or> ai_serverId r = a) \<and> ai_hostgroupId r = cstr g)"
  "where_rows e access_row (''user_id='' @ dec_int u @ '' AND ((server_id='' @ dec_int a
      @ '') OR  (server_id='' @ dec_int sv @ '' AND   (host_group_id='' @ enc_str g
      @ '' OR host_group_id='' @ enc_str h @ '')))'') =
     (\<lambda>r. ai_userId r = u \<and> (ai_serverId r = a
        \<or> ai_serverId r = sv \<and> (ai_hostgroupId r = cstr g \<or> ai_hostgroupId r = cstr h)))"
  by (rule where_rows_sql;
      simp add: where_accessible_server where_accessible access_row_def del: append_Cons append_Nil)+

lemmas rows_sem = rows_by_id rows_by_text rows_accessible
  rows_by_id [unfolded append_Cons append_Nil] rows_by_text [unfolded append_Cons append_Nil]
  rows_accessible [unfolded append_Cons append_Nil]

lemmas trx_simps = runTransaction_def trx_try_def run_hook_def mem_agent_def mk_row_trx_def Let_def
lemmas tbl_simps = tbl_exists_def tbl_select_def tbl_update_def tbl_delete_def rows_sem filter_empty_conv

subsection \<open>Effects of the operations\<close>

lemma addUserInfo_effect:
  assumes "addUserInfo e db u p = (err, u', db')"
  shows "st_data db' = st_data db \<and> err \<noteq> HTERR_OK
    \<or> op_has p OPPRVLG_CREATE_USER \<and> isValidUserName (ui_name u) = HTERR_OK
      \<and> isValidPassword (ui_password u) = HTERR_OK \<and> isValidFlags (ui_flags u) = HTERR_OK
      \<and> (\<forall>v \<in> set (ut_users (st_data db)). ui_name v \<noteq> cstr (ui_name u))
      \<and> err = HTERR_OK \<and> u' = u\<lparr>ui_id := en_nextId e (map ui_id (ut_users (st_data db)))\<rparr>
      \<and> st_data db' = (st_data db)\<lparr>ut_users := ut_users (st_data db)
          @ [u'\<lparr>ui_name := cstr (ui_name u), ui_password := en_sha256 e (ui_password u)\<rparr>]\<rparr>"
  using assms
  by (auto simp: addUserInfo_def add_user_trx_def trx_simps tbl_simps split: if_splits)

lemma getUserInfo_unique:
  assumes "distinct (map ui_id (ut_users (st_data db)))"
  shows "getUserInfo e db i = Inr (find (\<lambda>u. ui_id u = i) (ut_users (st_data db)))"
proof -
  have never: "\<not> isAlwaysFalseCondition (''id='' @ dec_int i)"
    by (simp add: isAlwaysFalseCondition_def alwaysFalseCondition_def)
  from filter_unique [OF assms, of i] show ?thesis
    by (simp add: getUserInfo_def getUserInfoList_def never tbl_select_def rows_sem del: append_Cons append_Nil
        split: option.splits)
qed

lemma update_user_run:
  fixes u db
  defines "r \<equiv> runTransaction mem_agent (update_user_trx e) None db (mk_row_trx u)"
    and "users \<equiv> ut_users (st_data db)"
  shows "rx_err (snd (snd r)) =
      (if \<not> (\<exists>v \<in> set users. ui_id v = ui_id u) then HTERR_NOT_FOUND_TARGET_RECORD
       else if \<exists>v \<in> set users. ui_name v = cstr (ui_name u) \<and> ui_id v \<noteq> ui_id u then HTERR_USER_NAME_EXIST
       else HTERR_OK)"
    "st_data (fst (snd r)) =
      (if rx_err (snd (snd r)) = HTERR_OK
       then (st_data db)\<lparr>ut_users := map (\<lambda>r. if ui_id r = ui_id u
          then r\<lparr>ui_name := cstr (ui_name u),
                 ui_password := (if ui_password u \<noteq> [] then en_sha256 e (ui_password u) else ui_password r),
                 ui_flags := ui_flags u\<rparr> else r) users\<rparr>
       else st_data db)"
  unfolding r_def users_def
  by (auto simp: update_user_trx_def trx_simps tbl_simps)

lemma updateUserInfo_effect:
  assumes "updateUserInfo e db u p = Inr (err, db')"
  shows "st_data db' = st_data db \<and> err \<noteq> HTERR_OK
    \<or> hasPrivilegeForUpdateUserInfo e db u p = Inr HTERR_OK \<and> isValidUserName (ui_name u) = HTERR_OK
      \<and> (ui_password u = [] \<or> isValidPassword (ui_password u) = HTERR_OK) \<and> isValidFlags (ui_flags u) = HTERR_OK
      \<and> (\<exists>v \<in> set (ut_users (st_data db)). ui_id v = ui_id u)
      \<and> (\<forall>v \<in> set (ut_users (st_data db)). ui_name v = cstr (ui_name u) \<longrightarrow> ui_id v = ui_id u)
      \<and> err = HTERR_OK
      \<and> st_data db' = (st_data db)\<lparr>ut_users := map (\<lambda>r. if ui_id r = ui_id u
          then r\<lparr>ui_name := cstr (ui_name u),
                 ui_password := (if ui_password u \<noteq> [] then en_sha256 e (ui_password u) else ui_password r),
                 ui_flags := ui_flags u\<rparr> else r) (ut_users (st_data db))\<rparr>"
proof -
  obtain a db1 x where r: "runTransaction mem_agent (update_user_trx e) None db (mk_row_trx u) = (a, db1, x)"
    using prod_cases3 by blast
  show ?thesis
    using assms update_user_run [of db u]
    by (auto simp: updateUserInfo_def r bindR_eq_Inr split: if_splits)
qed

lemma updateUserInfoFlags_effect:
  assumes "updateUserInfoFlags e db old new p = (err, db')"
  shows "st_data db' = st_data db \<and> err \<noteq> HTERR_OK
    \<or> op_has p OPPRVLG_UPDATE_USER \<and> isValidFlags new = HTERR_OK \<and> err = HTERR_OK
      \<and> st_data db' = (st_data db)\<lparr>ut_users :=
          map (\<lambda>r. if ui_flags r = old then r\<lparr>ui_flags := new\<rparr> else r) (ut_users (st_data db))\<rparr>"
  using assms
  by (auto simp: updateUserInfoFlags_def update_flags_trx_def trx_simps tbl_simps split: if_splits)

lemma deleteUserInfo_effect:
  assumes "deleteUserInfo e db i p = (err, db')"
  shows "st_data db' = st_data db \<and> err \<noteq> HTERR_OK
    \<or> op_has p OPPRVLG_DELETE_USER \<and> i \<noteq> op_userId p \<and> err = HTERR_OK
      \<and> st_data db' = (st_data db)\<lparr>ut_users := filter (\<lambda>u. ui_id u \<noteq> i) (ut_users (st_data db)),
          ut_access := filter (\<lambda>a. ai_userId a \<noteq> i) (ut_access (st_data db))\<rparr>"
  using assms
  by (auto simp: deleteUserInfo_def delete_user_trx_def trx_simps tbl_simps split: if_splits)

lemma addAccessInfo_effect:
  assumes "addAccessInfo e db a p = (err, a', db')"
  shows "st_data db' = st_data db \<and> err = HTERR_NO_PRIVILEGE
    \<or> op_has p OPPRVLG_UPDATE_USER \<and> err = HTERR_OK
      \<and> (st_data db' = st_data db
         \<or> (\<forall>b \<in> set (ut_access (st_data db)). \<not> (ai_userId b = ai_userId a
              \<and> ai_serverId b = ai_serverId a mod 2 ^ 32 \<and> ai_hostgroupId b = cstr (ai_hostgroupId a)))
           \<and> st_data db' = (st_data db)\<lparr>ut_access := ut_access (st_data db)
               @ [a\<lparr>ai_id := en_nextId e (map ai_id (ut_access (st_data db))), ai_hostgroupId := cstr (ai_hostgroupId a)\<rparr>]\<rparr>)"
  using assms
  by (auto simp: addAccessInfo_def tbl_select_def rows_sem Let_def filter_empty_conv split: if_splits list.splits)

lemma deleteAccessInfo_effect:
  assumes "deleteAccessInfo e db i p = (err, db')"
  shows "st_data db' = st_data db \<and> err = HTERR_NO_PRIVILEGE
    \<or> op_has p OPPRVLG_UPDATE_USER \<and> err = HTERR_OK
      \<and> st_data db' = (st_data db)\<lparr>ut_access := filter (\<lambda>a. ai_id a \<noteq> i) (ut_access (st_data db))\<rparr>"
  using assms by (auto simp: deleteAccessInfo_def tbl_simps split: if_splits)

lemma addUserRoleInfo_effect:
  assumes "addUserRoleInfo e db i p = (err, i', db')"
  shows "st_data db' = st_data db \<and> err \<noteq> HTERR_OK
    \<or> op_has p OPPRVLG_CREATE_USER_ROLE \<and> err = HTERR_OK
      \<and> isValidFlags (ri_flags i) = HTERR_OK \<and> ri_flags i \<noteq> ALL_PRIVILEGES \<and> ri_flags i \<noteq> NONE_PRIVILEGE
      \<and> (\<forall>r \<in> set (ut_roles (st_data db)). ri_name r \<noteq> cstr (ri_name i) \<and> ri_flags r \<noteq> ri_flags i)
      \<and> st_data db' = (st_data db)\<lparr>ut_roles := ut_roles (st_data db)
          @ [\<lparr>ri_id = en_nextId e (map ri_id (ut_roles (st_data db))), ri_name = cstr (ri_name i), ri_flags = ri_flags i\<rparr>]\<rparr>"
  using assms
  by (auto simp: addUserRoleInfo_def add_role_trx_def trx_simps tbl_simps split: if_splits)

lemma updateUserRoleInfo_effect:
  assumes "updateUserRoleInfo e db i p = (err, db')"
  shows "st_data db' = st_data db \<and> err \<noteq> HTERR_OK
    \<or> op_has p OPPRVLG_UPDATE_ALL_USER_ROLE \<and> err = HTERR_OK
      \<and> isValidFlags (ri_flags i) = HTERR_OK \<and> ri_flags i \<noteq> ALL_PRIVILEGES \<and> ri_flags i \<noteq> NONE_PRIVILEGE
      \<and> (\<forall>r \<in> set (ut_roles (st_data db)). ri_id r \<noteq> ri_id i \<longrightarrow> ri_name r \<noteq> cstr (ri_name i) \<and> ri_flags r \<noteq> ri_flags i)
      \<and> st_data db' = (st_data db)\<lparr>ut_roles := map (\<lambda>r. if ri_id r = ri_id i
          then r\<lparr>ri_name := cstr (ri_name i), ri_flags := ri_flags i\<rparr> else r) (ut_roles (st_data db))\<rparr>"
  using assms
  by (auto simp: updateUserRoleInfo_def update_role_trx_def trx_simps tbl_simps split: if_splits)

lemma deleteUserRoleInfo_effect:
  assumes "deleteUserRoleInfo e db i p = (err, db')"
  shows "st_data db' = st_data db \<and> err = HTERR_NO_PRIVILEGE
    \<or> op_has p OPPRVLG_DELETE_ALL_USER_ROLE \<and> err = HTERR_OK
      \<and> st_data db' = (st_data db)\<lparr>ut_roles := filter (\<lambda>r. ri_id r \<noteq> i) (ut_roles (st_data db))\<rparr>"
  using assms by (auto simp: deleteUserRoleInfo_def tbl_simps split: if_splits)

end

section \<open>The invariant of the tables\<close>

definition users_inv :: "user_tables \<Rightarrow> bool" where
  "users_inv d \<longleftrightarrow>
     distinct (map ui_id (ut_users d)) \<and> distinct (map ui_name (ut_users d))
     \<and> (\<forall>u \<in> set (ut_users d). 0 < ui_id u \<and> list_all validUsernameChar (ui_name u)
          \<and> length (ui_name u) \<le> MAX_USER_NAME_LENGTH \<and> ui_flags u < makeFlag NUM_OPPRVLG)"

definition roles_inv :: "user_tables \<Rightarrow> bool" where
  "roles_inv d \<longleftrightarrow>
     distinct (map ri_id (ut_roles d)) \<and> distinct (map ri_name (ut_roles d)) \<and> distinct (map ri_flags (ut_roles d))
     \<and> (\<forall>r \<in> set (ut_roles d). ri_flags r < makeFlag NUM_OPPRVLG
          \<and> ri_flags r \<noteq> ALL_PRIVILEGES \<and> ri_flags r \<noteq> NONE_PRIVILEGE)"

definition access_inv :: "user_tables \<Rightarrow> bool" where
  "access_inv d \<longleftrightarrow>
     distinct (map ai_id (ut_access d))
     \<and> distinct (map (\<lambda>a. (ai_userId a, ai_serverId a, ai_hostgroupId a))
          (filter (\<lambda>a. 0 \<le> ai_serverId a) (ut_access d)))
     \<and> (\<forall>a \<in> set (ut_access d). cstr (ai_hostgroupId a) = ai_hostgroupId a)"

text \<open>One call of an operation on behalf of a user with the privilege \<open>p\<close>.\<close>

inductive user_step :: "user_engine \<Rightarrow> op_privilege \<Rightarrow> user_db \<Rightarrow> user_db \<Rightarrow> bool" for e p where
  "addUserInfo e db u p = (err, u', db') \<Longrightarrow> user_step e p db db'"
| "updateUserInfo e db u p = Inr (err, db') \<Longrightarrow> user_step e p db db'"
| "updateUserInfoFlags e db old new p = (err, db') \<Longrightarrow> user_step e p db db'"
| "deleteUserInfo e db i p = (err, db') \<Longrightarrow> user_step e p db db'"
| "ai_serverId a < 2 ^ 31 \<Longrightarrow> addAccessInfo e db a p = (err, a', db') \<Longrightarrow> user_step e p db db'"
| "deleteAccessInfo e db i p = (err, db') \<Longrightarrow> user_step e p db db'"
| "addUserRoleInfo e db i p = (err, i', db') \<Longrightarrow> user_step e p db db'"
| "updateUserRoleInfo e db i p = (err, db') \<Longrightarrow> user_step e p db db'"
| "deleteUserRoleInfo e db i p = (err, db') \<Longrightarrow> user_step e p db db'"

inductive user_reach :: "user_engine \<Rightarrow> user_db \<Rightarrow> bool" for e where
  start: "user_reach e \<lparr>st_data = \<lparr>ut_users = [], ut_access = [], ut_roles = []\<rparr>, st_base = None\<rparr>"
| step: "user_reach e db \<Longrightarrow> user_step e p db db' \<Longrightarrow> user_reach e db'"

lemma isValidUserName_stored:
  assumes "isValidUserName n = HTERR_OK"
  shows "list_all validUsernameChar (cstr n) \<and> length (cstr n) \<le> MAX_USER_NAME_LENGTH"
proof -
  have "length (cstr n) \<le> length n" by (simp add: cstr_def length_takeWhile_le)
  with assms show ?thesis
    by (auto simp: isValidUserName_def list_all_iff list_ex_iff split: if_splits)
qed

lemma isValidFlags_less: "isValidFlags f = HTERR_OK \<longleftrightarrow> f < makeFlag NUM_OPPRVLG"
  by (auto simp: isValidFlags_def)

lemma distinct_map_update:
  assumes "distinct (map k xs)" "distinct (map f xs)" "\<And>x. x \<in> set xs \<Longrightarrow> k x \<noteq> i \<Longrightarrow> f x \<noteq> c"
  shows "distinct (map (\<lambda>x. if k x = i then c else f x) xs)"
  using assms
proof (induction xs)
  case (Cons x xs)
  have "map (\<lambda>x. if k x = i then c else f x) xs = map f xs" if "i \<notin> k ` set xs"
    using that by (intro map_cong) auto
  with Cons show ?case by (auto simp: image_iff)
qed simp

definition all_inv :: "user_tables \<Rightarrow> bool" where
  "all_inv d \<longleftrightarrow> users_inv d \<and> roles_inv d \<and> access_inv d"

lemma inv_other:
  "users_inv (d\<lparr>ut_access := x\<rparr>) = users_inv d" "users_inv (d\<lparr>ut_roles := y\<rparr>) = users_inv d"
  "roles_inv (d\<lparr>ut_access := x\<rparr>) = roles_inv d" "roles_inv (d\<lparr>ut_users := z\<rparr>) = roles_inv d"
  "access_inv (d\<lparr>ut_users := z\<rparr>) = access_inv d" "access_inv (d\<lparr>ut_roles := y\<rparr>) = access_inv d"
  "access_inv (d\<lparr>ut_users := z, ut_access := x\<rparr>) = access_inv (d\<lparr>ut_access := x\<rparr>)"
  by (simp_all add: users_inv_def roles_inv_def access_inv_def)

context user_engine_ok
begin

lemma add_user_inv: "addUserInfo e db u p = (err, u', db') \<Longrightarrow> users_inv (st_data db) \<Longrightarrow> users_inv (st_data db')"
  using addUserInfo_effect [of db u p err u' db'] nextId_fresh [of "map ui_id (ut_users (st_data db))"]
    nextId_pos [of "map ui_id (ut_users (st_data db))"] isValidUserName_stored [of "ui_name u"]
  by (auto simp: users_inv_def isValidFlags_less) blast+

lemma update_user_inv:
  assumes "updateUserInfo e db u p = Inr (err, db')" "users_inv (st_data db)"
  shows "users_inv (st_data db')"
proof (cases "err = HTERR_OK")
  case True
  let ?us = "ut_users (st_data db)"
  have eff: "isValidUserName (ui_name u) = HTERR_OK" "isValidFlags (ui_flags u) = HTERR_OK"
      "\<forall>v \<in> set ?us. ui_name v = cstr (ui_name u) \<longrightarrow> ui_id v = ui_id u"
      "ut_users (st_data db') = map (\<lambda>r. if ui_id r = ui_id u
          then r\<lparr>ui_name := cstr (ui_name u),
                 ui_password := (if ui_password u \<noteq> [] then en_sha256 e (ui_password u) else ui_password r),
                 ui_flags := ui_flags u\<rparr> else r) ?us"
    using updateUserInfo_effect [OF assms(1)] True by auto
  have ids: "map ui_id (ut_users (st_data db')) = map ui_id ?us" by (simp add: eff(4) comp_def if_distrib cong: if_cong)
  have names: "map ui_name (ut_users (st_data db')) = map (\<lambda>v. if ui_id v = ui_id u then cstr (ui_name u) else ui_name v) ?us"
    by (simp add: eff(4))
  have "distinct (map ui_name (ut_users (st_data db')))"
    unfolding names by (rule distinct_map_update) (use assms(2) eff(3) in \<open>auto simp: users_inv_def\<close>)
  then show ?thesis
    using assms(2) eff(1,2) isValidUserName_stored [OF eff(1)]
    by (auto simp: users_inv_def ids isValidFlags_less) (auto simp: eff(4))
next
  case False
  with assms updateUserInfo_effect [OF assms(1)] show ?thesis by auto
qed

lemma update_flags_inv:
  assumes "updateUserInfoFlags e db old new p = (err, db')" "users_inv (st_data db)"
  shows "users_inv (st_data db')"
  using updateUserInfoFlags_effect [OF assms(1)] assms(2)
  by (auto simp: users_inv_def isValidFlags_less comp_def if_distrib cong: if_cong)

lemma delete_user_inv:
  assumes "deleteUserInfo e db i p = (err, db')" "users_inv (st_data db)"
  shows "users_inv (st_data db')"
  using deleteUserInfo_effect [OF assms(1)] assms(2) by (auto simp: users_inv_def distinct_map_filter)

lemma add_role_inv:
  assumes "addUserRoleInfo e db i p = (err, i', db')" "roles_inv (st_data db)"
  shows "roles_inv (st_data db')"
  using addUserRoleInfo_effect [OF assms(1)] assms(2) nextId_fresh [of "map ri_id (ut_roles (st_data db))"]
  by (auto simp: roles_inv_def isValidFlags_less) blast+

lemma update_role_inv:
  assumes "updateUserRoleInfo e db i p = (err, db')" "roles_inv (st_data db)"
  shows "roles_inv (st_data db')"
proof (cases "err = HTERR_OK")
  case True
  let ?rs = "ut_roles (st_data db)"
  have eff: "isValidFlags (ri_flags i) = HTERR_OK" "ri_flags i \<noteq> ALL_PRIVILEGES" "ri_flags i \<noteq> NONE_PRIVILEGE"
      "\<forall>r \<in> set ?rs. ri_id r \<noteq> ri_id i \<longrightarrow> ri_name r \<noteq> cstr (ri_name i) \<and> ri_flags r \<noteq> ri_flags i"
      "ut_roles (st_data db') = map (\<lambda>r. if ri_id r = ri_id i
          then r\<lparr>ri_name := cstr (ri_name i), ri_flags := ri_flags i\<rparr> else r) ?rs"
    using updateUserRoleInfo_effect [OF assms(1)] True by auto
  have maps: "map ri_id (ut_roles (st_data db')) = map ri_id ?rs"
      "map ri_name (ut_roles (st_data db')) = map (\<lambda>r. if ri_id r = ri_id i then cstr (ri_name i) else ri_name r) ?rs"
      "map ri_flags (ut_roles (st_data db')) = map (\<lambda>r. if ri_id r = ri_id i then ri_flags i else ri_flags r) ?rs"
    by (simp_all add: eff(5) comp_def if_distrib cong: if_cong)
  have "distinct (map ri_name (ut_roles (st_data db')))" "distinct (map ri_flags (ut_roles (st_data db')))"
    unfolding maps by (rule distinct_map_update; use assms(2) eff(4) in \<open>auto simp: roles_inv_def\<close>)+
  then show ?thesis
    using assms(2) eff(1-3) by (auto simp: roles_inv_def maps isValidFlags_less) (auto simp: eff(5))
next
  case False
  with assms updateUserRoleInfo_effect [OF assms(1)] show ?thesis by auto
qed

lemma delete_role_inv:
  assumes "deleteUserRoleInfo e db i p = (err, db')" "roles_inv (st_data db)"
  shows "roles_inv (st_data db')"
  using deleteUserRoleInfo_effect [OF assms(1)] assms(2) by (auto simp: roles_inv_def distinct_map_filter)

lemma add_access_inv:
  assumes "addAccessInfo e db a p = (err, a', db')" "access_inv (st_data db)" "ai_serverId a < 2 ^ 31"
  shows "access_inv (st_data db')"
  using addAccessInfo_effect [OF assms(1)] assms(2,3) nextId_fresh [of "map ai_id (ut_access (st_data db))"]
  by (auto simp: access_inv_def) blast+

lemma delete_access_inv:
  assumes "access_inv d" shows "access_inv (d\<lparr>ut_access := filter P (ut_access d)\<rparr>)"
proof -
  have "filter (\<lambda>a. 0 \<le> ai_serverId a) (filter P (ut_access d)) = filter P (filter (\<lambda>a. 0 \<le> ai_serverId a) (ut_access d))"
    by (simp add: conj_commute)
  with assms show ?thesis by (simp add: access_inv_def distinct_map_filter del: filter_filter)
qed

lemma step_inv:
  assumes "user_step e p db db'" "all_inv (st_data db)"
  shows "all_inv (st_data db')"
  using assms
proof cases
  case (1 u err u')
  then show ?thesis using assms(2) add_user_inv addUserInfo_effect [OF 1] by (auto simp: all_inv_def inv_other)
next
  case (2 u err)
  then show ?thesis using assms(2) update_user_inv updateUserInfo_effect [OF 2] by (auto simp: all_inv_def inv_other)
next
  case (3 old new err)
  then show ?thesis using assms(2) update_flags_inv updateUserInfoFlags_effect [OF 3] by (auto simp: all_inv_def inv_other)
next
  case (4 i err)
  then show ?thesis
    using assms(2) delete_user_inv deleteUserInfo_effect [OF 4] delete_access_inv [of "st_data db"]
    by (auto simp: all_inv_def inv_other)
next
  case (5 a err a')
  then show ?thesis using assms(2) add_access_inv addAccessInfo_effect [OF 5(2)] by (auto simp: all_inv_def inv_other)
next
  case (6 i err)
  then show ?thesis
    using assms(2) deleteAccessInfo_effect [OF 6] delete_access_inv [of "st_data db"] by (auto simp: all_inv_def inv_other)
next
  case (7 i err i')
  then show ?thesis using assms(2) add_role_inv addUserRoleInfo_effect [OF 7] by (auto simp: all_inv_def inv_other)
next
  case (8 i err)
  then show ?thesis using assms(2) update_role_inv updateUserRoleInfo_effect [OF 8] by (auto simp: all_inv_def inv_other)
next
  case (9 i err)
  then show ?thesis using assms(2) delete_role_inv deleteUserRoleInfo_effect [OF 9] by (auto simp: all_inv_def inv_other)
qed

lemma reach_inv: "user_reach e db \<Longrightarrow> all_inv (st_data db)"
proof (induction rule: user_reach.induct)
  case start
  show ?case by (simp add: all_inv_def users_inv_def roles_inv_def access_inv_def)
qed (rule step_inv)

end

section \<open>Callers without privileges\<close>

text \<open>A row of the users as others may see a change of it: the caller's own password is hidden.\<close>

definition hide_own :: "int \<Rightarrow> user_info \<Rightarrow> user_info" where
  "hide_own i u = (if ui_id u = i then u\<lparr>ui_password := []\<rparr> else u)"

context user_engine_ok
begin

lemma valid_no_nul: "list_all validUsernameChar n \<Longrightarrow> cstr n = n"
  by (rule cstr_id) (auto simp: list_all_iff validUsernameChar_def char_class_defs nul_def)

lemma update_unprivileged:
  assumes "updateUserInfo e db u p = Inr (err, db')" "\<not> op_has p OPPRVLG_UPDATE_USER" "users_inv (st_data db)"
  shows "map (hide_own (op_userId p)) (ut_users (st_data db')) = map (hide_own (op_userId p)) (ut_users (st_data db))
    \<and> ut_access (st_data db') = ut_access (st_data db) \<and> ut_roles (st_data db') = ut_roles (st_data db)"
proof (cases "err = HTERR_OK")
  case True
  let ?us = "ut_users (st_data db)"
  have hp: "hasPrivilegeForUpdateUserInfo e db u p = Inr HTERR_OK"
    and data: "st_data db' = (st_data db)\<lparr>ut_users := map (\<lambda>r. if ui_id r = ui_id u
          then r\<lparr>ui_name := cstr (ui_name u),
                 ui_password := (if ui_password u \<noteq> [] then en_sha256 e (ui_password u) else ui_password r),
                 ui_flags := ui_flags u\<rparr> else r) ?us\<rparr>"
    using updateUserInfo_effect [OF assms(1)] True by auto
  have ids: "distinct (map ui_id ?us)" using assms(3) by (simp add: users_inv_def)
  obtain v where own: "ui_id u = op_userId p" and v: "find (\<lambda>w. ui_id w = ui_id u) ?us = Some v"
    and eq: "v\<lparr>ui_password := ui_password u\<rparr> = u"
    using hp assms(2)
    by (auto simp: hasPrivilegeForUpdateUserInfo_def getUserInfo_unique [OF ids] split: if_splits option.splits)
  have "v \<in> set ?us" "ui_id v = ui_id u" using v by (auto simp: find_Some_iff)
  then have same: "w = v" if "w \<in> set ?us" "ui_id w = ui_id u" for w
    using ids that by (metis eq_key_imp_eq_value map_of_eq_Some_iff distinct_map inj_onD)
  have "ui_name u = ui_name v" "ui_flags u = ui_flags v"
    using arg_cong [OF eq, of ui_name] arg_cong [OF eq, of ui_flags] by simp_all
  moreover have "cstr (ui_name v) = ui_name v"
    using \<open>v \<in> set ?us\<close> assms(3) by (intro valid_no_nul) (auto simp: users_inv_def)
  ultimately have "cstr (ui_name u) = ui_name v" "ui_flags u = ui_flags v" by simp_all
  then have "hide_own (op_userId p) (if ui_id r = ui_id u
          then r\<lparr>ui_name := cstr (ui_name u),
                 ui_password := (if ui_password u \<noteq> [] then en_sha256 e (ui_password u) else ui_password r),
                 ui_flags := ui_flags u\<rparr> else r) = hide_own (op_userId p) r" if "r \<in> set ?us" for r
    using same [OF that] own by (auto simp: hide_own_def)
  then show ?thesis by (simp add: data)
next
  case False
  with updateUserInfo_effect [OF assms(1)] show ?thesis by auto
qed

lemma step_unprivileged:
  assumes "user_step e p db db'" "users_inv (st_data db)"
    and "\<forall>t \<in> {OPPRVLG_CREATE_USER, OPPRVLG_UPDATE_USER, OPPRVLG_DELETE_USER, OPPRVLG_CREATE_USER_ROLE,
          OPPRVLG_UPDATE_ALL_USER_ROLE, OPPRVLG_DELETE_ALL_USER_ROLE}. \<not> op_has p t"
  shows "map (hide_own (op_userId p)) (ut_users (st_data db')) = map (hide_own (op_userId p)) (ut_users (st_data db))
    \<and> ut_access (st_data db') = ut_access (st_data db) \<and> ut_roles (st_data db') = ut_roles (st_data db)"
  using assms(1)
proof cases
  case (1 u err u')
  then show ?thesis using assms(3) addUserInfo_effect [OF 1] by simp
next
  case (2 u err)
  with assms show ?thesis by (intro update_unprivileged) auto
next
  case (3 old new err)
  then show ?thesis using assms(3) updateUserInfoFlags_effect [OF 3] by simp
next
  case (4 i err)
  then show ?thesis using assms(3) deleteUserInfo_effect [OF 4] by simp
next
  case (5 a err a')
  then show ?thesis using assms(3) addAccessInfo_effect [OF 5(2)] by simp
next
  case (6 i err)
  then show ?thesis using assms(3) deleteAccessInfo_effect [OF 6] by simp
next
  case (7 i err i')
  then show ?thesis using assms(3) addUserRoleInfo_effect [OF 7] by simp
next
  case (8 i err)
  then show ?thesis using assms(3) updateUserRoleInfo_effect [OF 8] by simp
next
  case (9 i err)
  then show ?thesis using assms(3) deleteUserRoleInfo_effect [OF 9] by simp
qed

subsection \<open>Logging in\<close>

lemma getUserId_iff:
  assumes "users_inv (st_data db)" "i \<noteq> INVALID_USER_ID"
  shows "getUserId e db n pw = i \<longleftrightarrow>
     isValidUserName n = HTERR_OK \<and> isValidPassword pw = HTERR_OK
     \<and> (\<exists>u \<in> set (ut_users (st_data db)). ui_id u = i \<and> ui_name u = cstr n \<and> ui_password u = en_sha256 e pw)"
proof -
  let ?us = "ut_users (st_data db)"
  have "distinct (map ui_name ?us)" using assms(1) by (simp add: users_inv_def)
  note sel = filter_unique [OF this, of "cstr n"]
  have one: "u = v" if "u \<in> set ?us" "v \<in> set ?us" "ui_name u = ui_name v" for u v
    using assms(1) that by (auto simp: users_inv_def distinct_map dest: inj_onD)
  show ?thesis
  proof (cases "find (\<lambda>u. ui_name u = cstr n) ?us")
    case None
    then have "\<forall>u \<in> set ?us. ui_name u \<noteq> cstr n" by (auto simp: find_None_iff)
    moreover have "getUserId e db n pw = INVALID_USER_ID"
      using sel None by (simp add: getUserId_def tbl_select_def rows_sem)
    ultimately show ?thesis using assms(2) by auto
  next
    case (Some u)
    then have u: "u \<in> set ?us" "ui_name u = cstr n" by (auto simp: find_Some_iff)
    have "(\<exists>v \<in> set ?us. ui_id v = i \<and> ui_name v = cstr n \<and> ui_password v = en_sha256 e pw)
        \<longleftrightarrow> ui_id u = i \<and> ui_password u = en_sha256 e pw"
      using u one [OF u(1)] by metis
    moreover have "getUserId e db n pw = (if isValidUserName n \<noteq> HTERR_OK \<or> isValidPassword pw \<noteq> HTERR_OK
        \<or> ui_password u \<noteq> en_sha256 e pw then INVALID_USER_ID else ui_id u)"
      using sel Some by (simp add: getUserId_def tbl_select_def rows_sem)
    ultimately show ?thesis using assms(2) by auto
  qed
qed

end

end
