(* ===== verification/User_Access.thy ===== *)
theory User_Access
  imports User_Props
begin

text \<open>
  What the user tables promise to their clients: who may change what, that a created user can log
  in, what an access list grants, and where \<open>addAccessInfo\<close> and \<open>updateDB\<close> depart from that.
\<close>

section \<open>An engine\<close>

text \<open>The reader of conditions with the next free number as automatic value meets the contract.\<close>

definition std_engine :: user_engine where
  "std_engine = \<lparr>en_matches = std_matches, en_nextId = (\<lambda>ids. fold max ids 0 + 1), en_sha256 = rev\<rparr>"

lemma fold_max_ge: "x \<in> set ids \<or> x \<le> a \<Longrightarrow> x \<le> fold max ids (a :: int)"
  by (induction ids arbitrary: a) (auto simp: max_def)

interpretation std_user: user_engine_ok std_engine
proof unfold_locales
  show "en_matches std_engine s row = b" if "sql_where s row = Some b" for s row b
    using std.matches_where [OF that] by (simp add: std_engine_def)
  fix ids
  show "en_nextId std_engine ids \<notin> set ids" using fold_max_ge [of _ ids 0] by (force simp: std_engine_def)
  show "0 < en_nextId std_engine ids" using fold_max_ge [of 0 ids 0] by (simp add: std_engine_def)
qed

section \<open>The access map\<close>

definition granted :: "server_grp_map \<Rightarrow> int \<Rightarrow> string \<Rightarrow> bool" where
  "granted m s g \<longleftrightarrow> (\<exists>hgs. map_of m s = Some hgs \<and> g \<in> set hgs)"

lemma std_set_insert_Nil [simp]: "std_set_insert x xs \<noteq> []"
  using set_std_set_insert [of x xs] by (metis insert_not_empty set_empty)

lemma grp_map_insert:
  assumes "std_map_wf m"
  shows "std_map_wf (grp_map_insert a m)"
    "granted (grp_map_insert a m) s g \<longleftrightarrow> granted m s g \<or> ai_serverId a = s \<and> ai_hostgroupId a = g"
    "map_of (grp_map_insert a m) s = None \<longleftrightarrow> map_of m s = None \<and> s \<noteq> ai_serverId a"
    "map_of (grp_map_insert a m) s = Some [] \<Longrightarrow> map_of m s = Some []"
  using assms
  by (auto simp: grp_map_insert_def Let_def granted_def map_of_std_map_put split: option.splits if_splits) metis

lemma fold_grp_map_insert:
  assumes "std_map_wf m"
  shows "std_map_wf (fold grp_map_insert as m)"
    "granted (fold grp_map_insert as m) s g \<longleftrightarrow>
       granted m s g \<or> (\<exists>a \<in> set as. ai_serverId a = s \<and> ai_hostgroupId a = g)"
    "map_of (fold grp_map_insert as m) s = None \<longleftrightarrow> map_of m s = None \<and> (\<forall>a \<in> set as. ai_serverId a \<noteq> s)"
    "map_of (fold grp_map_insert as m) s = Some [] \<Longrightarrow> map_of m s = Some []"
proof -
  have "std_map_wf (fold grp_map_insert as m)
      \<and> (granted (fold grp_map_insert as m) s g \<longleftrightarrow>
           granted m s g \<or> (\<exists>a \<in> set as. ai_serverId a = s \<and> ai_hostgroupId a = g))
      \<and> (map_of (fold grp_map_insert as m) s = None \<longleftrightarrow> map_of m s = None \<and> (\<forall>a \<in> set as. ai_serverId a \<noteq> s))
      \<and> (map_of (fold grp_map_insert as m) s = Some [] \<longrightarrow> map_of m s = Some [])"
    using assms
  proof (induction as arbitrary: m)
    case (Cons a as)
    note m = grp_map_insert [OF Cons.prems, of a]
    note IH = Cons.IH [OF m(1)]
    show ?case
      using m(2) [of s g] m(3) [of s] m(4) [of s] IH by auto
  qed simp
  then show "std_map_wf (fold grp_map_insert as m)"
    "granted (fold grp_map_insert as m) s g \<longleftrightarrow>
       granted m s g \<or> (\<exists>a \<in> set as. ai_serverId a = s \<and> ai_hostgroupId a = g)"
    "map_of (fold grp_map_insert as m) s = None \<longleftrightarrow> map_of m s = None \<and> (\<forall>a \<in> set as. ai_serverId a \<noteq> s)"
    "map_of (fold grp_map_insert as m) s = Some [] \<Longrightarrow> map_of m s = Some []"
    by blast+
qed

lemma granted_Nil [simp]: "\<not> granted [] s g"
  by (simp add: granted_def)

context user_engine_ok
begin

lemma getServerHostGrpSetMap_rows:
  "getServerHostGrpSetMap e db i = fold grp_map_insert (filter (\<lambda>a. ai_userId a = i) (ut_access (st_data db))) []"
  by (simp add: getServerHostGrpSetMap_def tbl_select_def rows_sem)

lemma isAccessible_rows:
  "isAccessible e db s g p \<longleftrightarrow> op_userId p \<noteq> INVALID_USER_ID \<and>
     (\<exists>a \<in> set (ut_access (st_data db)). ai_userId a = op_userId p \<and> (ai_serverId a = ALL_SERVERS
        \<or> ai_serverId a = s \<and> (ai_hostgroupId a = ALL_HOST_GROUPS \<or> ai_hostgroupId a = cstr g)))"
proof -
  have "cstr ALL_HOST_GROUPS = ALL_HOST_GROUPS" by (simp add: ALL_HOST_GROUPS_def cstr_def nul_def)
  then show ?thesis
    by (auto simp: isAccessible_def isAccessibleCond_def tbl_select_def rows_sem filter_empty_conv)
qed

lemma isAccessibleServer_rows:
  "isAccessibleServer e db s p \<longleftrightarrow> op_userId p \<noteq> INVALID_USER_ID \<and>
     (\<exists>a \<in> set (ut_access (st_data db)). ai_userId a = op_userId p
        \<and> (ai_serverId a = s \<or> ai_serverId a = ALL_SERVERS) \<and> ai_hostgroupId a = ALL_HOST_GROUPS)"
proof -
  have "cstr ALL_HOST_GROUPS = ALL_HOST_GROUPS" by (simp add: ALL_HOST_GROUPS_def cstr_def nul_def)
  then show ?thesis
    by (auto simp: isAccessibleServer_def Let_def tbl_select_def rows_sem filter_empty_conv)
qed

lemma isAccessible_map:
  fixes p db
  defines "m \<equiv> getServerHostGrpSetMap e db (op_userId p)"
  shows "isAccessible e db s g p \<longleftrightarrow> op_userId p \<noteq> INVALID_USER_ID \<and>
      (map_of m ALL_SERVERS \<noteq> None \<or> granted m s ALL_HOST_GROUPS \<or> granted m s (cstr g))"
    "isAccessibleServer e db s p \<longleftrightarrow> op_userId p \<noteq> INVALID_USER_ID \<and>
      (granted m s ALL_HOST_GROUPS \<or> granted m ALL_SERVERS ALL_HOST_GROUPS)"
proof -
  have "granted m s g \<longleftrightarrow> (\<exists>a \<in> set (ut_access (st_data db)). ai_userId a = op_userId p \<and> ai_serverId a = s \<and> ai_hostgroupId a = g)"
      "map_of m s \<noteq> None \<longleftrightarrow> (\<exists>a \<in> set (ut_access (st_data db)). ai_userId a = op_userId p \<and> ai_serverId a = s)" for s g
    unfolding m_def getServerHostGrpSetMap_rows by (simp_all add: fold_grp_map_insert(2,3)) blast+
  then show "isAccessible e db s g p \<longleftrightarrow> op_userId p \<noteq> INVALID_USER_ID \<and>
      (map_of m ALL_SERVERS \<noteq> None \<or> granted m s ALL_HOST_GROUPS \<or> granted m s (cstr g))"
    "isAccessibleServer e db s p \<longleftrightarrow> op_userId p \<noteq> INVALID_USER_ID \<and>
      (granted m s ALL_HOST_GROUPS \<or> granted m ALL_SERVERS ALL_HOST_GROUPS)"
    unfolding isAccessible_rows isAccessibleServer_rows by blast+
qed

end

section \<open>Logging in\<close>

context user_engine_ok
begin

lemma users_one_name:
  "users_inv d \<Longrightarrow> u \<in> set (ut_users d) \<Longrightarrow> v \<in> set (ut_users d) \<Longrightarrow> ui_name u = ui_name v \<Longrightarrow> u = v"
  by (auto simp: users_inv_def distinct_map dest: inj_onD)

lemma login_other:
  assumes "users_inv (st_data db)" "users_inv (st_data db')"
    and "\<And>u. ui_name u = cstr n \<Longrightarrow> u \<in> set (ut_users (st_data db')) \<longleftrightarrow> u \<in> set (ut_users (st_data db))"
  shows "getUserId e db' n pw = getUserId e db n pw"
proof (rule ccontr)
  assume ne: "getUserId e db' n pw \<noteq> getUserId e db n pw"
  then have "(\<exists>i. i \<noteq> INVALID_USER_ID \<and> (getUserId e db' n pw = i) \<noteq> (getUserId e db n pw = i))" by metis
  then show False using getUserId_iff [OF assms(1)] getUserId_iff [OF assms(2)] assms(3) by metis
qed

lemma login_added:
  assumes "users_inv (st_data db)" "addUserInfo e db u p = (HTERR_OK, u', db')"
  shows "getUserId e db' (ui_name u) (ui_password u) = ui_id u'"
    "cstr n \<noteq> cstr (ui_name u) \<Longrightarrow> getUserId e db' n pw = getUserId e db n pw"
proof -
  have eff: "isValidUserName (ui_name u) = HTERR_OK" "isValidPassword (ui_password u) = HTERR_OK"
      "u' = u\<lparr>ui_id := en_nextId e (map ui_id (ut_users (st_data db)))\<rparr>"
      "st_data db' = (st_data db)\<lparr>ut_users := ut_users (st_data db)
          @ [u'\<lparr>ui_name := cstr (ui_name u), ui_password := en_sha256 e (ui_password u)\<rparr>]\<rparr>"
    using addUserInfo_effect [OF assms(2)] by auto
  have inv: "users_inv (st_data db')" using add_user_inv assms by blast
  have "ui_id u' \<noteq> INVALID_USER_ID"
    using nextId_pos [of "map ui_id (ut_users (st_data db))"] by (simp add: eff(3) INVALID_USER_ID_def)
  then show "getUserId e db' (ui_name u) (ui_password u) = ui_id u'"
    using eff by (simp add: getUserId_iff [OF inv])
  show "getUserId e db' n pw = getUserId e db n pw" if "cstr n \<noteq> cstr (ui_name u)"
    by (rule login_other [OF assms(1) inv]) (use that eff(4) in auto)
qed

lemma login_deleted:
  assumes "users_inv (st_data db)" "deleteUserInfo e db i p = (HTERR_OK, db')" "i \<noteq> INVALID_USER_ID"
  shows "getUserId e db' n pw = (if getUserId e db n pw = i then INVALID_USER_ID else getUserId e db n pw)"
proof -
  have us: "ut_users (st_data db') = filter (\<lambda>u. ui_id u \<noteq> i) (ut_users (st_data db))"
    using deleteUserInfo_effect [OF assms(2)] by auto
  have inv: "users_inv (st_data db')" using delete_user_inv assms by blast
  have never: "getUserId e db' n pw \<noteq> i" using getUserId_iff [OF inv assms(3)] us by auto
  have "getUserId e db' n pw = j \<longleftrightarrow> getUserId e db n pw = j" if "j \<noteq> INVALID_USER_ID" "j \<noteq> i" for j
    using getUserId_iff [OF inv that(1)] getUserId_iff [OF assms(1) that(1)] us that(2) by auto
  then show ?thesis using never by metis
qed

subsection \<open>What a caller sees\<close>

lemma where_conjunctions:
  "sql_where (''flags='' @ enc_u64 f @ '' AND id='' @ dec_int i) row =
    Some (row ''flags'' = VInt (uint f) \<and> row ''id'' = VInt i)"
  "sql_where (''flags='' @ enc_u64 f @ '' AND name='' @ enc_str n) row =
    Some (row ''flags'' = VInt (uint f) \<and> row ''name'' = VStr (cstr n))"
  "sql_where (''id='' @ dec_int i @ '' AND name='' @ enc_str n) row =
    Some (row ''id'' = VInt i \<and> row ''name'' = VStr (cstr n))"
  "sql_where (''flags='' @ enc_u64 f @ '' AND id='' @ dec_int i @ '' AND name='' @ enc_str n) row =
    Some (row ''flags'' = VInt (uint f) \<and> row ''id'' = VInt i \<and> row ''name'' = VStr (cstr n))"
  by (simp_all add: where_texts)

lemma rows_conjunctions:
  "where_rows e user_row (''flags='' @ enc_u64 f @ '' AND id='' @ dec_int i) = (\<lambda>u. ui_flags u = f \<and> ui_id u = i)"
  "where_rows e user_row (''flags='' @ enc_u64 f @ '' AND name='' @ enc_str n) =
     (\<lambda>u. ui_flags u = f \<and> ui_name u = cstr n)"
  "where_rows e user_row (''id='' @ dec_int i @ '' AND name='' @ enc_str n) = (\<lambda>u. ui_id u = i \<and> ui_name u = cstr n)"
  "where_rows e user_row (''flags='' @ enc_u64 f @ '' AND id='' @ dec_int i @ '' AND name='' @ enc_str n) =
     (\<lambda>u. ui_flags u = f \<and> ui_id u = i \<and> ui_name u = cstr n)"
  by (rule where_rows_sql;
      simp add: where_conjunctions user_row_def word_uint_eq_iff del: append_Cons append_Nil)+

lemma getUserInfoList_exact:
  assumes "op_userId (uq_privilege opt) \<noteq> INVALID_USER_ID"
  shows "getUserInfoList e db (uq_getCondition opt) =
    filter (\<lambda>u. (uq_hasPrivilegesFlags opt \<longrightarrow> ui_flags u = uq_targetFlags opt)
       \<and> (op_has (uq_privilege opt) OPPRVLG_GET_ALL_USER \<and> \<not> uq_onlyMyself opt \<or> ui_id u = op_userId (uq_privilege opt))
       \<and> (uq_targetName opt = [] \<or> ui_name u = cstr (uq_targetName opt))) (ut_users (st_data db))"
proof -
  have never: "\<not> isAlwaysFalseCondition (''flags='' @ x)" "\<not> isAlwaysFalseCondition (''id='' @ x)"
      "\<not> isAlwaysFalseCondition (''name='' @ x)" "\<not> isAlwaysFalseCondition []" for x
    by (simp_all add: isAlwaysFalseCondition_def alwaysFalseCondition_def)
  note rows = rows_conjunctions rows_by_text(1,2) rows_by_id(1)
  show ?thesis
    using assms
    by (cases "uq_hasPrivilegesFlags opt"; cases "op_has (uq_privilege opt) OPPRVLG_GET_ALL_USER \<and> \<not> uq_onlyMyself opt";
        cases "uq_targetName opt = []")
       (auto simp: uq_getCondition_def Let_def addCondition_def getUserInfoList_def tbl_select_def where_rows_def [of _ _ "[]"]
          never rows never [unfolded append_Cons append_Nil] rows [unfolded append_Cons append_Nil] intro!: filter_cong)
qed

lemma getUserInfoList_anonymous:
  "op_userId (uq_privilege opt) = INVALID_USER_ID \<Longrightarrow> getUserInfoList e db (uq_getCondition opt) = []"
  by (simp add: getUserInfoList_def uq_getCondition_def isAlwaysFalseCondition_def)

end

section \<open>Upgrades\<close>

text \<open>Administrators are the users whose flags are all the privileges of an older version.\<close>

definition admin_update :: "opflag \<Rightarrow> user_db \<Rightarrow> user_db" where
  "admin_update f db =
     set_users db (map (\<lambda>u. if ui_flags u = f then u\<lparr>ui_flags := ALL_PRIVILEGES\<rparr> else u) (ut_users (st_data db)))"

definition old_admin_bits :: "int \<Rightarrow> nat" where
  "old_admin_bits ver =
     (if ver \<le> 1 then 10 else if ver \<le> 2 then 16 else if ver \<le> 3 then 19
      else if ver \<le> getPackedVer 0 1 1 then 23 else 29)"

lemma admin_update_idem: "admin_update f (admin_update f db) = admin_update f db"
  by (auto simp: admin_update_def)

lemma packed_0_1: "getPackedVer 0 1 1 = 4097" "getPackedVer 0 1 2 = 4098"
  by code_simp+

context user_engine_ok
begin

lemma updateAdminPrivilege_admin:
  "updateAdminPrivilege e k (None, db) = (Some (push_bit k 1 - 1), admin_update (push_bit k 1 - 1) db)"
  "updateAdminPrivilege e k (Some f, db) = (Some f, admin_update f db)"
  by (simp_all add: updateAdminPrivilege_def tbl_update_def rows_sem Let_def admin_update_def)

lemma updateDB_first:
  assumes "ver \<le> getPackedVer 0 1 2"
  shows "snd (updateDB e ver (None, db)) = admin_update (push_bit (old_admin_bits ver) 1 - 1) db"
  using assms unfolding updateDB_def packed_0_1 old_admin_bits_def
  by (simp add: updateAdminPrivilege_admin admin_update_idem Let_def del: push_bit_of_1)

end

lemma mod_unsigned_negative: "- m \<le> x \<Longrightarrow> x < 0 \<Longrightarrow> x mod m = x + (m :: int)"
  using mod_pos_pos_trivial [of "x + m" m] by simp

section \<open>Properties\<close>

definition ex_db :: user_db where
  "ex_db = \<lparr>st_data = \<lparr>ut_users = [], ut_access = [], ut_roles = []\<rparr>, st_base = None\<rparr>"

definition ex_admin :: op_privilege where
  "ex_admin = \<lparr>op_userId = 0, op_flags = ALL_PRIVILEGES\<rparr>"

definition ex_alice :: user_info where
  "ex_alice = \<lparr>ui_id = 0, ui_name = ''alice'', ui_password = ''secret'', ui_flags = 0\<rparr>"

definition ex_bob :: user_info where
  "ex_bob = \<lparr>ui_id = 0, ui_name = ''bob'', ui_password = ''pw'', ui_flags = 0\<rparr>"

definition ex_db1 :: user_db where
  "ex_db1 = snd (snd (addUserInfo std_engine ex_db ex_alice ex_admin))"

definition ex_db2 :: user_db where
  "ex_db2 = snd (snd (addUserInfo std_engine ex_db1 ex_bob ex_admin))"

lemma add_user_step: "user_step e p db (snd (snd (addUserInfo e db u p)))"
  by (rule user_step.intros(1)) (simp add: prod_eq_iff)

lemma ex_reach: "user_reach std_engine ex_db1" "user_reach std_engine ex_db2"
proof -
  have "user_reach std_engine ex_db" unfolding ex_db_def by (rule user_reach.start)
  moreover have "user_step std_engine ex_admin ex_db ex_db1" "user_step std_engine ex_admin ex_db1 ex_db2"
    by (simp_all only: ex_db1_def ex_db2_def add_user_step)
  ultimately show "user_reach std_engine ex_db1" "user_reach std_engine ex_db2"
    by (blast intro: user_reach.step)+
qed

lemma ex_db2_rows:
  "ut_users (st_data ex_db2) =
     [\<lparr>ui_id = 1, ui_name = ''alice'', ui_password = ''terces'', ui_flags = 0\<rparr>,
      \<lparr>ui_id = 2, ui_name = ''bob'', ui_password = ''wp'', ui_flags = 0\<rparr>]"
  by code_simp

text \<open>
  C4. Whatever sequence of operations the users of the system perform on the empty tables, the
  identifiers and the names of users stay unique, every user name has only valid characters, every
  privilege flag is valid, no two roles share an identifier, a name or a flag set, and an
  access entry for a registered server is never recorded twice.
\<close>

theorem user_tables_invariant:
  assumes "user_engine_ok e" and "user_reach e db"
  shows "users_inv (st_data db) \<and> roles_inv (st_data db) \<and> access_inv (st_data db)"
  using user_engine_ok.reach_inv [OF assms] by (simp add: all_inv_def)

theorem user_tables_invariant_witness:
  "users_inv (st_data ex_db2) \<and> length (ut_users (st_data ex_db2)) = 2"
  using user_tables_invariant [OF std_user.user_engine_ok_axioms ex_reach(2)] by (simp add: ex_db2_rows)

text \<open>
  C3. A caller who has none of the privileges on users and roles changes at most the password of
  his own account, whichever operation he calls: every other field of every user, the access list
  and the roles stay as they are.
\<close>

theorem unprivileged_caller:
  assumes "user_engine_ok e" and "user_reach e db" and "user_step e p db db'"
    and "\<forall>t \<in> {OPPRVLG_CREATE_USER, OPPRVLG_UPDATE_USER, OPPRVLG_DELETE_USER, OPPRVLG_CREATE_USER_ROLE,
          OPPRVLG_UPDATE_ALL_USER_ROLE, OPPRVLG_DELETE_ALL_USER_ROLE}. \<not> op_has p t"
  shows "map (hide_own (op_userId p)) (ut_users (st_data db')) = map (hide_own (op_userId p)) (ut_users (st_data db))
    \<and> ut_access (st_data db') = ut_access (st_data db) \<and> ut_roles (st_data db') = ut_roles (st_data db)"
proof -
  have "users_inv (st_data db)" using user_engine_ok.reach_inv [OF assms(1,2)] by (simp add: all_inv_def)
  then show ?thesis by (rule user_engine_ok.step_unprivileged [OF assms(1,3) _ assms(4)])
qed

text \<open>Alice gives herself a new password.\<close>

definition ex_alice_new :: user_info where
  "ex_alice_new = \<lparr>ui_id = 1, ui_name = ''alice'', ui_password = ''x'', ui_flags = 0\<rparr>"

definition ex_self :: op_privilege where
  "ex_self = \<lparr>op_userId = 1, op_flags = 0\<rparr>"

lemma ex_update:
  "map_sum id (\<lambda>(err, db). (err, map ui_password (ut_users (st_data db)))) (updateUserInfo std_engine ex_db2 ex_alice_new ex_self)
     = Inr (HTERR_OK, [''x'', ''wp''])"
  by code_simp

theorem unprivileged_caller_witness:
  "\<exists>db'. updateUserInfo std_engine ex_db2 ex_alice_new ex_self = Inr (HTERR_OK, db')
     \<and> map ui_password (ut_users (st_data db')) = [''x'', ''wp'']
     \<and> map (hide_own 1) (ut_users (st_data db')) = map (hide_own 1) (ut_users (st_data ex_db2))"
proof -
  obtain db' where db': "updateUserInfo std_engine ex_db2 ex_alice_new ex_self = Inr (HTERR_OK, db')"
      "map ui_password (ut_users (st_data db')) = [''x'', ''wp'']"
    using ex_update by (cases "updateUserInfo std_engine ex_db2 ex_alice_new ex_self") auto
  have "user_step std_engine ex_self ex_db2 db'" using db'(1) by (rule user_step.intros(2))
  from unprivileged_caller [OF std_user.user_engine_ok_axioms ex_reach(2) this] db'
  show ?thesis by (simp add: ex_self_def op_has_def)
qed

text \<open>
  A user who has been added can log in at once with the name and the password given, and gets
  the identifier returned; the other accounts log in as before.
\<close>

lemma added_user_logs_in:
  assumes "user_engine_ok e" and "user_reach e db" and "addUserInfo e db u p = (HTERR_OK, u', db')"
  shows "getUserId e db' (ui_name u) (ui_password u) = ui_id u'
    \<and> (\<forall>n pw. cstr n \<noteq> cstr (ui_name u) \<longrightarrow> getUserId e db' n pw = getUserId e db n pw)"
proof -
  have "users_inv (st_data db)" using user_engine_ok.reach_inv [OF assms(1,2)] by (simp add: all_inv_def)
  from user_engine_ok.login_added [OF assms(1) this assms(3)] show ?thesis by blast
qed

lemma ex_add_bob:
  "addUserInfo std_engine ex_db1 ex_bob ex_admin = (HTERR_OK, ex_bob\<lparr>ui_id := 2\<rparr>, ex_db2)"
proof -
  have "fst (addUserInfo std_engine ex_db1 ex_bob ex_admin) = HTERR_OK"
      "fst (snd (addUserInfo std_engine ex_db1 ex_bob ex_admin)) = ex_bob\<lparr>ui_id := 2\<rparr>"
    by code_simp+
  then show ?thesis by (simp add: ex_db2_def prod_eq_iff)
qed

lemma added_user_logs_in_witness:
  "getUserId std_engine ex_db2 ''bob'' ''pw'' = 2
   \<and> getUserId std_engine ex_db2 ''alice'' ''secret'' = getUserId std_engine ex_db1 ''alice'' ''secret''"
proof -
  have "cstr ''alice'' \<noteq> cstr ''bob''" by code_simp
  with added_user_logs_in [OF std_user.user_engine_ok_axioms ex_reach(1) ex_add_bob] show ?thesis
    by (simp add: ex_bob_def)
qed

text \<open>
  C10. Deleting a user removes his account and all his access entries and nothing else: no name and
  password lead to his identifier any more, every other login gives what it gave before. Nobody can
  delete his own account.
\<close>

theorem deleted_user_is_gone:
  assumes "user_engine_ok e" and "user_reach e db" and "deleteUserInfo e db i p = (err, db')"
    and "i \<noteq> INVALID_USER_ID"
  shows "(op_has p OPPRVLG_DELETE_USER \<and> i \<noteq> op_userId p \<longleftrightarrow> err = HTERR_OK)
    \<and> (err = HTERR_OK \<longrightarrow>
          ut_access (st_data db') = filter (\<lambda>a. ai_userId a \<noteq> i) (ut_access (st_data db))
          \<and> ut_roles (st_data db') = ut_roles (st_data db)
          \<and> (\<forall>n pw. getUserId e db' n pw =
                (if getUserId e db n pw = i then INVALID_USER_ID else getUserId e db n pw)))
    \<and> (err \<noteq> HTERR_OK \<longrightarrow> st_data db' = st_data db)"
proof -
  have "users_inv (st_data db)" using user_engine_ok.reach_inv [OF assms(1,2)] by (simp add: all_inv_def)
  then have "err = HTERR_OK \<Longrightarrow> getUserId e db' n pw =
      (if getUserId e db n pw = i then INVALID_USER_ID else getUserId e db n pw)" for n pw
    using user_engine_ok.login_deleted [OF assms(1) _ _ assms(4)] assms(3) by blast
  moreover have "op_has p OPPRVLG_DELETE_USER \<and> i \<noteq> op_userId p \<Longrightarrow> err = HTERR_OK"
    using assms(3) by (auto simp: deleteUserInfo_def split: prod.splits)
  ultimately show ?thesis using user_engine_ok.deleteUserInfo_effect [OF assms(1,3)] by auto
qed

lemma ex_logins:
  "getUserId std_engine ex_db2 ''alice'' ''secret'' = 1" "getUserId std_engine ex_db2 ''bob'' ''pw'' = 2"
  by code_simp+

theorem deleted_user_is_gone_witness:
  "\<exists>db'. deleteUserInfo std_engine ex_db2 1 ex_admin = (HTERR_OK, db')
     \<and> getUserId std_engine db' ''alice'' ''secret'' = INVALID_USER_ID
     \<and> getUserId std_engine db' ''bob'' ''pw'' = 2"
proof -
  obtain err db' where db': "deleteUserInfo std_engine ex_db2 1 ex_admin = (err, db')" by fastforce
  have "op_has ex_admin OPPRVLG_DELETE_USER" "(1 :: int) \<noteq> op_userId ex_admin" "(1 :: int) \<noteq> INVALID_USER_ID"
    by code_simp+
  with deleted_user_is_gone [OF std_user.user_engine_ok_axioms ex_reach(2) db'] db' ex_logins
  show ?thesis by auto
qed

text \<open>
  The list of users a caller gets is exactly what his privilege, the name and the flags of the
  query select; without the privilege to read all users it has his own record at most, and an
  invalid caller gets the empty list.
\<close>

lemma user_list_exact:
  assumes "user_engine_ok e"
  shows "getUserInfoList e db (uq_getCondition opt) =
    filter (\<lambda>u. op_userId (uq_privilege opt) \<noteq> INVALID_USER_ID
       \<and> (uq_hasPrivilegesFlags opt \<longrightarrow> ui_flags u = uq_targetFlags opt)
       \<and> (op_has (uq_privilege opt) OPPRVLG_GET_ALL_USER \<and> \<not> uq_onlyMyself opt \<or> ui_id u = op_userId (uq_privilege opt))
       \<and> (uq_targetName opt = [] \<or> ui_name u = cstr (uq_targetName opt))) (ut_users (st_data db))"
  using user_engine_ok.getUserInfoList_exact [OF assms] user_engine_ok.getUserInfoList_anonymous [OF assms]
  by (cases "op_userId (uq_privilege opt) = INVALID_USER_ID") simp_all

lemma user_list_exact_witness:
  "map ui_name (getUserInfoList std_engine ex_db2 (uq_getCondition (mk_user_query_option ex_self))) = [''alice'']
   \<and> map ui_name (getUserInfoList std_engine ex_db2 (uq_getCondition (mk_user_query_option ex_admin))) = [''alice'', ''bob'']"
proof -
  have "op_has ex_admin OPPRVLG_GET_ALL_USER" "\<not> op_has ex_self OPPRVLG_GET_ALL_USER" by code_simp+
  then show ?thesis
    unfolding user_list_exact [OF std_user.user_engine_ok_axioms]
    by (simp add: mk_user_query_option_def ex_db2_rows ex_self_def ex_admin_def INVALID_USER_ID_def)
qed

text \<open>
  The two ways to ask for access agree: the queries of \<open>isAccessible\<close> and the map that
  \<open>getServerHostGrpSetMap\<close> collects for the conditions of other queries. A hostgroup of a server is
  accessible if and only if the map has an entry for every server, or grants every hostgroup of the
  server, or that hostgroup; a whole server if and only if every hostgroup is granted for it or for
  every server.
\<close>

lemma isAccessible_agrees_with_map:
  assumes "user_engine_ok e" and "m = getServerHostGrpSetMap e db (op_userId p)"
  shows "(isAccessible e db s g p \<longleftrightarrow> op_userId p \<noteq> INVALID_USER_ID \<and>
      (map_of m ALL_SERVERS \<noteq> None \<or> granted m s ALL_HOST_GROUPS \<or> granted m s (cstr g)))
    \<and> (isAccessibleServer e db s p \<longleftrightarrow> op_userId p \<noteq> INVALID_USER_ID \<and>
      (granted m s ALL_HOST_GROUPS \<or> granted m ALL_SERVERS ALL_HOST_GROUPS))"
  using user_engine_ok.isAccessible_map [OF assms(1)] by (simp add: assms(2))

definition ex_access :: user_db where
  "ex_access = set_access ex_db2 [\<lparr>ai_id = 1, ai_userId = 1, ai_serverId = 5, ai_hostgroupId = ''g''\<rparr>]"

lemma isAccessible_agrees_with_map_witness:
  "isAccessible std_engine ex_access 5 ''g'' ex_self \<and> \<not> isAccessible std_engine ex_access 5 ''h'' ex_self"
proof -
  have m: "[(5, [''g''])] = getServerHostGrpSetMap std_engine ex_access (op_userId ex_self)" by code_simp
  have "cstr ''g'' = ''g''" "cstr ''h'' = ''h''" "ALL_HOST_GROUPS \<noteq> ''g''" "ALL_SERVERS \<noteq> 5" "op_userId ex_self \<noteq> INVALID_USER_ID"
    by code_simp+
  with isAccessible_agrees_with_map [OF std_user.user_engine_ok_axioms m, of 5 "''g''"]
    isAccessible_agrees_with_map [OF std_user.user_engine_ok_axioms m, of 5 "''h''"]
  show ?thesis by (simp add: granted_def)
qed

text \<open>
  \<open>addAccessInfo\<close> adds an entry if and only if the list does not have it yet, when its server
  identifier is not negative. It prints the identifier of its check for an existing entry as an
  unsigned number, so the check never finds an entry for all servers (identifier \<open>-1\<close>): granting
  all servers again records the entry again, whatever the list holds.
\<close>

lemma addAccessInfo_exact:
  assumes "user_engine_ok e" and "op_has p OPPRVLG_UPDATE_USER"
    and "ai_serverId a < 2 ^ 31" and "- (2 ^ 31) \<le> ai_serverId a"
    and "\<forall>b \<in> set (ut_access (st_data db)). ai_serverId b < 2 ^ 31"
  shows "ut_access (st_data (snd (snd (addAccessInfo e db a p)))) =
    (if 0 \<le> ai_serverId a \<and> (\<exists>b \<in> set (ut_access (st_data db)). ai_userId b = ai_userId a
          \<and> ai_serverId b = ai_serverId a \<and> ai_hostgroupId b = cstr (ai_hostgroupId a))
     then ut_access (st_data db)
     else ut_access (st_data db) @ [a\<lparr>ai_id := en_nextId e (map ai_id (ut_access (st_data db))),
            ai_hostgroupId := cstr (ai_hostgroupId a)\<rparr>])"
proof -
  have "(\<exists>b \<in> set (ut_access (st_data db)). ai_userId b = ai_userId a
          \<and> ai_serverId b = ai_serverId a mod 2 ^ 32 \<and> ai_hostgroupId b = cstr (ai_hostgroupId a))
      \<longleftrightarrow> 0 \<le> ai_serverId a \<and> (\<exists>b \<in> set (ut_access (st_data db)). ai_userId b = ai_userId a
          \<and> ai_serverId b = ai_serverId a \<and> ai_hostgroupId b = cstr (ai_hostgroupId a))"
  proof (cases "0 \<le> ai_serverId a")
    case True
    then have "ai_serverId a mod 2 ^ 32 = ai_serverId a" using assms(3) by simp
    with True show ?thesis by simp
  next
    case False
    then have "ai_serverId a mod 2 ^ 32 = ai_serverId a + 2 ^ 32"
      using assms(4) by (intro mod_unsigned_negative) simp_all
    with False assms(4,5) show ?thesis by fastforce
  qed
  with assms(2) show ?thesis
    by (auto simp: addAccessInfo_def tbl_select_def user_engine_ok.rows_sem [OF assms(1)] Let_def
        filter_empty_conv split: list.splits dest: filter_eq_ConsD)
qed

lemma addAccessInfo_exact_witness:
  "(let a = \<lparr>ai_id = 0, ai_userId = 1, ai_serverId = ALL_SERVERS, ai_hostgroupId = ALL_HOST_GROUPS\<rparr>;
        db = set_access ex_db2 [a\<lparr>ai_id := 1\<rparr>]
    in ut_access (st_data (snd (snd (addAccessInfo std_engine db a ex_admin)))) = [a\<lparr>ai_id := 1\<rparr>, a\<lparr>ai_id := 2\<rparr>])"
proof -
  let ?a = "\<lparr>ai_id = 0, ai_userId = 1, ai_serverId = ALL_SERVERS, ai_hostgroupId = ALL_HOST_GROUPS\<rparr>"
  have "op_has ex_admin OPPRVLG_UPDATE_USER" "cstr ALL_HOST_GROUPS = ALL_HOST_GROUPS" by code_simp+
  with addAccessInfo_exact [OF std_user.user_engine_ok_axioms, of ex_admin ?a "set_access ex_db2 [?a\<lparr>ai_id := 1\<rparr>]"]
  show ?thesis by (simp add: ALL_SERVERS_def std_engine_def Let_def)
qed

text \<open>
  An upgrade of the tables changes the administrators of one former version only: the flags that
  \<open>updateAdminPrivilege\<close> looks for are computed by the first call in the process and kept, so every
  later step of \<open>updateDB\<close> repeats the first. From version 0.1.2 the step for administrators with 32
  privileges never takes place.
\<close>

lemma updateDB_first_step_only:
  assumes "user_engine_ok e" and "ver \<le> getPackedVer 0 1 2"
  shows "snd (updateDB e ver (None, db)) =
    db\<lparr>st_data := (st_data db)\<lparr>ut_users :=
      map (\<lambda>u. if ui_flags u = push_bit (old_admin_bits ver) 1 - 1 then u\<lparr>ui_flags := ALL_PRIVILEGES\<rparr> else u)
        (ut_users (st_data db))\<rparr>\<rparr>"
  using user_engine_ok.updateDB_first [OF assms] by (simp only: admin_update_def)

definition ex_old_admins :: user_db where
  "ex_old_admins = set_users ex_db [ex_alice\<lparr>ui_flags := 0x1FFFFFFF\<rparr>, ex_bob\<lparr>ui_flags := 0xFFFFFFFF\<rparr>]"

lemma updateDB_first_step_only_witness:
  "map ui_flags (ut_users (st_data (snd (updateDB std_engine (getPackedVer 0 1 2) (None, ex_old_admins)))))
     = [ALL_PRIVILEGES, 0xFFFFFFFF]"
  unfolding updateDB_first_step_only [OF std_user.user_engine_ok_axioms order_refl]
  by (simp add: ex_old_admins_def old_admin_bits_def packed_0_1 ex_alice_def ex_bob_def ex_db_def)

end
