(* ===== verification/Session_Mgr.thy ===== *)
theory Session_Mgr
  imports Hato_Prelude
begin

text \<open>
  Sessions (src/server/src/SessionManager.h, SessionManager.cc, with the reference counts of
  src/server/common/UsedCountable.cc and UsedCountablePtr.h). Sessions live in a heap; a session whose
  count reaches zero leaves it, and every later access through its address is undefined behaviour. The
  map, the event sources of the main loop and the smart pointers that callers hold refer to sessions
  by address. What GLib and libuuid provide, the identifier of a new event source and a new UUID,
  is an argument.
\<close>

section \<open>Data\<close>

definition INVALID_EVENT_ID :: int where
  "INVALID_EVENT_ID = 2 ^ 32 - 1"

definition INITIAL_TIMEOUT :: u64 where
  "INITIAL_TIMEOUT = 10 * 60"

definition DEFAULT_TIMEOUT :: u64 where
  "DEFAULT_TIMEOUT = - 1"

definition NO_TIMEOUT :: u64 where
  "NO_TIMEOUT = 0"

record session =
  ss_userId :: int
  ss_id :: string
  ss_loginTime :: int
  ss_lastAccessTime :: int
  ss_timeout :: u64
  ss_timerId :: int
  ss_sessionMgr :: bool
  ss_used :: int

text \<open>An event source: its identifier, the time in milliseconds at which it is due, its session.\<close>

record sess_state =
  sm_heap :: "nat \<rightharpoonup> session"
  sm_nextAddr :: nat
  sm_sessionIdMap :: "(string \<times> nat) list"
  sm_sources :: "(int \<times> int \<times> nat) list"
  sm_ptrs :: "nat list"
  sm_defaultTimeout :: u64

record sess_env =
  sn_newSource :: "int list \<Rightarrow> int"
  sn_newUuid :: "string list \<Rightarrow> string"

definition mk_SessionManager :: sess_state where
  "mk_SessionManager = \<lparr>sm_heap = (\<lambda>_. None), sm_nextAddr = 0, sm_sessionIdMap = [], sm_sources = [],
     sm_ptrs = [], sm_defaultTimeout = INITIAL_TIMEOUT\<rparr>"

section \<open>Reference counts\<close>

definition deref :: "sess_state \<Rightarrow> nat \<Rightarrow> session res" where
  "deref st a = (case sm_heap st a of None \<Rightarrow> Inl UndefinedBehaviour | Some s \<Rightarrow> Inr s)"

abbreviation put_session :: "sess_state \<Rightarrow> nat \<Rightarrow> session \<Rightarrow> sess_state" where
  "put_session st a s \<equiv> st\<lparr>sm_heap := (sm_heap st)(a \<mapsto> s)\<rparr>"

definition used_ref :: "sess_state \<Rightarrow> nat \<Rightarrow> sess_state res" where
  "used_ref st a = bindR (deref st a) (\<lambda>s. Inr (put_session st a (s\<lparr>ss_used := ss_used s + 1\<rparr>)))"

definition used_unref :: "sess_state \<Rightarrow> nat \<Rightarrow> sess_state res" where
  "used_unref st a =
     bindR (deref st a) (\<lambda>s.
       if ss_used s - 1 = 0 then Inr (st\<lparr>sm_heap := (sm_heap st)(a := None)\<rparr>)
       else Inr (put_session st a (s\<lparr>ss_used := ss_used s - 1\<rparr>)))"

section \<open>Timers\<close>

definition removeGSourceIfNeeded :: "sess_state \<Rightarrow> int \<Rightarrow> sess_state" where
  "removeGSourceIfNeeded st tag =
     (if tag = INVALID_EVENT_ID then st
      else st\<lparr>sm_sources := filter (\<lambda>x. fst x \<noteq> tag) (sm_sources st)\<rparr>)"

definition cancelTimer :: "sess_state \<Rightarrow> nat \<Rightarrow> sess_state res" where
  "cancelTimer st a =
     bindR (deref st a) (\<lambda>s.
       if ss_timerId s \<noteq> INVALID_EVENT_ID
       then let st = removeGSourceIfNeeded st (ss_timerId s);
                st = put_session st a (s\<lparr>ss_timerId := INVALID_EVENT_ID\<rparr>)
            in if \<not> ss_used s \<ge> 2 then Inl HatoholException else used_unref st a
       else Inr st)"

text \<open>\<open>g_timeout_add\<close> takes an \<open>unsigned int\<close> of milliseconds.\<close>

definition timer_interval :: "u64 \<Rightarrow> int" where
  "timer_interval timeout = uint (ucast (timeout * 1000) :: u32)"

definition g_timeout_add :: "sess_env \<Rightarrow> int \<Rightarrow> int \<Rightarrow> nat \<Rightarrow> sess_state \<Rightarrow> int \<times> sess_state" where
  "g_timeout_add env now interval a st =
     (let tag = sn_newSource env (map fst (sm_sources st))
      in (tag, st\<lparr>sm_sources := sm_sources st @ [(tag, now + interval, a)]\<rparr>))"

text \<open>\<open>updateTimer\<close>, up to the release of the session's lock and after it.\<close>

definition updateTimer_arm :: "sess_env \<Rightarrow> int \<Rightarrow> sess_state \<Rightarrow> nat \<Rightarrow> sess_state res" where
  "updateTimer_arm env now st a =
     bindR (cancelTimer st a) (\<lambda>st.
     bindR (deref st a) (\<lambda>s.
     bindR (if ss_timeout s \<noteq> 0
            then case g_timeout_add env now (timer_interval (ss_timeout s)) a st of
              (tag, st) \<Rightarrow> used_ref (put_session st a (s\<lparr>ss_timerId := tag\<rparr>)) a
            else Inr st) (\<lambda>st.
     bindR (deref st a) (\<lambda>s. Inr (put_session st a (s\<lparr>ss_lastAccessTime := now\<rparr>))))))"

definition updateTimer_insert :: "sess_state \<Rightarrow> nat \<Rightarrow> sess_state res" where
  "updateTimer_insert st a =
     bindR (deref st a) (\<lambda>s.
       Inr (st\<lparr>sm_sessionIdMap := std_map_put (ss_id s) a (sm_sessionIdMap st)\<rparr>))"

definition updateTimer :: "sess_env \<Rightarrow> int \<Rightarrow> sess_state \<Rightarrow> nat \<Rightarrow> sess_state res" where
  "updateTimer env now st a = bindR (updateTimer_arm env now st a) (\<lambda>st. updateTimer_insert st a)"

section \<open>Operations\<close>

definition generateSessionId :: "sess_env \<Rightarrow> sess_state \<Rightarrow> string" where
  "generateSessionId env st = sn_newUuid env (map fst (sm_sessionIdMap st))"

text \<open>The constructor of \<open>Session\<close>, with the fields that \<open>create\<close> assigns before it calls \<open>updateTimer\<close>.\<close>

definition new_session :: "sess_env \<Rightarrow> int \<Rightarrow> int \<Rightarrow> u64 \<Rightarrow> sess_state \<Rightarrow> session" where
  "new_session env now userId timeout st =
     \<lparr>ss_userId = userId, ss_id = generateSessionId env st, ss_loginTime = now, ss_lastAccessTime = now,
      ss_timeout = (if timeout = DEFAULT_TIMEOUT then sm_defaultTimeout st else timeout),
      ss_timerId = INVALID_EVENT_ID, ss_sessionMgr = True, ss_used = 1\<rparr>"

definition create_session :: "sess_env \<Rightarrow> int \<Rightarrow> int \<Rightarrow> u64 \<Rightarrow> sess_state \<Rightarrow> (string \<times> sess_state) res" where
  "create_session env now userId timeout st =
     (let a = sm_nextAddr st;
          st = put_session (st\<lparr>sm_nextAddr := a + 1\<rparr>) a (new_session env now userId timeout st)
      in bindR (updateTimer env now st a) (\<lambda>st.
         bindR (deref st a) (\<lambda>s. Inr (ss_id s, st))))"

text \<open>The part of \<open>getSession\<close> under the lock: the smart pointer counts before the lock is released.\<close>

definition getSession_lookup :: "string \<Rightarrow> sess_state \<Rightarrow> (nat option \<times> sess_state) res" where
  "getSession_lookup sessionId st =
     (case map_of (sm_sessionIdMap st) sessionId of
        None \<Rightarrow> Inr (None, st)
      | Some a \<Rightarrow> bindR (used_ref st a) (\<lambda>st. Inr (Some a, st\<lparr>sm_ptrs := a # sm_ptrs st\<rparr>)))"

definition getSession :: "sess_env \<Rightarrow> int \<Rightarrow> string \<Rightarrow> sess_state \<Rightarrow> (nat option \<times> sess_state) res" where
  "getSession env now sessionId st =
     bindR (getSession_lookup sessionId st) (\<lambda>(session, st).
       case session of
         None \<Rightarrow> Inr (None, st)
       | Some a \<Rightarrow> bindR (updateTimer env now st a) (\<lambda>st. Inr (Some a, st)))"

text \<open>The destructor of a \<open>SessionPtr\<close>.\<close>

definition release_ptr :: "nat \<Rightarrow> sess_state \<Rightarrow> sess_state res" where
  "release_ptr a st = used_unref (st\<lparr>sm_ptrs := remove1 a (sm_ptrs st)\<rparr>) a"

definition deleteSession :: "sess_state \<Rightarrow> nat \<Rightarrow> sess_state res" where
  "deleteSession st a = bindR (cancelTimer st a) (\<lambda>st. used_unref st a)"

definition remove_session :: "string \<Rightarrow> sess_state \<Rightarrow> (bool \<times> sess_state) res" where
  "remove_session sessionId st =
     (case map_of (sm_sessionIdMap st) sessionId of
        None \<Rightarrow> Inr (False, st)
      | Some a \<Rightarrow>
          let st = st\<lparr>sm_sessionIdMap := std_map_erase sessionId (sm_sessionIdMap st)\<rparr>
          in bindR (cancelTimer st a) (\<lambda>st. bindR (used_unref st a) (\<lambda>st. Inr (True, st))))"

text \<open>The reaper of \<open>timerCb\<close> drops the reference of the timer when the function returns.\<close>

definition timerCb :: "nat \<Rightarrow> sess_state \<Rightarrow> sess_state res" where
  "timerCb a st =
     bindR (deref st a) (\<lambda>s.
       let s = s\<lparr>ss_timerId := INVALID_EVENT_ID\<rparr>; st = put_session st a s
       in if \<not> ss_sessionMgr s then used_unref st a
          else bindR (remove_session (ss_id s) st) (\<lambda>(_, st). used_unref st a))"

text \<open>The main loop calls the callback of a source and, since it returns \<open>G_SOURCE_REMOVE\<close>, drops the source.\<close>

definition dispatch :: "int \<Rightarrow> sess_state \<Rightarrow> sess_state res" where
  "dispatch tag st =
     (case map_of (sm_sources st) tag of
        None \<Rightarrow> Inr st
      | Some (due, a) \<Rightarrow>
          bindR (timerCb a st) (\<lambda>st. Inr (st\<lparr>sm_sources := filter (\<lambda>x. fst x \<noteq> tag) (sm_sources st)\<rparr>)))"

definition dispatch_due :: "int \<Rightarrow> sess_state \<Rightarrow> sess_state res" where
  "dispatch_due now st = foldR dispatch (map fst (filter (\<lambda>(_, due, _). due \<le> now) (sm_sources st))) st"

lemma used_unref_map: "used_unref st a = Inr st' \<Longrightarrow> sm_sessionIdMap st' = sm_sessionIdMap st"
  by (auto simp: used_unref_def bindR_eq_Inr split: if_splits)

lemma deleteSession_map: "deleteSession st a = Inr st' \<Longrightarrow> sm_sessionIdMap st' = sm_sessionIdMap st"
  by (auto simp: deleteSession_def cancelTimer_def removeGSourceIfNeeded_def bindR_eq_Inr Let_def
      split: if_splits dest!: used_unref_map)

function clearAllSessions :: "sess_state \<Rightarrow> sess_state res" where
  "clearAllSessions st =
     (case sm_sessionIdMap st of
        [] \<Rightarrow> Inr st
      | (sessionId, a) # _ \<Rightarrow>
          bindR (deleteSession st a) (\<lambda>st.
            clearAllSessions (st\<lparr>sm_sessionIdMap := std_map_erase sessionId (sm_sessionIdMap st)\<rparr>)))"
  by pat_completeness auto
termination
  by (relation "measure (\<lambda>st. length (sm_sessionIdMap st))")
     (auto simp: std_map_erase_def intro!: le_imp_less_Suc length_filter_le dest!: deleteSession_map)

declare clearAllSessions.simps [simp del]

text \<open>\<open>reset\<close> builds a new manager. The environment variable is read with \<open>sscanf\<close> and \<open>%zd\<close>.\<close>

definition reset_sessions :: "string option \<Rightarrow> sess_state \<Rightarrow> sess_state res" where
  "reset_sessions env st =
     bindR (clearAllSessions st) (\<lambda>st.
       let st = st\<lparr>sm_sessionIdMap := [], sm_defaultTimeout := INITIAL_TIMEOUT\<rparr>
       in case env of
            None \<Rightarrow> Inr st
          | Some text \<Rightarrow>
              (case scan_dec text of
                 None \<Rightarrow> Inr st
               | Some timeout \<Rightarrow> Inr (st\<lparr>sm_defaultTimeout := word_of_int timeout\<rparr>)))"

section \<open>The invariant\<close>

text \<open>
  Every session in the heap is counted once for the map, once for its timer and once for every smart
  pointer; the map and the event sources refer to live sessions that know about them.
\<close>

definition in_map :: "sess_state \<Rightarrow> nat \<Rightarrow> session \<Rightarrow> bool" where
  "in_map st a s \<longleftrightarrow> map_of (sm_sessionIdMap st) (ss_id s) = Some a"

definition armed :: "session \<Rightarrow> bool" where
  "armed s \<longleftrightarrow> ss_timerId s \<noteq> INVALID_EVENT_ID"

definition session_ok :: "sess_state \<Rightarrow> nat \<Rightarrow> session \<Rightarrow> bool" where
  "session_ok st a s \<longleftrightarrow>
     ss_used s = of_bool (in_map st a s) + of_bool (armed s) + int (count_list (sm_ptrs st) a)
     \<and> 0 < ss_used s \<and> ss_sessionMgr s \<and> a < sm_nextAddr st
     \<and> (armed s \<longrightarrow> (\<exists>due. (ss_timerId s, due, a) \<in> set (sm_sources st)))
     \<and> (armed s \<longleftrightarrow> in_map st a s \<and> ss_timeout s \<noteq> 0)"

definition sess_inv :: "sess_state \<Rightarrow> bool" where
  "sess_inv st \<longleftrightarrow>
     std_map_wf (sm_sessionIdMap st)
     \<and> (\<forall>i a. map_of (sm_sessionIdMap st) i = Some a \<longrightarrow> (\<exists>s. sm_heap st a = Some s \<and> ss_id s = i))
     \<and> (\<forall>a s. sm_heap st a = Some s \<longrightarrow> session_ok st a s)
     \<and> distinct (map fst (sm_sources st))
     \<and> (\<forall>(tag, due, a) \<in> set (sm_sources st). tag \<noteq> INVALID_EVENT_ID \<and> (\<exists>s. sm_heap st a = Some s \<and> ss_timerId s = tag))
     \<and> (\<forall>a \<in> set (sm_ptrs st). sm_heap st a \<noteq> None)"

text \<open>The contract of GLib and libuuid.\<close>

locale sess_env_ok =
  fixes env :: sess_env
  assumes newSource_fresh: "sn_newSource env tags \<notin> set tags"
    and newSource_valid: "sn_newSource env tags \<noteq> INVALID_EVENT_ID"
    and newUuid_fresh: "sn_newUuid env ids \<notin> set ids"

lemma sess_invD:
  assumes "sess_inv st"
  shows "std_map_wf (sm_sessionIdMap st)"
    "map_of (sm_sessionIdMap st) i = Some a \<Longrightarrow> \<exists>s. sm_heap st a = Some s \<and> ss_id s = i \<and> in_map st a s"
    "sm_heap st a = Some s \<Longrightarrow> session_ok st a s"
    "distinct (map fst (sm_sources st))"
    "(tag, due, a) \<in> set (sm_sources st) \<Longrightarrow> tag \<noteq> INVALID_EVENT_ID \<and> (\<exists>s. sm_heap st a = Some s \<and> ss_timerId s = tag)"
    "a \<in> set (sm_ptrs st) \<Longrightarrow> sm_heap st a \<noteq> None"
  using assms by (auto simp: sess_inv_def in_map_def)

lemmas sess_simps = deref_def used_ref_def used_unref_def Let_def bindR_simps

lemma cancelTimer_run:
  assumes "sm_heap st a = Some s" "armed s \<Longrightarrow> 2 \<le> ss_used s"
  shows "cancelTimer st a = Inr (if armed s
    then st\<lparr>sm_sources := filter (\<lambda>x. fst x \<noteq> ss_timerId s) (sm_sources st),
            sm_heap := (sm_heap st)(a \<mapsto> s\<lparr>ss_timerId := INVALID_EVENT_ID, ss_used := ss_used s - 1\<rparr>)\<rparr>
    else st)"
  using assms by (auto simp: cancelTimer_def sess_simps removeGSourceIfNeeded_def armed_def)

end
