(* ===== verification/Session_Props.thy ===== *)
theory Session_Props
  imports Session_Mgr
begin

text \<open>
  The operations of \<open>Session_Mgr\<close> one after the other: none of them meets a dead session or a failed
  assertion, all keep the invariant, and they implement a table of sessions with expiry times.
\<close>

section \<open>Ends of sessions\<close>

text \<open>What \<open>remove\<close>, \<open>timerCb\<close> and \<open>deleteSession\<close> leave behind.\<close>

definition removed :: "nat \<Rightarrow> session \<Rightarrow> sess_state \<Rightarrow> sess_state" where
  "removed a s st =
     st\<lparr>sm_sessionIdMap := std_map_erase (ss_id s) (sm_sessionIdMap st),
        sm_sources := filter (\<lambda>x. fst x \<noteq> ss_timerId s) (sm_sources st),
        sm_heap := (sm_heap st)(a := if a \<in> set (sm_ptrs st)
          then Some (s\<lparr>ss_timerId := INVALID_EVENT_ID, ss_used := int (count_list (sm_ptrs st) a)\<rparr>) else None)\<rparr>"

lemma count_list_pos: "0 < count_list xs x \<longleftrightarrow> x \<in> set xs"
  by (metis count_list_0_iff gr0I less_irrefl)

lemma no_invalid_source:
  "sess_inv st \<Longrightarrow> filter (\<lambda>x. fst x \<noteq> INVALID_EVENT_ID) (sm_sources st) = sm_sources st"
  by (rule filter_True) (auto dest: sess_invD(5))

lemma session_used:
  assumes "session_ok st a s" "in_map st a s"
  shows "ss_used s = 1 + of_bool (armed s) + int (count_list (sm_ptrs st) a)"
  using assms by (simp add: session_ok_def)

lemma mapped:
  assumes "sess_inv st" "map_of (sm_sessionIdMap st) i = Some a" "sm_heap st a = Some s"
  shows "ss_id s = i" "in_map st a s" "session_ok st a s"
  using sess_invD(2) [OF assms(1,2)] sess_invD(3) [OF assms(1,3)] assms(3) by auto

lemma cancelTimer_unref:
  assumes "sess_inv st" "map_of (sm_sessionIdMap st) i = Some a" "sm_heap st a = Some s"
  shows "bindR (cancelTimer (st\<lparr>sm_sessionIdMap := m\<rparr>) a) (\<lambda>st. used_unref st a) =
    Inr ((removed a s st)\<lparr>sm_sessionIdMap := m\<rparr>)"
proof -
  note used = session_used [OF mapped(3,2) [OF assms]]
  have unarmed: "s\<lparr>ss_timerId := INVALID_EVENT_ID, ss_used := u\<rparr> = s\<lparr>ss_used := u\<rparr>" "ss_timerId s = INVALID_EVENT_ID"
    if "\<not> armed s" for u
    using that by (cases s; simp add: armed_def)+
  have cancel: "cancelTimer (st\<lparr>sm_sessionIdMap := m\<rparr>) a = Inr (if armed s
    then st\<lparr>sm_sessionIdMap := m, sm_sources := filter (\<lambda>x. fst x \<noteq> ss_timerId s) (sm_sources st),
            sm_heap := (sm_heap st)(a \<mapsto> s\<lparr>ss_timerId := INVALID_EVENT_ID, ss_used := ss_used s - 1\<rparr>)\<rparr>
    else st\<lparr>sm_sessionIdMap := m\<rparr>)"
    using cancelTimer_run [of "st\<lparr>sm_sessionIdMap := m\<rparr>" a s] used assms(3) by simp
  show ?thesis
    unfolding cancel
    using used count_list_pos [of "sm_ptrs st" a] assms(3) no_invalid_source [OF assms(1)]
    by (cases "armed s"; cases "a \<in> set (sm_ptrs st)")
       (simp_all add: sess_simps removed_def count_list_0_iff unarmed)
qed

lemma remove_session_run:
  assumes "sess_inv st" "map_of (sm_sessionIdMap st) i = Some a" "sm_heap st a = Some s"
  shows "remove_session i st = Inr (True, removed a s st)"
  using cancelTimer_unref [OF assms, of "std_map_erase i (sm_sessionIdMap st)"] mapped(1) [OF assms] assms(2)
  by (simp add: remove_session_def Let_def bindR_assoc [symmetric]) (simp add: removed_def)

lemma deleteSession_run:
  assumes "sess_inv st" "map_of (sm_sessionIdMap st) i = Some a" "sm_heap st a = Some s"
  shows "deleteSession st a = Inr ((removed a s st)\<lparr>sm_sessionIdMap := sm_sessionIdMap st\<rparr>)"
  using cancelTimer_unref [OF assms, of "sm_sessionIdMap st"] by (simp add: deleteSession_def)

lemma dispatch_run:
  assumes "sess_inv st" "map_of (sm_sources st) tag = Some (due, a)"
  shows "\<exists>s. sm_heap st a = Some s \<and> in_map st a s \<and> ss_timerId s = tag \<and> armed s
    \<and> dispatch tag st = Inr (removed a s st)"
proof -
  have mem: "(tag, due, a) \<in> set (sm_sources st)" using assms(2) by (rule map_of_SomeD)
  then obtain s where s: "sm_heap st a = Some s" "ss_timerId s = tag" "tag \<noteq> INVALID_EVENT_ID"
    using sess_invD(5) [OF assms(1)] by blast
  then have ok: "session_ok st a s" "armed s" using sess_invD(3) [OF assms(1)] by (auto simp: armed_def)
  then have inm: "in_map st a s" by (simp add: session_ok_def)
  note used = session_used [OF ok(1) inm]
  have "dispatch tag st = Inr (removed a s st)"
    using used ok inm s assms(2) count_list_pos [of "sm_ptrs st" a]
    by (auto simp: dispatch_def timerCb_def remove_session_def in_map_def cancelTimer_def sess_simps removed_def
        session_ok_def count_list_0_iff)
  with s ok inm show ?thesis by blast
qed

lemma removed_inv:
  assumes "sess_inv st" "sm_heap st a = Some s" "in_map st a s"
  shows "sess_inv (removed a s st)"
proof -
  let ?st = "removed a s st"
  have src: "(ss_timerId t \<noteq> ss_timerId s) \<or> b = a" if t: "sm_heap st b = Some t" "armed t" for b t
  proof -
    obtain due where "(ss_timerId t, due, b) \<in> set (sm_sources st)"
      using sess_invD(3) [OF assms(1) t(1)] t(2) by (auto simp: session_ok_def)
    moreover obtain due' where "armed s \<Longrightarrow> (ss_timerId s, due', a) \<in> set (sm_sources st)"
      using sess_invD(3) [OF assms(1,2)] by (auto simp: session_ok_def)
    ultimately show ?thesis
      using sess_invD(4) [OF assms(1)] t(2) by (metis Pair_inject armed_def eq_key_imp_eq_value)
  qed
  have other: "session_ok ?st b t" if "sm_heap st b = Some t" "b \<noteq> a" for b t
  proof -
    have ok: "session_ok st b t" using sess_invD(3) [OF assms(1) that(1)] .
    have "ss_id t \<noteq> ss_id s \<or> \<not> in_map st b t" using assms(3) that(2) by (auto simp: in_map_def)
    then have "in_map ?st b t = in_map st b t"
      using that(2) assms(3) by (auto simp: in_map_def removed_def map_of_std_map_erase)
    then show ?thesis using ok src [OF that(1)] that(2) by (auto simp: session_ok_def removed_def)
  qed
  have self: "session_ok ?st a (s\<lparr>ss_timerId := INVALID_EVENT_ID, ss_used := int (count_list (sm_ptrs st) a)\<rparr>)"
    if "a \<in> set (sm_ptrs st)"
    using that sess_invD(3) [OF assms(1,2)]
    by (auto simp: session_ok_def removed_def in_map_def armed_def map_of_std_map_erase count_list_pos)
  have live: "\<exists>t. sm_heap ?st b = Some t \<and> ss_id t = i" if "map_of (sm_sessionIdMap ?st) i = Some b" for i b
  proof -
    have "i \<noteq> ss_id s" "map_of (sm_sessionIdMap st) i = Some b"
      using that by (auto simp: removed_def map_of_std_map_erase split: if_splits)
    then show ?thesis
      using sess_invD(2) [OF assms(1)] mapped(1) [OF assms(1) _ assms(2)]
      by (cases "b = a") (auto simp: removed_def)
  qed
  have srcs: "tag \<noteq> INVALID_EVENT_ID \<and> (\<exists>t. sm_heap ?st b = Some t \<and> ss_timerId t = tag)"
    if "(tag, due, b) \<in> set (sm_sources ?st)" for tag due b
  proof -
    have "(tag, due, b) \<in> set (sm_sources st)" "tag \<noteq> ss_timerId s" using that by (auto simp: removed_def)
    then show ?thesis using sess_invD(5) [OF assms(1)] assms(2) by (force simp: removed_def)
  qed
  show ?thesis
    unfolding sess_inv_def
  proof (intro conjI allI impI)
    show "std_map_wf (sm_sessionIdMap ?st)" using sess_invD(1) [OF assms(1)] by (auto simp: removed_def)
    show "\<exists>s. sm_heap ?st b = Some s \<and> ss_id s = i" if "map_of (sm_sessionIdMap ?st) i = Some b" for i b
      using live that .
    show "session_ok ?st b t" if "sm_heap ?st b = Some t" for b t
      using that other self by (cases "b = a") (auto simp: removed_def split: if_splits)
    show "distinct (map fst (sm_sources ?st))"
      using sess_invD(4) [OF assms(1)] by (simp add: removed_def distinct_map_filter)
    show "\<forall>(tag, due, b) \<in> set (sm_sources ?st). tag \<noteq> INVALID_EVENT_ID \<and> (\<exists>s. sm_heap ?st b = Some s \<and> ss_timerId s = tag)"
      using srcs by blast
    show "\<forall>b \<in> set (sm_ptrs ?st). sm_heap ?st b \<noteq> None"
      using sess_invD(6) [OF assms(1)] by (auto simp: removed_def)
  qed
qed

section \<open>Beginnings of sessions\<close>

text \<open>The state \<open>updateTimer\<close> leaves, and the one it needs: all of the invariant but the count of its session.\<close>

definition refreshed :: "sess_env \<Rightarrow> int \<Rightarrow> nat \<Rightarrow> session \<Rightarrow> sess_state \<Rightarrow> sess_state" where
  "refreshed env now a s st =
     (let srcs = (if armed s then filter (\<lambda>x. fst x \<noteq> ss_timerId s) (sm_sources st) else sm_sources st);
          tag = sn_newSource env (map fst srcs)
      in st\<lparr>sm_sources := srcs @ (if ss_timeout s \<noteq> 0 then [(tag, now + timer_interval (ss_timeout s), a)] else []),
           sm_heap := (sm_heap st)(a \<mapsto> s\<lparr>ss_timerId := (if ss_timeout s \<noteq> 0 then tag else INVALID_EVENT_ID),
             ss_used := ss_used s - of_bool (armed s) + of_bool (ss_timeout s \<noteq> 0), ss_lastAccessTime := now\<rparr>),
           sm_sessionIdMap := std_map_put (ss_id s) a (sm_sessionIdMap st)\<rparr>)"

definition sess_pre :: "nat \<Rightarrow> session \<Rightarrow> sess_state \<Rightarrow> bool" where
  "sess_pre a s st \<longleftrightarrow>
     std_map_wf (sm_sessionIdMap st)
     \<and> (\<forall>i b. map_of (sm_sessionIdMap st) i = Some b \<longrightarrow> (\<exists>t. sm_heap st b = Some t \<and> ss_id t = i))
     \<and> (\<forall>b t. sm_heap st b = Some t \<longrightarrow> b \<noteq> a \<longrightarrow> session_ok st b t)
     \<and> distinct (map fst (sm_sources st))
     \<and> (\<forall>(tag, due, b) \<in> set (sm_sources st). tag \<noteq> INVALID_EVENT_ID \<and> (\<exists>t. sm_heap st b = Some t \<and> ss_timerId t = tag))
     \<and> (\<forall>b \<in> set (sm_ptrs st). sm_heap st b \<noteq> None)
     \<and> sm_heap st a = Some s \<and> a < sm_nextAddr st \<and> ss_sessionMgr s
     \<and> ss_used s = 1 + of_bool (armed s) + int (count_list (sm_ptrs st) a)
     \<and> map_of (sm_sessionIdMap st) (ss_id s) \<in> {None, Some a}
     \<and> (armed s \<longrightarrow> (\<exists>due. (ss_timerId s, due, a) \<in> set (sm_sources st)))"

lemma updateTimer_run:
  assumes "sm_heap st a = Some s" "armed s \<Longrightarrow> 2 \<le> ss_used s"
  shows "updateTimer env now st a = Inr (refreshed env now a s st)"
proof -
  have unarmed: "s\<lparr>ss_timerId := INVALID_EVENT_ID\<rparr> = s" "ss_timerId s = INVALID_EVENT_ID"
    if "\<not> armed s" using that by (cases s; simp add: armed_def)+
  show ?thesis
    unfolding updateTimer_def updateTimer_arm_def updateTimer_insert_def cancelTimer_run [OF assms, simplified]
    using assms(1)
    by (cases "armed s"; cases "ss_timeout s = 0")
       (simp_all add: g_timeout_add_def sess_simps refreshed_def unarmed)
qed

lemma sess_preD:
  assumes "sess_pre a s st"
  shows "std_map_wf (sm_sessionIdMap st)"
    "map_of (sm_sessionIdMap st) i = Some b \<Longrightarrow> \<exists>t. sm_heap st b = Some t \<and> ss_id t = i"
    "sm_heap st b = Some t \<Longrightarrow> b \<noteq> a \<Longrightarrow> session_ok st b t"
    "distinct (map fst (sm_sources st))"
    "(tag, due, b) \<in> set (sm_sources st) \<Longrightarrow>
       tag \<noteq> INVALID_EVENT_ID \<and> (\<exists>t. sm_heap st b = Some t \<and> ss_timerId t = tag)"
    "b \<in> set (sm_ptrs st) \<Longrightarrow> sm_heap st b \<noteq> None"
    "sm_heap st a = Some s" "a < sm_nextAddr st" "ss_sessionMgr s"
    "ss_used s = 1 + of_bool (armed s) + int (count_list (sm_ptrs st) a)"
    "map_of (sm_sessionIdMap st) (ss_id s) = None \<or> map_of (sm_sessionIdMap st) (ss_id s) = Some a"
    "armed s \<Longrightarrow> \<exists>due. (ss_timerId s, due, a) \<in> set (sm_sources st)"
    "armed s \<Longrightarrow> 2 \<le> ss_used s"
  using assms by (auto simp: sess_pre_def)

context sess_env_ok
begin

lemma refreshed_inv:
  assumes "sess_pre a s st"
  shows "sess_inv (refreshed env now a s st)"
proof -
  let ?st = "refreshed env now a s st"
  let ?srcs = "if armed s then filter (\<lambda>x. fst x \<noteq> ss_timerId s) (sm_sources st) else sm_sources st"
  let ?tag = "sn_newSource env (map fst ?srcs)"
  let ?s = "s\<lparr>ss_timerId := (if ss_timeout s \<noteq> 0 then ?tag else INVALID_EVENT_ID),
             ss_used := ss_used s - of_bool (armed s) + of_bool (ss_timeout s \<noteq> 0), ss_lastAccessTime := now\<rparr>"
  note pre = sess_preD [OF assms]
  have srcs: "set ?srcs = {x \<in> set (sm_sources st). fst x \<noteq> ss_timerId s}"
    using pre(5) by (auto simp: armed_def)
  have stt: "sm_sources ?st = ?srcs @ (if ss_timeout s \<noteq> 0 then [(?tag, now + timer_interval (ss_timeout s), a)] else [])"
      "sm_heap ?st = (sm_heap st)(a \<mapsto> ?s)" "sm_sessionIdMap ?st = std_map_put (ss_id s) a (sm_sessionIdMap st)"
      "sm_ptrs ?st = sm_ptrs st" "sm_nextAddr ?st = sm_nextAddr st"
    by (simp_all add: refreshed_def Let_def)
  have mp: "map_of (sm_sessionIdMap ?st) = (map_of (sm_sessionIdMap st))(ss_id s \<mapsto> a)"
    unfolding stt using pre(1) by (rule map_of_std_map_put)
  have other: "session_ok ?st b t" if t: "sm_heap st b = Some t" "b \<noteq> a" for b t
  proof -
    have ok: "session_ok st b t" using pre(3) t by blast
    have inm: "in_map ?st b t = in_map st b t"
      using t(2) pre(11) by (auto simp: in_map_def mp)
    have "\<exists>due. (ss_timerId t, due, b) \<in> set ?srcs" if ar: "armed t"
    proof -
      obtain due where due: "(ss_timerId t, due, b) \<in> set (sm_sources st)" using ok ar by (auto simp: session_ok_def)
      then have "ss_timerId t \<noteq> ss_timerId s \<or> \<not> armed s"
        using eq_key_imp_eq_value [OF pre(4) due] pre(12) t(2) by fastforce
      then show ?thesis using due ar unfolding srcs by (auto simp: armed_def)
    qed
    then show ?thesis using ok unfolding session_ok_def inm stt(4,5) by (auto simp: stt(1))
  qed
  have self: "session_ok ?st a ?s"
    using pre(8,9,10) newSource_valid by (auto simp: session_ok_def stt(1,2,4,5) in_map_def mp armed_def)
  show ?thesis
    unfolding sess_inv_def
  proof (intro conjI allI impI)
    show "std_map_wf (sm_sessionIdMap ?st)" using pre(1) by (auto simp: stt)
    show "\<exists>t. sm_heap ?st b = Some t \<and> ss_id t = i" if "map_of (sm_sessionIdMap ?st) i = Some b" for i b
      using that pre(2) [of i b] pre(7) by (auto simp: mp stt(2) split: if_splits)
    show "session_ok ?st b t" if "sm_heap ?st b = Some t" for b t
      using that other self by (cases "b = a") (auto simp: stt(2))
    show "distinct (map fst (sm_sources ?st))"
      using pre(4) newSource_fresh [of "map fst ?srcs"] by (auto simp: stt(1) distinct_map_filter simp del: set_map)
    show "\<forall>(tag, due, b) \<in> set (sm_sources ?st). tag \<noteq> INVALID_EVENT_ID \<and> (\<exists>s. sm_heap ?st b = Some s \<and> ss_timerId s = tag)"
    proof (clarify)
      fix tag due b assume x: "(tag, due, b) \<in> set (sm_sources ?st)"
      consider "(tag, due, b) \<in> set (sm_sources st)" "tag \<noteq> ss_timerId s"
        | "ss_timeout s \<noteq> 0" "tag = ?tag" "b = a"
        using x unfolding stt(1) set_append srcs by (auto split: if_splits)
      then show "tag \<noteq> INVALID_EVENT_ID \<and> (\<exists>s. sm_heap ?st b = Some s \<and> ss_timerId s = tag)"
      proof cases
        case 1
        then show ?thesis using pre(5) [OF 1(1)] pre(7) by (auto simp: stt(2))
      next
        case 2
        then show ?thesis using newSource_valid by (simp add: stt(2))
      qed
    qed
    show "\<forall>b \<in> set (sm_ptrs ?st). sm_heap ?st b \<noteq> None" using pre(6) by (auto simp: stt)
  qed
qed

lemma create_pre:
  fixes u now w
  assumes "sess_inv st"
  defines "s \<equiv> new_session env now u w st"
  shows "sess_pre (sm_nextAddr st) s (put_session (st\<lparr>sm_nextAddr := sm_nextAddr st + 1\<rparr>) (sm_nextAddr st) s)"
proof -
  let ?a = "sm_nextAddr st"
  have dead: "sm_heap st ?a = None"
    using sess_invD(3) [OF assms(1), of ?a] by (cases "sm_heap st ?a") (auto simp: session_ok_def)
  have ptr: "?a \<notin> set (sm_ptrs st)" using sess_invD(6) [OF assms(1), of ?a] dead by auto
  have key: "map_of (sm_sessionIdMap st) (ss_id s) = None"
    using newUuid_fresh [of "map fst (sm_sessionIdMap st)"] by (simp add: s_def new_session_def generateSessionId_def map_of_eq_None_iff)
  have alive: "\<exists>t. sm_heap st b = Some t \<and> ss_id t = i \<and> b \<noteq> ?a" if "map_of (sm_sessionIdMap st) i = Some b" for i b
    using sess_invD(2) [OF assms(1) that] dead by auto
  have srcs: "tag \<noteq> INVALID_EVENT_ID \<and> b \<noteq> ?a \<and> (\<exists>t. sm_heap st b = Some t \<and> ss_timerId t = tag)"
    if "(tag, due, b) \<in> set (sm_sources st)" for tag due b
    using sess_invD(5) [OF assms(1) that] dead by auto
  have ok: "session_ok (put_session (st\<lparr>sm_nextAddr := ?a + 1\<rparr>) ?a s) b t" if "sm_heap st b = Some t" for b t
    using sess_invD(3) [OF assms(1) that] by (auto simp: session_ok_def in_map_def)
  have unarmed: "\<not> armed s" "ss_used s = 1" "ss_sessionMgr s" by (simp_all add: s_def new_session_def armed_def)
  show ?thesis
    unfolding sess_pre_def
  proof (intro conjI allI impI)
    show "\<exists>t. sm_heap (put_session (st\<lparr>sm_nextAddr := ?a + 1\<rparr>) ?a s) b = Some t \<and> ss_id t = i"
      if "map_of (sm_sessionIdMap (put_session (st\<lparr>sm_nextAddr := ?a + 1\<rparr>) ?a s)) i = Some b" for i b
      using alive [of i b] that by auto
    show "session_ok (put_session (st\<lparr>sm_nextAddr := ?a + 1\<rparr>) ?a s) b t"
      if "sm_heap (put_session (st\<lparr>sm_nextAddr := ?a + 1\<rparr>) ?a s) b = Some t" "b \<noteq> ?a" for b t
      using ok that by simp
    show "\<forall>(tag, due, b) \<in> set (sm_sources (put_session (st\<lparr>sm_nextAddr := ?a + 1\<rparr>) ?a s)).
        tag \<noteq> INVALID_EVENT_ID \<and> (\<exists>t. sm_heap (put_session (st\<lparr>sm_nextAddr := ?a + 1\<rparr>) ?a s) b = Some t \<and> ss_timerId t = tag)"
      using srcs by fastforce
  qed (use sess_invD(1,4,6) [OF assms(1)] ptr key unarmed in \<open>auto simp: count_list_0_iff\<close>)
qed

lemma get_pre:
  assumes "sess_inv st" "map_of (sm_sessionIdMap st) i = Some a" "sm_heap st a = Some s"
  shows "sess_pre a (s\<lparr>ss_used := ss_used s + 1\<rparr>)
    ((put_session st a (s\<lparr>ss_used := ss_used s + 1\<rparr>))\<lparr>sm_ptrs := a # sm_ptrs st\<rparr>)"
proof -
  let ?s = "s\<lparr>ss_used := ss_used s + 1\<rparr>"
  let ?st = "(put_session st a ?s)\<lparr>sm_ptrs := a # sm_ptrs st\<rparr>"
  note inm = mapped [OF assms]
  have ok: "session_ok ?st b t" if "sm_heap st b = Some t" "b \<noteq> a" for b t
    using sess_invD(3) [OF assms(1) that(1)] that(2) by (auto simp: session_ok_def in_map_def)
  have arm: "armed ?s = armed s" by (simp add: armed_def)
  show ?thesis
    unfolding sess_pre_def
  proof (intro conjI allI impI)
    show "\<exists>t. sm_heap ?st b = Some t \<and> ss_id t = j" if "map_of (sm_sessionIdMap ?st) j = Some b" for j b
      using sess_invD(2) [OF assms(1), of j b] that assms(3) by auto
    show "session_ok ?st b t" if "sm_heap ?st b = Some t" "b \<noteq> a" for b t
      using ok that by simp
    show "\<forall>(tag, due, b) \<in> set (sm_sources ?st). tag \<noteq> INVALID_EVENT_ID \<and> (\<exists>t. sm_heap ?st b = Some t \<and> ss_timerId t = tag)"
      using sess_invD(5) [OF assms(1)] assms(3) by fastforce
    show "\<exists>due. (ss_timerId ?s, due, a) \<in> set (sm_sources ?st)" if "armed ?s"
      using that inm(3) by (simp add: arm session_ok_def)
  qed (use sess_invD(1,4,6) [OF assms(1)] session_used [OF inm(3,2)] inm arm assms in \<open>auto simp: session_ok_def\<close>)
qed

lemma create_session_run:
  fixes u now w
  assumes "sess_inv st"
  defines "s \<equiv> new_session env now u w st" and "a \<equiv> sm_nextAddr st"
  defines "st' \<equiv> refreshed env now a s (put_session (st\<lparr>sm_nextAddr := a + 1\<rparr>) a s)"
  shows "create_session env now u w st = Inr (generateSessionId env st, st')" "sess_inv st'"
proof -
  note pre = create_pre [OF assms(1), of now u w, folded s_def a_def]
  have "updateTimer env now (put_session (st\<lparr>sm_nextAddr := a + 1\<rparr>) a s) a = Inr st'"
    unfolding st'_def using sess_preD(7,13) [OF pre] by (rule updateTimer_run)
  moreover have "sm_heap st' a = Some t \<Longrightarrow> ss_id t = generateSessionId env st" "sm_heap st' a \<noteq> None" for t
    by (auto simp: st'_def refreshed_def Let_def s_def new_session_def)
  ultimately show "create_session env now u w st = Inr (generateSessionId env st, st')"
    by (auto simp: create_session_def Let_def s_def a_def deref_def split: option.splits)
  show "sess_inv st'" unfolding st'_def using pre by (rule refreshed_inv)
qed

lemma getSession_run:
  fixes now
  assumes "sess_inv st" "map_of (sm_sessionIdMap st) i = Some a" "sm_heap st a = Some s"
  defines "s' \<equiv> s\<lparr>ss_used := ss_used s + 1\<rparr>"
  defines "st' \<equiv> refreshed env now a s' ((put_session st a s')\<lparr>sm_ptrs := a # sm_ptrs st\<rparr>)"
  shows "getSession env now i st = Inr (Some a, st')" "sess_inv st'"
proof -
  note pre = get_pre [OF assms(1-3), folded s'_def]
  have "updateTimer env now ((put_session st a s')\<lparr>sm_ptrs := a # sm_ptrs st\<rparr>) a = Inr st'"
    unfolding st'_def using sess_preD(7,13) [OF pre] by (rule updateTimer_run)
  then show "getSession env now i st = Inr (Some a, st')"
    using assms(2,3) by (simp add: getSession_def getSession_lookup_def sess_simps s'_def)
  show "sess_inv st'" unfolding st'_def using pre by (rule refreshed_inv)
qed

end

section \<open>Smart pointers and the end of all sessions\<close>

lemma release_ptr_run:
  assumes "sess_inv st" "a \<in> set (sm_ptrs st)"
  shows "\<exists>st'. release_ptr a st = Inr st' \<and> sess_inv st' \<and> sm_sessionIdMap st' = sm_sessionIdMap st
    \<and> sm_sources st' = sm_sources st
    \<and> (\<forall>i b. map_of (sm_sessionIdMap st) i = Some b \<longrightarrow>
          map_option (\<lambda>s. s\<lparr>ss_used := 0\<rparr>) (sm_heap st' b) = map_option (\<lambda>s. s\<lparr>ss_used := 0\<rparr>) (sm_heap st b))"
proof -
  obtain s where s: "sm_heap st a = Some s" using sess_invD(6) [OF assms] by blast
  note ok = sess_invD(3) [OF assms(1) s]
  let ?st = "st\<lparr>sm_ptrs := remove1 a (sm_ptrs st)\<rparr>"
  let ?h = "if ss_used s = 1 then None else Some (s\<lparr>ss_used := ss_used s - 1\<rparr>)"
  let ?st' = "?st\<lparr>sm_heap := (sm_heap st)(a := ?h)\<rparr>"
  have run: "release_ptr a st = Inr ?st'"
    using s by (simp add: release_ptr_def sess_simps)
  have pos: "ss_used s = 1 \<longleftrightarrow> \<not> in_map st a s \<and> a \<notin> set (remove1 a (sm_ptrs st))"
    using ok assms(2) count_list_pos [of "sm_ptrs st" a]
    by (auto simp: session_ok_def count_list_0_iff [symmetric] count_list_remove1)
  have oks: "session_ok ?st' b t" if "sm_heap ?st' b = Some t" for b t
  proof (cases "b = a")
    case True
    then have "t = s\<lparr>ss_used := ss_used s - 1\<rparr>" "ss_used s \<noteq> 1" using that by (auto split: if_splits)
    then show ?thesis
      using True ok assms(2) count_list_pos [of "sm_ptrs st" a]
      by (auto simp: session_ok_def in_map_def armed_def count_list_remove1)
  next
    case False
    then show ?thesis
      using that sess_invD(3) [OF assms(1), of b t] by (auto simp: session_ok_def in_map_def count_list_remove1)
  qed
  have alive: "\<exists>t. sm_heap ?st' b = Some t \<and> ss_id t = i" if "map_of (sm_sessionIdMap st) i = Some b" for i b
    using sess_invD(2) [OF assms(1) that] s pos by auto
  have srcs: "\<exists>t. sm_heap ?st' b = Some t \<and> ss_timerId t = tag" if src: "(tag, due, b) \<in> set (sm_sources st)" for tag due b
  proof -
    obtain t where t: "sm_heap st b = Some t" "ss_timerId t = tag" "tag \<noteq> INVALID_EVENT_ID"
      using sess_invD(5) [OF assms(1) src] by blast
    then have "in_map st b t" using sess_invD(3) [OF assms(1) t(1)] by (auto simp: session_ok_def armed_def)
    then show ?thesis using t s pos by auto
  qed
  have "sess_inv ?st'"
    unfolding sess_inv_def
  proof (intro conjI allI impI)
    show "\<forall>(tag, due, b) \<in> set (sm_sources ?st'). tag \<noteq> INVALID_EVENT_ID \<and> (\<exists>t. sm_heap ?st' b = Some t \<and> ss_timerId t = tag)"
      using srcs sess_invD(5) [OF assms(1)] by fastforce
    show "\<forall>b \<in> set (sm_ptrs ?st'). sm_heap ?st' b \<noteq> None"
      using sess_invD(6) [OF assms(1)] pos by (auto dest: set_remove1_subset [THEN subsetD])
  qed (use sess_invD(1,4) [OF assms(1)] alive oks in auto)
  moreover have "map_option (\<lambda>s. s\<lparr>ss_used := 0\<rparr>) (sm_heap ?st' b) = map_option (\<lambda>s. s\<lparr>ss_used := 0\<rparr>) (sm_heap st b)"
    if "map_of (sm_sessionIdMap st) i = Some b" for i b
    using alive [OF that] s by auto
  ultimately show ?thesis using run by (intro exI [of _ ?st']) simp
qed

section \<open>The table of sessions\<close>

type_synonym sess_table = "string \<rightharpoonup> int \<times> u64 \<times> int option"

definition sess_abs :: "sess_state \<Rightarrow> sess_table" where
  "sess_abs st i =
     (case map_of (sm_sessionIdMap st) i of
        None \<Rightarrow> None
      | Some a \<Rightarrow> map_option (\<lambda>s. (ss_userId s, ss_timeout s,
          if armed s then map_option fst (map_of (sm_sources st) (ss_timerId s)) else None)) (sm_heap st a))"

definition expiry :: "int \<Rightarrow> u64 \<Rightarrow> int option" where
  "expiry now timeout = (if timeout = 0 then None else Some (now + timer_interval timeout))"

lemma tags_differ:
  assumes "sess_inv st" "sm_heap st a = Some s" "sm_heap st b = Some t" "armed t" "a \<noteq> b"
  shows "ss_timerId t \<noteq> ss_timerId s"
proof
  assume eq: "ss_timerId t = ss_timerId s"
  then have "armed s" using assms(4) by (simp add: armed_def)
  then obtain d d' where "(ss_timerId s, d, a) \<in> set (sm_sources st)" "(ss_timerId t, d', b) \<in> set (sm_sources st)"
    using sess_invD(3) [OF assms(1,2)] sess_invD(3) [OF assms(1,3)] assms(4) by (auto simp: session_ok_def)
  then show False using eq_key_imp_eq_value [OF sess_invD(4) [OF assms(1)]] eq assms(5) by fastforce
qed

lemma abs_removed:
  assumes "sess_inv st" "sm_heap st a = Some s" "in_map st a s"
  shows "sess_abs (removed a s st) = (sess_abs st)(ss_id s := None)"
proof
  fix i
  show "sess_abs (removed a s st) i = ((sess_abs st)(ss_id s := None)) i"
  proof (cases "i = ss_id s \<or> map_of (sm_sessionIdMap st) i = None")
    case True
    then show ?thesis by (auto simp: sess_abs_def removed_def map_of_std_map_erase)
  next
    case False
    then obtain b t where b: "map_of (sm_sessionIdMap st) i = Some b" "sm_heap st b = Some t" "ss_id t = i" "i \<noteq> ss_id s"
      using sess_invD(2) [OF assms(1)] by blast
    then have "b \<noteq> a" using assms(2) by auto
    then show ?thesis
      using b tags_differ [OF assms(1,2) b(2)]
      by (auto simp: sess_abs_def removed_def map_of_std_map_erase std_map_erase_def [symmetric])
  qed
qed

text \<open>\<open>refreshed\<close> on a state that differs from \<open>st\<close> in the session at \<open>a\<close> only.\<close>

lemma abs_refreshed:
  assumes "sess_env_ok env" "sess_inv st" "sess_pre a s st1" "sm_sessionIdMap st1 = sm_sessionIdMap st"
    and "sm_sources st1 = sm_sources st" "\<And>b. b \<noteq> a \<Longrightarrow> sm_heap st1 b = sm_heap st b"
  shows "sess_abs (refreshed env now a s st1) =
    (sess_abs st)(ss_id s \<mapsto> (ss_userId s, ss_timeout s, expiry now (ss_timeout s)))"
proof
  fix i
  define srcs where "srcs = (if armed s then filter (\<lambda>x. fst x \<noteq> ss_timerId s) (sm_sources st) else sm_sources st)"
  define tag where "tag = sn_newSource env (map fst srcs)"
  note pre = sess_preD [OF assms(3)]
  have new: "tag \<notin> fst ` set srcs" "map_of srcs tag = None" "tag \<noteq> INVALID_EVENT_ID"
    using sess_env_ok.newSource_fresh [OF assms(1), of "map fst srcs"] sess_env_ok.newSource_valid [OF assms(1)]
    by (simp_all add: tag_def map_of_eq_None_iff)
  have mp: "map_of (std_map_put (ss_id s) a (sm_sessionIdMap st)) = (map_of (sm_sessionIdMap st))(ss_id s \<mapsto> a)"
    using pre(1) unfolding assms(4) by (rule map_of_std_map_put)
  note stt = refreshed_def [of env now a s st1, unfolded Let_def assms(4,5), folded srcs_def, folded tag_def]
  show "sess_abs (refreshed env now a s st1) i =
    ((sess_abs st)(ss_id s \<mapsto> (ss_userId s, ss_timeout s, expiry now (ss_timeout s)))) i"
  proof (cases "i = ss_id s")
    case True
    then show ?thesis
      using new by (simp add: sess_abs_def stt mp expiry_def armed_def map_add_def)
  next
    case other: False
    show ?thesis
    proof (cases "map_of (sm_sessionIdMap st) i")
      case None
      then show ?thesis using other by (simp add: sess_abs_def stt mp)
    next
      case (Some b)
      then obtain t where t: "sm_heap st1 b = Some t" "ss_id t = i" using pre(2) assms(4) by metis
      then have ba: "b \<noteq> a" using pre(7) other by auto
      have ok: "session_ok st1 b t" using pre(3) [OF t(1) ba] .
      have "map_of (srcs @ xs) (ss_timerId t) = map_of (sm_sources st) (ss_timerId t)"
        if ar: "armed t" "xs = [] \<or> fst (hd xs) = tag \<and> tl xs = []" for xs
      proof -
        obtain d where d: "(ss_timerId t, d, b) \<in> set (sm_sources st)"
          using ok ar(1) assms(5) by (auto simp: session_ok_def)
        have "ss_timerId t \<noteq> ss_timerId s \<or> \<not> armed s"
          using eq_key_imp_eq_value [OF pre(4), unfolded assms(5), OF d] pre(12) [unfolded assms(5)] ba by fastforce
        then have "map_of srcs (ss_timerId t) = map_of (sm_sources st) (ss_timerId t)"
          "ss_timerId t \<in> fst ` set srcs"
          using d by (auto simp: srcs_def map_of_std_map_erase std_map_erase_def [symmetric] set_std_map_erase intro: rev_image_eqI)
        moreover have "map_of xs (ss_timerId t) = None" if "ss_timerId t \<noteq> tag"
          using ar(2) that by (cases xs) auto
        ultimately show ?thesis using new(1) by (auto simp: map_of_append map_add_def split: option.splits)
      qed
      note same = this
      show ?thesis
        using other Some t ba same [of "[(tag, now + timer_interval (ss_timeout s), a)]"] same [of "[]"] assms(6) [OF ba]
        by (auto simp: sess_abs_def stt mp)
    qed
  qed
qed

section \<open>Timers that are due\<close>

definition tag_of :: "sess_state \<Rightarrow> string \<Rightarrow> int option" where
  "tag_of st i =
     (case map_of (sm_sessionIdMap st) i of
        None \<Rightarrow> None
      | Some a \<Rightarrow> (case sm_heap st a of None \<Rightarrow> None | Some s \<Rightarrow> if armed s then Some (ss_timerId s) else None))"

lemma tag_of_removed:
  assumes "sess_inv st" "sm_heap st a = Some s" "in_map st a s"
  shows "tag_of (removed a s st) = (tag_of st)(ss_id s := None)"
proof
  fix i
  show "tag_of (removed a s st) i = ((tag_of st)(ss_id s := None)) i"
  proof (cases "i = ss_id s \<or> map_of (sm_sessionIdMap st) i = None")
    case True
    then show ?thesis by (auto simp: tag_of_def removed_def map_of_std_map_erase)
  next
    case False
    then obtain b where "map_of (sm_sessionIdMap st) i = Some b" "b \<noteq> a"
      using mapped(1) [OF assms(1) _ assms(2)] by blast
    then show ?thesis using False by (simp add: tag_of_def removed_def map_of_std_map_erase)
  qed
qed

lemma tag_of_source:
  assumes "sess_inv st" "sm_heap st a = Some s" "in_map st a s" "armed s"
  shows "tag_of st i = Some (ss_timerId s) \<longleftrightarrow> i = ss_id s"
proof -
  have "tag_of st (ss_id s) = Some (ss_timerId s)" using assms by (simp add: tag_of_def in_map_def)
  moreover have "i = ss_id s" if tag: "tag_of st i = Some (ss_timerId s)"
  proof -
    obtain b t where b: "map_of (sm_sessionIdMap st) i = Some b" "sm_heap st b = Some t" "armed t" "ss_timerId t = ss_timerId s"
      using tag by (auto simp: tag_of_def split: option.splits if_splits)
    then have "b = a" using tags_differ [OF assms(1,2) b(2,3)] by auto
    then show ?thesis using mapped(1) [OF assms(1) b(1,2)] b(2) assms(2) by simp
  qed
  ultimately show ?thesis by blast
qed

lemma dispatch_sim:
  assumes "sess_inv st"
  shows "\<exists>st'. dispatch tag st = Inr st' \<and> sess_inv st'
    \<and> sess_abs st' = (\<lambda>i. if tag_of st i = Some tag then None else sess_abs st i)
    \<and> tag_of st' = (\<lambda>i. if tag_of st i = Some tag then None else tag_of st i)"
proof (cases "map_of (sm_sources st) tag")
  case None
  have "tag_of st i \<noteq> Some tag" for i
  proof
    assume "tag_of st i = Some tag"
    then obtain b t where "map_of (sm_sessionIdMap st) i = Some b" "sm_heap st b = Some t" "armed t" "ss_timerId t = tag"
      by (auto simp: tag_of_def split: option.splits if_splits)
    then obtain due where "(tag, due, b) \<in> set (sm_sources st)"
      using sess_invD(3) [OF assms] by (fastforce simp: session_ok_def)
    then show False using None by (force simp: map_of_eq_None_iff)
  qed
  then show ?thesis using None assms by (simp add: dispatch_def)
next
  case (Some x)
  then obtain due a s where s: "sm_heap st a = Some s" "in_map st a s" "ss_timerId s = tag" "armed s"
      "dispatch tag st = Inr (removed a s st)"
    using dispatch_run [OF assms, of tag] by (cases x) blast
  then show ?thesis
    using removed_inv [OF assms s(1,2)] abs_removed [OF assms s(1,2)] tag_of_removed [OF assms s(1,2)]
      tag_of_source [OF assms s(1,2,4)] by (auto simp: fun_eq_iff)
qed

lemma dispatch_list_sim:
  assumes "sess_inv st"
  shows "\<exists>st'. foldR dispatch tags st = Inr st' \<and> sess_inv st'
    \<and> sess_abs st' = (\<lambda>i. if tag_of st i \<in> Some ` set tags then None else sess_abs st i)"
  using assms
proof (induction tags arbitrary: st)
  case (Cons tag tags)
  obtain st1 where st1: "dispatch tag st = Inr st1" "sess_inv st1"
      "sess_abs st1 = (\<lambda>i. if tag_of st i = Some tag then None else sess_abs st i)"
      "tag_of st1 = (\<lambda>i. if tag_of st i = Some tag then None else tag_of st i)"
    using dispatch_sim [OF Cons.prems, of tag] by blast
  obtain st2 where "foldR dispatch tags st1 = Inr st2" "sess_inv st2"
      "sess_abs st2 = (\<lambda>i. if tag_of st1 i \<in> Some ` set tags then None else sess_abs st1 i)"
    using Cons.IH [OF st1(2)] by blast
  then show ?case using st1 by (auto simp: fun_eq_iff)
qed simp

definition spec_expire :: "int \<Rightarrow> sess_table \<Rightarrow> sess_table" where
  "spec_expire now T i = (case T i of Some (u, w, Some d) \<Rightarrow> if d \<le> now then None else T i | x \<Rightarrow> x)"

lemma tag_due:
  assumes "sess_inv st"
  shows "tag_of st i \<in> Some ` set (map fst (filter (\<lambda>(_, due, _). due \<le> now) (sm_sources st))) \<longleftrightarrow>
    (\<exists>u w d. sess_abs st i = Some (u, w, Some d) \<and> d \<le> now)"
proof (cases "map_of (sm_sessionIdMap st) i")
  case None
  then show ?thesis by (auto simp: tag_of_def sess_abs_def)
next
  case (Some a)
  then obtain s where s: "sm_heap st a = Some s" "in_map st a s" using sess_invD(2) [OF assms Some] by blast
  show ?thesis
  proof (cases "armed s")
    case True
    then obtain due where "(ss_timerId s, due, a) \<in> set (sm_sources st)"
      using sess_invD(3) [OF assms s(1)] by (auto simp: session_ok_def)
    then have due: "(ss_timerId s, x) \<in> set (sm_sources st) \<longleftrightarrow> x = (due, a)"
        "map_of (sm_sources st) (ss_timerId s) = Some (due, a)" for x
      using sess_invD(4) [OF assms] by (auto dest: eq_key_imp_eq_value)
    have "ss_timerId s \<in> set (map fst (filter (\<lambda>(_, due, _). due \<le> now) (sm_sources st))) \<longleftrightarrow> due \<le> now"
      using due(1) by force
    then show ?thesis using True Some s due(2) by (auto simp: tag_of_def sess_abs_def simp del: set_map set_filter)
  next
    case False
    then show ?thesis using Some s by (auto simp: tag_of_def sess_abs_def)
  qed
qed

lemma dispatch_due_sim:
  assumes "sess_inv st"
  shows "\<exists>st'. dispatch_due now st = Inr st' \<and> sess_inv st' \<and> sess_abs st' = spec_expire now (sess_abs st)"
proof -
  let ?tags = "map fst (filter (\<lambda>(_, due, _). due \<le> now) (sm_sources st))"
  obtain st' where st': "foldR dispatch ?tags st = Inr st'" "sess_inv st'"
      "sess_abs st' = (\<lambda>i. if tag_of st i \<in> Some ` set ?tags then None else sess_abs st i)"
    using dispatch_list_sim [OF assms] by blast
  have "sess_abs st' = spec_expire now (sess_abs st)"
    unfolding st'(3) tag_due [OF assms]
    by (auto simp: fun_eq_iff spec_expire_def split: option.splits)
  with st' show ?thesis by (auto simp: dispatch_due_def)
qed

lemma clearAllSessions_sim:
  "sess_inv st \<Longrightarrow> \<exists>st'. clearAllSessions st = Inr st' \<and> sess_inv st' \<and> sm_sessionIdMap st' = []"
proof (induction st rule: clearAllSessions.induct)
  case (1 st)
  show ?case
  proof (cases "sm_sessionIdMap st")
    case Nil
    then show ?thesis using 1 by (simp add: clearAllSessions.simps [of st])
  next
    case (Cons x m)
    then obtain i a where x: "sm_sessionIdMap st = (i, a) # m" "map_of (sm_sessionIdMap st) i = Some a" by (cases x) auto
    then obtain s where s: "sm_heap st a = Some s" using sess_invD(2) [OF 1(2)] by blast
    note run = deleteSession_run [OF 1(2) x(2) s]
    have id: "ss_id s = i" "in_map st a s" using mapped [OF 1(2) x(2) s] by simp_all
    have eq: "(removed a s st)\<lparr>sm_sessionIdMap := std_map_erase i (sm_sessionIdMap st)\<rparr> = removed a s st"
      by (simp add: removed_def id)
    have "\<exists>st'. clearAllSessions (removed a s st) = Inr st' \<and> sess_inv st' \<and> sm_sessionIdMap st' = []"
      using 1(1) [OF x(1) refl run] removed_inv [OF 1(2) s id(2)] eq by simp
    then show ?thesis using x run eq by (simp add: clearAllSessions.simps [of st])
  qed
qed

section \<open>Sequences of calls\<close>

text \<open>
  The calls of the server, each with its time: \<open>OpRelease n\<close> ends the life of the \<open>n\<close>-th smart
  pointer still held, if there is one; \<open>OpTick\<close> is an iteration of the main loop.
\<close>

datatype sess_op = OpCreate int u64 | OpGet string | OpRelease nat | OpRemove string | OpTick | OpClear

datatype sess_ans = AnsId string | AnsUser "int option" | AnsFound bool | AnsUnit

fun sess_run :: "sess_env \<Rightarrow> int \<Rightarrow> sess_op \<Rightarrow> sess_state \<Rightarrow> (sess_ans \<times> sess_state) res" where
  "sess_run env now (OpCreate u w) st = bindR (create_session env now u w st) (\<lambda>(i, st). Inr (AnsId i, st))"
| "sess_run env now (OpGet i) st =
     bindR (getSession env now i st) (\<lambda>(p, st).
       case p of
         None \<Rightarrow> Inr (AnsUser None, st)
       | Some a \<Rightarrow> bindR (deref st a) (\<lambda>s. Inr (AnsUser (Some (ss_userId s)), st)))"
| "sess_run env now (OpRelease n) st =
     (if n < length (sm_ptrs st) then bindR (release_ptr (sm_ptrs st ! n) st) (\<lambda>st. Inr (AnsUnit, st))
      else Inr (AnsUnit, st))"
| "sess_run env now (OpRemove i) st = bindR (remove_session i st) (\<lambda>(b, st). Inr (AnsFound b, st))"
| "sess_run env now OpTick st = bindR (dispatch_due now st) (\<lambda>st. Inr (AnsUnit, st))"
| "sess_run env now OpClear st = bindR (clearAllSessions st) (\<lambda>st. Inr (AnsUnit, st))"

text \<open>What the calls promise, on the table of sessions; \<open>dt\<close> is the default timeout.\<close>

fun sess_spec :: "u64 \<Rightarrow> int \<Rightarrow> sess_op \<Rightarrow> sess_table \<Rightarrow> sess_ans \<Rightarrow> sess_table \<Rightarrow> bool" where
  "sess_spec dt now (OpCreate u w) T ans T' =
     (\<exists>i. T i = None \<and> ans = AnsId i
        \<and> T' = (let w = (if w = DEFAULT_TIMEOUT then dt else w) in T(i \<mapsto> (u, w, expiry now w))))"
| "sess_spec dt now (OpGet i) T ans T' =
     (case T i of
        None \<Rightarrow> ans = AnsUser None \<and> T' = T
      | Some (u, w, _) \<Rightarrow> ans = AnsUser (Some u) \<and> T' = T(i \<mapsto> (u, w, expiry now w)))"
| "sess_spec dt now (OpRelease n) T ans T' = (ans = AnsUnit \<and> T' = T)"
| "sess_spec dt now (OpRemove i) T ans T' = (ans = AnsFound (T i \<noteq> None) \<and> T' = T(i := None))"
| "sess_spec dt now OpTick T ans T' = (ans = AnsUnit \<and> T' = spec_expire now T)"
| "sess_spec dt now OpClear T ans T' = (ans = AnsUnit \<and> T' = (\<lambda>_. None))"

lemma abs_None_iff: "sess_inv st \<Longrightarrow> sess_abs st i = None \<longleftrightarrow> map_of (sm_sessionIdMap st) i = None"
  using sess_invD(2) [of st i] by (cases "map_of (sm_sessionIdMap st) i") (auto simp: sess_abs_def)

lemma abs_Some:
  assumes "sess_inv st" "map_of (sm_sessionIdMap st) i = Some a" "sm_heap st a = Some s"
  shows "\<exists>d. sess_abs st i = Some (ss_userId s, ss_timeout s, d)"
  using assms by (simp add: sess_abs_def)

context sess_env_ok
begin

lemma create_sim:
  assumes "sess_inv st"
  shows "\<exists>ans st'. sess_run env now (OpCreate u w) st = Inr (ans, st') \<and> sess_inv st'
    \<and> sess_spec (sm_defaultTimeout st) now (OpCreate u w) (sess_abs st) ans (sess_abs st')"
proof -
  let ?a = "sm_nextAddr st" and ?s = "new_session env now u w st"
  let ?st1 = "put_session (st\<lparr>sm_nextAddr := ?a + 1\<rparr>) ?a ?s"
  note run = create_session_run [OF assms, of now u w]
  have "sess_abs (refreshed env now ?a ?s ?st1) =
      (sess_abs st)(ss_id ?s \<mapsto> (ss_userId ?s, ss_timeout ?s, expiry now (ss_timeout ?s)))"
    by (rule abs_refreshed [OF sess_env_ok_axioms assms create_pre [OF assms]]) simp_all
  moreover have "sess_abs st (generateSessionId env st) = None"
    using newUuid_fresh [of "map fst (sm_sessionIdMap st)"]
    by (simp add: sess_abs_def generateSessionId_def map_of_eq_None_iff [THEN iffD2])
  ultimately show ?thesis using run by (simp add: new_session_def Let_def)
qed

lemma get_sim:
  assumes "sess_inv st"
  shows "\<exists>ans st'. sess_run env now (OpGet i) st = Inr (ans, st') \<and> sess_inv st'
    \<and> sess_spec dt now (OpGet i) (sess_abs st) ans (sess_abs st')"
proof (cases "map_of (sm_sessionIdMap st) i")
  case None
  then have "sess_abs st i = None" using abs_None_iff [OF assms] by simp
  then show ?thesis using None assms by (simp add: getSession_def getSession_lookup_def)
next
  case (Some a)
  then obtain s where s: "sm_heap st a = Some s" using sess_invD(2) [OF assms] by blast
  let ?s = "s\<lparr>ss_used := ss_used s + 1\<rparr>"
  let ?st1 = "(put_session st a ?s)\<lparr>sm_ptrs := a # sm_ptrs st\<rparr>"
  note run = getSession_run [OF assms Some s, of now]
  have "sess_abs (refreshed env now a ?s ?st1) =
      (sess_abs st)(ss_id ?s \<mapsto> (ss_userId ?s, ss_timeout ?s, expiry now (ss_timeout ?s)))"
    by (rule abs_refreshed [OF sess_env_ok_axioms assms get_pre [OF assms Some s]]) simp_all
  moreover have "\<exists>t. sm_heap (refreshed env now a ?s ?st1) a = Some t \<and> ss_userId t = ss_userId s"
    by (simp add: refreshed_def Let_def)
  ultimately show ?thesis
    using run abs_Some [OF assms Some s] mapped(1) [OF assms Some s] by (auto simp: deref_def)
qed

lemma abs_frame:
  assumes "sess_inv st" "sm_sessionIdMap st' = sm_sessionIdMap st" "sm_sources st' = sm_sources st"
    and "\<And>i b. map_of (sm_sessionIdMap st) i = Some b \<Longrightarrow>
          map_option (\<lambda>s. s\<lparr>ss_used := 0\<rparr>) (sm_heap st' b) = map_option (\<lambda>s. s\<lparr>ss_used := 0\<rparr>) (sm_heap st b)"
  shows "sess_abs st' = sess_abs st"
proof
  fix i
  let ?f = "\<lambda>s. (ss_userId s, ss_timeout s, if armed s then map_option fst (map_of (sm_sources st) (ss_timerId s)) else None)"
  have f: "?f (s\<lparr>ss_used := 0\<rparr>) = ?f s" for s by (simp add: armed_def)
  have "map_option ?f (sm_heap st' b) = map_option ?f (sm_heap st b)" if "map_of (sm_sessionIdMap st) i = Some b" for b
    using arg_cong [OF assms(4) [OF that], of "map_option ?f"] by (simp only: option.map_comp comp_def f)
  then show "sess_abs st' i = sess_abs st i" unfolding sess_abs_def assms(2,3) by (auto split: option.split)
qed

lemma sess_run_sim:
  assumes "sess_inv st"
  shows "\<exists>ans st'. sess_run env now op st = Inr (ans, st') \<and> sess_inv st'
    \<and> sess_spec (sm_defaultTimeout st) now op (sess_abs st) ans (sess_abs st')"
proof (cases op)
  case (OpCreate u w)
  then show ?thesis using create_sim [OF assms] by blast
next
  case (OpGet i)
  then show ?thesis using get_sim [OF assms] by blast
next
  case (OpRelease n)
  show ?thesis
  proof (cases "n < length (sm_ptrs st)")
    case True
    then obtain st' where "release_ptr (sm_ptrs st ! n) st = Inr st'" "sess_inv st'" "sess_abs st' = sess_abs st"
      using release_ptr_run [OF assms nth_mem [OF True]] abs_frame [OF assms] by metis
    then show ?thesis using OpRelease True by simp
  next
    case False
    then show ?thesis using OpRelease assms by simp
  qed
next
  case (OpRemove i)
  show ?thesis
  proof (cases "map_of (sm_sessionIdMap st) i")
    case None
    then have "sess_abs st i = None" using abs_None_iff [OF assms] by simp
    then show ?thesis using OpRemove None assms by (simp add: remove_session_def fun_upd_idem)
  next
    case (Some a)
    then obtain s where s: "sm_heap st a = Some s" using sess_invD(2) [OF assms] by blast
    note m = mapped [OF assms Some s]
    show ?thesis
      using OpRemove remove_session_run [OF assms Some s] removed_inv [OF assms s m(2)] abs_removed [OF assms s m(2)]
        abs_Some [OF assms Some s] m(1) by auto
  qed
next
  case OpTick
  then show ?thesis using dispatch_due_sim [OF assms, of now] by auto
next
  case OpClear
  obtain st' where st': "clearAllSessions st = Inr st'" "sess_inv st'" "sm_sessionIdMap st' = []"
    using clearAllSessions_sim [OF assms] by blast
  then have "sess_abs st' = (\<lambda>_. None)" by (simp add: sess_abs_def fun_eq_iff)
  then show ?thesis using OpClear st' by simp
qed

end

inductive sess_reach :: "sess_env \<Rightarrow> sess_state \<Rightarrow> bool" for env where
  start: "sess_reach env mk_SessionManager"
| call: "sess_reach env st \<Longrightarrow> sess_run env now op st = Inr (ans, st') \<Longrightarrow> sess_reach env st'"
| reset: "sess_reach env st \<Longrightarrow> reset_sessions var st = Inr st' \<Longrightarrow> sess_reach env st'"

lemma inv_defaultTimeout: "sess_inv (st\<lparr>sm_defaultTimeout := w\<rparr>) = sess_inv st"
  by (simp add: sess_inv_def session_ok_def in_map_def)

lemma reset_inv:
  assumes "sess_inv st" shows "\<exists>st'. reset_sessions var st = Inr st' \<and> sess_inv st' \<and> sess_abs st' = (\<lambda>_. None)"
proof -
  obtain st1 where st1: "clearAllSessions st = Inr st1" "sess_inv st1" "sm_sessionIdMap st1 = []"
    using clearAllSessions_sim [OF assms] by blast
  then have "st1\<lparr>sm_sessionIdMap := []\<rparr> = st1" by simp
  then have "sess_inv (st1\<lparr>sm_sessionIdMap := [], sm_defaultTimeout := w\<rparr>)" for w
    using st1(2) inv_defaultTimeout [of w st1] by simp
  then show ?thesis
    using st1 by (auto simp: reset_sessions_def Let_def sess_abs_def fun_eq_iff split: option.splits)
qed

lemma sess_reach_inv:
  assumes "sess_env_ok env" "sess_reach env st" shows "sess_inv st"
  using assms(2)
proof (induction rule: sess_reach.induct)
  case start
  show ?case by (simp add: mk_SessionManager_def sess_inv_def)
next
  case (call st now op ans st')
  then show ?case using sess_env_ok.sess_run_sim [OF assms(1) call.IH, of now op] by auto
next
  case (reset st var st')
  then show ?case using reset_inv [OF reset.IH, of var] by auto
qed

section \<open>Properties\<close>

definition ex_env :: sess_env where
  "ex_env = \<lparr>sn_newSource = (\<lambda>tags. let n = fold max tags 0 + 1 in if n = INVALID_EVENT_ID then n + 1 else n),
     sn_newUuid = (\<lambda>ids. replicate (fold max (map length ids) 0 + 1) CHR ''s'')\<rparr>"

lemma fold_max_upper: "x \<in> set ids \<or> x \<le> a \<Longrightarrow> x \<le> fold max ids (a :: 'a :: linorder)"
proof (induction ids arbitrary: a)
  case (Cons y ids)
  then show ?case using Cons.IH [of "max y a"] by (auto simp: le_max_iff_disj)
qed simp

interpretation ex_sess: sess_env_ok ex_env
proof
  fix tags
  have "x < sn_newSource ex_env tags" if "x \<in> set tags" for x
    using fold_max_upper [of x tags 0] that by (simp add: ex_env_def Let_def)
  then show "sn_newSource ex_env tags \<notin> set tags" by blast
  show "sn_newSource ex_env tags \<noteq> INVALID_EVENT_ID" by (simp add: ex_env_def Let_def)
next
  fix ids
  have "length x < length (sn_newUuid ex_env ids)" if "x \<in> set ids" for x
    using fold_max_upper [of "length x" "map length ids" 0] that by (simp add: ex_env_def)
  then show "sn_newUuid ex_env ids \<notin> set ids" by blast
qed

text \<open>
  C13. Called one after the other, the operations of the session manager never touch a deleted session
  and never fail an assertion, and they implement a table from session identifiers to users with
  expiry times: \<open>create\<close> adds an entry under a new identifier, \<open>getSession\<close> finds its user and
  moves the expiry, \<open>remove\<close> deletes it, the main loop deletes exactly what has expired.
\<close>

theorem session_manager_refines_table:
  assumes "sess_env_ok env" and "sess_reach env st"
  shows "\<exists>ans st'. sess_run env now op st = Inr (ans, st')
    \<and> sess_spec (sm_defaultTimeout st) now op (sess_abs st) ans (sess_abs st')"
  using sess_env_ok.sess_run_sim [OF assms(1) sess_reach_inv [OF assms]] by blast

definition ex_sess1 :: sess_state where
  "ex_sess1 = (case sess_run ex_env 1000 (OpCreate 7 DEFAULT_TIMEOUT) mk_SessionManager of Inr (_, st) \<Rightarrow> st | Inl _ \<Rightarrow> mk_SessionManager)"

lemma ex_sess1_reach: "sess_reach ex_env ex_sess1"
proof -
  obtain ans st where "sess_run ex_env 1000 (OpCreate 7 DEFAULT_TIMEOUT) mk_SessionManager = Inr (ans, st)"
    using ex_sess.sess_run_sim [OF sess_reach_inv [OF ex_sess.sess_env_ok_axioms sess_reach.start]] by blast
  moreover from this have "sess_reach ex_env st" by (rule sess_reach.call [OF sess_reach.start])
  ultimately show ?thesis by (simp add: ex_sess1_def)
qed

theorem session_manager_refines_table_witness:
  "\<exists>ans st'. sess_run ex_env 5000 (OpGet ''s'') ex_sess1 = Inr (ans, st')
     \<and> sess_spec (sm_defaultTimeout ex_sess1) 5000 (OpGet ''s'') (sess_abs ex_sess1) ans (sess_abs st')"
  by (rule session_manager_refines_table [OF ex_sess.sess_env_ok_axioms ex_sess1_reach])

text \<open>
  C14. The reference counts are exact: in every state that calls lead to, a session is alive if and
  only if the map, its timer or a smart pointer refers to it, and its count is the number of these
  references. Nothing leaks, nothing is deleted early.
\<close>

theorem session_counts_exact:
  assumes "sess_env_ok env" and "sess_reach env st"
  shows "(sm_heap st a \<noteq> None \<longleftrightarrow> (\<exists>i. map_of (sm_sessionIdMap st) i = Some a)
      \<or> (\<exists>tag due. (tag, due, a) \<in> set (sm_sources st)) \<or> a \<in> set (sm_ptrs st))
    \<and> (\<forall>s. sm_heap st a = Some s \<longrightarrow>
      ss_used s = of_bool (map_of (sm_sessionIdMap st) (ss_id s) = Some a)
        + of_bool (ss_timerId s \<noteq> INVALID_EVENT_ID) + int (count_list (sm_ptrs st) a))"
proof -
  note inv = sess_reach_inv [OF assms]
  have "(\<exists>i. map_of (sm_sessionIdMap st) i = Some a) \<or> a \<in> set (sm_ptrs st)" if "sm_heap st a = Some s" for s
    using sess_invD(3) [OF inv that] by (auto simp: session_ok_def in_map_def count_list_pos)
  moreover have "sm_heap st a \<noteq> None"
    if "(\<exists>i. map_of (sm_sessionIdMap st) i = Some a) \<or> (\<exists>tag due. (tag, due, a) \<in> set (sm_sources st)) \<or> a \<in> set (sm_ptrs st)"
    using that sess_invD(2,5,6) [OF inv] by fastforce
  moreover have "ss_used s = of_bool (map_of (sm_sessionIdMap st) (ss_id s) = Some a)
        + of_bool (ss_timerId s \<noteq> INVALID_EVENT_ID) + int (count_list (sm_ptrs st) a)" if "sm_heap st a = Some s" for s
    using sess_invD(3) [OF inv that] by (simp add: session_ok_def in_map_def armed_def)
  ultimately show ?thesis by blast
qed

theorem session_counts_exact_witness:
  "\<exists>s. sm_heap ex_sess1 0 = Some s \<and> ss_used s = 2"
proof -
  obtain s where s: "sm_heap ex_sess1 0 = Some s" "map_of (sm_sessionIdMap ex_sess1) (ss_id s) = Some 0"
      "ss_timerId s \<noteq> INVALID_EVENT_ID" "sm_ptrs ex_sess1 = []"
  proof -
    have "(case sm_heap ex_sess1 0 of None \<Rightarrow> False | Some s \<Rightarrow> map_of (sm_sessionIdMap ex_sess1) (ss_id s) = Some 0
        \<and> ss_timerId s \<noteq> INVALID_EVENT_ID)" "sm_ptrs ex_sess1 = []" by code_simp+
    then show thesis using that by (cases "sm_heap ex_sess1 0") auto
  qed
  then show ?thesis
    using session_counts_exact [OF ex_sess.sess_env_ok_axioms ex_sess1_reach, of 0] by auto
qed

text \<open>
  C15. A session that has expired is gone: once the main loop has run at or after the expiry time, the
  identifier leads to no user, whoever still holds a pointer to the session.
\<close>

theorem expired_session_gone:
  assumes "sess_env_ok env" and "sess_reach env st"
    and "sess_abs st i = Some (u, w, Some d)" and "d \<le> now"
  shows "\<exists>st1 st2. sess_run env now OpTick st = Inr (AnsUnit, st1)
    \<and> sess_run env later (OpGet i) st1 = Inr (AnsUser None, st2)"
proof -
  obtain st1 where st1: "sess_run env now OpTick st = Inr (AnsUnit, st1)" "sess_abs st1 = spec_expire now (sess_abs st)"
    using sess_env_ok.sess_run_sim [OF assms(1) sess_reach_inv [OF assms(1,2)], of now OpTick] by auto
  have "sess_reach env st1" using assms(2) st1(1) by (rule sess_reach.call)
  then obtain ans st2 where st2: "sess_run env later (OpGet i) st1 = Inr (ans, st2)"
      "sess_spec (sm_defaultTimeout st1) later (OpGet i) (sess_abs st1) ans (sess_abs st2)"
    using sess_env_ok.sess_run_sim [OF assms(1) sess_reach_inv [OF assms(1)]] by blast
  have "sess_abs st1 i = None" using st1(2) assms(3,4) by (simp add: spec_expire_def)
  with st1 st2 show ?thesis by auto
qed

theorem expired_session_gone_witness:
  "\<exists>st1 st2. sess_run ex_env 700000 OpTick ex_sess1 = Inr (AnsUnit, st1)
     \<and> sess_run ex_env 700001 (OpGet ''s'') st1 = Inr (AnsUser None, st2)"
proof -
  have "sess_abs ex_sess1 ''s'' = Some (7, 600, Some 601000)" by code_simp
  then show ?thesis by (rule expired_session_gone [OF ex_sess.sess_env_ok_axioms ex_sess1_reach]) simp
qed

text \<open>
  A timeout of up to 4294967 seconds is honoured to the millisecond. Beyond that the product with
  1000 does not fit the \<open>unsigned int\<close> that GLib takes and wraps: a timeout of 4294968 seconds, 49
  days, expires after 704 milliseconds.
\<close>

lemma timer_interval_range:
  "(\<forall>w. w \<le> 4294967 \<longrightarrow> timer_interval w = 1000 * uint w) \<and> timer_interval 4294968 = 704"
proof (intro conjI allI impI)
  fix w :: u64
  assume w: "w \<le> 4294967"
  then have le: "uint w \<le> 4294967" using word_le_def [of w 4294967] by simp
  then have "uint (w * 1000) = uint w * 1000" by (subst uint_mult_lem [THEN iffD1]) simp_all
  moreover have "uint w * 1000 < 2 ^ 32" using le by simp
  ultimately show "timer_interval w = 1000 * uint w"
    by (simp add: timer_interval_def unsigned_ucast_eq take_bit_int_eq_self)
next
  show "timer_interval 4294968 = 704" by (simp add: timer_interval_def unsigned_ucast_eq take_bit_eq_mod)
qed

lemma timer_interval_range_witness:
  "timer_interval 600 = 1000 * uint (600 :: u64)"
  using timer_interval_range by simp

text \<open>What the two threads of the race leave behind: the session is in the map and armed, but counted once.\<close>

definition undone :: "sess_env \<Rightarrow> int \<Rightarrow> nat \<Rightarrow> session \<Rightarrow> sess_state \<Rightarrow> sess_state" where
  "undone env now a s st =
     (let srcs = filter (\<lambda>x. fst x \<noteq> ss_timerId s) (sm_sources st); tag = sn_newSource env (map fst srcs)
      in st\<lparr>sm_sessionIdMap := std_map_put (ss_id s) a (std_map_erase (ss_id s) (sm_sessionIdMap st)),
            sm_sources := srcs @ [(tag, now + timer_interval (ss_timeout s), a)],
            sm_heap := (sm_heap st)(a \<mapsto> s\<lparr>ss_timerId := tag, ss_lastAccessTime := now, ss_used := 1\<rparr>)\<rparr>)"

lemma race_run:
  assumes "sess_inv st" "map_of (sm_sessionIdMap st) i = Some a" "sm_heap st a = Some s"
    and "ss_timeout s \<noteq> 0" "a \<notin> set (sm_ptrs st)"
  shows "\<exists>st1 st2 st3. getSession_lookup i st = Inr (Some a, st1) \<and> remove_session i st1 = Inr (True, st2)
    \<and> updateTimer env now st2 a = Inr st3 \<and> release_ptr a st3 = Inr (undone env now a s st)"
proof -
  note m = mapped [OF assms(1-3)]
  have s: "armed s" "ss_used s = 2" "ss_id s = i"
    using session_used [OF m(3,2)] m assms(4,5) by (auto simp: session_ok_def count_list_0_iff)
  let ?srcs = "filter (\<lambda>x. fst x \<noteq> ss_timerId s) (sm_sources st)"
  let ?tag = "sn_newSource env (map fst ?srcs)"
  define st1 where "st1 = st\<lparr>sm_heap := (sm_heap st)(a \<mapsto> s\<lparr>ss_used := 3\<rparr>), sm_ptrs := a # sm_ptrs st\<rparr>"
  define st2 where "st2 = st1\<lparr>sm_sessionIdMap := std_map_erase i (sm_sessionIdMap st), sm_sources := ?srcs,
    sm_heap := (sm_heap st)(a \<mapsto> s\<lparr>ss_timerId := INVALID_EVENT_ID, ss_used := 1\<rparr>)\<rparr>"
  define st3 where "st3 = st2\<lparr>sm_sources := ?srcs @ [(?tag, now + timer_interval (ss_timeout s), a)],
    sm_heap := (sm_heap st)(a \<mapsto> s\<lparr>ss_timerId := ?tag, ss_used := 2, ss_lastAccessTime := now\<rparr>),
    sm_sessionIdMap := std_map_put i a (std_map_erase i (sm_sessionIdMap st))\<rparr>"
  have "getSession_lookup i st = Inr (Some a, st1)"
    using assms(2,3) s(2) by (simp add: getSession_lookup_def sess_simps st1_def)
  moreover have "remove_session i st1 = Inr (True, st2)"
    using assms(2) s(1) by (simp add: remove_session_def cancelTimer_def removeGSourceIfNeeded_def armed_def sess_simps st1_def st2_def)
  moreover have "updateTimer env now st2 a = Inr st3"
    using assms(4) s(3) by (simp add: updateTimer_def updateTimer_arm_def updateTimer_insert_def cancelTimer_def
        g_timeout_add_def sess_simps st1_def st2_def st3_def)
  moreover have "release_ptr a st3 = Inr (undone env now a s st)"
    using s(3) by (simp add: release_ptr_def sess_simps st1_def st2_def st3_def undone_def)
  ultimately show ?thesis by blast
qed

text \<open>
  C16. \<open>getSession\<close> puts the session back into the map after it has released the lock. In every state
  that calls lead to and for every session with a timeout to which no smart pointer refers: if another
  thread removes the session (a logout) between the two locks, \<open>remove\<close> answers true, but when
  \<open>getSession\<close> has ended and its pointer is released the identifier leads to the session again, its
  timer is armed, and the call of the timer deletes the session in \<open>remove\<close> and accesses it afterwards.
\<close>

theorem getSession_remove_race:
  assumes "sess_env_ok env" and "sess_reach env st"
    and "map_of (sm_sessionIdMap st) i = Some a" and "sm_heap st a = Some s"
    and "ss_timeout s \<noteq> NO_TIMEOUT" and "a \<notin> set (sm_ptrs st)"
  shows "\<exists>st1 st2 st3 st4 tag. getSession_lookup i st = Inr (Some a, st1)
    \<and> remove_session i st1 = Inr (True, st2) \<and> updateTimer env now st2 a = Inr st3
    \<and> release_ptr a st3 = Inr st4 \<and> map_of (sm_sessionIdMap st4) i = Some a
    \<and> map_of (sm_sources st4) tag = Some (now + timer_interval (ss_timeout s), a)
    \<and> dispatch tag st4 = Inl UndefinedBehaviour"
proof -
  let ?srcs = "filter (\<lambda>x. fst x \<noteq> ss_timerId s) (sm_sources st)"
  let ?tag = "sn_newSource env (map fst ?srcs)" and ?st4 = "undone env now a s st"
  note inv = sess_reach_inv [OF assms(1,2)]
  have i: "ss_id s = i" "ss_sessionMgr s" using mapped [OF inv assms(3,4)] by (auto simp: session_ok_def)
  have "map_of ?srcs ?tag = None"
    using sess_env_ok.newSource_fresh [OF assms(1), of "map fst ?srcs"] by (simp add: map_of_eq_None_iff)
  then have src: "map_of (sm_sources ?st4) ?tag = Some (now + timer_interval (ss_timeout s), a)"
    by (simp add: undone_def Let_def map_add_def)
  moreover have m: "map_of (sm_sessionIdMap ?st4) i = Some a"
    using i map_of_std_map_put [OF std_map_wf_erase [OF sess_invD(1) [OF inv]], of i a i] by (simp add: undone_def Let_def)
  moreover have "timerCb a ?st4 = Inl UndefinedBehaviour"
    using i m by (simp add: timerCb_def remove_session_def cancelTimer_def sess_simps undone_def)
  then have "dispatch ?tag ?st4 = Inl UndefinedBehaviour"
    using src by (simp add: dispatch_def bindR_simps)
  ultimately show ?thesis
    using race_run [OF inv assms(3,4) _ assms(6), of env now] assms(5) unfolding NO_TIMEOUT_def by blast
qed

theorem getSession_remove_race_witness:
  "\<exists>st1 st2 st3 st4 tag. getSession_lookup ''s'' ex_sess1 = Inr (Some 0, st1)
    \<and> remove_session ''s'' st1 = Inr (True, st2) \<and> updateTimer ex_env 2000 st2 0 = Inr st3
    \<and> release_ptr 0 st3 = Inr st4 \<and> map_of (sm_sessionIdMap st4) ''s'' = Some 0
    \<and> dispatch tag st4 = Inl UndefinedBehaviour"
proof -
  have "(case sm_heap ex_sess1 0 of None \<Rightarrow> False | Some s \<Rightarrow> ss_timeout s \<noteq> NO_TIMEOUT)"
      and e: "map_of (sm_sessionIdMap ex_sess1) ''s'' = Some 0" "0 \<notin> set (sm_ptrs ex_sess1)"
    by code_simp+
  then obtain s where "sm_heap ex_sess1 0 = Some s" "ss_timeout s \<noteq> NO_TIMEOUT"
    by (cases "sm_heap ex_sess1 0") auto
  from getSession_remove_race [OF ex_sess.sess_env_ok_axioms ex_sess1_reach e(1) this e(2), of 2000]
  show ?thesis by blast
qed

end
