(* ===== verification/Action_Tables.thy ===== *)
theory Action_Tables
  imports User_Tables
begin

text \<open>
  Action definitions and action logs (src/server/src/DBTablesAction.h, DBTablesAction.cc). A condition
  of an action that is not enabled is stored as NULL, an \<open>option\<close> in the rows. Texts of conditions are
  built as the source does and run through the engine of \<open>User_Tables\<close>. What the component asks of
  others is in \<open>action_env\<close>: the identifiers of the users (\<open>DBTablesUser::getUserIdSet\<close>) and of the
  incident trackers (\<open>DBTablesConfig::getIncidentTrackerIdSet\<close>), the hostgroups of a host
  (\<open>UnifiedDataStore::getHostgroupMembers\<close>), the ORDER BY of the database and the current time.
\<close>

section \<open>Data\<close>

definition ACTION_USER_DEFINED :: int where
  "ACTION_USER_DEFINED = -2"

definition ACTION_ALL :: int where
  "ACTION_ALL = -1"

definition ACTION_COMMAND :: int where
  "ACTION_COMMAND = 0"

definition ACTION_RESIDENT :: int where
  "ACTION_RESIDENT = 1"

definition ACTION_INCIDENT_SENDER :: int where
  "ACTION_INCIDENT_SENDER = 2"

definition CMP_INVALID :: int where
  "CMP_INVALID = 0"

definition CMP_EQ :: int where
  "CMP_EQ = 1"

definition CMP_EQ_GT :: int where
  "CMP_EQ_GT = 2"

lemmas action_consts = ACTION_USER_DEFINED_def ACTION_ALL_def ACTION_COMMAND_def ACTION_RESIDENT_def
  ACTION_INCIDENT_SENDER_def CMP_INVALID_def CMP_EQ_def CMP_EQ_GT_def

definition ACTCOND_SERVER_ID :: u32 where
  "ACTCOND_SERVER_ID = push_bit 0 1"

definition ACTCOND_HOST_ID :: u32 where
  "ACTCOND_HOST_ID = push_bit 1 1"

definition ACTCOND_HOST_GROUP_ID :: u32 where
  "ACTCOND_HOST_GROUP_ID = push_bit 2 1"

definition ACTCOND_TRIGGER_ID :: u32 where
  "ACTCOND_TRIGGER_ID = push_bit 3 1"

definition ACTCOND_TRIGGER_STATUS :: u32 where
  "ACTCOND_TRIGGER_STATUS = push_bit 4 1"

definition ACTCOND_TRIGGER_SEVERITY :: u32 where
  "ACTCOND_TRIGGER_SEVERITY = push_bit 5 1"

record action_condition =
  ac_enableBits :: u32
  ac_serverId :: int
  ac_hostIdInServer :: string
  ac_hostgroupId :: string
  ac_triggerId :: string
  ac_triggerStatus :: int
  ac_triggerSeverity :: int
  ac_triggerSeverityCompType :: int

definition ac_enable :: "action_condition \<Rightarrow> u32 \<Rightarrow> action_condition" where
  "ac_enable c flag = c\<lparr>ac_enableBits := ac_enableBits c OR flag\<rparr>"

definition ac_isEnable :: "action_condition \<Rightarrow> u32 \<Rightarrow> bool" where
  "ac_isEnable c flag \<longleftrightarrow> (ac_enableBits c AND flag) \<noteq> 0"

record action_def =
  ad_id :: int
  ad_condition :: action_condition
  ad_type :: int
  ad_workingDir :: string
  ad_command :: string
  ad_timeout :: int
  ad_ownerUserId :: int

text \<open>The members of \<open>EventInfo\<close> (src/server/common/Monitoring.h) that actions use.\<close>

record event_info =
  ev_serverId :: int
  ev_id :: string
  ev_time :: int
  ev_nsec :: int
  ev_type :: int
  ev_triggerId :: string
  ev_status :: int
  ev_severity :: int
  ev_hostIdInServer :: string

record action_row =
  ar_id :: int
  ar_serverId :: "int option"
  ar_hostId :: "string option"
  ar_hostgroupId :: "string option"
  ar_triggerId :: "string option"
  ar_triggerStatus :: "int option"
  ar_triggerSeverity :: "int option"
  ar_compType :: "int option"
  ar_type :: int
  ar_command :: string
  ar_workingDir :: string
  ar_timeout :: int
  ar_owner :: int

record log_row =
  lr_id :: int
  lr_actionId :: int
  lr_status :: int
  lr_starterId :: int
  lr_queuingTime :: "int option"
  lr_startTime :: "int option"
  lr_endTime :: "int option"
  lr_failureCode :: int
  lr_exitCode :: "int option"
  lr_serverId :: int
  lr_eventId :: string

record action_tables =
  at_actions :: "action_row list"
  at_logs :: "log_row list"

type_synonym action_db = "action_tables db_state"

record action_env =
  ae_engine :: user_engine
  ae_userIds :: "int list"
  ae_trackerIds :: "int list"
  ae_hostgroups :: "int \<Rightarrow> string \<Rightarrow> string list"
  ae_order :: "string \<Rightarrow> action_row list \<Rightarrow> action_row list"
  ae_now :: int

abbreviation set_actions :: "action_db \<Rightarrow> action_row list \<Rightarrow> action_db" where
  "set_actions db as \<equiv> db\<lparr>st_data := (st_data db)\<lparr>at_actions := as\<rparr>\<rparr>"

abbreviation set_logs :: "action_db \<Rightarrow> log_row list \<Rightarrow> action_db" where
  "set_logs db ls \<equiv> db\<lparr>st_data := (st_data db)\<lparr>at_logs := ls\<rparr>\<rparr>"

definition null_column :: "string \<Rightarrow> SQLColumnType \<Rightarrow> nat \<Rightarrow> SQLKeyType \<Rightarrow> column_def" where
  "null_column name type len key = (column name type len key 0)\<lparr>cd_canBeNull := True\<rparr>"

definition COLUMN_DEF_ACTIONS :: "column_def list" where
  "COLUMN_DEF_ACTIONS =
     [column ''action_id'' SQL_COLUMN_TYPE_INT 11 SQL_KEY_PRI SQL_COLUMN_FLAG_AUTO_INC,
      null_column ''server_id'' SQL_COLUMN_TYPE_INT 11 SQL_KEY_IDX,
      null_column ''host_id_in_server'' SQL_COLUMN_TYPE_VARCHAR 255 SQL_KEY_IDX,
      null_column ''host_group_id'' SQL_COLUMN_TYPE_VARCHAR 255 SQL_KEY_IDX,
      null_column ''trigger_id'' SQL_COLUMN_TYPE_VARCHAR 255 SQL_KEY_IDX,
      null_column ''trigger_status'' SQL_COLUMN_TYPE_INT 11 SQL_KEY_IDX,
      null_column ''trigger_severity'' SQL_COLUMN_TYPE_INT 11 SQL_KEY_IDX,
      null_column ''trigger_severity_comp_type'' SQL_COLUMN_TYPE_INT 11 SQL_KEY_IDX,
      column ''action_type'' SQL_COLUMN_TYPE_INT 11 SQL_KEY_NONE 0,
      column ''command'' SQL_COLUMN_TYPE_VARCHAR 255 SQL_KEY_NONE 0,
      column ''working_dir'' SQL_COLUMN_TYPE_VARCHAR 255 SQL_KEY_NONE 0,
      column ''timeout'' SQL_COLUMN_TYPE_INT 11 SQL_KEY_NONE 0,
      (column ''owner_user_id'' SQL_COLUMN_TYPE_INT 11 SQL_KEY_IDX 0)\<lparr>cd_defaultValue := Some ''0''\<rparr>]"

definition COLUMN_DEF_ACTION_LOGS :: "column_def list" where
  "COLUMN_DEF_ACTION_LOGS =
     [column ''action_log_id'' SQL_COLUMN_TYPE_BIGUINT 20 SQL_KEY_PRI SQL_COLUMN_FLAG_AUTO_INC,
      column ''action_id'' SQL_COLUMN_TYPE_INT 11 SQL_KEY_IDX 0,
      column ''status'' SQL_COLUMN_TYPE_INT 11 SQL_KEY_IDX 0,
      column ''starter_id'' SQL_COLUMN_TYPE_INT 11 SQL_KEY_NONE 0,
      null_column ''queuing_time'' SQL_COLUMN_TYPE_DATETIME 0 SQL_KEY_NONE,
      null_column ''start_time'' SQL_COLUMN_TYPE_DATETIME 0 SQL_KEY_IDX,
      (null_column ''end_time'' SQL_COLUMN_TYPE_DATETIME 0 SQL_KEY_IDX)\<lparr>cd_defaultValue := Some ''0''\<rparr>,
      (column ''exec_failure_code'' SQL_COLUMN_TYPE_INT 11 SQL_KEY_IDX 0)\<lparr>cd_defaultValue := Some ''0''\<rparr>,
      null_column ''exit_code'' SQL_COLUMN_TYPE_INT 11 SQL_KEY_IDX,
      column ''server_id'' SQL_COLUMN_TYPE_INT 11 SQL_KEY_IDX 0,
      column ''event_id'' SQL_COLUMN_TYPE_VARCHAR 255 SQL_KEY_IDX 0]"

text \<open>The rows as the columns name their values.\<close>

definition null_int :: "int option \<Rightarrow> sql_val" where
  "null_int x = (case x of None \<Rightarrow> VNull | Some i \<Rightarrow> VInt i)"

definition null_str :: "string option \<Rightarrow> sql_val" where
  "null_str x = (case x of None \<Rightarrow> VNull | Some s \<Rightarrow> VStr s)"

definition action_sql :: "action_row \<Rightarrow> sql_row" where
  "action_sql r = (\<lambda>_. VNull)(''action_id'' := VInt (ar_id r), ''server_id'' := null_int (ar_serverId r),
     ''host_id_in_server'' := null_str (ar_hostId r), ''host_group_id'' := null_str (ar_hostgroupId r),
     ''trigger_id'' := null_str (ar_triggerId r), ''trigger_status'' := null_int (ar_triggerStatus r),
     ''trigger_severity'' := null_int (ar_triggerSeverity r),
     ''trigger_severity_comp_type'' := null_int (ar_compType r), ''action_type'' := VInt (ar_type r),
     ''command'' := VStr (ar_command r), ''working_dir'' := VStr (ar_workingDir r),
     ''timeout'' := VInt (ar_timeout r), ''owner_user_id'' := VInt (ar_owner r))"

definition log_sql :: "log_row \<Rightarrow> sql_row" where
  "log_sql r = (\<lambda>_. VNull)(''action_log_id'' := VInt (lr_id r), ''action_id'' := VInt (lr_actionId r),
     ''status'' := VInt (lr_status r), ''starter_id'' := VInt (lr_starterId r),
     ''queuing_time'' := null_int (lr_queuingTime r), ''start_time'' := null_int (lr_startTime r),
     ''end_time'' := null_int (lr_endTime r), ''exec_failure_code'' := VInt (lr_failureCode r),
     ''exit_code'' := null_int (lr_exitCode r), ''server_id'' := VInt (lr_serverId r),
     ''event_id'' := VStr (lr_eventId r))"

section \<open>Validity\<close>

definition isValidActionOwnerId :: "action_env \<Rightarrow> int \<Rightarrow> bool" where
  "isValidActionOwnerId env i \<longleftrightarrow> i \<in> set (ae_userIds env) \<or> i = USER_ID_SYSTEM"

definition parseIncidentSenderCommand :: "action_def \<Rightarrow> int option" where
  "parseIncidentSenderCommand d = scan_dec (ad_command d)"

definition isValidIncidentTracker :: "action_env \<Rightarrow> action_def \<Rightarrow> bool" where
  "isValidIncidentTracker env d =
     (case parseIncidentSenderCommand d of
        None \<Rightarrow> False
      | Some trackerId \<Rightarrow> trackerId \<in> set (ae_trackerIds env))"

definition isValid_action :: "action_env \<Rightarrow> action_def \<Rightarrow> bool" where
  "isValid_action env d =
     (if \<not> isValidActionOwnerId env (ad_ownerUserId d) then False
      else if ad_type d = ACTION_INCIDENT_SENDER \<and> \<not> isValidIncidentTracker env d then False
      else True)"

section \<open>Conditions\<close>

text \<open>The loop of \<open>makeIdListCondition\<close> reads the first element before it looks for the end.\<close>

fun id_list_loop :: "int list \<Rightarrow> string \<Rightarrow> string res" where
  "id_list_loop [] condition = Inl UndefinedBehaviour"
| "id_list_loop (i # ids) condition =
     (let condition = condition @ dec_int i
      in if ids = [] then Inr condition else id_list_loop ids (condition @ '',''))"

definition makeIdListCondition :: "int list \<Rightarrow> string res" where
  "makeIdListCondition idList =
     bindR (id_list_loop idList ''action_id in ('') (\<lambda>condition. Inr (condition @ '')''))"

definition makeOwnerCondition :: "int \<Rightarrow> string" where
  "makeOwnerCondition userId = ''owner_user_id='' @ dec_int userId"

definition makeUserActionsCondition :: "string \<Rightarrow> string" where
  "makeUserActionsCondition ownerCondition =
     (if ownerCondition = []
      then ''(action_type>=0 AND action_type<'' @ dec_int ACTION_INCIDENT_SENDER @ '')''
      else ''('' @ ownerCondition @ '' AND action_type>=0 AND action_type<'' @ dec_int ACTION_INCIDENT_SENDER @ '')'')"

definition makeConditionForDelete :: "int list \<Rightarrow> op_privilege \<Rightarrow> string res" where
  "makeConditionForDelete idList privilege =
     bindR (makeIdListCondition idList) (\<lambda>condition.
       Inr (if \<not> op_has privilege OPPRVLG_DELETE_ALL_ACTION then
              condition @ (if condition \<noteq> [] then '' AND '' else [])
              @ ''('' @ makeUserActionsCondition (makeOwnerCondition (op_userId privilege))
              @ (if op_has privilege OPPRVLG_DELETE_INCIDENT_SETTING
                 then '' OR action_type='' @ dec_int ACTION_INCIDENT_SENDER else [])
              @ '')''
            else condition))"

section \<open>Query options\<close>

record actions_option =
  ao_privilege :: op_privilege
  ao_base :: data_query_option
  ao_eventInfo :: "event_info option"
  ao_type :: int
  ao_idList :: "int list"

definition mk_actions_option :: "op_privilege \<Rightarrow> actions_option" where
  "mk_actions_option privilege =
     \<lparr>ao_privilege = privilege, ao_base = mk_data_query_option, ao_eventInfo = None,
      ao_type = ACTION_USER_DEFINED, ao_idList = []\<rparr>"

definition setTargetEventInfo :: "actions_option \<Rightarrow> event_info option \<Rightarrow> actions_option" where
  "setTargetEventInfo opt eventInfo = opt\<lparr>ao_eventInfo := eventInfo\<rparr>"

definition setActionType :: "actions_option \<Rightarrow> int \<Rightarrow> actions_option" where
  "setActionType opt type = opt\<lparr>ao_type := type\<rparr>"

definition setActionIdList :: "actions_option \<Rightarrow> int list \<Rightarrow> actions_option" where
  "setActionIdList opt idList = opt\<lparr>ao_idList := idList\<rparr>"

text \<open>The option of a system user: \<open>OperationPrivilege\<close> gives it all privileges.\<close>

definition system_option :: actions_option where
  "system_option = mk_actions_option (privilege_of_user (\<lambda>_. None) USER_ID_SYSTEM)"

definition getActionTypeAndOwnerCondition :: "actions_option \<Rightarrow> string" where
  "getActionTypeAndOwnerCondition opt =
     (let p = ao_privilege opt;
          type = ao_type opt;
          ownerCondition = (if \<not> op_has p OPPRVLG_GET_ALL_ACTION then makeOwnerCondition (op_userId p) else [])
      in if type = ACTION_ALL then
           (if op_has p OPPRVLG_GET_ALL_INCIDENT_SETTINGS \<and> ownerCondition = [] then []
            else
              let condition = makeUserActionsCondition ownerCondition
              in if op_has p OPPRVLG_GET_ALL_INCIDENT_SETTINGS
                 then ''('' @ condition @ '' OR action_type='' @ dec_int ACTION_INCIDENT_SENDER @ '')''
                 else condition)
         else if type = ACTION_USER_DEFINED then makeUserActionsCondition ownerCondition
         else if type = ACTION_INCIDENT_SENDER then
           (if op_has p OPPRVLG_GET_ALL_INCIDENT_SETTINGS then ''action_type='' @ dec_int type
            else alwaysFalseCondition)
         else if ownerCondition = [] then ''action_type='' @ dec_int type
         else ''('' @ ownerCondition @ '' AND action_type='' @ dec_int type @ '')'')"

text \<open>The text of \<open>conditionTemplate\<close> with its conversions replaced.\<close>

definition opt_equal :: "string \<Rightarrow> string \<Rightarrow> string" where
  "opt_equal col value = ''(('' @ col @ '' IS NULL) OR ('' @ col @ ''='' @ value @ ''))''"

definition conditionTemplate :: "int \<Rightarrow> string \<Rightarrow> string \<Rightarrow> string \<Rightarrow> int \<Rightarrow> int \<Rightarrow> int \<Rightarrow> string" where
  "conditionTemplate serverId hostId hostgroupIdList triggerId status severity severity' =
     opt_equal ''server_id'' (dec_int serverId) @ '' AND ''
     @ opt_equal ''host_id_in_server'' hostId @ '' AND ''
     @ ''((host_group_id IS NULL) OR host_group_id IN ('' @ hostgroupIdList @ ''))'' @ '' AND ''
     @ opt_equal ''trigger_id'' triggerId @ '' AND ''
     @ opt_equal ''trigger_status'' (dec_int status) @ '' AND ''
     @ ''((trigger_severity IS NULL) OR (trigger_severity_comp_type='' @ dec_int CMP_EQ
     @ '' AND trigger_severity='' @ dec_int severity
     @ '') OR (trigger_severity_comp_type='' @ dec_int CMP_EQ_GT
     @ '' AND trigger_severity<='' @ dec_int severity' @ ''))''"

definition getHostgroupIdList :: "action_env \<Rightarrow> int \<Rightarrow> string \<Rightarrow> string" where
  "getHostgroupIdList env serverId hostId = inject_loop True '','' (map enc_str (ae_hostgroups env serverId hostId)) []"

text \<open>Text and condition are joined by AND when there is text already.\<close>

definition and_text :: "string \<Rightarrow> string \<Rightarrow> string" where
  "and_text cond s = cond @ (if cond \<noteq> [] then '' AND '' else []) @ s"

definition ao_getCondition :: "action_env \<Rightarrow> actions_option \<Rightarrow> string res" where
  "ao_getCondition env opt =
     (let actionTypeCondition = getActionTypeAndOwnerCondition opt;
          cond = (if actionTypeCondition \<noteq> [] then and_text [] actionTypeCondition else [])
      in bindR (if ao_idList opt \<noteq> []
                then bindR (makeIdListCondition (ao_idList opt)) (\<lambda>s. Inr (and_text cond s))
                else Inr cond) (\<lambda>cond.
         case ao_eventInfo opt of
           None \<Rightarrow> Inr cond
         | Some ev \<Rightarrow>
             let hostgroupIdList = getHostgroupIdList env (ev_serverId ev) (ev_hostIdInServer ev);
                 hostgroupIdList = (if hostgroupIdList = [] then enc_str alwaysFalseCondition else hostgroupIdList)
             in Inr (and_text cond
                  (conditionTemplate (ev_serverId ev) (enc_str (ev_hostIdInServer ev)) hostgroupIdList
                    (enc_str (ev_triggerId ev)) (ev_status ev) (ev_severity ev) (ev_severity ev)))))"

section \<open>Actions\<close>

definition checkPrivilegeForAdd :: "op_privilege \<Rightarrow> action_def \<Rightarrow> hterr" where
  "checkPrivilegeForAdd p d =
     (if op_userId p = INVALID_USER_ID then HTERR_INVALID_USER
      else if ad_type d = ACTION_INCIDENT_SENDER then
        (if op_has p OPPRVLG_CREATE_INCIDENT_SETTING then HTERR_OK else HTERR_NO_PRIVILEGE)
      else if \<not> op_has p OPPRVLG_CREATE_ACTION then HTERR_NO_PRIVILEGE
      else HTERR_OK)"

definition checkPrivilegeForUpdate :: "op_privilege \<Rightarrow> action_def \<Rightarrow> hterr" where
  "checkPrivilegeForUpdate p d =
     (if op_userId p = INVALID_USER_ID then HTERR_INVALID_USER
      else if ad_type d = ACTION_INCIDENT_SENDER then
        (if op_has p OPPRVLG_UPDATE_INCIDENT_SETTING then HTERR_OK else HTERR_NO_PRIVILEGE)
      else if \<not> op_has p OPPRVLG_UPDATE_ACTION then HTERR_NO_PRIVILEGE
      else HTERR_OK)"

definition stored_owner :: "action_def \<Rightarrow> op_privilege \<Rightarrow> int" where
  "stored_owner d p =
     (let ownerUserId = op_userId p;
          ownerUserId = (if ownerUserId = USER_ID_SYSTEM then ad_ownerUserId d else ownerUserId)
      in if ad_type d = ACTION_INCIDENT_SENDER then USER_ID_SYSTEM else ownerUserId)"

text \<open>\<open>getNullFlag\<close>, applied to the value it belongs to.\<close>

definition getNullFlag :: "action_def \<Rightarrow> u32 \<Rightarrow> 'a \<Rightarrow> 'a option" where
  "getNullFlag d enableFlag v = (if ac_isEnable (ad_condition d) enableFlag then Some v else None)"

definition action_values :: "action_def \<Rightarrow> int \<Rightarrow> int \<Rightarrow> action_row" where
  "action_values d ownerUserId rowId =
     (let c = ad_condition d
      in \<lparr>ar_id = rowId,
          ar_serverId = getNullFlag d ACTCOND_SERVER_ID (ac_serverId c),
          ar_hostId = getNullFlag d ACTCOND_HOST_ID (cstr (ac_hostIdInServer c)),
          ar_hostgroupId = getNullFlag d ACTCOND_HOST_GROUP_ID (cstr (ac_hostgroupId c)),
          ar_triggerId = getNullFlag d ACTCOND_TRIGGER_ID (cstr (ac_triggerId c)),
          ar_triggerStatus = getNullFlag d ACTCOND_TRIGGER_STATUS (ac_triggerStatus c),
          ar_triggerSeverity = getNullFlag d ACTCOND_TRIGGER_SEVERITY (ac_triggerSeverity c),
          ar_compType = getNullFlag d ACTCOND_TRIGGER_SEVERITY (ac_triggerSeverityCompType c),
          ar_type = ad_type d, ar_command = cstr (ad_command d), ar_workingDir = cstr (ad_workingDir d),
          ar_timeout = ad_timeout d, ar_owner = ownerUserId\<rparr>)"

definition addAction ::
  "action_env \<Rightarrow> action_db \<Rightarrow> action_def \<Rightarrow> op_privilege \<Rightarrow> hterr \<times> action_def \<times> action_db" where
  "addAction env db d p =
     (let err = checkPrivilegeForAdd p d
      in if err \<noteq> HTERR_OK then (err, d, db)
         else
           let rows = at_actions (st_data db);
               newId = en_nextId (ae_engine env) (map ar_id rows)
           in (HTERR_OK, d\<lparr>ad_id := newId\<rparr>, set_actions db (rows @ [action_values d (stored_owner d p) newId])))"

definition updateAction :: "action_env \<Rightarrow> action_db \<Rightarrow> action_def \<Rightarrow> op_privilege \<Rightarrow> hterr \<times> action_db" where
  "updateAction env db d p =
     (let err = checkPrivilegeForUpdate p d
      in if err \<noteq> HTERR_OK then (err, db)
         else (HTERR_OK, set_actions db
                (tbl_update (ae_engine env) action_sql (''action_id='' @ dec_int (ad_id d))
                  (\<lambda>r. action_values d (stored_owner d p) (ar_id r)) (at_actions (st_data db)))))"

text \<open>A NULL is read as 0 or as the empty string; the condition is enabled when the value is not NULL.\<close>

definition nn_enable :: "'a option \<Rightarrow> u32 \<Rightarrow> action_condition \<Rightarrow> action_condition" where
  "nn_enable v flag c = (if v \<noteq> None then ac_enable c flag else c)"

definition read_condition :: "action_row \<Rightarrow> action_condition" where
  "read_condition r =
     (let c = \<lparr>ac_enableBits = 0, ac_serverId = case_option 0 id (ar_serverId r),
               ac_hostIdInServer = case_option [] id (ar_hostId r),
               ac_hostgroupId = case_option [] id (ar_hostgroupId r),
               ac_triggerId = case_option [] id (ar_triggerId r),
               ac_triggerStatus = case_option 0 id (ar_triggerStatus r),
               ac_triggerSeverity = case_option 0 id (ar_triggerSeverity r),
               ac_triggerSeverityCompType = case_option 0 id (ar_compType r)\<rparr>
      in nn_enable (ar_triggerSeverity r) ACTCOND_TRIGGER_SEVERITY
           (nn_enable (ar_triggerStatus r) ACTCOND_TRIGGER_STATUS
             (nn_enable (ar_triggerId r) ACTCOND_TRIGGER_ID
               (nn_enable (ar_hostgroupId r) ACTCOND_HOST_GROUP_ID
                 (nn_enable (ar_hostId r) ACTCOND_HOST_ID
                   (nn_enable (ar_serverId r) ACTCOND_SERVER_ID c))))))"

definition read_action :: "action_row \<Rightarrow> action_def" where
  "read_action r =
     \<lparr>ad_id = ar_id r, ad_condition = read_condition r, ad_type = ar_type r, ad_workingDir = ar_workingDir r,
      ad_command = ar_command r, ad_timeout = ar_timeout r, ad_ownerUserId = ar_owner r\<rparr>"

definition getActionList ::
  "action_env \<Rightarrow> action_db \<Rightarrow> actions_option \<Rightarrow> (hterr \<times> action_def list) res" where
  "getActionList env db opt =
     bindR (ao_getCondition env opt) (\<lambda>condition.
       let limit = dqo_maxNumber (ao_base opt); offset = dqo_offset (ao_base opt)
       in if limit = 0 \<and> offset \<noteq> 0 then Inr (HTERR_OFFSET_WITHOUT_LIMIT, [])
          else
            let rows = ae_order env (getOrderBy (ao_base opt))
                  (tbl_select (ae_engine env) action_sql condition (at_actions (st_data db)));
                rows = (if limit = 0 then rows else take limit (drop offset rows))
            in Inr (HTERR_OK, filter (isValid_action env) (map read_action rows)))"

definition checkPrivilegeForDelete ::
  "action_env \<Rightarrow> action_db \<Rightarrow> op_privilege \<Rightarrow> int list \<Rightarrow> hterr res" where
  "checkPrivilegeForDelete env db p idList =
     (if op_userId p = INVALID_USER_ID then Inr HTERR_INVALID_USER
      else bindR (getActionList env db (setActionType (setActionIdList system_option idList) ACTION_INCIDENT_SENDER))
        (\<lambda>(_, incidentSenderList).
          let canDeleteIncidentSender = op_has p OPPRVLG_DELETE_INCIDENT_SETTING
          in if \<not> canDeleteIncidentSender \<and> incidentSenderList \<noteq> [] then Inr HTERR_NO_PRIVILEGE
             else if canDeleteIncidentSender \<and> length idList = length incidentSenderList then Inr HTERR_OK
             else if op_has p OPPRVLG_DELETE_ALL_ACTION then Inr HTERR_OK
             else if \<not> op_has p OPPRVLG_DELETE_ACTION then Inr HTERR_NO_PRIVILEGE
             else Inr HTERR_OK))"

definition delete_actions_trx :: "action_env \<Rightarrow> string \<Rightarrow> (action_db, nat) trx_proc" where
  "delete_actions_trx env condition =
     \<lparr>tr_preproc = (\<lambda>db x. (True, db, x)),
      tr_body = (\<lambda>db x.
        let rows = at_actions (st_data db);
            rows' = tbl_delete (ae_engine env) action_sql condition rows
        in (Inr (), set_actions db rows', length rows - length rows')),
      tr_postproc = (\<lambda>db x. (db, x))\<rparr>"

definition deleteActions ::
  "action_env \<Rightarrow> action_db \<Rightarrow> int list \<Rightarrow> op_privilege \<Rightarrow> (hterr \<times> action_db) res" where
  "deleteActions env db idList p =
     bindR (checkPrivilegeForDelete env db p idList) (\<lambda>err.
       if err \<noteq> HTERR_OK then Inr (err, db)
       else if idList = [] then Inr (HTERR_INVALID_PARAMETER, db)
       else bindR (makeConditionForDelete idList p) (\<lambda>condition.
         case runTransaction mem_agent (delete_actions_trx env condition) None db 0 of
           (_, db', numAffectedRows) \<Rightarrow>
             if numAffectedRows \<noteq> length idList then Inr (HTERR_DELETE_INCOMPLETE, db')
             else Inr (HTERR_OK, db')))"

text \<open>
  The privilege is built from the number of \<open>OPPRVLG_DELETE_ALL_ACTION\<close>, which the constructor takes
  for a user identifier; \<open>setUserId(USER_ID_SYSTEM)\<close> then replaces identifier and flags.
\<close>

definition deleteInvalidActions :: "action_env \<Rightarrow> action_db \<Rightarrow> action_db res" where
  "deleteInvalidActions env db =
     (let actionIdList = map ar_id (filter (\<lambda>r. \<not> isValid_action env (read_action r)) (at_actions (st_data db)))
      in if actionIdList = [] then Inr db
         else bindR (deleteActions env db actionIdList
                (privilege_of_user (\<lambda>_. None) USER_ID_SYSTEM))
           (\<lambda>(_, db'). Inr db'))"

definition isIncidentSenderEnabled :: "action_env \<Rightarrow> action_db \<Rightarrow> bool res" where
  "isIncidentSenderEnabled env db =
     bindR (getActionList env db (setActionType system_option ACTION_INCIDENT_SENDER)) (\<lambda>(_, actionDefList).
       Inr (length actionDefList > 0))"

section \<open>Action logs\<close>

definition ACTLOG_STAT_INVALID :: int where
  "ACTLOG_STAT_INVALID = 0"

definition ACTLOG_STAT_QUEUING :: int where
  "ACTLOG_STAT_QUEUING = 1"

definition ACTLOG_STAT_STARTED :: int where
  "ACTLOG_STAT_STARTED = 2"

definition ACTLOG_STAT_SUCCEEDED :: int where
  "ACTLOG_STAT_SUCCEEDED = 3"

definition ACTLOG_STAT_FAILED :: int where
  "ACTLOG_STAT_FAILED = 4"

definition ACTLOG_STAT_LAUNCHING_RESIDENT :: int where
  "ACTLOG_STAT_LAUNCHING_RESIDENT = 5"

definition ACTLOG_STAT_RESIDENT_QUEUING :: int where
  "ACTLOG_STAT_RESIDENT_QUEUING = 6"

definition ACTLOG_STAT_ABORTED :: int where
  "ACTLOG_STAT_ABORTED = 7"

definition ACTLOG_EXECFAIL_NONE :: int where
  "ACTLOG_EXECFAIL_NONE = 0"

definition ACTLOG_FLAG_QUEUING_TIME :: u32 where
  "ACTLOG_FLAG_QUEUING_TIME = push_bit 0 1"

definition ACTLOG_FLAG_START_TIME :: u32 where
  "ACTLOG_FLAG_START_TIME = push_bit 1 1"

definition ACTLOG_FLAG_END_TIME :: u32 where
  "ACTLOG_FLAG_END_TIME = push_bit 2 1"

definition ACTLOG_FLAG_EXIT_CODE :: u32 where
  "ACTLOG_FLAG_EXIT_CODE = push_bit 3 1"

record action_log =
  al_id :: u64
  al_actionId :: int
  al_status :: int
  al_starterId :: int
  al_queuingTime :: int
  al_startTime :: int
  al_endTime :: int
  al_failureCode :: int
  al_exitCode :: int
  al_serverId :: int
  al_eventId :: string
  al_nullFlags :: u32

record log_end_arg =
  le_logId :: u64
  le_status :: int
  le_exitCode :: int
  le_failureCode :: int
  le_nullFlags :: u32

definition mk_log_end_arg :: log_end_arg where
  "mk_log_end_arg = \<lparr>le_logId = - 1, le_status = ACTLOG_STAT_INVALID, le_exitCode = 0,
     le_failureCode = ACTLOG_EXECFAIL_NONE, le_nullFlags = 0\<rparr>"

definition createActionLog ::
  "action_env \<Rightarrow> action_db \<Rightarrow> action_def \<Rightarrow> event_info \<Rightarrow> int \<Rightarrow> int \<Rightarrow> u64 \<times> action_db" where
  "createActionLog env db d ev failureCode initialStatus =
     (let rows = at_logs (st_data db);
          newId = en_nextId (ae_engine env) (map lr_id rows);
          r = \<lparr>lr_id = newId, lr_actionId = ad_id d,
               lr_status = (if failureCode = ACTLOG_EXECFAIL_NONE then initialStatus else ACTLOG_STAT_FAILED),
               lr_starterId = 0,
               lr_queuingTime = (if initialStatus = ACTLOG_STAT_QUEUING then Some (ae_now env) else None),
               lr_startTime = Some (ae_now env),
               lr_endTime = (if failureCode = ACTLOG_EXECFAIL_NONE then None else Some (ae_now env)),
               lr_failureCode = failureCode, lr_exitCode = None,
               lr_serverId = ev_serverId ev, lr_eventId = cstr (ev_id ev)\<rparr>
      in (word_of_int newId, set_logs db (rows @ [r])))"

definition log_id_text :: "u64 \<Rightarrow> string" where
  "log_id_text logId = ''action_log_id='' @ enc_u64 logId"

definition logEndExecAction :: "action_env \<Rightarrow> action_db \<Rightarrow> log_end_arg \<Rightarrow> action_db" where
  "logEndExecAction env db arg =
     set_logs db (tbl_update (ae_engine env) log_sql (log_id_text (le_logId arg))
       (\<lambda>r. let r = r\<lparr>lr_status := le_status arg\<rparr>;
                r = (if (le_nullFlags arg AND ACTLOG_FLAG_END_TIME) = 0 then r\<lparr>lr_endTime := Some (ae_now env)\<rparr> else r);
                r = r\<lparr>lr_failureCode := le_failureCode arg\<rparr>
            in if (le_nullFlags arg AND ACTLOG_FLAG_EXIT_CODE) = 0 then r\<lparr>lr_exitCode := Some (le_exitCode arg)\<rparr> else r)
       (at_logs (st_data db)))"

definition updateLogStatusToStart :: "action_env \<Rightarrow> action_db \<Rightarrow> u64 \<Rightarrow> action_db" where
  "updateLogStatusToStart env db logId =
     set_logs db (tbl_update (ae_engine env) log_sql (log_id_text logId)
       (\<lambda>r. r\<lparr>lr_status := ACTLOG_STAT_STARTED, lr_startTime := Some (ae_now env)\<rparr>) (at_logs (st_data db)))"

definition updateLogStatusToAborted :: "action_env \<Rightarrow> action_db \<Rightarrow> u64 \<Rightarrow> action_db" where
  "updateLogStatusToAborted env db logId =
     set_logs db (tbl_update (ae_engine env) log_sql (log_id_text logId)
       (\<lambda>r. r\<lparr>lr_status := ACTLOG_STAT_ABORTED\<rparr>) (at_logs (st_data db)))"

text \<open>\<open>getLog\<close> leaves the server and the event of the object it is given as they are.\<close>

definition null_flag :: "'a option \<Rightarrow> u32 \<Rightarrow> u32 \<Rightarrow> u32" where
  "null_flag v flag flags = (if v = None then flags OR flag else flags)"

definition read_log :: "log_row \<Rightarrow> action_log \<Rightarrow> action_log" where
  "read_log r actionLog =
     actionLog\<lparr>al_id := word_of_int (lr_id r), al_actionId := lr_actionId r, al_status := lr_status r,
       al_starterId := lr_starterId r, al_queuingTime := case_option 0 id (lr_queuingTime r),
       al_startTime := case_option 0 id (lr_startTime r), al_endTime := case_option 0 id (lr_endTime r),
       al_failureCode := lr_failureCode r, al_exitCode := case_option 0 id (lr_exitCode r),
       al_nullFlags := null_flag (lr_exitCode r) ACTLOG_FLAG_EXIT_CODE
         (null_flag (lr_endTime r) ACTLOG_FLAG_END_TIME
           (null_flag (lr_startTime r) ACTLOG_FLAG_START_TIME
             (null_flag (lr_queuingTime r) ACTLOG_FLAG_QUEUING_TIME 0)))\<rparr>"

definition getLogCond :: "action_env \<Rightarrow> action_db \<Rightarrow> string \<Rightarrow> action_log \<Rightarrow> bool \<times> action_log" where
  "getLogCond env db condition actionLog =
     (case tbl_select (ae_engine env) log_sql condition (at_logs (st_data db)) of
        [] \<Rightarrow> (False, actionLog)
      | r # _ \<Rightarrow> (True, read_log r actionLog))"

definition getLog :: "action_env \<Rightarrow> action_db \<Rightarrow> u64 \<Rightarrow> action_log \<Rightarrow> bool \<times> action_log" where
  "getLog env db logId actionLog = getLogCond env db (log_id_text logId) actionLog"

definition getLogOfEvent :: "action_env \<Rightarrow> action_db \<Rightarrow> int \<Rightarrow> string \<Rightarrow> action_log \<Rightarrow> bool \<times> action_log" where
  "getLogOfEvent env db serverId eventId actionLog =
     getLogCond env db (''server_id='' @ dec_int serverId @ '' AND event_id='' @ enc_str eventId) actionLog"

definition blank_log :: action_log where
  "blank_log = \<lparr>al_id = 0, al_actionId = 0, al_status = 0, al_starterId = 0, al_queuingTime = 0,
     al_startTime = 0, al_endTime = 0, al_failureCode = 0, al_exitCode = 0, al_serverId = 0,
     al_eventId = [], al_nullFlags = 0\<rparr>"

text \<open>The columns of server and event are never NULL.\<close>

definition getLogs :: "action_env \<Rightarrow> action_db \<Rightarrow> string \<Rightarrow> bool \<times> action_log list" where
  "getLogs env db condition =
     (let rows = tbl_select (ae_engine env) log_sql condition (at_logs (st_data db))
      in if rows = [] then (False, [])
         else (True, map (\<lambda>r. (read_log r blank_log)\<lparr>al_serverId := lr_serverId r, al_eventId := lr_eventId r\<rparr>) rows))"

definition getTargetStatusesLogs :: "action_env \<Rightarrow> action_db \<Rightarrow> int list \<Rightarrow> bool \<times> action_log list" where
  "getTargetStatusesLogs env db targetStatuses =
     getLogs env db (''status in ('' @ inject_loop True '','' (map dec_int targetStatuses) [] @ '') AND event_id!='' @ [quot, quot])"

end
