(* ===== verification/Action_Props.thy ===== *)
theory Action_Props
  imports Action_Tables User_Props "HOL-Library.Multiset"
begin

text \<open>
  Lemmas on actions and their logs: the texts of \<open>Action_Tables\<close> are read as conditions, and what the
  operations do to the tables follows from these readings.
\<close>

section \<open>Texts and their readings\<close>

lemma id_list_loop_join:
  "ids \<noteq> [] \<Longrightarrow> id_list_loop ids s = Inr (s @ join_with '','' (map dec_int ids))"
proof (induction ids s rule: id_list_loop.induct)
  case (2 i ids s)
  then show ?case by (cases "ids = []") (simp_all add: Let_def join_with_Cons)
qed simp

lemma makeIdListCondition_text:
  "ids \<noteq> [] \<Longrightarrow> makeIdListCondition ids = Inr (''action_id in ('' @ join_with '','' (map dec_int ids) @ '')'')"
  by (simp add: makeIdListCondition_def id_list_loop_join)

lemma Nil_render_atom [simp]: "[] \<noteq> render_atom a"
  using render_atom_nonempty [of a] by metis

lemma action_idents [simp]:
  "ident ''action_id''" "ident ''server_id''" "ident ''host_id_in_server''" "ident ''host_group_id''"
  "ident ''trigger_id''" "ident ''trigger_status''" "ident ''trigger_severity''"
  "ident ''trigger_severity_comp_type''" "ident ''action_type''" "ident ''owner_user_id''"
  "ident ''action_log_id''" "ident ''status''" "ident ''event_id''"
  by code_simp+

definition at_ids :: "int list \<Rightarrow> sql_atom" where
  "at_ids ids = AtIn ''action_id'' (map VInt ids)"

definition at_type :: "int \<Rightarrow> sql_atom" where
  "at_type t = AtEq ''action_type'' (VInt t)"

definition at_owner :: "int option \<Rightarrow> sql_atom list" where
  "at_owner u = (case u of None \<Rightarrow> [] | Some i \<Rightarrow> [AtEq ''owner_user_id'' (VInt i)])"

definition at_user_actions :: "int option \<Rightarrow> sql_atom" where
  "at_user_actions u = AtPar [at_owner u @ [AtCmp CmpGe ''action_type'' 0, AtCmp CmpLt ''action_type'' ACTION_INCIDENT_SENDER]]"

definition at_opt :: "string \<Rightarrow> sql_val \<Rightarrow> sql_atom" where
  "at_opt c v = AtPar [[AtPar [[AtNull c]]], [AtPar [[AtEq c v]]]]"

definition at_opt_in :: "string \<Rightarrow> sql_val list \<Rightarrow> sql_atom" where
  "at_opt_in c vs = AtPar [[AtPar [[AtNull c]]], [AtIn c vs]]"

definition at_severity :: "int \<Rightarrow> sql_atom" where
  "at_severity i =
     AtPar [[AtPar [[AtNull ''trigger_severity'']]],
            [AtPar [[AtEq ''trigger_severity_comp_type'' (VInt CMP_EQ), AtEq ''trigger_severity'' (VInt i)]]],
            [AtPar [[AtEq ''trigger_severity_comp_type'' (VInt CMP_EQ_GT), AtCmp CmpLe ''trigger_severity'' i]]]]"

lemmas at_defs = at_type_def at_owner_def at_user_actions_def at_opt_def at_opt_in_def at_severity_def

definition owner_text :: "int option \<Rightarrow> string" where
  "owner_text u = (case u of None \<Rightarrow> [] | Some i \<Rightarrow> makeOwnerCondition i)"

lemma dec_int_0: "dec_int 0 = ''0''"
  by code_simp

lemma user_actions_text: "makeUserActionsCondition (owner_text u) = render_atom (at_user_actions u)"
  by (cases u) (simp_all add: makeUserActionsCondition_def owner_text_def makeOwnerCondition_def at_defs
      enc_int_def dec_int_0)

lemma template_text:
  assumes "hgs \<noteq> []"
  shows "conditionTemplate sv (enc_str h) (join_with '','' (map enc_str hgs)) (enc_str t) st se se =
     join_with '' AND '' (map render_atom [at_opt ''server_id'' (VInt sv), at_opt ''host_id_in_server'' (VStr h),
       at_opt_in ''host_group_id'' (map VStr hgs), at_opt ''trigger_id'' (VStr t), at_opt ''trigger_status'' (VInt st),
       at_severity se])"
  by (simp add: conditionTemplate_def opt_equal_def at_defs enc_int_def comp_def)

text \<open>The parts of the condition of an option, each with the atom it is read as.\<close>

definition visible_atoms :: "op_privilege \<Rightarrow> int \<Rightarrow> sql_atom list" where
  "visible_atoms p type =
     (let u = (if \<not> op_has p OPPRVLG_GET_ALL_ACTION then Some (op_userId p) else None);
          incident = op_has p OPPRVLG_GET_ALL_INCIDENT_SETTINGS
      in if type = ACTION_ALL then
           (if incident \<and> u = None then []
            else if incident then [AtPar [[at_user_actions u], [at_type ACTION_INCIDENT_SENDER]]]
            else [at_user_actions u])
         else if type = ACTION_USER_DEFINED then [at_user_actions u]
         else if type = ACTION_INCIDENT_SENDER then (if incident then [at_type type] else [AtNever])
         else if u = None then [at_type type]
         else [AtPar [at_owner u @ [at_type type]]])"

definition event_hostgroups :: "action_env \<Rightarrow> event_info \<Rightarrow> string list" where
  "event_hostgroups env ev =
     (let hgs = ae_hostgroups env (ev_serverId ev) (ev_hostIdInServer ev)
      in if hgs = [] then [alwaysFalseCondition] else hgs)"

definition event_atoms :: "action_env \<Rightarrow> event_info \<Rightarrow> sql_atom list" where
  "event_atoms env ev =
     [at_opt ''server_id'' (VInt (ev_serverId ev)), at_opt ''host_id_in_server'' (VStr (ev_hostIdInServer ev)),
      at_opt_in ''host_group_id'' (map VStr (event_hostgroups env ev)), at_opt ''trigger_id'' (VStr (ev_triggerId ev)),
      at_opt ''trigger_status'' (VInt (ev_status ev)), at_severity (ev_severity ev)]"

definition id_part :: "int list \<Rightarrow> string \<times> sql_atom" where
  "id_part ids = (''action_id in ('' @ join_with '','' (map dec_int ids) @ '')'', at_ids ids)"

definition option_parts :: "action_env \<Rightarrow> actions_option \<Rightarrow> (string \<times> sql_atom) list" where
  "option_parts env opt =
     map (\<lambda>a. (render_atom a, a)) (visible_atoms (ao_privilege opt) (ao_type opt))
     @ (if ao_idList opt \<noteq> [] then [id_part (ao_idList opt)] else [])
     @ (case ao_eventInfo opt of None \<Rightarrow> [] | Some ev \<Rightarrow> map (\<lambda>a. (render_atom a, a)) (event_atoms env ev))"

lemma visible_text:
  "getActionTypeAndOwnerCondition opt =
     join_with '' AND '' (map render_atom (visible_atoms (ao_privilege opt) (ao_type opt)))"
  using user_actions_text [of "Some (op_userId (ao_privilege opt))"] user_actions_text [of None]
  by (simp add: getActionTypeAndOwnerCondition_def visible_atoms_def Let_def owner_text_def at_type_def at_owner_def
      makeOwnerCondition_def enc_int_def)

lemma and_text_join:
  assumes "\<And>x. x \<in> set xs \<Longrightarrow> x \<noteq> []" "ys \<noteq> []"
  shows "and_text (join_with '' AND '' xs) (join_with '' AND '' ys) = join_with '' AND '' (xs @ ys)"
  using join_with_eq_Nil [OF assms(1), of xs "'' AND ''"] assms(2)
  by (cases "xs = []") (simp_all add: and_text_def join_with_append)

lemma hostgroup_text:
  "(let l = getHostgroupIdList env (ev_serverId ev) (ev_hostIdInServer ev)
    in if l = [] then enc_str alwaysFalseCondition else l) = join_with '','' (map enc_str (event_hostgroups env ev))"
proof -
  have "join_with '','' (map enc_str hgs) = [] \<longleftrightarrow> hgs = []" for hgs
    by (subst join_with_eq_Nil) (auto simp: enc_str_eq)
  then show ?thesis by (simp add: getHostgroupIdList_def inject_loop_join event_hostgroups_def Let_def)
qed

lemma option_parts_nonempty: "x \<in> fst ` set (option_parts env opt) \<Longrightarrow> x \<noteq> []"
  by (auto simp: option_parts_def id_part_def split: if_splits option.splits)

lemma event_text:
  "conditionTemplate (ev_serverId ev) (enc_str (ev_hostIdInServer ev)) (join_with '','' (map enc_str (event_hostgroups env ev)))
     (enc_str (ev_triggerId ev)) (ev_status ev) (ev_severity ev) (ev_severity ev) =
   join_with '' AND '' (map render_atom (event_atoms env ev))"
  unfolding event_atoms_def by (rule template_text) (simp add: event_hostgroups_def Let_def)

lemma option_text: "ao_getCondition env opt = Inr (join_with '' AND '' (map fst (option_parts env opt)))"
proof -
  let ?v = "map render_atom (visible_atoms (ao_privilege opt) (ao_type opt))"
  let ?i = "if ao_idList opt \<noteq> [] then [fst (id_part (ao_idList opt))] else []"
  have ne: "x \<in> set ?v \<Longrightarrow> x \<noteq> []" for x by auto
  have nei: "x \<in> set (?v @ ?i) \<Longrightarrow> x \<noteq> []" for x by (auto simp: id_part_def split: if_splits)
  have vt: "(if getActionTypeAndOwnerCondition opt \<noteq> [] then and_text [] (getActionTypeAndOwnerCondition opt) else [])
      = join_with '' AND '' ?v"
    by (simp add: visible_text and_text_def)
  have it: "bindR (makeIdListCondition (ao_idList opt)) (\<lambda>s. Inr (and_text (join_with '' AND '' ?v) s)) =
      Inr (join_with '' AND '' (?v @ ?i))" if "ao_idList opt \<noteq> []"
    using and_text_join [of ?v "[fst (id_part (ao_idList opt))]", OF ne] that
    by (simp add: makeIdListCondition_text id_part_def)
  have head: "(if ao_idList opt \<noteq> [] then bindR (makeIdListCondition (ao_idList opt)) (\<lambda>s. Inr (and_text (join_with '' AND '' ?v) s))
      else Inr (join_with '' AND '' ?v)) = (Inr (join_with '' AND '' (?v @ ?i)) :: string res)"
    using it by simp
  show ?thesis
  proof (cases "ao_eventInfo opt")
    case None
    then show ?thesis
      unfolding ao_getCondition_def Let_def vt head by (simp add: option_parts_def comp_def)
  next
    case (Some ev)
    have "and_text (join_with '' AND '' (?v @ ?i)) (join_with '' AND '' (map render_atom (event_atoms env ev))) =
        join_with '' AND '' ((?v @ ?i) @ map render_atom (event_atoms env ev))"
      by (rule and_text_join [OF nei]) (simp_all add: event_atoms_def)
    with Some show ?thesis
      unfolding ao_getCondition_def Let_def vt head hostgroup_text [unfolded Let_def]
      by (simp add: option_parts_def comp_def event_text hostgroup_text [unfolded Let_def])
  qed
qed

section \<open>What the conditions select\<close>

text \<open>The actions a user may see, and the actions that an event starts.\<close>

definition action_visible :: "op_privilege \<Rightarrow> int \<Rightarrow> action_row \<Rightarrow> bool" where
  "action_visible p type r =
     (let mine = (op_has p OPPRVLG_GET_ALL_ACTION \<or> ar_owner r = op_userId p);
          incident = op_has p OPPRVLG_GET_ALL_INCIDENT_SETTINGS;
          user_action = (0 \<le> ar_type r \<and> ar_type r < ACTION_INCIDENT_SENDER)
      in if type = ACTION_ALL then
           op_has p OPPRVLG_GET_ALL_ACTION \<and> incident
           \<or> mine \<and> user_action \<or> incident \<and> ar_type r = ACTION_INCIDENT_SENDER
         else if type = ACTION_USER_DEFINED then mine \<and> user_action
         else if type = ACTION_INCIDENT_SENDER then incident \<and> ar_type r = ACTION_INCIDENT_SENDER
         else mine \<and> ar_type r = type)"

definition opt_match :: "'a option \<Rightarrow> 'a \<Rightarrow> bool" where
  "opt_match x v \<longleftrightarrow> (case x of None \<Rightarrow> True | Some u \<Rightarrow> u = v)"

definition action_matches :: "string list \<Rightarrow> event_info \<Rightarrow> action_row \<Rightarrow> bool" where
  "action_matches hgs ev r \<longleftrightarrow>
     opt_match (ar_serverId r) (ev_serverId ev) \<and> opt_match (ar_hostId r) (cstr (ev_hostIdInServer ev))
     \<and> (case ar_hostgroupId r of None \<Rightarrow> True | Some g \<Rightarrow> g \<in> cstr ` set hgs)
     \<and> opt_match (ar_triggerId r) (cstr (ev_triggerId ev)) \<and> opt_match (ar_triggerStatus r) (ev_status ev)
     \<and> (case ar_triggerSeverity r of
          None \<Rightarrow> True
        | Some s \<Rightarrow> ar_compType r = Some CMP_EQ \<and> s = ev_severity ev
                  \<or> ar_compType r = Some CMP_EQ_GT \<and> s \<le> ev_severity ev)"

lemma action_cols [simp]:
  "action_sql r ''action_id'' = VInt (ar_id r)" "action_sql r ''action_type'' = VInt (ar_type r)"
  "action_sql r ''owner_user_id'' = VInt (ar_owner r)" "action_sql r ''server_id'' = null_int (ar_serverId r)"
  "action_sql r ''host_id_in_server'' = null_str (ar_hostId r)" "action_sql r ''host_group_id'' = null_str (ar_hostgroupId r)"
  "action_sql r ''trigger_id'' = null_str (ar_triggerId r)" "action_sql r ''trigger_status'' = null_int (ar_triggerStatus r)"
  "action_sql r ''trigger_severity'' = null_int (ar_triggerSeverity r)"
  "action_sql r ''trigger_severity_comp_type'' = null_int (ar_compType r)"
  by (simp_all add: action_sql_def)

lemma null_vals [simp]:
  "null_int x = VNull \<longleftrightarrow> x = None" "null_int x = VInt i \<longleftrightarrow> x = Some i"
  "null_str y = VNull \<longleftrightarrow> y = None" "null_str y = VStr s \<longleftrightarrow> y = Some s"
  by (auto simp: null_int_def null_str_def split: option.splits)

lemma holds_at [simp]:
  "holds_atom (action_sql r) (at_ids ids) \<longleftrightarrow> ar_id r \<in> set ids"
  "holds_atom (action_sql r) (at_type t) \<longleftrightarrow> ar_type r = t"
  "holds_atom row (at_opt c v) \<longleftrightarrow> row c = VNull \<or> same_val (lit_val v) (row c)"
  "holds_atom row (at_opt_in c vs) \<longleftrightarrow> row c = VNull \<or> (\<exists>v \<in> set vs. same_val (lit_val v) (row c))"
  by (auto simp: at_ids_def at_defs holds_def split: option.splits)

lemma holds_user_actions [simp]:
  "holds_atom (action_sql r) (at_user_actions u) \<longleftrightarrow>
     (u = None \<or> u = Some (ar_owner r)) \<and> 0 \<le> ar_type r \<and> ar_type r < ACTION_INCIDENT_SENDER"
  by (cases u) (auto simp: at_defs holds_def)

lemma action_types_distinct:
  "ACTION_INCIDENT_SENDER \<noteq> ACTION_ALL" "ACTION_INCIDENT_SENDER \<noteq> ACTION_USER_DEFINED"
  by (simp_all add: action_consts)

lemma holds_severity:
  "holds_atom (action_sql r) (at_severity i) \<longleftrightarrow>
     (case ar_triggerSeverity r of None \<Rightarrow> True
      | Some s \<Rightarrow> ar_compType r = Some CMP_EQ \<and> s = i \<or> ar_compType r = Some CMP_EQ_GT \<and> s \<le> i)"
  by (auto simp: at_severity_def holds_def split: option.splits)

lemma visible_holds:
  "(\<forall>a \<in> set (visible_atoms p type). holds_atom (action_sql r) a) \<longleftrightarrow> action_visible p type r"
  by (auto simp: visible_atoms_def action_visible_def Let_def holds_def at_owner_def)

lemma event_holds:
  "(\<forall>a \<in> set (event_atoms env ev). holds_atom (action_sql r) a) \<longleftrightarrow> action_matches (event_hostgroups env ev) ev r"
  by (auto simp: event_atoms_def action_matches_def opt_match_def holds_severity split: option.splits)

lemma atoms_ok:
  "a \<in> set (visible_atoms p type) \<Longrightarrow> wf_atom a \<and> cols_ok a"
  "a \<in> set (event_atoms env ev) \<Longrightarrow> wf_atom a \<and> cols_ok a"
  "ids \<noteq> [] \<Longrightarrow> wf_atom (at_ids ids) \<and> cols_ok (at_ids ids)"
  by (auto simp: visible_atoms_def event_atoms_def event_hostgroups_def at_ids_def at_defs wf_cond_def Let_def
      split: if_splits)

lemma id_part_lexes: "ids \<noteq> [] \<Longrightarrow> lexes (fst (id_part ids)) (atom_toks (snd (id_part ids)))"
  using lexes_ident_in_lower [of "''action_id''" "map VInt ids"] by (simp add: id_part_def at_ids_def comp_def enc_int_def)

lemma option_parts_ok:
  assumes "(s, a) \<in> set (option_parts env opt)"
  shows "lexes s (atom_toks a) \<and> wf_atom a \<and> cols_ok a"
  using assms lexes_atom atoms_ok id_part_lexes [of "ao_idList opt"]
  by (auto simp: option_parts_def id_part_def split: if_splits option.splits)

definition option_selects :: "action_env \<Rightarrow> actions_option \<Rightarrow> action_row \<Rightarrow> bool" where
  "option_selects env opt r \<longleftrightarrow>
     action_visible (ao_privilege opt) (ao_type opt) r
     \<and> (ao_idList opt = [] \<or> ar_id r \<in> set (ao_idList opt))
     \<and> (case ao_eventInfo opt of None \<Rightarrow> True | Some ev \<Rightarrow> action_matches (event_hostgroups env ev) ev r)"

lemma option_parts_hold:
  "(\<forall>(s, a) \<in> set (option_parts env opt). holds_atom (action_sql r) a) \<longleftrightarrow> option_selects env opt r"
proof -
  have ids: "(\<forall>(s, a) \<in> set (if ao_idList opt \<noteq> [] then [id_part (ao_idList opt)] else []). holds_atom (action_sql r) a)
      \<longleftrightarrow> ao_idList opt = [] \<or> ar_id r \<in> set (ao_idList opt)"
    by (auto simp: id_part_def)
  have self: "(\<forall>(s, a) \<in> (\<lambda>a. (render_atom a, a)) ` A. P a) \<longleftrightarrow> (\<forall>a \<in> A. P a)" for A :: "sql_atom set" and P by auto
  show ?thesis
    unfolding option_parts_def option_selects_def set_append ball_Un ids visible_holds [symmetric] set_map self
    by (cases "ao_eventInfo opt") (auto simp: event_holds [symmetric])
qed

subsection \<open>Deleting\<close>

definition deletable :: "op_privilege \<Rightarrow> action_row \<Rightarrow> bool" where
  "deletable p r \<longleftrightarrow>
     op_has p OPPRVLG_DELETE_ALL_ACTION
     \<or> ar_owner r = op_userId p \<and> 0 \<le> ar_type r \<and> ar_type r < ACTION_INCIDENT_SENDER
     \<or> op_has p OPPRVLG_DELETE_INCIDENT_SETTING \<and> ar_type r = ACTION_INCIDENT_SENDER"

definition delete_parts :: "int list \<Rightarrow> op_privilege \<Rightarrow> (string \<times> sql_atom) list" where
  "delete_parts ids p =
     id_part ids #
     (if op_has p OPPRVLG_DELETE_ALL_ACTION then []
      else let a = AtPar ([at_user_actions (Some (op_userId p))]
                 # (if op_has p OPPRVLG_DELETE_INCIDENT_SETTING then [[at_type ACTION_INCIDENT_SENDER]] else []))
           in [(render_atom a, a)])"

lemma delete_text:
  "ids \<noteq> [] \<Longrightarrow> makeConditionForDelete ids p = Inr (join_with '' AND '' (map fst (delete_parts ids p)))"
  using user_actions_text [of "Some (op_userId p)"]
  by (simp add: makeConditionForDelete_def makeIdListCondition_text delete_parts_def id_part_def Let_def owner_text_def
      at_type_def enc_int_def)

lemma delete_parts_ok:
  assumes "ids \<noteq> []" "(s, a) \<in> set (delete_parts ids p)"
  shows "lexes s (atom_toks a) \<and> wf_atom a \<and> cols_ok a"
proof -
  let ?a = "AtPar ([at_user_actions (Some (op_userId p))]
                 # (if op_has p OPPRVLG_DELETE_INCIDENT_SETTING then [[at_type ACTION_INCIDENT_SENDER]] else []))"
  have "wf_atom ?a \<and> cols_ok ?a" by (simp add: at_defs wf_cond_def)
  then show ?thesis
    using assms id_part_lexes [OF assms(1)] atoms_ok(3) [OF assms(1)] lexes_atom [of ?a]
    by (auto simp: delete_parts_def id_part_def Let_def split: if_splits)
qed

lemma delete_parts_hold:
  "(\<forall>(s, a) \<in> set (delete_parts ids p). holds_atom (action_sql r) a) \<longleftrightarrow> ar_id r \<in> set ids \<and> deletable p r"
  by (auto simp: delete_parts_def id_part_def Let_def holds_def deletable_def)

text \<open>The number of incident senders that a list of identifiers names, as the privilege check counts them.\<close>

definition named_senders :: "action_env \<Rightarrow> action_db \<Rightarrow> int list \<Rightarrow> action_row list" where
  "named_senders env db ids = filter (\<lambda>r. ar_type r = ACTION_INCIDENT_SENDER \<and> ar_id r \<in> set ids
     \<and> isValid_action env (read_action r)) (at_actions (st_data db))"

section \<open>Operations\<close>

text \<open>What \<open>ORDER BY\<close> does: it permutes the rows, and without a text it does nothing.\<close>

locale action_env_ok = user_engine_ok "ae_engine env" for env :: action_env +
  assumes order_mset: "mset (ae_order env s rows) = mset rows"
    and order_none: "ae_order env [] rows = rows"
begin

lemma option_rows:
  "where_rows (ae_engine env) action_sql (join_with '' AND '' (map fst (option_parts env opt))) r \<longleftrightarrow> option_selects env opt r"
proof (cases "option_parts env opt = []")
  case True
  then show ?thesis using option_parts_hold [of env opt r] by (simp add: where_rows_def)
next
  case False
  have ne: "join_with '' AND '' (map fst (option_parts env opt)) \<noteq> []"
    using False option_parts_nonempty by (subst join_with_eq_Nil) auto
  have "sql_where (join_with '' AND '' (map fst (option_parts env opt))) (action_sql r) = Some (option_selects env opt r)"
    using sql_where_and [OF option_parts_ok False ne] by (simp add: option_parts_hold)
  then show ?thesis using ne matches_where by (auto simp: where_rows_def)
qed

lemma getActionList_rows:
  assumes "dqo_maxNumber (ao_base opt) = 0" "dqo_offset (ao_base opt) = 0"
  shows "\<exists>rows. getActionList env db opt = Inr (HTERR_OK, filter (isValid_action env) (map read_action rows))
    \<and> mset rows = mset (filter (option_selects env opt) (at_actions (st_data db)))
    \<and> (dqo_sortOrderVect (ao_base opt) = [] \<longrightarrow> rows = filter (option_selects env opt) (at_actions (st_data db)))"
proof -
  have sel: "where_rows (ae_engine env) action_sql (join_with '' AND '' (map fst (option_parts env opt))) = option_selects env opt"
    by (simp add: fun_eq_iff option_rows)
  let ?rows = "ae_order env (getOrderBy (ao_base opt)) (filter (option_selects env opt) (at_actions (st_data db)))"
  have "getActionList env db opt = Inr (HTERR_OK, filter (isValid_action env) (map read_action ?rows))"
    using assms by (simp add: getActionList_def option_text tbl_select_def sel)
  moreover have "dqo_sortOrderVect (ao_base opt) = [] \<Longrightarrow> ?rows = filter (option_selects env opt) (at_actions (st_data db))"
    by (simp add: getOrderBy_def order_none)
  ultimately show ?thesis using order_mset by blast
qed

lemma system_list:
  "getActionList env db (setActionType (setActionIdList system_option ids) ACTION_INCIDENT_SENDER) =
     Inr (HTERR_OK, filter (isValid_action env) (map read_action
       (filter (\<lambda>r. ar_type r = ACTION_INCIDENT_SENDER \<and> (ids = [] \<or> ar_id r \<in> set ids)) (at_actions (st_data db)))))"
proof -
  let ?opt = "setActionType (setActionIdList system_option ids) ACTION_INCIDENT_SENDER"
  have has: "op_has (ao_privilege ?opt) OPPRVLG_GET_ALL_INCIDENT_SETTINGS"
    using op_has_setFlags_all [of "p" OPPRVLG_GET_ALL_INCIDENT_SETTINGS for p]
    by (simp add: system_option_def setActionType_def setActionIdList_def mk_actions_option_def privilege_of_user_def
        op_setUserId_def Let_def USER_ID_SYSTEM_def INVALID_USER_ID_def)
  have fields: "dqo_maxNumber (ao_base ?opt) = 0" "dqo_offset (ao_base ?opt) = 0" "dqo_sortOrderVect (ao_base ?opt) = []"
    "ao_type ?opt = ACTION_INCIDENT_SENDER" "ao_idList ?opt = ids" "ao_eventInfo ?opt = None"
    by (simp_all add: setActionType_def setActionIdList_def system_option_def mk_actions_option_def mk_data_query_option_def NO_LIMIT_def)
  have sel: "option_selects env ?opt = (\<lambda>r. ar_type r = ACTION_INCIDENT_SENDER \<and> (ids = [] \<or> ar_id r \<in> set ids))"
    using has by (auto simp: fun_eq_iff option_selects_def fields action_visible_def action_types_distinct)
  show ?thesis using getActionList_rows [OF fields(1,2), of db] fields(3) unfolding sel by auto
qed

lemma delete_rows:
  assumes "ids \<noteq> []"
  shows "where_rows (ae_engine env) action_sql (join_with '' AND '' (map fst (delete_parts ids p))) =
    (\<lambda>r. ar_id r \<in> set ids \<and> deletable p r)"
proof
  fix r
  have ne: "join_with '' AND '' (map fst (delete_parts ids p)) \<noteq> []"
    by (simp add: delete_parts_def id_part_def Let_def)
  have "sql_where (join_with '' AND '' (map fst (delete_parts ids p))) (action_sql r) = Some (ar_id r \<in> set ids \<and> deletable p r)"
    unfolding delete_parts_hold [symmetric]
    by (rule sql_where_and [OF delete_parts_ok [OF assms] _ ne]) (simp_all add: delete_parts_def)
  then show "where_rows (ae_engine env) action_sql (join_with '' AND '' (map fst (delete_parts ids p))) r \<longleftrightarrow>
      ar_id r \<in> set ids \<and> deletable p r"
    using ne matches_where by (auto simp: where_rows_def)
qed

lemma checkPrivilegeForDelete_cases:
  assumes "ids \<noteq> []"
  shows "checkPrivilegeForDelete env db p ids = Inr
     (if op_userId p = INVALID_USER_ID then HTERR_INVALID_USER
      else if \<not> op_has p OPPRVLG_DELETE_INCIDENT_SETTING \<and> named_senders env db ids \<noteq> [] then HTERR_NO_PRIVILEGE
      else if op_has p OPPRVLG_DELETE_INCIDENT_SETTING \<and> length ids = length (named_senders env db ids) then HTERR_OK
      else if op_has p OPPRVLG_DELETE_ALL_ACTION \<or> op_has p OPPRVLG_DELETE_ACTION then HTERR_OK
      else HTERR_NO_PRIVILEGE)"
proof -
  have "filter (isValid_action env) (map read_action (filter (\<lambda>r. ar_type r = ACTION_INCIDENT_SENDER \<and> (ids = [] \<or> ar_id r \<in> set ids))
      (at_actions (st_data db)))) = map read_action (named_senders env db ids)"
    using assms by (simp add: named_senders_def filter_map comp_def conj_ac)
  then show ?thesis by (simp add: checkPrivilegeForDelete_def system_list Let_def)
qed

lemma deleteActions_effect:
  assumes "ids \<noteq> []" "checkPrivilegeForDelete env db p ids = Inr HTERR_OK"
  shows "\<exists>db'. deleteActions env db ids p = Inr
      (if length (filter (\<lambda>r. ar_id r \<in> set ids \<and> deletable p r) (at_actions (st_data db))) = length ids
       then HTERR_OK else HTERR_DELETE_INCOMPLETE, db')
    \<and> st_data db' = (st_data db)\<lparr>at_actions := filter (\<lambda>r. \<not> (ar_id r \<in> set ids \<and> deletable p r)) (at_actions (st_data db))\<rparr>"
proof -
  have len: "length rows - length (filter (\<lambda>r. ar_id r \<in> set ids \<longrightarrow> \<not> deletable p r) rows) =
      length (filter (\<lambda>r. ar_id r \<in> set ids \<and> deletable p r) rows)" for rows
    using sum_length_filter_compl [of "\<lambda>r. ar_id r \<in> set ids \<and> deletable p r" rows] by simp
  show ?thesis
    using assms
    by (simp add: deleteActions_def delete_text delete_actions_trx_def runTransaction_def trx_try_def run_hook_def
        mem_agent_def Let_def tbl_delete_def delete_rows len)
qed

end

end
