(* ===== verification/Action_Rules.thy ===== *)
theory Action_Rules
  imports Action_Props User_Access
begin

text \<open>
  Properties of actions and action logs: which actions an event or a user selects, what deletion and
  update may touch, the invariant of the table of actions, and the life of a log entry.
\<close>

section \<open>Storing and reading\<close>

text \<open>What the table keeps of a definition: values of conditions that are not enabled are lost.\<close>

definition kept :: "action_condition \<Rightarrow> u32 \<Rightarrow> 'a \<Rightarrow> 'a \<Rightarrow> 'a" where
  "kept c flag v blank = (if ac_isEnable c flag then v else blank)"

definition ACTCOND_MASK :: u32 where
  "ACTCOND_MASK = 0x3F"

definition kept_condition :: "action_condition \<Rightarrow> action_condition" where
  "kept_condition c =
     \<lparr>ac_enableBits = (ac_enableBits c AND ACTCOND_MASK),
      ac_serverId = kept c ACTCOND_SERVER_ID (ac_serverId c) 0,
      ac_hostIdInServer = kept c ACTCOND_HOST_ID (cstr (ac_hostIdInServer c)) [],
      ac_hostgroupId = kept c ACTCOND_HOST_GROUP_ID (cstr (ac_hostgroupId c)) [],
      ac_triggerId = kept c ACTCOND_TRIGGER_ID (cstr (ac_triggerId c)) [],
      ac_triggerStatus = kept c ACTCOND_TRIGGER_STATUS (ac_triggerStatus c) 0,
      ac_triggerSeverity = kept c ACTCOND_TRIGGER_SEVERITY (ac_triggerSeverity c) 0,
      ac_triggerSeverityCompType = kept c ACTCOND_TRIGGER_SEVERITY (ac_triggerSeverityCompType c) CMP_INVALID\<rparr>"

definition kept_action :: "action_def \<Rightarrow> int \<Rightarrow> int \<Rightarrow> action_def" where
  "kept_action d ownerUserId rowId =
     \<lparr>ad_id = rowId, ad_condition = kept_condition (ad_condition d), ad_type = ad_type d,
      ad_workingDir = cstr (ad_workingDir d), ad_command = cstr (ad_command d), ad_timeout = ad_timeout d,
      ad_ownerUserId = ownerUserId\<rparr>"

lemmas actcond_defs = ACTCOND_SERVER_ID_def ACTCOND_HOST_ID_def ACTCOND_HOST_GROUP_ID_def ACTCOND_TRIGGER_ID_def
  ACTCOND_TRIGGER_STATUS_def ACTCOND_TRIGGER_SEVERITY_def

lemma and_flag_zero: "n < 32 \<Longrightarrow> ((w :: u32) AND push_bit n 1) = 0 \<longleftrightarrow> \<not> bit w n"
proof
  assume "n < 32" "(w AND push_bit n 1) = 0"
  then have "\<not> bit (w AND push_bit n 1) n" by simp
  with \<open>n < 32\<close> show "\<not> bit w n" by (simp add: bit_and_iff bit_push_one del: push_bit_of_1)
next
  assume "\<not> bit w n"
  then show "(w AND push_bit n 1) = 0"
    by (intro bit_word_eqI) (auto simp: bit_and_iff bit_push_one simp del: push_bit_of_1)
qed

lemma isEnable_bit:
  "ac_isEnable c ACTCOND_SERVER_ID \<longleftrightarrow> bit (ac_enableBits c) 0"
  "ac_isEnable c ACTCOND_HOST_ID \<longleftrightarrow> bit (ac_enableBits c) 1"
  "ac_isEnable c ACTCOND_HOST_GROUP_ID \<longleftrightarrow> bit (ac_enableBits c) 2"
  "ac_isEnable c ACTCOND_TRIGGER_ID \<longleftrightarrow> bit (ac_enableBits c) 3"
  "ac_isEnable c ACTCOND_TRIGGER_STATUS \<longleftrightarrow> bit (ac_enableBits c) 4"
  "ac_isEnable c ACTCOND_TRIGGER_SEVERITY \<longleftrightarrow> bit (ac_enableBits c) 5"
  unfolding ac_isEnable_def actcond_defs by (simp_all only: and_flag_zero not_not)  

lemma bit_flag_or:
  "bit (if b then (w :: u32) OR push_bit k 1 else w) n \<longleftrightarrow> bit w n \<or> b \<and> n = k \<and> k < 32"
  by (auto simp: bit_or_iff bit_push_one simp del: push_bit_of_1)

lemma bit_actcond_mask: "bit ACTCOND_MASK n \<longleftrightarrow> n < 6"
proof -
  have m: "ACTCOND_MASK = mask 6" by (simp add: ACTCOND_MASK_def mask_eq_exp_minus_1)
  show ?thesis unfolding m by (auto simp: bit_mask_iff simp del: mask_numeral)
qed

lemma nn_enable_bits:
  "ac_enableBits (nn_enable (getNullFlag d f x) g c) =
     (if ac_isEnable (ad_condition d) f then ac_enableBits c OR g else ac_enableBits c)"
  by (simp add: nn_enable_def ac_enable_def getNullFlag_def)

lemma read_enableBits:
  "ac_enableBits (read_condition (action_values d o' i)) = (ac_enableBits (ad_condition d) AND ACTCOND_MASK)"
proof -
  have six: "n < 6 \<longleftrightarrow> n = 0 \<or> n = 1 \<or> n = 2 \<or> n = 3 \<or> n = 4 \<or> n = (5 :: nat)" for n by auto
  have eq: "ac_enableBits (read_condition (action_values d o' i)) =
    (let w = ac_enableBits (ad_condition d);
         w0 = (if bit w 0 then 0 OR push_bit 0 1 else 0); w1 = (if bit w 1 then w0 OR push_bit 1 1 else w0);
         w2 = (if bit w 2 then w1 OR push_bit 2 1 else w1); w3 = (if bit w 3 then w2 OR push_bit 3 1 else w2);
         w4 = (if bit w 4 then w3 OR push_bit 4 1 else w3)
     in if bit w 5 then w4 OR push_bit 5 1 else w4)"
    unfolding read_condition_def action_values_def Let_def action_row.simps nn_enable_bits isEnable_bit
    by (simp only: action_condition.simps actcond_defs)
  show ?thesis
    unfolding eq Let_def
    by (intro bit_word_eqI) (simp only: bit_flag_or bit_and_iff bit_actcond_mask six bit_0_eq bot_apply, auto)
qed

lemma nn_enable_more [simp]:
  "ac_serverId (nn_enable v f c) = ac_serverId c" "ac_hostIdInServer (nn_enable v f c) = ac_hostIdInServer c"
  "ac_hostgroupId (nn_enable v f c) = ac_hostgroupId c" "ac_triggerId (nn_enable v f c) = ac_triggerId c"
  "ac_triggerStatus (nn_enable v f c) = ac_triggerStatus c" "ac_triggerSeverity (nn_enable v f c) = ac_triggerSeverity c"
  "ac_triggerSeverityCompType (nn_enable v f c) = ac_triggerSeverityCompType c"
  by (simp_all add: nn_enable_def ac_enable_def)

lemma read_values: "read_action (action_values d o' i) = kept_action d o' i"
proof -
  have "read_condition (action_values d o' i) = kept_condition (ad_condition d)"
    using read_enableBits [of d o' i]
    by (intro action_condition.equality)
       (simp_all add: kept_condition_def read_condition_def action_values_def getNullFlag_def kept_def Let_def CMP_INVALID_def)
  then show ?thesis by (simp add: read_action_def kept_action_def action_values_def Let_def)
qed

section \<open>The table of actions\<close>

definition action_row_ok :: "action_row \<Rightarrow> bool" where
  "action_row_ok r \<longleftrightarrow>
     0 < ar_id r \<and> (ar_triggerSeverity r = None \<longleftrightarrow> ar_compType r = None)
     \<and> (ar_type r = ACTION_INCIDENT_SENDER \<longrightarrow> ar_owner r = USER_ID_SYSTEM)
     \<and> cstr (ar_command r) = ar_command r"

definition actions_inv :: "action_row list \<Rightarrow> bool" where
  "actions_inv rows \<longleftrightarrow> distinct (map ar_id rows) \<and> (\<forall>r \<in> set rows. action_row_ok r)"

inductive action_step :: "action_env \<Rightarrow> action_db \<Rightarrow> action_db \<Rightarrow> bool" for env where
  "addAction env db d p = (err, d', db') \<Longrightarrow> action_step env db db'"
| "updateAction env db d p = (err, db') \<Longrightarrow> action_step env db db'"
| "deleteActions env db ids p = Inr (err, db') \<Longrightarrow> action_step env db db'"
| "deleteInvalidActions env db = Inr db' \<Longrightarrow> action_step env db db'"
| "createActionLog env db d ev code status = (i, db') \<Longrightarrow> action_step env db db'"
| "logEndExecAction env db arg = db' \<Longrightarrow> action_step env db db'"
| "updateLogStatusToStart env db i = db' \<Longrightarrow> action_step env db db'"
| "updateLogStatusToAborted env db i = db' \<Longrightarrow> action_step env db db'"

inductive action_reach :: "action_env \<Rightarrow> action_db \<Rightarrow> bool" for env where
  start: "action_reach env \<lparr>st_data = \<lparr>at_actions = [], at_logs = []\<rparr>, st_base = None\<rparr>"
| step: "action_reach env db \<Longrightarrow> action_step env db db' \<Longrightarrow> action_reach env db'"

lemma values_ok: "0 < i \<Longrightarrow> action_row_ok (action_values d (stored_owner d p) i)"
  by (simp add: action_row_ok_def action_values_def stored_owner_def getNullFlag_def Let_def)

lemma values_id [simp]: "ar_id (action_values d o' i) = i"
  by (simp add: action_values_def Let_def)

context action_env_ok
begin

lemma rows_by_action_id: "where_rows (ae_engine env) action_sql (''action_id='' @ dec_int i) = (\<lambda>r. ar_id r = i)"
proof (rule where_rows_sql)
  fix r
  have "sql_where (render [[AtEq ''action_id'' (VInt i)]]) (action_sql r) = Some (ar_id r = i)"
    by (subst sql_where_render) (auto simp: cond_ok_def selects_def holds_def)
  then show "sql_where (''action_id='' @ dec_int i) (action_sql r) = Some (ar_id r = i)"
    by (simp add: render_single enc_int_def)
qed simp

lemmas rows_by_action_id' = rows_by_action_id [unfolded append_Cons append_Nil]

lemma addAction_effect:
  assumes "addAction env db d p = (err, d', db')"
  shows "db' = db \<and> err \<noteq> HTERR_OK
    \<or> err = HTERR_OK \<and> checkPrivilegeForAdd p d = HTERR_OK
      \<and> d' = d\<lparr>ad_id := en_nextId (ae_engine env) (map ar_id (at_actions (st_data db)))\<rparr>
      \<and> st_data db' = (st_data db)\<lparr>at_actions := at_actions (st_data db) @ [action_values d (stored_owner d p) (ad_id d')]\<rparr>"
  using assms by (auto simp: addAction_def Let_def split: if_splits)

lemma updateAction_effect:
  assumes "updateAction env db d p = (err, db')"
  shows "db' = db \<and> err \<noteq> HTERR_OK
    \<or> err = HTERR_OK \<and> checkPrivilegeForUpdate p d = HTERR_OK
      \<and> st_data db' = (st_data db)\<lparr>at_actions := map (\<lambda>r. if ar_id r = ad_id d
          then action_values d (stored_owner d p) (ar_id r) else r) (at_actions (st_data db))\<rparr>"
  using assms by (auto simp: updateAction_def tbl_update_def rows_by_action_id' Let_def split: if_splits)

lemma deleteActions_some:
  assumes "deleteActions env db ids p = Inr (err, db')"
  shows "at_logs (st_data db') = at_logs (st_data db)
    \<and> (\<exists>P. at_actions (st_data db') = filter P (at_actions (st_data db)))"
proof (cases "ids = [] \<or> checkPrivilegeForDelete env db p ids \<noteq> Inr HTERR_OK")
  case True
  have "db' = db" using assms True by (auto simp: deleteActions_def bindR_eq_Inr split: if_splits)
  then show ?thesis by (auto intro: exI [of _ "\<lambda>_. True"])
next
  case False
  then show ?thesis using deleteActions_effect [of ids db p] assms by (force split: if_splits)
qed

lemma actions_inv_filter: "actions_inv rows \<Longrightarrow> actions_inv (filter P rows)"
  by (auto simp: actions_inv_def distinct_map_filter)

lemma action_step_inv:
  assumes "action_step env db db'" "actions_inv (at_actions (st_data db))"
  shows "actions_inv (at_actions (st_data db'))"
  using assms(1)
proof cases
  case (1 d p err d')
  then show ?thesis
    using addAction_effect [OF 1] assms(2) nextId_fresh [of "map ar_id (at_actions (st_data db))"]
      nextId_pos [of "map ar_id (at_actions (st_data db))"]
    by (auto simp: actions_inv_def values_ok)
next
  case (2 d p err)
  let ?f = "\<lambda>r. if ar_id r = ad_id d then action_values d (stored_owner d p) (ar_id r) else r"
  have "map ar_id (map ?f rows) = map ar_id rows" for rows by simp
  moreover have "action_row_ok r \<Longrightarrow> ar_id r = ad_id d \<Longrightarrow> action_row_ok (action_values d (stored_owner d p) (ad_id d))" for r
    using values_ok [of "ad_id d" d p] by (auto simp: action_row_ok_def)
  ultimately show ?thesis
    using updateAction_effect [OF 2] assms(2) by (auto simp: actions_inv_def simp del: map_map) blast
next
  case (3 ids p err)
  then show ?thesis using deleteActions_some assms(2) actions_inv_filter by metis
next
  case 4
  then have "db' = db \<or> (\<exists>ids p err. deleteActions env db ids p = Inr (err, db'))"
    by (auto simp: deleteInvalidActions_def Let_def bindR_eq_Inr split: if_splits)
  then show ?thesis using deleteActions_some assms(2) actions_inv_filter by metis
qed (use assms(2) in \<open>auto simp: createActionLog_def logEndExecAction_def updateLogStatusToStart_def
      updateLogStatusToAborted_def Let_def\<close>)

lemma action_reach_inv: "action_reach env db \<Longrightarrow> actions_inv (at_actions (st_data db))"
  by (induction rule: action_reach.induct) (simp_all add: actions_inv_def [of "[]"] action_step_inv)

subsection \<open>Logs\<close>

lemma rows_by_log_id: "where_rows (ae_engine env) log_sql (log_id_text i) = (\<lambda>r. lr_id r = uint i)"
proof (rule where_rows_sql)
  fix r
  have "lex (log_id_text i) = Some [TId ''action_log_id'', TEq, TInt (uint i)]"
    using lex_ident [of "''action_log_id''" "''='' @ enc_u64 i"] by (simp add: log_id_text_def lex_at_end)
  then show "sql_where (log_id_text i) (log_sql r) = Some (lr_id r = uint i)"
    by (simp add: log_id_text_def sql_where_def sql_parse_def holds_def numeral_eq_Suc log_sql_def)
qed (simp add: log_id_text_def)

lemma getLog_find:
  "getLog env db i l = (case find (\<lambda>r. lr_id r = uint i) (at_logs (st_data db)) of
     None \<Rightarrow> (False, l) | Some r \<Rightarrow> (True, read_log r l))"
proof -
  have "(case filter P rs of [] \<Rightarrow> (False, l) | r # _ \<Rightarrow> (True, read_log r l)) =
      (case find P rs of None \<Rightarrow> (False, l) | Some r \<Rightarrow> (True, read_log r l))" for P and rs :: "log_row list"
    by (induction rs) auto
  then show ?thesis by (simp add: getLog_def getLogCond_def tbl_select_def rows_by_log_id)
qed

end

lemma find_update_same:
  "(\<And>r. k (f r) = k r) \<Longrightarrow>
     find (\<lambda>r. k r = i) (map (\<lambda>r. if k r = i then f r else r) rs) = map_option f (find (\<lambda>r. k r = i) rs)"
  by (induction rs) auto

lemma find_update_other:
  "(\<And>r. k (f r) = k r) \<Longrightarrow> j \<noteq> i \<Longrightarrow>
     find (\<lambda>r. k r = j) (map (\<lambda>r. if k r = i then f r else r) rs) = find (\<lambda>r. k r = j) rs"
  by (induction rs) auto

section \<open>The environment of the examples\<close>

definition ex_action_env :: action_env where
  "ex_action_env = \<lparr>ae_engine = std_engine, ae_userIds = [1, 2], ae_trackerIds = [3],
     ae_hostgroups = (\<lambda>s h. if h = ''web1'' then [''web''] else []), ae_order = (\<lambda>_ rows. rows), ae_now = 1000\<rparr>"

interpretation ex_actions: action_env_ok ex_action_env
  by unfold_locales (simp_all add: ex_action_env_def std_user.matches_where std_user.nextId_fresh std_user.nextId_pos)

definition ex_user :: "int \<Rightarrow> opprvlg list \<Rightarrow> op_privilege" where
  "ex_user i ts = \<lparr>op_userId = i, op_flags = fold (\<lambda>t f. f OR makeFlag t) ts 0\<rparr>"

definition ex_any :: action_row where
  "ex_any = \<lparr>ar_id = 1, ar_serverId = None, ar_hostId = None, ar_hostgroupId = None, ar_triggerId = None,
     ar_triggerStatus = None, ar_triggerSeverity = None, ar_compType = None, ar_type = ACTION_COMMAND,
     ar_command = ''/bin/a'', ar_workingDir = [], ar_timeout = 0, ar_owner = 1\<rparr>"

text \<open>
  Actions of user 1 (for every event, and for severity 3 and more), of user 2 (for the hostgroup
  "web"), an incident sender, an action for the hostgroup "0" and one of a user who is gone.
\<close>

definition ex_adb :: action_db where
  "ex_adb = \<lparr>st_data = \<lparr>at_actions =
     [ex_any, ex_any\<lparr>ar_id := 2, ar_triggerSeverity := Some 3, ar_compType := Some CMP_EQ_GT\<rparr>,
      ex_any\<lparr>ar_id := 3, ar_hostgroupId := Some ''web'', ar_owner := 2\<rparr>,
      ex_any\<lparr>ar_id := 4, ar_type := ACTION_INCIDENT_SENDER, ar_command := ''3:17'', ar_owner := USER_ID_SYSTEM\<rparr>,
      ex_any\<lparr>ar_id := 5, ar_hostgroupId := Some ''0'', ar_owner := 2\<rparr>,
      ex_any\<lparr>ar_id := 6, ar_owner := 9\<rparr>], at_logs = []\<rparr>, st_base = None\<rparr>"

definition ex_event :: event_info where
  "ex_event = \<lparr>ev_serverId = 1, ev_id = ''77'', ev_time = 900, ev_nsec = 0, ev_type = 1, ev_triggerId = ''5'', ev_status = 1, ev_severity = 4,
     ev_hostIdInServer = ''web1''\<rparr>"

lemma ex_user_has: "op_has (ex_user i ts) t \<longleftrightarrow> t \<in> set ts"
proof -
  have "bit (fold (\<lambda>t f. f OR makeFlag t) ts w) (opprvlg_index t) \<longleftrightarrow> bit w (opprvlg_index t) \<or> t \<in> set ts" for w
    by (induction ts arbitrary: w) (auto simp: bit_or_iff bit_makeFlag opprvlg_index_inj)
  then show ?thesis by (simp add: ex_user_def op_has_bit)
qed

lemma ex_user_id [simp]: "op_userId (ex_user i ts) = i"
  by (simp add: ex_user_def)

section \<open>Properties\<close>

text \<open>
  C17. The list of actions is exact: it holds, as stored, every action that the caller may see (his own
  user actions, or all of them and the incident senders with the privileges for it), that is among the
  identifiers asked for and that the event starts (server, host, hostgroup, trigger, status and severity
  are each unset or fit), and whose owner and tracker exist; nothing else.
\<close>

theorem action_list_exact:
  assumes "action_env_ok env" and "dqo_maxNumber (ao_base opt) = 0" and "dqo_offset (ao_base opt) = 0"
  shows "\<exists>rows. getActionList env db opt = Inr (HTERR_OK, filter (isValid_action env) (map read_action rows))
    \<and> mset rows = mset (filter (\<lambda>r. action_visible (ao_privilege opt) (ao_type opt) r
        \<and> (ao_idList opt = [] \<or> ar_id r \<in> set (ao_idList opt))
        \<and> (case ao_eventInfo opt of None \<Rightarrow> True | Some ev \<Rightarrow> action_matches (event_hostgroups env ev) ev r))
      (at_actions (st_data db)))"
proof -
  have sel: "option_selects env opt = (\<lambda>r. action_visible (ao_privilege opt) (ao_type opt) r
        \<and> (ao_idList opt = [] \<or> ar_id r \<in> set (ao_idList opt))
        \<and> (case ao_eventInfo opt of None \<Rightarrow> True | Some ev \<Rightarrow> action_matches (event_hostgroups env ev) ev r))"
    by (simp add: fun_eq_iff option_selects_def)
  show ?thesis
    using action_env_ok.getActionList_rows [OF assms(1-3), of db] unfolding sel by blast
qed

theorem action_list_exact_witness:
  "\<exists>rows. getActionList ex_action_env ex_adb
      (setTargetEventInfo (mk_actions_option (ex_user 1 [OPPRVLG_GET_ALL_ACTION])) (Some ex_event))
      = Inr (HTERR_OK, filter (isValid_action ex_action_env) (map read_action rows))
    \<and> image_mset ar_id (mset rows) = {#1, 2, 3, 6#}"
proof -
  let ?opt = "setTargetEventInfo (mk_actions_option (ex_user 1 [OPPRVLG_GET_ALL_ACTION])) (Some ex_event)"
  have base: "dqo_maxNumber (ao_base ?opt) = 0" "dqo_offset (ao_base ?opt) = 0"
    by (simp_all add: setTargetEventInfo_def mk_actions_option_def mk_data_query_option_def NO_LIMIT_def)
  have fields: "ao_privilege ?opt = ex_user 1 [OPPRVLG_GET_ALL_ACTION]" "ao_type ?opt = ACTION_USER_DEFINED"
    "ao_idList ?opt = []" "ao_eventInfo ?opt = Some ex_event"
    by (simp_all add: setTargetEventInfo_def mk_actions_option_def)
  let ?sel = "\<lambda>r. action_visible (ao_privilege ?opt) (ao_type ?opt) r \<and> (ao_idList ?opt = [] \<or> ar_id r \<in> set (ao_idList ?opt))
      \<and> (case ao_eventInfo ?opt of None \<Rightarrow> True | Some ev \<Rightarrow> action_matches (event_hostgroups ex_action_env ev) ev r)"
  have vis: "action_visible (ao_privilege ?opt) (ao_type ?opt) r \<longleftrightarrow> 0 \<le> ar_type r \<and> ar_type r < ACTION_INCIDENT_SENDER" for r
    by (simp add: fields action_visible_def ex_user_has action_consts)
  have hgs: "event_hostgroups ex_action_env ex_event = [''web'']"
    by (simp add: event_hostgroups_def ex_action_env_def ex_event_def)
  have ev: "ev_serverId ex_event = 1" "ev_severity ex_event = 4" by (simp_all add: ex_event_def)
  have ids: "map ar_id (filter ?sel (at_actions (st_data ex_adb))) = [1, 2, 3, 6]"
    unfolding vis unfolding fields
    by (simp add: ex_adb_def ex_any_def action_matches_def opt_match_def hgs ev action_consts nul_def)
  obtain rows where rows: "getActionList ex_action_env ex_adb ?opt =
        Inr (HTERR_OK, filter (isValid_action ex_action_env) (map read_action rows))"
      "mset rows = mset (filter ?sel (at_actions (st_data ex_adb)))"
    using action_list_exact [OF ex_actions.action_env_ok_axioms base, of ex_adb] by blast
  have "image_mset ar_id (mset rows) = mset (map ar_id (filter ?sel (at_actions (st_data ex_adb))))"
    unfolding rows(2) by simp
  then have "image_mset ar_id (mset rows) = {#1, 2, 3, 6#}" unfolding ids by simp
  with rows(1) show ?thesis by blast
qed

text \<open>
  C18. Deletion is exact and restricted: without the privilege for all actions, a caller deletes among the
  identifiers given only his own user actions, and incident senders with the privilege for them. The
  answer is \<open>HTERR_OK\<close> iff as many rows went as identifiers were given, otherwise
  \<open>HTERR_DELETE_INCOMPLETE\<close>, though what could be deleted is deleted; a caller who fails the check
  changes nothing.
\<close>

theorem delete_actions_exact:
  assumes "action_env_ok env" and "ids \<noteq> []"
  shows "\<exists>err db'. deleteActions env db ids p = Inr (err, db')
    \<and> (if checkPrivilegeForDelete env db p ids = Inr HTERR_OK
       then st_data db' = (st_data db)\<lparr>at_actions :=
              filter (\<lambda>r. \<not> (ar_id r \<in> set ids \<and> deletable p r)) (at_actions (st_data db))\<rparr>
         \<and> err = (if length (filter (\<lambda>r. ar_id r \<in> set ids \<and> deletable p r) (at_actions (st_data db))) = length ids
                   then HTERR_OK else HTERR_DELETE_INCOMPLETE)
         \<and> op_userId p \<noteq> INVALID_USER_ID
         \<and> (op_has p OPPRVLG_DELETE_ACTION \<or> op_has p OPPRVLG_DELETE_ALL_ACTION
             \<or> op_has p OPPRVLG_DELETE_INCIDENT_SETTING)
       else db' = db \<and> err \<noteq> HTERR_OK)"
proof (cases "checkPrivilegeForDelete env db p ids = Inr HTERR_OK")
  case True
  have "op_userId p \<noteq> INVALID_USER_ID \<and> (op_has p OPPRVLG_DELETE_ACTION \<or> op_has p OPPRVLG_DELETE_ALL_ACTION
      \<or> op_has p OPPRVLG_DELETE_INCIDENT_SETTING)"
    using action_env_ok.checkPrivilegeForDelete_cases [OF assms, of db p] True by (auto split: if_splits)
  then show ?thesis
    using action_env_ok.deleteActions_effect [OF assms True] by (simp add: True)
next
  case False
  obtain err where "checkPrivilegeForDelete env db p ids = Inr err"
    using action_env_ok.checkPrivilegeForDelete_cases [OF assms, of db p] by blast
  with False show ?thesis by (auto simp: deleteActions_def)
qed

theorem delete_actions_exact_witness:
  "\<exists>db'. deleteActions ex_action_env ex_adb [1, 3] (ex_user 1 [OPPRVLG_DELETE_ACTION]) = Inr (HTERR_DELETE_INCOMPLETE, db')
    \<and> map ar_id (at_actions (st_data db')) = [2, 3, 4, 5, 6]"
proof -
  let ?p = "ex_user 1 [OPPRVLG_DELETE_ACTION]"
  have none: "named_senders ex_action_env ex_adb [1, 3] = []"
    by (simp add: named_senders_def ex_adb_def ex_any_def action_consts)
  have "checkPrivilegeForDelete ex_action_env ex_adb ?p [1, 3] = Inr HTERR_OK"
    using none by (simp add: ex_actions.checkPrivilegeForDelete_cases ex_user_has INVALID_USER_ID_def)
  moreover have "filter (\<lambda>r. ar_id r \<in> set [1, 3] \<and> deletable ?p r) (at_actions (st_data ex_adb)) = [ex_any]"
    "map ar_id (filter (\<lambda>r. \<not> (ar_id r \<in> set [1, 3] \<and> deletable ?p r)) (at_actions (st_data ex_adb))) = [2, 3, 4, 5, 6]"
    by (simp_all add: ex_adb_def ex_any_def deletable_def ex_user_has action_consts)
  ultimately show ?thesis
    using delete_actions_exact [OF ex_actions.action_env_ok_axioms, of "[1, 3]" ex_adb ?p]
    by (auto simp del: de_Morgan_conj)
qed

text \<open>
  C19. An invariant of the table of actions, over any sequence of operations: identifiers are positive and
  unique, a severity is stored with its comparison or not at all, and incident senders belong to the
  system.
\<close>

theorem action_table_invariant:
  assumes "action_env_ok env" and "action_reach env db"
  shows "distinct (map ar_id (at_actions (st_data db)))
    \<and> (\<forall>r \<in> set (at_actions (st_data db)).
         0 < ar_id r \<and> (ar_triggerSeverity r = None \<longleftrightarrow> ar_compType r = None)
         \<and> (ar_type r = ACTION_INCIDENT_SENDER \<longrightarrow> ar_owner r = USER_ID_SYSTEM))"
  using action_env_ok.action_reach_inv [OF assms] by (auto simp: actions_inv_def action_row_ok_def)

definition ex_command :: action_def where
  "ex_command = \<lparr>ad_id = 0, ad_condition = \<lparr>ac_enableBits = 0, ac_serverId = 7, ac_hostIdInServer = [], ac_hostgroupId = [],
     ac_triggerId = [], ac_triggerStatus = 0, ac_triggerSeverity = 0, ac_triggerSeverityCompType = 0\<rparr>,
     ad_type = ACTION_COMMAND, ad_workingDir = [], ad_command = ''/bin/b'', ad_timeout = 0, ad_ownerUserId = 5\<rparr>"

definition ex_empty_adb :: action_db where
  "ex_empty_adb = \<lparr>st_data = \<lparr>at_actions = [], at_logs = []\<rparr>, st_base = None\<rparr>"

lemma ex_add:
  "addAction ex_action_env ex_empty_adb ex_command (ex_user 2 [OPPRVLG_CREATE_ACTION]) =
     (HTERR_OK, ex_command\<lparr>ad_id := 1\<rparr>, set_actions ex_empty_adb [action_values ex_command 2 1])"
  by (simp add: addAction_def checkPrivilegeForAdd_def ex_user_has ex_command_def action_consts INVALID_USER_ID_def
      ex_empty_adb_def ex_action_env_def std_engine_def stored_owner_def USER_ID_SYSTEM_def)

theorem action_table_invariant_witness:
  "distinct (map ar_id (at_actions (st_data (set_actions ex_empty_adb [action_values ex_command 2 1]))))"
  using action_table_invariant [OF ex_actions.action_env_ok_axioms
      action_reach.step [OF action_reach.start [folded ex_empty_adb_def] action_step.intros(1) [OF ex_add]]]
  by blast

text \<open>
  A caller with the privilege to update actions takes over any action, whoever owns it and whatever
  its type: the check looks at the type in the new definition only, and the owner of the row becomes the
  caller.
\<close>

lemma update_takes_over:
  assumes "action_env_ok env" and "op_userId p \<noteq> INVALID_USER_ID" and "op_userId p \<noteq> USER_ID_SYSTEM"
    and "op_has p OPPRVLG_UPDATE_ACTION" and "ad_type d \<noteq> ACTION_INCIDENT_SENDER"
    and "r \<in> set (at_actions (st_data db))" and "ar_id r = ad_id d"
  shows "\<exists>db'. updateAction env db d p = (HTERR_OK, db')
    \<and> action_values d (op_userId p) (ar_id r) \<in> set (at_actions (st_data db'))"
proof -
  have owner: "stored_owner d p = op_userId p" using assms(3,5) by (simp add: stored_owner_def)
  have check: "checkPrivilegeForUpdate p d = HTERR_OK" using assms(2,4,5) by (simp add: checkPrivilegeForUpdate_def)
  obtain err db' where upd: "updateAction env db d p = (err, db')" by fastforce
  then have ok: "err = HTERR_OK" using check by (simp add: updateAction_def)
  with action_env_ok.updateAction_effect [OF assms(1) upd]
  have "at_actions (st_data db') = map (\<lambda>r. if ar_id r = ad_id d then action_values d (op_userId p) (ar_id r) else r)
      (at_actions (st_data db))"
    by (auto simp: owner)
  with assms(6,7) upd ok show ?thesis by force
qed

lemma update_takes_over_witness:
  "\<exists>db'. updateAction ex_action_env ex_adb (ex_command\<lparr>ad_id := 4\<rparr>) (ex_user 2 [OPPRVLG_UPDATE_ACTION]) = (HTERR_OK, db')
    \<and> action_values (ex_command\<lparr>ad_id := 4\<rparr>) 2 4 \<in> set (at_actions (st_data db'))"
  using update_takes_over [OF ex_actions.action_env_ok_axioms, of "ex_user 2 [OPPRVLG_UPDATE_ACTION]" "ex_command\<lparr>ad_id := 4\<rparr>"
      "ex_any\<lparr>ar_id := 4, ar_type := ACTION_INCIDENT_SENDER, ar_command := ''3:17'', ar_owner := USER_ID_SYSTEM\<rparr>" ex_adb]
  by (simp add: ex_user_has INVALID_USER_ID_def USER_ID_SYSTEM_def ex_command_def action_consts ex_adb_def ex_any_def)

text \<open>
  What was added is listed: a user who adds a command or resident action finds it by the identifier
  returned, with himself as the owner, the enabled conditions as given and the others blank.
\<close>

lemma added_action_listed:
  assumes "action_env_ok env" and "actions_inv (at_actions (st_data db))"
    and "addAction env db d p = (HTERR_OK, d', db')"
    and "ad_type d = ACTION_COMMAND \<or> ad_type d = ACTION_RESIDENT"
    and "op_userId p \<noteq> USER_ID_SYSTEM" and "op_userId p \<in> set (ae_userIds env)"
  shows "getActionList env db' (setActionIdList (mk_actions_option p) [ad_id d']) =
    Inr (HTERR_OK, [kept_action d (op_userId p) (ad_id d')])"
proof -
  let ?opt = "setActionIdList (mk_actions_option p) [ad_id d']"
  let ?new = "action_values d (op_userId p) (ad_id d')"
  have ty: "ad_type d \<noteq> ACTION_INCIDENT_SENDER" "0 \<le> ad_type d" "ad_type d < ACTION_INCIDENT_SENDER"
    using assms(4) by (auto simp: action_consts)
  have owner: "stored_owner d p = op_userId p" using assms(5) ty by (simp add: stored_owner_def)
  have new: "at_actions (st_data db') = at_actions (st_data db) @ [?new]" "ad_id d' \<notin> ar_id ` set (at_actions (st_data db))"
    using action_env_ok.addAction_effect [OF assms(1,3)] owner
      user_engine_ok.nextId_fresh [OF action_env_ok.axioms(1) [OF assms(1)], of "map ar_id (at_actions (st_data db))"]
    by auto
  have fields: "dqo_maxNumber (ao_base ?opt) = 0" "dqo_offset (ao_base ?opt) = 0" "dqo_sortOrderVect (ao_base ?opt) = []"
    "ao_privilege ?opt = p" "ao_type ?opt = ACTION_USER_DEFINED" "ao_idList ?opt = [ad_id d']" "ao_eventInfo ?opt = None"
    by (simp_all add: setActionIdList_def mk_actions_option_def mk_data_query_option_def NO_LIMIT_def)
  have "option_selects env ?opt ?new"
    using ty by (simp add: option_selects_def fields action_visible_def action_values_def Let_def action_consts)
  moreover have "\<not> option_selects env ?opt r" if "r \<in> set (at_actions (st_data db))" for r
    using new(2) that by (force simp: option_selects_def fields)
  ultimately have "filter (option_selects env ?opt) (at_actions (st_data db')) = [?new]" by (simp add: new(1) filter_empty_conv)
  moreover have "isValid_action env (kept_action d (op_userId p) (ad_id d'))"
    using ty assms(6) by (simp add: isValid_action_def isValidActionOwnerId_def kept_action_def)
  ultimately show ?thesis
    using action_env_ok.getActionList_rows [OF assms(1) fields(1,2), of db'] fields(3) by (auto simp: read_values)
qed

lemma added_action_listed_witness:
  "getActionList ex_action_env (set_actions ex_empty_adb [action_values ex_command 2 1])
     (setActionIdList (mk_actions_option (ex_user 2 [OPPRVLG_CREATE_ACTION])) [1]) =
   Inr (HTERR_OK, [kept_action ex_command 2 1])"
  using added_action_listed [OF ex_actions.action_env_ok_axioms _ ex_add]
  by (simp add: actions_inv_def ex_empty_adb_def ex_command_def USER_ID_SYSTEM_def ex_action_env_def)

text \<open>
  The life of a log entry: an action that is queued, started and ended leaves one entry with the three
  times, the result and no NULL, under the identifier that was returned; no other entry changes.
\<close>

lemma action_log_lifecycle:
  assumes "action_env_ok env" and "createActionLog env db d ev ACTLOG_EXECFAIL_NONE ACTLOG_STAT_QUEUING = (i, db1)"
    and "en_nextId (ae_engine env) (map lr_id (at_logs (st_data db))) < 2 ^ 64"
    and "le_logId arg = i" and "le_nullFlags arg = 0"
    and "db2 = updateLogStatusToStart (env\<lparr>ae_now := ts\<rparr>) db1 i"
    and "db3 = logEndExecAction (env\<lparr>ae_now := te\<rparr>) db2 arg"
  shows "getLog env db3 i l = (True, l\<lparr>al_id := i, al_actionId := ad_id d, al_status := le_status arg, al_starterId := 0,
      al_queuingTime := ae_now env, al_startTime := ts, al_endTime := te, al_failureCode := le_failureCode arg,
      al_exitCode := le_exitCode arg, al_nullFlags := 0\<rparr>)
    \<and> (j \<noteq> i \<longrightarrow> getLog env db3 j l = getLog env db j l)"
proof -
  let ?n = "en_nextId (ae_engine env) (map lr_id (at_logs (st_data db)))"
  have eng: "user_engine_ok (ae_engine env)" using action_env_ok.axioms(1) [OF assms(1)] .
  have i: "i = word_of_int ?n" and pos: "0 < ?n" and fresh: "?n \<notin> lr_id ` set (at_logs (st_data db))"
    using assms(2) user_engine_ok.nextId_pos [OF eng] user_engine_ok.nextId_fresh [OF eng, of "map lr_id (at_logs (st_data db))"]
    by (auto simp: createActionLog_def Let_def)
  have ui: "uint i = ?n" using assms(3) pos by (simp add: i take_bit_int_eq_self uint_word_of_int take_bit_eq_mod [symmetric])
  have none: "find (\<lambda>r. lr_id r = ?n) (at_logs (st_data db)) = None" using fresh by (force simp: find_None_iff)
  note rows = action_env_ok.rows_by_log_id [OF assms(1)]
  have ne: "uint j \<noteq> ?n" if "j \<noteq> i" using that ui by (metis word_uint_eq_iff)
  have rows': "where_rows (ae_engine (env\<lparr>ae_now := t\<rparr>)) log_sql (log_id_text i) = (\<lambda>r. lr_id r = ?n)" for t
    by (simp add: rows ui)
  let ?f2 = "\<lambda>r. r\<lparr>lr_status := ACTLOG_STAT_STARTED, lr_startTime := Some ts\<rparr>"
  let ?f3 = "\<lambda>r. r\<lparr>lr_status := le_status arg, lr_endTime := Some te, lr_failureCode := le_failureCode arg,
      lr_exitCode := Some (le_exitCode arg)\<rparr>"
  let ?r1 = "\<lparr>lr_id = ?n, lr_actionId = ad_id d, lr_status = ACTLOG_STAT_QUEUING, lr_starterId = 0,
      lr_queuingTime = Some (ae_now env), lr_startTime = Some (ae_now env), lr_endTime = None,
      lr_failureCode = ACTLOG_EXECFAIL_NONE, lr_exitCode = None, lr_serverId = ev_serverId ev, lr_eventId = cstr (ev_id ev)\<rparr>"
  have l1: "at_logs (st_data db1) = at_logs (st_data db) @ [?r1]" using assms(2) by (auto simp: createActionLog_def Let_def)
  have l2: "at_logs (st_data db2) = map (\<lambda>r. if lr_id r = ?n then ?f2 r else r) (at_logs (st_data db1))"
    by (simp add: assms(6) updateLogStatusToStart_def tbl_update_def rows ui)
  have l3: "at_logs (st_data db3) = map (\<lambda>r. if lr_id r = ?n then ?f3 r else r) (at_logs (st_data db2))"
    unfolding assms(7) logEndExecAction_def tbl_update_def assms(4) rows' by (simp add: assms(5) Let_def)
  have f1: "find (\<lambda>r. lr_id r = ?n) (at_logs (st_data db1)) = Some ?r1" by (simp add: l1 find_append none)
  have f2: "find (\<lambda>r. lr_id r = ?n) (at_logs (st_data db2)) = Some (?f2 ?r1)"
    unfolding l2 by (subst find_update_same) (simp_all add: f1)
  have "find (\<lambda>r. lr_id r = ?n) (at_logs (st_data db3)) = Some (?f3 (?f2 ?r1))"
    unfolding l3 by (subst find_update_same) (simp_all add: f2)
  moreover have "find (\<lambda>r. lr_id r = uint j) (at_logs (st_data db3)) = find (\<lambda>r. lr_id r = uint j) (at_logs (st_data db))"
    if "j \<noteq> i"
  proof -
    note jn = ne [OF that]
    have "find (\<lambda>r. lr_id r = uint j) (at_logs (st_data db3)) = find (\<lambda>r. lr_id r = uint j) (at_logs (st_data db1))"
      unfolding l3 l2 by (subst find_update_other, simp, rule jn)+ simp
    then show ?thesis using jn by (simp add: l1 find_append split: option.splits)
  qed
  ultimately show ?thesis
    unfolding action_env_ok.getLog_find [OF assms(1)] ui by (simp add: read_log_def null_flag_def i)
qed

lemma action_log_lifecycle_witness:
  "getLog ex_action_env
     (logEndExecAction (ex_action_env\<lparr>ae_now := 1009\<rparr>)
       (updateLogStatusToStart (ex_action_env\<lparr>ae_now := 1004\<rparr>)
         (snd (createActionLog ex_action_env ex_empty_adb ex_command ex_event ACTLOG_EXECFAIL_NONE ACTLOG_STAT_QUEUING)) 1)
       (mk_log_end_arg\<lparr>le_logId := 1, le_status := ACTLOG_STAT_SUCCEEDED\<rparr>)) 1 blank_log =
   (True, blank_log\<lparr>al_id := 1, al_status := ACTLOG_STAT_SUCCEEDED, al_queuingTime := 1000, al_startTime := 1004,
      al_endTime := 1009\<rparr>)"
proof -
  have c: "createActionLog ex_action_env ex_empty_adb ex_command ex_event ACTLOG_EXECFAIL_NONE ACTLOG_STAT_QUEUING =
      (1, snd (createActionLog ex_action_env ex_empty_adb ex_command ex_event ACTLOG_EXECFAIL_NONE ACTLOG_STAT_QUEUING))"
    by (simp add: createActionLog_def Let_def ex_empty_adb_def ex_action_env_def std_engine_def)
  show ?thesis
    using action_log_lifecycle [OF ex_actions.action_env_ok_axioms c, where j = 1 and l = blank_log and ts = 1004 and te = 1009
        and arg = "mk_log_end_arg\<lparr>le_logId := 1, le_status := ACTLOG_STAT_SUCCEEDED\<rparr>"]
    by (simp add: ex_empty_adb_def ex_action_env_def std_engine_def mk_log_end_arg_def blank_log_def ex_command_def
        ACTLOG_EXECFAIL_NONE_def)
qed

text \<open>
  The list of hostgroups of a host that has none is the text of the condition that is never true, as a
  string: an action for a hostgroup with the identifier "0" then fits the event.
\<close>

lemma no_hostgroup_fits_zero:
  assumes "ae_hostgroups env (ev_serverId ev) (ev_hostIdInServer ev) = []"
  shows "action_matches (event_hostgroups env ev) ev (ex_any\<lparr>ar_hostgroupId := Some ''0''\<rparr>)"
  using assms by (simp add: action_matches_def event_hostgroups_def opt_match_def ex_any_def alwaysFalseCondition_def nul_def)

end
