(* ===== verification/Action_Args.thy ===== *)
theory Action_Args
  imports Hato_Prelude
begin

text \<open>
  Command lines of actions: the reader of words of src/server/mlpl/src/ParsableString.cc with a
  separator checker that calls back, and its client \<open>ActionExecArgMaker\<close>
  (src/server/src/ActionExecArgMaker.cc), which splits a command into arguments, with quotes and
  backslashes. The callbacks of a checker act on the state of the client, an argument of the reader.
\<close>

section \<open>Reading words\<close>

text \<open>A position is the rest of the text; \<open>None\<close> is the null pointer at the end.\<close>

record parsable =
  ps_position :: "string option"
  ps_pending :: "char option"

definition mk_ParsableString :: "string \<Rightarrow> parsable" where
  "mk_ParsableString str = \<lparr>ps_position = Some (cstr str), ps_pending = None\<rparr>"

definition ps_finished :: "parsable \<Rightarrow> bool" where
  "ps_finished ps \<longleftrightarrow> ps_position ps = None"

text \<open>
  The loop of \<open>genericParse\<close> with \<open>readWordAction\<close>: it ends at the first word, before the separator
  behind it, or at the end of the text.
\<close>

fun genericParse_loop ::
  "(char \<Rightarrow> bool) \<Rightarrow> (char \<Rightarrow> 's \<Rightarrow> 's) \<Rightarrow> string \<Rightarrow> string \<Rightarrow> 's \<Rightarrow> (string \<times> (char \<times> string) option) \<times> 's" where
  "genericParse_loop isSep notify word [] s = ((word, None), s)"
| "genericParse_loop isSep notify word (c # rest) s =
     (if \<not> isSep c then genericParse_loop isSep notify (word @ [c]) rest s
      else if word \<noteq> [] then ((word, Some (c, rest)), s)
      else genericParse_loop isSep notify [] rest (notify c s))"

definition readWord ::
  "(char \<Rightarrow> bool) \<Rightarrow> (char \<Rightarrow> 's \<Rightarrow> 's) \<Rightarrow> bool \<Rightarrow> parsable \<Rightarrow> 's \<Rightarrow> string \<times> parsable \<times> 's" where
  "readWord isSep notify keepParsingPosition ps s =
     (case ps_position ps of
        None \<Rightarrow> ([], ps, s)
      | Some target \<Rightarrow>
          (let s = (case ps_pending ps of None \<Rightarrow> s | Some c \<Rightarrow> notify c s)
           in case genericParse_loop isSep notify [] target s of
                ((word, None), s) \<Rightarrow>
                  (word, \<lparr>ps_position = (if keepParsingPosition then Some target else None), ps_pending = None\<rparr>, s)
              | ((word, Some (c, rest)), s) \<Rightarrow>
                  (word, \<lparr>ps_position = Some (if keepParsingPosition then target else rest), ps_pending = Some c\<rparr>, s)))"

section \<open>Arguments of a command\<close>

record arg_impl =
  im_inQuot :: bool
  im_byBackSlash :: bool
  im_currWord :: string
  im_argVect :: "string list"

definition resetParser :: "string list \<Rightarrow> arg_impl" where
  "resetParser argVect = \<lparr>im_inQuot = False, im_byBackSlash = False, im_currWord = [], im_argVect = argVect\<rparr>"

definition pushbackCurrWord :: "arg_impl \<Rightarrow> arg_impl" where
  "pushbackCurrWord impl =
     (if im_currWord impl = [] then impl
      else impl\<lparr>im_argVect := im_argVect impl @ [im_currWord impl], im_currWord := []\<rparr>)"

definition quote_char :: char where
  "quote_char = CHR 0x27"

definition backslash :: char where
  "backslash = CHR 0x5C"

definition isArgSeparator :: "char \<Rightarrow> bool" where
  "isArgSeparator c \<longleftrightarrow> c = CHR '' '' \<or> c = quote_char \<or> c = backslash"

definition separatorCallback :: "char \<Rightarrow> arg_impl \<Rightarrow> arg_impl" where
  "separatorCallback sep impl =
     (if sep = CHR '' '' then
        (let impl = (if im_inQuot impl then impl\<lparr>im_currWord := im_currWord impl @ '' ''\<rparr> else pushbackCurrWord impl)
         in impl\<lparr>im_byBackSlash := False\<rparr>)
      else if sep = quote_char then
        (let impl = (if im_byBackSlash impl then impl\<lparr>im_currWord := im_currWord impl @ [quote_char]\<rparr>
                     else impl\<lparr>im_inQuot := \<not> im_inQuot impl\<rparr>)
         in impl\<lparr>im_byBackSlash := False\<rparr>)
      else if sep = backslash then
        (let impl = (if im_byBackSlash impl then impl\<lparr>im_currWord := im_currWord impl @ [backslash]\<rparr> else impl)
         in impl\<lparr>im_byBackSlash := \<not> im_byBackSlash impl\<rparr>)
      else impl)"

lemma genericParse_loop_shorter:
  "genericParse_loop isSep notify w rest s = ((w', Some (c, rest')), s') \<Longrightarrow> length rest' < length rest"
  by (induction isSep notify w rest s rule: genericParse_loop.induct) (auto split: if_splits)

function makeExecArg_loop :: "parsable \<Rightarrow> arg_impl \<Rightarrow> arg_impl" where
  "makeExecArg_loop ps impl =
     (if ps_finished ps then impl
      else case readWord isArgSeparator separatorCallback False ps impl of
        (word, ps, impl) \<Rightarrow>
          makeExecArg_loop ps (impl\<lparr>im_currWord := im_currWord impl @ word, im_byBackSlash := False\<rparr>))"
  by pat_completeness auto
termination
  by (relation "measure (\<lambda>(ps, _). case ps_position ps of None \<Rightarrow> 0 | Some s \<Rightarrow> Suc (length s))")
     (auto simp: readWord_def ps_finished_def Let_def dest: genericParse_loop_shorter split: option.splits prod.splits)

declare makeExecArg_loop.simps [simp del]

definition makeExecArg :: "string list \<Rightarrow> string \<Rightarrow> string list" where
  "makeExecArg argVect cmd =
     im_argVect (pushbackCurrWord (makeExecArg_loop (mk_ParsableString cmd) (resetParser argVect)))"

definition stripBothEndsSpaces :: "string \<Rightarrow> string" where
  "stripBothEndsSpaces str = rev (dropWhile (\<lambda>c. c = CHR '' '') (rev (dropWhile (\<lambda>c. c = CHR '' '') str)))"

definition parseResidentCommand :: "string \<Rightarrow> string \<times> string" where
  "parseResidentCommand command =
     (if CHR '' '' \<notin> set command then (command, [])
      else (takeWhile (\<lambda>c. c \<noteq> CHR '' '') command, stripBothEndsSpaces (dropWhile (\<lambda>c. c \<noteq> CHR '' '') command)))"

section \<open>One character at a time\<close>

text \<open>The reference: an automaton that consumes the command character by character.\<close>

definition arg_char :: "char \<Rightarrow> arg_impl \<Rightarrow> arg_impl" where
  "arg_char c impl =
     (if isArgSeparator c then separatorCallback c impl
      else impl\<lparr>im_currWord := im_currWord impl @ [c], im_byBackSlash := False\<rparr>)"

definition add_word :: "string \<Rightarrow> arg_impl \<Rightarrow> arg_impl" where
  "add_word w impl = (if w = [] then impl else impl\<lparr>im_currWord := im_currWord impl @ w, im_byBackSlash := False\<rparr>)"

lemma add_word_char: "\<not> isArgSeparator c \<Longrightarrow> arg_char c (add_word w impl) = add_word (w @ [c]) impl"
  by (simp add: arg_char_def add_word_def)

lemma add_word_Nil [simp]: "add_word [] impl = impl"
  by (simp add: add_word_def)

lemma scan_is_fold:
  assumes "genericParse_loop isArgSeparator separatorCallback w rest impl = ((w', r), impl')"
  shows "fold arg_char rest (add_word w impl) =
    (case r of None \<Rightarrow> add_word w' impl' | Some (c, rest') \<Rightarrow> fold arg_char (c # rest') (add_word w' impl'))
    \<and> (r \<noteq> None \<longrightarrow> w' \<noteq> [] \<and> isArgSeparator (fst (the r)))"
  using assms
proof (induction isArgSeparator separatorCallback w rest impl rule: genericParse_loop.induct)
  case (2 w c rest impl)
  show ?case
  proof (cases "isArgSeparator c")
    case True
    then have "arg_char c impl = separatorCallback c impl" by (simp add: arg_char_def)
    with True 2 show ?thesis by (cases "w = []") auto
  next
    case False
    with 2 show ?thesis by (simp add: add_word_char)
  qed
qed auto

definition pend :: "char option \<Rightarrow> string" where
  "pend p = (case p of None \<Rightarrow> [] | Some c \<Rightarrow> [c])"

lemma loop_is_fold:
  assumes "ps_position ps = Some rest" "\<And>c. ps_pending ps = Some c \<Longrightarrow> isArgSeparator c"
  shows "(makeExecArg_loop ps impl)\<lparr>im_byBackSlash := False\<rparr> = (fold arg_char (pend (ps_pending ps) @ rest) impl)\<lparr>im_byBackSlash := False\<rparr>"
  using assms
proof (induction ps impl arbitrary: rest rule: makeExecArg_loop.induct)
  case (1 ps impl)
  let ?s = "case ps_pending ps of None \<Rightarrow> impl | Some c \<Rightarrow> separatorCallback c impl"
  obtain w r s' where scan: "genericParse_loop isArgSeparator separatorCallback [] rest ?s = ((w, r), s')"
    using prod_cases3 by (metis surj_pair)
  have s: "fold arg_char (pend (ps_pending ps)) impl = ?s"
    using "1.prems"(2) by (auto simp: pend_def arg_char_def split: option.splits)
  note f = scan_is_fold [OF scan]
  have nf: "\<not> ps_finished ps" using "1.prems"(1) by (simp add: ps_finished_def)
  show ?case
  proof (cases r)
    case None
    have "makeExecArg_loop ps impl = s'\<lparr>im_currWord := im_currWord s' @ w, im_byBackSlash := False\<rparr>"
      using nf scan None "1.prems"(1)
      by (subst makeExecArg_loop.simps, simp add: readWord_def, subst makeExecArg_loop.simps, simp add: ps_finished_def)
    moreover have "fold arg_char rest ?s = add_word w s'" using f None by simp
    ultimately show ?thesis by (simp add: s) (simp add: add_word_def)
  next
    case (Some x)
    obtain c rest' where x: "x = (c, rest')" by fastforce
    let ?ps = "\<lparr>ps_position = Some rest', ps_pending = Some c\<rparr>"
    have rw: "readWord isArgSeparator separatorCallback False ps impl = (w, ?ps, s')"
      using "1.prems"(1) scan Some x by (simp add: readWord_def)
    have w: "w \<noteq> []" "isArgSeparator c" using f Some x by auto
    have "makeExecArg_loop ps impl = makeExecArg_loop ?ps (add_word w s')"
      using nf rw w(1) by (subst makeExecArg_loop.simps) (simp add: add_word_def)
    moreover have "(makeExecArg_loop ?ps (add_word w s'))\<lparr>im_byBackSlash := False\<rparr> =
        (fold arg_char (pend (Some c) @ rest') (add_word w s'))\<lparr>im_byBackSlash := False\<rparr>"
      using "1.IH" [OF nf rw [symmetric] refl, of rest'] w by (simp add: add_word_def)
    moreover have "fold arg_char rest ?s = fold arg_char (c # rest') (add_word w s')" using f Some x by simp
    ultimately show ?thesis by (simp add: s pend_def [of "Some c"])
  qed
qed

lemma makeExecArg_automaton:
  "makeExecArg argVect cmd = im_argVect (pushbackCurrWord (fold arg_char (cstr cmd) (resetParser argVect)))"
proof -
  let ?a = "makeExecArg_loop (mk_ParsableString cmd) (resetParser argVect)"
  let ?b = "fold arg_char (cstr cmd) (resetParser argVect)"
  have "?a\<lparr>im_byBackSlash := False\<rparr> = ?b\<lparr>im_byBackSlash := False\<rparr>"
    using loop_is_fold [of "mk_ParsableString cmd" "cstr cmd" "resetParser argVect"]
    by (simp add: mk_ParsableString_def pend_def)
  then have "im_currWord ?a = im_currWord ?b" "im_argVect ?a = im_argVect ?b"
    by (metis arg_impl.select_convs arg_impl.surjective arg_impl.update_convs(2))+
  then show ?thesis by (simp add: makeExecArg_def pushbackCurrWord_def)
qed

section \<open>Quoting\<close>

definition quote_arg :: "string \<Rightarrow> string" where
  "quote_arg w =
     [quote_char] @ concat (map (\<lambda>c. if c = quote_char \<or> c = backslash then [backslash, c] else [c]) w) @ [quote_char]"

lemma arg_chars_distinct [simp]: "quote_char \<noteq> CHR '' ''" "backslash \<noteq> CHR '' ''" "backslash \<noteq> quote_char"
  "CHR '' '' \<noteq> quote_char" "CHR '' '' \<noteq> backslash" "quote_char \<noteq> backslash"
  by (simp_all add: quote_char_def backslash_def)

lemma fold_in_quotes:
  "im_inQuot impl \<Longrightarrow> \<not> im_byBackSlash impl \<Longrightarrow>
     fold arg_char (concat (map (\<lambda>c. if c = quote_char \<or> c = backslash then [backslash, c] else [c]) w)) impl =
       impl\<lparr>im_currWord := im_currWord impl @ w\<rparr>"
proof (induction w arbitrary: impl)
  case (Cons c w)
  let ?i = "impl\<lparr>im_currWord := im_currWord impl @ [c]\<rparr>"
  have "fold arg_char (if c = quote_char \<or> c = backslash then [backslash, c] else [c]) impl = ?i"
    using Cons.prems by (simp add: arg_char_def isArgSeparator_def separatorCallback_def)
  moreover have "fold arg_char (concat (map (\<lambda>c. if c = quote_char \<or> c = backslash then [backslash, c] else [c]) w)) ?i =
      ?i\<lparr>im_currWord := im_currWord ?i @ w\<rparr>"
    using Cons.prems by (intro Cons.IH) simp_all
  ultimately show ?case by simp
qed simp

lemma fold_quoted:
  assumes "\<not> im_inQuot impl" "\<not> im_byBackSlash impl"
  shows "fold arg_char (quote_arg w) impl = impl\<lparr>im_currWord := im_currWord impl @ w\<rparr>"
  using assms fold_in_quotes [of "impl\<lparr>im_inQuot := True, im_byBackSlash := False\<rparr>" w]
  by (cases impl) (simp add: quote_arg_def arg_char_def [of quote_char] isArgSeparator_def separatorCallback_def)

lemma fold_quoted_list:
  assumes "\<not> im_inQuot impl" "\<not> im_byBackSlash impl" "im_currWord impl = []" "[] \<notin> set ws"
  shows "im_argVect (pushbackCurrWord (fold arg_char (join_with '' '' (map quote_arg ws)) impl)) = im_argVect impl @ ws"
  using assms
proof (induction ws arbitrary: impl)
  case (Cons w ws)
  show ?case
  proof (cases ws)
    case Nil
    with Cons.prems show ?thesis by (simp add: fold_quoted pushbackCurrWord_def)
  next
    case (Cons v vs)
    let ?i = "impl\<lparr>im_argVect := im_argVect impl @ [w]\<rparr>"
    have "w \<noteq> []" using Cons.prems by auto
    then have "fold arg_char (quote_arg w @ '' '') impl = ?i"
      using Cons.prems by (cases impl) (simp add: fold_quoted arg_char_def isArgSeparator_def separatorCallback_def pushbackCurrWord_def)
    then have "fold arg_char (join_with '' '' (map quote_arg (w # ws))) impl = fold arg_char (join_with '' '' (map quote_arg ws)) ?i"
      by (simp add: Cons)
    then show ?thesis using Cons.IH [of ?i] Cons.prems by simp
  qed
qed (simp add: pushbackCurrWord_def)

lemma quoted_no_nul: "\<forall>w \<in> set ws. nul \<notin> set w \<Longrightarrow> nul \<notin> set (join_with '' '' (map quote_arg ws))"
proof (induction ws)
  case (Cons w ws)
  have "nul \<notin> set (quote_arg w)" using Cons.prems by (auto simp: quote_arg_def quote_char_def backslash_def nul_def)
  with Cons show ?case by (cases ws) (auto simp: nul_def)
qed simp

text \<open>
  C20. Quoting a list of arguments and splitting the command line again gives the list back: arguments in
  single quotes, with a backslash before quotes and backslashes, joined by spaces, whatever characters
  other than NUL they hold, as long as none is empty (an empty argument is dropped).
\<close>

theorem makeExecArg_quoted:
  assumes "[] \<notin> set ws" and "\<forall>w \<in> set ws. nul \<notin> set w"
  shows "makeExecArg argVect (join_with '' '' (map quote_arg ws)) = argVect @ ws"
  using fold_quoted_list [of "resetParser argVect" ws] quoted_no_nul [OF assms(2)] assms(1)
  by (simp add: makeExecArg_automaton resetParser_def)

theorem makeExecArg_quoted_witness:
  "makeExecArg [] (join_with '' '' (map quote_arg [''ls'', ''a b'', [quote_char, backslash]])) =
     [''ls'', ''a b'', [quote_char, backslash]]"
  using makeExecArg_quoted [of "[''ls'', ''a b'', [quote_char, backslash]]" "[]"]
  by (simp add: nul_def quote_char_def backslash_def)

end
