(* ===== verification/Action_Sched.thy ===== *)
theory Action_Sched
  imports Action_Rules Action_Args
begin

text \<open>
  Command actions: \<open>CommandActionContext\<close> and the functions around it in
  src/server/src/ActionManager.cc, and the life of the processes in src/server/src/ActorCollector.cc.
  At most \<open>limit\<close> command actions (\<open>ConfigManager::getMaxNumberOfRunningCommandAction\<close>) are on stage,
  running or reserved; others wait in a queue. Threads interleave: each definition is a section that
  holds a lock or that no other thread can observe in parts, and the scheduler of \<open>Action_Stage\<close> runs
  them in any order. What the operating system answers to a spawn is an argument.
\<close>

section \<open>State\<close>

record wait_info =
  wi_logId :: u64
  wi_def :: action_def
  wi_event :: event_info
  wi_argVect :: "string list"
  wi_reservationId :: nat

record cmd_ctx =
  cx_waitingList :: "wait_info list"
  cx_runningSet :: "u64 list"
  cx_reservedSet :: "nat list"

text \<open>
  An actor is playing until the callback of its death removes it from the running set; \<open>Removed\<close> is
  between the two locked parts of that callback, \<open>Logged\<close> after \<open>postCollectedProc\<close> has logged.
\<close>

datatype actor_stage = Playing | Removed | Collected | Logged

record actor =
  an_pid :: int
  an_logId :: u64
  an_dontLog :: bool
  an_timer :: bool
  an_waitCmd :: "wait_info option"
  an_logArg :: log_end_arg
  an_stage :: actor_stage

text \<open>A thread between the reservation and the answer to its spawn, for the actor it replaces if any.\<close>

record spawn_job =
  sj_reservationId :: nat
  sj_def :: action_def
  sj_event :: event_info
  sj_argVect :: "string list"
  sj_waitCmd :: "wait_info option"
  sj_for :: "int option"

record sched =
  sd_db :: action_db
  sd_ctx :: cmd_ctx
  sd_jobs :: "spawn_job list"
  sd_actors :: "actor list"

datatype spawn_answer = SpawnOk int | SpawnError bool

record sched_env =
  se_action :: action_env
  se_limit :: nat
  se_commandDir :: string

section \<open>The context of command actions\<close>

definition numOnstage :: "cmd_ctx \<Rightarrow> nat" where
  "numOnstage cx = length (cx_runningSet cx) + length (cx_reservedSet cx)"

definition isFullHouse :: "nat \<Rightarrow> cmd_ctx \<Rightarrow> bool" where
  "isFullHouse limit cx \<longleftrightarrow> numOnstage cx \<ge> limit"

definition isAvailable :: "u64 list \<Rightarrow> nat \<Rightarrow> bool" where
  "isAvailable runningSet i \<longleftrightarrow> i \<notin> unat ` set runningSet"

function available_from :: "u64 list \<Rightarrow> nat \<Rightarrow> nat" where
  "available_from runningSet rsvId =
     (if isAvailable runningSet rsvId then rsvId else available_from runningSet (rsvId + 1))"
  by pat_completeness auto
termination
proof (relation "measure (\<lambda>(rs, i). card {x \<in> unat ` set rs. x \<ge> i})")
  fix rs :: "u64 list" and i
  assume "\<not> isAvailable rs i"
  then have "{x \<in> unat ` set rs. x \<ge> i} = insert i {x \<in> unat ` set rs. x \<ge> i + 1}"
    by (auto simp: isAvailable_def)
  moreover have "finite {x \<in> unat ` set rs. x \<ge> i + 1}" by simp
  ultimately show "((rs, i + 1), (rs, i)) \<in> measure (\<lambda>(rs, i). card {x \<in> unat ` set rs. x \<ge> i})"
    by (simp add: card_insert_if)
qed simp

declare available_from.simps [simp del]

definition getReservationId :: "cmd_ctx \<Rightarrow> nat" where
  "getReservationId cx =
     (if cx_reservedSet cx = [] then 0
      else available_from (cx_runningSet cx) (last (cx_reservedSet cx) + 1))"

definition reserveAndInsert :: "cmd_ctx \<Rightarrow> nat \<times> cmd_ctx" where
  "reserveAndInsert cx =
     (let rsvId = getReservationId cx
      in (rsvId, cx\<lparr>cx_reservedSet := std_set_insert rsvId (cx_reservedSet cx)\<rparr>))"

definition removeReservationId :: "nat \<Rightarrow> cmd_ctx \<Rightarrow> cmd_ctx res" where
  "removeReservationId reservationId cx =
     (if reservationId \<notin> set (cx_reservedSet cx) then Inl HatoholException
      else Inr (cx\<lparr>cx_reservedSet := remove1 reservationId (cx_reservedSet cx)\<rparr>))"

definition ctx_cancel :: "nat \<Rightarrow> cmd_ctx \<Rightarrow> cmd_ctx res" where
  "ctx_cancel reservationId cx = removeReservationId reservationId cx"

definition ctx_add :: "nat \<Rightarrow> u64 \<Rightarrow> cmd_ctx \<Rightarrow> cmd_ctx res" where
  "ctx_add reservationId logId cx =
     bindR (removeReservationId reservationId cx) (\<lambda>cx.
       if logId \<in> set (cx_runningSet cx) then Inl HatoholException
       else Inr (cx\<lparr>cx_runningSet := std_set_insert logId (cx_runningSet cx)\<rparr>))"

definition ctx_remove :: "u64 \<Rightarrow> cmd_ctx \<Rightarrow> cmd_ctx res" where
  "ctx_remove logId cx =
     (if logId \<notin> set (cx_runningSet cx) then Inl HatoholException
      else Inr (cx\<lparr>cx_runningSet := remove1 logId (cx_runningSet cx)\<rparr>))"

definition insertToWaitingCommandActionList ::
  "sched_env \<Rightarrow> action_def \<Rightarrow> event_info \<Rightarrow> string list \<Rightarrow> sched \<Rightarrow> wait_info \<times> sched" where
  "insertToWaitingCommandActionList env d ev argVect st =
     (case createActionLog (se_action env) (sd_db st) d ev ACTLOG_EXECFAIL_NONE ACTLOG_STAT_QUEUING of
        (logId, db) \<Rightarrow>
          (let w = \<lparr>wi_logId = logId, wi_def = d, wi_event = ev, wi_argVect = argVect, wi_reservationId = 0\<rparr>
           in (w, st\<lparr>sd_db := db, sd_ctx := (sd_ctx st)\<lparr>cx_waitingList := cx_waitingList (sd_ctx st) @ [w]\<rparr>\<rparr>)))"

text \<open>Either a place in the queue or a reservation.\<close>

definition ctx_reserve ::
  "sched_env \<Rightarrow> action_def \<Rightarrow> event_info \<Rightarrow> string list \<Rightarrow> sched \<Rightarrow> (wait_info + nat) \<times> sched" where
  "ctx_reserve env d ev argVect st =
     (if isFullHouse (se_limit env) (sd_ctx st)
      then case insertToWaitingCommandActionList env d ev argVect st of (w, st) \<Rightarrow> (Inl w, st)
      else case reserveAndInsert (sd_ctx st) of (rsvId, cx) \<Rightarrow> (Inr rsvId, st\<lparr>sd_ctx := cx\<rparr>))"

section \<open>Starting\<close>

definition NUM_COMMNAD_ACTION_EVENT_ARG_MAGIC :: string where
  "NUM_COMMNAD_ACTION_EVENT_ARG_MAGIC = ''--hatohol-action-v1''"

definition addCommandDirectory :: "sched_env \<Rightarrow> string \<Rightarrow> string" where
  "addCommandDirectory env path = se_commandDir env @ ''/'' @ path"

definition commandArgs :: "sched_env \<Rightarrow> action_def \<Rightarrow> event_info \<Rightarrow> string list" where
  "commandArgs env d ev =
     (let argVect = makeExecArg [] (ad_command d)
      in (case argVect of [] \<Rightarrow> [] | path # args \<Rightarrow> addCommandDirectory env path # args)
         @ [NUM_COMMNAD_ACTION_EVENT_ARG_MAGIC, dec_int (ad_id d), dec_int (ev_serverId ev mod 2 ^ 32),
            ev_hostIdInServer ev, dec_int (ev_time ev) @ ''.'' @ dec_int (ev_nsec ev), ev_id ev,
            dec_int (ev_type ev), ev_triggerId ev, dec_int (ev_status ev), dec_int (ev_severity ev)])"

text \<open>\<open>execCommandAction\<close> up to the spawn.\<close>

definition execCommandAction :: "sched_env \<Rightarrow> action_def \<Rightarrow> event_info \<Rightarrow> sched \<Rightarrow> sched res" where
  "execCommandAction env d ev st =
     (if ad_type d \<noteq> ACTION_COMMAND then Inl HatoholException
      else
        let argVect = commandArgs env d ev
        in case ctx_reserve env d ev argVect st of
             (Inl w, st) \<Rightarrow> Inr st
           | (Inr rsvId, st) \<Rightarrow>
               Inr (st\<lparr>sd_jobs := sd_jobs st @ [\<lparr>sj_reservationId = rsvId, sj_def = d, sj_event = ev,
                        sj_argVect = argVect, sj_waitCmd = None, sj_for = None\<rparr>]\<rparr>))"

definition G_SPAWN_NOENT_CODE :: "bool \<Rightarrow> int" where
  "G_SPAWN_NOENT_CODE noent = (if noent then 2 else 1)"

text \<open>
  \<open>postProcSpawnFailure\<close>: a waiting action has a log already, which is ended without an exit code. The
  failure codes are \<open>ACTLOG_EXECFAIL_ENTRY_NOT_FOUND\<close> (2) and \<open>ACTLOG_EXECFAIL_EXEC_FAILURE\<close> (1).
\<close>

definition postProcSpawnFailure ::
  "sched_env \<Rightarrow> action_db \<Rightarrow> action_def \<Rightarrow> event_info \<Rightarrow> u64 option \<Rightarrow> bool \<Rightarrow> u64 \<times> action_db" where
  "postProcSpawnFailure env db d ev logUpdate noent =
     (let failureCode = G_SPAWN_NOENT_CODE noent
      in case logUpdate of
           None \<Rightarrow> createActionLog (se_action env) db d ev failureCode ACTLOG_STAT_STARTED
         | Some logId \<Rightarrow>
             (logId, logEndExecAction (se_action env) db
                (mk_log_end_arg\<lparr>le_logId := logId, le_status := ACTLOG_STAT_FAILED, le_failureCode := failureCode,
                  le_nullFlags := ACTLOG_FLAG_EXIT_CODE\<rparr>)))"

definition successCb :: "sched_env \<Rightarrow> action_db \<Rightarrow> action_def \<Rightarrow> event_info \<Rightarrow> wait_info option \<Rightarrow> u64 \<times> action_db" where
  "successCb env db d ev waitCmd =
     (let initialStatus = (if ad_type d = ACTION_COMMAND then ACTLOG_STAT_STARTED else ACTLOG_STAT_LAUNCHING_RESIDENT)
      in case waitCmd of
           Some w \<Rightarrow> (wi_logId w, updateLogStatusToStart (se_action env) db (wi_logId w))
         | None \<Rightarrow> createActionLog (se_action env) db d ev ACTLOG_EXECFAIL_NONE initialStatus)"

text \<open>\<open>ActorCollector::addActor\<close>: the map by process identifier keeps the entry it has.\<close>

definition addActor :: "actor \<Rightarrow> actor list \<Rightarrow> actor list" where
  "addActor a actors = (if an_pid a \<in> an_pid ` set actors then actors else actors @ [a])"

text \<open>
  The answer to a spawn (\<open>ActorCollector::debut\<close>, the callbacks of \<open>ActorProfile\<close> and
  \<open>spawnPostprocCommandAction\<close>).
\<close>

definition execCommandActionCore :: "sched_env \<Rightarrow> spawn_job \<Rightarrow> spawn_answer \<Rightarrow> sched \<Rightarrow> sched res" where
  "execCommandActionCore env j answer st =
     (let st = st\<lparr>sd_jobs := remove1 j (sd_jobs st)\<rparr>
      in case answer of
           SpawnOk pid \<Rightarrow>
             (case successCb env (sd_db st) (sj_def j) (sj_event j) (sj_waitCmd j) of
                (logId, db) \<Rightarrow>
                  bindR (ctx_add (sj_reservationId j) logId (sd_ctx st)) (\<lambda>cx.
                    let a = \<lparr>an_pid = pid, an_logId = logId, an_dontLog = False, an_timer = (ad_timeout (sj_def j) > 0),
                             an_waitCmd = None, an_logArg = mk_log_end_arg, an_stage = Playing\<rparr>
                    in Inr (st\<lparr>sd_db := db, sd_ctx := cx, sd_actors := addActor a (sd_actors st)\<rparr>)))
         | SpawnError noent \<Rightarrow>
             (case postProcSpawnFailure env (sd_db st) (sj_def j) (sj_event j) (map_option wi_logId (sj_waitCmd j)) noent of
                (_, db) \<Rightarrow>
                  bindR (ctx_cancel (sj_reservationId j) (sd_ctx st)) (\<lambda>cx. Inr (st\<lparr>sd_db := db, sd_ctx := cx\<rparr>))))"

section \<open>Ending\<close>

definition upd_actor :: "int \<Rightarrow> (actor \<Rightarrow> actor) \<Rightarrow> sched \<Rightarrow> sched" where
  "upd_actor pid f st = st\<lparr>sd_actors := map (\<lambda>a. if an_pid a = pid then f a else a) (sd_actors st)\<rparr>"

definition find_actor :: "int \<Rightarrow> sched \<Rightarrow> actor option" where
  "find_actor pid st = find (\<lambda>a. an_pid a = pid) (sd_actors st)"

definition setDontLog :: "int \<Rightarrow> sched \<Rightarrow> sched" where
  "setDontLog pid st = upd_actor pid (\<lambda>a. a\<lparr>an_dontLog := True\<rparr>) st"

text \<open>The failure code of a timeout is \<open>ACTLOG_EXECFAIL_KILLED_TIMEOUT\<close> (9); the kill is left to the system.\<close>

definition commandActionTimeoutCb :: "sched_env \<Rightarrow> actor \<Rightarrow> sched \<Rightarrow> sched" where
  "commandActionTimeoutCb env a st =
     (let db = logEndExecAction (se_action env) (sd_db st)
            (mk_log_end_arg\<lparr>le_logId := an_logId a, le_status := ACTLOG_STAT_FAILED, le_failureCode := 9, le_exitCode := 0\<rparr>);
          st = setDontLog (an_pid a) (st\<lparr>sd_db := db\<rparr>)
      in upd_actor (an_pid a) (\<lambda>a. a\<lparr>an_timer := False\<rparr>) st)"

datatype sig_code = CLD_EXITED | CLD_KILLED | CLD_DUMPED

text \<open>\<open>notifyChildSiginfo\<close>: codes 13 and 14 are \<open>ACTLOG_EXECFAIL_KILLED_SIGNAL\<close> and \<open>..._DUMPED_SIGNAL\<close>.\<close>

definition siginfo_logArg :: "sig_code \<Rightarrow> int \<Rightarrow> log_end_arg \<Rightarrow> log_end_arg" where
  "siginfo_logArg code status arg =
     (let arg = (case code of
            CLD_EXITED \<Rightarrow> arg\<lparr>le_status := ACTLOG_STAT_SUCCEEDED\<rparr>
          | CLD_KILLED \<Rightarrow> arg\<lparr>le_status := ACTLOG_STAT_FAILED, le_failureCode := 13\<rparr>
          | CLD_DUMPED \<Rightarrow> arg\<lparr>le_status := ACTLOG_STAT_FAILED, le_failureCode := 14\<rparr>)
      in arg\<lparr>le_exitCode := status\<rparr>)"

text \<open>\<open>notifyChildSiginfo\<close> and \<open>commandActorCollectedCb\<close>, up to the end of \<open>CommandActionContext::remove\<close>.\<close>

definition commandActorCollected_remove :: "actor \<Rightarrow> sig_code \<Rightarrow> int \<Rightarrow> sched \<Rightarrow> sched res" where
  "commandActorCollected_remove a code status st =
     bindR (ctx_remove (an_logId a) (sd_ctx st)) (\<lambda>cx.
       Inr (upd_actor (an_pid a)
              (\<lambda>a. a\<lparr>an_logArg := siginfo_logArg code status (an_logArg a), an_stage := Removed\<rparr>) (st\<lparr>sd_ctx := cx\<rparr>)))"

text \<open>The rest of \<open>commandActorCollectedCb\<close>: it takes over the first waiting action if there is room.\<close>

definition commandActorCollected_next :: "sched_env \<Rightarrow> actor \<Rightarrow> sched \<Rightarrow> sched" where
  "commandActorCollected_next env a st =
     (let cx = sd_ctx st; done = upd_actor (an_pid a) (\<lambda>a. a\<lparr>an_stage := Collected\<rparr>) st
      in case cx_waitingList cx of
           [] \<Rightarrow> done
         | w # ws \<Rightarrow>
             if isFullHouse (se_limit env) cx then done
             else
               case reserveAndInsert cx of
                 (rsvId, cx) \<Rightarrow>
                   upd_actor (an_pid a) (\<lambda>a. a\<lparr>an_stage := Collected, an_waitCmd := Some (w\<lparr>wi_reservationId := rsvId\<rparr>)\<rparr>)
                     (st\<lparr>sd_ctx := cx\<lparr>cx_waitingList := ws\<rparr>\<rparr>))"

text \<open>
  \<open>postCollectedProc\<close>: log, then \<open>commandActorPostCollectedCb\<close> spawns the action taken over, then
  \<open>cleanupChildInfo\<close>.
\<close>

definition postCollectedProc :: "sched_env \<Rightarrow> actor \<Rightarrow> sched \<Rightarrow> sched" where
  "postCollectedProc env a st =
     (let st = (if an_dontLog a then st
                else st\<lparr>sd_db := logEndExecAction (se_action env) (sd_db st) ((an_logArg a)\<lparr>le_logId := an_logId a\<rparr>)\<rparr>);
          st = upd_actor (an_pid a) (\<lambda>a. a\<lparr>an_stage := Logged, an_waitCmd := None\<rparr>) st
      in case an_waitCmd a of
           None \<Rightarrow> st
         | Some w \<Rightarrow>
             st\<lparr>sd_jobs := sd_jobs st @ [\<lparr>sj_reservationId = wi_reservationId w, sj_def = wi_def w, sj_event = wi_event w,
                   sj_argVect = wi_argVect w, sj_waitCmd = Some w, sj_for = Some (an_pid a)\<rparr>]\<rparr>)"

text \<open>\<open>cleanupChildInfo\<close> reads through the iterator before it asserts that the entry was found.\<close>

definition cleanupChildInfo :: "int \<Rightarrow> sched \<Rightarrow> sched res" where
  "cleanupChildInfo pid st =
     (if pid \<notin> an_pid ` set (sd_actors st) then Inl UndefinedBehaviour
      else Inr (st\<lparr>sd_actors := filter (\<lambda>a. an_pid a \<noteq> pid) (sd_actors st)\<rparr>))"

end
