(* ===== verification/Action_Stage.thy ===== *)
theory Action_Stage
  imports Action_Sched
begin

text \<open>
  The scheduler of command actions under any interleaving of its threads: the limit on the number of
  actions on stage, the absence of failing assertions, and when waiting actions are served.
\<close>

section \<open>Steps\<close>

datatype sched_op =
    OpExec action_def event_info
  | OpSpawn spawn_job spawn_answer
  | OpTimeout int
  | OpDied int sig_code int
  | OpNext int
  | OpFinalize int
  | OpCleanup int

definition next_log_id :: "sched_env \<Rightarrow> sched \<Rightarrow> int" where
  "next_log_id env st = en_nextId (ae_engine (se_action env)) (map lr_id (at_logs (st_data (sd_db st))))"

definition in_stage :: "actor_stage \<Rightarrow> int \<Rightarrow> sched \<Rightarrow> bool" where
  "in_stage s pid st = (case find_actor pid st of None \<Rightarrow> False | Some a \<Rightarrow> an_stage a = s)"

text \<open>
  When a step can happen. The automatic key of the logs is below \<open>2 ^ 64\<close>, and the system does not give
  a new process an identifier that is still in the map.
\<close>

fun sched_enabled :: "sched_env \<Rightarrow> sched_op \<Rightarrow> sched \<Rightarrow> bool" where
  "sched_enabled env (OpExec d ev) st = (ad_type d = ACTION_COMMAND \<and> next_log_id env st < 2 ^ 64)"
| "sched_enabled env (OpSpawn j answer) st =
     (j \<in> set (sd_jobs st) \<and> next_log_id env st < 2 ^ 64
      \<and> (case answer of SpawnOk pid \<Rightarrow> pid \<notin> an_pid ` set (sd_actors st) | SpawnError _ \<Rightarrow> True))"
| "sched_enabled env (OpTimeout pid) st = (case find_actor pid st of None \<Rightarrow> False | Some a \<Rightarrow> an_timer a)"
| "sched_enabled env (OpDied pid code status) st = in_stage Playing pid st"
| "sched_enabled env (OpNext pid) st = in_stage Removed pid st"
| "sched_enabled env (OpFinalize pid) st = in_stage Collected pid st"
| "sched_enabled env (OpCleanup pid) st = (in_stage Logged pid st \<and> Some pid \<notin> sj_for ` set (sd_jobs st))"

definition with_actor :: "int \<Rightarrow> sched \<Rightarrow> (actor \<Rightarrow> sched res) \<Rightarrow> sched res" where
  "with_actor pid st f = (case find_actor pid st of None \<Rightarrow> Inl UndefinedBehaviour | Some a \<Rightarrow> f a)"

fun sched_do :: "sched_env \<Rightarrow> sched_op \<Rightarrow> sched \<Rightarrow> sched res" where
  "sched_do env (OpExec d ev) st = execCommandAction env d ev st"
| "sched_do env (OpSpawn j answer) st = execCommandActionCore env j answer st"
| "sched_do env (OpTimeout pid) st = with_actor pid st (\<lambda>a. Inr (commandActionTimeoutCb env a st))"
| "sched_do env (OpDied pid code status) st = with_actor pid st (\<lambda>a. commandActorCollected_remove a code status st)"
| "sched_do env (OpNext pid) st = with_actor pid st (\<lambda>a. Inr (commandActorCollected_next env a st))"
| "sched_do env (OpFinalize pid) st = with_actor pid st (\<lambda>a. Inr (postCollectedProc env a st))"
| "sched_do env (OpCleanup pid) st = cleanupChildInfo pid st"

definition sched_start :: "action_db \<Rightarrow> sched" where
  "sched_start db = \<lparr>sd_db = db, sd_ctx = \<lparr>cx_waitingList = [], cx_runningSet = [], cx_reservedSet = []\<rparr>,
     sd_jobs = [], sd_actors = []\<rparr>"

text \<open>The states that steps of the given kinds lead to, from an empty log.\<close>

inductive sched_reach :: "(sched_op \<Rightarrow> bool) \<Rightarrow> sched_env \<Rightarrow> sched \<Rightarrow> bool" for allowed env where
  start: "at_logs (st_data db) = [] \<Longrightarrow> sched_reach allowed env (sched_start db)"
| step: "sched_reach allowed env st \<Longrightarrow> allowed op \<Longrightarrow> sched_enabled env op st \<Longrightarrow> sched_do env op st = Inr st' \<Longrightarrow>
    sched_reach allowed env st'"

section \<open>Sets and lists\<close>

lemma mset_std_set_insert:
  "std_set_wf xs \<Longrightarrow> x \<notin> set xs \<Longrightarrow> mset (std_set_insert x xs) = add_mset x (mset xs)"
  by (simp add: std_set_insert_def insort_insert_insort insort_key_def [symmetric])

lemma std_set_wf_remove1: "std_set_wf xs \<Longrightarrow> std_set_wf (remove1 x xs)"
  by (simp add: std_set_wf_def sorted_remove1)

lemma std_set_wf_last: "std_set_wf xs \<Longrightarrow> x \<in> set xs \<Longrightarrow> x \<le> last xs"
  by (induction xs) (auto simp: std_set_wf_def)

lemma available_from_ge: "i \<le> available_from rs i"
  by (induction rs i rule: available_from.induct) (metis available_from.simps le_add1 order_refl order_trans)

lemma reservation_fresh:
  assumes "std_set_wf (cx_reservedSet cx)"
  shows "getReservationId cx \<notin> set (cx_reservedSet cx)"
proof
  assume "getReservationId cx \<in> set (cx_reservedSet cx)"
  then have "cx_reservedSet cx \<noteq> []" "getReservationId cx \<le> last (cx_reservedSet cx)"
    using std_set_wf_last [OF assms] by auto
  with available_from_ge [of "last (cx_reservedSet cx) + 1" "cx_runningSet cx"] show False
    by (simp add: getReservationId_def)
qed

lemma available_from_available: "isAvailable rs (available_from rs i)"
  by (induction rs i rule: available_from.induct) (metis available_from.simps)

definition waits_of :: "('a \<Rightarrow> 'w option) \<Rightarrow> 'a list \<Rightarrow> 'w list" where
  "waits_of f xs = concat (map (\<lambda>x. case f x of None \<Rightarrow> [] | Some w \<Rightarrow> [w]) xs)"

lemma waits_of_simps [simp]:
  "waits_of f [] = []" "waits_of f (x # xs) = (case f x of None \<Rightarrow> [] | Some w \<Rightarrow> [w]) @ waits_of f xs"
  "waits_of f (xs @ ys) = waits_of f xs @ waits_of f ys"
  by (simp_all add: waits_of_def)

lemma find_actor_split:
  assumes "find_actor pid st = Some a"
  obtains ys zs where "sd_actors st = ys @ a # zs" "an_pid a = pid"
proof -
  have "a \<in> set (sd_actors st)" "an_pid a = pid" using assms by (auto simp: find_actor_def find_Some_iff)
  then show ?thesis using that by (metis split_list)
qed

lemma upd_actor_split:
  assumes "sd_actors st = ys @ a # zs" "distinct (map an_pid (sd_actors st))"
  shows "sd_actors (upd_actor (an_pid a) f st) = ys @ f a # zs"
proof -
  have "map (\<lambda>b. if an_pid b = an_pid a then f b else b) xs = xs" if "an_pid a \<notin> an_pid ` set xs" for xs
    using that by (induction xs) auto
  then show ?thesis using assms by (simp add: upd_actor_def)
qed

lemma upd_actor_other [simp]:
  "sd_db (upd_actor pid f st) = sd_db st" "sd_ctx (upd_actor pid f st) = sd_ctx st" "sd_jobs (upd_actor pid f st) = sd_jobs st"
  by (simp_all add: upd_actor_def)

section \<open>The invariant\<close>

abbreviation playing :: "actor \<Rightarrow> bool" where
  "playing a \<equiv> an_stage a = Playing"

definition held_logs :: "sched \<Rightarrow> u64 list" where
  "held_logs st = map wi_logId (cx_waitingList (sd_ctx st)) @ map wi_logId (waits_of sj_waitCmd (sd_jobs st))
     @ map wi_logId (waits_of an_waitCmd (sd_actors st)) @ map an_logId (filter playing (sd_actors st))"

definition log_ids :: "sched \<Rightarrow> int list" where
  "log_ids st = map lr_id (at_logs (st_data (sd_db st)))"

definition stage_inv :: "sched_env \<Rightarrow> sched \<Rightarrow> bool" where
  "stage_inv env st \<longleftrightarrow>
     std_set_wf (cx_reservedSet (sd_ctx st)) \<and> std_set_wf (cx_runningSet (sd_ctx st))
     \<and> distinct (map an_pid (sd_actors st))
     \<and> mset (cx_reservedSet (sd_ctx st)) = mset (map sj_reservationId (sd_jobs st))
         + mset (map wi_reservationId (waits_of an_waitCmd (sd_actors st)))
     \<and> mset (cx_runningSet (sd_ctx st)) = mset (map an_logId (filter playing (sd_actors st)))
     \<and> numOnstage (sd_ctx st) \<le> se_limit env
     \<and> (\<forall>a \<in> set (sd_actors st). an_waitCmd a \<noteq> None \<longrightarrow> an_stage a = Collected)
     \<and> distinct (held_logs st) \<and> set (held_logs st) \<subseteq> word_of_int ` set (log_ids st)
     \<and> (\<forall>i \<in> set (log_ids st). 0 < i \<and> i < 2 ^ 64)"

lemma stage_invD:
  assumes "stage_inv env st"
  shows "std_set_wf (cx_reservedSet (sd_ctx st))" "std_set_wf (cx_runningSet (sd_ctx st))"
    "distinct (map an_pid (sd_actors st))"
    "mset (cx_reservedSet (sd_ctx st)) = mset (map sj_reservationId (sd_jobs st))
         + mset (map wi_reservationId (waits_of an_waitCmd (sd_actors st)))"
    "mset (cx_runningSet (sd_ctx st)) = mset (map an_logId (filter playing (sd_actors st)))"
    "numOnstage (sd_ctx st) \<le> se_limit env"
    "a \<in> set (sd_actors st) \<Longrightarrow> an_waitCmd a \<noteq> None \<Longrightarrow> an_stage a = Collected"
    "distinct (held_logs st)" "set (held_logs st) \<subseteq> word_of_int ` set (log_ids st)"
    "i \<in> set (log_ids st) \<Longrightarrow> 0 < i \<and> i < 2 ^ 64"
  using assms by (auto simp: stage_inv_def)

lemma no_wait: "stage_inv env st \<Longrightarrow> a \<in> set (sd_actors st) \<Longrightarrow> an_stage a \<noteq> Collected \<Longrightarrow> an_waitCmd a = None"
  using stage_invD(7) by blast

text \<open>Only the identifiers of the logs matter for the invariant.\<close>

lemma log_ids_simps [simp]:
  "map lr_id (at_logs (st_data (updateLogStatusToStart e db i))) = map lr_id (at_logs (st_data db))"
  "map lr_id (at_logs (st_data (logEndExecAction e db arg))) = map lr_id (at_logs (st_data db))"
  by (simp_all add: updateLogStatusToStart_def logEndExecAction_def tbl_update_def Let_def comp_def if_distrib cong: if_cong)

lemma createActionLog_ids:
  "createActionLog e db d ev code status = (i, db') \<Longrightarrow>
     i = word_of_int (en_nextId (ae_engine e) (map lr_id (at_logs (st_data db))))
     \<and> map lr_id (at_logs (st_data db')) = map lr_id (at_logs (st_data db)) @ [en_nextId (ae_engine e) (map lr_id (at_logs (st_data db)))]"
  by (auto simp: createActionLog_def Let_def)

lemma fresh_log_id:
  assumes "stage_inv env st" "user_engine_ok (ae_engine (se_action env))" "next_log_id env st < 2 ^ 64"
  shows "word_of_int (next_log_id env st) \<notin> set (held_logs st)"
proof -
  have n: "next_log_id env st \<notin> set (log_ids st)" "0 < next_log_id env st"
    using user_engine_ok.nextId_fresh [OF assms(2)] user_engine_ok.nextId_pos [OF assms(2)]
    by (auto simp: next_log_id_def log_ids_def simp del: set_map)
  have "(word_of_int i :: u64) \<noteq> word_of_int (next_log_id env st)" if "i \<in> set (log_ids st)" for i
  proof
    assume "(word_of_int i :: u64) = word_of_int (next_log_id env st)"
    then have "uint (word_of_int i :: u64) = uint (word_of_int (next_log_id env st) :: u64)" by simp
    then have "i = next_log_id env st"
      using stage_invD(10) [OF assms(1) that] n(2) assms(3) by (simp add: uint_word_of_int)
    with that n(1) show False by simp
  qed
  then have "word_of_int (next_log_id env st) \<notin> (word_of_int ` set (log_ids st) :: u64 set)" by force
  with stage_invD(9) [OF assms(1)] show ?thesis by blast
qed

lemma reserve_effect:
  assumes "stage_inv env st" "\<not> isFullHouse (se_limit env) (sd_ctx st)" "reserveAndInsert (sd_ctx st) = (rsv, cx)"
  shows "cx_waitingList cx = cx_waitingList (sd_ctx st)" "cx_runningSet cx = cx_runningSet (sd_ctx st)"
    "std_set_wf (cx_reservedSet cx)" "mset (cx_reservedSet cx) = add_mset rsv (mset (cx_reservedSet (sd_ctx st)))"
    "numOnstage cx \<le> se_limit env" "numOnstage cx = numOnstage (sd_ctx st) + 1"
proof -
  note wf = stage_invD(1) [OF assms(1)]
  have rsv: "rsv = getReservationId (sd_ctx st)"
    and cx: "cx = (sd_ctx st)\<lparr>cx_reservedSet := std_set_insert rsv (cx_reservedSet (sd_ctx st))\<rparr>"
    using assms(3) by (auto simp: reserveAndInsert_def Let_def)
  show m: "mset (cx_reservedSet cx) = add_mset rsv (mset (cx_reservedSet (sd_ctx st)))"
    using mset_std_set_insert [OF wf reservation_fresh [OF wf]] by (simp add: cx rsv)
  have "length (cx_reservedSet cx) = length (cx_reservedSet (sd_ctx st)) + 1"
    using arg_cong [OF m, of size] by simp
  then show n: "numOnstage cx = numOnstage (sd_ctx st) + 1" by (simp add: numOnstage_def cx)
  show "numOnstage cx \<le> se_limit env" using assms(2) n by (simp add: isFullHouse_def)
qed (use stage_invD(1) [OF assms(1)] assms(3) in \<open>auto simp: reserveAndInsert_def Let_def std_set_wf_insert\<close>)

lemma exec_inv:
  assumes inv: "stage_inv env st" and eng: "user_engine_ok (ae_engine (se_action env))"
    and en: "sched_enabled env (OpExec d ev) st"
  shows "\<exists>st'. execCommandAction env d ev st = Inr st' \<and> stage_inv env st'"
proof (cases "isFullHouse (se_limit env) (sd_ctx st)")
  case True
  obtain i db where log: "createActionLog (se_action env) (sd_db st) d ev ACTLOG_EXECFAIL_NONE ACTLOG_STAT_QUEUING = (i, db)"
    by fastforce
  have i: "i = word_of_int (next_log_id env st)" and ids: "map lr_id (at_logs (st_data db)) = log_ids st @ [next_log_id env st]"
    using createActionLog_ids [OF log] by (simp_all add: next_log_id_def log_ids_def)
  let ?w = "\<lparr>wi_logId = i, wi_def = d, wi_event = ev, wi_argVect = commandArgs env d ev, wi_reservationId = 0\<rparr>"
  let ?st = "st\<lparr>sd_db := db, sd_ctx := (sd_ctx st)\<lparr>cx_waitingList := cx_waitingList (sd_ctx st) @ [?w]\<rparr>\<rparr>"
  have run: "execCommandAction env d ev st = Inr ?st"
    using en True log by (simp add: execCommandAction_def ctx_reserve_def insertToWaitingCommandActionList_def Let_def)
  have fresh: "i \<notin> set (held_logs st)" using fresh_log_id [OF inv eng] en by (simp add: i)
  have held: "set (held_logs ?st) = insert i (set (held_logs st))" "distinct (held_logs ?st)"
    using fresh stage_invD(8) [OF inv] by (auto simp: held_logs_def)
  have ids': "log_ids ?st = log_ids st @ [next_log_id env st]" using ids by (simp add: log_ids_def)
  have "0 < next_log_id env st" using user_engine_ok.nextId_pos [OF eng] by (simp add: next_log_id_def)
  then have "stage_inv env ?st"
    using inv en held unfolding stage_inv_def ids' by (auto simp: numOnstage_def i)
  with run show ?thesis by blast
next
  case False
  obtain rsv cx where r: "reserveAndInsert (sd_ctx st) = (rsv, cx)" by fastforce
  note eff = reserve_effect [OF inv False r]
  let ?j = "\<lparr>sj_reservationId = rsv, sj_def = d, sj_event = ev, sj_argVect = commandArgs env d ev, sj_waitCmd = None, sj_for = None\<rparr>"
  let ?st = "st\<lparr>sd_ctx := cx, sd_jobs := sd_jobs st @ [?j]\<rparr>"
  have "execCommandAction env d ev st = Inr ?st" using en False r by (simp add: execCommandAction_def ctx_reserve_def Let_def)
  moreover have "held_logs ?st = held_logs st" "log_ids ?st = log_ids st"
    by (simp_all add: held_logs_def log_ids_def eff)
  ultimately show ?thesis using inv eff unfolding stage_inv_def by simp
qed

text \<open>The logs that are held when the job \<open>j\<close> is taken out.\<close>

definition held_without :: "spawn_job list \<Rightarrow> sched \<Rightarrow> u64 list" where
  "held_without jobs st = map wi_logId (cx_waitingList (sd_ctx st)) @ map wi_logId (waits_of sj_waitCmd jobs)
     @ map wi_logId (waits_of an_waitCmd (sd_actors st)) @ map an_logId (filter playing (sd_actors st))"

lemma take_job:
  assumes "stage_inv env st" "sd_jobs st = js @ j # js'"
  shows "sj_reservationId j \<in> set (cx_reservedSet (sd_ctx st))"
    "removeReservationId (sj_reservationId j) (sd_ctx st) =
       Inr ((sd_ctx st)\<lparr>cx_reservedSet := remove1 (sj_reservationId j) (cx_reservedSet (sd_ctx st))\<rparr>)"
    "mset (remove1 (sj_reservationId j) (cx_reservedSet (sd_ctx st))) = mset (map sj_reservationId (js @ js'))
       + mset (map wi_reservationId (waits_of an_waitCmd (sd_actors st)))"
    "Suc (length (remove1 (sj_reservationId j) (cx_reservedSet (sd_ctx st)))) = length (cx_reservedSet (sd_ctx st))"
proof -
  have m: "mset (cx_reservedSet (sd_ctx st)) = add_mset (sj_reservationId j) (mset (map sj_reservationId (js @ js'))
       + mset (map wi_reservationId (waits_of an_waitCmd (sd_actors st))))"
    using stage_invD(4) [OF assms(1)] assms(2) by simp
  then have "sj_reservationId j \<in># mset (cx_reservedSet (sd_ctx st))" by simp
  then show mem: "sj_reservationId j \<in> set (cx_reservedSet (sd_ctx st))" by simp
  then show "removeReservationId (sj_reservationId j) (sd_ctx st) =
       Inr ((sd_ctx st)\<lparr>cx_reservedSet := remove1 (sj_reservationId j) (cx_reservedSet (sd_ctx st))\<rparr>)"
    by (simp add: removeReservationId_def)
  show "mset (remove1 (sj_reservationId j) (cx_reservedSet (sd_ctx st))) = mset (map sj_reservationId (js @ js'))
       + mset (map wi_reservationId (waits_of an_waitCmd (sd_actors st)))"
    unfolding mset_remove1 m by simp
  show "Suc (length (remove1 (sj_reservationId j) (cx_reservedSet (sd_ctx st)))) = length (cx_reservedSet (sd_ctx st))"
    using length_pos_if_in_set [OF mem] by (simp add: length_remove1 mem)
qed

lemma job_held:
  assumes "sd_jobs st = js @ j # js'"
  shows "mset (held_logs st) = mset (map wi_logId (case sj_waitCmd j of None \<Rightarrow> [] | Some w \<Rightarrow> [w])) + mset (held_without (js @ js') st)"
  by (simp add: held_logs_def held_without_def assms split: option.splits)

lemma running_held:
  assumes "stage_inv env st"
  shows "set (cx_runningSet (sd_ctx st)) \<subseteq> set (held_without jobs st)"
proof -
  have "set (cx_runningSet (sd_ctx st)) = set (map an_logId (filter playing (sd_actors st)))"
    using stage_invD(5) [OF assms] by (metis set_mset_mset)
  then show ?thesis by (auto simp: held_without_def)
qed

lemma spawn_ok_inv:
  assumes inv: "stage_inv env st" and jobs: "sd_jobs st = js @ j # js'"
    and pid: "an_pid a \<notin> an_pid ` set (sd_actors st)" and a: "an_logId a = i" "an_waitCmd a = None" "an_stage a = Playing"
    and fresh: "distinct (i # held_without (js @ js') st)"
    and ids: "insert i (set (held_without (js @ js') st)) \<subseteq> word_of_int ` set (map lr_id (at_logs (st_data db)))"
      "\<forall>i \<in> set (map lr_id (at_logs (st_data db))). 0 < i \<and> i < 2 ^ 64"
  shows "\<exists>cx. ctx_add (sj_reservationId j) i (sd_ctx st) = Inr cx
    \<and> stage_inv env (st\<lparr>sd_jobs := js @ js', sd_db := db, sd_ctx := cx, sd_actors := addActor a (sd_actors st)\<rparr>)"
proof -
  note t = take_job [OF inv jobs]
  let ?rs = "cx_runningSet (sd_ctx st)"
  let ?cx = "(sd_ctx st)\<lparr>cx_reservedSet := remove1 (sj_reservationId j) (cx_reservedSet (sd_ctx st)), cx_runningSet := std_set_insert i ?rs\<rparr>"
  have new: "i \<notin> set ?rs" using fresh running_held [OF inv, of "js @ js'"] by auto
  have add: "ctx_add (sj_reservationId j) i (sd_ctx st) = Inr ?cx" using new t(2) by (simp add: ctx_add_def)
  note run = mset_std_set_insert [OF stage_invD(2) [OF inv] new]
  have "length (std_set_insert i ?rs) = Suc (length ?rs)" using arg_cong [OF run, of size] by simp
  then have num: "numOnstage ?cx \<le> se_limit env" using stage_invD(6) [OF inv] t(4) by (simp add: numOnstage_def)
  have act: "addActor a (sd_actors st) = sd_actors st @ [a]" using pid by (simp add: addActor_def)
  let ?st = "st\<lparr>sd_jobs := js @ js', sd_db := db, sd_ctx := ?cx, sd_actors := addActor a (sd_actors st)\<rparr>"
  have held: "held_logs ?st = held_without (js @ js') st @ [i]"
    by (simp add: held_logs_def held_without_def act a)
  have "stage_inv env ?st"
    unfolding stage_inv_def held
    using stage_invD(1-3,5,7) [OF inv] t(3) run num fresh ids pid
    by (auto simp: act a log_ids_def std_set_wf_remove1 std_set_wf_insert simp del: remove1_append)
  with add show ?thesis by blast
qed

lemma spawn_inv:
  assumes inv: "stage_inv env st" and eng: "user_engine_ok (ae_engine (se_action env))"
    and en: "sched_enabled env (OpSpawn j answer) st"
  shows "\<exists>st'. execCommandActionCore env j answer st = Inr st' \<and> stage_inv env st'"
proof -
  obtain js js' where jobs: "sd_jobs st = js @ j # js'" "j \<notin> set js"
    using en by (auto dest: split_list_first)
  have rem: "remove1 j (sd_jobs st) = js @ js'" using jobs by (simp add: remove1_append)
  note t = take_job [OF inv jobs(1)] and jh = job_held [OF jobs(1)]
  have sub: "set (held_without (js @ js') st) \<subseteq> set (held_logs st)"
    using arg_cong [OF jh, of set_mset] by auto
  have dis: "distinct (held_without (js @ js') st)"
    using stage_invD(8) [OF inv] mset_eq_imp_distinct_iff [OF jh [folded mset_append]] by simp
  show ?thesis
  proof (cases answer)
    case (SpawnOk pid)
    let ?new = "\<lambda>i. \<lparr>an_pid = pid, an_logId = i, an_dontLog = False, an_timer = (ad_timeout (sj_def j) > 0),
        an_waitCmd = None, an_logArg = mk_log_end_arg, an_stage = Playing\<rparr>"
    obtain i db where s: "successCb env (sd_db st) (sj_def j) (sj_event j) (sj_waitCmd j) = (i, db)" by fastforce
    have "distinct (i # held_without (js @ js') st)
      \<and> insert i (set (held_without (js @ js') st)) \<subseteq> word_of_int ` set (map lr_id (at_logs (st_data db)))
      \<and> (\<forall>i \<in> set (map lr_id (at_logs (st_data db))). 0 < i \<and> i < 2 ^ 64)"
    proof (cases "sj_waitCmd j")
      case None
      have i: "i = word_of_int (next_log_id env st)"
        and ids: "map lr_id (at_logs (st_data db)) = log_ids st @ [next_log_id env st]"
        using s None createActionLog_ids by (auto simp: successCb_def Let_def next_log_id_def log_ids_def)
      have "i \<notin> set (held_logs st)" using fresh_log_id [OF inv eng] en by (simp add: i)
      moreover have "0 < next_log_id env st" using user_engine_ok.nextId_pos [OF eng] by (simp add: next_log_id_def)
      ultimately show ?thesis
        using dis sub stage_invD(9,10) [OF inv] en unfolding ids by (auto simp: i)
    next
      case (Some w)
      have i: "i = wi_logId w" and ids: "map lr_id (at_logs (st_data db)) = log_ids st"
        using s Some by (auto simp: successCb_def log_ids_def)
      have "distinct (i # held_without (js @ js') st)"
        using mset_eq_imp_distinct_iff [OF jh [folded mset_append]] stage_invD(8) [OF inv] Some by (simp add: i)
      moreover have "i \<in> set (held_logs st)" using arg_cong [OF jh, of set_mset] Some by (simp add: i)
      ultimately show ?thesis using sub stage_invD(9,10) [OF inv] unfolding ids by auto
    qed
    with spawn_ok_inv [OF inv jobs(1), of "?new i" i db] en SpawnOk
    obtain cx where "ctx_add (sj_reservationId j) i (sd_ctx st) = Inr cx"
      "stage_inv env (st\<lparr>sd_jobs := js @ js', sd_db := db, sd_ctx := cx, sd_actors := addActor (?new i) (sd_actors st)\<rparr>)"
      by auto
    then show ?thesis using s by (auto simp: execCommandActionCore_def SpawnOk rem Let_def)
  next
    case (SpawnError noent)
    obtain i db where f: "postProcSpawnFailure env (sd_db st) (sj_def j) (sj_event j) (map_option wi_logId (sj_waitCmd j)) noent = (i, db)"
      by fastforce
    let ?cx = "(sd_ctx st)\<lparr>cx_reservedSet := remove1 (sj_reservationId j) (cx_reservedSet (sd_ctx st))\<rparr>"
    let ?st = "st\<lparr>sd_jobs := js @ js', sd_db := db, sd_ctx := ?cx\<rparr>"
    have run: "execCommandActionCore env j answer st = Inr ?st"
      using f t(2) by (simp add: execCommandActionCore_def SpawnError rem ctx_cancel_def Let_def)
    have "log_ids ?st = log_ids st \<or> log_ids ?st = log_ids st @ [next_log_id env st]"
      using f createActionLog_ids
      by (auto simp: postProcSpawnFailure_def Let_def log_ids_def next_log_id_def split: option.splits)
    then have ids: "set (log_ids st) \<subseteq> set (log_ids ?st)" "\<forall>i \<in> set (log_ids ?st). 0 < i \<and> i < 2 ^ 64"
      using stage_invD(10) [OF inv] en user_engine_ok.nextId_pos [OF eng] by (auto simp: next_log_id_def)
    have held: "held_logs ?st = held_without (js @ js') st" by (simp add: held_logs_def held_without_def)
    have num: "numOnstage ?cx \<le> se_limit env" using stage_invD(6) [OF inv] t(4) by (simp add: numOnstage_def)
    have "set (held_without (js @ js') st) \<subseteq> word_of_int ` set (log_ids ?st)"
      using sub ids(1) stage_invD(9) [OF inv] by blast
    then have "stage_inv env ?st"
      unfolding stage_inv_def held
      using stage_invD(1-3,5,7) [OF inv] t(3) num dis ids(2) by (auto simp: std_set_wf_remove1 simp del: remove1_append)
    with run show ?thesis by blast
  qed
qed

text \<open>An update of one actor that keeps what the invariant sees of it.\<close>

lemma same_actor_inv:
  assumes inv: "stage_inv env st" and ys: "sd_actors st = ys @ a # zs"
    and b: "an_pid b = an_pid a" "an_logId b = an_logId a" "an_waitCmd b = an_waitCmd a" "an_stage b = an_stage a"
    and st': "sd_ctx st' = sd_ctx st" "sd_jobs st' = sd_jobs st" "sd_actors st' = ys @ b # zs" "log_ids st' = log_ids st"
  shows "stage_inv env st'"
proof -
  have "held_logs st' = held_logs st" by (simp add: held_logs_def st' ys b)
  then show ?thesis
    using inv unfolding stage_inv_def by (auto simp: st' ys b)
qed

text \<open>The effect of the steps on the actor they are about.\<close>

lemma timeout_effect:
  assumes dis: "distinct (map an_pid (sd_actors st))" and ys: "sd_actors st = ys @ a # zs"
  shows "sd_actors (commandActionTimeoutCb env a st) = ys @ a\<lparr>an_dontLog := True, an_timer := False\<rparr> # zs"
    "sd_ctx (commandActionTimeoutCb env a st) = sd_ctx st" "sd_jobs (commandActionTimeoutCb env a st) = sd_jobs st"
    "log_ids (commandActionTimeoutCb env a st) = log_ids st"
proof -
  let ?db = "logEndExecAction (se_action env) (sd_db st)
      (mk_log_end_arg\<lparr>le_logId := an_logId a, le_status := ACTLOG_STAT_FAILED, le_failureCode := 9, le_exitCode := 0\<rparr>)"
  let ?d = "a\<lparr>an_dontLog := True\<rparr>"
  have 1: "sd_actors (setDontLog (an_pid a) (st\<lparr>sd_db := ?db\<rparr>)) = ys @ ?d # zs"
    unfolding setDontLog_def by (rule upd_actor_split) (use ys dis in simp_all)
  show "sd_actors (commandActionTimeoutCb env a st) = ys @ ?d\<lparr>an_timer := False\<rparr> # zs"
    using upd_actor_split [OF 1, of "\<lambda>a. a\<lparr>an_timer := False\<rparr>"] dis ys unfolding 1
    by (simp add: commandActionTimeoutCb_def Let_def)
qed (simp_all add: commandActionTimeoutCb_def setDontLog_def log_ids_def Let_def)

lemma finalize_effect:
  assumes dis: "distinct (map an_pid (sd_actors st))" and ys: "sd_actors st = ys @ a # zs"
  shows "sd_actors (postCollectedProc env a st) = ys @ a\<lparr>an_stage := Logged, an_waitCmd := None\<rparr> # zs"
    "sd_ctx (postCollectedProc env a st) = sd_ctx st"
    "sd_jobs (postCollectedProc env a st) = sd_jobs st @ (case an_waitCmd a of None \<Rightarrow> []
       | Some w \<Rightarrow> [\<lparr>sj_reservationId = wi_reservationId w, sj_def = wi_def w,
           sj_event = wi_event w, sj_argVect = wi_argVect w, sj_waitCmd = Some w, sj_for = Some (an_pid a)\<rparr>])"
    "log_ids (postCollectedProc env a st) = log_ids st"
proof -
  have upd: "sd_actors (upd_actor (an_pid a) f (st\<lparr>sd_db := db\<rparr>)) = ys @ f a # zs" for f db
    by (rule upd_actor_split) (use ys dis in simp_all)
  have upd0: "sd_actors (upd_actor (an_pid a) f st) = ys @ f a # zs" for f
    by (rule upd_actor_split) (use ys dis in simp_all)
  show "sd_actors (postCollectedProc env a st) = ys @ a\<lparr>an_stage := Logged, an_waitCmd := None\<rparr> # zs"
    by (auto simp: postCollectedProc_def Let_def upd upd0 split: option.splits)
qed (auto simp: postCollectedProc_def Let_def log_ids_def split: option.splits)

lemma cleanup_effect:
  assumes dis: "distinct (map an_pid (sd_actors st))" and ys: "sd_actors st = ys @ a # zs"
  shows "cleanupChildInfo (an_pid a) st = Inr (st\<lparr>sd_actors := ys @ zs\<rparr>)"
proof -
  have "\<forall>b \<in> set (ys @ zs). an_pid b \<noteq> an_pid a" using dis ys by (auto simp: image_iff)
  then have f: "filter (\<lambda>b. an_pid b \<noteq> an_pid a) (sd_actors st) = ys @ zs"
    using ys by (auto simp: filter_id_conv)
  have "an_pid a \<in> an_pid ` set (sd_actors st)" using ys by auto
  then show ?thesis by (simp add: cleanupChildInfo_def f)
qed

lemma timeout_inv:
  assumes inv: "stage_inv env st" and a: "find_actor pid st = Some a"
  shows "stage_inv env (commandActionTimeoutCb env a st)"
proof -
  obtain ys zs where ys: "sd_actors st = ys @ a # zs" "an_pid a = pid" using find_actor_split [OF a] .
  note eff = timeout_effect [OF stage_invD(3) [OF inv] ys(1)]
  show ?thesis by (rule same_actor_inv [OF inv ys(1) _ _ _ _ eff(2,3,1,4)]) simp_all
qed

lemma died_inv:
  assumes inv: "stage_inv env st" and a: "find_actor pid st = Some a" "an_stage a = Playing"
  shows "\<exists>st'. commandActorCollected_remove a code status st = Inr st' \<and> stage_inv env st'"
proof -
  obtain ys zs where ys: "sd_actors st = ys @ a # zs" "an_pid a = pid" using find_actor_split [OF a(1)] .
  let ?rs = "cx_runningSet (sd_ctx st)"
  have m: "mset ?rs = add_mset (an_logId a) (mset (map an_logId (filter playing (ys @ zs))))"
    using stage_invD(5) [OF inv] a(2) by (simp add: ys(1))
  then have mem: "an_logId a \<in> set ?rs" by (metis set_mset_mset union_single_eq_member)
  let ?cx = "(sd_ctx st)\<lparr>cx_runningSet := remove1 (an_logId a) ?rs\<rparr>"
  let ?f = "\<lambda>a. a\<lparr>an_logArg := siginfo_logArg code status (an_logArg a), an_stage := Removed\<rparr>"
  let ?st = "upd_actor (an_pid a) ?f (st\<lparr>sd_ctx := ?cx\<rparr>)"
  have run: "commandActorCollected_remove a code status st = Inr ?st"
    using mem by (simp add: commandActorCollected_remove_def ctx_remove_def)
  have act: "sd_actors ?st = ys @ ?f a # zs"
    by (rule upd_actor_split) (use ys stage_invD(3) [OF inv] in simp_all)
  have m': "mset (remove1 (an_logId a) ?rs) = mset (map an_logId (filter playing (ys @ zs)))" unfolding mset_remove1 m by simp
  have wait: "an_waitCmd a = None" by (rule no_wait [OF inv]) (simp_all add: ys(1) a(2))
  have "mset (held_logs st) = add_mset (an_logId a) (mset (held_logs ?st))" "log_ids ?st = log_ids st"
    using a(2) by (simp_all add: held_logs_def log_ids_def act ys(1) wait)
  then have held: "distinct (held_logs ?st)" "set (held_logs ?st) \<subseteq> set (held_logs st)" and ids: "log_ids ?st = log_ids st"
    using stage_invD(8) [OF inv] mset_eq_imp_distinct_iff [of "held_logs st" "an_logId a # held_logs ?st"]
    by (auto simp flip: set_mset_mset)
  have num: "numOnstage ?cx \<le> se_limit env" using stage_invD(6) [OF inv] by (auto simp: numOnstage_def length_remove1)
  have "stage_inv env ?st"
    unfolding stage_inv_def ids act
    using stage_invD(1-4,7,9,10) [OF inv] held m' num wait ys(1)
    by (auto simp: std_set_wf_remove1 simp del: remove1_append)
  with run show ?thesis by blast
qed

lemma next_inv:
  assumes inv: "stage_inv env st" and a: "find_actor pid st = Some a" "an_stage a = Removed"
  shows "stage_inv env (commandActorCollected_next env a st)"
proof -
  obtain ys zs where ys: "sd_actors st = ys @ a # zs" "an_pid a = pid" using find_actor_split [OF a(1)] .
  have wait: "an_waitCmd a = None" by (rule no_wait [OF inv]) (simp_all add: ys(1) a(2))
  have upd: "sd_actors (upd_actor (an_pid a) f (st\<lparr>sd_ctx := cx\<rparr>)) = ys @ f a # zs" for f cx
    by (rule upd_actor_split) (use ys stage_invD(3) [OF inv] in simp_all)
  have upd0: "sd_actors (upd_actor (an_pid a) f st) = ys @ f a # zs" for f
    by (rule upd_actor_split) (use ys stage_invD(3) [OF inv] in simp_all)
  have idle: "stage_inv env (upd_actor (an_pid a) (\<lambda>a. a\<lparr>an_stage := Collected\<rparr>) st)" (is "stage_inv env ?st")
  proof -
    have "held_logs ?st = held_logs st" "log_ids ?st = log_ids st"
      using a(2) by (simp_all add: held_logs_def log_ids_def upd0 ys(1))
    then show ?thesis using inv a(2) wait unfolding stage_inv_def by (auto simp: upd0 ys(1))
  qed
  show ?thesis
  proof (cases "cx_waitingList (sd_ctx st) = [] \<or> isFullHouse (se_limit env) (sd_ctx st)")
    case True
    then show ?thesis using idle by (auto simp: commandActorCollected_next_def Let_def split: list.splits)
  next
    case False
    obtain w ws where ws: "cx_waitingList (sd_ctx st) = w # ws" using False by (cases "cx_waitingList (sd_ctx st)") auto
    obtain rsv cx where r: "reserveAndInsert (sd_ctx st) = (rsv, cx)" by fastforce
    note eff = reserve_effect [OF inv _ r]
    let ?f = "\<lambda>a. a\<lparr>an_stage := Collected, an_waitCmd := Some (w\<lparr>wi_reservationId := rsv\<rparr>)\<rparr>"
    let ?cx = "cx\<lparr>cx_waitingList := ws\<rparr>"
    let ?st = "upd_actor (an_pid a) ?f (st\<lparr>sd_ctx := ?cx\<rparr>)"
    have eq: "commandActorCollected_next env a st = ?st"
      using False ws r by (simp add: commandActorCollected_next_def Let_def)
    have full: "\<not> isFullHouse (se_limit env) (sd_ctx st)" using False by simp
    have "mset (held_logs ?st) = mset (held_logs st)" "log_ids ?st = log_ids st"
      using a(2) by (simp_all add: held_logs_def log_ids_def upd ys(1) ws wait)
    then have held: "distinct (held_logs ?st)" "set (held_logs ?st) = set (held_logs st)" and ids: "log_ids ?st = log_ids st"
      using stage_invD(8) [OF inv] mset_eq_imp_distinct_iff by (blast, metis set_mset_mset, blast)
    have num: "numOnstage ?cx \<le> se_limit env" using eff(5) [OF full] by (simp add: numOnstage_def)
    have "stage_inv env ?st"
      unfolding stage_inv_def ids held(2)
      using stage_invD(2-5,7,9,10) [OF inv] held(1) eff(2-4) [OF full] num a(2)
      by (auto simp: upd ys(1) wait)
    then show ?thesis by (simp only: eq)
  qed
qed

lemma finalize_inv:
  assumes inv: "stage_inv env st" and a: "find_actor pid st = Some a" "an_stage a = Collected"
  shows "stage_inv env (postCollectedProc env a st)"
proof -
  obtain ys zs where ys: "sd_actors st = ys @ a # zs" "an_pid a = pid" using find_actor_split [OF a(1)] .
  let ?st = "postCollectedProc env a st"
  note eff = finalize_effect [OF stage_invD(3) [OF inv] ys(1), of env]
  have "mset (held_logs ?st) = mset (held_logs st)"
    using a(2) by (auto simp: held_logs_def eff ys(1) split: option.splits)
  then have held: "distinct (held_logs ?st)" "set (held_logs ?st) = set (held_logs st)"
    using stage_invD(8) [OF inv] mset_eq_imp_distinct_iff by (blast, metis set_mset_mset)
  show ?thesis
    unfolding stage_inv_def eff(4) held(2)
    using stage_invD(1-7,9,10) [OF inv] held(1) a(2)
    by (auto simp: eff ys(1) split: option.splits)
qed

lemma cleanup_inv:
  assumes inv: "stage_inv env st" and a: "find_actor pid st = Some a" "an_stage a = Logged"
  shows "\<exists>st'. cleanupChildInfo pid st = Inr st' \<and> stage_inv env st'"
proof -
  obtain ys zs where ys: "sd_actors st = ys @ a # zs" "an_pid a = pid" using find_actor_split [OF a(1)] .
  have wait: "an_waitCmd a = None" by (rule no_wait [OF inv]) (simp_all add: ys(1) a(2))
  let ?st = "st\<lparr>sd_actors := ys @ zs\<rparr>"
  note run = cleanup_effect [OF stage_invD(3) [OF inv] ys(1)]
  have "held_logs ?st = held_logs st" "log_ids ?st = log_ids st"
    using a(2) by (simp_all add: held_logs_def log_ids_def ys(1) wait)
  then have "stage_inv env ?st" using inv a(2) wait unfolding stage_inv_def by (auto simp: ys(1))
  with run ys(2) show ?thesis by blast
qed

lemma in_stageE:
  assumes "in_stage s pid st" obtains a where "find_actor pid st = Some a" "an_stage a = s"
  using assms by (auto simp: in_stage_def split: option.splits)

lemma sched_do_inv:
  assumes "stage_inv env st" "user_engine_ok (ae_engine (se_action env))" "sched_enabled env op st"
  shows "\<exists>st'. sched_do env op st = Inr st' \<and> stage_inv env st'"
proof (cases op)
  case (OpExec d ev)
  with assms show ?thesis using exec_inv [of env st d ev] by simp
next
  case (OpSpawn j answer)
  with assms show ?thesis using spawn_inv [of env st j answer] by simp
next
  case (OpTimeout pid)
  with assms show ?thesis using timeout_inv [OF assms(1)] by (auto simp: with_actor_def split: option.splits)
next
  case (OpDied pid code status)
  with assms(3) obtain a where "find_actor pid st = Some a" "an_stage a = Playing" by (auto elim: in_stageE)
  then show ?thesis using died_inv [OF assms(1)] by (simp add: OpDied with_actor_def)
next
  case (OpNext pid)
  with assms(3) obtain a where "find_actor pid st = Some a" "an_stage a = Removed" by (auto elim: in_stageE)
  then show ?thesis using next_inv [OF assms(1)] by (simp add: OpNext with_actor_def)
next
  case (OpFinalize pid)
  with assms(3) obtain a where "find_actor pid st = Some a" "an_stage a = Collected" by (auto elim: in_stageE)
  then show ?thesis using finalize_inv [OF assms(1)] by (simp add: OpFinalize with_actor_def)
next
  case (OpCleanup pid)
  with assms(3) obtain a where "find_actor pid st = Some a" "an_stage a = Logged" by (auto elim: in_stageE)
  then show ?thesis using cleanup_inv [OF assms(1)] by (simp add: OpCleanup)
qed

lemma sched_reach_inv:
  assumes "sched_reach allowed env st" "user_engine_ok (ae_engine (se_action env))"
  shows "stage_inv env st"
  using assms(1)
proof induction
  case (start db)
  then show ?case by (simp add: stage_inv_def sched_start_def held_logs_def log_ids_def numOnstage_def)
next
  case (step st op st')
  then show ?case using sched_do_inv [OF step.IH assms(2) step.hyps(3)] by auto
qed

section \<open>Room on stage is not left unused\<close>

definition num_removed :: "sched \<Rightarrow> nat" where
  "num_removed st = length (filter (\<lambda>a. an_stage a = Removed) (sd_actors st))"

definition served :: "sched_env \<Rightarrow> sched \<Rightarrow> bool" where
  "served env st \<longleftrightarrow> cx_waitingList (sd_ctx st) = [] \<or> se_limit env \<le> numOnstage (sd_ctx st) + num_removed st"

fun no_failure :: "sched_op \<Rightarrow> bool" where
  "no_failure (OpSpawn j (SpawnError noent)) \<longleftrightarrow> False"
| "no_failure _ \<longleftrightarrow> True"

lemma exec_served:
  assumes "stage_inv env st" "served env st" "execCommandAction env d ev st = Inr st'"
  shows "served env st'"
proof (cases "isFullHouse (se_limit env) (sd_ctx st)")
  case True
  then show ?thesis using assms(3)
    by (auto simp: execCommandAction_def ctx_reserve_def insertToWaitingCommandActionList_def Let_def served_def
        numOnstage_def isFullHouse_def split: if_splits prod.splits)
next
  case False
  obtain rsv cx where r: "reserveAndInsert (sd_ctx st) = (rsv, cx)" by fastforce
  note eff = reserve_effect [OF assms(1) False r]
  show ?thesis using assms(2,3) False r eff(1,6)
    by (auto simp: execCommandAction_def ctx_reserve_def Let_def served_def num_removed_def split: if_splits)
qed

lemma numOnstage_add:
  assumes "stage_inv env st" "ctx_add rsv i (sd_ctx st) = Inr cx"
  shows "numOnstage cx = numOnstage (sd_ctx st)" "cx_waitingList cx = cx_waitingList (sd_ctx st)"
proof -
  have rsv: "rsv \<in> set (cx_reservedSet (sd_ctx st))" and i: "i \<notin> set (cx_runningSet (sd_ctx st))"
    and cx: "cx = (sd_ctx st)\<lparr>cx_reservedSet := remove1 rsv (cx_reservedSet (sd_ctx st)),
      cx_runningSet := std_set_insert i (cx_runningSet (sd_ctx st))\<rparr>"
    using assms(2) by (auto simp: ctx_add_def removeReservationId_def bindR_def split: if_splits)
  show "cx_waitingList cx = cx_waitingList (sd_ctx st)" by (simp add: cx)
  have "length (std_set_insert i (cx_runningSet (sd_ctx st))) = Suc (length (cx_runningSet (sd_ctx st)))"
    using arg_cong [OF mset_std_set_insert [OF stage_invD(2) [OF assms(1)] i], of size] by simp
  then show "numOnstage cx = numOnstage (sd_ctx st)"
    using length_pos_if_in_set [OF rsv] rsv by (simp add: cx numOnstage_def length_remove1)
qed

lemma spawn_served:
  assumes "stage_inv env st" "served env st" "execCommandActionCore env j (SpawnOk pid) st = Inr st'"
  shows "served env st'"
proof -
  obtain i db where s: "successCb env (sd_db st) (sj_def j) (sj_event j) (sj_waitCmd j) = (i, db)" by fastforce
  then obtain cx where cx: "ctx_add (sj_reservationId j) i (sd_ctx st) = Inr cx"
    using assms(3) by (auto simp: execCommandActionCore_def Let_def bindR_def split: sum.splits)
  show ?thesis using assms(2,3) s cx numOnstage_add [OF assms(1) cx]
    by (auto simp: execCommandActionCore_def Let_def served_def num_removed_def addActor_def split: if_splits)
qed

lemma num_removed_split:
  assumes "sd_actors st = ys @ a # zs"
  shows "num_removed st = length (filter (\<lambda>a. an_stage a = Removed) (ys @ zs)) + (if an_stage a = Removed then 1 else 0)"
  using assms by (simp add: num_removed_def)

lemma died_served:
  assumes inv: "stage_inv env st" and sv: "served env st" and a: "find_actor pid st = Some a" "an_stage a = Playing"
    and r: "commandActorCollected_remove a code status st = Inr st'"
  shows "served env st'"
proof -
  obtain ys zs where ys: "sd_actors st = ys @ a # zs" "an_pid a = pid" using find_actor_split [OF a(1)] .
  let ?f = "\<lambda>a. a\<lparr>an_logArg := siginfo_logArg code status (an_logArg a), an_stage := Removed\<rparr>"
  obtain cx where cx: "ctx_remove (an_logId a) (sd_ctx st) = Inr cx" and st': "st' = upd_actor (an_pid a) ?f (st\<lparr>sd_ctx := cx\<rparr>)"
    using r by (auto simp: commandActorCollected_remove_def bindR_def split: sum.splits)
  have act: "sd_actors st' = ys @ ?f a # zs"
    unfolding st' by (rule upd_actor_split) (use ys stage_invD(3) [OF inv] in simp_all)
  have "cx_waitingList cx = cx_waitingList (sd_ctx st)" "Suc (numOnstage cx) = numOnstage (sd_ctx st)"
    using cx length_pos_if_in_set [of "an_logId a"]
    by (auto simp: ctx_remove_def numOnstage_def length_remove1 split: if_splits)
  then show ?thesis
    using sv num_removed_split [OF ys(1)] num_removed_split [OF act] a(2) by (auto simp: served_def st')
qed

lemma next_served:
  assumes inv: "stage_inv env st" and sv: "served env st" and a: "find_actor pid st = Some a" "an_stage a = Removed"
  shows "served env (commandActorCollected_next env a st)"
proof -
  obtain ys zs where ys: "sd_actors st = ys @ a # zs" "an_pid a = pid" using find_actor_split [OF a(1)] .
  show ?thesis
  proof (cases "cx_waitingList (sd_ctx st) = [] \<or> isFullHouse (se_limit env) (sd_ctx st)")
    case True
    then show ?thesis
      by (auto simp: commandActorCollected_next_def Let_def served_def isFullHouse_def split: list.splits)
  next
    case False
    obtain w ws where ws: "cx_waitingList (sd_ctx st) = w # ws" using False by (cases "cx_waitingList (sd_ctx st)") auto
    obtain rsv cx where r: "reserveAndInsert (sd_ctx st) = (rsv, cx)" by fastforce
    have full: "\<not> isFullHouse (se_limit env) (sd_ctx st)" using False by simp
    note eff = reserve_effect [OF inv full r]
    let ?f = "\<lambda>a. a\<lparr>an_stage := Collected, an_waitCmd := Some (w\<lparr>wi_reservationId := rsv\<rparr>)\<rparr>"
    let ?st = "upd_actor (an_pid a) ?f (st\<lparr>sd_ctx := cx\<lparr>cx_waitingList := ws\<rparr>\<rparr>)"
    have eq: "commandActorCollected_next env a st = ?st"
      using False ws r by (simp add: commandActorCollected_next_def Let_def)
    have act: "sd_actors ?st = ys @ ?f a # zs"
      by (rule upd_actor_split) (use ys stage_invD(3) [OF inv] in simp_all)
    show ?thesis
      using sv num_removed_split [OF ys(1)] num_removed_split [OF act] a(2) ws eff(6)
      by (auto simp: served_def eq numOnstage_def)
  qed
qed

lemma sched_do_served:
  assumes inv: "stage_inv env st" and sv: "served env st" and ok: "no_failure op"
    and en: "sched_enabled env op st" and run: "sched_do env op st = Inr st'"
  shows "served env st'"
proof -
  note dis = stage_invD(3) [OF inv]
  show ?thesis
  proof (cases op)
    case (OpExec d ev)
    with assms exec_served show ?thesis by simp
  next
    case (OpSpawn j answer)
    with assms spawn_served show ?thesis by (cases answer) auto
  next
    case (OpTimeout pid)
    then obtain a where a: "find_actor pid st = Some a" and st': "st' = commandActionTimeoutCb env a st"
      using en run by (auto simp: with_actor_def split: option.splits)
    obtain ys zs where ys: "sd_actors st = ys @ a # zs" "an_pid a = pid" using find_actor_split [OF a] .
    show ?thesis
      using sv num_removed_split [OF ys(1)] num_removed_split [OF timeout_effect(1) [OF dis ys(1)]]
      by (simp add: served_def st' timeout_effect(2) [OF dis ys(1)])
  next
    case (OpDied pid code status)
    then obtain a where "find_actor pid st = Some a" "an_stage a = Playing" "commandActorCollected_remove a code status st = Inr st'"
      using en run by (auto simp: with_actor_def elim!: in_stageE)
    then show ?thesis by (rule died_served [OF inv sv])
  next
    case (OpNext pid)
    then obtain a where "find_actor pid st = Some a" "an_stage a = Removed" "st' = commandActorCollected_next env a st"
      using en run by (auto simp: with_actor_def elim!: in_stageE)
    then show ?thesis using next_served [OF inv sv] by blast
  next
    case (OpFinalize pid)
    then obtain a where a: "find_actor pid st = Some a" "an_stage a = Collected" and st': "st' = postCollectedProc env a st"
      using en run by (auto simp: with_actor_def elim!: in_stageE)
    obtain ys zs where ys: "sd_actors st = ys @ a # zs" "an_pid a = pid" using find_actor_split [OF a(1)] .
    show ?thesis
      using sv num_removed_split [OF ys(1)] num_removed_split [OF finalize_effect(1) [OF dis ys(1)]] a(2)
      by (simp add: served_def st' finalize_effect(2) [OF dis ys(1)])
  next
    case (OpCleanup pid)
    then obtain a where a: "find_actor pid st = Some a" "an_stage a = Logged"
      using en by (auto elim!: in_stageE)
    obtain ys zs where ys: "sd_actors st = ys @ a # zs" "an_pid a = pid" using find_actor_split [OF a(1)] .
    have "st' = st\<lparr>sd_actors := ys @ zs\<rparr>" using run OpCleanup cleanup_effect [OF dis ys(1)] ys(2) by simp
    then show ?thesis using sv num_removed_split [OF ys(1)] a(2) by (simp add: served_def num_removed_def)
  qed
qed

lemma sched_reach_served:
  assumes "sched_reach no_failure env st" "user_engine_ok (ae_engine (se_action env))"
  shows "served env st"
  using assms(1)
proof induction
  case (start db)
  then show ?case by (simp add: served_def sched_start_def)
next
  case (step st op st')
  then show ?case using sched_do_served [OF sched_reach_inv [OF step.hyps(1) assms(2)]] by blast
qed

section \<open>Properties\<close>

text \<open>The state after a list of steps, if each of them can happen.\<close>

fun sched_run :: "sched_env \<Rightarrow> sched_op list \<Rightarrow> sched \<Rightarrow> sched option" where
  "sched_run env [] st = Some st"
| "sched_run env (op # ops) st =
     (if sched_enabled env op st then case sched_do env op st of Inl _ \<Rightarrow> None | Inr st \<Rightarrow> sched_run env ops st else None)"

lemma sched_run_reach:
  "sched_reach allowed env st \<Longrightarrow> list_all allowed ops \<Longrightarrow> sched_run env ops st = Some st' \<Longrightarrow> sched_reach allowed env st'"
  by (induction ops arbitrary: st) (auto split: if_splits sum.splits intro: sched_reach.step)

definition ex_sched_env :: sched_env where
  "ex_sched_env = \<lparr>se_action = ex_action_env, se_limit = 1, se_commandDir = ''/opt''\<rparr>"

lemma ex_sched_engine: "user_engine_ok (ae_engine (se_action ex_sched_env))"
  by (simp add: ex_sched_env_def ex_action_env_def std_user.user_engine_ok_axioms)

definition ex_job :: spawn_job where
  "ex_job = \<lparr>sj_reservationId = 0, sj_def = ex_command, sj_event = ex_event,
     sj_argVect = commandArgs ex_sched_env ex_command ex_event, sj_waitCmd = None, sj_for = None\<rparr>"

text \<open>A limit of one action: the first is to be spawned, the second waits.\<close>

definition ex_run :: "spawn_answer \<Rightarrow> sched option" where
  "ex_run answer =
     sched_run ex_sched_env [OpExec ex_command ex_event, OpExec ex_command ex_event, OpSpawn ex_job answer] (sched_start ex_empty_adb)"

lemma ex_run_reach:
  "ex_run answer = Some st \<Longrightarrow> allowed (OpExec ex_command ex_event) \<Longrightarrow> allowed (OpSpawn ex_job answer) \<Longrightarrow>
     sched_reach allowed ex_sched_env st"
  unfolding ex_run_def by (erule sched_run_reach [OF sched_reach.start, rotated 2]) (simp_all add: ex_empty_adb_def)

lemma ex_run_ok:
  obtains st where "ex_run (SpawnOk 40) = Some st" "map wi_logId (cx_waitingList (sd_ctx st)) = [1]"
    "map an_stage (sd_actors st) = [Playing]" "sched_enabled ex_sched_env (OpDied 40 CLD_EXITED 0) st" "sd_jobs st = []"
proof -
  have "case ex_run (SpawnOk 40) of None \<Rightarrow> False | Some st \<Rightarrow> map wi_logId (cx_waitingList (sd_ctx st)) = [1]
    \<and> map an_stage (sd_actors st) = [Playing] \<and> sched_enabled ex_sched_env (OpDied 40 CLD_EXITED 0) st \<and> map sj_for (sd_jobs st) = []"
    by code_simp
  then show ?thesis using that by (auto split: option.splits)
qed

text \<open>
  C21. Under every interleaving of the threads that start, time out and collect command actions, and
  whatever the system answers to the spawns, no more processes run than the configuration allows, the
  running set is the set of the logs of these processes, and no assertion of the code fails in the next
  step. A new process does not get an identifier that is still in the map of processes.
\<close>

theorem command_actions_bounded:
  assumes "user_engine_ok (ae_engine (se_action env))" and "sched_reach (\<lambda>_. True) env st"
    and "sched_enabled env op st"
  shows "numOnstage (sd_ctx st) \<le> se_limit env
    \<and> length (filter playing (sd_actors st)) \<le> se_limit env
    \<and> set (cx_runningSet (sd_ctx st)) = an_logId ` {a \<in> set (sd_actors st). an_stage a = Playing}
    \<and> (\<exists>st'. sched_do env op st = Inr st')"
proof -
  note inv = sched_reach_inv [OF assms(2,1)]
  note m = stage_invD(5) [OF inv]
  have "length (filter playing (sd_actors st)) = length (cx_runningSet (sd_ctx st))"
    using arg_cong [OF m, of size] by (simp flip: mset_filter)
  moreover have "set (cx_runningSet (sd_ctx st)) = an_logId ` {a \<in> set (sd_actors st). an_stage a = Playing}"
    using arg_cong [OF m, of set_mset] by simp
  moreover note stage_invD(6) [OF inv] sched_do_inv [OF inv assms(1,3)]
  ultimately show ?thesis by (auto simp: numOnstage_def)
qed

theorem command_actions_bounded_witness:
  "\<exists>st. ex_run (SpawnOk 40) = Some st \<and> length (filter playing (sd_actors st)) \<le> 1
     \<and> (\<exists>st'. sched_do ex_sched_env (OpDied 40 CLD_EXITED 0) st = Inr st')"
proof -
  obtain st where st: "ex_run (SpawnOk 40) = Some st" "sched_enabled ex_sched_env (OpDied 40 CLD_EXITED 0) st"
    by (rule ex_run_ok)
  show ?thesis
    using command_actions_bounded [OF ex_sched_engine ex_run_reach [OF st(1)] st(2)] st(1) by (simp add: ex_sched_env_def)
qed

text \<open>
  C22. As long as no spawn fails, an action waits only while the stage is full, up to the collected
  processes whose callback has not yet looked at the queue; with a limit above zero, something is then
  still under way that will look at it.
\<close>

theorem waiting_actions_served:
  assumes "user_engine_ok (ae_engine (se_action env))" and "sched_reach no_failure env st"
    and "cx_waitingList (sd_ctx st) \<noteq> []" and "0 < se_limit env"
  shows "se_limit env \<le> numOnstage (sd_ctx st) + num_removed st
    \<and> (sd_jobs st \<noteq> [] \<or> (\<exists>a \<in> set (sd_actors st). an_stage a \<noteq> Logged))"
proof -
  note inv = sched_reach_inv [OF assms(2,1)]
  have le: "se_limit env \<le> numOnstage (sd_ctx st) + num_removed st"
    using sched_reach_served [OF assms(2,1)] assms(3) by (simp add: served_def)
  have "sd_jobs st \<noteq> []" if logged: "\<forall>a \<in> set (sd_actors st). an_stage a = Logged"
  proof -
    have none: "filter playing (sd_actors st) = []" "num_removed st = 0"
      using logged by (auto simp: num_removed_def filter_empty_conv)
    have "waits_of an_waitCmd xs = []" if "\<forall>a \<in> set xs. an_waitCmd a = None" for xs
      using that by (induction xs) auto
    then have "waits_of an_waitCmd (sd_actors st) = []" using logged no_wait [OF inv] by force
    then have "length (cx_runningSet (sd_ctx st)) = 0" "length (cx_reservedSet (sd_ctx st)) = length (sd_jobs st)"
      using arg_cong [OF stage_invD(5) [OF inv], of size] arg_cong [OF stage_invD(4) [OF inv], of size] none(1) by simp_all
    then show ?thesis using le assms(4) none(2) by (auto simp: numOnstage_def)
  qed
  with le show ?thesis by blast
qed

theorem waiting_actions_served_witness:
  "\<exists>st. ex_run (SpawnOk 40) = Some st \<and> cx_waitingList (sd_ctx st) \<noteq> [] \<and> 1 \<le> numOnstage (sd_ctx st) + num_removed st"
proof -
  obtain st where st: "ex_run (SpawnOk 40) = Some st" "map wi_logId (cx_waitingList (sd_ctx st)) = [1]"
    by (rule ex_run_ok)
  have "sched_reach no_failure ex_sched_env st" by (rule ex_run_reach [OF st(1)]) simp_all
  then show ?thesis
    using waiting_actions_served [OF ex_sched_engine, of st] st by (auto simp: ex_sched_env_def)
qed

text \<open>
  When a spawn fails, the reservation is cancelled and nobody looks at the queue: an action is left
  waiting with nothing on stage and nothing under way.
\<close>

lemma spawn_failure_strands_waiting:
  "\<exists>st. sched_reach (\<lambda>_. True) ex_sched_env st \<and> cx_waitingList (sd_ctx st) \<noteq> []
     \<and> numOnstage (sd_ctx st) = 0 \<and> sd_jobs st = [] \<and> sd_actors st = []"
proof -
  have "case ex_run (SpawnError True) of None \<Rightarrow> False | Some st \<Rightarrow> map wi_logId (cx_waitingList (sd_ctx st)) = [1]
      \<and> numOnstage (sd_ctx st) = 0 \<and> map sj_for (sd_jobs st) = [] \<and> map an_pid (sd_actors st) = []"
    by code_simp
  then obtain st where "ex_run (SpawnError True) = Some st" "map wi_logId (cx_waitingList (sd_ctx st)) = [1]"
    "numOnstage (sd_ctx st) = 0" "sd_jobs st = []" "sd_actors st = []"
    by (auto split: option.splits)
  then show ?thesis using ex_run_reach by fastforce
qed

end
