(* ===== verification/Db_Upsert.thy ===== *)
theory Db_Upsert
  imports User_Props
begin

text \<open>
  Insertions that update a row when a key is present (\<open>upsertOnDuplicate\<close>), as
  src/server/src/DBAgentSQLite3.cc and src/server/src/DBAgentMySQL.cc carry them out. The two agree
  when the row has an automatic identifier or the identifier of the row that its unique key names; they
  differ when a row with an identifier of its own hits another row by the unique key. The locale
  \<open>keyed_table\<close> states what a description of keys promises; every table of the server interprets it.
\<close>

section \<open>Insertion with update on duplicate keys\<close>

text \<open>
  A table is given by the primary key and its setter, and by the unique key if it has one. The result
  is the new rows and whether a row was updated.
\<close>

record ('r, 'k) table_keys =
  tk_id :: "'r \<Rightarrow> int"
  tk_setId :: "int \<Rightarrow> 'r \<Rightarrow> 'r"
  tk_unique :: "('r \<Rightarrow> 'k) option"

definition keys_unique :: "('r, 'k) table_keys \<Rightarrow> 'r list \<Rightarrow> bool" where
  "keys_unique tk rows \<longleftrightarrow>
     distinct (map (tk_id tk) rows) \<and> (case tk_unique tk of None \<Rightarrow> True | Some k \<Rightarrow> distinct (map k rows))"

definition id_hit :: "('r, 'k) table_keys \<Rightarrow> 'r \<Rightarrow> 'r \<Rightarrow> bool" where
  "id_hit tk new r \<longleftrightarrow> tk_id tk new \<noteq> AUTO_INCREMENT_VALUE \<and> tk_id tk r = tk_id tk new"

definition unique_hit :: "('r, 'k) table_keys \<Rightarrow> 'r \<Rightarrow> 'r \<Rightarrow> bool" where
  "unique_hit tk new r \<longleftrightarrow> (case tk_unique tk of None \<Rightarrow> False | Some k \<Rightarrow> k r = k new)"

definition insert_row :: "user_engine \<Rightarrow> ('r, 'k) table_keys \<Rightarrow> 'r \<Rightarrow> 'r list \<Rightarrow> 'r list" where
  "insert_row e tk new rows =
     rows @ [if tk_id tk new = AUTO_INCREMENT_VALUE then tk_setId tk (en_nextId e (map (tk_id tk) rows)) new else new]"

text \<open>
  \<open>DBAgentSQLite3\<close>: the insertion fails, then the row of the primary key, or of the unique key when
  the primary key is automatic, is updated. An update of no row is not an error.
\<close>

definition sqlite_upsert :: "user_engine \<Rightarrow> ('r, 'k) table_keys \<Rightarrow> 'r \<Rightarrow> 'r list \<Rightarrow> ('r list \<times> bool) res" where
  "sqlite_upsert e tk new rows =
     (if \<exists>r \<in> set rows. id_hit tk new r \<or> unique_hit tk new r then
        let auto = (tk_id tk new = AUTO_INCREMENT_VALUE);
            rows' = map (\<lambda>r. if auto \<and> unique_hit tk new r then tk_setId tk (tk_id tk r) new
                             else if id_hit tk new r then new else r) rows
        in if keys_unique tk rows' then Inr (rows', True) else Inl HatoholException
      else Inr (insert_row e tk new rows, False))"

text \<open>
  \<open>DBAgentMySQL\<close>: \<open>ON DUPLICATE KEY UPDATE\<close> changes the row of the primary key, else that of the unique
  key, and never the primary key. It counts as an update only when a value changes.
\<close>

definition mysql_upsert :: "user_engine \<Rightarrow> ('r, 'k) table_keys \<Rightarrow> 'r \<Rightarrow> 'r list \<Rightarrow> ('r list \<times> bool) res" where
  "mysql_upsert e tk new rows =
     (case (case find (id_hit tk new) rows of Some r \<Rightarrow> Some r | None \<Rightarrow> find (unique_hit tk new) rows) of
        None \<Rightarrow> Inr (insert_row e tk new rows, False)
      | Some t \<Rightarrow>
          (let new' = tk_setId tk (tk_id tk t) new;
               rows' = map (\<lambda>r. if tk_id tk r = tk_id tk t then new' else r) rows
           in if keys_unique tk rows' then Inr (rows', rows' \<noteq> rows) else Inl HatoholException))"

definition agent_upsert :: "agent_kind \<Rightarrow> user_engine \<Rightarrow> ('r, 'k) table_keys \<Rightarrow> 'r \<Rightarrow> 'r list \<Rightarrow> ('r list \<times> bool) res" where
  "agent_upsert ag e tk new rows =
     (case ag of
        AgentSQLite3 \<Rightarrow> sqlite_upsert e tk new rows
      | AgentMySQL \<Rightarrow> mysql_upsert e tk new rows)"

section \<open>What both agents do\<close>

locale keyed_table =
  fixes tk :: "('r, 'k) table_keys" and key :: "'r \<Rightarrow> 'k"
  assumes id_setId [simp]: "tk_id tk (tk_setId tk i r) = i"
    and setId_id [simp]: "tk_setId tk (tk_id tk r) r = r"
    and setId_setId [simp]: "tk_setId tk i (tk_setId tk j r) = tk_setId tk i r"
    and unique_key: "tk_unique tk = Some key"
    and key_setId [simp]: "key (tk_setId tk i r) = key r"
begin

definition wf_rows :: "'r list \<Rightarrow> bool" where
  "wf_rows rows \<longleftrightarrow> distinct (map (tk_id tk) rows) \<and> distinct (map key rows) \<and> (\<forall>r \<in> set rows. tk_id tk r \<noteq> 0)"

definition lookup :: "'r list \<Rightarrow> 'k \<Rightarrow> 'r option" where
  "lookup rows k = find (\<lambda>r. key r = k) rows"

lemma keys_unique_iff: "keys_unique tk rows \<longleftrightarrow> distinct (map (tk_id tk) rows) \<and> distinct (map key rows)"
  by (simp add: keys_unique_def unique_key)

lemma unique_hit_iff: "unique_hit tk new r \<longleftrightarrow> key r = key new"
  by (simp add: unique_hit_def unique_key)

lemma lookup_None: "lookup rows k = None \<longleftrightarrow> k \<notin> key ` set rows"
  by (auto simp: lookup_def find_None_iff)

lemma lookup_Some: "wf_rows rows \<Longrightarrow> lookup rows k = Some r \<longleftrightarrow> r \<in> set rows \<and> key r = k"
proof
  show "lookup rows k = Some r \<Longrightarrow> r \<in> set rows \<and> key r = k"
    by (auto simp: lookup_def find_Some_iff)
  assume "wf_rows rows" "r \<in> set rows \<and> key r = k"
  then show "lookup rows k = Some r"
    by (induction rows) (auto simp: lookup_def wf_rows_def image_iff)
qed

lemma replace_row:
  assumes "wf_rows rows" "r \<in> set rows" "tk_id tk new = tk_id tk r" "key new = key r"
  defines "rows' \<equiv> map (\<lambda>s. if tk_id tk s = tk_id tk r then new else s) rows"
  shows "wf_rows rows'" "lookup rows' = (lookup rows)(key r := Some new)"
    "set rows' = insert new (set rows - {r})"
proof -
  have one: "s = r" if "s \<in> set rows" "tk_id tk s = tk_id tk r" for s
    using assms(1,2) that by (metis distinct_map inj_on_def wf_rows_def)
  have ids: "map (tk_id tk) rows' = map (tk_id tk) rows" unfolding rows'_def using assms(3) by auto
  have keys: "map key rows' = map key rows" unfolding rows'_def using assms(4) one by auto
  show wf: "wf_rows rows'"
    using assms(1) unfolding wf_rows_def ids keys by (metis image_set ids image_iff)
  show st: "set rows' = insert new (set rows - {r})" unfolding rows'_def using one assms(2) by (auto simp: image_iff)
  show "lookup rows' = (lookup rows)(key r := Some new)"
  proof
    fix k
    have "lookup rows' k = Some s \<longleftrightarrow> ((lookup rows)(key r := Some new)) k = Some s" for s
      using assms(1,2,4) one unfolding lookup_Some [OF wf] st fun_upd_apply lookup_Some [OF assms(1)]
      by (auto simp: lookup_Some) (metis distinct_map inj_on_def wf_rows_def)
    then show "lookup rows' k = ((lookup rows)(key r := Some new)) k" by (metis option.exhaust)
  qed
qed

lemma insert_wf:
  assumes "wf_rows rows" "tk_id tk new \<noteq> 0" "tk_id tk new \<notin> tk_id tk ` set rows" "key new \<notin> key ` set rows"
  shows "wf_rows (rows @ [new])" "lookup (rows @ [new]) = (lookup rows)(key new := Some new)"
proof -
  show wf: "wf_rows (rows @ [new])" using assms by (auto simp: wf_rows_def)
  show "lookup (rows @ [new]) = (lookup rows)(key new := Some new)"
  proof
    fix k
    have "lookup (rows @ [new]) k = Some s \<longleftrightarrow> ((lookup rows)(key new := Some new)) k = Some s" for s
      using assms(4) unfolding lookup_Some [OF wf] fun_upd_apply by (auto simp: lookup_Some [OF assms(1)] image_iff)
    then show "lookup (rows @ [new]) k = ((lookup rows)(key new := Some new)) k" by (metis option.exhaust)
  qed
qed

text \<open>A row with an automatic identifier replaces the row of its key, keeping the identifier, or is added.\<close>

lemma upsert_auto:
  assumes "user_engine_ok e" "wf_rows rows" "tk_id tk new = 0"
  obtains rows' b i where "agent_upsert ag e tk new rows = Inr (rows', b)" "wf_rows rows'"
    "lookup rows' = (lookup rows)(key new := Some (tk_setId tk i new))"
    "set rows' = insert (tk_setId tk i new) {r \<in> set rows. key r \<noteq> key new}"
    "i = (case lookup rows (key new) of Some r \<Rightarrow> tk_id tk r | None \<Rightarrow> en_nextId e (map (tk_id tk) rows))"
    "lookup rows (key new) = None \<longrightarrow> \<not> b"
proof (cases "lookup rows (key new)")
  case None
  let ?i = "en_nextId e (map (tk_id tk) rows)"
  have fresh: "key new \<notin> key ` set rows" using None by (simp add: lookup_None)
  have i: "?i \<noteq> 0" "?i \<notin> tk_id tk ` set rows"
    using user_engine_ok.nextId_pos [OF assms(1)] user_engine_ok.nextId_fresh [OF assms(1)]
    by (metis less_irrefl, metis image_set)
  have "find (unique_hit tk new) rows = None" "find (id_hit tk new) rows = None"
    using fresh assms(3) by (auto simp: find_None_iff unique_hit_iff id_hit_def AUTO_INCREMENT_VALUE_def image_iff)
  moreover from this have "\<not> (\<exists>r \<in> set rows. id_hit tk new r \<or> unique_hit tk new r)" by (auto simp: find_None_iff)
  ultimately have "agent_upsert ag e tk new rows = Inr (rows @ [tk_setId tk ?i new], False)"
    using assms(3)
    by (simp add: agent_upsert_def sqlite_upsert_def mysql_upsert_def insert_row_def AUTO_INCREMENT_VALUE_def split: agent_kind.splits)
  moreover have "set (rows @ [tk_setId tk ?i new]) = insert (tk_setId tk ?i new) {r \<in> set rows. key r \<noteq> key new}"
    using fresh by (auto simp: image_iff)
  ultimately show thesis
    using that insert_wf [OF assms(2), of "tk_setId tk ?i new"] i fresh None by auto
next
  case (Some r)
  then have r: "r \<in> set rows" "key r = key new" using lookup_Some [OF assms(2)] by auto
  have id: "tk_id tk r \<noteq> 0" using assms(2) r(1) by (simp add: wf_rows_def)
  have hit: "tk_id tk s = tk_id tk r \<longleftrightarrow> key s = key new" if "s \<in> set rows" for s
    using assms(2) that r by (metis distinct_map inj_on_def wf_rows_def)
  let ?new = "tk_setId tk (tk_id tk r) new"
  let ?rows = "map (\<lambda>s. if tk_id tk s = tk_id tk r then ?new else s) rows"
  note rep = replace_row [OF assms(2) r(1), of ?new]
  have noid: "\<not> id_hit tk new s" for s using assms(3) by (simp add: id_hit_def AUTO_INCREMENT_VALUE_def)
  have lite: "map (\<lambda>s. if tk_id tk new = AUTO_INCREMENT_VALUE \<and> unique_hit tk new s then tk_setId tk (tk_id tk s) new
      else if id_hit tk new s then new else s) rows = ?rows"
    by (rule map_cong [OF refl]) (use hit noid assms(3) in \<open>auto simp: unique_hit_iff AUTO_INCREMENT_VALUE_def\<close>, metis)
  have none: "find (id_hit tk new) rows = None" by (simp add: find_None_iff noid)
  have found: "find (unique_hit tk new) rows = Some r" "\<exists>r \<in> set rows. id_hit tk new r \<or> unique_hit tk new r"
    using Some r by (auto simp: lookup_def unique_hit_iff [abs_def])
  have keys: "keys_unique tk ?rows" using rep(1) r(2) by (simp add: keys_unique_iff wf_rows_def)
  have "sqlite_upsert e tk new rows = Inr (?rows, True)"
    unfolding sqlite_upsert_def Let_def lite using found(2) keys by simp
  moreover have "mysql_upsert e tk new rows = Inr (?rows, ?rows \<noteq> rows)"
    using keys by (simp add: mysql_upsert_def none found(1) Let_def)
  ultimately obtain b where "agent_upsert ag e tk new rows = Inr (?rows, b)"
    by (cases ag) (simp_all add: agent_upsert_def)
  moreover have "set rows - {r} = {r \<in> set rows. key r \<noteq> key new}"
    using assms(2) r by (auto simp: wf_rows_def distinct_map inj_on_def)
  ultimately show thesis
    using that rep r Some by simp
qed

lemma upsert_auto_ex:
  assumes "user_engine_ok e" "wf_rows rows" "tk_id tk new = 0"
    and "i = (case lookup rows (key new) of Some r \<Rightarrow> tk_id tk r | None \<Rightarrow> en_nextId e (map (tk_id tk) rows))"
  shows "\<exists>rows' b. agent_upsert ag e tk new rows = Inr (rows', b) \<and> wf_rows rows'
    \<and> lookup rows' = (lookup rows)(key new := Some (tk_setId tk i new))
    \<and> set rows' = insert (tk_setId tk i new) {r \<in> set rows. key r \<noteq> key new} \<and> (lookup rows (key new) = None \<longrightarrow> \<not> b)"
proof -
  obtain rows' b j where u: "agent_upsert ag e tk new rows = Inr (rows', b)" "wf_rows rows'"
    "lookup rows' = (lookup rows)(key new := Some (tk_setId tk j new))"
    "set rows' = insert (tk_setId tk j new) {r \<in> set rows. key r \<noteq> key new}"
    "j = (case lookup rows (key new) of Some r \<Rightarrow> tk_id tk r | None \<Rightarrow> en_nextId e (map (tk_id tk) rows))"
    "lookup rows (key new) = None \<longrightarrow> \<not> b" by (rule upsert_auto [OF assms(1-3), of ag])
  have "j = i" unfolding u(5) assms(4) ..
  then show ?thesis using u by (intro exI [of _ rows'] exI [of _ b]) simp
qed

text \<open>A row with the identifier and the key of a row in the table replaces it.\<close>

lemma upsert_own:
  assumes "wf_rows rows" "r \<in> set rows" "tk_id tk new = tk_id tk r" "key new = key r"
  obtains b where "agent_upsert ag e tk new rows = Inr (map (\<lambda>s. if tk_id tk s = tk_id tk r then new else s) rows, b)"
proof -
  let ?rows = "map (\<lambda>s. if tk_id tk s = tk_id tk r then new else s) rows"
  have id: "tk_id tk new \<noteq> 0" using assms(1-3) by (simp add: wf_rows_def)
  have one: "s = r" if "s \<in> set rows" "tk_id tk s = tk_id tk r" for s
    using assms(1,2) that by (metis distinct_map inj_on_def wf_rows_def)
  have hit: "id_hit tk new = (\<lambda>s. tk_id tk s = tk_id tk r)"
    using id assms(3) by (auto simp: id_hit_def AUTO_INCREMENT_VALUE_def)
  then have "find (id_hit tk new) rows \<noteq> None" using assms(2) by (auto simp: find_None_iff)
  then obtain t where "find (id_hit tk new) rows = Some t" by blast
  moreover from this have "t = r" using one by (auto simp: hit find_Some_iff)
  moreover have "tk_setId tk (tk_id tk r) new = new" using assms(3) by (metis setId_id)
  moreover have "keys_unique tk ?rows" using replace_row(1) [OF assms] by (simp add: keys_unique_iff wf_rows_def)
  moreover have "\<exists>s \<in> set rows. tk_id tk s = tk_id tk r \<or> unique_hit tk new s" using assms(2) by blast
  ultimately show thesis
    using that id assms(3) hit
    by (cases ag) (simp_all add: agent_upsert_def sqlite_upsert_def mysql_upsert_def AUTO_INCREMENT_VALUE_def Let_def)
qed

text \<open>Many rows with automatic identifiers: what is stored under a key is what was given last for it.\<close>

lemma upserts_auto:
  assumes "user_engine_ok e" "wf_rows rows" "\<forall>new \<in> set news. tk_id tk new = 0"
    and val: "\<And>i r. val (tk_setId tk i r) = val r"
  obtains rows' where "foldR (\<lambda>new rows. bindR (agent_upsert ag e tk new rows) (\<lambda>(rows, _). Inr rows)) news rows = Inr rows'"
    "wf_rows rows'" "(\<lambda>k. map_option val (lookup rows' k)) = fold (\<lambda>new m. m(key new \<mapsto> val new)) news (\<lambda>k. map_option val (lookup rows k))"
proof -
  have "\<exists>rows'. foldR (\<lambda>new rows. bindR (agent_upsert ag e tk new rows) (\<lambda>(rows, _). Inr rows)) news rows = Inr rows'
    \<and> wf_rows rows' \<and> (\<lambda>k. map_option val (lookup rows' k)) = fold (\<lambda>new m. m(key new \<mapsto> val new)) news (\<lambda>k. map_option val (lookup rows k))"
    using assms(2,3)
  proof (induction news arbitrary: rows)
    case (Cons new news)
    obtain rows1 b i where 1: "agent_upsert ag e tk new rows = Inr (rows1, b)" "wf_rows rows1"
      "lookup rows1 = (lookup rows)(key new := Some (tk_setId tk i new))"
      by (rule upsert_auto [OF assms(1) Cons.prems(1), of new ag]) (use Cons.prems(2) in simp)
    have "(\<lambda>k. map_option val (lookup rows1 k)) = (\<lambda>k. map_option val (lookup rows k))(key new \<mapsto> val new)"
      by (auto simp: fun_eq_iff 1(3) val)
    then show ?case using Cons.IH [OF 1(2)] Cons.prems(2) 1(1) by (simp del: fun_upd_apply)
  qed auto
  then show thesis using that by blast
qed

text \<open>Deleting rows by identifier.\<close>

lemma delete_wf:
  assumes "wf_rows rows"
  shows "wf_rows (filter P rows)" "lookup (filter P rows) k = (case lookup rows k of Some r \<Rightarrow> if P r then Some r else None | None \<Rightarrow> None)"
proof -
  show wf: "wf_rows (filter P rows)" using assms by (auto simp: wf_rows_def distinct_map inj_on_def)
  have "lookup (filter P rows) k = Some s \<longleftrightarrow> (case lookup rows k of Some r \<Rightarrow> if P r then Some r else None | None \<Rightarrow> None) = Some s" for s
  proof (cases "lookup rows k")
    case None
    then have "k \<notin> key ` set rows" by (simp add: lookup_None)
    then show ?thesis using None by (auto simp: lookup_Some [OF wf])
  next
    case (Some r)
    then have r: "r \<in> set rows" "key r = k" by (simp_all add: lookup_Some [OF assms])
    have "s = r" if "s \<in> set rows" "key s = k" using that Some lookup_Some [OF assms, of k s] by simp
    then show ?thesis using r Some by (auto simp: lookup_Some [OF wf])
  qed
  then show "lookup (filter P rows) k = (case lookup rows k of Some r \<Rightarrow> if P r then Some r else None | None \<Rightarrow> None)"
    by (metis option.exhaust)
qed

end

end
