(* ===== verification/Host_Tables.thy ===== *)
theory Host_Tables
  imports Db_Upsert
begin

text \<open>
  Hosts, hostgroups and their membership (src/server/src/DBTablesHost.h, DBTablesHost.cc). Every
  monitoring server reports its hosts; a host has a row per server and an identifier of its own in
  the list of hosts. The tables are lists of rows, in the order in which a query returns them.
  Identifiers are the numbers below \<open>2 ^ 64\<close>; the last inserted identifier of the
  session, which the upserts return, is not modelled.
\<close>

section \<open>Data\<close>

definition HOST_STAT_ALL :: int where
  "HOST_STAT_ALL = -1"

definition HOST_STAT_NORMAL :: int where
  "HOST_STAT_NORMAL = 0"

definition HOST_STAT_REMOVED :: int where
  "HOST_STAT_REMOVED = 1"

definition HOST_STAT_SELF_MONITOR :: int where
  "HOST_STAT_SELF_MONITOR = 2"

definition HOST_STAT_INAPPLICABLE :: int where
  "HOST_STAT_INAPPLICABLE = 3"

lemmas host_stats = HOST_STAT_ALL_def HOST_STAT_NORMAL_def HOST_STAT_REMOVED_def HOST_STAT_SELF_MONITOR_def
  HOST_STAT_INAPPLICABLE_def

definition AUTO_ASSIGNED_ID :: int where
  "AUTO_ASSIGNED_ID = 2 ^ 64 - 5"

definition INVALID_HOST_ID :: int where
  "INVALID_HOST_ID = 2 ^ 64 - 2"

record host_entry =
  hl_id :: int
  hl_name :: string

record server_host_def =
  sh_id :: int
  sh_hostId :: int
  sh_serverId :: int
  sh_hostIdInServer :: string
  sh_name :: string
  sh_status :: int

record host_access =
  ha_id :: int
  ha_hostId :: int
  ha_ipAddrOrFQDN :: string
  ha_priority :: int

record vm_info =
  vi_id :: int
  vi_hostId :: int
  vi_hypervisorHostId :: int

record hostgroup =
  hg_id :: int
  hg_serverId :: int
  hg_idInServer :: string
  hg_name :: string

record hostgroup_member =
  hm_id :: int
  hm_serverId :: int
  hm_hostIdInServer :: string
  hm_hostgroupIdInServer :: string
  hm_hostId :: int

record host_tables =
  ht_hosts :: "host_entry list"
  ht_defs :: "server_host_def list"
  ht_access :: "host_access list"
  ht_vms :: "vm_info list"
  ht_groups :: "hostgroup list"
  ht_members :: "hostgroup_member list"

type_synonym host_db = "host_tables db_state"

text \<open>The registered servers are read from DBTablesConfig, the access list from DBTablesUser.\<close>

record host_env =
  he_agent :: agent_kind
  he_engine :: user_engine
  he_validServers :: server_id_set
  he_userDb :: user_db

section \<open>Tables\<close>

definition COLUMN_DEF_HOST_LIST :: "column_def list" where
  "COLUMN_DEF_HOST_LIST =
     [column ''id'' SQL_COLUMN_TYPE_BIGUINT 20 SQL_KEY_PRI SQL_COLUMN_FLAG_AUTO_INC,
      column ''name'' SQL_COLUMN_TYPE_VARCHAR 255 SQL_KEY_IDX 0]"

definition COLUMN_DEF_SERVER_HOST_DEF :: "column_def list" where
  "COLUMN_DEF_SERVER_HOST_DEF =
     [column ''id'' SQL_COLUMN_TYPE_BIGUINT 20 SQL_KEY_PRI SQL_COLUMN_FLAG_AUTO_INC,
      (column ''host_id'' SQL_COLUMN_TYPE_BIGUINT 20 SQL_KEY_IDX 0)\<lparr>cd_canBeNull := True\<rparr>,
      (column ''server_id'' SQL_COLUMN_TYPE_INT 11 SQL_KEY_IDX 0)\<lparr>cd_canBeNull := True\<rparr>,
      column ''host_id_in_server'' SQL_COLUMN_TYPE_VARCHAR 255 SQL_KEY_IDX 0,
      column ''name'' SQL_COLUMN_TYPE_VARCHAR 255 SQL_KEY_IDX 0,
      (column ''status'' SQL_COLUMN_TYPE_INT 11 SQL_KEY_IDX 0)\<lparr>cd_defaultValue := Some ''0''\<rparr>]"

definition COLUMN_DEF_HOST_ACCESS :: "column_def list" where
  "COLUMN_DEF_HOST_ACCESS =
     [column ''id'' SQL_COLUMN_TYPE_BIGUINT 20 SQL_KEY_PRI SQL_COLUMN_FLAG_AUTO_INC,
      column ''host_id'' SQL_COLUMN_TYPE_BIGUINT 20 SQL_KEY_IDX 0,
      column ''ip_addr_or_fqdn'' SQL_COLUMN_TYPE_VARCHAR 255 SQL_KEY_IDX 0,
      column ''priority'' SQL_COLUMN_TYPE_INT 11 SQL_KEY_NONE 0]"

definition COLUMN_DEF_VM_LIST :: "column_def list" where
  "COLUMN_DEF_VM_LIST =
     [column ''id'' SQL_COLUMN_TYPE_BIGUINT 20 SQL_KEY_PRI SQL_COLUMN_FLAG_AUTO_INC,
      column ''host_id'' SQL_COLUMN_TYPE_BIGUINT 20 SQL_KEY_IDX 0,
      column ''hypervisor_host_id'' SQL_COLUMN_TYPE_BIGUINT 20 SQL_KEY_IDX 0]"

definition COLUMN_DEF_HOSTGROUP_LIST :: "column_def list" where
  "COLUMN_DEF_HOSTGROUP_LIST =
     [column ''id'' SQL_COLUMN_TYPE_BIGUINT 20 SQL_KEY_PRI SQL_COLUMN_FLAG_AUTO_INC,
      column ''server_id'' SQL_COLUMN_TYPE_INT 11 SQL_KEY_NONE 0,
      column ''id_in_server'' SQL_COLUMN_TYPE_VARCHAR 255 SQL_KEY_IDX 0,
      column ''name'' SQL_COLUMN_TYPE_VARCHAR 255 SQL_KEY_IDX 0]"

definition COLUMN_DEF_HOSTGROUP_MEMBER :: "column_def list" where
  "COLUMN_DEF_HOSTGROUP_MEMBER =
     [column ''id'' SQL_COLUMN_TYPE_BIGUINT 20 SQL_KEY_PRI SQL_COLUMN_FLAG_AUTO_INC,
      column ''server_id'' SQL_COLUMN_TYPE_INT 11 SQL_KEY_NONE 0,
      column ''host_id_in_server'' SQL_COLUMN_TYPE_VARCHAR 255 SQL_KEY_IDX 0,
      column ''host_group_id'' SQL_COLUMN_TYPE_VARCHAR 255 SQL_KEY_IDX 0,
      column ''host_id'' SQL_COLUMN_TYPE_BIGUINT 20 SQL_KEY_IDX 0]"

definition tableProfileServerHostDef :: table_profile where
  "tableProfileServerHostDef =
     \<lparr>tp_name = ''server_host_def'', tp_columnDefs = COLUMN_DEF_SERVER_HOST_DEF,
      tp_indexDefs = [\<lparr>ix_name = ''HostServerDefIdx'', ix_columnIndexes = [2, 3], ix_isUnique = True\<rparr>],
      tp_uniqueKeyColumnIndexes = [2, 3]\<rparr>"

definition tableProfileHostgroupList :: table_profile where
  "tableProfileHostgroupList =
     \<lparr>tp_name = ''hostgroup_list'', tp_columnDefs = COLUMN_DEF_HOSTGROUP_LIST,
      tp_indexDefs = [\<lparr>ix_name = ''HostgroupListUniqId'', ix_columnIndexes = [1, 2], ix_isUnique = True\<rparr>],
      tp_uniqueKeyColumnIndexes = [1, 2]\<rparr>"

definition tableProfileHostgroupMember :: table_profile where
  "tableProfileHostgroupMember =
     \<lparr>tp_name = ''hostgroup_member'', tp_columnDefs = COLUMN_DEF_HOSTGROUP_MEMBER,
      tp_indexDefs = [\<lparr>ix_name = ''HostsHostgroupUniqId'', ix_columnIndexes = [1, 2, 3], ix_isUnique = True\<rparr>],
      tp_uniqueKeyColumnIndexes = [1, 2, 3]\<rparr>"

text \<open>The rows as the columns name their values, bare and behind the name of the table.\<close>

definition host_row :: "host_entry \<Rightarrow> sql_row" where
  "host_row h = (\<lambda>_. VStr [])(''id'' := VInt (hl_id h), ''name'' := VStr (hl_name h))"

definition def_row :: "server_host_def \<Rightarrow> sql_row" where
  "def_row d = (\<lambda>_. VStr [])(''id'' := VInt (sh_id d), ''host_id'' := VInt (sh_hostId d),
     ''server_id'' := VInt (sh_serverId d), ''host_id_in_server'' := VStr (sh_hostIdInServer d),
     ''name'' := VStr (sh_name d), ''status'' := VInt (sh_status d))"

definition vm_row :: "vm_info \<Rightarrow> sql_row" where
  "vm_row v = (\<lambda>_. VStr [])(''id'' := VInt (vi_id v), ''host_id'' := VInt (vi_hostId v),
     ''hypervisor_host_id'' := VInt (vi_hypervisorHostId v))"

definition group_row :: "hostgroup \<Rightarrow> sql_row" where
  "group_row g = (\<lambda>_. VStr [])(''id'' := VInt (hg_id g), ''server_id'' := VInt (hg_serverId g),
     ''id_in_server'' := VStr (hg_idInServer g), ''name'' := VStr (hg_name g))"

definition member_row :: "hostgroup_member \<Rightarrow> sql_row" where
  "member_row m = (\<lambda>_. VStr [])(''id'' := VInt (hm_id m), ''server_id'' := VInt (hm_serverId m),
     ''host_id_in_server'' := VStr (hm_hostIdInServer m), ''host_group_id'' := VStr (hm_hostgroupIdInServer m),
     ''host_id'' := VInt (hm_hostId m))"

definition joined_row :: "server_host_def \<times> hostgroup_member \<Rightarrow> sql_row" where
  "joined_row = (\<lambda>(d, m). (\<lambda>_. VStr [])(''name'' := VStr (sh_name d), ''status'' := VInt (sh_status d),
     ''server_host_def.id'' := VInt (sh_id d), ''server_host_def.host_id'' := VInt (sh_hostId d),
     ''server_host_def.server_id'' := VInt (sh_serverId d),
     ''server_host_def.host_id_in_server'' := VStr (sh_hostIdInServer d),
     ''server_host_def.name'' := VStr (sh_name d), ''server_host_def.status'' := VInt (sh_status d),
     ''hostgroup_member.id'' := VInt (hm_id m), ''hostgroup_member.server_id'' := VInt (hm_serverId m),
     ''hostgroup_member.host_id_in_server'' := VStr (hm_hostIdInServer m),
     ''hostgroup_member.host_group_id'' := VStr (hm_hostgroupIdInServer m),
     ''hostgroup_member.host_id'' := VInt (hm_hostId m)))"

section \<open>Keys\<close>

definition host_keys :: "(host_entry, unit) table_keys" where
  "host_keys = \<lparr>tk_id = hl_id, tk_setId = (\<lambda>i h. h\<lparr>hl_id := i\<rparr>), tk_unique = None\<rparr>"

definition def_keys :: "(server_host_def, int \<times> string) table_keys" where
  "def_keys = \<lparr>tk_id = sh_id, tk_setId = (\<lambda>i d. d\<lparr>sh_id := i\<rparr>), tk_unique = Some (\<lambda>d. (sh_serverId d, sh_hostIdInServer d))\<rparr>"

definition access_keys :: "(host_access, unit) table_keys" where
  "access_keys = \<lparr>tk_id = ha_id, tk_setId = (\<lambda>i a. a\<lparr>ha_id := i\<rparr>), tk_unique = None\<rparr>"

definition vm_keys :: "(vm_info, unit) table_keys" where
  "vm_keys = \<lparr>tk_id = vi_id, tk_setId = (\<lambda>i v. v\<lparr>vi_id := i\<rparr>), tk_unique = None\<rparr>"

definition group_keys :: "(hostgroup, int \<times> string) table_keys" where
  "group_keys = \<lparr>tk_id = hg_id, tk_setId = (\<lambda>i g. g\<lparr>hg_id := i\<rparr>), tk_unique = Some (\<lambda>g. (hg_serverId g, hg_idInServer g))\<rparr>"

definition member_keys :: "(hostgroup_member, int \<times> string \<times> string) table_keys" where
  "member_keys = \<lparr>tk_id = hm_id, tk_setId = (\<lambda>i m. m\<lparr>hm_id := i\<rparr>),
     tk_unique = Some (\<lambda>m. (hm_serverId m, hm_hostIdInServer m, hm_hostgroupIdInServer m))\<rparr>"

section \<open>Query options\<close>

definition synapseHostsQueryOption :: synapse where
  "synapseHostsQueryOption =
     \<lparr>sy_tableProfile = tableProfileServerHostDef, sy_selfIdColumnIdx = 3, sy_serverIdColumnIdx = 2,
      sy_hostTableProfile = tableProfileServerHostDef, sy_hostIdColumnIdx = 3, sy_needToJoinHostgroup = True,
      sy_hostgroupMapTableProfile = tableProfileHostgroupMember, sy_hostgroupMapServerIdColumnIdx = 1,
      sy_hostgroupMapHostIdColumnIdx = 2, sy_hostgroupMapGroupIdColumnIdx = 3,
      sy_globalHostIdColumnIdx = INVALID_COLUMN_IDX, sy_hostgroupMapGlobalHostIdColumnIdx = INVALID_COLUMN_IDX\<rparr>"

text \<open>
  \<open>HostgroupsQueryOption\<close> overrides the column of the hostgroup with its own column; as its synapse joins
  no table, that is the column of this table.
\<close>

definition synapseHostgroupsQueryOption :: synapse where
  "synapseHostgroupsQueryOption =
     \<lparr>sy_tableProfile = tableProfileHostgroupList, sy_selfIdColumnIdx = 2, sy_serverIdColumnIdx = 1,
      sy_hostTableProfile = tableProfileHostgroupList, sy_hostIdColumnIdx = INVALID_COLUMN_IDX, sy_needToJoinHostgroup = False,
      sy_hostgroupMapTableProfile = tableProfileHostgroupList, sy_hostgroupMapServerIdColumnIdx = 1,
      sy_hostgroupMapHostIdColumnIdx = 2, sy_hostgroupMapGroupIdColumnIdx = 2,
      sy_globalHostIdColumnIdx = INVALID_COLUMN_IDX, sy_hostgroupMapGlobalHostIdColumnIdx = INVALID_COLUMN_IDX\<rparr>"

definition synapseHostgroupMembersQueryOption :: synapse where
  "synapseHostgroupMembersQueryOption =
     \<lparr>sy_tableProfile = tableProfileHostgroupMember, sy_selfIdColumnIdx = 0, sy_serverIdColumnIdx = 1,
      sy_hostTableProfile = tableProfileHostgroupMember, sy_hostIdColumnIdx = 2, sy_needToJoinHostgroup = False,
      sy_hostgroupMapTableProfile = tableProfileHostgroupMember, sy_hostgroupMapServerIdColumnIdx = 1,
      sy_hostgroupMapHostIdColumnIdx = 2, sy_hostgroupMapGroupIdColumnIdx = 3,
      sy_globalHostIdColumnIdx = INVALID_COLUMN_IDX, sy_hostgroupMapGlobalHostIdColumnIdx = INVALID_COLUMN_IDX\<rparr>"

record hosts_option =
  hs_base :: host_option
  hs_statuses :: "int list"

record groups_option =
  gs_base :: host_option
  gs_hostgroupName :: string

definition mk_hosts_option :: "host_option \<Rightarrow> hosts_option" where
  "mk_hosts_option base = \<lparr>hs_base = base, hs_statuses = [HOST_STAT_ALL]\<rparr>"

definition setStatusSet :: "hosts_option \<Rightarrow> int list \<Rightarrow> hosts_option" where
  "setStatusSet opt statuses = opt\<lparr>hs_statuses := statuses\<rparr>"

definition hs_getCondition :: "hosts_option \<Rightarrow> string res" where
  "hs_getCondition opt =
     bindR (getCondition (hs_base opt)) (\<lambda>condition.
       if HOST_STAT_ALL \<in> set (hs_statuses opt) then Inr condition
       else Inr (addCondition condition
              (''status IN ('' @ inject_loop True '','' (map dec_int (hs_statuses opt)) [] @ '')'') ADD_TYPE_AND False))"

definition gs_getCondition :: "groups_option \<Rightarrow> string res" where
  "gs_getCondition opt =
     bindR (getCondition (gs_base opt)) (\<lambda>condition.
       if gs_hostgroupName opt = [] then Inr condition
       else Inr (addCondition condition (''name='' @ enc_str (gs_hostgroupName opt)) ADD_TYPE_AND False))"

text \<open>The options that the synchronisations make for \<open>USER_ID_SYSTEM\<close>, who sees every server.\<close>

definition system_privilege :: op_privilege where
  "system_privilege = privilege_of_user (\<lambda>_. None) USER_ID_SYSTEM"

definition system_host_option :: "host_env \<Rightarrow> synapse \<Rightarrow> int \<Rightarrow> host_option" where
  "system_host_option env sy serverId =
     setTargetServerId (mk_host_option sy system_privilege (he_validServers env) []) serverId"

section \<open>Hosts\<close>

text \<open>A transaction on the tables; an exception of the procedure rolls it back and is passed on.\<close>

definition table_proc :: "('d \<Rightarrow> 'p \<Rightarrow> ('d \<times> 'p) res) \<Rightarrow> ('d db_state, 'p) trx_proc" where
  "table_proc f =
     \<lparr>tr_preproc = (\<lambda>db x. (True, db, x)),
      tr_body = (\<lambda>db x. case f (st_data db) x of
         Inl _ \<Rightarrow> (Inl OtherException, db, x)
       | Inr (t, x) \<Rightarrow> (Inr (), db\<lparr>st_data := t\<rparr>, x)),
      tr_postproc = (\<lambda>db x. (db, x))\<rparr>"

definition table_trx ::
  "('d \<Rightarrow> 'p \<Rightarrow> ('d \<times> 'p) res) \<Rightarrow> 'd db_state trx_hooks option \<Rightarrow> 'd db_state \<Rightarrow> 'p \<Rightarrow> ('d db_state \<times> 'p) res" where
  "table_trx f hooks db x =
     (case runTransaction mem_agent (table_proc f) hooks db x of
        (Inl _, _, _) \<Rightarrow> Inl HatoholException
      | (Inr _, db, x) \<Rightarrow> Inr (db, x))"

definition add_host :: "host_env \<Rightarrow> string \<Rightarrow> host_tables \<Rightarrow> host_tables \<times> int" where
  "add_host env name t =
     (let i = en_nextId (he_engine env) (map hl_id (ht_hosts t))
      in (t\<lparr>ht_hosts := insert_row (he_engine env) host_keys \<lparr>hl_id = AUTO_INCREMENT_VALUE, hl_name = cstr name\<rparr> (ht_hosts t)\<rparr>, i))"

definition addHost :: "host_env \<Rightarrow> string \<Rightarrow> host_db \<Rightarrow> (host_db \<times> int) res" where
  "addHost env name db = table_trx (\<lambda>t _. Inr (add_host env name t)) None db 0"

definition upsert_defs :: "host_env \<Rightarrow> server_host_def \<Rightarrow> int \<Rightarrow> host_tables \<Rightarrow> (host_tables \<times> bool) res" where
  "upsert_defs env d hostId t =
     bindR (agent_upsert (he_agent env) (he_engine env) def_keys
              (d\<lparr>sh_hostId := hostId, sh_hostIdInServer := cstr (sh_hostIdInServer d), sh_name := cstr (sh_name d)\<rparr>) (ht_defs t))
       (\<lambda>(rows, did). Inr (t\<lparr>ht_defs := rows\<rparr>, did))"

definition selectServerHostDef :: "host_env \<Rightarrow> server_host_def \<Rightarrow> host_tables \<Rightarrow> server_host_def option" where
  "selectServerHostDef env d t =
     (case tbl_select (he_engine env) def_row
             (''server_id='' @ dec_int (sh_serverId d) @ '' AND host_id_in_server='' @ enc_str (sh_hostIdInServer d)) (ht_defs t) of
        [] \<Rightarrow> None
      | r # _ \<Rightarrow> Some r)"

definition isChanged :: "server_host_def \<Rightarrow> server_host_def \<Rightarrow> bool" where
  "isChanged d0 d1 \<longleftrightarrow> sh_name d0 \<noteq> sh_name d1 \<or> sh_status d0 \<noteq> sh_status d1"

definition hasHost :: "host_env \<Rightarrow> int \<Rightarrow> host_tables \<Rightarrow> bool" where
  "hasHost env hostId t = tbl_exists (he_engine env) host_row (''id='' @ dec_int hostId) (ht_hosts t)"

definition proc_addHost :: "host_env \<Rightarrow> int \<Rightarrow> string \<Rightarrow> host_tables \<Rightarrow> (host_tables \<times> int) res" where
  "proc_addHost env hostId name t =
     (if hostId = AUTO_ASSIGNED_ID then Inr (add_host env name t)
      else bindR (agent_upsert (he_agent env) (he_engine env) host_keys \<lparr>hl_id = hostId, hl_name = cstr name\<rparr> (ht_hosts t))
             (\<lambda>(rows, _). Inr (t\<lparr>ht_hosts := rows\<rparr>, hostId)))"

definition removeHost :: "host_env \<Rightarrow> int \<Rightarrow> host_tables \<Rightarrow> host_tables" where
  "removeHost env hostId t = t\<lparr>ht_hosts := tbl_delete (he_engine env) host_row (''id='' @ dec_int hostId) (ht_hosts t)\<rparr>"

text \<open>The procedure of \<open>upsertHost\<close>: the row of the host and, for a new host, its entry in the list.\<close>

definition upsertHost_proc :: "host_env \<Rightarrow> server_host_def \<Rightarrow> host_tables \<Rightarrow> int \<Rightarrow> (host_tables \<times> int) res" where
  "upsertHost_proc env d t hostId =
     (let finish = (\<lambda>tookNewHostId t hostId.
            bindR (upsert_defs env d hostId t) (\<lambda>(t, did).
              if did \<and> tookNewHostId then
                let t = removeHost env hostId t
                in case selectServerHostDef env d t of
                     None \<Rightarrow> Inl HatoholException
                   | Some cur \<Rightarrow> Inr (t, sh_hostId cur)
              else Inr (t, hostId)))
      in case selectServerHostDef env d t of
           Some cur \<Rightarrow>
             if \<not> isChanged d cur then Inr (t, sh_hostId cur)
             else if sh_hostId d \<noteq> AUTO_ASSIGNED_ID \<and> sh_hostId cur \<noteq> sh_hostId d then Inl HatoholException
             else finish False t (sh_hostId cur)
         | None \<Rightarrow>
             if sh_hostId d = AUTO_ASSIGNED_ID \<or> \<not> hasHost env (sh_hostId d) t
             then bindR (proc_addHost env (sh_hostId d) (sh_name d) t) (\<lambda>(t, hostId). finish True t hostId)
             else finish False t (sh_hostId d))"

definition upsertHost_check :: "server_host_def \<Rightarrow> bool" where
  "upsertHost_check d \<longleftrightarrow>
     (sh_hostId d = AUTO_ASSIGNED_ID \<or> sh_hostId d \<ge> 0) \<and> (sh_status d \<noteq> HOST_STAT_SELF_MONITOR \<longrightarrow> sh_name d \<noteq> [])"

definition upsertHost :: "host_env \<Rightarrow> server_host_def \<Rightarrow> bool \<Rightarrow> host_db \<Rightarrow> (host_db \<times> int) res" where
  "upsertHost env d useTransaction db =
     (if \<not> upsertHost_check d then Inl HatoholException
      else if useTransaction then table_trx (upsertHost_proc env d) None db INVALID_HOST_ID
      else bindR (upsertHost_proc env d (st_data db) INVALID_HOST_ID) (\<lambda>(t, hostId). Inr (db\<lparr>st_data := t\<rparr>, hostId)))"

text \<open>The map from local to global identifiers is filled only when the caller passes one.\<close>

definition upsertHosts_step ::
  "host_env \<Rightarrow> server_host_def \<Rightarrow> host_tables \<times> (string \<times> int) list option \<Rightarrow> (host_tables \<times> (string \<times> int) list option) res" where
  "upsertHosts_step env d = (\<lambda>(t, m).
     if \<not> upsertHost_check d then Inl HatoholException
     else bindR (upsertHost_proc env d t INVALID_HOST_ID) (\<lambda>(t, hostId).
            Inr (t, map_option (std_map_put (sh_hostIdInServer d) hostId) m)))"

definition upsertHosts ::
  "host_env \<Rightarrow> server_host_def list \<Rightarrow> (string \<times> int) list option \<Rightarrow> host_db trx_hooks option \<Rightarrow> host_db
     \<Rightarrow> (host_db \<times> (string \<times> int) list option) res" where
  "upsertHosts env ds hostIdMap hooks db = table_trx (\<lambda>t m. foldR (upsertHosts_step env) ds (t, m)) hooks db hostIdMap"

definition upsertServerHostDef :: "host_env \<Rightarrow> server_host_def \<Rightarrow> host_db \<Rightarrow> (host_db \<times> unit) res" where
  "upsertServerHostDef env d db =
     table_trx (\<lambda>t _. bindR (upsert_defs env d (sh_hostId d) t) (\<lambda>(t, _). Inr (t, ()))) None db ()"

definition upsertHostAccess :: "host_env \<Rightarrow> host_access \<Rightarrow> host_db \<Rightarrow> (host_db \<times> unit) res" where
  "upsertHostAccess env a db =
     table_trx (\<lambda>t _. bindR (agent_upsert (he_agent env) (he_engine env) access_keys
         (a\<lparr>ha_ipAddrOrFQDN := cstr (ha_ipAddrOrFQDN a)\<rparr>) (ht_access t)) (\<lambda>(rows, _). Inr (t\<lparr>ht_access := rows\<rparr>, ()))) None db ()"

section \<open>Virtual machines\<close>

definition upsert_vm :: "host_env \<Rightarrow> vm_info \<Rightarrow> host_tables \<Rightarrow> host_tables res" where
  "upsert_vm env v t =
     bindR (agent_upsert (he_agent env) (he_engine env) vm_keys v (ht_vms t)) (\<lambda>(rows, _). Inr (t\<lparr>ht_vms := rows\<rparr>))"

definition upsertVMInfo :: "host_env \<Rightarrow> vm_info \<Rightarrow> bool \<Rightarrow> host_db \<Rightarrow> (host_db \<times> unit) res" where
  "upsertVMInfo env v useTransaction db =
     (if useTransaction then table_trx (\<lambda>t _. bindR (upsert_vm env v t) (\<lambda>t. Inr (t, ()))) None db ()
      else bindR (upsert_vm env v (st_data db)) (\<lambda>t. Inr (db\<lparr>st_data := t\<rparr>, ())))"

definition upsertVMInfoVect :: "host_env \<Rightarrow> vm_info list \<Rightarrow> host_db trx_hooks option \<Rightarrow> host_db \<Rightarrow> (host_db \<times> unit) res" where
  "upsertVMInfoVect env vs hooks db =
     table_trx (\<lambda>t _. bindR (foldR (upsert_vm env) vs t) (\<lambda>t. Inr (t, ()))) hooks db ()"

section \<open>Hostgroups and members\<close>

definition upsert_group :: "host_env \<Rightarrow> hostgroup \<Rightarrow> host_tables \<Rightarrow> host_tables res" where
  "upsert_group env g t =
     bindR (agent_upsert (he_agent env) (he_engine env) group_keys
         (g\<lparr>hg_idInServer := cstr (hg_idInServer g), hg_name := cstr (hg_name g)\<rparr>) (ht_groups t))
       (\<lambda>(rows, _). Inr (t\<lparr>ht_groups := rows\<rparr>))"

definition upsertHostgroup :: "host_env \<Rightarrow> hostgroup \<Rightarrow> bool \<Rightarrow> host_db \<Rightarrow> (host_db \<times> unit) res" where
  "upsertHostgroup env g useTransaction db =
     (if useTransaction then table_trx (\<lambda>t _. bindR (upsert_group env g t) (\<lambda>t. Inr (t, ()))) None db ()
      else bindR (upsert_group env g (st_data db)) (\<lambda>t. Inr (db\<lparr>st_data := t\<rparr>, ())))"

definition upsertHostgroups :: "host_env \<Rightarrow> hostgroup list \<Rightarrow> host_db trx_hooks option \<Rightarrow> host_db \<Rightarrow> (host_db \<times> unit) res" where
  "upsertHostgroups env gs hooks db =
     table_trx (\<lambda>t _. bindR (foldR (upsert_group env) gs t) (\<lambda>t. Inr (t, ()))) hooks db ()"

definition upsert_member :: "host_env \<Rightarrow> hostgroup_member \<Rightarrow> host_tables \<Rightarrow> host_tables res" where
  "upsert_member env m t =
     bindR (agent_upsert (he_agent env) (he_engine env) member_keys
         (m\<lparr>hm_hostIdInServer := cstr (hm_hostIdInServer m), hm_hostgroupIdInServer := cstr (hm_hostgroupIdInServer m)\<rparr>) (ht_members t))
       (\<lambda>(rows, _). Inr (t\<lparr>ht_members := rows\<rparr>))"

definition upsertHostgroupMember :: "host_env \<Rightarrow> hostgroup_member \<Rightarrow> bool \<Rightarrow> host_db \<Rightarrow> (host_db \<times> unit) res" where
  "upsertHostgroupMember env m useTransaction db =
     (if useTransaction then table_trx (\<lambda>t _. bindR (upsert_member env m t) (\<lambda>t. Inr (t, ()))) None db ()
      else bindR (upsert_member env m (st_data db)) (\<lambda>t. Inr (db\<lparr>st_data := t\<rparr>, ())))"

definition upsertHostgroupMembers ::
  "host_env \<Rightarrow> hostgroup_member list \<Rightarrow> host_db trx_hooks option \<Rightarrow> host_db \<Rightarrow> (host_db \<times> unit) res" where
  "upsertHostgroupMembers env ms hooks db =
     table_trx (\<lambda>t _. bindR (foldR (upsert_member env) ms t) (\<lambda>t. Inr (t, ()))) hooks db ()"

definition getHostgroups :: "host_env \<Rightarrow> groups_option \<Rightarrow> host_db \<Rightarrow> (hterr \<times> hostgroup list) res" where
  "getHostgroups env opt db =
     bindR (gs_getCondition opt) (\<lambda>cond. Inr (HTERR_OK, tbl_select (he_engine env) group_row cond (ht_groups (st_data db))))"

definition host_grp_insert :: "hostgroup \<Rightarrow> server_grp_map \<Rightarrow> server_grp_map" where
  "host_grp_insert g m =
     (let hgs = (case map_of m (hg_serverId g) of None \<Rightarrow> [] | Some hgs \<Rightarrow> hgs)
      in std_map_put (hg_serverId g) (std_set_insert (hg_idInServer g) hgs) m)"

definition host_getServerHostGrpSetMap :: "host_env \<Rightarrow> groups_option \<Rightarrow> server_grp_map \<Rightarrow> host_db \<Rightarrow> (hterr \<times> server_grp_map) res" where
  "host_getServerHostGrpSetMap env opt m db =
     bindR (gs_getCondition opt) (\<lambda>cond.
       Inr (HTERR_OK, fold host_grp_insert (tbl_select (he_engine env) group_row cond (ht_groups (st_data db))) m))"

definition getHostgroupMembers :: "host_env \<Rightarrow> host_option \<Rightarrow> host_db \<Rightarrow> (hterr \<times> hostgroup_member list) res" where
  "getHostgroupMembers env opt db =
     bindR (getCondition opt) (\<lambda>cond. Inr (HTERR_OK, tbl_select (he_engine env) member_row cond (ht_members (st_data db))))"

text \<open>The lists of identifiers to delete; the condition is built with a \<open>SeparatorInjector\<close>.\<close>

definition host_makeIdListCondition :: "int list \<Rightarrow> string" where
  "host_makeIdListCondition idList = inject_loop True '','' (map dec_int idList) ''id in ('' @ '')''"

definition delete_list ::
  "host_env \<Rightarrow> ('r \<Rightarrow> sql_row) \<Rightarrow> (host_tables \<Rightarrow> 'r list) \<Rightarrow> ('r list \<Rightarrow> host_tables \<Rightarrow> host_tables) \<Rightarrow> int list \<Rightarrow> host_db
     \<Rightarrow> (hterr \<times> host_db) res" where
  "delete_list env row get put idList db =
     (if idList = [] then Inr (HTERR_INVALID_PARAMETER, db)
      else
        let cond = host_makeIdListCondition idList
        in bindR (table_trx (\<lambda>t _. let rows = tbl_delete (he_engine env) row cond (get t)
                    in Inr (put rows t, length (get t) - length rows)) None db 0) (\<lambda>(db, numAffectedRows).
             if numAffectedRows \<noteq> length idList then Inr (HTERR_DELETE_INCOMPLETE, db) else Inr (HTERR_OK, db)))"

definition deleteHostgroupList :: "host_env \<Rightarrow> int list \<Rightarrow> host_db \<Rightarrow> (hterr \<times> host_db) res" where
  "deleteHostgroupList env = delete_list env group_row ht_groups (\<lambda>rows t. t\<lparr>ht_groups := rows\<rparr>)"

definition deleteHostgroupMemberList :: "host_env \<Rightarrow> int list \<Rightarrow> host_db \<Rightarrow> (hterr \<times> host_db) res" where
  "deleteHostgroupMemberList env = delete_list env member_row ht_members (\<lambda>rows t. t\<lparr>ht_members := rows\<rparr>)"

definition deleteVMInfoList :: "host_env \<Rightarrow> int list \<Rightarrow> host_db \<Rightarrow> (hterr \<times> host_db) res" where
  "deleteVMInfoList env = delete_list env vm_row ht_vms (\<lambda>rows t. t\<lparr>ht_vms := rows\<rparr>)"

section \<open>Access to hosts\<close>

text \<open>
  \<open>DBTablesHost::isAccessible\<close>: the rows of the host joined with the memberships of the same global
  identifier, of any server.
\<close>

definition host_isAccessible :: "host_env \<Rightarrow> int \<Rightarrow> op_privilege \<Rightarrow> host_db \<Rightarrow> bool" where
  "host_isAccessible env hostId privilege db =
     list_ex (\<lambda>(d, m). isAccessible (he_engine env) (he_userDb env) (sh_serverId d) (hm_hostgroupIdInServer m) privilege)
       (filter (\<lambda>p. where_rows (he_engine env) joined_row (''server_host_def.host_id='' @ dec_int hostId) p)
         (filter (\<lambda>(d, m). sh_hostId d = hm_hostId m) (List.product (ht_defs (st_data db)) (ht_members (st_data db)))))"

definition getVirtualMachines :: "host_env \<Rightarrow> int \<Rightarrow> op_privilege \<Rightarrow> host_db \<Rightarrow> hterr \<times> int list" where
  "getVirtualMachines env hypervisorHostId privilege db =
     (if op_userId privilege = INVALID_USER_ID then (HTERR_INVALID_USER, [])
      else (HTERR_OK, filter (\<lambda>i. op_userId privilege = USER_ID_SYSTEM \<or> host_isAccessible env i privilege db)
        (map vi_hostId (tbl_select (he_engine env) vm_row (''hypervisor_host_id='' @ dec_int hypervisorHostId) (ht_vms (st_data db))))))"

text \<open>\<open>None\<close> leaves the variable of the caller as it is.\<close>

definition getHypervisor :: "host_env \<Rightarrow> int \<Rightarrow> op_privilege \<Rightarrow> host_db \<Rightarrow> hterr \<times> int option" where
  "getHypervisor env hostId privilege db =
     (if op_userId privilege = INVALID_USER_ID then (HTERR_INVALID_USER, None)
      else case tbl_select (he_engine env) vm_row (''host_id='' @ dec_int hostId) (ht_vms (st_data db)) of
             [] \<Rightarrow> (HTERR_NOT_FOUND_HYPERVISOR, None)
           | v # _ \<Rightarrow>
               if op_userId privilege \<noteq> USER_ID_SYSTEM \<and> \<not> host_isAccessible env (vi_hypervisorHostId v) privilege db
               then (HTERR_NOT_FOUND_HYPERVISOR, None)
               else (HTERR_OK, Some (vi_hypervisorHostId v)))"

text \<open>
  The rows of hosts. When the condition speaks of hostgroups it stands in a subquery: a row is selected
  when some membership of the same host makes the condition true.
\<close>

definition getServerHostDefs :: "host_env \<Rightarrow> hosts_option \<Rightarrow> host_db \<Rightarrow> (hterr \<times> server_host_def list) res" where
  "getServerHostDefs env opt db =
     bindR (hs_getCondition opt) (\<lambda>cond.
       if isHostgroupUsed (hs_base opt)
       then Inr (HTERR_OK, filter (\<lambda>d. list_ex (\<lambda>m. sh_hostId d = hm_hostId m \<and> where_rows (he_engine env) joined_row cond (d, m))
                    (ht_members (st_data db))) (ht_defs (st_data db)))
       else Inr (HTERR_OK, tbl_select (he_engine env) def_row cond (ht_defs (st_data db))))"

text \<open>\<open>getNumberOfHosts\<close> sets no condition, so its option has no effect.\<close>

definition getNumberOfHosts :: "hosts_option \<Rightarrow> host_db \<Rightarrow> nat" where
  "getNumberOfHosts opt db = length (remdups (map sh_id (ht_defs (st_data db))))"

section \<open>Synchronisation with a monitoring server\<close>

text \<open>
  \<open>syncHosts\<close> and \<open>syncHostgroups\<close> compare the current entries of a server, in a map by identifier, with
  the incoming ones in the same way, given the accessors of the identifier and of the name.
\<close>

definition name_changed :: "('a \<Rightarrow> string) \<Rightarrow> ('a \<Rightarrow> 'n) \<Rightarrow> 'a \<Rightarrow> (string \<times> 'a) list \<Rightarrow> bool" where
  "name_changed idf name new current \<longleftrightarrow>
     (case map_of current (idf new) of None \<Rightarrow> False | Some d \<Rightarrow> name d \<noteq> name new)"

definition isHostNameChanged :: "server_host_def \<Rightarrow> (string \<times> server_host_def) list \<Rightarrow> bool" where
  "isHostNameChanged = name_changed sh_hostIdInServer sh_name"

definition isHostgroupNameChanged :: "hostgroup \<Rightarrow> (string \<times> hostgroup) list \<Rightarrow> bool" where
  "isHostgroupNameChanged = name_changed hg_idInServer hg_name"

text \<open>The loop that picks the entries to add: \<open>erase\<close> is not reached for an entry whose name changed.\<close>

fun sync_loop ::
  "('a \<Rightarrow> string) \<Rightarrow> ('a \<Rightarrow> (string \<times> 'a) list \<Rightarrow> bool) \<Rightarrow> 'a list \<Rightarrow> (string \<times> 'a) list \<Rightarrow> 'a list \<Rightarrow> (string \<times> 'a) list \<times> 'a list" where
  "sync_loop idf changed [] current added = (current, added)"
| "sync_loop idf changed (new # news) current added =
     (if \<not> changed new current \<and> map_of current (idf new) \<noteq> None
      then sync_loop idf changed news (std_map_erase (idf new) current) added
      else sync_loop idf changed news current (added @ [new]))"

text \<open>The result holds what \<open>wasStoredHostsChanged\<close> returns afterwards.\<close>

definition syncHosts ::
  "host_env \<Rightarrow> server_host_def list \<Rightarrow> int \<Rightarrow> (string \<times> int) list option \<Rightarrow> host_db trx_hooks option \<Rightarrow> host_db
     \<Rightarrow> (hterr \<times> bool \<times> (string \<times> int) list option \<times> host_db) res" where
  "syncHosts env svHostDefs serverId hostIdMap hooks db =
     (let option = setStatusSet (mk_hosts_option (system_host_option env synapseHostsQueryOption serverId)) [HOST_STAT_NORMAL]
      in bindR (getServerHostDefs env option db) (\<lambda>(err, currHosts).
           let currValidHosts = fold (\<lambda>d m. std_map_put (sh_hostIdInServer d) d m) currHosts [];
               picked = sync_loop sh_hostIdInServer isHostNameChanged svHostDefs currValidHosts [];
               serverHostDefs = snd picked @ map (\<lambda>(_, d). d\<lparr>sh_status := HOST_STAT_REMOVED\<rparr>) (fst picked)
           in if serverHostDefs = [] then Inr (HTERR_OK, True, hostIdMap, db)
              else bindR (upsertHosts env serverHostDefs hostIdMap hooks db) (\<lambda>(db, hostIdMap). Inr (HTERR_OK, False, hostIdMap, db))))"

definition syncHostgroups ::
  "host_env \<Rightarrow> hostgroup list \<Rightarrow> int \<Rightarrow> host_db trx_hooks option \<Rightarrow> host_db \<Rightarrow> (hterr \<times> host_db) res" where
  "syncHostgroups env incoming serverId hooks db =
     bindR (getHostgroups env \<lparr>gs_base = system_host_option env synapseHostgroupsQueryOption serverId, gs_hostgroupName = []\<rparr> db)
       (\<lambda>(err, currHostgroups).
         let currentHostgroupMap = fold (\<lambda>g m. std_map_put (hg_idInServer g) g m) currHostgroups [];
             picked = sync_loop hg_idInServer isHostgroupNameChanged incoming currentHostgroupMap [];
             invalidIds = map (\<lambda>(_, g). hg_id g) (fst picked)
         in bindR (if invalidIds = [] then Inr (err, db) else deleteHostgroupList env invalidIds db) (\<lambda>(err, db).
            bindR (if snd picked = [] then Inr (db, ()) else upsertHostgroups env (snd picked) hooks db) (\<lambda>(db, _).
              Inr (err, db))))"

text \<open>The memberships, in a map of maps by hostgroup and host.\<close>

definition member_map_insert ::
  "hostgroup_member \<Rightarrow> (string \<times> (string \<times> hostgroup_member) list) list \<Rightarrow> (string \<times> (string \<times> hostgroup_member) list) list" where
  "member_map_insert m mm =
     (let hosts = (case map_of mm (hm_hostgroupIdInServer m) of None \<Rightarrow> [] | Some hosts \<Rightarrow> hosts)
      in std_map_put (hm_hostgroupIdInServer m) (std_map_put (hm_hostIdInServer m) m hosts) mm)"

fun sync_members_loop ::
  "hostgroup_member list \<Rightarrow> (string \<times> (string \<times> hostgroup_member) list) list \<Rightarrow> hostgroup_member list
     \<Rightarrow> (string \<times> (string \<times> hostgroup_member) list) list \<times> hostgroup_member list" where
  "sync_members_loop [] mm members = (mm, members)"
| "sync_members_loop (new # news) mm members =
     (case map_of mm (hm_hostgroupIdInServer new) of
        None \<Rightarrow> sync_members_loop news mm (members @ [new])
      | Some hosts \<Rightarrow>
          if map_of hosts (hm_hostIdInServer new) \<noteq> None
          then sync_members_loop news
                 (std_map_put (hm_hostgroupIdInServer new) (std_map_erase (hm_hostIdInServer new) hosts) mm) members
          else sync_members_loop news mm (members @ [new]))"

text \<open>The error of the deletion is not passed on.\<close>

definition syncHostgroupMembers ::
  "host_env \<Rightarrow> hostgroup_member list \<Rightarrow> int \<Rightarrow> host_db trx_hooks option \<Rightarrow> host_db \<Rightarrow> (hterr \<times> host_db) res" where
  "syncHostgroupMembers env incoming serverId hooks db =
     bindR (getHostgroupMembers env (system_host_option env synapseHostgroupMembersQueryOption serverId) db)
       (\<lambda>(err, currMembers).
         let picked = sync_members_loop incoming (fold member_map_insert currMembers []) [];
             invalidIds = concat (map (\<lambda>(_, hosts). map (\<lambda>(_, m). hm_id m) hosts) (fst picked))
         in bindR (if invalidIds = [] then Inr (err, db) else deleteHostgroupMemberList env invalidIds db) (\<lambda>(err, db).
            bindR (if snd picked = [] then Inr (db, ()) else upsertHostgroupMembers env (snd picked) hooks db) (\<lambda>(db, _).
              Inr (HTERR_OK, db))))"

end
