(* ===== verification/Host_Query.thy ===== *)
theory Host_Query
  imports Host_Tables Query_Condition User_Access
begin

text \<open>
  The statements of the tables of hosts: the keys of the tables interpret \<open>keyed_table\<close>, and the
  conditions that the synchronisations build select the rows of one registered server.
\<close>

section \<open>Keys\<close>

abbreviation def_key :: "server_host_def \<Rightarrow> int \<times> string" where
  "def_key d \<equiv> (sh_serverId d, sh_hostIdInServer d)"

abbreviation group_key :: "hostgroup \<Rightarrow> int \<times> string" where
  "group_key g \<equiv> (hg_serverId g, hg_idInServer g)"

abbreviation member_key :: "hostgroup_member \<Rightarrow> int \<times> string \<times> string" where
  "member_key m \<equiv> (hm_serverId m, hm_hostIdInServer m, hm_hostgroupIdInServer m)"

interpretation defs: keyed_table def_keys def_key
  by unfold_locales (simp_all add: def_keys_def)

interpretation groups: keyed_table group_keys group_key
  by unfold_locales (simp_all add: group_keys_def)

interpretation members: keyed_table member_keys member_key
  by unfold_locales (simp_all add: member_keys_def)

lemma keys_simps [simp]:
  "tk_id def_keys = sh_id" "tk_id group_keys = hg_id" "tk_id member_keys = hm_id"
  "tk_setId def_keys i d = d\<lparr>sh_id := i\<rparr>" "tk_setId group_keys i g = g\<lparr>hg_id := i\<rparr>" "tk_setId member_keys i m = m\<lparr>hm_id := i\<rparr>"
  by (simp_all add: def_keys_def group_keys_def member_keys_def)

text \<open>The profiles are those that the constructor of the table profile computes.\<close>

lemma host_profiles:
  "mk_table_profile ''server_host_def'' COLUMN_DEF_SERVER_HOST_DEF (tp_indexDefs tableProfileServerHostDef) = Inr tableProfileServerHostDef"
  "mk_table_profile ''hostgroup_list'' COLUMN_DEF_HOSTGROUP_LIST (tp_indexDefs tableProfileHostgroupList) = Inr tableProfileHostgroupList"
  "mk_table_profile ''hostgroup_member'' COLUMN_DEF_HOSTGROUP_MEMBER (tp_indexDefs tableProfileHostgroupMember) = Inr tableProfileHostgroupMember"
  by code_simp+

section \<open>Conditions\<close>

lemma host_idents [simp]:
  "ident ''id''" "ident ''server_id''" "ident ''host_id_in_server''" "ident ''status''"
  by code_simp+

lemma addCondition_Nil [simp]: "addCondition [] c t False = c" "addCondition c [] t False = c"
  by (simp_all add: addCondition_def)

lemma system_has: "t \<noteq> NUM_OPPRVLG \<Longrightarrow> op_has system_privilege t"
  using op_has_setFlags_all [of p t for p]
  by (simp add: system_privilege_def privilege_of_user_def op_setUserId_def Let_def USER_ID_SYSTEM_def INVALID_USER_ID_def)

definition server_cond :: "host_env \<Rightarrow> string \<Rightarrow> int \<Rightarrow> sql_cond" where
  "server_cond env sc s = add_cond (c_valid (he_validServers env) sc) (paren [[AtEq sc (VInt s)]]) ADD_TYPE_AND"

lemma server_cond_ok [simp]:
  assumes "ident sc"
  shows "cond_ok (server_cond env sc s)" "no_gap (server_cond env sc s)" "tight (server_cond env sc s)"
proof -
  show "cond_ok (server_cond env sc s)"
    unfolding server_cond_def by (rule cond_ok_add) (use assms in \<open>auto simp: c_valid_def paren_def\<close>)
  then show "no_gap (server_cond env sc s)" by (simp add: cond_ok_def no_gap_def)
  show "tight (server_cond env sc s)"
    unfolding server_cond_def by (rule tight_add_and) (simp_all add: tight_def paren_def c_valid_def)
qed

lemma system_option_fields:
  fixes env sy s
  defines "opt \<equiv> system_host_option env sy s"
  shows "ho_excludeDefunctServers opt" "getValidServerIdSet opt = he_validServers env" "ho_has opt OPPRVLG_GET_ALL_SERVER"
    "ho_targetServerId opt = s" "ho_targetHostId opt = ALL_LOCAL_HOSTS" "ho_targetHostgroupId opt = ALL_HOST_GROUPS"
    "ho_synapse opt = sy" "\<not> ho_tableNameAlways opt" "\<not> isHostgroupUsed opt" "makeConditionHostsFilter opt = Inr []"
  unfolding opt_def
  by (simp_all add: system_host_option_def mk_host_option_def setTargetServerId_def getValidServerIdSet_def system_has
      isHostgroupUsed_def isHostgroupEnumerationInCondition_def makeConditionHostsFilter_def makeConditionSelectedServers_def makeConditionExcludedServers_def
        makeConditionSelectedHostgroups_def makeConditionExcludedHostgroups_def makeConditionSelectedHosts_def
        makeConditionExcludedHosts_def filter_step_def addCondition_def)

lemma system_condition:
  assumes "getServerIdColumnName (system_host_option env sy s) = Inr sc" "s \<noteq> ALL_SERVERS"
  shows "getCondition (system_host_option env sy s) = Inr (render (server_cond env sc s))"
proof -
  let ?o = "system_host_option env sy s"
  have "makeConditionTargetIds ?o = Inr (render (paren [[AtEq sc (VInt s)]]))"
    using assms by (simp add: makeConditionTargetIds_def system_option_fields addCondition_def text_defs render_def paren_def render_par_atom)
  then show ?thesis
    using addCondition_render [of "c_valid (he_validServers env) sc" "paren [[AtEq sc (VInt s)]]" ADD_TYPE_AND]
      addCondition_render [of "server_cond env sc s" "[]" ADD_TYPE_AND] assms(1)
    by (simp add: getCondition_def system_option_fields makeConditionServerSet_render server_cond_def)
qed

lemma server_cond_selects: "selects (server_cond env sc s) row \<longleftrightarrow> row sc = VInt s \<and> s \<in> set (he_validServers env)"
proof -
  have "tight (c_valid (he_validServers env) sc)" "tight (paren [[AtEq sc (VInt s)]])" by (simp_all add: tight_def paren_def c_valid_def)
  then show ?thesis by (auto simp: server_cond_def selects_add_and selects_c_valid holds_def)
qed

lemma system_columns:
  "getServerIdColumnName (system_host_option env synapseHostsQueryOption s) = Inr ''server_id''"
  "getServerIdColumnName (system_host_option env synapseHostgroupsQueryOption s) = Inr ''server_id''"
  "getServerIdColumnName (system_host_option env synapseHostgroupMembersQueryOption s) = Inr ''server_id''"
  by (simp_all add: getServerIdColumnName_def getColumnNameCommon_def system_option_fields synapseHostsQueryOption_def
      synapseHostgroupsQueryOption_def synapseHostgroupMembersQueryOption_def tableProfileServerHostDef_def
      tableProfileHostgroupList_def tableProfileHostgroupMember_def tp_numColumns_def getColumnName_def
      COLUMN_DEF_SERVER_HOST_DEF_def COLUMN_DEF_HOSTGROUP_LIST_def COLUMN_DEF_HOSTGROUP_MEMBER_def column_def)

locale host_env_ok = user_engine_ok "he_engine env" for env :: host_env
begin

lemma rows_render: "cond_ok c \<Longrightarrow> where_rows (he_engine env) row (render c) = (\<lambda>r. selects c (row r))"
  by (auto simp: where_rows_def fun_eq_iff matches_render cond_ok_def no_gap_def render_eq_Nil selects_def)

lemma rows_host_id: "where_rows (he_engine env) host_row (''id='' @ dec_int i) = (\<lambda>h. hl_id h = i)"
  using rows_render [of "[[AtEq ''id'' (VInt i)]]" host_row] by (simp add: render_single enc_int_def selects_def holds_def host_row_def)

lemma rows_def_key:
  "where_rows (he_engine env) def_row (''server_id='' @ dec_int s @ '' AND host_id_in_server='' @ enc_str i) =
     (\<lambda>d. def_key d = (s, cstr i))"
  using rows_render [of "[[AtEq ''server_id'' (VInt s), AtEq ''host_id_in_server'' (VStr i)]]" def_row]
  by (simp add: render_single render_def enc_int_def selects_def holds_def def_row_def)

lemma rows_id_list:
  assumes "ids \<noteq> []" "\<And>r. row r ''id'' = VInt (f r)"
  shows "where_rows (he_engine env) row (host_makeIdListCondition ids) = (\<lambda>r. f r \<in> set ids)"
proof (rule where_rows_sql)
  fix r
  have "lexes (host_makeIdListCondition ids) (atom_toks (AtIn ''id'' (map VInt ids)))"
    using lexes_ident_in_lower [of "''id''" "map VInt ids"] assms(1)
    by (simp add: host_makeIdListCondition_def inject_loop_join comp_def enc_int_def)
  then have "sql_where (host_makeIdListCondition ids) (row r) = Some (holds (row r) [[AtIn ''id'' (map VInt ids)]])"
    using assms(1) by (intro sql_where_lexes) (simp_all add: cond_toks_def host_makeIdListCondition_def)
  then show "sql_where (host_makeIdListCondition ids) (row r) = Some (f r \<in> set ids)"
    by (simp add: holds_def assms(2) image_iff)
qed (simp add: host_makeIdListCondition_def)

lemma getHostgroups_system:
  assumes "s \<noteq> ALL_SERVERS"
  shows "getHostgroups env \<lparr>gs_base = system_host_option env synapseHostgroupsQueryOption s, gs_hostgroupName = []\<rparr> db =
    Inr (HTERR_OK, filter (\<lambda>g. hg_serverId g = s \<and> s \<in> set (he_validServers env)) (ht_groups (st_data db)))"
  using assms
  by (simp add: getHostgroups_def gs_getCondition_def system_condition [OF system_columns(2)] tbl_select_def rows_render
      server_cond_selects group_row_def)

lemma getHostgroupMembers_system:
  assumes "s \<noteq> ALL_SERVERS"
  shows "getHostgroupMembers env (system_host_option env synapseHostgroupMembersQueryOption s) db =
    Inr (HTERR_OK, filter (\<lambda>m. hm_serverId m = s \<and> s \<in> set (he_validServers env)) (ht_members (st_data db)))"
  using assms
  by (simp add: getHostgroupMembers_def system_condition [OF system_columns(3)] tbl_select_def rows_render
      server_cond_selects member_row_def)

lemma getServerHostDefs_system:
  assumes "s \<noteq> ALL_SERVERS"
  shows "getServerHostDefs env (setStatusSet (mk_hosts_option (system_host_option env synapseHostsQueryOption s)) [HOST_STAT_NORMAL]) db =
    Inr (HTERR_OK, filter (\<lambda>d. sh_serverId d = s \<and> s \<in> set (he_validServers env) \<and> sh_status d = HOST_STAT_NORMAL) (ht_defs (st_data db)))"
proof -
  let ?st = "[[AtIn ''status'' [VInt HOST_STAT_NORMAL]]]" and ?sv = "server_cond env ''server_id'' s"
  let ?c = "add_cond ?sv ?st ADD_TYPE_AND"
  have ok: "cond_ok ?c" by (intro cond_ok_add) simp_all
  have st: "render ?st = ''status IN ('' @ inject_loop True '','' (map dec_int [HOST_STAT_NORMAL]) [] @ '')''"
    by (simp add: render_single inject_loop_join enc_int_def)
  have "addCondition (render ?sv) (render ?st) ADD_TYPE_AND False = render ?c" by (rule addCondition_render) simp_all
  then have "hs_getCondition (setStatusSet (mk_hosts_option (system_host_option env synapseHostsQueryOption s)) [HOST_STAT_NORMAL]) = Inr (render ?c)"
    using assms st by (simp add: hs_getCondition_def setStatusSet_def mk_hosts_option_def system_condition [OF system_columns(1)] host_stats)
  moreover have "selects ?c (def_row d) \<longleftrightarrow> sh_serverId d = s \<and> s \<in> set (he_validServers env) \<and> sh_status d = HOST_STAT_NORMAL" for d
  proof -
    have "tight ?st" by (simp add: tight_def)
    then show ?thesis by (simp add: selects_add_and server_cond_selects selects_def [of ?st] holds_def def_row_def)
  qed
  ultimately show ?thesis
    using ok by (simp add: getServerHostDefs_def setStatusSet_def mk_hosts_option_def system_option_fields tbl_select_def rows_render)
qed

end

end
