(* ===== verification/Host_Sync.thy ===== *)
theory Host_Sync
  imports Host_Query
begin

text \<open>
  What the tables of hosts promise: an upsert changes the row of its key only and keeps identifiers, and
  after a synchronisation the tables hold what the monitoring server reported.
\<close>

section \<open>Transactions\<close>

lemma table_trx_run: "table_trx f None db x = (case f (st_data db) x of Inl _ \<Rightarrow> Inl HatoholException | Inr (t, y) \<Rightarrow> Inr (\<lparr>st_data = t, st_base = None\<rparr>, y))"
  by (auto simp: table_trx_def table_proc_def runTransaction_def trx_try_def run_hook_def mem_agent_def split: sum.splits prod.splits)

lemma find_filter: "find P xs = (case filter P xs of [] \<Rightarrow> None | x # _ \<Rightarrow> Some x)"
  by (induction xs) simp_all

section \<open>Maps from lists\<close>

lemma fold_upd_notin: "k \<notin> key ` set ds \<Longrightarrow> fold (\<lambda>d f. f(key d \<mapsto> val d)) ds f k = f k"
  by (induction ds arbitrary: f) auto

lemma fold_upd_in:
  assumes "k \<in> key ` set ds" "\<And>e. e \<in> set ds \<Longrightarrow> key e = k \<Longrightarrow> val e = v"
  shows "fold (\<lambda>d f. f(key d \<mapsto> val d)) ds f k = Some v"
  using assms
proof (induction ds arbitrary: f)
  case (Cons e ds)
  show ?case
  proof (cases "k \<in> key ` set ds")
    case True
    then show ?thesis using Cons.IH Cons.prems(2) by simp
  next
    case False
    then have "key e = k" using Cons.prems(1) by auto
    then show ?thesis using fold_upd_notin [OF False, of val "f(k \<mapsto> val e)"] Cons.prems(2) by (simp del: fun_upd_apply add: fun_upd_same)
  qed
qed simp

lemma map_of_fold_put:
  assumes "std_map_wf m" "distinct (map f rs)"
  shows "std_map_wf (fold (\<lambda>d. std_map_put (f d) d) rs m)
    \<and> map_of (fold (\<lambda>d. std_map_put (f d) d) rs m) k = (case find (\<lambda>d. f d = k) rs of Some d \<Rightarrow> Some d | None \<Rightarrow> map_of m k)"
  using assms
proof (induction rs arbitrary: m)
  case (Cons r rs)
  have "find (\<lambda>d. f d = k) rs = None" if "f r = k"
    using Cons.prems(2) that by (auto simp: find_None_iff image_iff)
  then show ?case using Cons.IH [OF std_map_wf_put [OF Cons.prems(1)], of "f r" r] Cons.prems
    by (auto simp: map_of_std_map_put split: option.splits)
qed simp

section \<open>The loop of the synchronisations\<close>

text \<open>An entry that is stored with the reported name is left alone.\<close>

definition stored_same :: "('a \<Rightarrow> string) \<Rightarrow> ('a \<Rightarrow> 'n) \<Rightarrow> (string \<times> 'a) list \<Rightarrow> 'a \<Rightarrow> bool" where
  "stored_same idf name cm n \<longleftrightarrow> (case map_of cm (idf n) of None \<Rightarrow> False | Some d \<Rightarrow> name d = name n)"

lemma sync_loop_result:
  fixes name :: "'a \<Rightarrow> 'n"
  assumes "std_map_wf cm" "distinct (map idf news)"
  defines "r \<equiv> sync_loop idf (name_changed idf name) news cm"
  shows "snd (r acc) = acc @ filter (\<lambda>n. \<not> stored_same idf name cm n) news
    \<and> std_map_wf (fst (r acc))
    \<and> map_of (fst (r acc)) i = (if \<exists>n \<in> set news. idf n = i \<and> stored_same idf name cm n then None else map_of cm i)"
  unfolding r_def using assms(1,2)
proof (induction news arbitrary: cm acc)
  case (Cons n news)
  show ?case
  proof (cases "stored_same idf name cm n")
    case True
    let ?cm = "std_map_erase (idf n) cm"
    have step: "sync_loop idf (name_changed idf name) (n # news) cm acc = sync_loop idf (name_changed idf name) news ?cm acc"
      using True by (auto simp: stored_same_def name_changed_def split: option.splits)
    have other: "stored_same idf name ?cm e = stored_same idf name cm e" if "e \<in> set news" for e
      using Cons.prems(2) that by (auto simp: stored_same_def map_of_std_map_erase image_iff)
    then have "filter (\<lambda>e. \<not> stored_same idf name ?cm e) news = filter (\<lambda>e. \<not> stored_same idf name cm e) news" by (simp cong: filter_cong)
    moreover have "(\<exists>e \<in> set news. idf e = i \<and> stored_same idf name ?cm e) \<longleftrightarrow> (\<exists>e \<in> set news. idf e = i \<and> stored_same idf name cm e)"
      using other by auto
    ultimately show ?thesis
      unfolding step using Cons.IH [OF std_map_wf_erase [OF Cons.prems(1)], of "idf n" acc] Cons.prems(2) True
      by (auto simp: map_of_std_map_erase)
  next
    case False
    then have step: "sync_loop idf (name_changed idf name) (n # news) cm acc = sync_loop idf (name_changed idf name) news cm (acc @ [n])"
      by (auto simp: stored_same_def name_changed_def split: option.splits)
    show ?thesis unfolding step using Cons.IH [OF Cons.prems(1), of "acc @ [n]"] Cons.prems(2) False by auto
  qed
qed simp

lemma sync_loop_fst:
  assumes "std_map_wf cm" "distinct (map idf news)"
  shows "(i, d) \<in> set (fst (sync_loop idf (name_changed idf name) news cm acc)) \<longleftrightarrow>
    map_of cm i = Some d \<and> \<not> (\<exists>n \<in> set news. idf n = i \<and> stored_same idf name cm n)"
proof -
  note r = sync_loop_result [OF assms, where name = name and acc = acc and i = i]
  then have "distinct (map fst (fst (sync_loop idf (name_changed idf name) news cm acc)))" by (simp add: std_map_wf_distinct)
  from map_of_eq_Some_iff [OF this, of i d] r show ?thesis by (auto split: if_splits)
qed

section \<open>Hosts\<close>

text \<open>The rows of hosts are well formed; names and identifiers are as the database stores them.\<close>

definition def_ok :: "server_host_def \<Rightarrow> bool" where
  "def_ok d \<longleftrightarrow> nul \<notin> set (sh_hostIdInServer d) \<and> nul \<notin> set (sh_name d) \<and> (sh_status d \<noteq> HOST_STAT_SELF_MONITOR \<longrightarrow> sh_name d \<noteq> [])"

definition defs_inv :: "host_tables \<Rightarrow> bool" where
  "defs_inv t \<longleftrightarrow> distinct (map sh_id (ht_defs t)) \<and> distinct (map def_key (ht_defs t))
     \<and> (\<forall>d \<in> set (ht_defs t). sh_id d \<noteq> 0 \<and> def_ok d \<and> 0 \<le> sh_hostId d)"

lemma defs_inv_wf: "defs_inv t \<longleftrightarrow> defs.wf_rows (ht_defs t) \<and> (\<forall>d \<in> set (ht_defs t). def_ok d \<and> 0 \<le> sh_hostId d)"
  by (auto simp: defs_inv_def defs.wf_rows_def)

definition def_value :: "server_host_def \<Rightarrow> string \<times> int" where
  "def_value d = (sh_name d, sh_status d)"

definition def_values :: "host_tables \<Rightarrow> int \<times> string \<Rightarrow> (string \<times> int) option" where
  "def_values t k = map_option def_value (defs.lookup (ht_defs t) k)"

text \<open>A host to upsert is new to the caller, or carries the identifiers of its row.\<close>

definition def_ident :: "host_tables \<Rightarrow> int \<times> string \<Rightarrow> (int \<times> int) option" where
  "def_ident t k = map_option (\<lambda>r. (sh_id r, sh_hostId r)) (defs.lookup (ht_defs t) k)"

definition ready :: "host_tables \<Rightarrow> server_host_def \<Rightarrow> bool" where
  "ready t d \<longleftrightarrow> def_ok d \<and> (sh_id d = 0 \<and> sh_hostId d = AUTO_ASSIGNED_ID \<or> def_ident t (def_key d) = Some (sh_id d, sh_hostId d))"

lemma ready_mono: "ready t d \<Longrightarrow> def_ident t \<subseteq>\<^sub>m def_ident t' \<Longrightarrow> ready t' d"
  by (auto simp: ready_def map_le_def dom_def)

text \<open>The map for the caller holds the global identifier of every host that was given.\<close>

definition ids_given :: "int \<Rightarrow> server_host_def list \<Rightarrow> host_tables \<Rightarrow> (string \<times> int) list option \<Rightarrow> bool" where
  "ids_given s ds t m \<longleftrightarrow> (case m of None \<Rightarrow> True | Some m \<Rightarrow>
     std_map_wf m \<and> (\<forall>d \<in> set ds. map_of m (sh_hostIdInServer d) = map_option snd (def_ident t (s, sh_hostIdInServer d))))"

lemma ids_given_subset: "ids_given s ds t m \<Longrightarrow> set ds' \<subseteq> set ds \<Longrightarrow> ids_given s ds' t m"
  by (auto simp: ids_given_def split: option.splits)

context host_env_ok
begin

lemma selectServerHostDef_lookup:
  assumes "def_ok d"
  shows "selectServerHostDef env d t = defs.lookup (ht_defs t) (def_key d)"
proof -
  have "tbl_select (he_engine env) def_row (''server_id='' @ dec_int (sh_serverId d) @ '' AND host_id_in_server='' @ enc_str (sh_hostIdInServer d)) (ht_defs t)
    = filter (\<lambda>r. def_key r = def_key d) (ht_defs t)"
    using assms by (simp add: tbl_select_def rows_def_key [simplified] def_ok_def)
  then show ?thesis
    unfolding selectServerHostDef_def defs.lookup_def find_filter
    by (simp split: list.splits)
qed

lemma upsert_defs_effect:
  assumes "defs_inv t" "def_ok d" "0 \<le> h" "sh_id d = 0 \<or> (\<exists>r. defs.lookup (ht_defs t) (def_key d) = Some r \<and> sh_id r = sh_id d)"
  obtains rows did i where "upsert_defs env d h t = Inr (t\<lparr>ht_defs := rows\<rparr>, did)" "defs_inv (t\<lparr>ht_defs := rows\<rparr>)"
    "defs.lookup rows = (defs.lookup (ht_defs t))(def_key d := Some (d\<lparr>sh_hostId := h, sh_id := i\<rparr>))"
    "\<forall>r. defs.lookup (ht_defs t) (def_key d) = Some r \<longrightarrow> i = sh_id r" "defs.lookup (ht_defs t) (def_key d) = None \<longrightarrow> \<not> did"
proof -
  let ?d = "d\<lparr>sh_hostId := h, sh_hostIdInServer := cstr (sh_hostIdInServer d), sh_name := cstr (sh_name d)\<rparr>"
  have d: "?d = d\<lparr>sh_hostId := h\<rparr>" using assms(2) by (simp add: def_ok_def)
  have wf: "defs.wf_rows (ht_defs t)" using assms(1) by (simp add: defs_inv_wf)
  have all: "\<forall>d \<in> set (ht_defs t). def_ok d \<and> 0 \<le> sh_hostId d" using assms(1) by (simp add: defs_inv_wf)
  have ok: "def_ok (d\<lparr>sh_hostId := h, sh_id := i\<rparr>)" for i using assms(2) by (simp add: def_ok_def)
  show thesis
  proof (cases "sh_id d = 0")
    case True
    define i where "i = (case defs.lookup (ht_defs t) (def_key d) of Some r \<Rightarrow> sh_id r | None \<Rightarrow> en_nextId (he_engine env) (map sh_id (ht_defs t)))"
    have i: "i = (case defs.lookup (ht_defs t) (def_key (d\<lparr>sh_hostId := h\<rparr>)) of Some r \<Rightarrow> tk_id def_keys r
        | None \<Rightarrow> en_nextId (he_engine env) (map (tk_id def_keys) (ht_defs t)))"
      unfolding i_def keys_simps by simp
    have "\<exists>rows did. agent_upsert (he_agent env) (he_engine env) def_keys (d\<lparr>sh_hostId := h\<rparr>) (ht_defs t) = Inr (rows, did)
      \<and> defs.wf_rows rows \<and> defs.lookup rows = (defs.lookup (ht_defs t))(def_key d := Some (d\<lparr>sh_hostId := h, sh_id := i\<rparr>))
      \<and> set rows = insert (d\<lparr>sh_hostId := h, sh_id := i\<rparr>) {r \<in> set (ht_defs t). def_key r \<noteq> def_key d}
      \<and> (defs.lookup (ht_defs t) (def_key d) = None \<longrightarrow> \<not> did)"
      using defs.upsert_auto_ex [OF user_engine_ok_axioms wf _ i, of "he_agent env"] True by simp
    then obtain rows did where u: "agent_upsert (he_agent env) (he_engine env) def_keys (d\<lparr>sh_hostId := h\<rparr>) (ht_defs t) = Inr (rows, did)"
      "defs.wf_rows rows" "defs.lookup rows = (defs.lookup (ht_defs t))(def_key d := Some (d\<lparr>sh_hostId := h, sh_id := i\<rparr>))"
      "set rows = insert (d\<lparr>sh_hostId := h, sh_id := i\<rparr>) {r \<in> set (ht_defs t). def_key r \<noteq> def_key d}"
      "defs.lookup (ht_defs t) (def_key d) = None \<longrightarrow> \<not> did" by (elim exE conjE) (rule that)
    have inv: "defs_inv (t\<lparr>ht_defs := rows\<rparr>)" using u(2,4) all ok assms(3) by (auto simp: defs_inv_wf)
    have "upsert_defs env d h t = Inr (t\<lparr>ht_defs := rows\<rparr>, did)" by (simp add: upsert_defs_def d u(1))
    then show thesis using that [OF _ inv u(3)] u(5) i_def by auto
  next
    case False
    then obtain r where "defs.lookup (ht_defs t) (def_key d) = Some r" "sh_id r = sh_id d" using assms(4) by blast
    moreover from this have r: "r \<in> set (ht_defs t)" "def_key r = def_key d" using defs.lookup_Some [OF wf] by auto
    ultimately have id: "tk_id def_keys (d\<lparr>sh_hostId := h\<rparr>) = tk_id def_keys r" and key: "def_key (d\<lparr>sh_hostId := h\<rparr>) = def_key r"
      and lk: "defs.lookup (ht_defs t) (def_key d) = Some r" by simp_all
    let ?rows = "map (\<lambda>s. if tk_id def_keys s = tk_id def_keys r then d\<lparr>sh_hostId := h\<rparr> else s) (ht_defs t)"
    obtain did where "agent_upsert (he_agent env) (he_engine env) def_keys (d\<lparr>sh_hostId := h\<rparr>) (ht_defs t) = Inr (?rows, did)"
      using defs.upsert_own [OF wf r(1) id key] by blast
    then have "upsert_defs env d h t = Inr (t\<lparr>ht_defs := ?rows\<rparr>, did)" by (simp add: upsert_defs_def d)
    note rep = defs.replace_row [OF wf r(1) id key]
    have inv: "defs_inv (t\<lparr>ht_defs := ?rows\<rparr>)" using rep(1,3) all ok [of "sh_id d"] assms(3) by (auto simp: defs_inv_wf)
    have "d\<lparr>sh_hostId := h, sh_id := sh_id r\<rparr> = d\<lparr>sh_hostId := h\<rparr>" using id by (cases d) simp
    then have "defs.lookup ?rows = (defs.lookup (ht_defs t))(def_key d := Some (d\<lparr>sh_hostId := h, sh_id := sh_id r\<rparr>))"
      using rep(2) r(2) by simp
    then show thesis using that [OF \<open>upsert_defs env d h t = _\<close> inv] lk by simp
  qed
qed

text \<open>The procedure of \<open>upsertHost\<close> stores name and status under the key and keeps the identifiers of a row.\<close>

lemma upsertHost_proc_effect:
  assumes "defs_inv t" "ready t d"
  obtains t' h r where "upsertHost_proc env d t x = Inr (t', h)" "defs_inv t'" "def_ident t \<subseteq>\<^sub>m def_ident t'"
    "defs.lookup (ht_defs t') = (defs.lookup (ht_defs t))(def_key d \<mapsto> r)" "def_value r = def_value d" "h = sh_hostId r"
    "t' = t\<lparr>ht_hosts := ht_hosts t', ht_defs := ht_defs t'\<rparr>"
proof -
  note result = that
  have ok: "def_ok d" using assms(2) by (simp add: ready_def)
  note sel = selectServerHostDef_lookup [OF ok]
  have wf: "defs.wf_rows (ht_defs t)" using assms(1) by (simp add: defs_inv_wf)
  have stored: thesis
    if f: "upsertHost_proc env d t x = bindR (upsert_defs env d h t1) (\<lambda>(t2, did). if did \<and> b then X t2 else Inr (t2, h))"
      and t1: "t1 = t\<lparr>ht_hosts := hs\<rparr>" and h: "0 \<le> h" and b: "b \<Longrightarrow> defs.lookup (ht_defs t) (def_key d) = None"
      and keep: "\<And>r. defs.lookup (ht_defs t) (def_key d) = Some r \<Longrightarrow> h = sh_hostId r" for h b X t1 hs
  proof -
    have inv: "defs_inv t1" "ht_defs t1 = ht_defs t" using assms(1) t1 by (simp_all add: defs_inv_def)
    have id: "sh_id d = 0 \<or> (\<exists>r. defs.lookup (ht_defs t1) (def_key d) = Some r \<and> sh_id r = sh_id d)"
      using assms(2) inv(2) by (auto simp: ready_def def_ident_def)
    obtain rows did i where u: "upsert_defs env d h t1 = Inr (t1\<lparr>ht_defs := rows\<rparr>, did)" "defs_inv (t1\<lparr>ht_defs := rows\<rparr>)"
      "defs.lookup rows = (defs.lookup (ht_defs t1))(def_key d := Some (d\<lparr>sh_hostId := h, sh_id := i\<rparr>))"
      "\<forall>r. defs.lookup (ht_defs t1) (def_key d) = Some r \<longrightarrow> i = sh_id r" "defs.lookup (ht_defs t1) (def_key d) = None \<longrightarrow> \<not> did"
      by (rule upsert_defs_effect [OF inv(1) ok h id])
    have "upsertHost_proc env d t x = Inr (t1\<lparr>ht_defs := rows\<rparr>, h)" using f u(1,5) b inv(2) by auto
    moreover have "def_ident t \<subseteq>\<^sub>m def_ident (t1\<lparr>ht_defs := rows\<rparr>)"
      using u(4) keep inv(2) by (auto simp: map_le_def def_ident_def u(3) dom_def)
    ultimately show thesis
      by (intro result [OF _ u(2), of h "d\<lparr>sh_hostId := h, sh_id := i\<rparr>"]) (use u(3) inv(2) t1 in \<open>simp_all add: def_value_def\<close>)
  qed
  show thesis
  proof (cases "defs.lookup (ht_defs t) (def_key d)")
    case None
    then have auto: "sh_hostId d = AUTO_ASSIGNED_ID" using assms(2) by (auto simp: ready_def def_ident_def)
    let ?h = "en_nextId (he_engine env) (map hl_id (ht_hosts t))"
    let ?t = "t\<lparr>ht_hosts := insert_row (he_engine env) host_keys \<lparr>hl_id = AUTO_INCREMENT_VALUE, hl_name = cstr (sh_name d)\<rparr> (ht_hosts t)\<rparr>"
    show thesis
      by (rule stored [of ?h ?t True "\<lambda>t. let t = removeHost env ?h t in case selectServerHostDef env d t of
            None \<Rightarrow> Inl HatoholException | Some cur \<Rightarrow> Inr (t, sh_hostId cur)"])
         (use None nextId_pos [THEN less_imp_le] in \<open>auto simp: upsertHost_proc_def sel auto proc_addHost_def add_host_def Let_def\<close>)
  next
    case (Some cur)
    have cur: "cur \<in> set (ht_defs t)" "def_key cur = def_key d" using Some defs.lookup_Some [OF wf] by auto
    show thesis
    proof (cases "isChanged d cur")
      case True
      have "sh_hostId d = AUTO_ASSIGNED_ID \<or> sh_hostId cur = sh_hostId d" using assms(2) Some by (auto simp: ready_def def_ident_def)
      then show thesis
        by (intro stored [of "sh_hostId cur" t False, where hs = "ht_hosts t"])
           (use Some True cur assms(1) in \<open>auto simp: upsertHost_proc_def sel defs_inv_def\<close>)
    next
      case False
      then have "upsertHost_proc env d t x = Inr (t, sh_hostId cur)" by (simp add: upsertHost_proc_def sel Some)
      moreover have "def_value cur = def_value d" using False by (auto simp: isChanged_def def_value_def)
      ultimately show thesis using that [OF _ assms(1), of _ cur] Some by (simp add: fun_upd_idem)
    qed
  qed
qed

lemma ready_check: "ready t d \<Longrightarrow> defs_inv t \<Longrightarrow> upsertHost_check d"
proof -
  assume a: "ready t d" "defs_inv t"
  have "0 \<le> sh_hostId d"
  proof (cases "def_ident t (def_key d) = Some (sh_id d, sh_hostId d)")
    case True
    then obtain r where "defs.lookup (ht_defs t) (def_key d) = Some r" "sh_hostId r = sh_hostId d" by (auto simp: def_ident_def)
    moreover have "defs.wf_rows (ht_defs t)" using a(2) by (simp add: defs_inv_wf)
    ultimately show ?thesis using a(2) by (metis defs.lookup_Some defs_inv_wf)
  qed (use a(1) in \<open>simp add: ready_def AUTO_ASSIGNED_ID_def\<close>)
  then show ?thesis using a(1) by (simp add: upsertHost_check_def ready_def def_ok_def)
qed

lemma ids_given_step:
  assumes "ids_given s ds t m" "def_ident t \<subseteq>\<^sub>m def_ident t'" "\<forall>d \<in> set ds. def_ident t (s, sh_hostIdInServer d) \<noteq> None"
    and "def_ident t' (s, sh_hostIdInServer d) = Some (i, h)"
  shows "ids_given s (ds @ [d]) t' (map_option (std_map_put (sh_hostIdInServer d) h) m)"
proof (cases m)
  case (Some mm)
  have "def_ident t' (s, sh_hostIdInServer e) = def_ident t (s, sh_hostIdInServer e)" if "e \<in> set ds" for e
    using assms(2,3) that by (force simp: map_le_def)
  then have e: "map_of mm (sh_hostIdInServer e) = map_option snd (def_ident t' (s, sh_hostIdInServer e))" if "e \<in> set ds" for e
    using assms(1) Some that by (simp add: ids_given_def)
  have wf: "std_map_wf mm" using assms(1) Some by (simp add: ids_given_def)
  have "map_of (std_map_put (sh_hostIdInServer d) h mm) (sh_hostIdInServer e) = map_option snd (def_ident t' (s, sh_hostIdInServer e))"
    if "e \<in> set (ds @ [d])" for e
    using that e assms(4) unfolding map_of_std_map_put [OF wf]
    by (cases "sh_hostIdInServer e = sh_hostIdInServer d") auto
  then show ?thesis using wf Some by (auto simp: ids_given_def)
qed (simp add: ids_given_def)

lemma upsertHosts_fold:
  assumes "defs_inv t" "\<forall>d \<in> set ds. ready t d \<and> sh_serverId d = s"
    and "ids_given s done t m" "\<forall>d \<in> set done. def_ident t (s, sh_hostIdInServer d) \<noteq> None"
  shows "\<exists>t' m'. foldR (upsertHosts_step env) ds (t, m) = Inr (t', m') \<and> defs_inv t' \<and> def_ident t \<subseteq>\<^sub>m def_ident t'
    \<and> def_values t' = fold (\<lambda>d f. f(def_key d \<mapsto> def_value d)) ds (def_values t)
    \<and> ids_given s (done @ ds) t' m' \<and> t' = t\<lparr>ht_hosts := ht_hosts t', ht_defs := ht_defs t'\<rparr>"
  using assms
proof (induction ds arbitrary: t m "done")
  case Nil
  then show ?case by (auto simp: map_le_def)
next
  case (Cons d ds)
  obtain t1 h r where 1: "upsertHost_proc env d t INVALID_HOST_ID = Inr (t1, h)" "defs_inv t1" "def_ident t \<subseteq>\<^sub>m def_ident t1"
    "defs.lookup (ht_defs t1) = (defs.lookup (ht_defs t))(def_key d \<mapsto> r)" "def_value r = def_value d" "h = sh_hostId r"
    "t1 = t\<lparr>ht_hosts := ht_hosts t1, ht_defs := ht_defs t1\<rparr>"
    by (rule upsertHost_proc_effect [OF Cons.prems(1), of d]) (use Cons.prems(2) in auto)
  have check: "upsertHost_check d" using Cons.prems(1,2) ready_check [of t d] by simp
  have r: "def_ident t1 (s, sh_hostIdInServer d) = Some (sh_id r, h)" using Cons.prems(2) by (simp add: def_ident_def 1(4,6))
  have vals: "def_values t1 = (def_values t)(def_key d \<mapsto> def_value d)" by (auto simp: def_values_def fun_eq_iff 1(4,5))
  have d1: "\<forall>e \<in> set (done @ [d]). def_ident t1 (s, sh_hostIdInServer e) \<noteq> None"
    using Cons.prems(4) 1(3) r by (force simp: map_le_def)
  have "\<forall>e \<in> set ds. ready t1 e \<and> sh_serverId e = s" using Cons.prems(2) ready_mono [OF _ 1(3)] by simp
  from Cons.IH [OF 1(2) this ids_given_step [OF Cons.prems(3) 1(3) Cons.prems(4) r] d1]
  obtain t' m' where 2: "foldR (upsertHosts_step env) ds (t1, map_option (std_map_put (sh_hostIdInServer d) h) m) = Inr (t', m')"
    "defs_inv t'" "def_ident t1 \<subseteq>\<^sub>m def_ident t'" "def_values t' = fold (\<lambda>d f. f(def_key d \<mapsto> def_value d)) ds (def_values t1)"
    "ids_given s (done @ d # ds) t' m'" "t' = t1\<lparr>ht_hosts := ht_hosts t', ht_defs := ht_defs t'\<rparr>" by (auto simp del: fun_upd_apply)
  have "foldR (upsertHosts_step env) (d # ds) (t, m) = Inr (t', m')" using check 1(1) 2(1) by (simp add: upsertHosts_step_def)
  moreover have "def_ident t \<subseteq>\<^sub>m def_ident t'" using 1(3) 2(3) by (rule map_le_trans)
  moreover have "def_values t' = fold (\<lambda>d f. f(def_key d \<mapsto> def_value d)) (d # ds) (def_values t)" using 2(4) vals by simp
  moreover have "t' = t\<lparr>ht_hosts := ht_hosts t', ht_defs := ht_defs t'\<rparr>"
    by (subst 2(6), subst 1(7)) simp
  ultimately show ?case using 2(2,5) by (intro exI [of _ t'] exI [of _ m']) (simp del: fun_upd_apply)
qed

end

text \<open>What a report must be: hosts of the server, each once, with the identifiers left to the database.\<close>

definition reported :: "int \<Rightarrow> server_host_def list \<Rightarrow> bool" where
  "reported s news \<longleftrightarrow> distinct (map sh_hostIdInServer news)
     \<and> (\<forall>n \<in> set news. def_ok n \<and> sh_id n = 0 \<and> sh_hostId n = AUTO_ASSIGNED_ID \<and> sh_serverId n = s \<and> sh_status n = HOST_STAT_NORMAL)"

definition normal_host :: "host_tables \<Rightarrow> int \<Rightarrow> string \<Rightarrow> server_host_def option" where
  "normal_host t s i = (case defs.lookup (ht_defs t) (s, i) of None \<Rightarrow> None | Some d \<Rightarrow> if sh_status d = HOST_STAT_NORMAL then Some d else None)"

definition report_of :: "server_host_def list \<Rightarrow> string \<Rightarrow> server_host_def option" where
  "report_of news i = find (\<lambda>n. sh_hostIdInServer n = i) news"

text \<open>The value that a synchronisation stores.\<close>

definition synced_value :: "host_tables \<Rightarrow> int \<Rightarrow> server_host_def list \<Rightarrow> int \<times> string \<Rightarrow> (string \<times> int) option" where
  "synced_value t s news = (\<lambda>(s', i).
     if s' \<noteq> s then def_values t (s', i)
     else case (normal_host t s i, report_of news i) of
            (Some d, Some n) \<Rightarrow> Some (sh_name d, if sh_name d = sh_name n then HOST_STAT_NORMAL else HOST_STAT_REMOVED)
          | (Some d, None) \<Rightarrow> Some (sh_name d, HOST_STAT_REMOVED)
          | (None, Some n) \<Rightarrow> Some (sh_name n, HOST_STAT_NORMAL)
          | (None, None) \<Rightarrow> def_values t (s, i))"

lemma report_of_Some: "distinct (map sh_hostIdInServer news) \<Longrightarrow> report_of news i = Some n \<longleftrightarrow> n \<in> set news \<and> sh_hostIdInServer n = i"
  unfolding report_of_def by (induction news) (auto simp: image_iff)

lemma report_of_None: "report_of news i = None \<longleftrightarrow> i \<notin> sh_hostIdInServer ` set news"
  by (auto simp: report_of_def find_None_iff)

text \<open>The upserts that a synchronisation carries out: \<open>cm\<close> holds the normal hosts of the server.\<close>

definition normal_hosts_in :: "host_tables \<Rightarrow> int \<Rightarrow> (string \<times> server_host_def) list \<Rightarrow> bool" where
  "normal_hosts_in t s cm \<longleftrightarrow> defs_inv t \<and> std_map_wf cm \<and> (\<forall>i. map_of cm i = normal_host t s i)"

definition sync_rest :: "(string \<times> server_host_def) list \<Rightarrow> server_host_def list \<Rightarrow> server_host_def list" where
  "sync_rest cm news = map (\<lambda>(_, d). d\<lparr>sh_status := HOST_STAT_REMOVED\<rparr>) (fst (sync_loop sh_hostIdInServer isHostNameChanged news cm []))"

lemma normal_host_row:
  assumes "defs_inv t" "normal_host t s i = Some d"
  shows "d \<in> set (ht_defs t)" "def_key d = (s, i)" "sh_status d = HOST_STAT_NORMAL" "defs.lookup (ht_defs t) (s, i) = Some d"
  using assms defs.lookup_Some by (auto simp: normal_host_def defs_inv_wf split: option.splits if_splits)

lemma normal_host_value: "defs_inv t \<Longrightarrow> normal_host t s i = Some d \<Longrightarrow> def_values t (s, i) = Some (sh_name d, HOST_STAT_NORMAL)"
  using normal_host_row [of t s i d] by (simp add: def_values_def def_value_def)

lemma sync_adds:
  assumes "normal_hosts_in t s cm" "reported s news"
  shows "snd (sync_loop sh_hostIdInServer isHostNameChanged news cm []) = filter (\<lambda>n. \<not> stored_same sh_hostIdInServer sh_name cm n) news"
  using assms sync_loop_result [of cm sh_hostIdInServer news sh_name "[]"] by (simp add: normal_hosts_in_def reported_def isHostNameChanged_def)

lemma sync_rest_iff:
  assumes "normal_hosts_in t s cm" "reported s news"
  shows "e \<in> set (sync_rest cm news) \<longleftrightarrow>
    (\<exists>i d. normal_host t s i = Some d \<and> \<not> (\<exists>n \<in> set news. sh_hostIdInServer n = i \<and> stored_same sh_hostIdInServer sh_name cm n)
       \<and> e = d\<lparr>sh_status := HOST_STAT_REMOVED\<rparr>)"
proof -
  have "std_map_wf cm" "distinct (map sh_hostIdInServer news)" "\<And>i. map_of cm i = normal_host t s i"
    using assms by (simp_all add: normal_hosts_in_def reported_def)
  then show ?thesis
    using sync_loop_fst [of cm sh_hostIdInServer news _ _ sh_name "[]"] by (force simp: sync_rest_def isHostNameChanged_def)
qed

lemma sync_ready:
  assumes "normal_hosts_in t s cm" "reported s news" "d \<in> set (snd (sync_loop sh_hostIdInServer isHostNameChanged news cm []) @ sync_rest cm news)"
  shows "ready t d \<and> sh_serverId d = s"
proof (cases "d \<in> set news")
  case True
  then show ?thesis using assms(2) by (simp add: reported_def ready_def)
next
  case False
  then obtain i e where e: "normal_host t s i = Some e" "d = e\<lparr>sh_status := HOST_STAT_REMOVED\<rparr>"
    using assms(3) by (auto simp: sync_adds [OF assms(1,2)] sync_rest_iff [OF assms(1,2)])
  have inv: "defs_inv t" using assms(1) by (simp add: normal_hosts_in_def)
  then show ?thesis using normal_host_row [OF inv e(1)] e(2)
    by (auto simp: ready_def def_ident_def defs_inv_def def_ok_def host_stats)
qed

lemma sync_values:
  assumes "normal_hosts_in t s cm" "reported s news"
  shows "fold (\<lambda>d f. f(def_key d \<mapsto> def_value d)) (snd (sync_loop sh_hostIdInServer isHostNameChanged news cm []) @ sync_rest cm news) (def_values t) = synced_value t s news"
proof
  fix k :: "int \<times> string"
  obtain s' i where k: "k = (s', i)" by (cases k)
  have inv: "defs_inv t" and cm: "\<And>i. map_of cm i = normal_host t s i" using assms(1) by (simp_all add: normal_hosts_in_def)
  have news: "distinct (map sh_hostIdInServer news)" "\<And>n. n \<in> set news \<Longrightarrow> sh_serverId n = s \<and> sh_status n = HOST_STAT_NORMAL"
    using assms(2) by (simp_all add: reported_def)
  note adds = sync_adds [OF assms] and rest = sync_rest_iff [OF assms] and rep = report_of_Some [OF news(1), of i]
  let ?f = "fold (\<lambda>d f. f(def_key d \<mapsto> def_value d)) (snd (sync_loop sh_hostIdInServer isHostNameChanged news cm [])) (def_values t)"
  have same: "(\<exists>n \<in> set news. sh_hostIdInServer n = i \<and> stored_same sh_hostIdInServer sh_name cm n) \<longleftrightarrow>
      (\<exists>n d. report_of news i = Some n \<and> normal_host t s i = Some d \<and> sh_name d = sh_name n)"
    by (auto simp: stored_same_def cm rep split: option.splits)
  have in_rest: "fold (\<lambda>d f. f(def_key d \<mapsto> def_value d)) (sync_rest cm news) ?f (s, i) = Some (sh_name d, HOST_STAT_REMOVED)"
    if d: "normal_host t s i = Some d" "\<not> (\<exists>n \<in> set news. sh_hostIdInServer n = i \<and> stored_same sh_hostIdInServer sh_name cm n)" for d
  proof (rule fold_upd_in)
    show "(s, i) \<in> def_key ` set (sync_rest cm news)"
      using normal_host_row(2) [OF inv d(1)] rest [of "d\<lparr>sh_status := HOST_STAT_REMOVED\<rparr>"] d
      by (intro image_eqI [of _ _ "d\<lparr>sh_status := HOST_STAT_REMOVED\<rparr>"]) auto
    fix e assume e: "e \<in> set (sync_rest cm news)" "def_key e = (s, i)"
    then obtain j d' where "normal_host t s j = Some d'" "e = d'\<lparr>sh_status := HOST_STAT_REMOVED\<rparr>" unfolding rest by blast
    then show "def_value e = (sh_name d, HOST_STAT_REMOVED)"
      using normal_host_row(2) [OF inv, of s j d'] e(2) d(1) by (simp add: def_value_def)
  qed
  have no_rest: "fold (\<lambda>d f. f(def_key d \<mapsto> def_value d)) (sync_rest cm news) f (s', i) = f (s', i)"
    if "s' \<noteq> s \<or> normal_host t s i = None \<or> (\<exists>n \<in> set news. sh_hostIdInServer n = i \<and> stored_same sh_hostIdInServer sh_name cm n)" for f
    by (rule fold_upd_notin) (use that rest normal_host_row(2) [OF inv] in auto)
  have no_add: "?f (s', i) = def_values t (s', i)" if "s' \<noteq> s \<or> report_of news i = None \<or> (\<exists>n \<in> set news. sh_hostIdInServer n = i \<and> stored_same sh_hostIdInServer sh_name cm n)"
    by (rule fold_upd_notin) (use that adds news in \<open>auto simp: report_of_None distinct_map inj_on_def\<close>)
  have in_add: "?f (s, i) = Some (sh_name n, HOST_STAT_NORMAL)" if "report_of news i = Some n" "normal_host t s i = None" for n
    by (rule fold_upd_in) (use that adds news rep in \<open>auto simp: stored_same_def cm def_value_def distinct_map inj_on_def image_iff\<close>)
  show "fold (\<lambda>d f. f(def_key d \<mapsto> def_value d)) (snd (sync_loop sh_hostIdInServer isHostNameChanged news cm []) @ sync_rest cm news) (def_values t) k = synced_value t s news k"
  proof (cases "s' = s")
    case True
    then show ?thesis
      using in_rest no_rest in_add no_add same normal_host_value [OF inv, of s i]
      by (auto simp: k synced_value_def split: option.splits)
  qed (simp add: k no_rest no_add synced_value_def)
qed

context host_env_ok
begin

lemma current_hosts:
  assumes "defs_inv t" "s \<in> set (he_validServers env)"
  defines "cm \<equiv> fold (\<lambda>d m. std_map_put (sh_hostIdInServer d) d m)
    (filter (\<lambda>d. sh_serverId d = s \<and> s \<in> set (he_validServers env) \<and> sh_status d = HOST_STAT_NORMAL) (ht_defs t)) []"
  shows "std_map_wf cm" "map_of cm i = normal_host t s i"
proof -
  let ?P = "\<lambda>d. sh_serverId d = s \<and> sh_status d = HOST_STAT_NORMAL"
  have wf: "defs.wf_rows (ht_defs t)" using assms(1) by (simp add: defs_inv_wf)
  have cm: "cm = fold (\<lambda>d. std_map_put (sh_hostIdInServer d) d) (filter ?P (ht_defs t)) []" using assms(2) by (simp add: cm_def)
  have d: "distinct (map sh_hostIdInServer (filter ?P (ht_defs t)))"
    using wf by (auto simp: defs.wf_rows_def distinct_map inj_on_def)
  note put = map_of_fold_put [OF std_map_wf_Nil d]
  show "std_map_wf cm" using put [of "[]"] by (simp add: cm)
  have "find (\<lambda>d. sh_hostIdInServer d = i) (filter ?P (ht_defs t)) = defs.lookup (filter ?P (ht_defs t)) (s, i)"
    unfolding defs.lookup_def by (rule find_cong) auto
  moreover have "defs.lookup (filter ?P (ht_defs t)) (s, i) = normal_host t s i"
  proof (cases "defs.lookup (ht_defs t) (s, i)")
    case (Some d)
    then have "sh_serverId d = s" using defs.lookup_Some [OF wf, of "(s, i)" d] by simp
    then show ?thesis using defs.delete_wf(2) [OF wf, of ?P "(s, i)"] Some by (simp add: normal_host_def)
  qed (simp add: normal_host_def defs.delete_wf(2) [OF wf])
  ultimately have "map_of cm i = (case normal_host t s i of Some d \<Rightarrow> Some d | None \<Rightarrow> map_of [] i)" using put [of i] by (simp add: cm)
  then show "map_of cm i = normal_host t s i" by (simp split: option.splits)
qed

lemma syncHosts_values:
  assumes "defs_inv (st_data db)" "reported s news" "s \<in> set (he_validServers env)" "s \<noteq> ALL_SERVERS"
    and "ids_given s [] (st_data db) m"
  shows "\<exists>stored m' db'. syncHosts env news s m None db = Inr (HTERR_OK, stored, m', db') \<and> defs_inv (st_data db')
    \<and> def_ident (st_data db) \<subseteq>\<^sub>m def_ident (st_data db') \<and> def_values (st_data db') = synced_value (st_data db) s news
    \<and> ids_given s (filter (\<lambda>n. normal_host (st_data db) s (sh_hostIdInServer n) = None) news) (st_data db') m'
    \<and> ht_groups (st_data db') = ht_groups (st_data db) \<and> ht_members (st_data db') = ht_members (st_data db)"
proof -
  let ?t = "st_data db"
  let ?cur = "filter (\<lambda>d. sh_serverId d = s \<and> s \<in> set (he_validServers env) \<and> sh_status d = HOST_STAT_NORMAL) (ht_defs ?t)"
  define cm where "cm = fold (\<lambda>d m. std_map_put (sh_hostIdInServer d) d m) ?cur []"
  define ds where "ds = snd (sync_loop sh_hostIdInServer isHostNameChanged news cm []) @ sync_rest cm news"
  have cm: "normal_hosts_in ?t s cm" using current_hosts [OF assms(1,3)] assms(1) by (simp add: cm_def normal_hosts_in_def)
  have sync: "syncHosts env news s m None db = (if ds = [] then Inr (HTERR_OK, True, m, db)
      else bindR (upsertHosts env ds m None db) (\<lambda>(db, m). Inr (HTERR_OK, False, m, db)))"
    by (simp add: syncHosts_def getServerHostDefs_system [OF assms(4)] Let_def ds_def sync_rest_def cm_def)
  obtain t' m' where t': "foldR (upsertHosts_step env) ds (?t, m) = Inr (t', m')" "defs_inv t'" "def_ident ?t \<subseteq>\<^sub>m def_ident t'"
    "def_values t' = synced_value ?t s news" "t' = ?t\<lparr>ht_hosts := ht_hosts t', ht_defs := ht_defs t'\<rparr>" "ids_given s ds t' m'"
    using upsertHosts_fold [OF assms(1) _ assms(5), of ds] sync_ready [OF cm assms(2)] sync_values [OF cm assms(2)] by (auto simp: ds_def)
  have "set (filter (\<lambda>n. normal_host ?t s (sh_hostIdInServer n) = None) news) \<subseteq> set ds"
    using cm by (auto simp: ds_def sync_adds [OF cm assms(2)] stored_same_def normal_hosts_in_def)
  then have given: "ids_given s (filter (\<lambda>n. normal_host ?t s (sh_hostIdInServer n) = None) news) t' m'" by (rule ids_given_subset [OF t'(6)])
  have keep: "ht_groups t' = ht_groups ?t" "ht_members t' = ht_members ?t" by (subst t'(5), simp)+
  show ?thesis
  proof (cases "ds = []")
    case True
    then show ?thesis using sync t' given by (intro exI [of _ True] exI [of _ m] exI [of _ db]) simp
  next
    case False
    then have "syncHosts env news s m None db = Inr (HTERR_OK, False, m', \<lparr>st_data = t', st_base = None\<rparr>)"
      using sync t'(1) by (simp add: upsertHosts_def table_trx_run)
    then show ?thesis using t' keep given
      by (intro exI [of _ False] exI [of _ m'] exI [of _ "\<lparr>st_data = t', st_base = None\<rparr>"]) simp
  qed
qed

end

section \<open>Properties of the synchronisation of hosts\<close>

definition normal_pairs :: "int \<Rightarrow> host_tables \<Rightarrow> (string \<times> string) set" where
  "normal_pairs s t = {(sh_hostIdInServer d, sh_name d) |d. d \<in> set (ht_defs t) \<and> sh_serverId d = s \<and> sh_status d = HOST_STAT_NORMAL}"

lemma normal_pairs_values:
  assumes "defs_inv t"
  shows "(i, n) \<in> normal_pairs s t \<longleftrightarrow> def_values t (s, i) = Some (n, HOST_STAT_NORMAL)"
proof -
  have wf: "defs.wf_rows (ht_defs t)" using assms by (simp add: defs_inv_wf)
  show ?thesis
    unfolding normal_pairs_def def_values_def by (auto simp: def_value_def defs.lookup_Some [OF wf])
qed

text \<open>
  C26. A synchronisation with a report that renames no host: afterwards the normal hosts of the server
  are those of the report, with its names; the hosts of other servers, the hostgroups and the memberships
  are as before, every host keeps its identifiers, and the map of the caller gives the global identifier
  of every reported host that was not a normal host before.
\<close>

theorem syncHosts_exact:
  assumes "host_env_ok env" and "defs_inv (st_data db)" and "reported s news"
    and "s \<in> set (he_validServers env)" and "s \<noteq> ALL_SERVERS" and "std_map_wf hostIdMap"
    and same: "\<forall>n \<in> set news. \<forall>d \<in> set (ht_defs (st_data db)). def_key d = def_key n \<and> sh_status d = HOST_STAT_NORMAL \<longrightarrow> sh_name d = sh_name n"
  shows "\<exists>unchanged m db'. syncHosts env news s (Some hostIdMap) None db = Inr (HTERR_OK, unchanged, m, db') \<and> defs_inv (st_data db')
    \<and> normal_pairs s (st_data db') = (\<lambda>n. (sh_hostIdInServer n, sh_name n)) ` set news
    \<and> (\<forall>s' i. s' \<noteq> s \<longrightarrow> def_values (st_data db') (s', i) = def_values (st_data db) (s', i))
    \<and> def_ident (st_data db) \<subseteq>\<^sub>m def_ident (st_data db')
    \<and> ids_given s (filter (\<lambda>n. normal_host (st_data db) s (sh_hostIdInServer n) = None) news) (st_data db') m
    \<and> ht_groups (st_data db') = ht_groups (st_data db) \<and> ht_members (st_data db') = ht_members (st_data db)"
proof -
  have news: "distinct (map sh_hostIdInServer news)" using assms(3) by (simp add: reported_def)
  obtain u m' db' where r: "syncHosts env news s (Some hostIdMap) None db = Inr (HTERR_OK, u, m', db')" "defs_inv (st_data db')"
    "def_ident (st_data db) \<subseteq>\<^sub>m def_ident (st_data db')" "def_values (st_data db') = synced_value (st_data db) s news"
    "ht_groups (st_data db') = ht_groups (st_data db)" "ht_members (st_data db') = ht_members (st_data db)"
    "ids_given s (filter (\<lambda>n. normal_host (st_data db) s (sh_hostIdInServer n) = None) news) (st_data db') m'"
    using host_env_ok.syncHosts_values [OF assms(1-5), of "Some hostIdMap"] assms(6) by (auto simp: ids_given_def)
  have "(i, n) \<in> normal_pairs s (st_data db') \<longleftrightarrow> (i, n) \<in> (\<lambda>n. (sh_hostIdInServer n, sh_name n)) ` set news" for i n
  proof -
    have nm: "sh_name d = sh_name e" if "normal_host (st_data db) s i = Some d" "report_of news i = Some e" for d e
      using that same normal_host_row [OF assms(2) that(1)] assms(3) report_of_Some [OF news, of i e] by (auto simp: reported_def)
    have nv: "def_values (st_data db) (s, i) \<noteq> Some (n, HOST_STAT_NORMAL)" if "normal_host (st_data db) s i = None"
      using that by (auto simp: normal_host_def def_values_def def_value_def split: option.splits if_splits)
    have img: "(i, n) \<in> (\<lambda>n. (sh_hostIdInServer n, sh_name n)) ` set news \<longleftrightarrow> (\<exists>e. report_of news i = Some e \<and> sh_name e = n)"
      by (auto simp: report_of_Some [OF news])
    show ?thesis
    proof (cases "report_of news i")
      case None
      then show ?thesis unfolding img normal_pairs_values [OF r(2)] r(4) using nv
        by (cases "normal_host (st_data db) s i") (simp_all add: synced_value_def host_stats)
    next
      case (Some e)
      then show ?thesis unfolding img normal_pairs_values [OF r(2)] r(4) using nm [OF _ Some]
        by (cases "normal_host (st_data db) s i") (simp_all add: synced_value_def host_stats)
    qed
  qed
  then have "normal_pairs s (st_data db') = (\<lambda>n. (sh_hostIdInServer n, sh_name n)) ` set news" by auto
  moreover have "\<forall>s' i. s' \<noteq> s \<longrightarrow> def_values (st_data db') (s', i) = def_values (st_data db) (s', i)"
    by (simp add: r(4) synced_value_def)
  ultimately show ?thesis using r by blast
qed

definition ex_host_env :: host_env where
  "ex_host_env = \<lparr>he_agent = AgentSQLite3, he_engine = std_engine, he_validServers = [1, 2],
     he_userDb = \<lparr>st_data = \<lparr>ut_users = [], ut_access = [], ut_roles = []\<rparr>, st_base = None\<rparr>\<rparr>"

interpretation ex_hosts: host_env_ok ex_host_env
  by (simp add: host_env_ok_def ex_host_env_def std_user.user_engine_ok_axioms)

definition ex_host :: "int \<Rightarrow> int \<Rightarrow> int \<Rightarrow> string \<Rightarrow> string \<Rightarrow> server_host_def" where
  "ex_host i h s local name =
     \<lparr>sh_id = i, sh_hostId = h, sh_serverId = s, sh_hostIdInServer = local, sh_name = name, sh_status = HOST_STAT_NORMAL\<rparr>"

definition ex_hosts_db :: host_db where
  "ex_hosts_db = \<lparr>st_data = \<lparr>ht_hosts = [\<lparr>hl_id = 7, hl_name = ''web''\<rparr>, \<lparr>hl_id = 8, hl_name = ''db''\<rparr>],
     ht_defs = [ex_host 1 7 1 ''a'' ''web'', ex_host 2 8 2 ''a'' ''db''], ht_access = [], ht_vms = [], ht_groups = [], ht_members = []\<rparr>,
     st_base = None\<rparr>"

lemma ex_hosts_inv: "defs_inv (st_data ex_hosts_db)"
  by (simp add: defs_inv_def ex_hosts_db_def ex_host_def def_ok_def nul_def)

lemma ex_reported:
  "reported 1 [ex_host 0 AUTO_ASSIGNED_ID 1 ''a'' ''web'', ex_host 0 AUTO_ASSIGNED_ID 1 ''b'' ''mail'']"
  "reported 1 [ex_host 0 AUTO_ASSIGNED_ID 1 ''a'' ''www'']"
  by (simp_all add: reported_def ex_host_def def_ok_def nul_def)

theorem syncHosts_exact_witness:
  "\<exists>unchanged m db'. syncHosts ex_host_env [ex_host 0 AUTO_ASSIGNED_ID 1 ''a'' ''web'', ex_host 0 AUTO_ASSIGNED_ID 1 ''b'' ''mail''] 1
       (Some []) None ex_hosts_db = Inr (HTERR_OK, unchanged, m, db')
     \<and> normal_pairs 1 (st_data db') = {(''a'', ''web''), (''b'', ''mail'')}
     \<and> def_values (st_data db') (2, ''a'') = def_values (st_data ex_hosts_db) (2, ''a'')"
proof -
  have same: "\<forall>n \<in> set [ex_host 0 AUTO_ASSIGNED_ID 1 ''a'' ''web'', ex_host 0 AUTO_ASSIGNED_ID 1 ''b'' ''mail''].
      \<forall>d \<in> set (ht_defs (st_data ex_hosts_db)). def_key d = def_key n \<and> sh_status d = HOST_STAT_NORMAL \<longrightarrow> sh_name d = sh_name n"
    by (simp add: ex_hosts_db_def ex_host_def)
  have "1 \<in> set (he_validServers ex_host_env)" "(1 :: int) \<noteq> ALL_SERVERS" by (simp_all add: ex_host_env_def ALL_SERVERS_def)
  from syncHosts_exact [OF ex_hosts.host_env_ok_axioms ex_hosts_inv ex_reported(1) this std_map_wf_Nil same]
  show ?thesis by (auto simp: ex_host_def)
qed

text \<open>
  A normal host that the server reports under a new name is stored with its old name and marked as
  removed; when the server reports it once more, it is a normal host with the new name.
\<close>

lemma syncHosts_rename_removes:
  assumes "host_env_ok env" and "defs_inv (st_data db)" and "reported s news"
    and "s \<in> set (he_validServers env)" and "s \<noteq> ALL_SERVERS"
    and d: "d \<in> set (ht_defs (st_data db))" "sh_serverId d = s" "sh_status d = HOST_STAT_NORMAL"
    and n: "n \<in> set news" "sh_hostIdInServer n = sh_hostIdInServer d" "sh_name n \<noteq> sh_name d"
  shows "\<exists>u1 m1 db1 u2 m2 db2. syncHosts env news s None None db = Inr (HTERR_OK, u1, m1, db1)
    \<and> def_values (st_data db1) (def_key d) = Some (sh_name d, HOST_STAT_REMOVED)
    \<and> syncHosts env news s None None db1 = Inr (HTERR_OK, u2, m2, db2)
    \<and> def_values (st_data db2) (def_key d) = Some (sh_name n, HOST_STAT_NORMAL)"
proof -
  let ?i = "sh_hostIdInServer d"
  have news: "report_of news ?i = Some n" using assms(3) n(1,2) report_of_Some [of news ?i n] by (simp add: reported_def)
  have "defs.wf_rows (ht_defs (st_data db))" using assms(2) by (simp add: defs_inv_wf)
  from defs.lookup_Some [OF this, of "(s, ?i)" d] have "normal_host (st_data db) s ?i = Some d" using d by (simp add: normal_host_def)
  then have v1: "synced_value (st_data db) s news (s, ?i) = Some (sh_name d, HOST_STAT_REMOVED)"
    using news n(3) by (simp add: synced_value_def)
  obtain u1 m1 db1 where 1: "syncHosts env news s None None db = Inr (HTERR_OK, u1, m1, db1)" "defs_inv (st_data db1)"
    "def_values (st_data db1) = synced_value (st_data db) s news"
    using host_env_ok.syncHosts_values [OF assms(1-5), of None] by (auto simp: ids_given_def)
  have "def_values (st_data db1) (s, ?i) = Some (sh_name d, HOST_STAT_REMOVED)" using 1(3) v1 by simp
  then have "normal_host (st_data db1) s ?i = None"
    by (auto simp: normal_host_def def_values_def def_value_def host_stats)
  then have v2: "synced_value (st_data db1) s news (s, ?i) = Some (sh_name n, HOST_STAT_NORMAL)"
    using news by (simp add: synced_value_def)
  obtain u2 m2 db2 where 2: "syncHosts env news s None None db1 = Inr (HTERR_OK, u2, m2, db2)"
    "def_values (st_data db2) = synced_value (st_data db1) s news"
    using host_env_ok.syncHosts_values [OF assms(1) 1(2) assms(3-5), of None] by (auto simp: ids_given_def)
  show ?thesis using 1 2 v1 v2 d(2) by auto
qed

lemma syncHosts_rename_removes_witness:
  "\<exists>u1 m1 db1. syncHosts ex_host_env [ex_host 0 AUTO_ASSIGNED_ID 1 ''a'' ''www''] 1 None None ex_hosts_db = Inr (HTERR_OK, u1, m1, db1)
     \<and> def_values (st_data db1) (1, ''a'') = Some (''web'', HOST_STAT_REMOVED)"
proof -
  have "1 \<in> set (he_validServers ex_host_env)" "(1 :: int) \<noteq> ALL_SERVERS" by (simp_all add: ex_host_env_def ALL_SERVERS_def)
  note r = syncHosts_rename_removes [OF ex_hosts.host_env_ok_axioms ex_hosts_inv ex_reported(2) this,
      of "ex_host 1 7 1 ''a'' ''web''" "ex_host 0 AUTO_ASSIGNED_ID 1 ''a'' ''www''"]
  show ?thesis using r by (auto simp: ex_host_def ex_hosts_db_def)
qed

end
