(* ===== verification/Host_Groups.thy ===== *)
theory Host_Groups
  imports Host_Sync
begin

text \<open>
  What the synchronisations of hostgroups and of memberships promise: afterwards the tables hold what
  the monitoring server reported, and the entries of other servers are as before.
\<close>

section \<open>Deletion by identifier\<close>

text \<open>The identifiers of entries of a map from keys to rows.\<close>

lemma entry_ids:
  assumes "distinct (map fst al)" "\<And>k r. (k, r) \<in> set al \<Longrightarrow> r \<in> set rows \<and> kf r = k" "distinct (map idf rows)"
  shows "distinct (map (\<lambda>(_, r). idf r) al)" "set (map (\<lambda>(_, r). idf r) al) \<subseteq> idf ` set rows"
proof -
  have "inj_on (\<lambda>(_, r). idf r) (set al)"
    using assms(2,3) unfolding inj_on_def distinct_map by (clarsimp, metis)
  then show "distinct (map (\<lambda>(_, r). idf r) al)" using assms(1) by (simp add: distinct_map)
  show "set (map (\<lambda>(_, r). idf r) al) \<subseteq> idf ` set rows" using assms(2) by force
qed

lemma entry_ids_iff:
  assumes "\<And>k r. (k, r) \<in> set al \<Longrightarrow> r \<in> set rows \<and> kf r = k" "distinct (map idf rows)" "g \<in> set rows"
  shows "idf g \<in> set (map (\<lambda>(_, r). idf r) al) \<longleftrightarrow> (kf g, g) \<in> set al"
proof
  assume "idf g \<in> set (map (\<lambda>(_, r). idf r) al)"
  then obtain k r where r: "(k, r) \<in> set al" "idf r = idf g" by auto
  then have "r = g" using assms(1) [OF r(1)] assms(2,3) by (auto simp: distinct_map inj_on_def)
  then show "(kf g, g) \<in> set al" using assms(1) [OF r(1)] r(1) by simp
qed force

context host_env_ok
begin

lemma delete_list_all:
  assumes "ids \<noteq> []" "distinct ids" "distinct (map f (get (st_data db)))" "set ids \<subseteq> f ` set (get (st_data db))"
    and "\<And>r. row r ''id'' = VInt (f r)"
  shows "delete_list env row get put ids db =
    Inr (HTERR_OK, \<lparr>st_data = put (filter (\<lambda>r. f r \<notin> set ids) (get (st_data db))) (st_data db), st_base = None\<rparr>)"
proof -
  let ?rows = "get (st_data db)"
  have del: "tbl_delete (he_engine env) row (host_makeIdListCondition ids) rows = filter (\<lambda>r. f r \<notin> set ids) rows" for rows
    by (simp add: tbl_delete_def rows_id_list [where row = row and f = f, OF assms(1,5)])
  have "f ` set (filter (\<lambda>r. f r \<in> set ids) ?rows) = set ids" using assms(4) by force
  moreover have "distinct (map f (filter (\<lambda>r. f r \<in> set ids) ?rows))" using assms(3) by (auto simp: distinct_map inj_on_def)
  ultimately have "length (filter (\<lambda>r. f r \<in> set ids) ?rows) = length ids"
    using assms(2) by (metis distinct_card length_map list.set_map)
  then have "length ?rows - length (filter (\<lambda>r. f r \<notin> set ids) ?rows) = length ids"
    using sum_length_filter_compl [of "\<lambda>r. f r \<in> set ids" ?rows] by simp
  then show ?thesis using assms(1) by (simp add: delete_list_def Let_def table_trx_run del)
qed

end

section \<open>Hostgroups\<close>

definition group_ok :: "hostgroup \<Rightarrow> bool" where
  "group_ok g \<longleftrightarrow> nul \<notin> set (hg_idInServer g) \<and> nul \<notin> set (hg_name g)"

definition groups_inv :: "host_tables \<Rightarrow> bool" where
  "groups_inv t \<longleftrightarrow> distinct (map hg_id (ht_groups t)) \<and> distinct (map group_key (ht_groups t)) \<and> (\<forall>g \<in> set (ht_groups t). hg_id g \<noteq> 0)"

lemma groups_inv_wf: "groups_inv t \<longleftrightarrow> groups.wf_rows (ht_groups t)"
  by (simp add: groups_inv_def groups.wf_rows_def)

definition reported_groups :: "int \<Rightarrow> hostgroup list \<Rightarrow> bool" where
  "reported_groups s gs \<longleftrightarrow> distinct (map hg_idInServer gs) \<and> (\<forall>g \<in> set gs. group_ok g \<and> hg_id g = 0 \<and> hg_serverId g = s)"

definition group_names :: "host_tables \<Rightarrow> int \<times> string \<Rightarrow> string option" where
  "group_names t k = map_option hg_name (groups.lookup (ht_groups t) k)"

definition group_triples :: "host_tables \<Rightarrow> (int \<times> string \<times> string) set" where
  "group_triples t = (\<lambda>g. (hg_serverId g, hg_idInServer g, hg_name g)) ` set (ht_groups t)"

lemma group_triples_names: "groups_inv t \<Longrightarrow> (s, i, n) \<in> group_triples t \<longleftrightarrow> group_names t (s, i) = Some n"
  by (auto simp: group_triples_def group_names_def groups_inv_wf groups.lookup_Some)

lemma upsert_groups_rows:
  "\<forall>g \<in> set gs. group_ok g \<Longrightarrow> foldR (upsert_group env) gs t =
     bindR (foldR (\<lambda>g rows. bindR (agent_upsert (he_agent env) (he_engine env) group_keys g rows) (\<lambda>(rows, _). Inr rows)) gs (ht_groups t))
       (\<lambda>rows. Inr (t\<lparr>ht_groups := rows\<rparr>))"
proof (induction gs arbitrary: t)
  case (Cons g gs)
  show ?case
  proof (cases "agent_upsert (he_agent env) (he_engine env) group_keys g (ht_groups t)")
    case (Inr r)
    obtain rows b where "r = (rows, b)" by (cases r)
    then show ?thesis using Cons Inr by (simp add: upsert_group_def group_ok_def)
  qed (use Cons.prems in \<open>simp add: upsert_group_def group_ok_def\<close>)
qed simp

definition group_report :: "hostgroup list \<Rightarrow> string \<Rightarrow> hostgroup option" where
  "group_report gs i = find (\<lambda>g. hg_idInServer g = i) gs"

lemma group_report_Some: "distinct (map hg_idInServer gs) \<Longrightarrow> group_report gs i = Some g \<longleftrightarrow> g \<in> set gs \<and> hg_idInServer g = i"
  unfolding group_report_def by (induction gs) (auto simp: image_iff)

text \<open>What is left after the deletion, the entries that were reported with the stored name, and what the upserts add.\<close>

definition kept :: "hostgroup list \<Rightarrow> (string \<times> hostgroup) list \<Rightarrow> string \<Rightarrow> bool" where
  "kept gs cm i \<longleftrightarrow> (\<exists>n \<in> set gs. hg_idInServer n = i \<and> stored_same hg_idInServer hg_name cm n)"

lemma group_names_left:
  assumes "groups_inv t" "\<And>g. g \<in> set (ht_groups t) \<Longrightarrow> hg_id g \<in> ids \<longleftrightarrow> hg_serverId g = s \<and> \<not> kept gs cm (hg_idInServer g)"
  shows "group_names (t\<lparr>ht_groups := filter (\<lambda>g. hg_id g \<notin> ids) (ht_groups t)\<rparr>) (s', i) =
    (if s' = s \<and> \<not> kept gs cm i then None else group_names t (s', i))"
proof -
  have wf: "groups.wf_rows (ht_groups t)" using assms(1) by (simp add: groups_inv_wf)
  show ?thesis
  proof (cases "groups.lookup (ht_groups t) (s', i)")
    case (Some g)
    then have "g \<in> set (ht_groups t)" "group_key g = (s', i)" using groups.lookup_Some [OF wf] by auto
    then show ?thesis using assms(2) [of g] Some by (auto simp: group_names_def groups.delete_wf(2) [OF wf])
  qed (simp add: group_names_def groups.delete_wf(2) [OF wf])
qed

lemma group_names_added:
  assumes "reported_groups s gs" "\<And>i. map_of cm i = groups.lookup (ht_groups t) (s, i)"
    and f: "\<And>s' i. f (s', i) = (if s' = s \<and> \<not> kept gs cm i then None else group_names t (s', i))"
  shows "fold (\<lambda>g f. f(group_key g \<mapsto> hg_name g)) (filter (\<lambda>g. \<not> stored_same hg_idInServer hg_name cm g) gs) f (s', i) =
    (if s' = s then map_option hg_name (group_report gs i) else group_names t (s', i))"
proof -
  let ?adds = "filter (\<lambda>g. \<not> stored_same hg_idInServer hg_name cm g) gs"
  have gs: "distinct (map hg_idInServer gs)" "\<And>g. g \<in> set gs \<Longrightarrow> hg_serverId g = s" using assms(1) by (simp_all add: reported_groups_def)
  have one: "e = g" if "e \<in> set gs" "g \<in> set gs" "hg_idInServer e = hg_idInServer g" for e g
    using gs(1) that by (auto simp: distinct_map inj_on_def)
  show ?thesis
  proof (cases "s' = s \<and> \<not> kept gs cm i \<and> group_report gs i \<noteq> None")
    case True
    then obtain g where g: "g \<in> set gs" "hg_idInServer g = i" "group_report gs i = Some g" using group_report_Some [OF gs(1), of i] by auto
    then have "g \<in> set ?adds" using True by (auto simp: kept_def)
    then have "fold (\<lambda>g f. f(group_key g \<mapsto> hg_name g)) ?adds f (s', i) = Some (hg_name g)"
      by (intro fold_upd_in) (use True g gs(2) one in \<open>auto simp: image_iff\<close>)
    then show ?thesis using True g(3) by simp
  next
    case False
    then have "fold (\<lambda>g f. f(group_key g \<mapsto> hg_name g)) ?adds f (s', i) = f (s', i)"
      by (intro fold_upd_notin) (use gs(2) one group_report_Some [OF gs(1)] in \<open>auto simp: kept_def\<close>)
    moreover have "group_names t (s, i) = map_option hg_name (group_report gs i)" if k: "kept gs cm i"
    proof -
      obtain n where n: "n \<in> set gs" "hg_idInServer n = i" "stored_same hg_idInServer hg_name cm n" using k by (auto simp: kept_def)
      then have "group_report gs i = Some n" using group_report_Some [OF gs(1)] by simp
      then show ?thesis using n assms(2) by (auto simp: stored_same_def group_names_def split: option.splits)
    qed
    ultimately show ?thesis using False f by auto
  qed
qed

context host_env_ok
begin

lemma upsert_groups_names:
  assumes "groups_inv t" "reported_groups s gs"
  shows "\<exists>rows. foldR (upsert_group env) gs t = Inr (t\<lparr>ht_groups := rows\<rparr>) \<and> groups_inv (t\<lparr>ht_groups := rows\<rparr>)
    \<and> group_names (t\<lparr>ht_groups := rows\<rparr>) = fold (\<lambda>g f. f(group_key g \<mapsto> hg_name g)) gs (group_names t)"
proof -
  have ok: "\<forall>g \<in> set gs. group_ok g" "\<forall>g \<in> set gs. tk_id group_keys g = 0" using assms(2) by (simp_all add: reported_groups_def)
  have wf: "groups.wf_rows (ht_groups t)" using assms(1) by (simp add: groups_inv_wf)
  have val: "hg_name (tk_setId group_keys i g) = hg_name g" for i g by simp
  obtain rows where "foldR (\<lambda>g rows. bindR (agent_upsert (he_agent env) (he_engine env) group_keys g rows) (\<lambda>(rows, _). Inr rows)) gs (ht_groups t) = Inr rows"
    "groups.wf_rows rows" "(\<lambda>k. map_option hg_name (groups.lookup rows k)) =
       fold (\<lambda>g f. f(group_key g \<mapsto> hg_name g)) gs (\<lambda>k. map_option hg_name (groups.lookup (ht_groups t) k))"
    by (rule groups.upserts_auto [OF user_engine_ok_axioms wf ok(2), where val = hg_name and ag = "he_agent env", OF val])
  then show ?thesis
    using upsert_groups_rows [OF ok(1), of env t] by (intro exI [of _ rows]) (simp add: groups_inv_wf group_names_def [abs_def] del: fun_upd_apply)
qed

lemma current_groups:
  assumes "groups_inv t" "s \<in> set (he_validServers env)"
  defines "cm \<equiv> fold (\<lambda>g m. std_map_put (hg_idInServer g) g m) (filter (\<lambda>g. hg_serverId g = s \<and> s \<in> set (he_validServers env)) (ht_groups t)) []"
  shows "std_map_wf cm" "map_of cm i = groups.lookup (ht_groups t) (s, i)"
proof -
  let ?P = "\<lambda>g. hg_serverId g = s"
  have wf: "groups.wf_rows (ht_groups t)" using assms(1) by (simp add: groups_inv_wf)
  have cm: "cm = fold (\<lambda>d. std_map_put (hg_idInServer d) d) (filter ?P (ht_groups t)) []" using assms(2) by (simp add: cm_def)
  have d: "distinct (map hg_idInServer (filter ?P (ht_groups t)))"
    using wf by (auto simp: groups.wf_rows_def distinct_map inj_on_def)
  note put = map_of_fold_put [OF std_map_wf_Nil d]
  show "std_map_wf cm" using put [of "[]"] by (simp add: cm)
  have "find (\<lambda>d. hg_idInServer d = i) (filter ?P (ht_groups t)) = groups.lookup (filter ?P (ht_groups t)) (s, i)"
    unfolding groups.lookup_def by (rule find_cong) auto
  moreover have "groups.lookup (filter ?P (ht_groups t)) (s, i) = groups.lookup (ht_groups t) (s, i)"
  proof (cases "groups.lookup (ht_groups t) (s, i)")
    case (Some g)
    then have "hg_serverId g = s" using groups.lookup_Some [OF wf, of "(s, i)" g] by simp
    then show ?thesis using groups.delete_wf(2) [OF wf, of ?P "(s, i)"] Some by simp
  qed (simp add: groups.delete_wf(2) [OF wf])
  ultimately have "map_of cm i = (case groups.lookup (ht_groups t) (s, i) of Some d \<Rightarrow> Some d | None \<Rightarrow> map_of [] i)" using put [of i] by (simp add: cm)
  then show "map_of cm i = groups.lookup (ht_groups t) (s, i)" by (simp split: option.splits)
qed

lemma syncHostgroups_names:
  assumes "groups_inv (st_data db)" "reported_groups s gs" "s \<in> set (he_validServers env)" "s \<noteq> ALL_SERVERS"
  shows "\<exists>db'. syncHostgroups env gs s None db = Inr (HTERR_OK, db') \<and> groups_inv (st_data db')
    \<and> group_names (st_data db') = (\<lambda>(s', i). if s' = s then map_option hg_name (group_report gs i) else group_names (st_data db) (s', i))
    \<and> (\<exists>rows. st_data db' = (st_data db)\<lparr>ht_groups := rows\<rparr>)"
proof -
  let ?t = "st_data db"
  define cm where "cm = fold (\<lambda>g m. std_map_put (hg_idInServer g) g m) (filter (\<lambda>g. hg_serverId g = s \<and> s \<in> set (he_validServers env)) (ht_groups ?t)) []"
  define rest where "rest = fst (sync_loop hg_idInServer isHostgroupNameChanged gs cm [])"
  define adds where "adds = filter (\<lambda>g. \<not> stored_same hg_idInServer hg_name cm g) gs"
  define ids where "ids = map (\<lambda>(_, g). hg_id g) rest"
  have wf: "groups.wf_rows (ht_groups ?t)" using assms(1) by (simp add: groups_inv_wf)
  have gs: "distinct (map hg_idInServer gs)" using assms(2) by (simp add: reported_groups_def)
  have cm: "std_map_wf cm" "\<And>i. map_of cm i = groups.lookup (ht_groups ?t) (s, i)" using current_groups [OF assms(1,3)] by (simp_all add: cm_def)
  have rest: "(i, g) \<in> set rest \<longleftrightarrow> groups.lookup (ht_groups ?t) (s, i) = Some g \<and> \<not> kept gs cm i" for i g
    unfolding rest_def kept_def isHostgroupNameChanged_def cm(2) [symmetric] by (rule sync_loop_fst [OF cm(1) gs])
  have df: "distinct (map fst rest)"
    using sync_loop_result [OF cm(1) gs, of hg_name "[]"] by (simp add: rest_def isHostgroupNameChanged_def std_map_wf_distinct)
  have row: "g \<in> set (ht_groups ?t) \<and> hg_idInServer g = i" if "(i, g) \<in> set rest" for i g
    using that rest groups.lookup_Some [OF wf] by auto
  have wf_ids: "distinct (map hg_id (ht_groups ?t))" using wf by (simp add: groups.wf_rows_def)
  note ids = entry_ids [where kf = hg_idInServer, OF df row wf_ids, folded ids_def]
  have sync: "syncHostgroups env gs s None db =
     bindR (if ids = [] then Inr (HTERR_OK, db) else deleteHostgroupList env ids db) (\<lambda>(err, db).
       bindR (if adds = [] then Inr (db, ()) else upsertHostgroups env adds None db) (\<lambda>(db, _). Inr (err, db)))"
    using sync_loop_result [OF cm(1) gs, of hg_name "[]"]
    by (simp add: syncHostgroups_def getHostgroups_system [OF assms(4)] Let_def ids_def rest_def adds_def cm_def isHostgroupNameChanged_def)
  have del: "hg_id g \<in> set ids \<longleftrightarrow> hg_serverId g = s \<and> \<not> kept gs cm (hg_idInServer g)" if "g \<in> set (ht_groups ?t)" for g
    using entry_ids_iff [where kf = hg_idInServer and al = rest, OF row wf_ids that, folded ids_def] groups.lookup_Some [OF wf, of "(s, hg_idInServer g)" g] that by (simp add: rest)
  let ?left = "?t\<lparr>ht_groups := filter (\<lambda>g. hg_id g \<notin> set ids) (ht_groups ?t)\<rparr>"
  have "\<exists>db1. (if ids = [] then Inr (HTERR_OK, db) else deleteHostgroupList env ids db) = Inr (HTERR_OK, db1) \<and> st_data db1 = ?left"
    using delete_list_all [OF _ ids(1), of hg_id ht_groups db group_row "\<lambda>rows t. t\<lparr>ht_groups := rows\<rparr>"] ids(2) wf
    by (auto simp: deleteHostgroupList_def group_row_def groups.wf_rows_def)
  then obtain db1 where db1: "(if ids = [] then Inr (HTERR_OK, db) else deleteHostgroupList env ids db) = Inr (HTERR_OK, db1)" "st_data db1 = ?left" by blast
  have inv: "groups_inv ?left" using groups.delete_wf(1) [OF wf] by (simp add: groups_inv_wf)
  have "reported_groups s adds" using assms(2) gs by (auto simp: reported_groups_def adds_def distinct_map_filter)
  from upsert_groups_names [OF inv this] obtain rows where rows: "foldR (upsert_group env) adds ?left = Inr (?t\<lparr>ht_groups := rows\<rparr>)"
    "groups_inv (?t\<lparr>ht_groups := rows\<rparr>)" "group_names (?t\<lparr>ht_groups := rows\<rparr>) = fold (\<lambda>g f. f(group_key g \<mapsto> hg_name g)) adds (group_names ?left)"
    by auto
  have "group_names (?t\<lparr>ht_groups := rows\<rparr>) = (\<lambda>(s', i). if s' = s then map_option hg_name (group_report gs i) else group_names ?t (s', i))"
    using group_names_added [OF assms(2) cm(2) group_names_left [OF assms(1) del]] by (auto simp: rows(3) adds_def fun_eq_iff simp del: fun_upd_apply)
  moreover have "\<exists>db'. syncHostgroups env gs s None db = Inr (HTERR_OK, db') \<and> st_data db' = ?t\<lparr>ht_groups := rows\<rparr>"
    unfolding sync db1(1) using rows(1) db1(2) by (auto simp: upsertHostgroups_def table_trx_run)
  ultimately show ?thesis using rows(2) by auto
qed

end

text \<open>
  After a synchronisation of hostgroups the table holds the reported hostgroups of the server, renamed
  ones included, and those of every other server as before; nothing else in the database changes.
\<close>

lemma syncHostgroups_exact:
  assumes "host_env_ok env" and "groups_inv (st_data db)" and "reported_groups s gs"
    and "s \<in> set (he_validServers env)" and "s \<noteq> ALL_SERVERS"
  shows "\<exists>db'. syncHostgroups env gs s None db = Inr (HTERR_OK, db') \<and> groups_inv (st_data db')
    \<and> group_triples (st_data db') = {x \<in> group_triples (st_data db). fst x \<noteq> s} \<union> (\<lambda>g. (s, hg_idInServer g, hg_name g)) ` set gs
    \<and> (\<exists>rows. st_data db' = (st_data db)\<lparr>ht_groups := rows\<rparr>)"
proof -
  have gs: "distinct (map hg_idInServer gs)" using assms(3) by (simp add: reported_groups_def)
  obtain db' where r: "syncHostgroups env gs s None db = Inr (HTERR_OK, db')" "groups_inv (st_data db')"
    "group_names (st_data db') = (\<lambda>(s', i). if s' = s then map_option hg_name (group_report gs i) else group_names (st_data db) (s', i))"
    "\<exists>rows. st_data db' = (st_data db)\<lparr>ht_groups := rows\<rparr>"
    using host_env_ok.syncHostgroups_names [OF assms] by blast
  have "(s', i, n) \<in> group_triples (st_data db') \<longleftrightarrow>
    (s', i, n) \<in> {x \<in> group_triples (st_data db). fst x \<noteq> s} \<union> (\<lambda>g. (s, hg_idInServer g, hg_name g)) ` set gs" for s' i n
    by (auto simp: group_triples_names [OF r(2)] group_triples_names [OF assms(2)] r(3) group_report_Some [OF gs])
  then have "group_triples (st_data db') = {x \<in> group_triples (st_data db). fst x \<noteq> s} \<union> (\<lambda>g. (s, hg_idInServer g, hg_name g)) ` set gs"
    by auto
  with r show ?thesis by auto
qed

definition ex_group :: "int \<Rightarrow> int \<Rightarrow> string \<Rightarrow> string \<Rightarrow> hostgroup" where
  "ex_group i s local name = \<lparr>hg_id = i, hg_serverId = s, hg_idInServer = local, hg_name = name\<rparr>"

definition ex_groups_db :: host_db where
  "ex_groups_db = \<lparr>st_data = \<lparr>ht_hosts = [], ht_defs = [], ht_access = [], ht_vms = [],
     ht_groups = [ex_group 1 1 ''g'' ''old'', ex_group 2 1 ''h'' ''gone'', ex_group 3 2 ''g'' ''other''], ht_members = []\<rparr>, st_base = None\<rparr>"

lemma syncHostgroups_exact_witness:
  "\<exists>db'. syncHostgroups ex_host_env [ex_group 0 1 ''g'' ''new''] 1 None ex_groups_db = Inr (HTERR_OK, db')
    \<and> group_triples (st_data db') = {(2, ''g'', ''other''), (1, ''g'', ''new'')}"
proof -
  have "groups_inv (st_data ex_groups_db)" "reported_groups 1 [ex_group 0 1 ''g'' ''new'']"
    "1 \<in> set (he_validServers ex_host_env)" "(1 :: int) \<noteq> ALL_SERVERS"
    by (simp_all add: groups_inv_def reported_groups_def ex_groups_db_def ex_group_def group_ok_def nul_def ex_host_env_def ALL_SERVERS_def)
  from syncHostgroups_exact [OF ex_hosts.host_env_ok_axioms this] obtain db'
    where db': "syncHostgroups ex_host_env [ex_group 0 1 ''g'' ''new''] 1 None ex_groups_db = Inr (HTERR_OK, db')"
      "group_triples (st_data db') = {x \<in> group_triples (st_data ex_groups_db). fst x \<noteq> 1} \<union> {(1, ''g'', ''new'')}"
    by (auto simp: ex_group_def)
  moreover have "{x \<in> group_triples (st_data ex_groups_db). fst x \<noteq> 1} = {(2, ''g'', ''other'')}"
    by (auto simp: group_triples_def ex_groups_db_def ex_group_def)
  ultimately show ?thesis by auto
qed

end
