(* ===== verification/Host_Members.thy ===== *)
theory Host_Members
  imports Host_Groups
begin

text \<open>The synchronisation of memberships; the current ones stand in a map of maps by hostgroup and host.\<close>

section \<open>Maps of maps\<close>

type_synonym member_map = "(string \<times> (string \<times> hostgroup_member) list) list"

abbreviation member_pair :: "hostgroup_member \<Rightarrow> string \<times> string" where
  "member_pair m \<equiv> (hm_hostgroupIdInServer m, hm_hostIdInServer m)"

definition mm_find :: "member_map \<Rightarrow> string \<times> string \<Rightarrow> hostgroup_member option" where
  "mm_find mm = (\<lambda>(g, h). case map_of mm g of None \<Rightarrow> None | Some hs \<Rightarrow> map_of hs h)"

definition mm_wf :: "member_map \<Rightarrow> bool" where
  "mm_wf mm \<longleftrightarrow> std_map_wf mm \<and> (\<forall>g hs. map_of mm g = Some hs \<longrightarrow> std_map_wf hs)"

definition mm_flat :: "member_map \<Rightarrow> ((string \<times> string) \<times> hostgroup_member) list" where
  "mm_flat mm = concat (map (\<lambda>(g, hs). map (\<lambda>(h, m). ((g, h), m)) hs) mm)"

lemma mm_wf_Nil [simp]: "mm_wf []" "mm_find [] p = None"
  by (simp_all add: mm_wf_def mm_find_def split: prod.splits)

lemma mm_wf_put: "mm_wf mm \<Longrightarrow> std_map_wf hs \<Longrightarrow> mm_wf (std_map_put g hs mm)"
  by (auto simp: mm_wf_def map_of_std_map_put)

lemma mm_find_put: "mm_wf mm \<Longrightarrow> mm_find (std_map_put g hs mm) (g', h) = (if g' = g then map_of hs h else mm_find mm (g', h))"
  by (simp add: mm_find_def mm_wf_def map_of_std_map_put)

lemma mm_insert:
  assumes "mm_wf mm"
  shows "mm_wf (member_map_insert m mm)" "mm_find (member_map_insert m mm) = (mm_find mm)(member_pair m \<mapsto> m)"
proof -
  let ?hs = "case map_of mm (hm_hostgroupIdInServer m) of None \<Rightarrow> [] | Some hosts \<Rightarrow> hosts"
  have hs: "std_map_wf ?hs" using assms by (auto simp: mm_wf_def split: option.splits)
  have eq: "member_map_insert m mm = std_map_put (hm_hostgroupIdInServer m) (std_map_put (hm_hostIdInServer m) m ?hs) mm"
    by (simp add: member_map_insert_def Let_def)
  show "mm_wf (member_map_insert m mm)" unfolding eq using assms hs by (intro mm_wf_put) auto
  have "mm_find (member_map_insert m mm) (g, h) = ((mm_find mm)(member_pair m \<mapsto> m)) (g, h)" for g h
    unfolding eq mm_find_put [OF assms] map_of_std_map_put [OF hs] by (auto simp: mm_find_def split: option.splits)
  then show "mm_find (member_map_insert m mm) = (mm_find mm)(member_pair m \<mapsto> m)" by (auto simp: fun_eq_iff)
qed

lemma mm_fold:
  assumes "mm_wf mm"
  shows "mm_wf (fold member_map_insert ms mm)" "mm_find (fold member_map_insert ms mm) = fold (\<lambda>m f. f(member_pair m \<mapsto> m)) ms (mm_find mm)"
  using assms by (induction ms arbitrary: mm) (simp_all add: mm_insert del: fun_upd_apply)

lemma mm_flat_iff: "mm_wf mm \<Longrightarrow> (p, m) \<in> set (mm_flat mm) \<longleftrightarrow> mm_find mm p = Some m"
proof -
  assume wf: "mm_wf mm"
  obtain g h where p: "p = (g, h)" by (cases p)
  have "map_of mm g = Some hs \<longleftrightarrow> (g, hs) \<in> set mm" for hs
    using wf by (intro map_of_eq_Some_iff std_map_wf_distinct) (simp add: mm_wf_def)
  moreover have "map_of hs h = Some m \<longleftrightarrow> (h, m) \<in> set hs" if "map_of mm g = Some hs" for hs
    using wf that by (intro map_of_eq_Some_iff std_map_wf_distinct) (simp add: mm_wf_def)
  moreover have "(p, m) \<in> set (mm_flat mm) \<longleftrightarrow> (\<exists>hs. (g, hs) \<in> set mm \<and> (h, m) \<in> set hs)" by (force simp: mm_flat_def p)
  ultimately show ?thesis unfolding mm_find_def p prod.case by (cases "map_of mm g") (simp, metis option.inject option.simps(5))
qed

lemma mm_flat_distinct: "mm_wf mm \<Longrightarrow> distinct (map fst (mm_flat mm))"
proof (induction mm)
  case (Cons e mm)
  obtain g hs where e: "e = (g, hs)" by (cases e)
  have g: "g \<notin> fst ` set mm" "std_map_wf mm" using Cons.prems by (auto simp: mm_wf_def std_map_wf_Cons e)
  have "std_map_wf hs'" if "map_of mm g' = Some hs'" for g' hs'
  proof -
    have "g' \<noteq> g" using that g(1) by (metis map_of_eq_None_iff option.distinct(1))
    then have "map_of (e # mm) g' = Some hs'" using that e by simp
    then show ?thesis using Cons.prems by (metis mm_wf_def)
  qed
  then have "mm_wf mm" using g(2) by (simp add: mm_wf_def)
  moreover have "map_of (e # mm) g = Some hs" by (simp add: e)
  then have "std_map_wf hs" using Cons.prems unfolding mm_wf_def by blast
  then have "distinct (map fst (map (\<lambda>(h, m). ((g, h), m)) hs))"
    using std_map_wf_distinct [of hs] by (auto simp: distinct_map inj_on_def comp_def split_beta)
  moreover have "fst ` set (map (\<lambda>(h, m). ((g, h), m)) hs) \<inter> fst ` set (mm_flat mm) = {}"
    using g(1) by (force simp: mm_flat_def)
  moreover have "mm_flat (e # mm) = map (\<lambda>(h, m). ((g, h), m)) hs @ mm_flat mm" by (simp add: mm_flat_def e)
  ultimately show ?case using Cons.IH by (simp only: map_append distinct_append set_map simp_thms)
qed (simp add: mm_flat_def)

lemma mm_flat_ids: "concat (map (\<lambda>(_, hosts). map (\<lambda>(_, m). hm_id m) hosts) mm) = map (\<lambda>(_, m). hm_id m) (mm_flat mm)"
  by (induction mm) (auto simp: mm_flat_def)

text \<open>The loop: a membership that is stored is left alone.\<close>

lemma sync_members_loop_result:
  assumes "mm_wf mm" "distinct (map member_pair news)"
  shows "snd (sync_members_loop news mm acc) = acc @ filter (\<lambda>n. mm_find mm (member_pair n) = None) news
    \<and> mm_wf (fst (sync_members_loop news mm acc))
    \<and> mm_find (fst (sync_members_loop news mm acc)) p = (if p \<in> member_pair ` set news then None else mm_find mm p)"
  using assms
proof (induction news arbitrary: mm acc)
  case (Cons n news)
  show ?case
  proof (cases "mm_find mm (member_pair n)")
    case None
    then have step: "sync_members_loop (n # news) mm acc = sync_members_loop news mm (acc @ [n])"
      by (auto simp: mm_find_def split: option.splits)
    show ?thesis unfolding step using Cons.IH [OF Cons.prems(1), of "acc @ [n]"] Cons.prems(2) None by auto
  next
    case (Some m)
    then obtain hs where hs: "map_of mm (hm_hostgroupIdInServer n) = Some hs" "map_of hs (hm_hostIdInServer n) = Some m"
      by (auto simp: mm_find_def split: option.splits)
    let ?mm = "std_map_put (hm_hostgroupIdInServer n) (std_map_erase (hm_hostIdInServer n) hs) mm"
    have step: "sync_members_loop (n # news) mm acc = sync_members_loop news ?mm acc" by (simp add: hs)
    have wf: "mm_wf ?mm" using Cons.prems(1) hs(1) by (intro mm_wf_put) (auto simp: mm_wf_def)
    have "mm_find ?mm (g, h) = ((mm_find mm)(member_pair n := None)) (g, h)" for g h
      unfolding mm_find_put [OF Cons.prems(1)] using hs(1) by (auto simp: map_of_std_map_erase mm_find_def)
    then have find: "mm_find ?mm q = (if q = member_pair n then None else mm_find mm q)" for q by (cases q) simp
    then have "filter (\<lambda>e. mm_find ?mm (member_pair e) = None) news = filter (\<lambda>e. mm_find mm (member_pair e) = None) news"
      using Cons.prems(2) by (intro filter_cong) (auto simp: image_iff)
    then show ?thesis unfolding step using Cons.IH [OF wf, of acc] Cons.prems(2) Some find [of p] by auto
  qed
qed simp

section \<open>Memberships\<close>

definition members_inv :: "host_tables \<Rightarrow> bool" where
  "members_inv t \<longleftrightarrow> distinct (map hm_id (ht_members t)) \<and> distinct (map member_key (ht_members t)) \<and> (\<forall>m \<in> set (ht_members t). hm_id m \<noteq> 0)"

lemma members_inv_wf: "members_inv t \<longleftrightarrow> members.wf_rows (ht_members t)"
  by (simp add: members_inv_def members.wf_rows_def)

definition member_ok :: "hostgroup_member \<Rightarrow> bool" where
  "member_ok m \<longleftrightarrow> nul \<notin> set (hm_hostIdInServer m) \<and> nul \<notin> set (hm_hostgroupIdInServer m)"

definition reported_members :: "int \<Rightarrow> hostgroup_member list \<Rightarrow> bool" where
  "reported_members s ms \<longleftrightarrow> distinct (map member_pair ms) \<and> (\<forall>m \<in> set ms. member_ok m \<and> hm_id m = 0 \<and> hm_serverId m = s)"

text \<open>The global identifier of the host of a membership.\<close>

definition member_host :: "host_tables \<Rightarrow> int \<times> string \<times> string \<Rightarrow> int option" where
  "member_host t k = map_option hm_hostId (members.lookup (ht_members t) k)"

lemma upsert_members_rows:
  "\<forall>m \<in> set ms. member_ok m \<Longrightarrow> foldR (upsert_member env) ms t =
     bindR (foldR (\<lambda>m rows. bindR (agent_upsert (he_agent env) (he_engine env) member_keys m rows) (\<lambda>(rows, _). Inr rows)) ms (ht_members t))
       (\<lambda>rows. Inr (t\<lparr>ht_members := rows\<rparr>))"
proof (induction ms arbitrary: t)
  case (Cons m ms)
  show ?case
  proof (cases "agent_upsert (he_agent env) (he_engine env) member_keys m (ht_members t)")
    case (Inr r)
    obtain rows b where "r = (rows, b)" by (cases r)
    then show ?thesis using Cons Inr by (simp add: upsert_member_def member_ok_def)
  qed (use Cons.prems in \<open>simp add: upsert_member_def member_ok_def\<close>)
qed simp

definition member_report :: "hostgroup_member list \<Rightarrow> string \<Rightarrow> string \<Rightarrow> hostgroup_member option" where
  "member_report ms h g = find (\<lambda>m. member_pair m = (g, h)) ms"

lemma member_report_Some:
  "distinct (map member_pair ms) \<Longrightarrow> member_report ms h g = Some m \<longleftrightarrow> m \<in> set ms \<and> member_pair m = (g, h)"
  unfolding member_report_def by (induction ms) (auto simp: image_iff)

definition synced_member :: "host_tables \<Rightarrow> int \<Rightarrow> hostgroup_member list \<Rightarrow> int \<times> string \<times> string \<Rightarrow> int option" where
  "synced_member t s ms = (\<lambda>(s', h, g).
     if s' \<noteq> s then member_host t (s', h, g)
     else case member_report ms h g of
            None \<Rightarrow> None
          | Some n \<Rightarrow> (case member_host t (s, h, g) of None \<Rightarrow> Some (hm_hostId n) | Some i \<Rightarrow> Some i))"

lemma member_hosts_left:
  assumes "members_inv t" "\<And>m. m \<in> set (ht_members t) \<Longrightarrow> hm_id m \<in> ids \<longleftrightarrow> hm_serverId m = s \<and> member_pair m \<notin> P"
  shows "member_host (t\<lparr>ht_members := filter (\<lambda>m. hm_id m \<notin> ids) (ht_members t)\<rparr>) (s', h, g) =
    (if s' = s \<and> (g, h) \<notin> P then None else member_host t (s', h, g))"
proof -
  have wf: "members.wf_rows (ht_members t)" using assms(1) by (simp add: members_inv_wf)
  show ?thesis
  proof (cases "members.lookup (ht_members t) (s', h, g)")
    case (Some m)
    then have "m \<in> set (ht_members t)" "member_key m = (s', h, g)" using members.lookup_Some [OF wf] by auto
    then show ?thesis using assms(2) [of m] Some by (auto simp: member_host_def members.delete_wf(2) [OF wf])
  qed (simp add: member_host_def members.delete_wf(2) [OF wf])
qed

lemma member_hosts_added:
  assumes "reported_members s ms"
    and f: "\<And>s' h g. f (s', h, g) = (if s' = s \<and> (g, h) \<notin> member_pair ` set ms then None else member_host t (s', h, g))"
  shows "fold (\<lambda>m f. f(member_key m \<mapsto> hm_hostId m)) (filter (\<lambda>m. member_host t (member_key m) = None) ms) f = synced_member t s ms"
proof
  fix k :: "int \<times> string \<times> string"
  obtain s' h g where k: "k = (s', h, g)" by (cases k)
  have ms: "distinct (map member_pair ms)" "\<And>m. m \<in> set ms \<Longrightarrow> hm_serverId m = s" using assms(1) by (simp_all add: reported_members_def)
  let ?adds = "filter (\<lambda>m. member_host t (member_key m) = None) ms"
  show "fold (\<lambda>m f. f(member_key m \<mapsto> hm_hostId m)) ?adds f k = synced_member t s ms k"
  proof (cases "k \<in> member_key ` set ?adds")
    case True
    then obtain n where n: "n \<in> set ms" "member_key n = k" "member_host t k = None" by auto
    then have s: "s' = s" and rep: "member_report ms h g = Some n" using ms(2) member_report_Some [OF ms(1), of h g n] k by auto
    have "fold (\<lambda>m f. f(member_key m \<mapsto> hm_hostId m)) ?adds f k = Some (hm_hostId n)"
      by (rule fold_upd_in [OF True]) (use ms(1) n in \<open>auto simp: distinct_map inj_on_def\<close>)
    then show ?thesis using n(3) s rep by (simp add: synced_member_def k)
  next
    case False
    then have eq: "fold (\<lambda>m f. f(member_key m \<mapsto> hm_hostId m)) ?adds f k = f k" by (rule fold_upd_notin)
    show ?thesis
    proof (cases "member_report ms h g")
      case None
      then have "(g, h) \<notin> member_pair ` set ms" by (auto simp: member_report_def find_None_iff)
      then show ?thesis unfolding eq using None by (simp add: k f synced_member_def)
    next
      case (Some n)
      then have n: "n \<in> set ms" "member_pair n = (g, h)" using member_report_Some [OF ms(1)] by auto
      then have "(g, h) \<in> member_pair ` set ms" by (intro image_eqI [of _ _ n]) simp_all
      moreover have "member_host t k \<noteq> None" if "s' = s" using False n ms(2) that k by (auto simp: image_iff)
      ultimately show ?thesis unfolding eq using Some by (auto simp: k f synced_member_def)
    qed
  qed
qed

context host_env_ok
begin

lemma upsert_members_hosts:
  assumes "members_inv t" "reported_members s ms"
  shows "\<exists>rows. foldR (upsert_member env) ms t = Inr (t\<lparr>ht_members := rows\<rparr>) \<and> members_inv (t\<lparr>ht_members := rows\<rparr>)
    \<and> member_host (t\<lparr>ht_members := rows\<rparr>) = fold (\<lambda>m f. f(member_key m \<mapsto> hm_hostId m)) ms (member_host t)"
proof -
  have ok: "\<forall>m \<in> set ms. member_ok m" "\<forall>m \<in> set ms. tk_id member_keys m = 0" using assms(2) by (simp_all add: reported_members_def)
  have wf: "members.wf_rows (ht_members t)" using assms(1) by (simp add: members_inv_wf)
  have val: "hm_hostId (tk_setId member_keys i m) = hm_hostId m" for i m by simp
  obtain rows where "foldR (\<lambda>m rows. bindR (agent_upsert (he_agent env) (he_engine env) member_keys m rows) (\<lambda>(rows, _). Inr rows)) ms (ht_members t) = Inr rows"
    "members.wf_rows rows" "(\<lambda>k. map_option hm_hostId (members.lookup rows k)) =
       fold (\<lambda>m f. f(member_key m \<mapsto> hm_hostId m)) ms (\<lambda>k. map_option hm_hostId (members.lookup (ht_members t) k))"
    by (rule members.upserts_auto [OF user_engine_ok_axioms wf ok(2), where val = hm_hostId and ag = "he_agent env", OF val])
  then show ?thesis
    using upsert_members_rows [OF ok(1), of env t]
    by (intro exI [of _ rows]) (simp add: members_inv_wf member_host_def [abs_def] del: fun_upd_apply)
qed

lemma current_members:
  assumes "members_inv t" "s \<in> set (he_validServers env)"
  defines "mm \<equiv> fold member_map_insert (filter (\<lambda>m. hm_serverId m = s \<and> s \<in> set (he_validServers env)) (ht_members t)) []"
  shows "mm_wf mm" "mm_find mm (g, h) = members.lookup (ht_members t) (s, h, g)"
proof -
  let ?ms = "filter (\<lambda>m. hm_serverId m = s) (ht_members t)"
  have wf: "members.wf_rows (ht_members t)" using assms(1) by (simp add: members_inv_wf)
  have mm: "mm = fold member_map_insert ?ms []" using assms(2) by (simp add: mm_def)
  show "mm_wf mm" unfolding mm by (rule mm_fold(1)) simp
  have find: "mm_find mm (g, h) = fold (\<lambda>m f. f(member_pair m \<mapsto> m)) ?ms (mm_find []) (g, h)"
    unfolding mm using mm_fold(2) [of "[]" ?ms] by (simp del: fun_upd_apply)
  show "mm_find mm (g, h) = members.lookup (ht_members t) (s, h, g)"
  proof (cases "members.lookup (ht_members t) (s, h, g)")
    case None
    then have "(s, h, g) \<notin> member_key ` set (ht_members t)" by (simp add: members.lookup_None)
    then have "(g, h) \<notin> member_pair ` set ?ms" by (auto simp: image_iff)
    then show ?thesis using None by (simp add: find fold_upd_notin)
  next
    case (Some m)
    then have m: "m \<in> set ?ms" "member_pair m = (g, h)" using members.lookup_Some [OF wf] by auto
    have "fold (\<lambda>m f. f(member_pair m \<mapsto> m)) ?ms (mm_find []) (g, h) = Some m"
    proof (rule fold_upd_in)
      show "(g, h) \<in> member_pair ` set ?ms" using m by (intro image_eqI [of _ _ m]) simp_all
      show "e = m" if "e \<in> set ?ms" "member_pair e = (g, h)" for e
        using members.lookup_Some [OF wf, of "(s, h, g)" e] that Some by simp
    qed
    then show ?thesis using Some find by simp
  qed
qed

lemma syncHostgroupMembers_hosts:
  assumes "members_inv (st_data db)" "reported_members s ms" "s \<in> set (he_validServers env)" "s \<noteq> ALL_SERVERS"
  shows "\<exists>db'. syncHostgroupMembers env ms s None db = Inr (HTERR_OK, db') \<and> members_inv (st_data db')
    \<and> member_host (st_data db') = synced_member (st_data db) s ms \<and> (\<exists>rows. st_data db' = (st_data db)\<lparr>ht_members := rows\<rparr>)"
proof -
  let ?t = "st_data db"
  define mm where "mm = fold member_map_insert (filter (\<lambda>m. hm_serverId m = s \<and> s \<in> set (he_validServers env)) (ht_members ?t)) []"
  define rest where "rest = mm_flat (fst (sync_members_loop ms mm []))"
  define adds where "adds = filter (\<lambda>m. member_host ?t (member_key m) = None) ms"
  define ids where "ids = map (\<lambda>(_, m). hm_id m) rest"
  have wf: "members.wf_rows (ht_members ?t)" using assms(1) by (simp add: members_inv_wf)
  have ms: "distinct (map member_pair ms)" "\<And>m. m \<in> set ms \<Longrightarrow> hm_serverId m = s" using assms(2) by (simp_all add: reported_members_def)
  have mm: "mm_wf mm" "\<And>g h. mm_find mm (g, h) = members.lookup (ht_members ?t) (s, h, g)" using current_members [OF assms(1,3)] by (simp_all add: mm_def)
  note loop = sync_members_loop_result [OF mm(1) ms(1), of "[]"]
  have rest: "((g, h), m) \<in> set rest \<longleftrightarrow> members.lookup (ht_members ?t) (s, h, g) = Some m \<and> (g, h) \<notin> member_pair ` set ms" for g h m
    using loop [of "(g, h)"] mm_flat_iff [of "fst (sync_members_loop ms mm [])" "(g, h)" m] by (auto simp: rest_def mm(2))
  have df: "distinct (map fst rest)" using loop mm_flat_distinct by (simp add: rest_def)
  have row: "m \<in> set (ht_members ?t) \<and> member_pair m = p" if "(p, m) \<in> set rest" for p m
    using that rest members.lookup_Some [OF wf] by (cases p) auto
  have wf_ids: "distinct (map hm_id (ht_members ?t))" using wf by (simp add: members.wf_rows_def)
  note ids = entry_ids [where kf = member_pair and al = rest, OF df row wf_ids, folded ids_def]
  have "snd (sync_members_loop ms mm []) = adds"
    using loop ms(2) by (auto simp: adds_def mm(2) member_host_def intro!: filter_cong)
  then have sync: "syncHostgroupMembers env ms s None db =
     bindR (if ids = [] then Inr (HTERR_OK, db) else deleteHostgroupMemberList env ids db) (\<lambda>(err, db).
       bindR (if adds = [] then Inr (db, ()) else upsertHostgroupMembers env adds None db) (\<lambda>(db, _). Inr (HTERR_OK, db)))"
    by (simp add: syncHostgroupMembers_def getHostgroupMembers_system [OF assms(4)] Let_def ids_def rest_def mm_def mm_flat_ids)
  have del: "hm_id m \<in> set ids \<longleftrightarrow> hm_serverId m = s \<and> member_pair m \<notin> member_pair ` set ms" if "m \<in> set (ht_members ?t)" for m
    using entry_ids_iff [where kf = member_pair and al = rest, OF row wf_ids that, folded ids_def]
      members.lookup_Some [OF wf, of "(s, hm_hostIdInServer m, hm_hostgroupIdInServer m)" m] that by (simp add: rest)
  let ?left = "?t\<lparr>ht_members := filter (\<lambda>m. hm_id m \<notin> set ids) (ht_members ?t)\<rparr>"
  have "\<exists>db1. (if ids = [] then Inr (HTERR_OK, db) else deleteHostgroupMemberList env ids db) = Inr (HTERR_OK, db1) \<and> st_data db1 = ?left"
    using delete_list_all [OF _ ids(1), of hm_id ht_members db member_row "\<lambda>rows t. t\<lparr>ht_members := rows\<rparr>"] ids(2) wf
    by (auto simp: deleteHostgroupMemberList_def member_row_def members.wf_rows_def)
  then obtain db1 where db1: "(if ids = [] then Inr (HTERR_OK, db) else deleteHostgroupMemberList env ids db) = Inr (HTERR_OK, db1)" "st_data db1 = ?left" by blast
  have inv: "members_inv ?left" using members.delete_wf(1) [OF wf] by (simp add: members_inv_wf)
  have "reported_members s adds" using assms(2) ms(1) by (auto simp: reported_members_def adds_def distinct_map_filter)
  from upsert_members_hosts [OF inv this] obtain rows where rows: "foldR (upsert_member env) adds ?left = Inr (?t\<lparr>ht_members := rows\<rparr>)"
    "members_inv (?t\<lparr>ht_members := rows\<rparr>)" "member_host (?t\<lparr>ht_members := rows\<rparr>) = fold (\<lambda>m f. f(member_key m \<mapsto> hm_hostId m)) adds (member_host ?left)"
    by auto
  have "member_host (?t\<lparr>ht_members := rows\<rparr>) = synced_member ?t s ms"
    unfolding rows(3) adds_def by (rule member_hosts_added [OF assms(2) member_hosts_left [OF assms(1) del]])
  moreover have "\<exists>db'. syncHostgroupMembers env ms s None db = Inr (HTERR_OK, db') \<and> st_data db' = ?t\<lparr>ht_members := rows\<rparr>"
    unfolding sync db1(1) using rows(1) db1(2) by (auto simp: upsertHostgroupMembers_def table_trx_run)
  ultimately show ?thesis using rows(2) by auto
qed

end

lemma member_keys_hosts: "members_inv t \<Longrightarrow> k \<in> member_key ` set (ht_members t) \<longleftrightarrow> member_host t k \<noteq> None"
  using members.lookup_None [of "ht_members t" k] by (simp add: member_host_def)

text \<open>
  C27. After a synchronisation of memberships the table relates the hosts and hostgroups of the server
  as reported, and those of other servers as before; a membership that stays keeps its global host
  identifier, a new one has the reported identifier, and nothing else in the database changes.
\<close>

theorem syncHostgroupMembers_exact:
  assumes "host_env_ok env" and "members_inv (st_data db)" and "reported_members s ms"
    and "s \<in> set (he_validServers env)" and "s \<noteq> ALL_SERVERS"
  shows "\<exists>db'. syncHostgroupMembers env ms s None db = Inr (HTERR_OK, db') \<and> members_inv (st_data db')
    \<and> member_key ` set (ht_members (st_data db')) = {k \<in> member_key ` set (ht_members (st_data db)). fst k \<noteq> s} \<union> member_key ` set ms
    \<and> (\<forall>k i j. member_host (st_data db) k = Some i \<and> member_host (st_data db') k = Some j \<longrightarrow> i = j)
    \<and> (\<forall>m \<in> set ms. member_host (st_data db) (member_key m) = None \<longrightarrow> member_host (st_data db') (member_key m) = Some (hm_hostId m))
    \<and> (\<exists>rows. st_data db' = (st_data db)\<lparr>ht_members := rows\<rparr>)"
proof -
  have ms: "distinct (map member_pair ms)" "\<And>m. m \<in> set ms \<Longrightarrow> hm_serverId m = s" using assms(3) by (simp_all add: reported_members_def)
  obtain db' where r: "syncHostgroupMembers env ms s None db = Inr (HTERR_OK, db')" "members_inv (st_data db')"
    "member_host (st_data db') = synced_member (st_data db) s ms" "\<exists>rows. st_data db' = (st_data db)\<lparr>ht_members := rows\<rparr>"
    using host_env_ok.syncHostgroupMembers_hosts [OF assms] by blast
  have rep: "member_report ms (hm_hostIdInServer m) (hm_hostgroupIdInServer m) = Some m" if "m \<in> set ms" for m
    using that member_report_Some [OF ms(1)] by simp
  have "k \<in> member_key ` set (ht_members (st_data db')) \<longleftrightarrow>
      k \<in> {k \<in> member_key ` set (ht_members (st_data db)). fst k \<noteq> s} \<union> member_key ` set ms" for k
  proof -
    obtain s' h g where k: "k = (s', h, g)" by (cases k)
    have "k \<in> member_key ` set ms \<longleftrightarrow> s' = s \<and> member_report ms h g \<noteq> None"
      using ms(2) rep member_report_Some [OF ms(1), of h g] by (auto simp: k image_iff)
    then show ?thesis
      unfolding member_keys_hosts [OF r(2)] Un_iff mem_Collect_eq member_keys_hosts [OF assms(2)]
      by (auto simp: r(3) k synced_member_def split: option.splits)
  qed
  then have keys: "member_key ` set (ht_members (st_data db')) = {k \<in> member_key ` set (ht_members (st_data db)). fst k \<noteq> s} \<union> member_key ` set ms"
    by (intro set_eqI)
  have same: "i = j" if "member_host (st_data db) k = Some i" "member_host (st_data db') k = Some j" for k i j
    using that by (cases k) (auto simp: r(3) synced_member_def split: if_splits option.splits)
  have new: "member_host (st_data db') (member_key m) = Some (hm_hostId m)" if "m \<in> set ms" "member_host (st_data db) (member_key m) = None" for m
    using that rep ms(2) by (simp add: r(3) synced_member_def)
  have "\<forall>k i j. member_host (st_data db) k = Some i \<and> member_host (st_data db') k = Some j \<longrightarrow> i = j" using same by blast
  then show ?thesis using r(1,2,4) keys new by (intro exI [of _ db'] conjI ballI impI) simp_all
qed

definition ex_member :: "int \<Rightarrow> int \<Rightarrow> string \<Rightarrow> string \<Rightarrow> int \<Rightarrow> hostgroup_member" where
  "ex_member i s h g global = \<lparr>hm_id = i, hm_serverId = s, hm_hostIdInServer = h, hm_hostgroupIdInServer = g, hm_hostId = global\<rparr>"

definition ex_members_db :: host_db where
  "ex_members_db = \<lparr>st_data = \<lparr>ht_hosts = [], ht_defs = [], ht_access = [], ht_vms = [], ht_groups = [],
     ht_members = [ex_member 1 1 ''a'' ''g'' 7, ex_member 2 1 ''b'' ''g'' 8, ex_member 3 2 ''a'' ''g'' 9]\<rparr>, st_base = None\<rparr>"

theorem syncHostgroupMembers_exact_witness:
  "\<exists>db'. syncHostgroupMembers ex_host_env [ex_member 0 1 ''b'' ''h'' 8, ex_member 0 1 ''a'' ''g'' 7] 1 None ex_members_db = Inr (HTERR_OK, db')
    \<and> member_key ` set (ht_members (st_data db')) = {(2, ''a'', ''g''), (1, ''b'', ''h''), (1, ''a'', ''g'')}"
proof -
  have "members_inv (st_data ex_members_db)" "reported_members 1 [ex_member 0 1 ''b'' ''h'' 8, ex_member 0 1 ''a'' ''g'' 7]"
    "1 \<in> set (he_validServers ex_host_env)" "(1 :: int) \<noteq> ALL_SERVERS"
    by (simp_all add: members_inv_def reported_members_def ex_members_db_def ex_member_def member_ok_def nul_def ex_host_env_def ALL_SERVERS_def)
  from syncHostgroupMembers_exact [OF ex_hosts.host_env_ok_axioms this] obtain db'
    where "syncHostgroupMembers ex_host_env [ex_member 0 1 ''b'' ''h'' 8, ex_member 0 1 ''a'' ''g'' 7] 1 None ex_members_db = Inr (HTERR_OK, db')"
      "member_key ` set (ht_members (st_data db')) = {k \<in> member_key ` set (ht_members (st_data ex_members_db)). fst k \<noteq> 1}
         \<union> {(1, ''b'', ''h''), (1, ''a'', ''g'')}"
    by (auto simp: ex_member_def)
  moreover have "{k \<in> member_key ` set (ht_members (st_data ex_members_db)). fst k \<noteq> 1} = {(2, ''a'', ''g'')}"
    by (auto simp: ex_members_db_def ex_member_def)
  ultimately show ?thesis by auto
qed

end
