(* ===== verification/Mon_Tables.thy ===== *)
theory Mon_Tables
  imports Host_Members Action_Tables
begin

text \<open>
  The tables of src/server/src/DBTablesMonitoring.cc: triggers, events, incidents with their histories,
  and items with their categories; and the joins of DBClientJoinBuilder.cc. The tables of hosts that the
  queries join are those of \<open>Host_Tables\<close>.
\<close>

section \<open>Times\<close>

text \<open>
  Seconds and nanoseconds, which are \<open>long\<close>, are put into the statements as \<open>int\<close>: \<open>ItemGroup::addNewItem\<close> casts them, and
  \<open>UpdateArg::add\<close> makes an \<open>ItemInt\<close> of them.
\<close>

definition int_time :: "int \<Rightarrow> int" where
  "int_time t = sint (word_of_int t :: u32)"

definition int_timespec :: "int \<times> int \<Rightarrow> int \<times> int" where
  "int_timespec t = (int_time (fst t), int_time (snd t))"

lemma int_time_small: "- (2 ^ 31) \<le> t \<Longrightarrow> t < 2 ^ 31 \<Longrightarrow> int_time t = t"
  using signed_take_bit_int_eq_self [of 31 t] by (simp add: int_time_def signed_of_int)

lemma int_time_idem [simp]: "int_time (int_time t) = int_time t"
  by (simp add: int_time_def)

lemma int_time_range: "- (2 ^ 31) \<le> int_time t" "int_time t < 2 ^ 31"
  using sint_ge [of "word_of_int t :: u32"] sint_lt [of "word_of_int t :: u32"] by (simp_all add: int_time_def)

section \<open>Triggers\<close>

definition TRIGGER_STATUS_ALL :: int where
  "TRIGGER_STATUS_ALL = -1"

definition TRIGGER_STATUS_OK :: int where
  "TRIGGER_STATUS_OK = 0"

definition TRIGGER_STATUS_PROBLEM :: int where
  "TRIGGER_STATUS_PROBLEM = 1"

definition TRIGGER_STATUS_UNKNOWN :: int where
  "TRIGGER_STATUS_UNKNOWN = 2"

definition TRIGGER_SEVERITY_ALL :: int where
  "TRIGGER_SEVERITY_ALL = -1"

definition TRIGGER_SEVERITY_UNKNOWN :: int where
  "TRIGGER_SEVERITY_UNKNOWN = 0"

definition TRIGGER_INVALID :: int where
  "TRIGGER_INVALID = 0"

definition TRIGGER_VALID :: int where
  "TRIGGER_VALID = 1"

definition TRIGGER_VALID_SELF_MONITORING :: int where
  "TRIGGER_VALID_SELF_MONITORING = 2"

definition ALL_TRIGGERS :: string where
  "ALL_TRIGGERS = ''*''"

lemmas trigger_consts = TRIGGER_STATUS_ALL_def TRIGGER_STATUS_OK_def TRIGGER_STATUS_PROBLEM_def TRIGGER_STATUS_UNKNOWN_def
  TRIGGER_SEVERITY_ALL_def TRIGGER_SEVERITY_UNKNOWN_def TRIGGER_INVALID_def TRIGGER_VALID_def TRIGGER_VALID_SELF_MONITORING_def

record trigger_info =
  tg_serverId :: int
  tg_id :: string
  tg_status :: int
  tg_severity :: int
  tg_sec :: int
  tg_nsec :: int
  tg_globalHostId :: int
  tg_hostIdInServer :: string
  tg_hostName :: string
  tg_brief :: string
  tg_extendedInfo :: string
  tg_validity :: int

definition COLUMN_DEF_TRIGGERS :: "column_def list" where
  "COLUMN_DEF_TRIGGERS =
     [column ''server_id'' SQL_COLUMN_TYPE_INT 11 SQL_KEY_NONE 0,
      column ''id'' SQL_COLUMN_TYPE_VARCHAR 255 SQL_KEY_IDX 0,
      column ''status'' SQL_COLUMN_TYPE_INT 11 SQL_KEY_IDX 0,
      column ''severity'' SQL_COLUMN_TYPE_INT 11 SQL_KEY_IDX 0,
      column ''last_change_time_sec'' SQL_COLUMN_TYPE_INT 11 SQL_KEY_NONE 0,
      column ''last_change_time_ns'' SQL_COLUMN_TYPE_INT 11 SQL_KEY_NONE 0,
      column ''global_host_id'' SQL_COLUMN_TYPE_BIGUINT 20 SQL_KEY_IDX 0,
      column ''host_id_in_server'' SQL_COLUMN_TYPE_VARCHAR 255 SQL_KEY_IDX 0,
      column ''hostname'' SQL_COLUMN_TYPE_VARCHAR 255 SQL_KEY_NONE 0,
      column ''brief'' SQL_COLUMN_TYPE_VARCHAR 255 SQL_KEY_NONE 0,
      null_column ''extended_info'' SQL_COLUMN_TYPE_VARCHAR 32767 SQL_KEY_NONE,
      (column ''validity'' SQL_COLUMN_TYPE_INT 11 SQL_KEY_IDX 0)\<lparr>cd_defaultValue := Some ''1''\<rparr>]"

definition tableProfileTriggers :: table_profile where
  "tableProfileTriggers =
     \<lparr>tp_name = ''triggers'', tp_columnDefs = COLUMN_DEF_TRIGGERS,
      tp_indexDefs = [\<lparr>ix_name = ''TrigUniqId'', ix_columnIndexes = [0, 1], ix_isUnique = True\<rparr>],
      tp_uniqueKeyColumnIndexes = [0, 1]\<rparr>"

section \<open>Events\<close>

definition EVENT_TYPE_ALL :: int where
  "EVENT_TYPE_ALL = -1"

definition EVENT_TYPE_UNKNOWN :: int where
  "EVENT_TYPE_UNKNOWN = 2"

record mon_event = event_info +
  ev_unifiedId :: int
  ev_globalHostId :: int
  ev_hostName :: string
  ev_brief :: string
  ev_extendedInfo :: string

definition initEventInfo :: "mon_event \<Rightarrow> mon_event" where
  "initEventInfo e = e\<lparr>ev_unifiedId := 0, ev_serverId := 0, ev_id := [], ev_time := 0, ev_nsec := 0, ev_type := EVENT_TYPE_UNKNOWN,
     ev_triggerId := [], ev_status := TRIGGER_STATUS_UNKNOWN, ev_severity := TRIGGER_SEVERITY_UNKNOWN,
     ev_globalHostId := INVALID_HOST_ID, ev_hostIdInServer := []\<rparr>"

definition COLUMN_DEF_EVENTS :: "column_def list" where
  "COLUMN_DEF_EVENTS =
     [column ''unified_id'' SQL_COLUMN_TYPE_BIGUINT 20 SQL_KEY_PRI SQL_COLUMN_FLAG_AUTO_INC,
      column ''server_id'' SQL_COLUMN_TYPE_INT 11 SQL_KEY_NONE 0,
      column ''id'' SQL_COLUMN_TYPE_VARCHAR 255 SQL_KEY_IDX 0,
      column ''time_sec'' SQL_COLUMN_TYPE_INT 11 SQL_KEY_IDX 0,
      column ''time_ns'' SQL_COLUMN_TYPE_INT 11 SQL_KEY_NONE 0,
      column ''event_value'' SQL_COLUMN_TYPE_INT 11 SQL_KEY_NONE 0,
      column ''trigger_id'' SQL_COLUMN_TYPE_VARCHAR 255 SQL_KEY_IDX 0,
      column ''status'' SQL_COLUMN_TYPE_INT 11 SQL_KEY_IDX 0,
      column ''severity'' SQL_COLUMN_TYPE_INT 11 SQL_KEY_IDX 0,
      column ''global_host_id'' SQL_COLUMN_TYPE_BIGUINT 20 SQL_KEY_IDX 0,
      column ''host_id_in_server'' SQL_COLUMN_TYPE_VARCHAR 255 SQL_KEY_IDX 0,
      column ''hostname'' SQL_COLUMN_TYPE_VARCHAR 255 SQL_KEY_NONE 0,
      column ''brief'' SQL_COLUMN_TYPE_VARCHAR 255 SQL_KEY_NONE 0,
      null_column ''extended_info'' SQL_COLUMN_TYPE_VARCHAR 32767 SQL_KEY_NONE]"

definition tableProfileEvents :: table_profile where
  "tableProfileEvents =
     \<lparr>tp_name = ''events'', tp_columnDefs = COLUMN_DEF_EVENTS,
      tp_indexDefs = [\<lparr>ix_name = ''EventsId'', ix_columnIndexes = [1, 2], ix_isUnique = False\<rparr>,
        \<lparr>ix_name = ''EventsTimeSequence'', ix_columnIndexes = [3, 4, 0], ix_isUnique = False\<rparr>],
      tp_uniqueKeyColumnIndexes = []\<rparr>"

section \<open>Incidents\<close>

datatype incident_status = STATUS_UNKNOWN | STATUS_OPENED | STATUS_ASSIGNED | STATUS_RESOLVED | STATUS_CLOSED | STATUS_REOPENED

record incident_info =
  ic_trackerId :: int
  ic_serverId :: int
  ic_eventId :: string
  ic_triggerId :: string
  ic_identifier :: string
  ic_location :: string
  ic_status :: string
  ic_assignee :: string
  ic_createdAt :: "int \<times> int"
  ic_updatedAt :: "int \<times> int"
  ic_priority :: string
  ic_doneRatio :: int
  ic_unifiedEventId :: int
  ic_commentCount :: int
  ic_statusCode :: incident_status

definition COLUMN_DEF_INCIDENTS :: "column_def list" where
  "COLUMN_DEF_INCIDENTS =
     [column ''tracker_id'' SQL_COLUMN_TYPE_INT 11 SQL_KEY_NONE 0,
      column ''server_id'' SQL_COLUMN_TYPE_INT 11 SQL_KEY_NONE 0,
      column ''event_id'' SQL_COLUMN_TYPE_VARCHAR 255 SQL_KEY_NONE 0,
      column ''trigger_id'' SQL_COLUMN_TYPE_VARCHAR 255 SQL_KEY_IDX 0,
      column ''identifier'' SQL_COLUMN_TYPE_VARCHAR 255 SQL_KEY_NONE 0,
      column ''location'' SQL_COLUMN_TYPE_VARCHAR 255 SQL_KEY_NONE 0,
      column ''status'' SQL_COLUMN_TYPE_VARCHAR 255 SQL_KEY_NONE 0,
      column ''assignee'' SQL_COLUMN_TYPE_VARCHAR 255 SQL_KEY_NONE 0,
      column ''created_at_sec'' SQL_COLUMN_TYPE_BIGUINT 20 SQL_KEY_NONE 0,
      column ''created_at_ns'' SQL_COLUMN_TYPE_BIGUINT 20 SQL_KEY_NONE 0,
      column ''updated_at_sec'' SQL_COLUMN_TYPE_BIGUINT 20 SQL_KEY_NONE 0,
      column ''updated_at_ns'' SQL_COLUMN_TYPE_BIGUINT 20 SQL_KEY_NONE 0,
      column ''priority'' SQL_COLUMN_TYPE_VARCHAR 255 SQL_KEY_NONE 0,
      column ''done_ratio'' SQL_COLUMN_TYPE_INT 11 SQL_KEY_NONE 0,
      column ''unified_event_id'' SQL_COLUMN_TYPE_BIGUINT 20 SQL_KEY_NONE 0,
      column ''comment_count'' SQL_COLUMN_TYPE_INT 11 SQL_KEY_NONE 0]"

definition tableProfileIncidents :: table_profile where
  "tableProfileIncidents =
     \<lparr>tp_name = ''incidents'', tp_columnDefs = COLUMN_DEF_INCIDENTS,
      tp_indexDefs = [\<lparr>ix_name = ''IncidentsIdentifier'', ix_columnIndexes = [0, 4], ix_isUnique = True\<rparr>,
        \<lparr>ix_name = ''IncidentsUnifiedEventId'', ix_columnIndexes = [14], ix_isUnique = False\<rparr>],
      tp_uniqueKeyColumnIndexes = [0, 4]\<rparr>"

record incident_history =
  ih_id :: int
  ih_unifiedEventId :: int
  ih_userId :: int
  ih_status :: string
  ih_comment :: string
  ih_createdAt :: "int \<times> int"

definition COLUMN_DEF_INCIDENT_HISTORIES :: "column_def list" where
  "COLUMN_DEF_INCIDENT_HISTORIES =
     [column ''id'' SQL_COLUMN_TYPE_BIGUINT 20 SQL_KEY_PRI SQL_COLUMN_FLAG_AUTO_INC,
      column ''unified_event_id'' SQL_COLUMN_TYPE_BIGUINT 20 SQL_KEY_NONE 0,
      column ''user_id'' SQL_COLUMN_TYPE_INT 11 SQL_KEY_NONE 0,
      column ''status'' SQL_COLUMN_TYPE_VARCHAR 255 SQL_KEY_NONE 0,
      column ''comment'' SQL_COLUMN_TYPE_VARCHAR 32767 SQL_KEY_NONE 0,
      column ''created_at_sec'' SQL_COLUMN_TYPE_BIGUINT 20 SQL_KEY_NONE 0,
      column ''created_at_ns'' SQL_COLUMN_TYPE_BIGUINT 20 SQL_KEY_NONE 0]"

definition tableProfileIncidentHistories :: table_profile where
  "tableProfileIncidentHistories =
     \<lparr>tp_name = ''incident_histories'', tp_columnDefs = COLUMN_DEF_INCIDENT_HISTORIES,
      tp_indexDefs = [\<lparr>ix_name = ''CreatedtAtSequence'', ix_columnIndexes = [5, 6, 1], ix_isUnique = False\<rparr>],
      tp_uniqueKeyColumnIndexes = []\<rparr>"

section \<open>Items\<close>

text \<open>The values of an item that the table keeps, and its categories, which have a table of their own.\<close>

record item_info =
  it_globalId :: int
  it_serverId :: int
  it_id :: string
  it_globalHostId :: int
  it_hostIdInServer :: string
  it_brief :: string
  it_sec :: int
  it_nsec :: int
  it_lastValue :: string
  it_prevValue :: string
  it_valueType :: int
  it_unit :: string

record item_full = item_info +
  it_categoryNames :: "string list"

record item_category =
  cg_id :: int
  cg_globalItemId :: int
  cg_name :: string

definition COLUMN_DEF_ITEMS :: "column_def list" where
  "COLUMN_DEF_ITEMS =
     [column ''global_id'' SQL_COLUMN_TYPE_BIGUINT 20 SQL_KEY_PRI SQL_COLUMN_FLAG_AUTO_INC,
      column ''server_id'' SQL_COLUMN_TYPE_INT 11 SQL_KEY_NONE 0,
      column ''id'' SQL_COLUMN_TYPE_VARCHAR 255 SQL_KEY_IDX 0,
      column ''global_host_id'' SQL_COLUMN_TYPE_BIGUINT 20 SQL_KEY_IDX 0,
      column ''host_id_in_server'' SQL_COLUMN_TYPE_VARCHAR 255 SQL_KEY_IDX 0,
      column ''brief'' SQL_COLUMN_TYPE_VARCHAR 255 SQL_KEY_NONE 0,
      column ''last_value_time_sec'' SQL_COLUMN_TYPE_INT 11 SQL_KEY_NONE 0,
      column ''last_value_time_ns'' SQL_COLUMN_TYPE_INT 11 SQL_KEY_NONE 0,
      column ''last_value'' SQL_COLUMN_TYPE_VARCHAR 255 SQL_KEY_NONE 0,
      column ''prev_value'' SQL_COLUMN_TYPE_VARCHAR 255 SQL_KEY_NONE 0,
      column ''value_type'' SQL_COLUMN_TYPE_INT 11 SQL_KEY_NONE 0,
      column ''unit'' SQL_COLUMN_TYPE_VARCHAR 255 SQL_KEY_NONE 0]"

definition tableProfileItems :: table_profile where
  "tableProfileItems =
     \<lparr>tp_name = ''items'', tp_columnDefs = COLUMN_DEF_ITEMS,
      tp_indexDefs = [\<lparr>ix_name = ''ItemsUniqId'', ix_columnIndexes = [1, 2], ix_isUnique = True\<rparr>],
      tp_uniqueKeyColumnIndexes = [1, 2]\<rparr>"

definition COLUMN_DEF_ITEM_CATEGORIES :: "column_def list" where
  "COLUMN_DEF_ITEM_CATEGORIES =
     [column ''id'' SQL_COLUMN_TYPE_BIGUINT 20 SQL_KEY_PRI SQL_COLUMN_FLAG_AUTO_INC,
      column ''global_item_id'' SQL_COLUMN_TYPE_BIGUINT 20 SQL_KEY_IDX 0,
      column ''name'' SQL_COLUMN_TYPE_VARCHAR 255 SQL_KEY_IDX 0]"

definition tableProfileItemCategories :: table_profile where
  "tableProfileItemCategories =
     \<lparr>tp_name = ''item_categories'', tp_columnDefs = COLUMN_DEF_ITEM_CATEGORIES, tp_indexDefs = [], tp_uniqueKeyColumnIndexes = []\<rparr>"

section \<open>The database\<close>

record mon_tables =
  mt_triggers :: "trigger_info list"
  mt_events :: "mon_event list"
  mt_incidents :: "incident_info list"
  mt_histories :: "incident_history list"
  mt_items :: "item_info list"
  mt_categories :: "item_category list"

type_synonym mon_db = "mon_tables db_state"

text \<open>
  The agent and its engine, the registered servers, the tables of hosts in the same database, and what
  \<open>ORDER BY\<close> does with the rows of a result.
\<close>

record mon_env =
  me_host :: host_env
  me_hosts :: host_tables
  me_orderTriggers :: "string \<Rightarrow> trigger_info list \<Rightarrow> trigger_info list"
  me_orderEvents :: "string \<Rightarrow> (mon_event \<times> incident_info option) list \<Rightarrow> (mon_event \<times> incident_info option) list"
  me_orderIncidents :: "string \<Rightarrow> incident_info list \<Rightarrow> incident_info list"
  me_orderHistories :: "string \<Rightarrow> incident_history list \<Rightarrow> incident_history list"
  me_orderItems :: "string \<Rightarrow> int list \<Rightarrow> int list"

abbreviation me_engine :: "mon_env \<Rightarrow> user_engine" where
  "me_engine env \<equiv> he_engine (me_host env)"

text \<open>
  A row that may be updated, in a table with a unique key and no primary key: both agents insert it, or
  write every column of the row with that key.
\<close>

definition upsert_unique :: "('r \<Rightarrow> 'k) \<Rightarrow> 'r \<Rightarrow> 'r list \<Rightarrow> 'r list" where
  "upsert_unique key new rows =
     (if \<exists>r \<in> set rows. key r = key new then map (\<lambda>r. if key r = key new then new else r) rows else rows @ [new])"

text \<open>Limit and offset of a SELECT: a limit of 0 is none.\<close>

definition limit_rows :: "data_query_option \<Rightarrow> 'r list \<Rightarrow> 'r list" where
  "limit_rows opt rows = (if dqo_maxNumber opt = 0 then rows else take (dqo_maxNumber opt) (drop (dqo_offset opt) rows))"

section \<open>Joins\<close>

text \<open>\<open>DBClientJoinBuilder\<close>: the text after FROM and the condition; the option is told to write table names.\<close>

datatype join_type = INNER_JOIN | LEFT_JOIN | RIGHT_JOIN

fun getJoinOperatorString :: "join_type \<Rightarrow> string" where
  "getJoinOperatorString INNER_JOIN = ''INNER JOIN''"
| "getJoinOperatorString LEFT_JOIN = ''LEFT JOIN''"
| "getJoinOperatorString RIGHT_JOIN = ''RIGHT JOIN''"

record join_builder =
  jb_tableField :: string
  jb_table :: table_profile
  jb_useDistinct :: bool
  jb_option :: host_option

definition mk_join_builder :: "table_profile \<Rightarrow> host_option \<Rightarrow> join_builder" where
  "mk_join_builder table opt =
     (let opt = opt\<lparr>ho_tableNameAlways := True\<rparr>
      in \<lparr>jb_tableField = getPrimaryTableName opt, jb_table = table, jb_useDistinct = isHostgroupUsed opt, jb_option = opt\<rparr>)"

definition addTableCommon :: "join_builder \<Rightarrow> table_profile \<Rightarrow> join_type \<Rightarrow> table_profile \<Rightarrow> nat \<Rightarrow> nat \<Rightarrow> join_builder res" where
  "addTableCommon b table type tableC indexL indexR =
     (if \<not> indexL < tp_numColumns tableC \<or> \<not> indexR < tp_numColumns table then Inl HatoholException
      else Inr (b\<lparr>jb_table := table,
             jb_tableField := jb_tableField b @ '' '' @ getJoinOperatorString type @ '' '' @ tp_name table @ '' ON ''\<rparr>))"

definition addTable1 :: "join_builder \<Rightarrow> table_profile \<Rightarrow> join_type \<Rightarrow> table_profile \<Rightarrow> nat \<Rightarrow> nat \<Rightarrow> join_builder res" where
  "addTable1 b table type tableC indexL indexR =
     bindR (addTableCommon b table type tableC indexL indexR) (\<lambda>b.
     bindR (getFullColumnName tableC indexL) (\<lambda>l. bindR (getFullColumnName table indexR) (\<lambda>r.
       Inr (b\<lparr>jb_tableField := jb_tableField b @ l @ ''='' @ r\<rparr>))))"

definition addTable0 :: "join_builder \<Rightarrow> table_profile \<Rightarrow> join_type \<Rightarrow> nat \<Rightarrow> nat \<Rightarrow> join_builder res" where
  "addTable0 b table type indexL indexR = addTable1 b table type (jb_table b) indexL indexR"

definition addTable2 ::
  "join_builder \<Rightarrow> table_profile \<Rightarrow> join_type \<Rightarrow> table_profile \<Rightarrow> nat \<Rightarrow> nat \<Rightarrow> table_profile \<Rightarrow> nat \<Rightarrow> nat \<Rightarrow> join_builder res" where
  "addTable2 b table type tableL indexL indexR tableC indexCL indexCR =
     (if \<not> indexCL < tp_numColumns tableC \<or> \<not> indexCR < tp_numColumns table then Inl HatoholException
      else bindR (addTableCommon b table type tableL indexL indexR) (\<lambda>b.
           bindR (getFullColumnName tableL indexL) (\<lambda>l0. bindR (getFullColumnName table indexR) (\<lambda>r0.
           bindR (getFullColumnName tableC indexCL) (\<lambda>l1. bindR (getFullColumnName table indexCR) (\<lambda>r1.
             Inr (b\<lparr>jb_tableField := jb_tableField b @ ''('' @ l0 @ ''='' @ r0 @ '' AND '' @ l1 @ ''='' @ r1 @ '')''\<rparr>)))))))"

definition build_join :: "join_builder \<Rightarrow> join_builder res" where
  "build_join b =
     bindR (getJoinClause (jb_option b)) (\<lambda>clause.
       Inr (if clause = [] then b else b\<lparr>jb_tableField := jb_tableField b @ '' '' @ clause\<rparr>))"

section \<open>Parts of conditions\<close>

text \<open>The text that the options add behind the condition of their base class, step by step.\<close>

definition add_steps :: "(bool \<times> string res) list \<Rightarrow> string \<Rightarrow> string res" where
  "add_steps steps condition =
     foldR (\<lambda>(b, s) c. if b then bindR s (\<lambda>s. Inr (addCondition c s ADD_TYPE_AND False)) else Inr c) steps condition"

text \<open>Names in a list, with the lower-case spelling of the source.\<close>

definition makeStringListCondition :: "string \<Rightarrow> string list \<Rightarrow> string" where
  "makeStringListCondition col names = inject_loop True '','' (map enc_str names) (col @ '' in ('') @ '')''"

definition time_from :: "string \<Rightarrow> string \<Rightarrow> int \<times> int \<Rightarrow> string" where
  "time_from sec ns = (\<lambda>(s, n). ''('' @ sec @ ''>'' @ dec_int s @ '' OR ('' @ sec @ ''='' @ dec_int s @ '' AND '' @ ns @ ''>='' @ dec_int n @ ''))'')"

definition time_until :: "string \<Rightarrow> string \<Rightarrow> int \<times> int \<Rightarrow> string" where
  "time_until sec ns = (\<lambda>(s, n). ''('' @ sec @ ''<'' @ dec_int s @ '' OR ('' @ sec @ ''='' @ dec_int s @ '' AND '' @ ns @ ''<='' @ dec_int n @ ''))'')"

end
