(* ===== verification/Mon_Triggers.thy ===== *)
theory Mon_Triggers
  imports Mon_Tables
begin

text \<open>
  Triggers of the monitoring servers (src/server/src/DBTablesMonitoring.cc): the option of a query and
  the operations; \<open>ORDER BY\<close> is an argument.
\<close>

text \<open>
  The row of a trigger with a membership of its host, when the query joins the hostgroups. The columns
  of the server's definition of the host, which the queries join too, are mentioned by no condition.
\<close>

definition trigger_row :: "trigger_info \<times> hostgroup_member option \<Rightarrow> sql_row" where
  "trigger_row = (\<lambda>(t, m). (\<lambda>_. VNull)(
     ''server_id'' := VInt (tg_serverId t), ''triggers.server_id'' := VInt (tg_serverId t),
     ''triggers.id'' := VStr (tg_id t), ''triggers.status'' := VInt (tg_status t), ''triggers.severity'' := VInt (tg_severity t),
     ''last_change_time_sec'' := VInt (tg_sec t), ''last_change_time_ns'' := VInt (tg_nsec t),
     ''host_id_in_server'' := VStr (tg_hostIdInServer t), ''triggers.host_id_in_server'' := VStr (tg_hostIdInServer t),
     ''hostname'' := VStr (tg_hostName t), ''triggers.brief'' := VStr (tg_brief t), ''triggers.validity'' := VInt (tg_validity t),
     ''id'' := VStr (tg_id t), ''validity'' := VInt (tg_validity t),
     ''hostgroup_member.host_group_id'' := (case m of None \<Rightarrow> VNull | Some m \<Rightarrow> VStr (hm_hostgroupIdInServer m))))"

section \<open>Query option\<close>

definition synapseTriggersQueryOption :: synapse where
  "synapseTriggersQueryOption =
     \<lparr>sy_tableProfile = tableProfileTriggers, sy_selfIdColumnIdx = 1, sy_serverIdColumnIdx = 0,
      sy_hostTableProfile = tableProfileTriggers, sy_hostIdColumnIdx = 7, sy_needToJoinHostgroup = True,
      sy_hostgroupMapTableProfile = tableProfileHostgroupMember, sy_hostgroupMapServerIdColumnIdx = 1,
      sy_hostgroupMapHostIdColumnIdx = 2, sy_hostgroupMapGroupIdColumnIdx = 3,
      sy_globalHostIdColumnIdx = 6, sy_hostgroupMapGlobalHostIdColumnIdx = 4\<rparr>"

definition EXCLUDE_SELF_MONITORING :: u32 where
  "EXCLUDE_SELF_MONITORING = push_bit 0 1"

definition EXCLUDE_INVALID_HOST :: u32 where
  "EXCLUDE_INVALID_HOST = push_bit 1 1"

record triggers_option =
  tq_base :: host_option
  tq_query :: data_query_option
  tq_targetId :: string
  tq_minSeverity :: int
  tq_triggerStatus :: int
  tq_excludeFlags :: u32
  tq_beginTime :: "int \<times> int"
  tq_endTime :: "int \<times> int"
  tq_hostnameList :: "string list"
  tq_triggerBrief :: string

definition mk_triggers_option :: "host_option \<Rightarrow> triggers_option" where
  "mk_triggers_option base =
     \<lparr>tq_base = base, tq_query = mk_data_query_option, tq_targetId = ALL_TRIGGERS, tq_minSeverity = TRIGGER_SEVERITY_UNKNOWN,
      tq_triggerStatus = TRIGGER_STATUS_ALL, tq_excludeFlags = 0, tq_beginTime = (0, 0), tq_endTime = (0, 0),
      tq_hostnameList = [], tq_triggerBrief = []\<rparr>"

definition shouldExcludeSelfMonitoring :: "triggers_option \<Rightarrow> bool" where
  "shouldExcludeSelfMonitoring opt \<longleftrightarrow> and (tq_excludeFlags opt) EXCLUDE_SELF_MONITORING \<noteq> 0"

definition shouldExcludeInvalidHost :: "triggers_option \<Rightarrow> bool" where
  "shouldExcludeInvalidHost opt \<longleftrightarrow> and (tq_excludeFlags opt) EXCLUDE_INVALID_HOST \<noteq> 0"

definition tq_setSortType :: "bool \<Rightarrow> sort_direction \<Rightarrow> triggers_option \<Rightarrow> triggers_option" where
  "tq_setSortType byTime direction opt =
     opt\<lparr>tq_query := (if byTime
        then dqo_setSortOrderVect (tq_query opt)
               [\<lparr>so_columnName = ''last_change_time_sec'', so_direction = direction\<rparr>,
                \<lparr>so_columnName = ''last_change_time_ns'', so_direction = direction\<rparr>,
                \<lparr>so_columnName = ''id'', so_direction = direction\<rparr>]
        else dqo_setSortOrder (tq_query opt) \<lparr>so_columnName = ''id'', so_direction = direction\<rparr>)\<rparr>"

text \<open>The text that \<open>TriggersQueryOption::getCondition\<close> adds behind the condition of the base class, step by step.\<close>

definition tq_steps :: "triggers_option \<Rightarrow> (bool \<times> string res) list" where
  "tq_steps opt =
     [(shouldExcludeSelfMonitoring opt, Inr (''triggers.validity!='' @ dec_int TRIGGER_VALID_SELF_MONITORING)),
      (shouldExcludeInvalidHost opt, Inr (''triggers.validity!='' @ dec_int TRIGGER_INVALID)),
      (tq_targetId opt \<noteq> ALL_TRIGGERS, Inr (''triggers.id='' @ enc_str (tq_targetId opt))),
      (tq_minSeverity opt \<noteq> TRIGGER_SEVERITY_UNKNOWN, Inr (''triggers.severity>='' @ dec_int (tq_minSeverity opt))),
      (tq_triggerStatus opt \<noteq> TRIGGER_STATUS_ALL, Inr (''triggers.status='' @ dec_int (tq_triggerStatus opt))),
      (fst (tq_beginTime opt) \<noteq> 0 \<or> snd (tq_beginTime opt) \<noteq> 0,
         Inr (time_from ''last_change_time_sec'' ''last_change_time_ns'' (tq_beginTime opt))),
      (fst (tq_endTime opt) \<noteq> 0 \<or> snd (tq_endTime opt) \<noteq> 0,
         Inr (''('' @ time_until ''last_change_time_sec'' ''last_change_time_ns'' (tq_endTime opt) @ '' AND (last_change_time_sec != 0))'')),
      (tq_hostnameList opt \<noteq> [], Inr (makeStringListCondition ''hostname'' (tq_hostnameList opt))),
      (tq_triggerBrief opt \<noteq> [], Inr (''triggers.brief='' @ enc_str (tq_triggerBrief opt)))]"

definition tq_getCondition :: "triggers_option \<Rightarrow> string res" where
  "tq_getCondition opt =
     bindR (getCondition (tq_base opt)) (\<lambda>condition.
       if isAlwaysFalseCondition condition then Inr condition else add_steps (tq_steps opt) condition)"

section \<open>Operations\<close>

definition stored_trigger :: "trigger_info \<Rightarrow> trigger_info" where
  "stored_trigger t = t\<lparr>tg_id := cstr (tg_id t), tg_hostIdInServer := cstr (tg_hostIdInServer t), tg_hostName := cstr (tg_hostName t),
     tg_brief := cstr (tg_brief t), tg_extendedInfo := cstr (tg_extendedInfo t), tg_sec := int_time (tg_sec t), tg_nsec := int_time (tg_nsec t)\<rparr>"

definition addTriggerInfoWithoutTransaction :: "trigger_info \<Rightarrow> trigger_info list \<Rightarrow> trigger_info list" where
  "addTriggerInfoWithoutTransaction t = upsert_unique (\<lambda>t. (tg_serverId t, tg_id t)) (stored_trigger t)"

definition addTriggerInfo :: "trigger_info \<Rightarrow> mon_db \<Rightarrow> (mon_db \<times> unit) res" where
  "addTriggerInfo t db = table_trx (\<lambda>d _. Inr (d\<lparr>mt_triggers := addTriggerInfoWithoutTransaction t (mt_triggers d)\<rparr>, ())) None db ()"

definition addTriggerInfoList :: "trigger_info list \<Rightarrow> mon_db trx_hooks option \<Rightarrow> mon_db \<Rightarrow> (mon_db \<times> unit) res" where
  "addTriggerInfoList news hooks db =
     table_trx (\<lambda>d _. Inr (d\<lparr>mt_triggers := fold addTriggerInfoWithoutTransaction news (mt_triggers d)\<rparr>, ())) hooks db ()"

text \<open>
  The rows of a query: with hostgroups a trigger is joined with the memberships of its global host
  identifier, as \<open>getJoinClause\<close> says.
\<close>

definition trigger_join :: "mon_env \<Rightarrow> host_option \<Rightarrow> trigger_info list \<Rightarrow> (trigger_info \<times> hostgroup_member option) list" where
  "trigger_join env opt ts =
     (if isHostgroupUsed opt
      then map (\<lambda>(t, m). (t, Some m)) (filter (\<lambda>(t, m). tg_globalHostId t = hm_hostId m) (List.product ts (ht_members (me_hosts env))))
      else map (\<lambda>t. (t, None)) ts)"

definition trigger_select :: "mon_env \<Rightarrow> host_option \<Rightarrow> string \<Rightarrow> trigger_info list \<Rightarrow> trigger_info list" where
  "trigger_select env opt cond ts =
     (let rows = map fst (tbl_select (me_engine env) trigger_row cond (trigger_join env opt ts))
      in if isHostgroupUsed opt then remdups rows else rows)"

definition full_names :: "triggers_option \<Rightarrow> triggers_option" where
  "full_names opt = opt\<lparr>tq_base := (tq_base opt)\<lparr>ho_tableNameAlways := True\<rparr>\<rparr>"

definition getTriggerInfoList :: "mon_env \<Rightarrow> triggers_option \<Rightarrow> mon_db \<Rightarrow> trigger_info list res" where
  "getTriggerInfoList env opt db =
     bindR (addTable2 (mk_join_builder tableProfileTriggers (tq_base opt)) tableProfileServerHostDef LEFT_JOIN
              tableProfileTriggers 0 2 tableProfileTriggers 7 3) (\<lambda>b.
     bindR (tq_getCondition (full_names opt)) (\<lambda>condition.
     bindR (build_join b) (\<lambda>b.
       if isAlwaysFalseCondition condition then Inr []
       else if dqo_maxNumber (tq_query opt) = 0 \<and> dqo_offset (tq_query opt) \<noteq> 0 then Inr []
       else Inr (limit_rows (tq_query opt)
              (me_orderTriggers env (getOrderBy (tq_query opt)) (trigger_select env (tq_base opt) condition (mt_triggers (st_data db))))))))"

definition getTriggerInfo :: "mon_env \<Rightarrow> triggers_option \<Rightarrow> mon_db \<Rightarrow> trigger_info option res" where
  "getTriggerInfo env opt db =
     bindR (getTriggerInfoList env opt db) (\<lambda>ts.
       case ts of [] \<Rightarrow> Inr None | [t] \<Rightarrow> Inr (Some t) | _ \<Rightarrow> Inl HatoholException)"

definition setTriggerInfoList :: "mon_env \<Rightarrow> trigger_info list \<Rightarrow> int \<Rightarrow> mon_db \<Rightarrow> (mon_db \<times> unit) res" where
  "setTriggerInfoList env news serverId db =
     table_trx (\<lambda>d _.
       Inr (d\<lparr>mt_triggers := fold addTriggerInfoWithoutTransaction news
              (tbl_delete (me_engine env) (\<lambda>t. trigger_row (t, None)) (''server_id='' @ dec_int serverId) (mt_triggers d))\<rparr>, ())) None db ()"

text \<open>The condition is not rewritten for a query of the one table.\<close>

definition getTriggerBriefList :: "mon_env \<Rightarrow> triggers_option \<Rightarrow> mon_db \<Rightarrow> (hterr \<times> string list) res" where
  "getTriggerBriefList env opt db =
     bindR (tq_getCondition opt) (\<lambda>condition.
       if isAlwaysFalseCondition condition then Inr (HTERR_OK, [])
       else if isHostgroupUsed (tq_base opt) then Inl HatoholException
       else Inr (HTERR_OK, remdups (map tg_brief (me_orderTriggers env (getOrderBy (tq_query opt))
              (tbl_select (me_engine env) (\<lambda>t. trigger_row (t, None)) condition (mt_triggers (st_data db)))))))"

definition getLastChangeTimeOfTrigger :: "mon_env \<Rightarrow> int \<Rightarrow> mon_db \<Rightarrow> int" where
  "getLastChangeTimeOfTrigger env serverId db =
     (case tbl_select (me_engine env) (\<lambda>t. trigger_row (t, None))
             (''server_id='' @ dec_int serverId @ '' AND validity!='' @ dec_int TRIGGER_VALID_SELF_MONITORING) (mt_triggers (st_data db)) of
        [] \<Rightarrow> 0
      | ts \<Rightarrow> Max (tg_sec ` set ts))"

text \<open>The options that the operations make for \<open>USER_ID_SYSTEM\<close>.\<close>

definition system_triggers_option :: "mon_env \<Rightarrow> int \<Rightarrow> triggers_option" where
  "system_triggers_option env serverId =
     mk_triggers_option (system_host_option (me_host env) synapseTriggersQueryOption serverId)"

fun update_trigger_loop ::
  "trigger_info list \<Rightarrow> (string \<times> trigger_info) list \<Rightarrow> trigger_info list \<Rightarrow> (string \<times> trigger_info) list \<times> trigger_info list" where
  "update_trigger_loop [] triggerMap updates = (triggerMap, updates)"
| "update_trigger_loop (new # news) triggerMap updates =
     (case map_of triggerMap (tg_id new) of
        None \<Rightarrow> update_trigger_loop news triggerMap (updates @ [new])
      | Some t \<Rightarrow>
          update_trigger_loop news (std_map_erase (tg_id new) triggerMap)
            (if tg_validity t = TRIGGER_VALID then updates else updates @ [new]))"

definition updateTrigger :: "mon_env \<Rightarrow> trigger_info list \<Rightarrow> int \<Rightarrow> mon_db \<Rightarrow> (mon_db \<times> unit) res" where
  "updateTrigger env news serverId db =
     bindR (getTriggerInfoList env ((system_triggers_option env serverId)\<lparr>tq_excludeFlags := EXCLUDE_SELF_MONITORING\<rparr>) db) (\<lambda>curr_list.
       let triggerMap = fold (\<lambda>t m. std_map_put (tg_id t) t m) curr_list [];
           picked = update_trigger_loop news triggerMap []
       in addTriggerInfoList (snd picked @ map (\<lambda>(_, t). t\<lparr>tg_validity := TRIGGER_INVALID\<rparr>) (fst picked)) None db)"

definition makeConditionForDeleteTrigger :: "string list \<Rightarrow> int \<Rightarrow> string" where
  "makeConditionForDeleteTrigger idList serverId =
     makeStringListCondition ''id'' idList @ '' AND '' @ ''server_id='' @ dec_int serverId"

definition deleteTriggerInfo :: "mon_env \<Rightarrow> string list \<Rightarrow> int \<Rightarrow> mon_db \<Rightarrow> (hterr \<times> mon_db) res" where
  "deleteTriggerInfo env idList serverId db =
     (if idList = [] then Inr (HTERR_INVALID_PARAMETER, db)
      else bindR (table_trx (\<lambda>d _.
             let ts = tbl_delete (me_engine env) (\<lambda>t. trigger_row (t, None)) (makeConditionForDeleteTrigger idList serverId) (mt_triggers d)
             in Inr (d\<lparr>mt_triggers := ts\<rparr>, length (mt_triggers d) - length ts)) None db 0) (\<lambda>(db, numAffectedRows).
           if numAffectedRows \<noteq> length idList then Inr (HTERR_DELETE_INCOMPLETE, db) else Inr (HTERR_OK, db)))"

text \<open>Everything but the server and the identifier is compared.\<close>

definition trigger_description :: "trigger_info \<Rightarrow> int \<times> int \<times> (int \<times> int) \<times> int \<times> string \<times> string \<times> string \<times> string \<times> int" where
  "trigger_description t = (tg_status t, tg_severity t, (tg_sec t, tg_nsec t), tg_globalHostId t, tg_hostIdInServer t,
     tg_hostName t, tg_brief t, tg_extendedInfo t, tg_validity t)"

definition isTriggerDescriptionChanged :: "trigger_info \<Rightarrow> (string \<times> trigger_info) list \<Rightarrow> bool" where
  "isTriggerDescriptionChanged = name_changed tg_id trigger_description"

definition syncTriggers :: "mon_env \<Rightarrow> trigger_info list \<Rightarrow> int \<Rightarrow> mon_db trx_hooks option \<Rightarrow> mon_db \<Rightarrow> (hterr \<times> mon_db) res" where
  "syncTriggers env incoming serverId hooks db =
     bindR (getTriggerInfoList env (system_triggers_option env serverId) db) (\<lambda>currTriggers.
       let currentTriggerMap = fold (\<lambda>t m. std_map_put (tg_id t) t m) currTriggers [];
           picked = sync_loop tg_id isTriggerDescriptionChanged incoming currentTriggerMap [];
           invalidIds = map (\<lambda>(_, t). tg_id t) (fst picked)
       in bindR (if invalidIds = [] then Inr (HTERR_OK, db) else deleteTriggerInfo env invalidIds serverId db) (\<lambda>(err, db).
          bindR (if snd picked = [] then Inr (db, ()) else addTriggerInfoList (snd picked) hooks db) (\<lambda>(db, _). Inr (err, db))))"

section \<open>Numbers of triggers and hosts\<close>

definition count_condition :: "string \<Rightarrow> string \<Rightarrow> string \<Rightarrow> string" where
  "count_condition condition glue additional =
     (if additional = [] then condition else (if condition = [] then [] else condition @ glue) @ additional)"

definition trigger_count_rows :: "mon_env \<Rightarrow> triggers_option \<Rightarrow> string \<Rightarrow> string \<Rightarrow> mon_db \<Rightarrow> trigger_info list res" where
  "trigger_count_rows env opt glue additional db =
     bindR (tq_getCondition (full_names opt)) (\<lambda>condition.
       Inr (map fst (tbl_select (me_engine env) trigger_row (count_condition condition glue additional)
              (trigger_join env (tq_base opt) (mt_triggers (st_data db))))))"

definition getNumberOfTriggersCond :: "mon_env \<Rightarrow> triggers_option \<Rightarrow> string \<Rightarrow> mon_db \<Rightarrow> nat res" where
  "getNumberOfTriggersCond env opt additional db =
     bindR (trigger_count_rows env opt '' and '' additional db) (\<lambda>rows.
       Inr (if isHostgroupUsed (tq_base opt) then length (remdups (map (\<lambda>t. (tg_serverId t, tg_id t)) rows)) else length rows))"

definition getNumberOfTriggers :: "mon_env \<Rightarrow> triggers_option \<Rightarrow> mon_db \<Rightarrow> nat res" where
  "getNumberOfTriggers env opt db = getNumberOfTriggersCond env opt [] db"

definition getNumberOfBadTriggers :: "mon_env \<Rightarrow> triggers_option \<Rightarrow> int \<Rightarrow> mon_db \<Rightarrow> nat res" where
  "getNumberOfBadTriggers env opt severity db =
     (let problem = ''triggers.status='' @ dec_int TRIGGER_STATUS_PROBLEM
      in getNumberOfTriggersCond env opt
           (if severity = TRIGGER_SEVERITY_ALL then problem else ''triggers.severity='' @ dec_int severity @ '' and '' @ problem) db)"

text \<open>Hosts are told apart by the identifier in their server only.\<close>

definition trigger_getNumberOfHosts :: "mon_env \<Rightarrow> triggers_option \<Rightarrow> mon_db \<Rightarrow> nat res" where
  "trigger_getNumberOfHosts env opt db =
     bindR (trigger_count_rows env opt '' AND '' [] db) (\<lambda>rows. Inr (length (remdups (map tg_hostIdInServer rows))))"

definition getNumberOfBadHosts :: "mon_env \<Rightarrow> triggers_option \<Rightarrow> mon_db \<Rightarrow> nat res" where
  "getNumberOfBadHosts env opt db =
     bindR (trigger_count_rows env opt '' AND '' (''triggers.status='' @ dec_int TRIGGER_STATUS_PROBLEM) db)
       (\<lambda>rows. Inr (length (remdups (map tg_hostIdInServer rows))))"

definition getNumberOfGoodHosts :: "mon_env \<Rightarrow> triggers_option \<Rightarrow> mon_db \<Rightarrow> nat res" where
  "getNumberOfGoodHosts env opt db =
     bindR (trigger_getNumberOfHosts env opt db) (\<lambda>total.
     bindR (getNumberOfBadHosts env opt db) (\<lambda>bad.
       if bad \<le> total then Inr (total - bad) else Inl HatoholException))"

end
