(* ===== verification/Mon_Query.thy ===== *)
theory Mon_Query
  imports Mon_Triggers "HOL-Library.Multiset"
begin

text \<open>
  How the database reads the conditions of the options of DBTablesMonitoring.cc: every part that an
  option adds behind the condition of its base class narrows what the query selects.
\<close>

section \<open>Adding parts\<close>

lemma lexes_glue:
  assumes "lexes s ts" "lexes p us" "\<And>r. sep (g @ r)" "\<And>r. lex (g @ r) = map_option (Cons t) (lex r)"
  shows "lexes (s @ g @ p) (ts @ t # us)"
proof -
  have "lex (s @ g @ p @ rest) = map_option ((@) (ts @ t # us)) (lex rest)" if "sep rest" for rest
    using lexesD [OF assms(1), of "g @ p @ rest"] lexesD [OF assms(2) that]
    by (cases "lex rest") (simp_all add: assms(3,4))
  then show ?thesis by (simp add: lexes_def)
qed

lemma lexes_cond: "cond_ok c \<Longrightarrow> lexes (render c) (cond_toks c)"
  using lexes_or [of c] lexes_atom by (fastforce simp: cond_ok_def)

lemma lexes_glue_and: "lexes s ts \<Longrightarrow> lexes p us \<Longrightarrow> lexes (s @ '' AND '' @ p) (ts @ TAnd # us)"
  by (rule lexes_glue) simp_all

lemma lexes_glue_or: "lexes s ts \<Longrightarrow> lexes p us \<Longrightarrow> lexes (s @ '' OR '' @ p) (ts @ TOr # us)"
  by (rule lexes_glue) simp_all

text \<open>A text that the database reads as the condition.\<close>

definition reads_as :: "string \<Rightarrow> sql_cond \<Rightarrow> bool" where
  "reads_as s c \<longleftrightarrow> (if c = [] then s = [] else s \<noteq> [] \<and> lexes s (cond_toks c) \<and> cond_ok c)"

lemma reads_as_render: "cond_ok c \<Longrightarrow> reads_as (render c) c"
  by (auto simp: reads_as_def render_eq_Nil cond_ok_def no_gap_def lexes_cond)

lemma reads_as_where: "reads_as s c \<Longrightarrow> sql_where s row = Some (selects c row)"
  by (cases "c = []") (simp_all add: reads_as_def selects_def sql_where_lexes, simp add: sql_where_def)

definition part_ok :: "string \<Rightarrow> sql_atom \<Rightarrow> bool" where
  "part_ok s a \<longleftrightarrow> s \<noteq> [] \<and> lexes s (atom_toks a) \<and> wf_atom a \<and> cols_ok a"

lemma reads_as_add:
  assumes "reads_as s c" "tight c" "part_ok p a"
  shows "reads_as (addCondition s p ADD_TYPE_AND False) (cond_and c [[a]])" "tight (cond_and c [[a]])"
    "selects (cond_and c [[a]]) row \<longleftrightarrow> selects c row \<and> holds_atom row a"
proof -
  show "tight (cond_and c [[a]])" using tight_cases [OF assms(2)] by auto
  show "selects (cond_and c [[a]]) row \<longleftrightarrow> selects c row \<and> holds_atom row a"
    using tight_cases [OF assms(2)] by (auto simp: selects_def holds_def)
  show "reads_as (addCondition s p ADD_TYPE_AND False) (cond_and c [[a]])"
    using tight_cases [OF assms(2)]
  proof (elim disjE exE)
    assume "c = []"
    then show ?thesis using assms(1,3) by (auto simp: reads_as_def part_ok_def addCondition_def cond_toks_def cond_ok_def)
  next
    fix d
    assume c: "c = [d]"
    have s: "lexes s (join_with [TAnd] (map atom_toks d))" "cond_ok [d]" "s \<noteq> []" "d \<noteq> []"
      using assms(1) c by (auto simp: reads_as_def cond_toks_def cond_ok_def)
    have "lexes (s @ '' AND '' @ p) (join_with [TAnd] (map atom_toks (d @ [a])))"
      using lexes_glue_and [OF s(1), of p "atom_toks a"] assms(3) s(4) by (simp add: part_ok_def join_with_append)
    then show ?thesis using s assms(3) c by (auto simp: reads_as_def part_ok_def addCondition_def cond_toks_def cond_ok_def)
  qed
qed

text \<open>The steps of an option, each with the atom that the database reads.\<close>

definition steps_ok :: "(bool \<times> string res) list \<Rightarrow> sql_atom list \<Rightarrow> bool" where
  "steps_ok steps atoms \<longleftrightarrow> list_all2 (\<lambda>(b, s) a. b \<longrightarrow> (\<exists>t. s = Inr t \<and> part_ok t a)) steps atoms"

definition steps_hold :: "(bool \<times> string res) list \<Rightarrow> sql_atom list \<Rightarrow> sql_row \<Rightarrow> bool" where
  "steps_hold steps atoms row \<longleftrightarrow> list_all2 (\<lambda>(b, s) a. b \<longrightarrow> holds_atom row a) steps atoms"

lemma add_steps_reads:
  assumes "steps_ok steps atoms" "reads_as s c" "tight c"
  obtains s' c' where "add_steps steps s = Inr s'" "reads_as s' c'" "tight c'"
    "\<forall>row. selects c' row \<longleftrightarrow> selects c row \<and> steps_hold steps atoms row"
proof -
  have "\<exists>s' c'. add_steps steps s = Inr s' \<and> reads_as s' c' \<and> tight c'
    \<and> (\<forall>row. selects c' row \<longleftrightarrow> selects c row \<and> steps_hold steps atoms row)"
    using assms
  proof (induction steps arbitrary: atoms s c)
    case Nil
    then show ?case by (auto simp: add_steps_def steps_ok_def steps_hold_def)
  next
    case (Cons x steps)
    obtain b p where x: "x = (b, p)" by (cases x)
    obtain a as where atoms: "atoms = a # as" "steps_ok steps as" "b \<longrightarrow> (\<exists>t. p = Inr t \<and> part_ok t a)"
      using Cons.prems(1) x by (cases atoms) (auto simp: steps_ok_def)
    show ?case
    proof (cases b)
      case True
      then obtain t where t: "p = Inr t" "part_ok t a" using atoms(3) by blast
      note add = reads_as_add [OF Cons.prems(2,3) t(2)]
      from Cons.IH [OF atoms(2) add(1,2)] show ?thesis
        using True t(1) add(3) by (auto simp: add_steps_def steps_hold_def x atoms(1))
    next
      case False
      with Cons.IH [OF atoms(2) Cons.prems(2,3)] show ?thesis
        by (auto simp: add_steps_def steps_hold_def x atoms(1))
    qed
  qed
  with that show thesis by blast
qed

lemma part_ok_render: "wf_atom a \<Longrightarrow> cols_ok a \<Longrightarrow> part_ok (render_atom a) a"
  by (simp add: part_ok_def lexes_atom)

lemma part_ok_in: "ident c \<Longrightarrow> names \<noteq> [] \<Longrightarrow> part_ok (makeStringListCondition c names) (AtIn c (map VStr names))"
  using lexes_ident_in_lower [of c "map VStr names"]
  by (auto simp: part_ok_def makeStringListCondition_def inject_loop_join comp_def)

lemma part_ok_bang: "ident c \<Longrightarrow> part_ok (c @ ''!='' @ dec_int i) (AtNe c (VInt i))"
  using lexes_ident_bang [of c "VInt i"] by (auto simp: part_ok_def enc_int_def)

lemma part_ok_text: "ident c \<Longrightarrow> part_ok (c @ ''='' @ enc_str v) (AtEq c (VStr v))"
  using part_ok_render [of "AtEq c (VStr v)"] by simp

lemma part_ok_int: "ident c \<Longrightarrow> part_ok (c @ ''='' @ dec_int i) (AtEq c (VInt i))" "ident c \<Longrightarrow> part_ok (c @ ''>='' @ dec_int i) (AtCmp CmpGe c i)"
  "ident c \<Longrightarrow> part_ok (c @ ''<='' @ dec_int i) (AtCmp CmpLe c i)"
  using part_ok_render [of "AtEq c (VInt i)"] part_ok_render [of "AtCmp CmpGe c i"] part_ok_render [of "AtCmp CmpLe c i"] by (simp_all add: enc_int_def)

definition from_atom :: "string \<Rightarrow> string \<Rightarrow> int \<times> int \<Rightarrow> sql_atom" where
  "from_atom sec ns t = AtPar [[AtCmp CmpGt sec (fst t)], [AtPar [[AtEq sec (VInt (fst t)), AtCmp CmpGe ns (snd t)]]]]"

definition until_atom :: "string \<Rightarrow> string \<Rightarrow> int \<times> int \<Rightarrow> sql_atom" where
  "until_atom sec ns t = AtPar [[AtCmp CmpLt sec (fst t)], [AtPar [[AtEq sec (VInt (fst t)), AtCmp CmpLe ns (snd t)]]]]"

lemma time_texts:
  "time_from sec ns t = render_atom (from_atom sec ns t)"
  "time_until sec ns t = render_atom (until_atom sec ns t)"
  by (simp_all add: time_from_def time_until_def from_atom_def until_atom_def enc_int_def split: prod.splits)

lemma part_ok_time:
  assumes "ident sec" "ident ns"
  shows "part_ok (time_from sec ns t) (from_atom sec ns t)" "part_ok (time_until sec ns t) (until_atom sec ns t)"
  unfolding time_texts by (rule part_ok_render; use assms in \<open>simp add: from_atom_def until_atom_def\<close>)+

text \<open>The order of times.\<close>

definition time_le :: "int \<times> int \<Rightarrow> int \<times> int \<Rightarrow> bool" where
  "time_le t u \<longleftrightarrow> fst t < fst u \<or> fst t = fst u \<and> snd t \<le> snd u"

lemma holds_time:
  assumes "row sec = VInt s" "row ns = VInt n"
  shows "holds_atom row (from_atom sec ns t) \<longleftrightarrow> time_le t (s, n)" "holds_atom row (until_atom sec ns t) \<longleftrightarrow> time_le (s, n) t"
  using assms by (auto simp: from_atom_def until_atom_def holds_atom_def time_le_def)

section \<open>Triggers\<close>

lemma trigger_idents [simp]:
  "ident ''triggers.validity''" "ident ''triggers.id''" "ident ''triggers.severity''" "ident ''triggers.status''"
  "ident ''last_change_time_sec''" "ident ''last_change_time_ns''" "ident ''hostname''" "ident ''triggers.brief''"
  "ident ''triggers.server_id''" "ident ''hostgroup_member.host_group_id''" "ident ''triggers.host_id_in_server''" "ident ''validity''"
  by code_simp+

definition tq_atoms :: "triggers_option \<Rightarrow> sql_atom list" where
  "tq_atoms opt =
     [AtNe ''triggers.validity'' (VInt TRIGGER_VALID_SELF_MONITORING), AtNe ''triggers.validity'' (VInt TRIGGER_INVALID),
      AtEq ''triggers.id'' (VStr (tq_targetId opt)), AtCmp CmpGe ''triggers.severity'' (tq_minSeverity opt),
      AtEq ''triggers.status'' (VInt (tq_triggerStatus opt)),
      from_atom ''last_change_time_sec'' ''last_change_time_ns'' (tq_beginTime opt),
      AtPar [[until_atom ''last_change_time_sec'' ''last_change_time_ns'' (tq_endTime opt), AtPar [[AtNe ''last_change_time_sec'' (VInt 0)]]]],
      AtIn ''hostname'' (map VStr (tq_hostnameList opt)), AtEq ''triggers.brief'' (VStr (tq_triggerBrief opt))]"

lemma dec_nat_zero: "dec_nat 0 = ''0''"
  by code_simp

lemma part_ok_end:
  "part_ok (''('' @ time_until ''last_change_time_sec'' ''last_change_time_ns'' t @ '' AND (last_change_time_sec != 0))'')
     (AtPar [[until_atom ''last_change_time_sec'' ''last_change_time_ns'' t, AtPar [[AtNe ''last_change_time_sec'' (VInt 0)]]]])"
proof -
  let ?u = "until_atom ''last_change_time_sec'' ''last_change_time_ns'' t" and ?n = "AtNe ''last_change_time_sec'' (VInt 0)"
  note u = part_ok_time(2) [of "''last_change_time_sec''" "''last_change_time_ns''" t]
  have "lex (''last_change_time_sec'' @ '' != 0'' @ rest) = map_option ((@) (atom_toks ?n)) (lex rest)" if "sep rest" for rest
    using lex_ident [of "''last_change_time_sec''" "'' != 0'' @ rest"] lex_dec_nat [OF that, of 0]
    by (simp add: dec_nat_zero option.map_comp comp_def append_eta)
  then have n: "lexes ''last_change_time_sec != 0'' (atom_toks ?n)" by (simp add: lexes_def)
  have "lexes (CHR ''('' # ''last_change_time_sec != 0'' @ '')'') (TLp # atom_toks ?n @ [TRp])" by (rule lexes_wrap [OF n])
  from lexes_wrap [OF lexes_glue_and [OF _ this]] u
  have "lexes (''('' @ time_until ''last_change_time_sec'' ''last_change_time_ns'' t @ '' AND (last_change_time_sec != 0))'')
    (atom_toks (AtPar [[?u, AtPar [[?n]]]]))" by (fastforce simp: part_ok_def cond_toks_def)
  then show ?thesis using u by (auto simp: part_ok_def)
qed

lemma tq_steps_ok: "steps_ok (tq_steps opt) (tq_atoms opt)"
  unfolding steps_ok_def tq_steps_def tq_atoms_def
  using part_ok_bang [of "''triggers.validity''" TRIGGER_VALID_SELF_MONITORING] part_ok_bang [of "''triggers.validity''" TRIGGER_INVALID]
    part_ok_text [of "''triggers.id''" "tq_targetId opt"] part_ok_int(2) [of "''triggers.severity''" "tq_minSeverity opt"]
    part_ok_int(1) [of "''triggers.status''" "tq_triggerStatus opt"] part_ok_text [of "''triggers.brief''" "tq_triggerBrief opt"]
    part_ok_in [of "''hostname''" "tq_hostnameList opt"] part_ok_time(1) [of "''last_change_time_sec''" "''last_change_time_ns''"] part_ok_end
  by simp

text \<open>What a query asks for.\<close>

definition tq_accepts :: "triggers_option \<Rightarrow> trigger_info \<Rightarrow> bool" where
  "tq_accepts opt t \<longleftrightarrow>
     (shouldExcludeSelfMonitoring opt \<longrightarrow> tg_validity t \<noteq> TRIGGER_VALID_SELF_MONITORING)
     \<and> (shouldExcludeInvalidHost opt \<longrightarrow> tg_validity t \<noteq> TRIGGER_INVALID)
     \<and> (tq_targetId opt \<noteq> ALL_TRIGGERS \<longrightarrow> tg_id t = cstr (tq_targetId opt))
     \<and> (tq_minSeverity opt \<noteq> TRIGGER_SEVERITY_UNKNOWN \<longrightarrow> tq_minSeverity opt \<le> tg_severity t)
     \<and> (tq_triggerStatus opt \<noteq> TRIGGER_STATUS_ALL \<longrightarrow> tg_status t = tq_triggerStatus opt)
     \<and> (tq_beginTime opt \<noteq> (0, 0) \<longrightarrow> time_le (tq_beginTime opt) (tg_sec t, tg_nsec t))
     \<and> (tq_endTime opt \<noteq> (0, 0) \<longrightarrow> time_le (tg_sec t, tg_nsec t) (tq_endTime opt) \<and> tg_sec t \<noteq> 0)
     \<and> (tq_hostnameList opt \<noteq> [] \<longrightarrow> tg_hostName t \<in> cstr ` set (tq_hostnameList opt))
     \<and> (tq_triggerBrief opt \<noteq> [] \<longrightarrow> tg_brief t = cstr (tq_triggerBrief opt))"

lemma trigger_row_cols [simp]:
  "trigger_row (t, m) ''triggers.validity'' = VInt (tg_validity t)" "trigger_row (t, m) ''triggers.id'' = VStr (tg_id t)"
  "trigger_row (t, m) ''triggers.severity'' = VInt (tg_severity t)" "trigger_row (t, m) ''triggers.status'' = VInt (tg_status t)"
  "trigger_row (t, m) ''last_change_time_sec'' = VInt (tg_sec t)" "trigger_row (t, m) ''last_change_time_ns'' = VInt (tg_nsec t)"
  "trigger_row (t, m) ''hostname'' = VStr (tg_hostName t)" "trigger_row (t, m) ''triggers.brief'' = VStr (tg_brief t)"
  "trigger_row (t, m) ''server_id'' = VInt (tg_serverId t)" "trigger_row (t, m) ''triggers.server_id'' = VInt (tg_serverId t)"
  "trigger_row (t, m) ''id'' = VStr (tg_id t)" "trigger_row (t, m) ''validity'' = VInt (tg_validity t)"
  by (simp_all add: trigger_row_def)

lemma holds_atom_simps [simp]:
  "row c = VInt j \<Longrightarrow> holds_atom row (AtEq c (VInt i)) \<longleftrightarrow> j = i"
  "row c = VInt j \<Longrightarrow> holds_atom row (AtNe c (VInt i)) \<longleftrightarrow> j \<noteq> i"
  "row c = VStr v \<Longrightarrow> holds_atom row (AtEq c (VStr u)) \<longleftrightarrow> v = cstr u"
  "row c = VStr v \<Longrightarrow> holds_atom row (AtIn c (map VStr us)) \<longleftrightarrow> v \<in> cstr ` set us"
  "row c = VInt j \<Longrightarrow> holds_atom row (AtCmp p c i) \<longleftrightarrow> cmp_int p j i"
  by (auto simp: holds_atom_def list_ex_iff)

lemma holds_and_pair: "holds_atom row (AtPar [[a, AtPar [[b]]]]) \<longleftrightarrow> holds_atom row a \<and> holds_atom row b"
  by (simp add: holds_atom_def)

lemma tq_steps_hold: "steps_hold (tq_steps opt) (tq_atoms opt) (trigger_row (t, m)) \<longleftrightarrow> tq_accepts opt t"
  by (cases "tq_beginTime opt"; cases "tq_endTime opt")
    (auto simp: steps_hold_def tq_steps_def tq_atoms_def tq_accepts_def holds_and_pair holds_time)

lemma sql_where_never: "sql_where alwaysFalseCondition row = Some False"
  using sql_where_render [of "[[AtNever]]" row] by (simp add: render_single selects_def holds_def holds_atom_def)

lemma steps_condition:
  assumes "cond_ok c" "tight c" "steps_ok steps atoms"
  obtains sql where "(if isAlwaysFalseCondition (render c) then Inr (render c) else add_steps steps (render c)) = Inr sql"
    "\<forall>row. sql_where sql row = Some (selects c row \<and> steps_hold steps atoms row)"
proof (cases "isAlwaysFalseCondition (render c)")
  case True
  then have "render c = alwaysFalseCondition" by (simp add: isAlwaysFalseCondition_def)
  then have "\<not> selects c row" "sql_where (render c) row = Some False" for row using sql_where_render [OF assms(1), of row] sql_where_never [of row] by auto
  with True show thesis using that by simp
next
  case False
  obtain s' c' where "add_steps steps (render c) = Inr s'" "reads_as s' c'" "\<forall>row. selects c' row \<longleftrightarrow> selects c row \<and> steps_hold steps atoms row"
    using add_steps_reads [OF assms(3) reads_as_render [OF assms(1)] assms(2)] by blast
  with False show thesis using that reads_as_where by simp
qed

section \<open>What the list of triggers holds\<close>

text \<open>The engine, and \<open>ORDER BY\<close> returning the same rows.\<close>

locale mon_env_ok = host_env_ok "me_host env" for env :: mon_env +
  assumes orderTriggers: "mset (me_orderTriggers env ord ts) = mset ts"
    and orderEvents: "mset (me_orderEvents env ord es) = mset es"

definition trigger_option :: "triggers_option \<Rightarrow> bool" where
  "trigger_option opt \<longleftrightarrow> ho_synapse (tq_base opt) = synapseTriggersQueryOption"

abbreviation trigger_sc :: string where "trigger_sc \<equiv> ''triggers.server_id''"
abbreviation member_gc :: string where "member_gc \<equiv> ''hostgroup_member.host_group_id''"
abbreviation trigger_hc :: string where "trigger_hc \<equiv> ''triggers.host_id_in_server''"

lemmas trigger_profile_defs = synapseTriggersQueryOption_def tableProfileTriggers_def COLUMN_DEF_TRIGGERS_def
  tableProfileHostgroupMember_def COLUMN_DEF_HOSTGROUP_MEMBER_def tableProfileServerHostDef_def COLUMN_DEF_SERVER_HOST_DEF_def
  tp_numColumns_def getFullColumnName_def getColumnName_def column_def null_column_def

lemma trigger_columns: "ho_synapse opt = synapseTriggersQueryOption \<Longrightarrow> readable_columns (opt\<lparr>ho_tableNameAlways := True\<rparr>) trigger_sc member_gc trigger_hc"
  by (simp add: readable_columns_def option_cols_def getServerIdColumnName_def getHostgroupIdColumnName_def getHostIdColumnName_def
      getColumnNameCommon_def trigger_profile_defs)

lemma trigger_joins:
  assumes "ho_synapse opt = synapseTriggersQueryOption"
  obtains b where "addTable2 (mk_join_builder tableProfileTriggers opt) tableProfileServerHostDef LEFT_JOIN tableProfileTriggers 0 2 tableProfileTriggers 7 3 = Inr b"
    "\<exists>b'. build_join b = Inr b'"
proof -
  let ?b = "mk_join_builder tableProfileTriggers opt"
  have opt: "jb_option ?b = opt\<lparr>ho_tableNameAlways := True\<rparr>" by (simp add: mk_join_builder_def Let_def)
  obtain b where b: "addTable2 ?b tableProfileServerHostDef LEFT_JOIN tableProfileTriggers 0 2 tableProfileTriggers 7 3 = Inr b" "jb_option b = jb_option ?b"
    by (simp add: addTable2_def addTableCommon_def trigger_profile_defs)
  have "\<exists>c. getJoinClause (opt\<lparr>ho_tableNameAlways := True\<rparr>) = Inr c"
    using assms by (simp add: getJoinClause_def Let_def getJoinClauseWithGlobalHostId_def INVALID_COLUMN_IDX_def trigger_profile_defs)
  then show thesis using that [OF b(1)] by (auto simp: build_join_def b(2) opt)
qed

end
