(* ===== verification/Mon_Sync.thy ===== *)
theory Mon_Sync
  imports Mon_Query
begin

text \<open>
  What the operations on triggers promise: a query returns the triggers that its user may read and asked
  for, and after a synchronisation the table holds what the monitoring server reported.
\<close>

section \<open>Queries\<close>

lemma tight_c_condition: "tight (c_filter opt sc gc hc) \<Longrightarrow> tight (c_condition opt sc gc hc)"
  by (auto simp: c_condition_def Let_def tight_add_and)

lemma selects_c_user:
  assumes "\<not> ho_has opt OPPRVLG_GET_ALL_SERVER" "access_ok opt" "no_filters opt"
  shows "selects (c_condition opt sc gc hc) row \<longleftrightarrow> registered opt sc row
    \<and> covered opt sc gc row \<and> targets_match opt sc gc hc row"
  using selects_c_covered [OF assms(1,2), of row sc gc] assms(1,3)
  by (auto simp: selects_c_condition c_filter_none targets_match_def)

context mon_env_ok
begin

lemma set_orderTriggers [simp]: "set (me_orderTriggers env ord ts) = set ts"
  using orderTriggers by (metis set_mset_mset)

lemma where_rows_read:
  assumes "\<And>r. sql_where sql (row r) = Some (P r)"
  shows "where_rows (me_engine env) row sql = P"
proof (cases "sql = []")
  case True
  then show ?thesis using assms by (auto simp: where_rows_def sql_where_def fun_eq_iff)
next
  case False
  then show ?thesis using assms where_rows_sql by blast
qed

text \<open>A query whose base condition reads as \<open>c\<close>.\<close>

lemma getTriggerInfoList_selects:
  assumes "trigger_option opt" "getCondition ((tq_base opt)\<lparr>ho_tableNameAlways := True\<rparr>) = Inr (render c)" "cond_ok c" "tight c"
    and "dqo_maxNumber (tq_query opt) = 0" "dqo_offset (tq_query opt) = 0"
  obtains ts where "getTriggerInfoList env opt db = Inr ts"
    "set ts = {t. \<exists>m. (t, m) \<in> set (trigger_join env (tq_base opt) (mt_triggers (st_data db))) \<and> selects c (trigger_row (t, m)) \<and> tq_accepts opt t}"
    "\<not> isHostgroupUsed (tq_base opt) \<longrightarrow> (\<exists>P. mset ts = mset (filter P (mt_triggers (st_data db))))"
proof -
  let ?ts = "mt_triggers (st_data db)"
  have steps: "tq_steps (full_names opt) = tq_steps opt" by (simp add: full_names_def tq_steps_def shouldExcludeSelfMonitoring_def shouldExcludeInvalidHost_def)
  obtain sql where sql: "(if isAlwaysFalseCondition (render c) then Inr (render c) else add_steps (tq_steps opt) (render c)) = Inr sql"
    "\<forall>row. sql_where sql row = Some (selects c row \<and> steps_hold (tq_steps opt) (tq_atoms opt) row)"
    using steps_condition [OF assms(3,4) tq_steps_ok] by blast
  then have cond: "tq_getCondition (full_names opt) = Inr sql"
    using assms(2) steps by (simp add: tq_getCondition_def full_names_def split: if_splits)
  obtain b where b: "addTable2 (mk_join_builder tableProfileTriggers (tq_base opt)) tableProfileServerHostDef LEFT_JOIN tableProfileTriggers 0 2 tableProfileTriggers 7 3 = Inr b"
    "\<exists>b'. build_join b = Inr b'"
    using trigger_joins assms(1) unfolding trigger_option_def by blast
  have "where_rows (me_engine env) trigger_row sql = (\<lambda>r. selects c (trigger_row r) \<and> steps_hold (tq_steps opt) (tq_atoms opt) (trigger_row r))"
    by (rule where_rows_read) (use sql(2) in blast)
  then have rows: "where_rows (me_engine env) trigger_row sql (t, m) \<longleftrightarrow> selects c (trigger_row (t, m)) \<and> tq_accepts opt t" for t m
    by (simp add: tq_steps_hold)
  show thesis
  proof (cases "isAlwaysFalseCondition sql")
    case True
    then have "sql = alwaysFalseCondition" by (simp add: isAlwaysFalseCondition_def)
    then have "\<not> (selects c row \<and> steps_hold (tq_steps opt) (tq_atoms opt) row)" for row using sql(2) sql_where_never [of row] by simp
    then have no: "\<not> (selects c (trigger_row (t, m)) \<and> tq_accepts opt t)" for t m using tq_steps_hold by metis
    have "getTriggerInfoList env opt db = Inr []" using b cond True by (auto simp: getTriggerInfoList_def)
    then show thesis by (rule that) (use no in \<open>auto intro!: exI [of _ "\<lambda>_. False"]\<close>)
  next
    case False
    let ?r = "me_orderTriggers env (getOrderBy (tq_query opt)) (trigger_select env (tq_base opt) sql ?ts)"
    have "getTriggerInfoList env opt db = Inr ?r" using b cond False assms(5,6) by (auto simp: getTriggerInfoList_def limit_rows_def)
    moreover have "set ?r = {t. \<exists>m. (t, m) \<in> set (trigger_join env (tq_base opt) ?ts) \<and> selects c (trigger_row (t, m)) \<and> tq_accepts opt t}"
      by (auto simp: trigger_select_def Let_def tbl_select_def rows image_iff)
    moreover have "\<exists>P. mset ?r = mset (filter P ?ts)" if "\<not> isHostgroupUsed (tq_base opt)"
      using that orderTriggers by (auto simp: trigger_select_def trigger_join_def tbl_select_def filter_map comp_def)
    ultimately show thesis using that by blast
  qed
qed

end

text \<open>
  C32. A query for triggers of a user without the privilege to see every server, with any target server,
  hostgroup and host but without the six filters of servers, hostgroups and hosts, and without a limit or
  an offset, returns exactly the stored triggers of registered servers that match the targets, are
  covered by the access list, and have the severity, status, validity, time, host name and text that
  the query asks for. A trigger is \<open>covered\<close>, through one of the hostgroups of its host when the list
  names hostgroups, by the server and the hostgroup of an entry of the list, but by the server alone when
  the query names a hostgroup. The access list has no entry without hostgroups, and a query that
  names a server is not made with a list that grants every server.
\<close>

theorem getTriggerInfoList_exact:
  assumes "mon_env_ok env" and "trigger_option opt" and "base = (tq_base opt)\<lparr>ho_tableNameAlways := True\<rparr>"
    and "\<not> ho_has base OPPRVLG_GET_ALL_SERVER" and "access_ok base" and "no_filters base"
    and "dqo_maxNumber (tq_query opt) = 0" and "dqo_offset (tq_query opt) = 0"
  shows "\<exists>ts. getTriggerInfoList env opt db = Inr ts
    \<and> set ts = {t. \<exists>m. (t, m) \<in> set (trigger_join env (tq_base opt) (mt_triggers (st_data db)))
        \<and> registered base trigger_sc (trigger_row (t, m))
        \<and> covered base trigger_sc member_gc (trigger_row (t, m))
        \<and> targets_match base trigger_sc member_gc trigger_hc (trigger_row (t, m)) \<and> tq_accepts opt t}"
proof -
  let ?c = "c_condition base trigger_sc member_gc trigger_hc"
  have cols: "readable_columns base trigger_sc member_gc trigger_hc" using trigger_columns assms(2,3) by (simp add: trigger_option_def)
  then have cond: "getCondition base = Inr (render ?c)" using getCondition_render by (simp add: readable_columns_def)
  have ok: "cond_ok ?c" using cols assms(5,6) by (intro cond_ok_c_condition) (simp_all add: readable_columns_def no_filters_visible)
  have tight: "tight ?c" using assms(4,6) by (simp add: tight_c_condition c_filter_none)
  obtain ts where "getTriggerInfoList env opt db = Inr ts"
    "set ts = {t. \<exists>m. (t, m) \<in> set (trigger_join env (tq_base opt) (mt_triggers (st_data db))) \<and> selects ?c (trigger_row (t, m)) \<and> tq_accepts opt t}"
    by (rule mon_env_ok.getTriggerInfoList_selects [OF assms(1,2) cond [unfolded assms(3)] ok [unfolded assms(3)] tight [unfolded assms(3)] assms(7,8)])
      (simp only: assms(3))
  then show ?thesis by (simp only: selects_c_user [OF assms(4-6)] conj_assoc) blast
qed

definition ex_members_of :: "(int \<times> string) list \<Rightarrow> host_tables" where
  "ex_members_of ms = \<lparr>ht_hosts = [], ht_defs = [], ht_access = [], ht_vms = [], ht_groups = [],
     ht_members = map (\<lambda>(h, g). \<lparr>hm_id = h, hm_serverId = 1, hm_hostIdInServer = ''h'', hm_hostgroupIdInServer = g, hm_hostId = h\<rparr>) ms\<rparr>"

definition ex_mon_env :: mon_env where
  "ex_mon_env = \<lparr>me_host = ex_host_env, me_hosts = ex_members_of [(7, ''A''), (8, ''B'')], me_orderTriggers = (\<lambda>_ ts. ts),
     me_orderEvents = (\<lambda>_ es. es), me_orderIncidents = (\<lambda>_ is. is), me_orderHistories = (\<lambda>_ hs. hs), me_orderItems = (\<lambda>_ ids. ids)\<rparr>"

interpretation ex_mon: mon_env_ok ex_mon_env
  by unfold_locales (use ex_hosts.nextId_fresh ex_hosts.nextId_pos ex_hosts.matches_where in \<open>simp_all add: ex_mon_env_def\<close>)

definition ex_trigger :: "int \<Rightarrow> string \<Rightarrow> int \<Rightarrow> int \<Rightarrow> trigger_info" where
  "ex_trigger s i host severity = \<lparr>tg_serverId = s, tg_id = i, tg_status = TRIGGER_STATUS_PROBLEM, tg_severity = severity, tg_sec = 100, tg_nsec = 5,
     tg_globalHostId = host, tg_hostIdInServer = ''h'', tg_hostName = ''host'', tg_brief = ''down'', tg_extendedInfo = [], tg_validity = TRIGGER_VALID\<rparr>"

definition ex_mon_tables :: "trigger_info list \<Rightarrow> mon_db" where
  "ex_mon_tables ts = \<lparr>st_data = \<lparr>mt_triggers = ts, mt_events = [], mt_incidents = [], mt_histories = [], mt_items = [], mt_categories = []\<rparr>, st_base = None\<rparr>"

definition ex_triggers_db :: mon_db where
  "ex_triggers_db = ex_mon_tables [ex_trigger 1 ''t1'' 7 4, ex_trigger 1 ''t2'' 7 1, ex_trigger 1 ''t3'' 8 4, ex_trigger 2 ''t4'' 7 4]"

definition ex_triggers_option :: triggers_option where
  "ex_triggers_option = (mk_triggers_option (mk_host_option synapseTriggersQueryOption \<lparr>op_userId = 5, op_flags = 0\<rparr> [1, 2] [(1, [''A''])]))
     \<lparr>tq_minSeverity := 3, tq_beginTime := (100, 5)\<rparr>"

text \<open>The user may read the hostgroup A of server 1, and asks for severity 3 or more.\<close>

theorem getTriggerInfoList_exact_witness:
  "\<exists>ts. getTriggerInfoList ex_mon_env ex_triggers_option ex_triggers_db = Inr ts \<and> set ts = {ex_trigger 1 ''t1'' 7 4}"
proof -
  let ?o = ex_triggers_option and ?b = "(tq_base ex_triggers_option)\<lparr>ho_tableNameAlways := True\<rparr>"
  note defs = ex_triggers_option_def mk_triggers_option_def mk_host_option_def mk_data_query_option_def NO_LIMIT_def
    getAllowedServersAndHostgroups_def getValidServerIdSet_def op_has_bit ALL_SERVERS_def ALL_HOST_GROUPS_def ALL_LOCAL_HOSTS_def
  have o: "trigger_option ?o" "\<not> ho_has ?b OPPRVLG_GET_ALL_SERVER" "access_ok ?b" "no_filters ?b"
    "dqo_maxNumber (tq_query ?o) = 0" "dqo_offset (tq_query ?o) = 0"
    by (simp_all add: trigger_option_def defs access_ok_def no_filters_def)
  have used: "isHostgroupUsed (tq_base ?o)"
    by (simp add: isHostgroupUsed_def isHostgroupEnumerationInCondition_def defs synapseTriggersQueryOption_def)
  let ?m = "\<lambda>h g. Some \<lparr>hm_id = h, hm_serverId = 1, hm_hostIdInServer = ''h'', hm_hostgroupIdInServer = g, hm_hostId = h\<rparr>"
  have rows: "trigger_join ex_mon_env (tq_base ?o) (mt_triggers (st_data ex_triggers_db)) =
    [(ex_trigger 1 ''t1'' 7 4, ?m 7 ''A''), (ex_trigger 1 ''t2'' 7 1, ?m 7 ''A''), (ex_trigger 1 ''t3'' 8 4, ?m 8 ''B''), (ex_trigger 2 ''t4'' 7 4, ?m 7 ''A'')]"
    by (simp add: trigger_join_def used ex_triggers_db_def ex_mon_tables_def ex_mon_env_def ex_members_of_def ex_trigger_def)
  have "{t. \<exists>m. (t, m) \<in> set (trigger_join ex_mon_env (tq_base ?o) (mt_triggers (st_data ex_triggers_db)))
        \<and> registered ?b trigger_sc (trigger_row (t, m))
        \<and> covered ?b trigger_sc member_gc (trigger_row (t, m))
        \<and> targets_match ?b trigger_sc member_gc trigger_hc (trigger_row (t, m)) \<and> tq_accepts ?o t} = {ex_trigger 1 ''t1'' 7 4}"
    unfolding rows
    by (auto simp: registered_def covered_def may_read_def targets_match_def defs ex_triggers_db_def ex_mon_tables_def ex_mon_env_def ex_members_of_def ex_trigger_def
        tq_accepts_def trigger_row_def time_le_def shouldExcludeSelfMonitoring_def shouldExcludeInvalidHost_def trigger_consts ALL_TRIGGERS_def cstr_def nul_def)
  then show ?thesis
    using getTriggerInfoList_exact [OF ex_mon.mon_env_ok_axioms o(1) refl o(2-6), of ex_triggers_db] by simp
qed

section \<open>Upserts by a unique key\<close>

lemma upsert_unique_set: "set (upsert_unique key new rows) = insert new {r \<in> set rows. key r \<noteq> key new}"
  by (auto simp: upsert_unique_def)

lemma upsert_unique_distinct: "distinct (map key rows) \<Longrightarrow> distinct (map key (upsert_unique key new rows))"
proof -
  have "map key (map (\<lambda>r. if key r = key new then new else r) rows) = map key rows" by simp
  then show "distinct (map key rows) \<Longrightarrow> distinct (map key (upsert_unique key new rows))"
    by (auto simp: upsert_unique_def simp del: map_map)
qed

lemma upserts_unique:
  assumes "distinct (map key rows)" "distinct (map key news)"
  shows "distinct (map key (fold (upsert_unique key) news rows))"
    "set (fold (upsert_unique key) news rows) = set news \<union> {r \<in> set rows. key r \<notin> key ` set news}"
  using assms by (induction news arbitrary: rows) (auto simp: upsert_unique_distinct upsert_unique_set)

section \<open>Synchronisation\<close>

lemma distinct_length_eq: "distinct xs \<Longrightarrow> distinct ys \<Longrightarrow> set xs = set ys \<Longrightarrow> length xs = length ys"
  by (metis distinct_card)

lemma find_distinct: "distinct (map f rs) \<Longrightarrow> find (\<lambda>d. f d = k) rs = Some d \<longleftrightarrow> d \<in> set rs \<and> f d = k"
  by (induction rs) (auto simp: image_iff)

lemma map_of_current: "distinct (map f rs) \<Longrightarrow> map_of (fold (\<lambda>d m. std_map_put (f d) d m) rs []) k = Some d \<longleftrightarrow> d \<in> set rs \<and> f d = k"
  using map_of_fold_put [OF std_map_wf_Nil, of f rs k] find_distinct [of f rs k d] by (auto split: option.splits)

abbreviation trigger_key :: "trigger_info \<Rightarrow> int \<times> string" where
  "trigger_key t \<equiv> (tg_serverId t, tg_id t)"

text \<open>The rows of the table: one for a key, and as the database stores them.\<close>

definition triggers_inv :: "trigger_info list \<Rightarrow> bool" where
  "triggers_inv ts \<longleftrightarrow> distinct (map trigger_key ts) \<and> (\<forall>t \<in> set ts. stored_trigger t = t)"

definition reported_triggers :: "int \<Rightarrow> trigger_info list \<Rightarrow> bool" where
  "reported_triggers s ts \<longleftrightarrow> distinct (map (cstr \<circ> tg_id) ts) \<and> (\<forall>t \<in> set ts. tg_serverId t = s)"

lemma reported_distinct: "reported_triggers s ts \<Longrightarrow> distinct (map tg_id ts)"
  by (auto simp: reported_triggers_def distinct_map inj_on_def)

lemma trigger_key_stored [simp]: "tg_serverId (stored_trigger t) = tg_serverId t" "tg_id (stored_trigger t) = cstr (tg_id t)" "stored_trigger (stored_trigger t) = stored_trigger t"
  by (simp_all add: stored_trigger_def)

lemma triggers_one: "triggers_inv ts \<Longrightarrow> t \<in> set ts \<Longrightarrow> u \<in> set ts \<Longrightarrow> tg_serverId t = tg_serverId u \<Longrightarrow> tg_id t = tg_id u \<Longrightarrow> t = u"
  by (auto simp: triggers_inv_def distinct_map inj_on_def)

lemma stored_trigger_id: "stored_trigger t = t \<Longrightarrow> cstr (tg_id t) = tg_id t"
  by (drule arg_cong [where f = tg_id]) (simp add: stored_trigger_def)

lemma description_eq: "tg_id t = tg_id u \<Longrightarrow> tg_serverId t = tg_serverId u \<Longrightarrow> trigger_description t = trigger_description u \<longleftrightarrow> t = u"
  by (cases t; cases u) (auto simp: trigger_description_def)

lemma add_triggers: "fold addTriggerInfoWithoutTransaction news ts = fold (upsert_unique trigger_key) (map stored_trigger news) ts"
  by (induction news arbitrary: ts) (simp_all add: addTriggerInfoWithoutTransaction_def)

text \<open>What the loop picks: the identifiers to delete and the triggers to add.\<close>

lemma trigger_sync_pick:
  assumes "triggers_inv ts" "reported_triggers s news" "distinct cts" "set cts = {t \<in> set ts. tg_serverId t = s}"
  defines "r \<equiv> sync_loop tg_id isTriggerDescriptionChanged news (fold (\<lambda>t m. std_map_put (tg_id t) t m) cts []) []"
  shows "snd r = filter (\<lambda>n. n \<notin> set ts) news" "distinct (map (\<lambda>(_, t). tg_id t) (fst r))"
    "set (map (\<lambda>(_, t). tg_id t) (fst r)) = tg_id ` {t \<in> set ts. tg_serverId t = s \<and> t \<notin> set news}"
proof -
  define cm where "cm = fold (\<lambda>t m. std_map_put (tg_id t) t m) cts []"
  have news: "distinct (map tg_id news)" "\<And>t. t \<in> set news \<Longrightarrow> tg_serverId t = s" using assms(2) reported_distinct by (auto simp: reported_triggers_def)
  note one = triggers_one [OF assms(1)]
  have dist: "distinct (map tg_id cts)" using assms(3,4) one by (auto simp: distinct_map inj_on_def)
  have wf: "std_map_wf cm" using map_of_fold_put [OF std_map_wf_Nil dist] by (simp add: cm_def)
  have cm: "map_of cm i = Some t \<longleftrightarrow> t \<in> set ts \<and> tg_serverId t = s \<and> tg_id t = i" for i t
    using map_of_current [OF dist, of i t] assms(4) by (auto simp: cm_def)
  have same: "stored_same tg_id trigger_description cm n \<longleftrightarrow> n \<in> set ts" if "n \<in> set news" for n
  proof -
    have "stored_same tg_id trigger_description cm n \<longleftrightarrow> (\<exists>d. map_of cm (tg_id n) = Some d \<and> trigger_description d = trigger_description n)"
      by (auto simp: stored_same_def split: option.splits)
    also have "\<dots> \<longleftrightarrow> n \<in> set ts" unfolding cm using description_eq [of _ n] news(2) [OF that] by metis
    finally show ?thesis .
  qed
  note loop = sync_loop_result [OF wf news(1), where name = trigger_description and acc = "[]", folded isTriggerDescriptionChanged_def]
  show "snd r = filter (\<lambda>n. n \<notin> set ts) news" using loop same by (simp add: r_def cm_def [symmetric] cong: filter_cong)
  have rest: "(i, t) \<in> set (fst r) \<longleftrightarrow> t \<in> set ts \<and> tg_serverId t = s \<and> tg_id t = i \<and> t \<notin> set news" for i t
  proof -
    have "(i, t) \<in> set (fst r) \<longleftrightarrow> map_of cm i = Some t \<and> \<not> (\<exists>n \<in> set news. tg_id n = i \<and> stored_same tg_id trigger_description cm n)"
      unfolding r_def cm_def [symmetric] isTriggerDescriptionChanged_def by (rule sync_loop_fst [OF wf news(1)])
    also have "\<dots> \<longleftrightarrow> t \<in> set ts \<and> tg_serverId t = s \<and> tg_id t = i \<and> t \<notin> set news" unfolding cm using same one news(2) by metis
    finally show ?thesis .
  qed
  then show "set (map (\<lambda>(_, t). tg_id t) (fst r)) = tg_id ` {t \<in> set ts. tg_serverId t = s \<and> t \<notin> set news}" by force
  have "map (\<lambda>(_, t). tg_id t) (fst r) = map fst (fst r)" using rest by auto
  moreover have "distinct (map fst (fst r))" using loop by (simp add: r_def cm_def [symmetric] std_map_wf_distinct)
  ultimately show "distinct (map (\<lambda>(_, t). tg_id t) (fst r))" by metis
qed

lemma system_triggers_condition:
  assumes "s \<noteq> ALL_SERVERS"
  shows "getCondition ((system_host_option env synapseTriggersQueryOption s)\<lparr>ho_tableNameAlways := True\<rparr>) = Inr (render (server_cond env trigger_sc s))"
proof -
  let ?o = "(system_host_option env synapseTriggersQueryOption s)\<lparr>ho_tableNameAlways := True\<rparr>"
  have cols: "option_cols ?o trigger_sc member_gc trigger_hc"
    using trigger_columns [of "system_host_option env synapseTriggersQueryOption s"] by (simp add: system_option_fields readable_columns_def)
  have "no_filters ?o" by (simp add: no_filters_def system_host_option_def mk_host_option_def setTargetServerId_def)
  moreover have "ho_has ?o OPPRVLG_GET_ALL_SERVER" "getValidServerIdSet ?o = he_validServers env" "ho_excludeDefunctServers ?o"
    by (simp_all add: system_host_option_def mk_host_option_def setTargetServerId_def getValidServerIdSet_def system_has)
  moreover have "c_target ?o trigger_sc member_gc trigger_hc = paren [[AtEq trigger_sc (VInt s)]]"
    using assms by (simp add: c_target_def target_atoms_def system_option_fields)
  ultimately have "c_condition ?o trigger_sc member_gc trigger_hc = server_cond env trigger_sc s"
    by (simp add: c_condition_def c_filter_none server_cond_def add_cond_def)
  with getCondition_render [OF cols] show ?thesis by simp
qed

context mon_env_ok
begin

lemma getTriggerInfoList_system:
  assumes "s \<noteq> ALL_SERVERS" "s \<in> set (he_validServers (me_host env))" "flags = 0 \<or> flags = EXCLUDE_SELF_MONITORING" "distinct (mt_triggers (st_data db))"
  obtains ts where "getTriggerInfoList env ((system_triggers_option env s)\<lparr>tq_excludeFlags := flags\<rparr>) db = Inr ts" "distinct ts"
    "set ts = {t \<in> set (mt_triggers (st_data db)). tg_serverId t = s \<and> (flags \<noteq> 0 \<longrightarrow> tg_validity t \<noteq> TRIGGER_VALID_SELF_MONITORING)}"
proof -
  let ?o = "(system_triggers_option env s)\<lparr>tq_excludeFlags := flags\<rparr>" and ?c = "server_cond (me_host env) trigger_sc s"
  have base: "tq_base ?o = system_host_option (me_host env) synapseTriggersQueryOption s" by (simp add: system_triggers_option_def mk_triggers_option_def)
  have o: "trigger_option ?o" "dqo_maxNumber (tq_query ?o) = 0" "dqo_offset (tq_query ?o) = 0"
    by (simp_all add: trigger_option_def system_triggers_option_def mk_triggers_option_def system_option_fields mk_data_query_option_def NO_LIMIT_def)
  have hg: "\<not> isHostgroupUsed (tq_base ?o)" by (simp add: base system_option_fields)
  obtain ts where ts: "getTriggerInfoList env ?o db = Inr ts"
    "set ts = {t. \<exists>m. (t, m) \<in> set (trigger_join env (tq_base ?o) (mt_triggers (st_data db))) \<and> selects ?c (trigger_row (t, m)) \<and> tq_accepts ?o t}"
    "\<not> isHostgroupUsed (tq_base ?o) \<longrightarrow> (\<exists>P. mset ts = mset (filter P (mt_triggers (st_data db))))"
    using getTriggerInfoList_selects [OF o(1) _ _ _ o(2,3), of ?c] system_triggers_condition [OF assms(1)] by (simp add: base) blast
  have "and (EXCLUDE_SELF_MONITORING :: u32) EXCLUDE_SELF_MONITORING \<noteq> 0" "and (EXCLUDE_SELF_MONITORING :: u32) EXCLUDE_INVALID_HOST = 0" by code_simp+
  then have "tq_accepts ?o t \<longleftrightarrow> (flags \<noteq> 0 \<longrightarrow> tg_validity t \<noteq> TRIGGER_VALID_SELF_MONITORING)" for t
    using assms(3) by (auto simp: tq_accepts_def system_triggers_option_def mk_triggers_option_def shouldExcludeSelfMonitoring_def shouldExcludeInvalidHost_def)
  then have "set ts = {t \<in> set (mt_triggers (st_data db)). tg_serverId t = s \<and> (flags \<noteq> 0 \<longrightarrow> tg_validity t \<noteq> TRIGGER_VALID_SELF_MONITORING)}"
    using ts(2) hg assms(2) by (auto simp: trigger_join_def server_cond_selects)
  moreover have "distinct ts" using ts(3) hg assms(4) by (metis distinct_filter mset_eq_imp_distinct_iff)
  ultimately show thesis using that ts(1) by blast
qed


text \<open>Deleting the triggers of a server by identifier, all of which are stored.\<close>

lemma deleteTriggerInfo_all:
  assumes "triggers_inv (mt_triggers (st_data db))" "ids \<noteq> []" "distinct ids" "set ids \<subseteq> tg_id ` {t \<in> set (mt_triggers (st_data db)). tg_serverId t = s}"
  shows "deleteTriggerInfo env ids s db = Inr (HTERR_OK,
    \<lparr>st_data = (st_data db)\<lparr>mt_triggers := filter (\<lambda>t. \<not> (tg_serverId t = s \<and> tg_id t \<in> set ids)) (mt_triggers (st_data db))\<rparr>, st_base = None\<rparr>)"
proof -
  let ?ts = "mt_triggers (st_data db)" and ?hit = "\<lambda>t. tg_serverId t = s \<and> tg_id t \<in> set ids"
  have "cstr ` set ids = set ids" using assms(1,4) stored_trigger_id by (force simp: triggers_inv_def image_iff)
  then have hit: "(\<exists>v \<in> set ids. i = cstr v) \<longleftrightarrow> i \<in> set ids" for i by blast
  have "where_rows (me_engine env) (\<lambda>t. trigger_row (t, None)) (makeConditionForDeleteTrigger ids s) = ?hit"
  proof (rule where_rows_sql)
    fix t
    let ?ps = "[(makeStringListCondition ''id'' ids, AtIn ''id'' (map VStr ids)), (''server_id='' @ dec_int s, AtEq ''server_id'' (VInt s))]"
    have parts: "part_ok p a" if "(p, a) \<in> set ?ps" for p a
      using that part_ok_in [of "''id''" ids] part_ok_int(1) [of "''server_id''" s] assms(2) by auto
    have "sql_where (join_with '' AND '' (map fst ?ps)) (trigger_row (t, None)) = Some (\<forall>(p, a) \<in> set ?ps. holds_atom (trigger_row (t, None)) a)"
      by (rule sql_where_and) (use parts in \<open>auto simp: part_ok_def\<close>)
    then show "sql_where (makeConditionForDeleteTrigger ids s) (trigger_row (t, None)) = Some (?hit t)"
      using hit by (simp add: makeConditionForDeleteTrigger_def conj_commute)
  qed (simp add: makeConditionForDeleteTrigger_def)
  then have del: "tbl_delete (me_engine env) (\<lambda>t. trigger_row (t, None)) (makeConditionForDeleteTrigger ids s) ?ts = filter (\<lambda>t. \<not> ?hit t) ?ts"
    by (simp add: tbl_delete_def)
  have "set (map tg_id (filter ?hit ?ts)) = set ids" using assms(4) by (auto simp: image_iff)
  moreover have "distinct (map tg_id (filter ?hit ?ts))" using assms(1) by (auto simp: triggers_inv_def distinct_map inj_on_def)
  ultimately have "length (filter ?hit ?ts) = length ids" using distinct_length_eq [OF _ assms(3), of "map tg_id (filter ?hit ?ts)"] by simp
  then have "length ?ts - length (filter (\<lambda>t. \<not> ?hit t) ?ts) = length ids" using sum_length_filter_compl [of ?hit ?ts] by linarith
  then show ?thesis unfolding deleteTriggerInfo_def table_trx_run Let_def del using assms(2) by simp
qed


lemma syncTriggers_rows:
  assumes "triggers_inv (mt_triggers (st_data db))" "reported_triggers s news" "s \<in> set (he_validServers (me_host env))" "s \<noteq> ALL_SERVERS"
  obtains db' ts where "syncTriggers env news s None db = Inr (HTERR_OK, db')" "st_data db' = (st_data db)\<lparr>mt_triggers := ts\<rparr>" "triggers_inv ts"
    "set ts = {t \<in> set (mt_triggers (st_data db)). tg_serverId t \<noteq> s} \<union> stored_trigger ` set news"
proof -
  let ?ts = "mt_triggers (st_data db)"
  have news: "distinct (map (cstr \<circ> tg_id) news)" "\<forall>t \<in> set news. tg_serverId t = s" using assms(2) by (simp_all add: reported_triggers_def)
  have inv: "distinct (map trigger_key ?ts)" "\<forall>t \<in> set ?ts. stored_trigger t = t" using assms(1) by (simp_all add: triggers_inv_def)
  obtain cts where cts: "getTriggerInfoList env (system_triggers_option env s) db = Inr cts" "distinct cts" "set cts = {t \<in> set ?ts. tg_serverId t = s}"
    using getTriggerInfoList_system [OF assms(4,3), of 0 db] inv(1) by (auto simp: system_triggers_option_def mk_triggers_option_def distinct_map)
  define picked where "picked = sync_loop tg_id isTriggerDescriptionChanged news (fold (\<lambda>t m. std_map_put (tg_id t) t m) cts []) []"
  define ids where "ids = map (\<lambda>(_, t). tg_id t) (fst picked)"
  define adds where "adds = filter (\<lambda>n. n \<notin> set ?ts) news"
  note pick = trigger_sync_pick [OF assms(1,2) cts(2,3), folded picked_def, folded adds_def ids_def]
  define left where "left = filter (\<lambda>t. \<not> (tg_serverId t = s \<and> tg_id t \<in> set ids)) ?ts"
  have lset: "set left = {t \<in> set ?ts. tg_serverId t = s \<longrightarrow> t \<in> set news}"
    using pick(3) triggers_one [OF assms(1)] by (auto simp: left_def) metis
  have linv: "distinct (map trigger_key left)" using inv(1) by (auto simp: left_def distinct_map inj_on_def)
  have sub: "set ids \<subseteq> tg_id ` {t \<in> set ?ts. tg_serverId t = s}" using pick(3) by auto
  obtain db1 where db1: "(if ids = [] then Inr (HTERR_OK, db) else deleteTriggerInfo env ids s db) = Inr (HTERR_OK, db1)"
    "st_data db1 = (st_data db)\<lparr>mt_triggers := left\<rparr>"
    using deleteTriggerInfo_all [OF assms(1) _ pick(2) sub, folded left_def] by (cases "ids = []") (auto simp: left_def)
  have addsk: "distinct (map trigger_key (map stored_trigger adds))" using news by (auto simp: adds_def distinct_map inj_on_def)
  define final where "final = fold (upsert_unique trigger_key) (map stored_trigger adds) left"
  have fin: "distinct (map trigger_key final)"
    "set final = stored_trigger ` set adds \<union> {t \<in> set left. trigger_key t \<notin> trigger_key ` stored_trigger ` set adds}"
    using upserts_unique [OF linv addsk] by (simp_all add: final_def)
  have apart: "trigger_key t \<notin> trigger_key ` stored_trigger ` set adds" if t: "t \<in> set left" for t
  proof
    assume "trigger_key t \<in> trigger_key ` stored_trigger ` set adds"
    then obtain n where n: "n \<in> set news" "n \<notin> set ?ts" "tg_serverId t = s" "tg_id t = cstr (tg_id n)" using news(2) by (auto simp: adds_def)
    have "t \<in> set ?ts" "t \<in> set news" using t lset n(3) by auto
    moreover from this have "cstr (tg_id t) = cstr (tg_id n)" using n(4) by (simp add: cstr_idem)
    ultimately show False using news(1) n(1,2) by (auto simp: distinct_map inj_on_def)
  qed
  have kept: "stored_trigger t = t" if "t \<in> set ?ts" for t using inv(2) that by blast
  have split: "set news = set adds \<union> (set news \<inter> set ?ts)" by (auto simp: adds_def)
  have "stored_trigger ` (set news \<inter> set ?ts) = set news \<inter> set ?ts" using kept by force
  then have "stored_trigger ` set news = stored_trigger ` set adds \<union> (set news \<inter> set ?ts)" by (subst split) (simp add: image_Un)
  moreover have "set left = {t \<in> set ?ts. tg_serverId t \<noteq> s} \<union> (set news \<inter> set ?ts)" using lset news(2) by auto
  ultimately have u: "set left \<union> stored_trigger ` set adds = {t \<in> set ?ts. tg_serverId t \<noteq> s} \<union> stored_trigger ` set news" by blast
  have fset: "set final = {t \<in> set ?ts. tg_serverId t \<noteq> s} \<union> stored_trigger ` set news"
  proof -
    have "{t \<in> set left. trigger_key t \<notin> trigger_key ` stored_trigger ` set adds} = set left"
      by (intro equalityI subsetI CollectI conjI apart) simp_all
    then show ?thesis unfolding fin(2) using u by (simp only: Un_commute)
  qed
  have sync: "syncTriggers env news s None db = bindR (if ids = [] then Inr (HTERR_OK, db) else deleteTriggerInfo env ids s db) (\<lambda>(err, db).
      bindR (if adds = [] then Inr (db, ()) else addTriggerInfoList adds None db) (\<lambda>(db, _). Inr (err, db)))"
    unfolding syncTriggers_def cts(1) bindR_simps Let_def picked_def [symmetric] ids_def [symmetric] pick(1) by (rule refl)
  have "\<exists>db'. syncTriggers env news s None db = Inr (HTERR_OK, db') \<and> st_data db' = (st_data db)\<lparr>mt_triggers := final\<rparr>"
    unfolding sync db1(1) using db1(2) add_triggers [of adds left] by (auto simp: addTriggerInfoList_def table_trx_run final_def)
  moreover have "triggers_inv final" using fin(1) fset inv(2) by (auto simp: triggers_inv_def)
  ultimately show thesis using that fset by blast
qed

end

text \<open>
  C33. After a synchronisation the table holds exactly the reported triggers of the server, as a row can hold them, and the
  triggers of the other servers as before; nothing else in the database changes. A row has the texts up to a NUL and the
  time of the last change as \<open>int\<close>, so the rows are the reported records when the texts have no NUL and the time is before 2038.
\<close>

theorem syncTriggers_exact:
  assumes "mon_env_ok env" and "triggers_inv (mt_triggers (st_data db))" and "reported_triggers s news"
    and "s \<in> set (he_validServers (me_host env))" and "s \<noteq> ALL_SERVERS"
  shows "\<exists>db' ts. syncTriggers env news s None db = Inr (HTERR_OK, db') \<and> st_data db' = (st_data db)\<lparr>mt_triggers := ts\<rparr>
    \<and> triggers_inv ts \<and> set ts = {t \<in> set (mt_triggers (st_data db)). tg_serverId t \<noteq> s} \<union> stored_trigger ` set news"
  by (rule mon_env_ok.syncTriggers_rows [OF assms]) blast

lemma ex_trigger_stored: "stored_trigger (ex_trigger s ''t1'' h v) = ex_trigger s ''t1'' h v" "stored_trigger (ex_trigger s ''t2'' h v) = ex_trigger s ''t2'' h v"
  "stored_trigger (ex_trigger s ''t3'' h v) = ex_trigger s ''t3'' h v" "stored_trigger (ex_trigger s ''t4'' h v) = ex_trigger s ''t4'' h v"
  "tg_serverId (ex_trigger s i h v) = s" "tg_id (ex_trigger s i h v) = i" "cstr ''t1'' = ''t1''" "cstr ''t2'' = ''t2''"
  by (simp_all add: stored_trigger_def ex_trigger_def cstr_def nul_def int_time_small)

theorem syncTriggers_exact_witness:
  "\<exists>db' ts. syncTriggers ex_mon_env [ex_trigger 1 ''t1'' 7 4, ex_trigger 1 ''t2'' 7 2] 1 None ex_triggers_db = Inr (HTERR_OK, db')
     \<and> mt_triggers (st_data db') = ts \<and> set ts = {ex_trigger 2 ''t4'' 7 4, ex_trigger 1 ''t1'' 7 4, ex_trigger 1 ''t2'' 7 2}"
proof -
  have "triggers_inv (mt_triggers (st_data ex_triggers_db))" "reported_triggers 1 [ex_trigger 1 ''t1'' 7 4, ex_trigger 1 ''t2'' 7 2]"
    "1 \<in> set (he_validServers (me_host ex_mon_env))" "(1 :: int) \<noteq> ALL_SERVERS"
    by (simp_all add: triggers_inv_def reported_triggers_def ex_triggers_db_def ex_mon_tables_def ex_trigger_stored ex_mon_env_def
        ex_host_env_def ALL_SERVERS_def)
  from syncTriggers_exact [OF ex_mon.mon_env_ok_axioms this] obtain db' ts
    where "syncTriggers ex_mon_env [ex_trigger 1 ''t1'' 7 4, ex_trigger 1 ''t2'' 7 2] 1 None ex_triggers_db = Inr (HTERR_OK, db')"
      "st_data db' = (st_data ex_triggers_db)\<lparr>mt_triggers := ts\<rparr>"
      "set ts = {t \<in> set (mt_triggers (st_data ex_triggers_db)). tg_serverId t \<noteq> 1} \<union> {ex_trigger 1 ''t1'' 7 4, ex_trigger 1 ''t2'' 7 2}"
    by (auto simp: ex_trigger_stored)
  moreover have "{t \<in> set (mt_triggers (st_data ex_triggers_db)). tg_serverId t \<noteq> 1} = {ex_trigger 2 ''t4'' 7 4}"
    by (auto simp: ex_triggers_db_def ex_mon_tables_def ex_trigger_def)
  ultimately show ?thesis by auto
qed

end
