(* ===== verification/Mon_Events.thy ===== *)
theory Mon_Events
  imports Mon_Sync
begin

text \<open>
  Events of the monitoring servers (src/server/src/DBTablesMonitoring.cc): the option of a query, the
  condition it builds, storing events with what the trigger knows, and the queries.
\<close>

section \<open>Query option\<close>

definition synapseEventsQueryOption :: synapse where
  "synapseEventsQueryOption =
     \<lparr>sy_tableProfile = tableProfileEvents, sy_selfIdColumnIdx = 0, sy_serverIdColumnIdx = 1,
      sy_hostTableProfile = tableProfileEvents, sy_hostIdColumnIdx = 10, sy_needToJoinHostgroup = True,
      sy_hostgroupMapTableProfile = tableProfileHostgroupMember, sy_hostgroupMapServerIdColumnIdx = 1,
      sy_hostgroupMapHostIdColumnIdx = 2, sy_hostgroupMapGroupIdColumnIdx = 3,
      sy_globalHostIdColumnIdx = 9, sy_hostgroupMapGlobalHostIdColumnIdx = 4\<rparr>"

datatype event_sort = SORT_UNIFIED_ID | SORT_TIME

text \<open>Sets are lists in the order of the set; \<open>limitOfUnifiedId\<close> 0 is no limit.\<close>

record events_option =
  eq_base :: host_option
  eq_query :: data_query_option
  eq_limitOfUnifiedId :: nat
  eq_sortType :: event_sort
  eq_sortDirection :: sort_direction
  eq_type :: int
  eq_minSeverity :: int
  eq_triggerStatus :: int
  eq_triggerId :: string
  eq_beginTime :: "int \<times> int"
  eq_endTime :: "int \<times> int"
  eq_eventTypes :: "int list"
  eq_triggerSeverities :: "int list"
  eq_triggerStatuses :: "int list"
  eq_incidentStatuses :: "string list"
  eq_groupByColumns :: "string list"
  eq_hostnameList :: "string list"
  eq_eventIds :: "string list"

definition mk_events_option :: "host_option \<Rightarrow> events_option" where
  "mk_events_option base =
     \<lparr>eq_base = base, eq_query = mk_data_query_option, eq_limitOfUnifiedId = NO_LIMIT, eq_sortType = SORT_UNIFIED_ID,
      eq_sortDirection = SORT_DONT_CARE, eq_type = EVENT_TYPE_ALL, eq_minSeverity = TRIGGER_SEVERITY_UNKNOWN,
      eq_triggerStatus = TRIGGER_STATUS_ALL, eq_triggerId = ALL_TRIGGERS, eq_beginTime = (0, 0), eq_endTime = (0, 0),
      eq_eventTypes = [], eq_triggerSeverities = [], eq_triggerStatuses = [], eq_incidentStatuses = [], eq_groupByColumns = [],
      eq_hostnameList = [], eq_eventIds = []\<rparr>"

definition eq_setSortType :: "event_sort \<Rightarrow> sort_direction \<Rightarrow> events_option \<Rightarrow> events_option" where
  "eq_setSortType type direction opt =
     (let opt = opt\<lparr>eq_sortType := type, eq_sortDirection := direction\<rparr>
      in case type of
           SORT_UNIFIED_ID \<Rightarrow> opt\<lparr>eq_query := dqo_setSortOrder (eq_query opt) \<lparr>so_columnName = ''unified_id'', so_direction = direction\<rparr>\<rparr>
         | SORT_TIME \<Rightarrow> opt\<lparr>eq_query := dqo_setSortOrderVect (eq_query opt)
              [\<lparr>so_columnName = ''time_sec'', so_direction = direction\<rparr>, \<lparr>so_columnName = ''time_ns'', so_direction = direction\<rparr>,
               \<lparr>so_columnName = ''unified_id'', so_direction = direction\<rparr>]\<rparr>)"

definition eq_setGroupByColumns :: "string list \<Rightarrow> events_option \<Rightarrow> events_option" where
  "eq_setGroupByColumns columns opt = opt\<lparr>eq_groupByColumns := columns, eq_query := dqo_setGroupByVect (eq_query opt) columns\<rparr>"

text \<open>The text of a step that names a column of the table of events.\<close>

definition event_col :: "events_option \<Rightarrow> nat \<Rightarrow> (string \<Rightarrow> string) \<Rightarrow> string res" where
  "event_col opt i f = bindR (ho_getColumnName (eq_base opt) i) (\<lambda>col. Inr (f col))"

text \<open>Alternatives in a set; parentheses come with the second element.\<close>

definition any_of :: "'a list \<Rightarrow> ('a \<Rightarrow> string list) \<Rightarrow> string" where
  "any_of xs texts =
     (let cond = fold (\<lambda>s c. addCondition c s ADD_TYPE_OR False) (concat (map texts xs)) []
      in if length xs > 1 then ''('' @ cond @ '')'' else cond)"

definition incident_texts :: "string \<Rightarrow> string list" where
  "incident_texts status = (''incidents.status='' @ enc_str status) # (if status = [] then [''incidents.status is NULL''] else [])"

text \<open>What \<open>EventsQueryOption::getCondition\<close> adds; an empty set adds nothing.\<close>

definition eq_steps :: "events_option \<Rightarrow> (bool \<times> string res) list" where
  "eq_steps opt =
     [(eq_limitOfUnifiedId opt \<noteq> 0, event_col opt 0 (\<lambda>col. col @ ''<='' @ dec_int (int (eq_limitOfUnifiedId opt)))),
      (eq_type opt \<noteq> EVENT_TYPE_ALL, event_col opt 5 (\<lambda>col. col @ ''='' @ dec_int (eq_type opt))),
      (eq_minSeverity opt \<noteq> TRIGGER_SEVERITY_UNKNOWN, Inr (''severity>='' @ dec_int (eq_minSeverity opt))),
      (eq_triggerStatus opt \<noteq> TRIGGER_STATUS_ALL, event_col opt 7 (\<lambda>col. col @ ''='' @ dec_int (eq_triggerStatus opt))),
      (eq_triggerId opt \<noteq> ALL_TRIGGERS, event_col opt 6 (\<lambda>col. col @ ''='' @ enc_str (eq_triggerId opt))),
      (fst (eq_beginTime opt) \<noteq> 0 \<or> snd (eq_beginTime opt) \<noteq> 0,
         bindR (ho_getColumnName (eq_base opt) 3) (\<lambda>sec. event_col opt 4 (\<lambda>ns. time_from sec ns (eq_beginTime opt)))),
      (fst (eq_endTime opt) \<noteq> 0 \<or> snd (eq_endTime opt) \<noteq> 0,
         bindR (ho_getColumnName (eq_base opt) 3) (\<lambda>sec. event_col opt 4 (\<lambda>ns. time_until sec ns (eq_endTime opt)))),
      (eq_hostnameList opt \<noteq> [], Inr (makeStringListCondition ''hostname'' (eq_hostnameList opt))),
      (eq_eventIds opt \<noteq> [], Inr (makeStringListCondition ''id'' (eq_eventIds opt))),
      (eq_eventTypes opt \<noteq> [], event_col opt 5 (\<lambda>col. any_of (eq_eventTypes opt) (\<lambda>t. [col @ ''='' @ dec_int t]))),
      (eq_triggerSeverities opt \<noteq> [], event_col opt 8 (\<lambda>col. any_of (eq_triggerSeverities opt) (\<lambda>t. [col @ ''='' @ dec_int t]))),
      (eq_triggerStatuses opt \<noteq> [], event_col opt 7 (\<lambda>col. any_of (eq_triggerStatuses opt) (\<lambda>t. [col @ ''='' @ dec_int t]))),
      (eq_incidentStatuses opt \<noteq> [], Inr (any_of (eq_incidentStatuses opt) incident_texts))]"

definition eq_getCondition :: "events_option \<Rightarrow> string res" where
  "eq_getCondition opt =
     bindR (getCondition (eq_base opt)) (\<lambda>condition.
       if isAlwaysFalseCondition condition then Inr condition else add_steps (eq_steps opt) condition)"

section \<open>Storing\<close>

definition substIfNeeded :: "'a \<Rightarrow> 'a \<Rightarrow> 'a \<Rightarrow> 'a" where
  "substIfNeeded lhs rhs initialValue = (if lhs = initialValue then rhs else lhs)"

definition merge_trigger :: "trigger_info \<Rightarrow> mon_event \<Rightarrow> mon_event" where
  "merge_trigger t e = e\<lparr>ev_severity := substIfNeeded (ev_severity e) (tg_severity t) TRIGGER_SEVERITY_UNKNOWN,
     ev_globalHostId := substIfNeeded (ev_globalHostId e) (tg_globalHostId t) INVALID_HOST_ID,
     ev_hostIdInServer := substIfNeeded (ev_hostIdInServer e) (tg_hostIdInServer t) [],
     ev_hostName := substIfNeeded (ev_hostName e) (tg_hostName t) [],
     ev_brief := substIfNeeded (ev_brief e) (tg_brief t) [],
     ev_extendedInfo := substIfNeeded (ev_extendedInfo e) (tg_extendedInfo t) []\<rparr>"

definition mergeTriggerInfo :: "mon_env \<Rightarrow> mon_event \<Rightarrow> trigger_info list \<Rightarrow> (bool \<times> mon_event) res" where
  "mergeTriggerInfo env e ts =
     bindR (tq_getCondition ((system_triggers_option env (ev_serverId e))\<lparr>tq_targetId := ev_triggerId e\<rparr>)) (\<lambda>condition.
       case tbl_select (me_engine env) (\<lambda>t. trigger_row (t, None)) condition ts of
         [] \<Rightarrow> Inr (False, e)
       | t # _ \<Rightarrow> Inr (True, merge_trigger t e))"

definition stored_event :: "mon_event \<Rightarrow> mon_event" where
  "stored_event e = e\<lparr>ev_id := cstr (ev_id e), ev_triggerId := cstr (ev_triggerId e), ev_hostIdInServer := cstr (ev_hostIdInServer e),
     ev_hostName := cstr (ev_hostName e), ev_brief := cstr (ev_brief e), ev_extendedInfo := cstr (ev_extendedInfo e), ev_time := int_time (ev_time e), ev_nsec := int_time (ev_nsec e)\<rparr>"

text \<open>
  The primary key is automatic and the other keys of the table are not unique, so every event is a new
  row. The caller's event gets what was merged and the identifier of the row.
\<close>

definition addEventInfoWithoutTransaction :: "mon_env \<Rightarrow> mon_event \<Rightarrow> mon_tables \<Rightarrow> (mon_tables \<times> mon_event) res" where
  "addEventInfoWithoutTransaction env e d =
     bindR (mergeTriggerInfo env e (mt_triggers d)) (\<lambda>(_, e).
       let i = en_nextId (me_engine env) (map ev_unifiedId (mt_events d))
       in Inr (d\<lparr>mt_events := mt_events d @ [stored_event (e\<lparr>ev_unifiedId := i\<rparr>)]\<rparr>, e\<lparr>ev_unifiedId := i\<rparr>))"

fun add_event_loop :: "mon_env \<Rightarrow> mon_event list \<Rightarrow> mon_tables \<Rightarrow> mon_event list \<Rightarrow> (mon_tables \<times> mon_event list) res" where
  "add_event_loop env [] d done = Inr (d, done)"
| "add_event_loop env (e # es) d done =
     bindR (addEventInfoWithoutTransaction env e d) (\<lambda>(d, e). add_event_loop env es d (done @ [e]))"

text \<open>The events with their identifiers, and the number for the statistics.\<close>

definition addEventInfo :: "mon_env \<Rightarrow> mon_event \<Rightarrow> mon_db \<Rightarrow> (mon_db \<times> mon_event \<times> nat) res" where
  "addEventInfo env e db =
     bindR (table_trx (\<lambda>d _. bindR (addEventInfoWithoutTransaction env e d) (\<lambda>(d, e). Inr (d, (e, 1)))) None db (e, 0)) (\<lambda>(db, e, n). Inr (db, e, n))"

definition addEventInfoList :: "mon_env \<Rightarrow> mon_event list \<Rightarrow> mon_db trx_hooks option \<Rightarrow> mon_db \<Rightarrow> (mon_db \<times> mon_event list \<times> nat) res" where
  "addEventInfoList env es hooks db =
     bindR (table_trx (\<lambda>d _. bindR (add_event_loop env es d []) (\<lambda>(d, es). Inr (d, (es, length es)))) hooks db (es, 0)) (\<lambda>(db, es, n). Inr (db, es, n))"

section \<open>Queries\<close>

text \<open>The row of an event, with an incident and a membership of the host when the query joins them.\<close>

definition event_row :: "mon_event \<times> incident_info option \<times> hostgroup_member option \<Rightarrow> sql_row" where
  "event_row = (\<lambda>(e, i, m). (\<lambda>_. VNull)(
     ''events.unified_id'' := VInt (ev_unifiedId e), ''unified_id'' := VInt (ev_unifiedId e),
     ''events.server_id'' := VInt (ev_serverId e), ''server_id'' := VInt (ev_serverId e), ''id'' := VStr (ev_id e),
     ''events.time_sec'' := VInt (ev_time e), ''events.time_ns'' := VInt (ev_nsec e), ''time_sec'' := VInt (ev_time e), ''time_ns'' := VInt (ev_nsec e),
     ''events.event_value'' := VInt (ev_type e), ''event_value'' := VInt (ev_type e),
     ''events.trigger_id'' := VStr (ev_triggerId e), ''trigger_id'' := VStr (ev_triggerId e),
     ''events.status'' := VInt (ev_status e), ''status'' := VInt (ev_status e),
     ''events.severity'' := VInt (ev_severity e), ''severity'' := VInt (ev_severity e),
     ''events.host_id_in_server'' := VStr (ev_hostIdInServer e), ''host_id_in_server'' := VStr (ev_hostIdInServer e), ''hostname'' := VStr (ev_hostName e),
     ''incidents.status'' := (case i of None \<Rightarrow> VNull | Some i \<Rightarrow> VStr (ic_status i)),
     ''hostgroup_member.host_group_id'' := (case m of None \<Rightarrow> VNull | Some m \<Rightarrow> VStr (hm_hostgroupIdInServer m))))"

text \<open>A LEFT JOIN with the incidents of the event.\<close>

definition incident_join :: "incident_info list \<Rightarrow> mon_event list \<Rightarrow> (mon_event \<times> incident_info option) list" where
  "incident_join is es = concat (map (\<lambda>e.
     case filter (\<lambda>i. ic_unifiedEventId i = ev_unifiedId e) is of [] \<Rightarrow> [(e, None)] | hits \<Rightarrow> map (\<lambda>i. (e, Some i)) hits) es)"

definition event_join ::
  "mon_env \<Rightarrow> host_option \<Rightarrow> bool \<Rightarrow> mon_tables \<Rightarrow> (mon_event \<times> incident_info option \<times> hostgroup_member option) list" where
  "event_join env opt withIncidents d =
     (let rows = (if withIncidents then incident_join (mt_incidents d) (mt_events d) else map (\<lambda>e. (e, None)) (mt_events d))
      in if isHostgroupUsed opt
         then concat (map (\<lambda>(e, i). map (\<lambda>m. (e, i, Some m)) (filter (\<lambda>m. ev_globalHostId e = hm_hostId m) (ht_members (me_hosts env)))) rows)
         else map (\<lambda>(e, i). (e, i, None)) rows)"

text \<open>
  With hostgroups the column \<open>id\<close> of the condition is in two tables: the database reports an error,
  which the agents throw.
\<close>

definition event_rows ::
  "mon_env \<Rightarrow> events_option \<Rightarrow> bool \<Rightarrow> string \<Rightarrow> mon_tables \<Rightarrow> (mon_event \<times> incident_info option) list res" where
  "event_rows env opt withIncidents condition d =
     (if isHostgroupUsed (eq_base opt) \<and> eq_eventIds opt \<noteq> [] \<and> \<not> isAlwaysFalseCondition condition then Inl HatoholException
      else Inr (map (\<lambda>(e, i, _). (e, i)) (tbl_select (me_engine env) event_row condition (event_join env (eq_base opt) withIncidents d))))"

definition eq_full_names :: "events_option \<Rightarrow> events_option" where
  "eq_full_names opt = opt\<lparr>eq_base := (eq_base opt)\<lparr>ho_tableNameAlways := True\<rparr>\<rparr>"

definition event_builder :: "events_option \<Rightarrow> bool \<Rightarrow> (string \<times> join_builder) res" where
  "event_builder opt withIncidents =
     bindR (eq_getCondition (eq_full_names opt)) (\<lambda>condition.
     bindR (if withIncidents then addTable1 (mk_join_builder tableProfileEvents (eq_base opt)) tableProfileIncidents LEFT_JOIN tableProfileEvents 0 14
            else Inr (mk_join_builder tableProfileEvents (eq_base opt))) (\<lambda>b.
     bindR (build_join b) (\<lambda>b. Inr (condition, b))))"

text \<open>The columns of no incident are read as zeros and empty strings.\<close>

definition no_incident :: incident_info where
  "no_incident = \<lparr>ic_trackerId = 0, ic_serverId = 0, ic_eventId = [], ic_triggerId = [], ic_identifier = [], ic_location = [], ic_status = [],
     ic_assignee = [], ic_createdAt = (0, 0), ic_updatedAt = (0, 0), ic_priority = [], ic_doneRatio = 0, ic_unifiedEventId = 0,
     ic_commentCount = 0, ic_statusCode = STATUS_UNKNOWN\<rparr>"

definition read_incident :: "mon_event \<times> incident_info option \<Rightarrow> incident_info" where
  "read_incident = (\<lambda>(e, i). (case i of None \<Rightarrow> no_incident | Some i \<Rightarrow> i)\<lparr>ic_statusCode := STATUS_UNKNOWN, ic_serverId := ev_serverId e,
     ic_eventId := ev_id e, ic_triggerId := ev_triggerId e, ic_unifiedEventId := ev_unifiedId e\<rparr>)"

definition getEventInfoList :: "mon_env \<Rightarrow> events_option \<Rightarrow> bool \<Rightarrow> mon_db \<Rightarrow> (hterr \<times> mon_event list \<times> incident_info list) res" where
  "getEventInfoList env opt incidentInfoVect db =
     (let withIncidents = incidentInfoVect \<or> eq_incidentStatuses opt \<noteq> []
      in bindR (event_builder opt withIncidents) (\<lambda>(condition, _).
           if isAlwaysFalseCondition condition then Inr (HTERR_OK, [], [])
           else if dqo_maxNumber (eq_query opt) = 0 \<and> dqo_offset (eq_query opt) \<noteq> 0 then Inr (HTERR_OFFSET_WITHOUT_LIMIT, [], [])
           else bindR (event_rows env opt withIncidents condition (st_data db)) (\<lambda>rows.
             let rows = limit_rows (eq_query opt)
                   (me_orderEvents env (getOrderBy (eq_query opt)) (if isHostgroupUsed (eq_base opt) then remdups rows else rows))
             in Inr (HTERR_OK, map fst rows, if incidentInfoVect then map read_incident rows else []))))"

definition EVENT_NOT_FOUND :: string where
  "EVENT_NOT_FOUND = []"

definition MONITORING_SELF_LOCAL_HOST_ID :: string where
  "MONITORING_SELF_LOCAL_HOST_ID = ''__SELF_MONITOR''"

text \<open>Identifiers are strings, and so is their maximum.\<close>

definition getMaxEventId :: "mon_env \<Rightarrow> int \<Rightarrow> mon_db \<Rightarrow> string" where
  "getMaxEventId env serverId db =
     (case tbl_select (me_engine env) (\<lambda>e. event_row (e, None, None)) (''server_id='' @ dec_int serverId) (mt_events (st_data db)) of
        [] \<Rightarrow> EVENT_NOT_FOUND
      | es \<Rightarrow> Max (ev_id ` set es))"

text \<open>The maximum of no rows is NULL, which is read as 0.\<close>

definition getTimeOfLastEvent :: "mon_env \<Rightarrow> int \<Rightarrow> string \<Rightarrow> mon_db \<Rightarrow> int \<times> int" where
  "getTimeOfLastEvent env serverId triggerId db =
     (let row = (\<lambda>e. event_row (e, None, None)); es = mt_events (st_data db);
          condition = ''server_id='' @ dec_int serverId @ '' AND host_id_in_server!='' @ enc_str MONITORING_SELF_LOCAL_HOST_ID
            @ (if triggerId \<noteq> ALL_TRIGGERS then '' AND trigger_id='' @ enc_str triggerId else []);
          unifiedId = (case tbl_select (me_engine env) row condition es of [] \<Rightarrow> 0 | hits \<Rightarrow> Max (ev_unifiedId ` set hits))
      in case tbl_select (me_engine env) row (''unified_id='' @ dec_int unifiedId) es of [] \<Rightarrow> (0, 0) | e # _ \<Rightarrow> (ev_time e, ev_nsec e))"

section \<open>Numbers of events\<close>

definition event_count_rows :: "mon_env \<Rightarrow> events_option \<Rightarrow> mon_db \<Rightarrow> mon_event list res" where
  "event_count_rows env opt db =
     bindR (event_builder opt True) (\<lambda>(condition, _).
     bindR (event_rows env opt True condition (st_data db)) (\<lambda>rows. Inr (map fst rows)))"

definition getNumberOfEvents :: "mon_env \<Rightarrow> events_option \<Rightarrow> mon_db \<Rightarrow> nat res" where
  "getNumberOfEvents env opt db = bindR (event_count_rows env opt db) (\<lambda>es. Inr (length (remdups (map ev_unifiedId es))))"

definition getNumberOfHostsWithSpecifiedEvents :: "mon_env \<Rightarrow> events_option \<Rightarrow> mon_db \<Rightarrow> nat res" where
  "getNumberOfHostsWithSpecifiedEvents env opt db = bindR (event_count_rows env opt db) (\<lambda>es. Inr (length (remdups (map ev_globalHostId es))))"

text \<open>Rows are counted, not events; the groups come in the order of the rows.\<close>

definition getEventSeverityStatistics :: "mon_env \<Rightarrow> events_option \<Rightarrow> mon_db \<Rightarrow> (int \<times> nat) list res" where
  "getEventSeverityStatistics env opt db =
     bindR (event_count_rows env opt db) (\<lambda>es.
       Inr (map (\<lambda>s. (s, length (filter (\<lambda>e. ev_severity e = s) es))) (remdups (map ev_severity es))))"

end
