(* ===== verification/Mon_EventQuery.thy ===== *)
theory Mon_EventQuery
  imports Mon_Events
begin

text \<open>
  What the queries for events return: the events that the user may read and asked for, and where the
  condition lets others through.
\<close>

section \<open>Alternatives\<close>

lemma fold_or_join: "\<forall>t \<in> set ts. t \<noteq> [] \<Longrightarrow> fold (\<lambda>s c. addCondition c s ADD_TYPE_OR False) ts c = join_with '' OR '' (if c = [] then ts else c # ts)"
proof (induction ts arbitrary: c)
  case (Cons t ts)
  then show ?case by (cases ts) (auto simp: addCondition_def)
qed simp

definition ors :: "sql_atom list \<Rightarrow> sql_cond" where
  "ors as = map (\<lambda>a. [a]) as"

lemma ors_reads:
  assumes "list_all2 part_ok ts as" "ts \<noteq> []"
  shows "reads_as (fold (\<lambda>s c. addCondition c s ADD_TYPE_OR False) ts []) (ors as)"
proof -
  have ts: "\<forall>t \<in> set ts. t \<noteq> []" using assms(1) by (auto simp: list_all2_conv_all_nth part_ok_def in_set_conv_nth)
  have len: "length ts = length as" using assms(1) by (rule list_all2_lengthD)
  have zip: "ts = map fst (zip ts as)" "as = map snd (zip ts as)" using len by simp_all
  have "lexes (join_with '' OR '' (map fst (zip ts as))) (join_with [TOr] (map (\<lambda>p. atom_toks (snd p)) (zip ts as)))"
    by (rule lexes_join) (use assms(1) in \<open>auto simp: list_all2_iff part_ok_def\<close>)
  moreover have "map (\<lambda>p. atom_toks (snd p)) (zip ts as) = map atom_toks as" by (subst (2) zip(2)) simp
  ultimately have "lexes (join_with '' OR '' ts) (cond_toks (ors as))" using len by (simp add: cond_toks_def ors_def comp_def)
  moreover have "cond_ok (ors as)" using assms(1) len by (auto simp: ors_def cond_ok_def list_all2_conv_all_nth in_set_conv_nth part_ok_def)
  moreover have "ors as \<noteq> []" "join_with '' OR '' ts \<noteq> []" using assms(2) len ts by (auto simp: ors_def join_with_eq_Nil)
  ultimately show ?thesis using ts by (simp add: reads_as_def fold_or_join)
qed

lemma par_reads: "reads_as s c \<Longrightarrow> c \<noteq> [] \<Longrightarrow> part_ok (''('' @ s @ '')'') (AtPar c)"
  using lexes_wrap [of s "cond_toks c"] cond_ok_par [of c] by (simp add: part_ok_def reads_as_def cond_toks_def del: wf_atom.simps cols_ok.simps)

lemma holds_ors: "holds row (ors as) \<longleftrightarrow> (\<exists>a \<in> set as. holds_atom row a)"
  by (auto simp: ors_def holds_def)

text \<open>The atom for a set of numbers, and the one for a set of statuses of incidents.\<close>

definition set_atom :: "sql_atom list \<Rightarrow> sql_atom" where
  "set_atom as = (case as of [a] \<Rightarrow> a | _ \<Rightarrow> AtPar (ors as))"

lemma holds_set_atom: "as \<noteq> [] \<Longrightarrow> holds_atom row (set_atom as) \<longleftrightarrow> (\<exists>a \<in> set as. holds_atom row a)"
  by (cases as; cases "tl as") (simp_all add: set_atom_def holds_ors)

lemma any_of_reads:
  assumes "\<And>x. x \<in> set xs \<Longrightarrow> list_all2 part_ok (texts x) (atoms x)" "concat (map texts xs) \<noteq> []"
    and "length (concat (map atoms xs)) > 1 \<longleftrightarrow> length xs > 1"
  shows "part_ok (any_of xs texts) (set_atom (concat (map atoms xs)))"
proof -
  let ?as = "concat (map atoms xs)" and ?ts = "concat (map texts xs)"
  have all: "list_all2 part_ok ?ts ?as" using assms(1) by (induction xs) (auto intro!: list_all2_appendI)
  show ?thesis
  proof (cases "length xs > 1")
    case True
    then obtain a b cs where "?as = a # b # cs" using assms(3) by (cases ?as; cases "tl ?as") auto
    then show ?thesis using par_reads [OF ors_reads [OF all assms(2)]] True by (simp add: any_of_def set_atom_def ors_def)
  next
    case False
    then obtain t a where "?ts = [t]" "?as = [a]" using all assms(2,3) by (cases ?ts; cases ?as; cases "tl ?as") auto
    moreover from this have "t \<noteq> []" using all by (simp add: part_ok_def)
    ultimately show ?thesis using all False by (simp add: any_of_def set_atom_def addCondition_def)
  qed
qed

definition incident_atoms :: "string \<Rightarrow> sql_atom list" where
  "incident_atoms status = AtEq ''incidents.status'' (VStr status) # (if status = [] then [AtNull ''incidents.status''] else [])"

lemma event_idents [simp]:
  "ident ''events.unified_id''" "ident ''events.event_value''" "ident ''severity''" "ident ''events.status''" "ident ''events.trigger_id''"
  "ident ''events.time_sec''" "ident ''events.time_ns''" "ident ''events.severity''" "ident ''incidents.status''" "ident ''events.server_id''"
  "ident ''events.host_id_in_server''" "ident ''trigger_id''" "ident ''unified_id''"
  by code_simp+

lemma lex_is_lower: "lex (CHR ''i'' # CHR ''s'' # CHR '' '' # r) = map_option (Cons TIs) (lex r)"
proof -
  have "up_char CHR ''s'' = CHR ''S''" by code_simp
  then show ?thesis using lex_word [of "CHR ''i''" "''s''" "CHR '' '' # r"] by (simp add: char_class_defs word_tok_def up_char_values)
qed

lemma part_ok_null: "part_ok ''incidents.status is NULL'' (AtNull ''incidents.status'')"
proof -
  have "lex (''incidents.status'' @ '' is NULL'' @ rest) = map_option ((@) (atom_toks (AtNull ''incidents.status''))) (lex rest)" if "sep rest" for rest
    using lex_ident [of "''incidents.status''" "'' is NULL'' @ rest"] lex_null [OF that]
    by (simp add: lex_is_lower option.map_comp comp_def append_eta)
  then show ?thesis by (simp add: part_ok_def lexes_def)
qed

lemma incident_parts: "list_all2 part_ok (incident_texts s) (incident_atoms s)"
  using part_ok_text [of "''incidents.status''" s] part_ok_null by (simp add: incident_texts_def incident_atoms_def)

section \<open>The condition\<close>

definition event_option :: "events_option \<Rightarrow> bool" where
  "event_option opt \<longleftrightarrow> ho_synapse (eq_base opt) = synapseEventsQueryOption"

abbreviation event_sc :: string where "event_sc \<equiv> ''events.server_id''"
abbreviation event_hc :: string where "event_hc \<equiv> ''events.host_id_in_server''"

lemmas event_profile_defs = synapseEventsQueryOption_def tableProfileEvents_def COLUMN_DEF_EVENTS_def tableProfileIncidents_def COLUMN_DEF_INCIDENTS_def
  tableProfileHostgroupMember_def COLUMN_DEF_HOSTGROUP_MEMBER_def tp_numColumns_def getFullColumnName_def getColumnName_def column_def null_column_def

lemma event_columns: "ho_synapse opt = synapseEventsQueryOption \<Longrightarrow> readable_columns (opt\<lparr>ho_tableNameAlways := True\<rparr>) event_sc member_gc event_hc"
  by (simp add: readable_columns_def option_cols_def getServerIdColumnName_def getHostgroupIdColumnName_def getHostIdColumnName_def
      getColumnNameCommon_def event_profile_defs)

lemma event_cols:
  assumes "ho_synapse opt = synapseEventsQueryOption" "ho_tableNameAlways opt"
  shows "ho_getColumnName opt 0 = Inr ''events.unified_id''" "ho_getColumnName opt 3 = Inr ''events.time_sec''"
    "ho_getColumnName opt 4 = Inr ''events.time_ns''" "ho_getColumnName opt 5 = Inr ''events.event_value''"
    "ho_getColumnName opt 6 = Inr ''events.trigger_id''" "ho_getColumnName opt 7 = Inr ''events.status''" "ho_getColumnName opt 8 = Inr ''events.severity''"
  using assms by (simp_all add: ho_getColumnName_def getColumnNameCommon_def event_profile_defs)

definition eq_atoms :: "events_option \<Rightarrow> sql_atom list" where
  "eq_atoms opt =
     [AtCmp CmpLe ''events.unified_id'' (int (eq_limitOfUnifiedId opt)), AtEq ''events.event_value'' (VInt (eq_type opt)),
      AtCmp CmpGe ''severity'' (eq_minSeverity opt), AtEq ''events.status'' (VInt (eq_triggerStatus opt)), AtEq ''events.trigger_id'' (VStr (eq_triggerId opt)),
      from_atom ''events.time_sec'' ''events.time_ns'' (eq_beginTime opt), until_atom ''events.time_sec'' ''events.time_ns'' (eq_endTime opt),
      AtIn ''hostname'' (map VStr (eq_hostnameList opt)), AtIn ''id'' (map VStr (eq_eventIds opt)),
      set_atom (map (\<lambda>t. AtEq ''events.event_value'' (VInt t)) (eq_eventTypes opt)), set_atom (map (\<lambda>t. AtEq ''events.severity'' (VInt t)) (eq_triggerSeverities opt)),
      set_atom (map (\<lambda>t. AtEq ''events.status'' (VInt t)) (eq_triggerStatuses opt)), set_atom (concat (map incident_atoms (eq_incidentStatuses opt)))]"

lemma part_ok_ints: "ident c \<Longrightarrow> xs \<noteq> [] \<Longrightarrow> part_ok (any_of xs (\<lambda>t. [c @ ''='' @ dec_int t])) (set_atom (map (\<lambda>t. AtEq c (VInt t)) xs))"
  using any_of_reads [of xs "\<lambda>t. [c @ ''='' @ dec_int t]" "\<lambda>t. [AtEq c (VInt t)]"] part_ok_int(1) [of c]
  by (simp add: concat_map_singleton)

lemma part_ok_incidents:
  assumes "sts \<noteq> []" "sts \<noteq> [[]]"
  shows "part_ok (any_of sts incident_texts) (set_atom (concat (map incident_atoms sts)))"
proof (rule any_of_reads)
  show "length (concat (map incident_atoms sts)) > 1 \<longleftrightarrow> length sts > 1"
    using assms by (cases sts; cases "tl sts") (auto simp: incident_atoms_def)
  show "concat (map incident_texts sts) \<noteq> []" using assms(1) by (cases sts) (auto simp: incident_texts_def)
qed (rule incident_parts)

lemma eq_steps_ok:
  assumes "event_option opt" "ho_tableNameAlways (eq_base opt)" "eq_incidentStatuses opt \<noteq> [[]]"
  shows "steps_ok (eq_steps opt) (eq_atoms opt)"
proof -
  note cols = event_cols [OF assms(1) [unfolded event_option_def] assms(2)]
  show ?thesis
    unfolding steps_ok_def eq_steps_def eq_atoms_def event_col_def cols bindR_simps
    using part_ok_int(3) [of "''events.unified_id''" "int (eq_limitOfUnifiedId opt)"] part_ok_int(1) [of "''events.event_value''" "eq_type opt"]
      part_ok_int(2) [of "''severity''" "eq_minSeverity opt"] part_ok_int(1) [of "''events.status''" "eq_triggerStatus opt"]
      part_ok_text [of "''events.trigger_id''" "eq_triggerId opt"] part_ok_time [of "''events.time_sec''" "''events.time_ns''"]
      part_ok_in [of "''hostname''" "eq_hostnameList opt"] part_ok_in [of "''id''" "eq_eventIds opt"]
      part_ok_ints [of "''events.event_value''" "eq_eventTypes opt"] part_ok_ints [of "''events.severity''" "eq_triggerSeverities opt"]
      part_ok_ints [of "''events.status''" "eq_triggerStatuses opt"] part_ok_incidents [OF _ assms(3)]
    by simp
qed

text \<open>What a query asks for, of an event with one of its incidents or with none.\<close>

definition eq_accepts :: "events_option \<Rightarrow> mon_event \<Rightarrow> incident_info option \<Rightarrow> bool" where
  "eq_accepts opt e i \<longleftrightarrow>
     (eq_limitOfUnifiedId opt \<noteq> 0 \<longrightarrow> ev_unifiedId e \<le> int (eq_limitOfUnifiedId opt))
     \<and> (eq_type opt \<noteq> EVENT_TYPE_ALL \<longrightarrow> ev_type e = eq_type opt)
     \<and> (eq_minSeverity opt \<noteq> TRIGGER_SEVERITY_UNKNOWN \<longrightarrow> eq_minSeverity opt \<le> ev_severity e)
     \<and> (eq_triggerStatus opt \<noteq> TRIGGER_STATUS_ALL \<longrightarrow> ev_status e = eq_triggerStatus opt)
     \<and> (eq_triggerId opt \<noteq> ALL_TRIGGERS \<longrightarrow> ev_triggerId e = cstr (eq_triggerId opt))
     \<and> (eq_beginTime opt \<noteq> (0, 0) \<longrightarrow> time_le (eq_beginTime opt) (ev_time e, ev_nsec e))
     \<and> (eq_endTime opt \<noteq> (0, 0) \<longrightarrow> time_le (ev_time e, ev_nsec e) (eq_endTime opt))
     \<and> (eq_hostnameList opt \<noteq> [] \<longrightarrow> ev_hostName e \<in> cstr ` set (eq_hostnameList opt))
     \<and> (eq_eventIds opt \<noteq> [] \<longrightarrow> ev_id e \<in> cstr ` set (eq_eventIds opt))
     \<and> (eq_eventTypes opt \<noteq> [] \<longrightarrow> ev_type e \<in> set (eq_eventTypes opt))
     \<and> (eq_triggerSeverities opt \<noteq> [] \<longrightarrow> ev_severity e \<in> set (eq_triggerSeverities opt))
     \<and> (eq_triggerStatuses opt \<noteq> [] \<longrightarrow> ev_status e \<in> set (eq_triggerStatuses opt))
     \<and> (eq_incidentStatuses opt \<noteq> [] \<longrightarrow>
          (case i of None \<Rightarrow> [] \<in> set (eq_incidentStatuses opt) | Some i \<Rightarrow> ic_status i \<in> cstr ` set (eq_incidentStatuses opt)))"

lemma event_row_cols [simp]:
  "event_row (e, i, m) ''events.unified_id'' = VInt (ev_unifiedId e)" "event_row (e, i, m) ''events.event_value'' = VInt (ev_type e)"
  "event_row (e, i, m) ''severity'' = VInt (ev_severity e)" "event_row (e, i, m) ''events.severity'' = VInt (ev_severity e)"
  "event_row (e, i, m) ''events.status'' = VInt (ev_status e)" "event_row (e, i, m) ''events.trigger_id'' = VStr (ev_triggerId e)"
  "event_row (e, i, m) ''events.time_sec'' = VInt (ev_time e)" "event_row (e, i, m) ''events.time_ns'' = VInt (ev_nsec e)"
  "event_row (e, i, m) ''hostname'' = VStr (ev_hostName e)" "event_row (e, i, m) ''id'' = VStr (ev_id e)"
  "event_row (e, i, m) ''incidents.status'' = (case i of None \<Rightarrow> VNull | Some i \<Rightarrow> VStr (ic_status i))"
  "event_row (e, i, m) ''events.server_id'' = VInt (ev_serverId e)" "event_row (e, i, m) ''events.host_id_in_server'' = VStr (ev_hostIdInServer e)"
  "event_row (e, i, m) ''hostgroup_member.host_group_id'' = (case m of None \<Rightarrow> VNull | Some m \<Rightarrow> VStr (hm_hostgroupIdInServer m))"
  by (simp_all add: event_row_def)

lemma holds_ints: "row c = VInt j \<Longrightarrow> xs \<noteq> [] \<Longrightarrow> holds_atom row (set_atom (map (\<lambda>t. AtEq c (VInt t)) xs)) \<longleftrightarrow> j \<in> set xs"
  by (subst holds_set_atom) auto

lemma holds_incidents:
  assumes "sts \<noteq> []"
  shows "holds_atom (event_row (e, i, m)) (set_atom (concat (map incident_atoms sts))) \<longleftrightarrow>
    (case i of None \<Rightarrow> [] \<in> set sts | Some i \<Rightarrow> ic_status i \<in> cstr ` set sts)"
proof -
  have "concat (map incident_atoms sts) \<noteq> []" using assms by (cases sts) (auto simp: incident_atoms_def)
  then have "holds_atom (event_row (e, i, m)) (set_atom (concat (map incident_atoms sts))) \<longleftrightarrow>
    (\<exists>s \<in> set sts. \<exists>a \<in> set (incident_atoms s). holds_atom (event_row (e, i, m)) a)" by (auto simp: holds_set_atom)
  also have "\<dots> \<longleftrightarrow> (case i of None \<Rightarrow> [] \<in> set sts | Some i \<Rightarrow> ic_status i \<in> cstr ` set sts)"
    by (cases i) (auto simp: incident_atoms_def holds_atom_def)
  finally show ?thesis .
qed

lemma eq_steps_hold: "steps_hold (eq_steps opt) (eq_atoms opt) (event_row (e, i, m)) \<longleftrightarrow> eq_accepts opt e i"
proof -
  have ints: "xs \<noteq> [] \<longrightarrow> holds_atom (event_row (e, i, m)) (set_atom (map (\<lambda>t. AtEq c (VInt t)) xs)) \<longleftrightarrow> xs \<noteq> [] \<longrightarrow> j \<in> set xs"
    if "event_row (e, i, m) c = VInt j" for xs c j using holds_ints [of "event_row (e, i, m)" c j xs] that by auto
  have incs: "sts \<noteq> [] \<longrightarrow> holds_atom (event_row (e, i, m)) (set_atom (concat (map incident_atoms sts))) \<longleftrightarrow> sts \<noteq> [] \<longrightarrow>
      (case i of None \<Rightarrow> [] \<in> set sts | Some i \<Rightarrow> ic_status i \<in> cstr ` set sts)" for sts
    using holds_incidents by auto
  show ?thesis
    unfolding steps_hold_def eq_steps_def eq_atoms_def eq_accepts_def
    by (cases "eq_beginTime opt"; cases "eq_endTime opt")
      (simp add: holds_time ints incs conj_ac image_iff del: set_concat)
qed

section \<open>The queries\<close>

lemma event_joins:
  assumes "ho_synapse opt = synapseEventsQueryOption"
  obtains b where "(if w then addTable1 (mk_join_builder tableProfileEvents opt) tableProfileIncidents LEFT_JOIN tableProfileEvents 0 14
      else Inr (mk_join_builder tableProfileEvents opt)) = Inr b" "\<exists>b'. build_join b = Inr b'"
proof -
  let ?b = "mk_join_builder tableProfileEvents opt"
  have opt: "jb_option ?b = opt\<lparr>ho_tableNameAlways := True\<rparr>" by (simp add: mk_join_builder_def Let_def)
  obtain b where b: "addTable1 ?b tableProfileIncidents LEFT_JOIN tableProfileEvents 0 14 = Inr b" "jb_option b = jb_option ?b"
    by (simp add: addTable1_def addTableCommon_def event_profile_defs)
  have "\<exists>c. getJoinClause (opt\<lparr>ho_tableNameAlways := True\<rparr>) = Inr c"
    using assms by (simp add: getJoinClause_def Let_def getJoinClauseWithGlobalHostId_def INVALID_COLUMN_IDX_def event_profile_defs)
  then have "\<exists>b'. build_join b = Inr b'" "\<exists>b'. build_join ?b = Inr b'" by (auto simp: build_join_def b(2) opt)
  then show thesis using that b(1) by (cases w) auto
qed

lemma event_builder_condition:
  assumes "event_option opt" "eq_getCondition (eq_full_names opt) = Inr sql"
  shows "\<exists>b. event_builder opt w = Inr (sql, b)"
proof -
  obtain b b' where b: "(if w then addTable1 (mk_join_builder tableProfileEvents (eq_base opt)) tableProfileIncidents LEFT_JOIN tableProfileEvents 0 14
      else Inr (mk_join_builder tableProfileEvents (eq_base opt))) = Inr b" "build_join b = Inr b'"
    using event_joins [OF assms(1) [unfolded event_option_def]] by blast
  show ?thesis unfolding event_builder_def assms(2) bindR_simps b by simp
qed

definition event_hits :: "mon_env \<Rightarrow> events_option \<Rightarrow> (mon_event \<Rightarrow> incident_info option \<Rightarrow> hostgroup_member option \<Rightarrow> bool) \<Rightarrow> bool \<Rightarrow> mon_tables
    \<Rightarrow> (mon_event \<times> incident_info option) set" where
  "event_hits env opt P w d = {(e, i). \<exists>m. (e, i, m) \<in> set (event_join env (eq_base opt) w d) \<and> P e i m}"

lemma fst_event_hits: "fst ` event_hits env opt P w d = {e. \<exists>i m. (e, i, m) \<in> set (event_join env (eq_base opt) w d) \<and> P e i m}"
  unfolding event_hits_def by force

context mon_env_ok
begin

lemma event_rows_hits:
  assumes "isHostgroupUsed (eq_base opt) \<longrightarrow> eq_eventIds opt = []" "\<And>e i m. sql_where sql (event_row (e, i, m)) = Some (P e i m)"
  obtains rows where "event_rows env opt w sql d = Inr rows" "set rows = event_hits env opt P w d"
proof -
  let ?rows = "map (\<lambda>(e, i, _). (e, i)) (tbl_select (me_engine env) event_row sql (event_join env (eq_base opt) w d))"
  have "where_rows (me_engine env) event_row sql = (\<lambda>(e, i, m). P e i m)" by (rule where_rows_read) (use assms(2) in auto)
  then have sel: "where_rows (me_engine env) event_row sql (e, i, m) \<longleftrightarrow> P e i m" for e i m by simp
  have "set ?rows = event_hits env opt P w d" by (auto simp: event_hits_def tbl_select_def sel image_iff)
  moreover have "event_rows env opt w sql d = Inr ?rows" using assms(1) by (simp add: event_rows_def)
  ultimately show thesis using that by blast
qed

lemma set_orderEvents [simp]: "set (me_orderEvents env ord es) = set es"
  using orderEvents by (metis set_mset_mset)

lemma getEventInfoList_hits:
  assumes "event_option opt" "eq_getCondition (eq_full_names opt) = Inr sql" "isHostgroupUsed (eq_base opt) \<longrightarrow> eq_eventIds opt = []"
    "\<And>e i m. sql_where sql (event_row (e, i, m)) = Some (P e i m)" "dqo_maxNumber (eq_query opt) = 0" "dqo_offset (eq_query opt) = 0"
  obtains es incs where "getEventInfoList env opt b db = Inr (HTERR_OK, es, incs)"
    "set es = fst ` event_hits env opt P (b \<or> eq_incidentStatuses opt \<noteq> []) (st_data db)"
proof -
  let ?w = "b \<or> eq_incidentStatuses opt \<noteq> []"
  obtain x where x: "event_builder opt ?w = Inr (sql, x)" using event_builder_condition [OF assms(1,2)] by blast
  show thesis
  proof (cases "isAlwaysFalseCondition sql")
    case True
    then have "sql = alwaysFalseCondition" by (simp add: isAlwaysFalseCondition_def)
    then have "\<not> P e i m" for e i m using assms(4) [of e i m] sql_where_never by simp
    then have "event_hits env opt P ?w (st_data db) = {}" by (simp add: event_hits_def)
    then show thesis using that [of "[]" "[]"] x True by (simp add: getEventInfoList_def)
  next
    case False
    obtain rows where rows: "event_rows env opt ?w sql (st_data db) = Inr rows" "set rows = event_hits env opt P ?w (st_data db)"
      using event_rows_hits [where P = P, OF assms(3,4)] by blast
    have "getEventInfoList env opt b db = (let rows = me_orderEvents env (getOrderBy (eq_query opt)) (if isHostgroupUsed (eq_base opt) then remdups rows else rows)
        in Inr (HTERR_OK, map fst rows, if b then map read_incident rows else []))"
      using x False rows(1) assms(5,6) by (simp add: getEventInfoList_def Let_def limit_rows_def)
    then show thesis using that rows(2) by (simp add: Let_def)
  qed
qed

end

text \<open>The condition of a user's query.\<close>

lemma eq_condition_user:
  assumes "event_option opt" "base = (eq_base opt)\<lparr>ho_tableNameAlways := True\<rparr>" "eq_incidentStatuses opt \<noteq> [[]]"
    and "\<not> ho_has base OPPRVLG_GET_ALL_SERVER" "access_ok base" "no_filters base"
  obtains sql where "eq_getCondition (eq_full_names opt) = Inr sql"
    "\<And>e i m. sql_where sql (event_row (e, i, m)) = Some (registered base event_sc (event_row (e, i, m))
        \<and> covered base event_sc member_gc (event_row (e, i, m))
        \<and> targets_match base event_sc member_gc event_hc (event_row (e, i, m)) \<and> eq_accepts opt e i)"
proof -
  let ?c = "c_condition base event_sc member_gc event_hc" and ?f = "eq_full_names opt"
  have cols: "readable_columns base event_sc member_gc event_hc" using event_columns assms(1,2) by (simp add: event_option_def)
  then have cond: "getCondition base = Inr (render ?c)" using getCondition_render by (simp add: readable_columns_def)
  have ok: "cond_ok ?c" using cols assms(5,6) by (intro cond_ok_c_condition) (simp_all add: readable_columns_def no_filters_visible)
  have tight: "tight ?c" using assms(4,6) by (simp add: tight_c_condition c_filter_none)
  have f: "eq_base ?f = base" "event_option ?f" "ho_tableNameAlways (eq_base ?f)" "eq_incidentStatuses ?f \<noteq> [[]]"
    using assms(1-3) by (simp_all add: eq_full_names_def event_option_def)
  have "eq_accepts ?f = eq_accepts opt" by (simp add: fun_eq_iff eq_accepts_def eq_full_names_def split: option.splits)
  then have hold: "steps_hold (eq_steps ?f) (eq_atoms ?f) (event_row (e, i, m)) \<longleftrightarrow> eq_accepts opt e i" for e i m by (simp add: eq_steps_hold)
  obtain sql where "(if isAlwaysFalseCondition (render ?c) then Inr (render ?c) else add_steps (eq_steps ?f) (render ?c)) = Inr sql"
    "\<forall>row. sql_where sql row = Some (selects ?c row \<and> steps_hold (eq_steps ?f) (eq_atoms ?f) row)"
    using steps_condition [OF ok tight eq_steps_ok [OF f(2-4)]] by blast
  then show thesis using that [of sql] cond f(1) by (simp add: eq_getCondition_def hold selects_c_user [OF assms(4-6)] conj_ac split: if_splits)
qed

text \<open>
  C34. A query for events of a user without the privilege to see every server, with any target server,
  hostgroup and host but without the six filters of servers, hostgroups and hosts, without a limit or an
  offset, not asking for the empty incident status alone (see the next section) and, when the statement joins the
  hostgroups, not for event identifiers (the column is ambiguous then), returns exactly the stored events
  of registered servers that match the targets, are covered by the access list, and have the type, time,
  severity, status, trigger, host name, identifier and incident status that the query asks for. An event
  is \<open>covered\<close> by the server and the hostgroup of an entry of the list, but by the server alone when
  the query names a hostgroup. The access list has no entry without hostgroups, and a query that
  names a server is not made with a list that grants every server.
\<close>

theorem getEventInfoList_exact:
  assumes "mon_env_ok env" and "event_option opt" and "base = (eq_base opt)\<lparr>ho_tableNameAlways := True\<rparr>" and "eq_incidentStatuses opt \<noteq> [[]]"
    and "\<not> ho_has base OPPRVLG_GET_ALL_SERVER" and "access_ok base" and "no_filters base"
    and "isHostgroupUsed (eq_base opt) \<longrightarrow> eq_eventIds opt = []" and "dqo_maxNumber (eq_query opt) = 0" and "dqo_offset (eq_query opt) = 0"
  shows "\<exists>es incs. getEventInfoList env opt b db = Inr (HTERR_OK, es, incs)
    \<and> set es = {e. \<exists>i m. (e, i, m) \<in> set (event_join env (eq_base opt) (b \<or> eq_incidentStatuses opt \<noteq> []) (st_data db))
        \<and> registered base event_sc (event_row (e, i, m))
        \<and> covered base event_sc member_gc (event_row (e, i, m))
        \<and> targets_match base event_sc member_gc event_hc (event_row (e, i, m)) \<and> eq_accepts opt e i}"
proof -
  obtain sql where sql: "eq_getCondition (eq_full_names opt) = Inr sql"
    "\<And>e i m. sql_where sql (event_row (e, i, m)) = Some (registered base event_sc (event_row (e, i, m))
        \<and> covered base event_sc member_gc (event_row (e, i, m))
        \<and> targets_match base event_sc member_gc event_hc (event_row (e, i, m)) \<and> eq_accepts opt e i)"
    using eq_condition_user [OF assms(2-7)] by blast
  show ?thesis
    by (rule mon_env_ok.getEventInfoList_hits [OF assms(1,2) sql(1) assms(8) sql(2) assms(9,10), of b db])
      (simp add: fst_event_hits)
qed

section \<open>The empty incident status\<close>

text \<open>Adding a condition of several alternatives behind one without.\<close>

lemma reads_as_and:
  assumes "reads_as s [d]" "reads_as p c" "c \<noteq> []"
  shows "reads_as (addCondition s p ADD_TYPE_AND False) (cond_and [d] c)"
proof -
  obtain e c' where c: "c = e # c'" using assms(3) by (cases c) auto
  have s: "s \<noteq> []" "lexes s (join_with [TAnd] (map atom_toks d))" "d \<noteq> []" "cond_ok [d]" using assms(1) by (auto simp: reads_as_def cond_toks_def cond_ok_def)
  have p: "p \<noteq> []" "lexes p (cond_toks (e # c'))" "cond_ok (e # c')" using assms(2) c by (simp_all add: reads_as_def)
  have "e \<noteq> []" using p(3) by (auto simp: cond_ok_def)
  then have "cond_toks ((d @ e) # c') = join_with [TAnd] (map atom_toks d) @ TAnd # cond_toks (e # c')"
    using s(3) by (cases c') (simp_all add: cond_toks_def join_with_append)
  then show ?thesis using lexes_glue_and [OF s(2) p(2)] s p c by (auto simp: reads_as_def addCondition_def cond_ok_def)
qed

lemma empty_status_text: "reads_as (any_of [[]] incident_texts) [[AtEq ''incidents.status'' (VStr [])], [AtNull ''incidents.status'']]"
  using ors_reads [OF incident_parts [of "[]"]] by (simp add: any_of_def incident_texts_def incident_atoms_def ors_def)

lemma bindR_Inr: "bindR m Inr = m"
  by (cases m) simp_all

lemma foldR_one: "foldR f [x] = f x"
proof
  fix s
  show "foldR f [x] s = f x s" by (cases "f x s") simp_all
qed

lemma add_steps_empty_status:
  assumes "eq_incidentStatuses opt = [[]]"
  shows "add_steps (eq_steps opt) s =
    bindR (add_steps (eq_steps (opt\<lparr>eq_incidentStatuses := []\<rparr>)) s) (\<lambda>c. Inr (addCondition c (any_of [[]] incident_texts) ADD_TYPE_AND False))"
proof -
  let ?o = "opt\<lparr>eq_incidentStatuses := []\<rparr>"
  have split: "eq_steps opt = butlast (eq_steps opt) @ [(True, Inr (any_of [[]] incident_texts))]"
    "eq_steps ?o = butlast (eq_steps opt) @ [(False, Inr (any_of [] incident_texts))]"
    using assms by (simp_all add: eq_steps_def event_col_def)
  have 1: "add_steps (eq_steps opt) s = bindR (add_steps (butlast (eq_steps opt)) s) (\<lambda>c. Inr (addCondition c (any_of [[]] incident_texts) ADD_TYPE_AND False))"
    by (subst split(1)) (simp add: add_steps_def foldR_append foldR_one bindR_Inr del: foldR.simps)
  have 2: "add_steps (eq_steps ?o) s = add_steps (butlast (eq_steps opt)) s"
    by (subst split(2)) (simp add: add_steps_def foldR_append foldR_one bindR_Inr del: foldR.simps)
  show ?thesis by (simp only: 1 2)
qed

lemma add_step_nonempty: "(case x of (b, p) \<Rightarrow> if b then bindR p (\<lambda>p. Inr (addCondition s p ADD_TYPE_AND False)) else Inr s) = Inr s' \<Longrightarrow> s \<noteq> [] \<Longrightarrow> s' \<noteq> []"
  by (auto simp: addCondition_def bindR_eq_Inr split: prod.splits if_splits)

lemma add_steps_nonempty: "add_steps steps s = Inr s' \<Longrightarrow> s \<noteq> [] \<Longrightarrow> s' \<noteq> []"
proof (induction steps arbitrary: s)
  case (Cons x steps)
  let ?f = "\<lambda>(b, p) s. if b then bindR p (\<lambda>p. Inr (addCondition s p ADD_TYPE_AND False)) else Inr s"
  obtain r where r: "?f x s = Inr r" "foldR ?f steps r = Inr s'" using Cons.prems(1) by (auto simp: add_steps_def bindR_eq_Inr simp del: split_paired_Ex)
  then have "r \<noteq> []" using add_step_nonempty [where x = x and s = s and s' = r] Cons.prems(2) by (cases x) simp
  then show ?case using Cons.IH [of r] r(2) by (simp add: add_steps_def)
qed (simp add: add_steps_def)

text \<open>With the empty status alone, every row without an incident passes.\<close>

lemma empty_status_passes:
  assumes "event_option opt" "ho_tableNameAlways (eq_base opt)" "eq_incidentStatuses opt = [[]]"
    and "getCondition (eq_base opt) = Inr (render c)" "cond_ok c" "tight c" "\<not> isAlwaysFalseCondition (render c)" "c \<noteq> []"
  obtains sql P where "eq_getCondition opt = Inr sql" "\<And>row. sql_where sql row = Some (P row)" "\<And>e m. P (event_row (e, None, m))"
proof -
  let ?o = "opt\<lparr>eq_incidentStatuses := []\<rparr>" and ?a = "[[AtEq ''incidents.status'' (VStr [])], [AtNull ''incidents.status'']]"
  have "steps_ok (eq_steps ?o) (eq_atoms ?o)" using assms(1,2) by (intro eq_steps_ok) (simp_all add: event_option_def)
  from add_steps_reads [OF this reads_as_render [OF assms(5)] assms(6)]
  obtain s' c' where s': "add_steps (eq_steps ?o) (render c) = Inr s'" "reads_as s' c'" "tight c'" by blast
  have "render c \<noteq> []" using assms(5,8) by (auto simp: render_eq_Nil cond_ok_def no_gap_def)
  then have "s' \<noteq> []" using add_steps_nonempty [OF s'(1)] by simp
  then obtain d where d: "c' = [d]" using tight_cases [OF s'(3)] s'(2) by (auto simp: reads_as_def)
  let ?sql = "addCondition s' (any_of [[]] incident_texts) ADD_TYPE_AND False" and ?c = "cond_and [d] ?a"
  have "reads_as ?sql ?c" using reads_as_and [OF s'(2) [unfolded d] empty_status_text] by simp
  then have reads: "sql_where ?sql row = Some (selects ?c row)" for row by (rule reads_as_where)
  have pass: "selects ?c (event_row (e, None, m))" for e m by (simp add: selects_def holds_def holds_atom_def)
  have "eq_getCondition opt = Inr ?sql" using assms(4,7) s'(1) by (simp add: eq_getCondition_def add_steps_empty_status [OF assms(3)])
  then show thesis using that [of ?sql "selects ?c"] reads pass by blast
qed

lemma set_incident_join:
  "(e, i) \<in> set (incident_join is es) \<longleftrightarrow> e \<in> set es \<and>
     (case i of None \<Rightarrow> \<forall>x \<in> set is. ic_unifiedEventId x \<noteq> ev_unifiedId e | Some x \<Rightarrow> x \<in> set is \<and> ic_unifiedEventId x = ev_unifiedId e)"
proof -
  have "(e, i) \<in> set (case filter (\<lambda>x. ic_unifiedEventId x = ev_unifiedId f) is of [] \<Rightarrow> [(f, None)] | hits \<Rightarrow> map (\<lambda>x. (f, Some x)) hits) \<longleftrightarrow> f = e \<and>
     (case i of None \<Rightarrow> \<forall>x \<in> set is. ic_unifiedEventId x \<noteq> ev_unifiedId e | Some x \<Rightarrow> x \<in> set is \<and> ic_unifiedEventId x = ev_unifiedId e)" for f
  proof (cases "filter (\<lambda>x. ic_unifiedEventId x = ev_unifiedId f) is")
    case Nil
    then show ?thesis by (auto simp: filter_empty_conv split: option.splits)
  next
    case (Cons y ys)
    then have "set (y # ys) = {x \<in> set is. ic_unifiedEventId x = ev_unifiedId f}" by (metis set_filter)
    then show ?thesis using Cons by (cases i) auto
  qed
  then show ?thesis by (auto simp: incident_join_def)
qed

lemma set_event_join:
  "(e, i, m) \<in> set (event_join env opt w d) \<longleftrightarrow>
     (if w then (e, i) \<in> set (incident_join (mt_incidents d) (mt_events d)) else e \<in> set (mt_events d) \<and> i = None)
     \<and> (if isHostgroupUsed opt then \<exists>x. m = Some x \<and> x \<in> set (ht_members (me_hosts env)) \<and> ev_globalHostId e = hm_hostId x else m = None)"
  by (auto simp: event_join_def Let_def)

lemma event_join_no_incident:
  assumes "e \<in> set (mt_events d)" "\<forall>i \<in> set (mt_incidents d). ic_unifiedEventId i \<noteq> ev_unifiedId e"
    and "isHostgroupUsed opt \<longrightarrow> (\<exists>m \<in> set (ht_members (me_hosts env)). hm_hostId m = ev_globalHostId e)"
  shows "\<exists>m. (e, None, m) \<in> set (event_join env opt True d)"
  using assms by (cases "isHostgroupUsed opt") (auto simp: set_event_join set_incident_join)

text \<open>
  C35. Asking for the empty incident status alone switches the access control off: the query of a user
  who may read only some servers or hostgroups, whatever else it asks for, returns every event without an
  incident, of any server, registered or not (and of any hostgroup, when the user's list names
  hostgroups: then the host of the event is a member of some hostgroup, as the join demands). The query
  has no filter of hosts and no limit, is not refused outright by the constant 0 (the access list grants
  its target), and defunct servers are excluded, as they are by default.
\<close>

theorem events_empty_status_leak:
  assumes "mon_env_ok env" and "event_option opt" and "base = (eq_base opt)\<lparr>ho_tableNameAlways := True\<rparr>" and "eq_incidentStatuses opt = [[]]"
    and "\<not> ho_has base OPPRVLG_GET_ALL_SERVER" and "access_ok base" and "no_filters base" and "ho_excludeDefunctServers base"
    and "getCondition base \<noteq> Inr alwaysFalseCondition" and "isHostgroupUsed (eq_base opt) \<longrightarrow> eq_eventIds opt = []"
    and "dqo_maxNumber (eq_query opt) = 0" and "dqo_offset (eq_query opt) = 0"
    and "e \<in> set (mt_events (st_data db))" and "\<forall>i \<in> set (mt_incidents (st_data db)). ic_unifiedEventId i \<noteq> ev_unifiedId e"
    and "isHostgroupUsed (eq_base opt) \<longrightarrow> (\<exists>m \<in> set (ht_members (me_hosts env)). hm_hostId m = ev_globalHostId e)"
  shows "\<exists>es incs. getEventInfoList env opt b db = Inr (HTERR_OK, es, incs) \<and> e \<in> set es"
proof -
  let ?c = "c_condition base event_sc member_gc event_hc" and ?f = "eq_full_names opt"
  have cols: "readable_columns base event_sc member_gc event_hc" using event_columns assms(2,3) by (simp add: event_option_def)
  then have cond: "getCondition base = Inr (render ?c)" using getCondition_render by (simp add: readable_columns_def)
  have ok: "cond_ok ?c" using cols assms(6,7) by (intro cond_ok_c_condition) (simp_all add: readable_columns_def no_filters_visible)
  have tight: "tight ?c" using assms(7) by (simp add: tight_c_condition c_filter_none)
  have ne: "?c \<noteq> []" using assms(8) by (auto simp: c_condition_def Let_def add_cond_def c_valid_def)
  have f: "event_option ?f" "ho_tableNameAlways (eq_base ?f)" "eq_incidentStatuses ?f = [[]]" "getCondition (eq_base ?f) = Inr (render ?c)"
    using assms(2-4) cond by (simp_all add: eq_full_names_def event_option_def)
  have "\<not> isAlwaysFalseCondition (render ?c)" using assms(9) cond by (simp add: isAlwaysFalseCondition_def)
  then obtain sql P where sql: "eq_getCondition ?f = Inr sql" "\<And>row. sql_where sql row = Some (P row)" "\<And>e m. P (event_row (e, None, m))"
    using empty_status_passes [OF f ok tight _ ne] by blast
  obtain es incs where es: "getEventInfoList env opt b db = Inr (HTERR_OK, es, incs)"
    "set es = fst ` event_hits env opt (\<lambda>e i m. P (event_row (e, i, m))) (b \<or> eq_incidentStatuses opt \<noteq> []) (st_data db)"
    using mon_env_ok.getEventInfoList_hits [OF assms(1,2) sql(1) assms(10) sql(2) assms(11,12)] by blast
  moreover obtain m where "(e, None, m) \<in> set (event_join env (eq_base opt) True (st_data db))"
    using event_join_no_incident [OF assms(13-15)] by blast
  ultimately show ?thesis using sql(3) assms(4) by (simp add: fst_event_hits) blast
qed

section \<open>Examples\<close>

definition ex_event :: "int \<Rightarrow> string \<Rightarrow> int \<Rightarrow> int \<Rightarrow> int \<Rightarrow> mon_event" where
  "ex_event s i unified host severity = \<lparr>ev_serverId = s, ev_id = i, ev_time = 100, ev_nsec = 5, ev_type = 1, ev_triggerId = ''t1'',
     ev_status = TRIGGER_STATUS_PROBLEM, ev_severity = severity, ev_hostIdInServer = ''h'', ev_unifiedId = unified, ev_globalHostId = host,
     ev_hostName = ''host'', ev_brief = ''down'', ev_extendedInfo = []\<rparr>"

definition ex_events_db :: mon_db where
  "ex_events_db = \<lparr>st_data = \<lparr>mt_triggers = [ex_trigger 1 ''t1'' 7 4], mt_events = [ex_event 1 ''e1'' 1 7 4, ex_event 1 ''e2'' 2 7 1, ex_event 9 ''e3'' 3 8 4],
     mt_incidents = [], mt_histories = [], mt_items = [], mt_categories = []\<rparr>, st_base = None\<rparr>"

definition ex_events_option :: events_option where
  "ex_events_option = (mk_events_option (mk_host_option synapseEventsQueryOption \<lparr>op_userId = 5, op_flags = 0\<rparr> [1, 2] [(1, [''*''])]))
     \<lparr>eq_minSeverity := 3, eq_triggerStatuses := [0, 1]\<rparr>"

abbreviation ex_events_base :: host_option where
  "ex_events_base \<equiv> (eq_base ex_events_option)\<lparr>ho_tableNameAlways := True\<rparr>"

lemmas ex_event_defs = ex_events_option_def mk_events_option_def mk_host_option_def mk_data_query_option_def NO_LIMIT_def
    getAllowedServersAndHostgroups_def getValidServerIdSet_def op_has_bit ALL_SERVERS_def ALL_HOST_GROUPS_def ALL_LOCAL_HOSTS_def

lemma ex_events_ok:
  "event_option ex_events_option" "\<not> ho_has ex_events_base OPPRVLG_GET_ALL_SERVER" "access_ok ex_events_base" "no_filters ex_events_base"
  "ho_targetHostgroupId ex_events_base = ALL_HOST_GROUPS" "\<not> isHostgroupUsed (eq_base ex_events_option)" "ho_excludeDefunctServers ex_events_base"
  "dqo_maxNumber (eq_query ex_events_option) = 0" "dqo_offset (eq_query ex_events_option) = 0"
  by (simp_all add: event_option_def ex_event_defs access_ok_def no_filters_def isHostgroupUsed_def isHostgroupEnumerationInCondition_def synapseEventsQueryOption_def)

text \<open>The user may read server 1 and asks for events of severity 3 or more.\<close>

theorem getEventInfoList_exact_witness:
  "\<exists>es incs. getEventInfoList ex_mon_env ex_events_option False ex_events_db = Inr (HTERR_OK, es, incs) \<and> set es = {ex_event 1 ''e1'' 1 7 4}"
proof -
  let ?o = ex_events_option
  have st: "eq_incidentStatuses ?o = []" "eq_incidentStatuses ?o \<noteq> [[]]" "isHostgroupUsed (eq_base ?o) \<longrightarrow> eq_eventIds ?o = []"
    using ex_events_ok(6) by (simp_all add: ex_event_defs)
  have join: "(e, i, m) \<in> set (event_join ex_mon_env (eq_base ?o) (False \<or> eq_incidentStatuses ?o \<noteq> []) d) \<longleftrightarrow> e \<in> set (mt_events d) \<and> i = None \<and> m = None" for e i m d
    by (simp add: st(1) set_event_join ex_events_ok(6))
  have "{e. \<exists>i m. (e, i, m) \<in> set (event_join ex_mon_env (eq_base ?o) (False \<or> eq_incidentStatuses ?o \<noteq> []) (st_data ex_events_db))
        \<and> registered ex_events_base event_sc (event_row (e, i, m))
        \<and> covered ex_events_base event_sc member_gc (event_row (e, i, m))
        \<and> targets_match ex_events_base event_sc member_gc event_hc (event_row (e, i, m)) \<and> eq_accepts ?o e i} = {ex_event 1 ''e1'' 1 7 4}"
    unfolding join by (auto simp: registered_def covered_def may_read_def targets_match_def eq_accepts_def ex_events_db_def ex_event_def
        ex_event_defs trigger_consts EVENT_TYPE_ALL_def ALL_TRIGGERS_def)
  then show ?thesis
    using getEventInfoList_exact [OF ex_mon.mon_env_ok_axioms ex_events_ok(1) refl st(2) ex_events_ok(2-4) st(3) ex_events_ok(8,9), of False ex_events_db] by simp
qed

text \<open>With the empty status the same user reads an event of the unregistered server 9.\<close>

theorem events_empty_status_leak_witness:
  "\<exists>es incs. getEventInfoList ex_mon_env (ex_events_option\<lparr>eq_incidentStatuses := [[]]\<rparr>) False ex_events_db = Inr (HTERR_OK, es, incs)
     \<and> ex_event 9 ''e3'' 3 8 4 \<in> set es"
proof -
  let ?o = "ex_events_option\<lparr>eq_incidentStatuses := [[]]\<rparr>"
  have o: "event_option ?o" "ex_events_base = (eq_base ?o)\<lparr>ho_tableNameAlways := True\<rparr>" "eq_incidentStatuses ?o = [[]]" "isHostgroupUsed (eq_base ?o) \<longrightarrow> eq_eventIds ?o = []"
    "dqo_maxNumber (eq_query ?o) = 0" "dqo_offset (eq_query ?o) = 0"
    "ex_event 9 ''e3'' 3 8 4 \<in> set (mt_events (st_data ex_events_db))"
    "\<forall>i \<in> set (mt_incidents (st_data ex_events_db)). ic_unifiedEventId i \<noteq> ev_unifiedId (ex_event 9 ''e3'' 3 8 4)"
    "isHostgroupUsed (eq_base ?o) \<longrightarrow> (\<exists>m \<in> set (ht_members (me_hosts ex_mon_env)). hm_hostId m = ev_globalHostId (ex_event 9 ''e3'' 3 8 4))"
    using ex_events_ok(1,6,8,9) by (simp_all add: event_option_def ex_events_db_def)
  have cols: "readable_columns ex_events_base event_sc member_gc event_hc" using ex_events_ok(1) event_columns by (simp add: event_option_def)
  have "registered ex_events_base event_sc row" "may_read (getAllowedServersAndHostgroups ex_events_base) event_sc member_gc row"
    "targets_match ex_events_base event_sc member_gc event_hc row" if "row = event_row (ex_event 1 ''e1'' 1 7 4, None, None)" for row
    unfolding that by (simp_all add: registered_def may_read_def targets_match_def ex_event_defs ex_event_def)
  then have "getCondition ex_events_base \<noteq> Inr alwaysFalseCondition"
    using getCondition_selects [OF std.sql_engine_axioms cols ex_events_ok(2-5)] sql_where_never by (fastforce simp: std_matches_def)
  from events_empty_status_leak [OF ex_mon.mon_env_ok_axioms o(1-3) ex_events_ok(2-4,7) this o(4-9)] show ?thesis .
qed

end
