(* ===== verification/Mon_EventStore.thy ===== *)
theory Mon_EventStore
  imports Mon_EventQuery
begin

text \<open>
  What storing events and counting them promises: a stored event keeps what the caller gave and takes the
  rest from its trigger, and the number of events is that of the list.
\<close>

section \<open>Merging\<close>

text \<open>The trigger of an event: of the event's server, when that is registered.\<close>

definition event_trigger :: "server_id_set \<Rightarrow> trigger_info list \<Rightarrow> mon_event \<Rightarrow> trigger_info option" where
  "event_trigger valid ts e =
     (if ev_serverId e \<in> set valid
      then find (\<lambda>t. tg_serverId t = ev_serverId e \<and> (ev_triggerId e \<noteq> ALL_TRIGGERS \<longrightarrow> tg_id t = cstr (ev_triggerId e))) ts
      else None)"

definition merged :: "server_id_set \<Rightarrow> trigger_info list \<Rightarrow> mon_event \<Rightarrow> mon_event" where
  "merged valid ts e = (case event_trigger valid ts e of None \<Rightarrow> e | Some t \<Rightarrow> merge_trigger t e)"

lemma triggers_server_column: "getServerIdColumnName (system_host_option env synapseTriggersQueryOption s) = Inr ''server_id''"
  by (simp add: getServerIdColumnName_def getColumnNameCommon_def system_option_fields trigger_profile_defs)

context mon_env_ok
begin

lemma mergeTriggerInfo_merged:
  assumes "ev_serverId e \<noteq> ALL_SERVERS"
  shows "\<exists>b. mergeTriggerInfo env e ts = Inr (b, merged (he_validServers (me_host env)) ts e)"
proof -
  let ?valid = "he_validServers (me_host env)" and ?s = "ev_serverId e"
  let ?o = "(system_triggers_option env ?s)\<lparr>tq_targetId := ev_triggerId e\<rparr>" and ?c = "server_cond (me_host env) ''server_id'' ?s"
  obtain sql where sql: "(if isAlwaysFalseCondition (render ?c) then Inr (render ?c) else add_steps (tq_steps ?o) (render ?c)) = Inr sql"
    "\<forall>row. sql_where sql row = Some (selects ?c row \<and> steps_hold (tq_steps ?o) (tq_atoms ?o) row)"
    using steps_condition [of ?c, OF server_cond_ok(1,3) tq_steps_ok] host_idents(2) by blast
  have base: "tq_base ?o = system_host_option (me_host env) synapseTriggersQueryOption ?s" by (simp add: system_triggers_option_def mk_triggers_option_def)
  have cond: "tq_getCondition ?o = Inr sql"
    unfolding tq_getCondition_def base system_condition [OF triggers_server_column assms] bindR_simps using sql(1) .
  have acc: "tq_accepts ?o t \<longleftrightarrow> (ev_triggerId e \<noteq> ALL_TRIGGERS \<longrightarrow> tg_id t = cstr (ev_triggerId e))" for t
    by (simp add: tq_accepts_def system_triggers_option_def mk_triggers_option_def shouldExcludeSelfMonitoring_def shouldExcludeInvalidHost_def)
  let ?hit = "\<lambda>t. tg_serverId t = ?s \<and> ?s \<in> set ?valid \<and> (ev_triggerId e \<noteq> ALL_TRIGGERS \<longrightarrow> tg_id t = cstr (ev_triggerId e))"
  have "sql_where sql (trigger_row (t, None)) = Some (?hit t)" for t
    using sql(2) by (simp add: tq_steps_hold acc server_cond_selects)
  then have "tbl_select (me_engine env) (\<lambda>t. trigger_row (t, None)) sql ts = filter ?hit ts"
    using where_rows_read [of sql "\<lambda>t. trigger_row (t, None)" ?hit] by (simp add: tbl_select_def)
  moreover have "event_trigger ?valid ts e = find ?hit ts" by (auto simp: event_trigger_def find_None_iff intro: sym)
  ultimately show ?thesis
    by (auto simp: mergeTriggerInfo_def cond merged_def find_filter split: list.splits)
qed


lemma add_event:
  assumes "ev_serverId e \<noteq> ALL_SERVERS"
  obtains e' where "addEventInfoWithoutTransaction env e d = Inr (d\<lparr>mt_events := mt_events d @ [stored_event e']\<rparr>, e')"
    "e' = (merged (he_validServers (me_host env)) (mt_triggers d) e)\<lparr>ev_unifiedId := ev_unifiedId e'\<rparr>"
    "ev_unifiedId e' \<notin> ev_unifiedId ` set (mt_events d)" "0 < ev_unifiedId e'"
proof -
  let ?m = "merged (he_validServers (me_host env)) (mt_triggers d) e" and ?i = "en_nextId (me_engine env) (map ev_unifiedId (mt_events d))"
  obtain b where "mergeTriggerInfo env e (mt_triggers d) = Inr (b, ?m)" using mergeTriggerInfo_merged [OF assms] by blast
  then have "addEventInfoWithoutTransaction env e d = Inr (d\<lparr>mt_events := mt_events d @ [stored_event (?m\<lparr>ev_unifiedId := ?i\<rparr>)]\<rparr>, ?m\<lparr>ev_unifiedId := ?i\<rparr>)"
    by (simp add: addEventInfoWithoutTransaction_def Let_def)
  then show thesis using that nextId_fresh [of "map ev_unifiedId (mt_events d)"] nextId_pos by simp
qed

text \<open>The loop adds the events one by one, each with a new identifier.\<close>

lemma add_events:
  assumes "\<forall>e \<in> set es. ev_serverId e \<noteq> ALL_SERVERS" "distinct (map ev_unifiedId (mt_events d))"
  shows "\<exists>es'. add_event_loop env es d acc = Inr (d\<lparr>mt_events := mt_events d @ map stored_event es'\<rparr>, acc @ es')
    \<and> list_all2 (\<lambda>e e'. e' = (merged (he_validServers (me_host env)) (mt_triggers d) e)\<lparr>ev_unifiedId := ev_unifiedId e'\<rparr>) es es'
    \<and> distinct (map ev_unifiedId (mt_events d @ map stored_event es'))"
  using assms
proof (induction es arbitrary: d acc)
  case (Cons e es)
  have s: "ev_serverId e \<noteq> ALL_SERVERS" using Cons.prems(1) by simp
  obtain e' where e': "addEventInfoWithoutTransaction env e d = Inr (d\<lparr>mt_events := mt_events d @ [stored_event e']\<rparr>, e')"
    "e' = (merged (he_validServers (me_host env)) (mt_triggers d) e)\<lparr>ev_unifiedId := ev_unifiedId e'\<rparr>"
    "ev_unifiedId e' \<notin> ev_unifiedId ` set (mt_events d)" "0 < ev_unifiedId e'"
    by (rule add_event [OF s])
  let ?d = "d\<lparr>mt_events := mt_events d @ [stored_event e']\<rparr>"
  have "distinct (map ev_unifiedId (mt_events ?d))" using e'(3) Cons.prems(2) by (auto simp: stored_event_def)
  then obtain es' where "add_event_loop env es ?d (acc @ [e']) = Inr (?d\<lparr>mt_events := mt_events ?d @ map stored_event es'\<rparr>, (acc @ [e']) @ es')"
    "list_all2 (\<lambda>e e'. e' = (merged (he_validServers (me_host env)) (mt_triggers ?d) e)\<lparr>ev_unifiedId := ev_unifiedId e'\<rparr>) es es'"
    "distinct (map ev_unifiedId (mt_events ?d @ map stored_event es'))"
    using Cons.IH [of ?d "acc @ [e']"] Cons.prems(1) by auto
  then show ?case using e'(1,2) by (intro exI [of _ "e' # es'"]) simp
qed simp

end

text \<open>
  C36. Storing events in one transaction adds one row for every event, in order and with a new identifier
  each, which the caller's events get too. The row of an event is the \<open>stored_event\<close> of what the caller
  gave (texts end at their first NUL, seconds and nanoseconds are cut to an \<open>int\<close>), and where severity,
  host or texts were left out, of what the event's trigger has, when the trigger is stored and the server
  registered. Nothing else in the database changes. No event names the wildcard of all servers.
\<close>

theorem addEventInfoList_stores:
  assumes "mon_env_ok env" and "\<forall>e \<in> set es. ev_serverId e \<noteq> ALL_SERVERS" and "distinct (map ev_unifiedId (mt_events (st_data db)))"
  shows "\<exists>db' es'. addEventInfoList env es None db = Inr (db', es', length es)
    \<and> st_data db' = (st_data db)\<lparr>mt_events := mt_events (st_data db) @ map stored_event es'\<rparr>
    \<and> list_all2 (\<lambda>e e'. e' = (merged (he_validServers (me_host env)) (mt_triggers (st_data db)) e)\<lparr>ev_unifiedId := ev_unifiedId e'\<rparr>) es es'
    \<and> distinct (map ev_unifiedId (mt_events (st_data db')))"
proof -
  obtain es' where "add_event_loop env es (st_data db) [] = Inr ((st_data db)\<lparr>mt_events := mt_events (st_data db) @ map stored_event es'\<rparr>, es')"
    "list_all2 (\<lambda>e e'. e' = (merged (he_validServers (me_host env)) (mt_triggers (st_data db)) e)\<lparr>ev_unifiedId := ev_unifiedId e'\<rparr>) es es'"
    "distinct (map ev_unifiedId (mt_events (st_data db) @ map stored_event es'))"
    using mon_env_ok.add_events [OF assms, of "[]"] by auto
  moreover have "length es' = length es" using calculation(2) by (simp add: list_all2_lengthD)
  ultimately show ?thesis by (simp add: addEventInfoList_def table_trx_run)
qed

definition ex_bare_event :: mon_event where
  "ex_bare_event = initEventInfo ((ex_event 1 ''e9'' 0 7 0)\<lparr>ev_hostName := [], ev_brief := ''mine''\<rparr>)\<lparr>ev_serverId := 1, ev_id := ''e9'', ev_triggerId := ''t1''\<rparr>"

text \<open>The event names its trigger and a text only: severity and host come from the trigger, the text stays.\<close>

theorem addEventInfoList_stores_witness:
  "\<exists>db' e'. addEventInfoList ex_mon_env [ex_bare_event] None ex_events_db = Inr (db', [e'], 1)
     \<and> mt_events (st_data db') = mt_events (st_data ex_events_db) @ [stored_event e']
     \<and> (ev_severity e', ev_globalHostId e', ev_hostName e', ev_brief e') = (4, 7, ''host'', ''mine'') \<and> ev_unifiedId e' \<notin> {1, 2, 3}"
proof -
  let ?m = "merged (he_validServers (me_host ex_mon_env)) (mt_triggers (st_data ex_events_db)) ex_bare_event"
  have hyps: "\<forall>e \<in> set [ex_bare_event]. ev_serverId e \<noteq> ALL_SERVERS" "distinct (map ev_unifiedId (mt_events (st_data ex_events_db)))"
    by (simp_all add: ex_bare_event_def ALL_SERVERS_def ex_events_db_def ex_event_def)
  have m: "(ev_severity ?m, ev_globalHostId ?m, ev_hostName ?m, ev_brief ?m) = (4, 7, ''host'', ''mine'')"
    by (simp add: merged_def event_trigger_def ex_mon_env_def ex_host_env_def ex_events_db_def ex_bare_event_def ex_event_def initEventInfo_def
        ex_trigger_def ALL_TRIGGERS_def cstr_def nul_def merge_trigger_def substIfNeeded_def trigger_consts)
  obtain db' es' where r: "addEventInfoList ex_mon_env [ex_bare_event] None ex_events_db = Inr (db', es', 1)"
    "st_data db' = (st_data ex_events_db)\<lparr>mt_events := mt_events (st_data ex_events_db) @ map stored_event es'\<rparr>"
    "list_all2 (\<lambda>e e'. e' = (merged (he_validServers (me_host ex_mon_env)) (mt_triggers (st_data ex_events_db)) e)\<lparr>ev_unifiedId := ev_unifiedId e'\<rparr>) [ex_bare_event] es'"
    "distinct (map ev_unifiedId (mt_events (st_data db')))"
    using addEventInfoList_stores [OF ex_mon.mon_env_ok_axioms hyps] by auto
  then obtain e' where e': "es' = [e']" "e' = ?m\<lparr>ev_unifiedId := ev_unifiedId e'\<rparr>" by (auto simp: list_all2_Cons1)
  have "ev_severity e' = ev_severity ?m" "ev_globalHostId e' = ev_globalHostId ?m" "ev_hostName e' = ev_hostName ?m" "ev_brief e' = ev_brief ?m"
    by (subst e'(2), simp)+
  moreover have "ev_unifiedId e' \<notin> {1, 2, 3}" using r(2,4) e'(1) by (auto simp: ex_events_db_def ex_event_def stored_event_def)
  ultimately show ?thesis using r(1,2) e'(1) m by auto
qed

section \<open>Counting\<close>

lemma incident_join_any: "(\<exists>i. (e, i) \<in> set (incident_join is es)) \<longleftrightarrow> e \<in> set es"
proof
  assume "e \<in> set es"
  then have "(\<forall>x \<in> set is. ic_unifiedEventId x \<noteq> ev_unifiedId e) \<Longrightarrow> (e, None) \<in> set (incident_join is es)"
    "\<And>x. x \<in> set is \<Longrightarrow> ic_unifiedEventId x = ev_unifiedId e \<Longrightarrow> (e, Some x) \<in> set (incident_join is es)"
    by (simp_all add: set_incident_join)
  then show "\<exists>i. (e, i) \<in> set (incident_join is es)" by blast
qed (auto simp: set_incident_join)

lemma event_hits_any:
  assumes "\<And>e i j m. P e i m \<longleftrightarrow> P e j m"
  shows "fst ` event_hits env opt P w d = fst ` event_hits env opt P True d"
proof -
  have "(\<exists>i. (e, i, m) \<in> set (event_join env (eq_base opt) w d)) \<longleftrightarrow> (\<exists>i. (e, i, m) \<in> set (event_join env (eq_base opt) True d))" for e m
    unfolding set_event_join if_True ex_simps(1) incident_join_any by (cases w) (simp_all add: incident_join_any)
  note any = this
  define Q where "Q e m \<longleftrightarrow> P e None m" for e m
  have P: "P = (\<lambda>e i m. Q e m)" unfolding Q_def by (intro ext assms)
  have "fst ` event_hits env opt P v d = {e. \<exists>m. (\<exists>i. (e, i, m) \<in> set (event_join env (eq_base opt) v d)) \<and> Q e m}" for v
    unfolding fst_event_hits P by blast
  then show ?thesis by (simp only: any)
qed

text \<open>
  The number of events that a query reports is the number of different events in its list, whatever
  incidents and hostgroups the two statements join.
\<close>

lemma getNumberOfEvents_counts:
  assumes "mon_env_ok env" and "event_option opt" and "base = (eq_base opt)\<lparr>ho_tableNameAlways := True\<rparr>" and "eq_incidentStatuses opt \<noteq> [[]]"
    and "\<not> ho_has base OPPRVLG_GET_ALL_SERVER" and "access_ok base" and "no_filters base"
    and "isHostgroupUsed (eq_base opt) \<longrightarrow> eq_eventIds opt = []" and "dqo_maxNumber (eq_query opt) = 0" and "dqo_offset (eq_query opt) = 0"
    and "distinct (map ev_unifiedId (mt_events (st_data db)))"
  shows "\<exists>es incs. getEventInfoList env opt b db = Inr (HTERR_OK, es, incs) \<and> getNumberOfEvents env opt db = Inr (card (set es))"
proof -
  let ?P = "\<lambda>e i m. registered base event_sc (event_row (e, i, m)) \<and> covered base event_sc member_gc (event_row (e, i, m))
        \<and> targets_match base event_sc member_gc event_hc (event_row (e, i, m)) \<and> eq_accepts opt e i"
  let ?w = "b \<or> eq_incidentStatuses opt \<noteq> []" and ?d = "st_data db"
  obtain sql where sql: "eq_getCondition (eq_full_names opt) = Inr sql" "\<And>e i m. sql_where sql (event_row (e, i, m)) = Some (?P e i m)"
    using eq_condition_user [OF assms(2-7)] by blast
  obtain es incs where es: "getEventInfoList env opt b db = Inr (HTERR_OK, es, incs)" "set es = fst ` event_hits env opt ?P ?w ?d"
    by (rule mon_env_ok.getEventInfoList_hits [OF assms(1,2) sql(1) assms(8) sql(2) assms(9,10), of b db])
  have same: "fst ` event_hits env opt ?P ?w ?d = fst ` event_hits env opt ?P True ?d"
  proof (cases "eq_incidentStatuses opt = []")
    case True
    then show ?thesis by (intro event_hits_any) (simp add: registered_def covered_def may_read_def targets_match_def eq_accepts_def)
  qed simp
  obtain x where x: "event_builder opt True = Inr (sql, x)" using event_builder_condition [OF assms(2) sql(1)] by blast
  obtain rows where rows: "event_rows env opt True sql ?d = Inr rows" "set rows = event_hits env opt ?P True ?d"
    using mon_env_ok.event_rows_hits [where P = ?P, OF assms(1,8) sql(2)] by blast
  have hits: "set (map fst rows) = set es" using rows(2) same es(2) by simp
  have "set es \<subseteq> set (mt_events ?d)" by (auto simp: es(2) same fst_event_hits set_event_join set_incident_join)
  then have "inj_on ev_unifiedId (set es)" using assms(11) by (auto simp: distinct_map inj_on_def)
  then have "card (ev_unifiedId ` set (map fst rows)) = card (set es)" unfolding hits by (rule card_image)
  then have "length (remdups (map ev_unifiedId (map fst rows))) = card (set es)" by (simp add: length_remdups_card_conv image_image)
  then show ?thesis using es(1) x rows(1) by (simp add: getNumberOfEvents_def event_count_rows_def)
qed

lemma getNumberOfEvents_counts_witness:
  "\<exists>es incs. getEventInfoList ex_mon_env ex_events_option True ex_events_db = Inr (HTERR_OK, es, incs)
     \<and> getNumberOfEvents ex_mon_env ex_events_option ex_events_db = Inr (card (set es))"
proof -
  have "eq_incidentStatuses ex_events_option \<noteq> [[]]" "isHostgroupUsed (eq_base ex_events_option) \<longrightarrow> eq_eventIds ex_events_option = []"
    "distinct (map ev_unifiedId (mt_events (st_data ex_events_db)))"
    using ex_events_ok(6) by (simp_all add: ex_event_defs ex_events_db_def ex_event_def)
  then show ?thesis
    using getNumberOfEvents_counts [OF ex_mon.mon_env_ok_axioms ex_events_ok(1) refl _ ex_events_ok(2-4) _ ex_events_ok(8,9)] by blast
qed

end
