(* ===== verification/Item_Table.thy ===== *)
theory Item_Table
  imports Item_Data
begin

text \<open>
  Rows and tables of values: \<open>ItemGroupType\<close>, \<open>ItemGroup\<close>, \<open>ItemDataIndex\<close> and \<open>ItemTable\<close>
  (src/server/common/ItemGroupType.cc, ItemGroup.cc, ItemDataUtils.cc, ItemTable.cc), and the reader of
  rows, \<open>ItemGroupStream\<close> (src/server/src/ItemGroupStream.cc). A group is frozen when it enters a table
  and cannot change afterwards, so a table may hold the groups by value. The state that an operation
  leaves behind when it raises is not part of the model.
\<close>

section \<open>Types of groups\<close>

text \<open>\<open>getItemAt\<close> past the end is undefined behaviour; the exceptions of the items are passed on.\<close>

datatype table_exc = TableException | TableOutOfRange | TableUndefined | TableItem item_exc

type_synonym 'a tres = "table_exc + 'a"

type_synonym group_type = "item_type list"

fun type_rank :: "item_type \<Rightarrow> nat" where
  "type_rank ITEM_TYPE_BOOL = 0"
| "type_rank ITEM_TYPE_INT = 1"
| "type_rank ITEM_TYPE_UINT64 = 2"
| "type_rank ITEM_TYPE_DOUBLE = 3"
| "type_rank ITEM_TYPE_STRING = 4"

definition mk_group_type :: "'d item_data list \<Rightarrow> group_type" where
  "mk_group_type itemDataVector = map getItemType itemDataVector"

definition gt_getType :: "nat \<Rightarrow> group_type \<Rightarrow> item_type tres" where
  "gt_getType index ts = (if index \<ge> length ts then Inl TableOutOfRange else Inr (ts ! index))"

definition group_type_less :: "group_type \<Rightarrow> group_type \<Rightarrow> bool" where
  "group_type_less a b =
     (if length a \<noteq> length b then length a < length b
      else list_ex (\<lambda>(x, y). type_rank x < type_rank y) (zip a b))"

definition group_type_eq :: "group_type \<Rightarrow> group_type \<Rightarrow> bool" where
  "group_type_eq a b \<longleftrightarrow> length a = length b \<and> list_all (\<lambda>(x, y). x = y) (zip a b)"

section \<open>Groups\<close>

text \<open>
  The multimap from identifiers to items holds the items of the vector; items with one identifier stand
  in the order of their insertion.
\<close>

record 'd item_group =
  ig_freeze :: bool
  ig_type :: "group_type option"
  ig_items :: "'d item_data list"

definition mk_item_group :: "'d item_group" where
  "mk_item_group = \<lparr>ig_freeze = False, ig_type = None, ig_items = []\<rparr>"

definition ig_add :: "'d item_data \<Rightarrow> 'd item_group \<Rightarrow> 'd item_group tres" where
  "ig_add data g =
     (if ig_freeze g then Inl TableException
      else bindR
        (case ig_type g of
           None \<Rightarrow> Inr g
         | Some ts \<Rightarrow>
             let index = length (ig_items g) in
             bindR (gt_getType index ts) (\<lambda>expectedType.
               if expectedType \<noteq> getItemType data then Inl TableException
               else Inr (if index + 1 = length ts then g\<lparr>ig_freeze := True\<rparr> else g)))
        (\<lambda>g. Inr (g\<lparr>ig_items := ig_items g @ [data]\<rparr>)))"

definition addNewItem :: "'d item_val \<Rightarrow> bool \<Rightarrow> 'd item_group \<Rightarrow> 'd item_group tres" where
  "addNewItem data null g = ig_add (mk_item SYSTEM_ITEM_ID_ANONYMOUS data null) g"

definition addNewItem_id :: "u64 \<Rightarrow> 'd item_val \<Rightarrow> bool \<Rightarrow> 'd item_group \<Rightarrow> 'd item_group tres" where
  "addNewItem_id itemId data null g = ig_add (mk_item itemId data null) g"

text \<open>A \<open>time_t\<close> is cut to an \<open>int\<close>.\<close>

definition addNewItem_time :: "int \<Rightarrow> bool \<Rightarrow> 'd item_group \<Rightarrow> 'd item_group tres" where
  "addNewItem_time t null g = addNewItem (ItemInt (sint (word_of_int t :: u32))) null g"

definition ig_getItem :: "u64 \<Rightarrow> 'd item_group \<Rightarrow> 'd item_data option" where
  "ig_getItem itemId g = find (\<lambda>d. it_id d = itemId) (ig_items g)"

definition ig_getItems :: "u64 \<Rightarrow> 'd item_group \<Rightarrow> 'd item_data list" where
  "ig_getItems itemId g = filter (\<lambda>d. it_id d = itemId) (ig_items g)"

definition ig_getItemAt :: "nat \<Rightarrow> 'd item_group \<Rightarrow> 'd item_data tres" where
  "ig_getItemAt index g =
     (if index < length (ig_items g) then Inr (ig_items g ! index) else Inl TableUndefined)"

definition ig_doFreeze :: "'d item_group \<Rightarrow> 'd item_group tres" where
  "ig_doFreeze g =
     (if ig_freeze g then Inr g
      else if ig_type g \<noteq> None then Inl TableException
      else Inr (g\<lparr>ig_freeze := True, ig_type := Some (mk_group_type (ig_items g))\<rparr>))"

section \<open>Reading a group\<close>

record 'd group_stream =
  gs_group :: "'d item_group"
  gs_index :: nat
  gs_reserved :: "'d item_data option"

definition mk_group_stream :: "'d item_group \<Rightarrow> 'd group_stream" where
  "mk_group_stream g = \<lparr>gs_group = g, gs_index = 0, gs_reserved = None\<rparr>"

definition gs_getItem :: "'d group_stream \<Rightarrow> 'd item_data tres" where
  "gs_getItem s =
     (case gs_reserved s of
        Some d \<Rightarrow> Inr d
      | None \<Rightarrow>
          if gs_index s < length (ig_items (gs_group s)) then ig_getItemAt (gs_index s) (gs_group s)
          else Inl TableException)"

definition gs_seek :: "u64 \<Rightarrow> 'd group_stream \<Rightarrow> 'd group_stream tres" where
  "gs_seek itemId s =
     (case ig_getItem itemId (gs_group s) of
        None \<Rightarrow> Inl (TableItem ITEM_DATA_EXCEPTION_ITEM_NOT_FOUND)
      | Some d \<Rightarrow> Inr (s\<lparr>gs_reserved := Some d\<rparr>))"

definition item_cast :: "('d item_val \<Rightarrow> 'a ires) \<Rightarrow> 'd item_data \<Rightarrow> 'a tres" where
  "item_cast cast d = (case cast (it_val d) of Inl e \<Rightarrow> Inl (TableItem e) | Inr x \<Rightarrow> Inr x)"

definition substitute :: "('d item_val \<Rightarrow> 'a ires) \<Rightarrow> 'd group_stream \<Rightarrow> ('a \<times> 'd group_stream) tres" where
  "substitute cast s =
     bindR (gs_getItem s) (\<lambda>d.
       let s = (if gs_reserved s \<noteq> None then s\<lparr>gs_reserved := None\<rparr> else s\<lparr>gs_index := gs_index s + 1\<rparr>)
       in bindR (item_cast cast d) (\<lambda>x. Inr (x, s)))"

text \<open>A \<open>time_t\<close> is read as an \<open>int\<close>; numbers are read as their decimal texts.\<close>

definition read_time :: "'d group_stream \<Rightarrow> (int \<times> 'd group_stream) tres" where
  "read_time s = substitute cast_int s"

definition read_int_string :: "'d group_stream \<Rightarrow> (string \<times> 'd group_stream) tres" where
  "read_int_string s = bindR (substitute cast_int s) (\<lambda>(i, s). Inr (dec_int i, s))"

definition read_uint64_string :: "'d group_stream \<Rightarrow> (string \<times> 'd group_stream) tres" where
  "read_uint64_string s = bindR (substitute cast_uint64 s) (\<lambda>(u, s). Inr (dec_nat (unat u), s))"

section \<open>Indexes\<close>

datatype index_type = ITEM_DATA_INDEX_TYPE_NONE | ITEM_DATA_INDEX_TYPE_UNIQUE | ITEM_DATA_INDEX_TYPE_MULTI

record 'd item_index =
  ix_type :: index_type
  ix_entries :: "('d item_data \<times> 'd item_group) list"

definition mk_item_index :: "index_type \<Rightarrow> 'd item_index" where
  "mk_item_index ty = \<lparr>ix_type = ty, ix_entries = []\<rparr>"

text \<open>
  The sets are ordered by \<open><\<close>, and two items are equivalent when neither is less. A comparison may raise;
  it does for one pair of kinds whatever the values are and whichever side they stand on, and all
  entries of an index have one kind, so the search raises iff the comparison with any entry does.
\<close>

definition item_less :: "'d double_ops \<Rightarrow> 'd item_data \<Rightarrow> 'd item_data \<Rightarrow> bool tres" where
  "item_less ops a b = (case val_lt ops (it_val a) (it_val b) of Inl e \<Rightarrow> Inl (TableItem e) | Inr x \<Rightarrow> Inr x)"

definition item_equiv :: "'d double_ops \<Rightarrow> 'd item_data \<Rightarrow> 'd item_data \<Rightarrow> bool tres" where
  "item_equiv ops a b =
     bindR (item_less ops a b) (\<lambda>x. bindR (item_less ops b a) (\<lambda>y. Inr (\<not> x \<and> \<not> y)))"

fun equal_range ::
  "'d double_ops \<Rightarrow> 'd item_data \<Rightarrow> ('d item_data \<times> 'd item_group) list \<Rightarrow> ('d item_data \<times> 'd item_group) list tres" where
  "equal_range ops key [] = Inr []"
| "equal_range ops key (e # es) =
     bindR (item_equiv ops key (fst e)) (\<lambda>q.
     bindR (equal_range ops key es) (\<lambda>r. Inr (if q then e # r else r)))"

fun insert_upper ::
  "'d double_ops \<Rightarrow> 'd item_data \<times> 'd item_group \<Rightarrow> ('d item_data \<times> 'd item_group) list
     \<Rightarrow> ('d item_data \<times> 'd item_group) list tres" where
  "insert_upper ops x [] = Inr [x]"
| "insert_upper ops x (e # es) =
     bindR (item_less ops (fst x) (fst e)) (\<lambda>l.
       if l then Inr (x # e # es) else bindR (insert_upper ops x es) (\<lambda>r. Inr (e # r)))"

definition ix_insert ::
  "'d double_ops \<Rightarrow> 'd item_data \<Rightarrow> 'd item_group \<Rightarrow> 'd item_index \<Rightarrow> (bool \<times> 'd item_index) tres" where
  "ix_insert ops d g ix =
     (case ix_type ix of
        ITEM_DATA_INDEX_TYPE_UNIQUE \<Rightarrow>
          bindR (equal_range ops d (ix_entries ix)) (\<lambda>es.
            if es \<noteq> [] then Inr (False, ix)
            else bindR (insert_upper ops (d, g) (ix_entries ix)) (\<lambda>r. Inr (True, ix\<lparr>ix_entries := r\<rparr>)))
      | ITEM_DATA_INDEX_TYPE_MULTI \<Rightarrow>
          bindR (insert_upper ops (d, g) (ix_entries ix)) (\<lambda>r. Inr (True, ix\<lparr>ix_entries := r\<rparr>))
      | ITEM_DATA_INDEX_TYPE_NONE \<Rightarrow> Inr (False, ix))"

definition ix_find :: "'d double_ops \<Rightarrow> 'd item_data \<Rightarrow> 'd item_index \<Rightarrow> ('d item_data \<times> 'd item_group) list tres" where
  "ix_find ops key ix =
     (if ix_type ix = ITEM_DATA_INDEX_TYPE_NONE then Inr [] else equal_range ops key (ix_entries ix))"

section \<open>Tables\<close>

record 'd item_table =
  tb_groups :: "'d item_group list"
  tb_indexes :: "'d item_index list"
  tb_indexed :: "nat list"

definition mk_item_table :: "'d item_table" where
  "mk_item_table = \<lparr>tb_groups = [], tb_indexes = [], tb_indexed = []\<rparr>"

definition hasIndex :: "'d item_table \<Rightarrow> bool" where
  "hasIndex t \<longleftrightarrow> tb_indexes t \<noteq> []"

definition update_index_at ::
  "'d double_ops \<Rightarrow> 'd item_group \<Rightarrow> nat \<Rightarrow> 'd item_table \<Rightarrow> 'd item_table tres" where
  "update_index_at ops g columnIndex t =
     (if columnIndex < length (tb_indexes t) then
        bindR (ig_getItemAt columnIndex g) (\<lambda>d.
        bindR (ix_insert ops d g (tb_indexes t ! columnIndex)) (\<lambda>(ok, ix).
          if ok then Inr (t\<lparr>tb_indexes := (tb_indexes t)[columnIndex := ix]\<rparr>) else Inl TableException))
      else Inl TableUndefined)"

definition updateIndex :: "'d double_ops \<Rightarrow> 'd item_group \<Rightarrow> 'd item_table \<Rightarrow> 'd item_table tres" where
  "updateIndex ops g t = foldR (update_index_at ops g) (tb_indexed t) t"

text \<open>What the two forms of \<open>add\<close> share behind their checks of the group itself.\<close>

definition table_push :: "'d double_ops \<Rightarrow> 'd item_group \<Rightarrow> 'd item_table \<Rightarrow> 'd item_table tres" where
  "table_push ops g t =
     bindR
       (if tb_groups t \<noteq> [] then
          (case (ig_type (last (tb_groups t)), ig_type g) of
             (Some a, Some b) \<Rightarrow> if group_type_eq a b then Inr () else Inl TableException
           | _ \<Rightarrow> Inl TableException)
        else if hasIndex t \<and> length (tb_indexes t) \<noteq> length (ig_items g) then Inl TableException
        else Inr ()) (\<lambda>_.
     bindR (if hasIndex t then updateIndex ops g t else Inr t) (\<lambda>t.
       Inr (t\<lparr>tb_groups := tb_groups t @ [g]\<rparr>)))"

definition tb_add :: "'d double_ops \<Rightarrow> 'd item_group \<Rightarrow> 'd item_table \<Rightarrow> 'd item_table tres" where
  "tb_add ops g t = bindR (ig_doFreeze g) (\<lambda>g. table_push ops g t)"

definition tb_add_const :: "'d double_ops \<Rightarrow> 'd item_group \<Rightarrow> 'd item_table \<Rightarrow> 'd item_table tres" where
  "tb_add_const ops g t =
     (if \<not> ig_freeze g then Inl TableException
      else if ig_type g = None then Inl TableException
      else table_push ops g t)"

definition getNumberOfColumns :: "'d item_table \<Rightarrow> nat" where
  "getNumberOfColumns t = (if tb_groups t = [] then 0 else length (ig_items (hd (tb_groups t))))"

definition getNumberOfRows :: "'d item_table \<Rightarrow> nat" where
  "getNumberOfRows t = length (tb_groups t)"

definition defineIndex :: "'d double_ops \<Rightarrow> index_type list \<Rightarrow> 'd item_table \<Rightarrow> 'd item_table tres" where
  "defineIndex ops indexTypeVector t =
     (if hasIndex t then Inl TableException
      else if tb_groups t \<noteq> [] \<and> length (ig_items (hd (tb_groups t))) \<noteq> length indexTypeVector
      then Inl TableException
      else
        let t = t\<lparr>tb_indexes := map mk_item_index indexTypeVector,
                  tb_indexed := filter (\<lambda>i. indexTypeVector ! i \<noteq> ITEM_DATA_INDEX_TYPE_NONE)
                    [0..<length indexTypeVector]\<rparr>
        in foldR (updateIndex ops) (tb_groups t) t)"

definition joinForeachCore ::
  "'d double_ops \<Rightarrow> 'd item_group \<Rightarrow> 'd item_group \<Rightarrow> 'd item_table \<Rightarrow> 'd item_table tres" where
  "joinForeachCore ops l r newTable =
     bindR (foldR ig_add (ig_items l @ ig_items r) mk_item_group) (\<lambda>newGroup. tb_add ops newGroup newTable)"

definition crossJoin :: "'d double_ops \<Rightarrow> 'd item_table \<Rightarrow> 'd item_table \<Rightarrow> 'd item_table tres" where
  "crossJoin ops t itemTable =
     (if tb_groups t = [] \<or> tb_groups itemTable = [] then Inr mk_item_table
      else foldR (\<lambda>l. foldR (joinForeachCore ops l) (tb_groups itemTable)) (tb_groups t) mk_item_table)"

definition innerJoinForeachRTable ::
  "'d double_ops \<Rightarrow> nat \<Rightarrow> nat \<Rightarrow> 'd item_group \<Rightarrow> 'd item_group \<Rightarrow> 'd item_table \<Rightarrow> 'd item_table tres" where
  "innerJoinForeachRTable ops indexLeftColumn indexRightColumn l r newTable =
     bindR (ig_getItemAt indexLeftColumn l) (\<lambda>leftData.
     bindR (ig_getItemAt indexRightColumn r) (\<lambda>rightData.
     bindR (case val_ne ops (it_val leftData) (it_val rightData) of Inl e \<Rightarrow> Inl (TableItem e) | Inr x \<Rightarrow> Inr x) (\<lambda>ne.
       if ne then Inr newTable else joinForeachCore ops l r newTable)))"

definition innerJoin ::
  "'d double_ops \<Rightarrow> 'd item_table \<Rightarrow> nat \<Rightarrow> nat \<Rightarrow> 'd item_table \<Rightarrow> 'd item_table tres" where
  "innerJoin ops itemTable indexLeftColumn indexRightColumn t =
     (if tb_groups t = [] \<or> tb_groups itemTable = [] then Inr mk_item_table
      else if indexLeftColumn \<ge> getNumberOfColumns t \<or> indexRightColumn \<ge> getNumberOfColumns itemTable
      then Inr mk_item_table
      else foldR (\<lambda>l. foldR (innerJoinForeachRTable ops indexLeftColumn indexRightColumn l) (tb_groups itemTable))
             (tb_groups t) mk_item_table)"

end
