(* ===== verification/Item_Rows.thy ===== *)
theory Item_Rows
  imports Item_Table "HOL-Library.Multiset"
begin

text \<open>
  What tables of items promise: the rows of a table have one type, joins are those of relational algebra,
  and an index finds the rows with a given value.
\<close>

section \<open>Groups and tables that the operations build\<close>

inductive group_built :: "'d item_group \<Rightarrow> bool" where
  new: "group_built mk_item_group"
| add: "group_built g \<Longrightarrow> ig_add d g = Inr g' \<Longrightarrow> group_built g'"
| freeze: "group_built g \<Longrightarrow> ig_doFreeze g = Inr g' \<Longrightarrow> group_built g'"

inductive table_built :: "'d double_ops \<Rightarrow> 'd item_table \<Rightarrow> bool" for ops where
  new: "table_built ops mk_item_table"
| add: "table_built ops t \<Longrightarrow> group_built g \<Longrightarrow> tb_add ops g t = Inr t' \<Longrightarrow> table_built ops t'"
| add_const: "table_built ops t \<Longrightarrow> group_built g \<Longrightarrow> tb_add_const ops g t = Inr t' \<Longrightarrow> table_built ops t'"
| index: "table_built ops t \<Longrightarrow> defineIndex ops tys t = Inr t' \<Longrightarrow> table_built ops t'"

definition group_wf :: "'d item_group \<Rightarrow> bool" where
  "group_wf g \<longleftrightarrow> ig_type g = (if ig_freeze g then Some (mk_group_type (ig_items g)) else None)"

lemma ig_add_wf:
  "group_wf g \<Longrightarrow> ig_add d g = (if ig_freeze g then Inl TableException else Inr (g\<lparr>ig_items := ig_items g @ [d]\<rparr>))"
  by (simp add: ig_add_def group_wf_def)

lemma ig_doFreeze_wf:
  "group_wf g \<Longrightarrow> ig_doFreeze g = Inr (g\<lparr>ig_freeze := True, ig_type := Some (mk_group_type (ig_items g))\<rparr>)"
  by (cases g) (auto simp: ig_doFreeze_def group_wf_def split: if_splits)

lemma group_built_wf: "group_built g \<Longrightarrow> group_wf g"
proof (induction rule: group_built.induct)
  case new show ?case by (simp add: mk_item_group_def group_wf_def)
next
  case (add g d g')
  then show ?case by (auto simp: ig_add_wf group_wf_def split: if_splits)
next
  case (freeze g g')
  then show ?case by (auto simp: ig_doFreeze_wf group_wf_def)
qed

lemma ig_add_all: "group_wf g \<Longrightarrow> \<not> ig_freeze g \<Longrightarrow> foldR ig_add ds g = Inr (g\<lparr>ig_items := ig_items g @ ds\<rparr>)"
proof (induction ds arbitrary: g)
  case (Cons d ds)
  moreover have "group_wf (g\<lparr>ig_items := ig_items g @ [d]\<rparr>)" using Cons.prems by (simp add: group_wf_def)
  ultimately show ?case by (simp add: ig_add_wf)
qed simp

lemma group_type_eq_iff [simp]: "group_type_eq a b \<longleftrightarrow> a = b"
  by (auto simp: group_type_eq_def list_all_length intro: nth_equalityI)

text \<open>The rows of a table, and that they have one type.\<close>

definition rows :: "'d item_table \<Rightarrow> 'd item_data list list" where
  "rows t = map ig_items (tb_groups t)"

definition row_ok :: "group_type \<Rightarrow> 'd item_group \<Rightarrow> bool" where
  "row_ok ts g \<longleftrightarrow> ig_freeze g \<and> ig_type g = Some ts \<and> mk_group_type (ig_items g) = ts"

definition table_typed :: "'d item_table \<Rightarrow> bool" where
  "table_typed t \<longleftrightarrow> (\<exists>ts. list_all (row_ok ts) (tb_groups t))"

lemma row_ok_unique: "row_ok ts g \<Longrightarrow> row_ok us g \<Longrightarrow> ts = us"
  by (simp add: row_ok_def)

lemma row_ok_length: "row_ok ts g \<Longrightarrow> length (ig_items g) = length ts"
  by (auto simp: row_ok_def mk_group_type_def)

lemma row_ok_last: "list_all (row_ok ts) gs \<Longrightarrow> gs \<noteq> [] \<Longrightarrow> row_ok ts (last gs)"
  by (simp add: list_all_iff)

lemma row_ok_wf: "group_wf g \<Longrightarrow> ig_freeze g \<Longrightarrow> row_ok (mk_group_type (ig_items g)) g"
  by (simp add: group_wf_def row_ok_def)

lemma update_index_at_groups: "update_index_at ops g c t = Inr t' \<Longrightarrow> tb_groups t' = tb_groups t"
  by (auto simp: update_index_at_def res_simps split: if_splits)

lemma update_indexes_groups: "foldR (update_index_at ops g) cs t = Inr t' \<Longrightarrow> tb_groups t' = tb_groups t"
  by (induction cs arbitrary: t) (auto simp: res_simps dest: update_index_at_groups)

lemma updateIndex_groups: "updateIndex ops g t = Inr t' \<Longrightarrow> tb_groups t' = tb_groups t"
  by (simp add: updateIndex_def update_indexes_groups)

lemma updateIndex_all_groups: "foldR (updateIndex ops) gs t = Inr t' \<Longrightarrow> tb_groups t' = tb_groups t"
  by (induction gs arbitrary: t) (auto simp: res_simps dest: updateIndex_groups)

lemma defineIndex_groups: "defineIndex ops tys t = Inr t' \<Longrightarrow> tb_groups t' = tb_groups t"
  by (auto simp: defineIndex_def Let_def dest: updateIndex_all_groups split: if_splits)

lemma table_push_groups: "table_push ops g t = Inr t' \<Longrightarrow> tb_groups t' = tb_groups t @ [g]"
  by (auto simp: table_push_def res_simps dest: updateIndex_groups split: if_splits)

lemma table_push_typed:
  assumes "table_typed t" "row_ok us g" "table_push ops g t = Inr t'"
  shows "list_all (row_ok us) (tb_groups t')"
proof -
  obtain ts where ts: "list_all (row_ok ts) (tb_groups t)" using assms(1) by (auto simp: table_typed_def)
  have "us = ts" if "tb_groups t \<noteq> []"
    using row_ok_last [OF ts that] assms(2,3) that
    by (auto simp: table_push_def row_ok_def split: if_splits)
  then show ?thesis using ts assms(2) by (cases "tb_groups t = []") (simp_all add: table_push_groups [OF assms(3)])
qed

lemma tb_add_push:
  "group_wf g \<Longrightarrow> tb_add ops g t = table_push ops (g\<lparr>ig_freeze := True, ig_type := Some (mk_group_type (ig_items g))\<rparr>) t"
  by (simp add: tb_add_def ig_doFreeze_wf)

lemma tb_add_const_push: "tb_add_const ops g t = Inr t' \<Longrightarrow> ig_freeze g \<and> table_push ops g t = Inr t'"
  by (auto simp: tb_add_const_def split: if_splits)

lemma table_built_typed: "table_built ops t \<Longrightarrow> table_typed t"
proof (induction rule: table_built.induct)
  case new show ?case by (simp add: table_typed_def mk_item_table_def)
next
  case (add t g t')
  have "row_ok (mk_group_type (ig_items g)) (g\<lparr>ig_freeze := True, ig_type := Some (mk_group_type (ig_items g))\<rparr>)"
    by (simp add: row_ok_def)
  from table_push_typed [OF add.IH this] add.hyps show ?case
    by (auto simp: table_typed_def tb_add_push [OF group_built_wf])
next
  case (add_const t g t')
  note push = tb_add_const_push [OF add_const.hyps(3)]
  have "row_ok (mk_group_type (ig_items g)) g" using row_ok_wf [OF group_built_wf] push add_const.hyps(2) by blast
  from table_push_typed [OF add_const.IH this] push show ?case by (auto simp: table_typed_def)
next
  case (index t tys t')
  then show ?case by (simp add: table_typed_def defineIndex_groups [OF index.hyps(2)])
qed

lemma tb_add_other_type:
  assumes "table_typed t" "group_wf g" "r \<in> set (rows t)" "mk_group_type (ig_items g) \<noteq> mk_group_type r"
  shows "tb_add ops g t = Inl TableException"
proof -
  obtain ts where ts: "list_all (row_ok ts) (tb_groups t)" using assms(1) by (auto simp: table_typed_def)
  from assms(3) have ne: "tb_groups t \<noteq> []" by (auto simp: rows_def)
  have "mk_group_type r = ts" using assms(3) ts by (auto simp: rows_def list_all_iff row_ok_def)
  then show ?thesis using row_ok_last [OF ts ne] ne assms(4)
    by (simp add: tb_add_push [OF assms(2)] table_push_def row_ok_def)
qed

text \<open>
  C11. However a table was built, every row in it is frozen and carries the types of its items as its type,
  and all rows have one type; no item can be added to a row any more, and a group of another type is
  refused with an exception.
\<close>

theorem item_table_typed:
  assumes "table_built ops t" and "g \<in> set (tb_groups t)"
  shows "ig_type g = Some (mk_group_type (ig_items g))
    \<and> (\<forall>h \<in> set (tb_groups t). mk_group_type (ig_items h) = mk_group_type (ig_items g))
    \<and> ig_add d g = Inl TableException
    \<and> (\<forall>h. group_built h \<longrightarrow> mk_group_type (ig_items h) \<noteq> mk_group_type (ig_items g)
         \<longrightarrow> tb_add ops h t = Inl TableException)"
proof -
  note typed = table_built_typed [OF assms(1)]
  obtain ts where ts: "\<forall>h \<in> set (tb_groups t). row_ok ts h" using typed by (auto simp: table_typed_def list_all_iff)
  have "ig_add d g = Inl TableException" using ts assms(2) by (simp add: ig_add_def row_ok_def)
  moreover have "tb_add ops h t = Inl TableException"
    if "group_built h" "mk_group_type (ig_items h) \<noteq> mk_group_type (ig_items g)" for h
    using tb_add_other_type [OF typed group_built_wf [OF that(1)] _ that(2)] assms(2) by (simp add: rows_def)
  ultimately show ?thesis using ts assms(2) by (simp add: row_ok_def)
qed

definition ex_int_table :: "unit item_table" where
  "ex_int_table = mk_item_table\<lparr>tb_groups :=
     [\<lparr>ig_freeze = True, ig_type = Some [ITEM_TYPE_INT], ig_items = [mk_item 1 (ItemInt 5) False]\<rparr>]\<rparr>"

lemma group_built_single: "group_built (mk_item_group\<lparr>ig_items := [d]\<rparr>)"
  by (rule group_built.add [OF group_built.new, of d]) (simp add: ig_add_def mk_item_group_def)

lemma ex_int_table_built: "table_built ops ex_int_table"
  by (rule table_built.add [OF table_built.new group_built_single [of "mk_item 1 (ItemInt 5) False"]])
     (simp add: ex_int_table_def tb_add_def ig_doFreeze_def mk_item_group_def table_push_def mk_item_table_def
       hasIndex_def mk_group_type_def getItemType_def mk_item_def)

theorem item_table_typed_witness:
  "\<forall>ops. tb_add ops (mk_item_group\<lparr>ig_items := [mk_item 2 (ItemBool True) False]\<rparr>) ex_int_table = Inl TableException"
proof
  fix ops
  show "tb_add ops (mk_item_group\<lparr>ig_items := [mk_item 2 (ItemBool True) False]\<rparr>) ex_int_table = Inl TableException"
    using item_table_typed [OF ex_int_table_built, of "hd (tb_groups ex_int_table)"]
    by (simp add: ex_int_table_def mk_group_type_def getItemType_def mk_item_def group_built_single)
qed

section \<open>Joins\<close>

definition join_row :: "'d item_group \<Rightarrow> 'd item_group \<Rightarrow> 'd item_group" where
  "join_row l r =
     \<lparr>ig_freeze = True, ig_type = Some (mk_group_type (ig_items l @ ig_items r)), ig_items = ig_items l @ ig_items r\<rparr>"

text \<open>A table without indexes whose rows all have the given type; the joins build such tables.\<close>

definition plain_table :: "group_type \<Rightarrow> 'd item_table \<Rightarrow> bool" where
  "plain_table ts t \<longleftrightarrow> tb_indexes t = [] \<and> list_all (row_ok ts) (tb_groups t)"

lemma joinForeachCore_plain:
  assumes "plain_table ts v" "mk_group_type (ig_items l @ ig_items r) = ts"
  shows "joinForeachCore ops l r v = Inr (v\<lparr>tb_groups := tb_groups v @ [join_row l r]\<rparr>)
    \<and> plain_table ts (v\<lparr>tb_groups := tb_groups v @ [join_row l r]\<rparr>)"
proof -
  have wf: "group_wf mk_item_group" and nf: "\<not> ig_freeze mk_item_group"
    by (simp_all add: mk_item_group_def group_wf_def)
  have row: "row_ok ts (join_row l r)" using assms(2) by (simp add: row_ok_def join_row_def)
  have "ig_type (last (tb_groups v)) = Some ts" if "tb_groups v \<noteq> []"
    using row_ok_last [of ts "tb_groups v"] that assms(1) by (simp add: plain_table_def row_ok_def)
  then have push: "table_push ops (join_row l r) v = Inr (v\<lparr>tb_groups := tb_groups v @ [join_row l r]\<rparr>)"
    using assms(1) row by (simp add: table_push_def hasIndex_def plain_table_def row_ok_def)
  have "foldR ig_add (ig_items l @ ig_items r) mk_item_group = Inr (mk_item_group\<lparr>ig_items := ig_items l @ ig_items r\<rparr>)"
    using ig_add_all [OF wf nf] by (simp add: mk_item_group_def)
  moreover have "tb_add ops (mk_item_group\<lparr>ig_items := ig_items l @ ig_items r\<rparr>) v = table_push ops (join_row l r) v"
    by (simp add: tb_add_def ig_doFreeze_def mk_item_group_def join_row_def)
  ultimately show ?thesis
    using push row assms(1) by (simp add: joinForeachCore_def plain_table_def)
qed

text \<open>A loop over pairs whose body adds the joined row or nothing.\<close>

lemma join_inner_loop:
  assumes "\<And>r v. r \<in> set rs \<Longrightarrow> plain_table ts v
    \<Longrightarrow> body r v = Inr (if p r then v\<lparr>tb_groups := tb_groups v @ [j r]\<rparr> else v)"
    and "\<And>r. r \<in> set rs \<Longrightarrow> row_ok ts (j r)"
    and "plain_table ts v"
  shows "foldR body rs v = Inr (v\<lparr>tb_groups := tb_groups v @ map j (filter p rs)\<rparr>)"
  using assms
proof (induction rs arbitrary: v)
  case (Cons r rs)
  let ?v = "if p r then v\<lparr>tb_groups := tb_groups v @ [j r]\<rparr> else v"
  have plain: "plain_table ts ?v" using Cons.prems by (simp add: plain_table_def)
  have "body r v = Inr ?v" by (rule Cons.prems(1)) (simp_all add: Cons.prems(3))
  then show ?case using Cons.IH [OF _ _ plain] Cons.prems by simp
qed simp

lemma plain_table_append:
  "plain_table ts v \<Longrightarrow> list_all (row_ok ts) gs \<Longrightarrow> plain_table ts (v\<lparr>tb_groups := tb_groups v @ gs\<rparr>)"
  by (simp add: plain_table_def)

lemma join_outer_loop:
  assumes "\<And>l r v. l \<in> set ls \<Longrightarrow> r \<in> set rs \<Longrightarrow> plain_table ts v
    \<Longrightarrow> body l r v = Inr (if p l r then v\<lparr>tb_groups := tb_groups v @ [join_row l r]\<rparr> else v)"
    and "\<And>l r. l \<in> set ls \<Longrightarrow> r \<in> set rs \<Longrightarrow> row_ok ts (join_row l r)"
    and "plain_table ts v"
  shows "foldR (\<lambda>l. foldR (body l) rs) ls v
    = Inr (v\<lparr>tb_groups := tb_groups v @ concat (map (\<lambda>l. map (join_row l) (filter (p l) rs)) ls)\<rparr>)"
  using assms
proof (induction ls arbitrary: v)
  case (Cons l ls)
  let ?gs = "map (join_row l) (filter (p l) rs)"
  have "foldR (body l) rs v = Inr (v\<lparr>tb_groups := tb_groups v @ ?gs\<rparr>)"
    by (rule join_inner_loop [where ts = ts]) (simp_all add: Cons.prems)
  moreover have "plain_table ts (v\<lparr>tb_groups := tb_groups v @ ?gs\<rparr>)"
    using Cons.prems by (intro plain_table_append) (auto simp: list_all_iff)
  ultimately show ?case using Cons.IH Cons.prems by simp
qed simp

lemma plain_table_empty [simp]: "plain_table ts mk_item_table"
  by (simp add: plain_table_def mk_item_table_def)

lemma typed_join_rows:
  assumes "table_typed t" "table_typed u"
  shows "\<exists>ts. \<forall>l \<in> set (tb_groups t). \<forall>r \<in> set (tb_groups u).
    row_ok ts (join_row l r) \<and> mk_group_type (ig_items l @ ig_items r) = ts"
proof -
  obtain a b where "list_all (row_ok a) (tb_groups t)" "list_all (row_ok b) (tb_groups u)"
    using assms by (auto simp: table_typed_def)
  then show ?thesis
    by (intro exI [of _ "a @ b"]) (auto simp: list_all_iff row_ok_def join_row_def mk_group_type_def)
qed

lemma crossJoin_typed:
  assumes "table_typed t" "table_typed u"
  shows "\<exists>v. crossJoin ops t u = Inr v \<and> rows v = concat (map (\<lambda>l. map ((@) l) (rows u)) (rows t))"
proof (cases "tb_groups t = [] \<or> tb_groups u = []")
  case True
  then show ?thesis by (auto simp: crossJoin_def rows_def mk_item_table_def)
next
  case False
  obtain ts where ts: "\<forall>l \<in> set (tb_groups t). \<forall>r \<in> set (tb_groups u).
      row_ok ts (join_row l r) \<and> mk_group_type (ig_items l @ ig_items r) = ts"
    using typed_join_rows [OF assms] by blast
  have body: "joinForeachCore ops l r v = Inr (if True then v\<lparr>tb_groups := tb_groups v @ [join_row l r]\<rparr> else v)"
    if "l \<in> set (tb_groups t)" "r \<in> set (tb_groups u)" "plain_table ts v" for l r v
    using joinForeachCore_plain [OF that(3)] ts that(1,2) by simp
  have "foldR (\<lambda>l. foldR (joinForeachCore ops l) (tb_groups u)) (tb_groups t) mk_item_table
    = Inr (mk_item_table\<lparr>tb_groups := tb_groups mk_item_table
        @ concat (map (\<lambda>l. map (join_row l) (filter (\<lambda>_. True) (tb_groups u))) (tb_groups t))\<rparr>)"
    by (rule join_outer_loop [where ts = ts and p = "\<lambda>_ _. True", OF body]) (simp_all add: ts)
  then show ?thesis using False
    by (simp add: crossJoin_def rows_def map_concat comp_def join_row_def mk_item_table_def)
qed

definition matching :: "'d double_ops \<Rightarrow> nat \<Rightarrow> nat \<Rightarrow> 'd item_data list \<Rightarrow> 'd item_data list \<Rightarrow> bool" where
  "matching ops li ri l r \<longleftrightarrow> val_eq ops (it_val (l ! li)) (it_val (r ! ri)) = Inr True"

lemma innerJoin_step:
  assumes "plain_table ts v" "mk_group_type (ig_items l @ ig_items r) = ts"
    and "li < length (ig_items l)" "ri < length (ig_items r)"
    and "val_eq ops (it_val (ig_items l ! li)) (it_val (ig_items r ! ri)) = Inr x"
  shows "innerJoinForeachRTable ops li ri l r v
    = Inr (if matching ops li ri (ig_items l) (ig_items r) then v\<lparr>tb_groups := tb_groups v @ [join_row l r]\<rparr> else v)"
  using assms joinForeachCore_plain [OF assms(1,2)]
  by (simp add: innerJoinForeachRTable_def ig_getItemAt_def val_ne_def matching_def)

lemma typed_columns:
  assumes "table_typed t" "g \<in> set (tb_groups t)"
  shows "length (ig_items g) = getNumberOfColumns t"
proof -
  obtain ts :: group_type where ts: "\<forall>g \<in> set (tb_groups t). length (ig_items g) = length ts"
    using assms(1) row_ok_length by (fastforce simp: table_typed_def list_all_iff)
  moreover have "hd (tb_groups t) \<in> set (tb_groups t)" using assms(2) by (cases "tb_groups t") auto
  ultimately show ?thesis using assms(2) by (auto simp: getNumberOfColumns_def)
qed

lemma innerJoin_typed:
  assumes "table_typed t" "table_typed u" "li < getNumberOfColumns t" "ri < getNumberOfColumns u"
    and "\<And>l r. l \<in> set (rows t) \<Longrightarrow> r \<in> set (rows u) \<Longrightarrow> \<exists>x. val_eq ops (it_val (l ! li)) (it_val (r ! ri)) = Inr x"
  shows "\<exists>v. innerJoin ops u li ri t = Inr v
    \<and> rows v = concat (map (\<lambda>l. map ((@) l) (filter (matching ops li ri l) (rows u))) (rows t))"
proof -
  have ne: "tb_groups t \<noteq> []" "tb_groups u \<noteq> []" using assms(3,4) by (auto simp: getNumberOfColumns_def)
  obtain ts where ts: "\<forall>l \<in> set (tb_groups t). \<forall>r \<in> set (tb_groups u).
      row_ok ts (join_row l r) \<and> mk_group_type (ig_items l @ ig_items r) = ts"
    using typed_join_rows [OF assms(1,2)] by blast
  have step: "innerJoinForeachRTable ops li ri l r v
      = Inr (if matching ops li ri (ig_items l) (ig_items r) then v\<lparr>tb_groups := tb_groups v @ [join_row l r]\<rparr> else v)"
    if lr: "l \<in> set (tb_groups t)" "r \<in> set (tb_groups u)" and v: "plain_table ts v" for l r v
  proof -
    obtain x where "val_eq ops (it_val (ig_items l ! li)) (it_val (ig_items r ! ri)) = Inr x"
      using assms(5) [of "ig_items l" "ig_items r"] lr by (auto simp: rows_def)
    from innerJoin_step [OF v _ _ _ this] show ?thesis
      using ts lr assms(3,4) typed_columns [OF assms(1) lr(1)] typed_columns [OF assms(2) lr(2)] by simp
  qed
  have "foldR (\<lambda>l. foldR (innerJoinForeachRTable ops li ri l) (tb_groups u)) (tb_groups t) mk_item_table
    = Inr (mk_item_table\<lparr>tb_groups := tb_groups mk_item_table @ concat (map (\<lambda>l. map (join_row l)
        (filter (\<lambda>r. matching ops li ri (ig_items l) (ig_items r)) (tb_groups u))) (tb_groups t))\<rparr>)"
    by (rule join_outer_loop [where ts = ts and p = "\<lambda>l r. matching ops li ri (ig_items l) (ig_items r)", OF step])
       (simp_all add: ts)
  then show ?thesis using ne assms(3,4)
    by (simp add: innerJoin_def rows_def map_concat comp_def join_row_def mk_item_table_def filter_map)
qed

text \<open>A loop that ends has ended at every element.\<close>

lemma foldR_ends: "foldR f xs s = Inr s' \<Longrightarrow> x \<in> set xs \<Longrightarrow> \<exists>s1 s2. f x s1 = Inr s2"
  by (induction xs arbitrary: s) (auto simp: bindR_eq_Inr)

lemma innerJoin_compares:
  assumes "innerJoin ops u li ri t = Inr v" "li < getNumberOfColumns t" "ri < getNumberOfColumns u"
    and "l \<in> set (rows t)" "r \<in> set (rows u)"
  shows "\<exists>x. val_eq ops (it_val (l ! li)) (it_val (r ! ri)) = Inr x"
proof -
  obtain gl gr where g: "gl \<in> set (tb_groups t)" "ig_items gl = l" "gr \<in> set (tb_groups u)" "ig_items gr = r"
    using assms(4,5) by (auto simp: rows_def)
  then have "foldR (\<lambda>l. foldR (innerJoinForeachRTable ops li ri l) (tb_groups u)) (tb_groups t) mk_item_table = Inr v"
    using assms(1-3) by (auto simp: innerJoin_def split: if_splits)
  from foldR_ends [OF this g(1)] obtain v1 v2
    where "foldR (innerJoinForeachRTable ops li ri gl) (tb_groups u) v1 = Inr v2" by blast
  from foldR_ends [OF this g(3)] obtain v3 v4 where "innerJoinForeachRTable ops li ri gl gr v3 = Inr v4" by blast
  then show ?thesis
    using g by (auto simp: innerJoinForeachRTable_def ig_getItemAt_def val_ne_def bindR_eq_Inr split: if_splits sum.splits)
qed

lemma innerJoin_no_column:
  "\<not> (li < getNumberOfColumns t \<and> ri < getNumberOfColumns u) \<Longrightarrow> innerJoin ops u li ri t = Inr mk_item_table"
  by (simp add: innerJoin_def not_less)

text \<open>
  C12. The joins of two tables, however they were built, give the rows of relational algebra in the
  order of nested loops. The cross join returns every left row followed by every right row and never
  raises. The inner join returns no rows when a table is empty or a column index is out of range;
  otherwise it returns those whose values in the two columns are equal if all values of the two columns
  can be compared, and raises if some cannot (the comparison of their kinds raises).
\<close>

theorem joins_exact:
  assumes "table_built ops t" "table_built ops u"
  shows "(\<exists>v. crossJoin ops t u = Inr v \<and> rows v = concat (map (\<lambda>l. map ((@) l) (rows u)) (rows t)))
    \<and> (if \<not> (li < getNumberOfColumns t \<and> ri < getNumberOfColumns u)
       then \<exists>v. innerJoin ops u li ri t = Inr v \<and> rows v = []
       else if \<forall>l \<in> set (rows t). \<forall>r \<in> set (rows u). \<exists>x. val_eq ops (it_val (l ! li)) (it_val (r ! ri)) = Inr x
       then \<exists>v. innerJoin ops u li ri t = Inr v
             \<and> rows v = concat (map (\<lambda>l. map ((@) l) (filter (matching ops li ri l) (rows u))) (rows t))
       else \<exists>e. innerJoin ops u li ri t = Inl e)"
proof (intro conjI)
  note typed = table_built_typed [OF assms(1)] table_built_typed [OF assms(2)]
  show "\<exists>v. crossJoin ops t u = Inr v \<and> rows v = concat (map (\<lambda>l. map ((@) l) (rows u)) (rows t))"
    using crossJoin_typed [OF typed] .
  let ?in = "li < getNumberOfColumns t \<and> ri < getNumberOfColumns u"
  let ?cmp = "\<forall>l \<in> set (rows t). \<forall>r \<in> set (rows u). \<exists>x. val_eq ops (it_val (l ! li)) (it_val (r ! ri)) = Inr x"
  have "\<exists>e. innerJoin ops u li ri t = Inl e" if "?in" "\<not> ?cmp"
    using innerJoin_compares [of ops u li ri t] that by (cases "innerJoin ops u li ri t") blast+
  moreover have "rows mk_item_table = []" by (simp add: rows_def mk_item_table_def)
  ultimately show "if \<not> ?in then \<exists>v. innerJoin ops u li ri t = Inr v \<and> rows v = []
      else if ?cmp then \<exists>v. innerJoin ops u li ri t = Inr v
        \<and> rows v = concat (map (\<lambda>l. map ((@) l) (filter (matching ops li ri l) (rows u))) (rows t))
      else \<exists>e. innerJoin ops u li ri t = Inl e"
    using innerJoin_no_column [of li t ri u ops] innerJoin_typed [OF typed, of li ri] by (simp split: if_splits) blast
qed

theorem joins_exact_witness:
  "\<forall>ops. \<exists>v. innerJoin ops ex_int_table 0 0 ex_int_table = Inr v
     \<and> rows v = [[mk_item 1 (ItemInt 5) False, mk_item 1 (ItemInt 5) False]]"
proof
  fix ops
  show "\<exists>v. innerJoin ops ex_int_table 0 0 ex_int_table = Inr v
     \<and> rows v = [[mk_item 1 (ItemInt 5) False, mk_item 1 (ItemInt 5) False]]"
  proof -
    have r: "rows ex_int_table = [[mk_item 1 (ItemInt 5) False]]" and c: "0 < getNumberOfColumns ex_int_table"
      by (simp_all add: ex_int_table_def getNumberOfColumns_def rows_def mk_item_def)
    have m: "val_eq ops (it_val (mk_item 1 (ItemInt 5) False)) (it_val (mk_item 1 (ItemInt 5) False)) = Inr True"
      by (simp add: mk_item_def)
    have cmp: "\<forall>l \<in> set (rows ex_int_table). \<forall>r \<in> set (rows ex_int_table). \<exists>x. val_eq ops (it_val (l ! 0)) (it_val (r ! 0)) = Inr x"
      using m by (auto simp: r)
    have "\<exists>v. innerJoin ops ex_int_table 0 0 ex_int_table = Inr v
        \<and> rows v = concat (map (\<lambda>l. map ((@) l) (filter (matching ops 0 0 l) (rows ex_int_table))) (rows ex_int_table))"
      using joins_exact [OF ex_int_table_built ex_int_table_built, of ops 0 0] c
      unfolding if_P [OF cmp] by simp
    then show ?thesis using m by (simp add: r matching_def)
  qed
qed

section \<open>Indexes\<close>

text \<open>Two items of one kind other than \<open>double\<close> are equivalent iff their values are equal.\<close>

lemma item_less_defined:
  "getItemType a = getItemType b \<Longrightarrow> \<exists>x. item_less ops a b = Inr x"
  by (cases "it_val a"; cases "it_val b") (simp_all add: item_less_def getItemType_def)

lemma item_equiv_same_kind:
  "getItemType a = getItemType b \<Longrightarrow> getItemType a \<noteq> ITEM_TYPE_DOUBLE
    \<Longrightarrow> item_equiv ops a b = Inr (it_val a = it_val b)"
  by (cases "it_val a"; cases "it_val b") (auto simp: item_equiv_def item_less_def getItemType_def)

lemma equal_range_same_kind:
  "list_all (\<lambda>e. getItemType (fst e) = getItemType key) es \<Longrightarrow> getItemType key \<noteq> ITEM_TYPE_DOUBLE
    \<Longrightarrow> equal_range ops key es = Inr (filter (\<lambda>e. it_val (fst e) = it_val key) es)"
  by (induction es) (auto simp: item_equiv_same_kind)

lemma insert_upper_mset: "insert_upper ops x es = Inr r \<Longrightarrow> mset r = add_mset x (mset es)"
  by (induction es arbitrary: r) (auto simp: res_simps split: if_splits)

lemma ix_insert_mset:
  "ix_insert ops d g ix = Inr (True, ix')
    \<Longrightarrow> ix_type ix' = ix_type ix \<and> mset (ix_entries ix') = add_mset (d, g) (mset (ix_entries ix))
      \<and> (ix_type ix = ITEM_DATA_INDEX_TYPE_UNIQUE \<longrightarrow> equal_range ops d (ix_entries ix) = Inr [])"
  by (auto simp: ix_insert_def res_simps dest: insert_upper_mset split: index_type.splits if_splits)

text \<open>What an index of a column holds: one entry for every row; in a unique index no two have one value.\<close>

definition column_index :: "'d item_group list \<Rightarrow> nat \<Rightarrow> 'd item_index \<Rightarrow> bool" where
  "column_index gs c ix \<longleftrightarrow> mset (ix_entries ix) = mset (map (\<lambda>g. (ig_items g ! c, g)) gs)
     \<and> (ix_type ix = ITEM_DATA_INDEX_TYPE_UNIQUE \<longrightarrow>
          distinct (map (\<lambda>g. it_val (ig_items g ! c)) (filter (\<lambda>g. getItemType (ig_items g ! c) \<noteq> ITEM_TYPE_DOUBLE) gs)))"

lemma equal_range_complete:
  assumes "equal_range ops key es = Inr r" "e \<in> set es" "it_val (fst e) = it_val key" "getItemType key \<noteq> ITEM_TYPE_DOUBLE"
  shows "e \<in> set r"
  using assms
proof (induction es arbitrary: r)
  case (Cons f es)
  have "item_equiv ops key (fst e) = Inr True"
    using Cons.prems(3,4) by (subst item_equiv_same_kind) (simp_all add: getItemType_def)
  then show ?case using Cons by (auto simp: res_simps)
qed simp

lemma column_index_insert:
  assumes ix: "column_index gs c ix" and ins: "ix_insert ops (ig_items g ! c) g ix = Inr (True, ix')"
  shows "column_index (gs @ [g]) c ix'"
proof -
  note new = ix_insert_mset [OF ins]
  let ?d = "ig_items g ! c"
  have "it_val (ig_items h ! c) \<noteq> it_val ?d"
    if u: "ix_type ix = ITEM_DATA_INDEX_TYPE_UNIQUE" and h: "h \<in> set gs" and k: "getItemType ?d \<noteq> ITEM_TYPE_DOUBLE" for h
  proof
    assume eq: "it_val (ig_items h ! c) = it_val ?d"
    have "(ig_items h ! c, h) \<in> set (ix_entries ix)"
      using ix h by (metis (no_types, lifting) column_index_def image_eqI list.set_map mset_eq_setD)
    from equal_range_complete [where r = "[]", OF _ this _ k] eq new u show False by fastforce
  qed
  then show ?thesis using ix new by (fastforce simp: column_index_def)
qed

definition indexes_ok :: "'d item_group list \<Rightarrow> 'd item_table \<Rightarrow> bool" where
  "indexes_ok gs t \<longleftrightarrow>
     tb_indexed t = filter (\<lambda>c. ix_type (tb_indexes t ! c) \<noteq> ITEM_DATA_INDEX_TYPE_NONE) [0..<length (tb_indexes t)]
     \<and> (\<forall>c \<in> set (tb_indexed t). column_index gs c (tb_indexes t ! c))"

lemma update_index_at_Inr:
  assumes "update_index_at ops g c t = Inr t'"
  shows "\<exists>ix. t' = t\<lparr>tb_indexes := (tb_indexes t)[c := ix]\<rparr> \<and> c < length (tb_indexes t) \<and> c < length (ig_items g)
    \<and> ix_insert ops (ig_items g ! c) g (tb_indexes t ! c) = Inr (True, ix)"
  using assms by (auto simp: update_index_at_def ig_getItemAt_def res_simps split: if_splits)

lemma update_indexes_step:
  assumes "foldR (update_index_at ops g) cs t = Inr t'" "distinct cs"
  shows "t' = t\<lparr>tb_indexes := tb_indexes t'\<rparr> \<and> length (tb_indexes t') = length (tb_indexes t)
    \<and> (\<forall>c. c \<notin> set cs \<longrightarrow> tb_indexes t' ! c = tb_indexes t ! c)
    \<and> (\<forall>c \<in> set cs. ix_insert ops (ig_items g ! c) g (tb_indexes t ! c) = Inr (True, tb_indexes t' ! c))"
  using assms
proof (induction cs arbitrary: t)
  case (Cons c cs)
  then obtain s where s: "update_index_at ops g c t = Inr s" "foldR (update_index_at ops g) cs s = Inr t'"
    by (auto simp: res_simps)
  obtain ix where ix: "s = t\<lparr>tb_indexes := (tb_indexes t)[c := ix]\<rparr>" "c < length (tb_indexes t)"
      "ix_insert ops (ig_items g ! c) g (tb_indexes t ! c) = Inr (True, ix)"
    using update_index_at_Inr [OF s(1)] by blast
  note IH = Cons.IH [OF s(2)]
  have d: "distinct cs" "c \<notin> set cs" using Cons.prems(2) by simp_all
  have tx: "tb_indexes t' ! c = ix" using IH d ix by simp
  have old: "tb_indexes s ! k = tb_indexes t ! k" if "k \<noteq> c" for k using ix that by simp
  have "t' = t\<lparr>tb_indexes := tb_indexes t'\<rparr>" using IH d ix(1) by (metis item_table.surjective item_table.update_convs(2))
  moreover have "length (tb_indexes t') = length (tb_indexes t)" using IH d ix(1) by simp
  moreover have "tb_indexes t' ! k = tb_indexes t ! k" if "k \<notin> set (c # cs)" for k
    using IH d old that by simp
  moreover have "ix_insert ops (ig_items g ! k) g (tb_indexes t ! k) = Inr (True, tb_indexes t' ! k)"
    if "k \<in> set (c # cs)" for k
    using IH d old [of k] that ix(3) tx by (cases "k = c") auto
  ultimately show ?case by blast
qed simp

lemma updateIndex_ok:
  assumes "indexes_ok gs t" "updateIndex ops g t = Inr t'"
  shows "indexes_ok (gs @ [g]) t' \<and> tb_indexed t' = tb_indexed t \<and> map ix_type (tb_indexes t') = map ix_type (tb_indexes t)"
proof -
  have d: "distinct (tb_indexed t)" using assms(1) by (simp add: indexes_ok_def)
  note step = update_indexes_step [OF assms(2) [unfolded updateIndex_def] d]
  have len: "length (tb_indexes t') = length (tb_indexes t)" using step by blast
  have ty: "ix_type (tb_indexes t' ! c) = ix_type (tb_indexes t ! c)" for c
    using step ix_insert_mset [of ops "ig_items g ! c" g "tb_indexes t ! c" "tb_indexes t' ! c"]
    by (cases "c \<in> set (tb_indexed t)") simp_all
  have ixd: "tb_indexed t' = tb_indexed t" using step by (metis item_table.select_convs(3) item_table.surjective item_table.update_convs(2))
  have "column_index (gs @ [g]) c (tb_indexes t' ! c)" if "c \<in> set (tb_indexed t)" for c
    using step that assms(1) by (intro column_index_insert [where ix = "tb_indexes t ! c" and ops = ops]) (simp_all add: indexes_ok_def)
  moreover have "map ix_type (tb_indexes t') = map ix_type (tb_indexes t)"
    using len ty by (auto intro: nth_equalityI)
  ultimately show ?thesis using assms(1) ty len ixd by (simp add: indexes_ok_def)
qed

lemma updateIndex_all_ok:
  "indexes_ok gs t \<Longrightarrow> foldR (updateIndex ops) hs t = Inr t' \<Longrightarrow> indexes_ok (gs @ hs) t'"
proof (induction hs arbitrary: gs t)
  case (Cons h hs)
  then obtain s where s: "updateIndex ops h t = Inr s" "foldR (updateIndex ops) hs s = Inr t'" by (auto simp: res_simps)
  from Cons.IH [OF conjunct1 [OF updateIndex_ok [OF Cons.prems(1) s(1)]] s(2)] show ?case by simp
qed simp

lemma no_index_ok: "tb_indexes t = [] \<Longrightarrow> tb_indexed t = [] \<Longrightarrow> indexes_ok gs t"
  by (simp add: indexes_ok_def)

lemma indexes_ok_groups [simp]: "indexes_ok gs (t\<lparr>tb_groups := hs\<rparr>) = indexes_ok gs t"
  by (simp add: indexes_ok_def)

lemma table_push_indexes:
  assumes "indexes_ok (tb_groups t) t" "table_push ops g t = Inr t'"
  shows "indexes_ok (tb_groups t') t'"
proof (cases "hasIndex t")
  case True
  then obtain s where "updateIndex ops g t = Inr s" "t' = s\<lparr>tb_groups := tb_groups s @ [g]\<rparr>"
    using assms(2) by (auto simp: table_push_def res_simps)
  then show ?thesis using updateIndex_ok [OF assms(1)] updateIndex_groups by fastforce
next
  case False
  then have "t' = t\<lparr>tb_groups := tb_groups t @ [g]\<rparr>" using assms(2) by (auto simp: table_push_def res_simps)
  then show ?thesis using False assms(1) by (intro no_index_ok) (simp_all add: hasIndex_def indexes_ok_def)
qed

lemma defineIndex_ok:
  assumes "defineIndex ops tys t = Inr t'"
  shows "indexes_ok (tb_groups t') t'"
proof -
  let ?t = "t\<lparr>tb_indexes := map mk_item_index tys, tb_indexed := filter (\<lambda>i. tys ! i \<noteq> ITEM_DATA_INDEX_TYPE_NONE) [0..<length tys]\<rparr>"
  have "foldR (updateIndex ops) (tb_groups t) ?t = Inr t'" using assms by (auto simp: defineIndex_def Let_def split: if_splits)
  moreover have "indexes_ok [] ?t"
    by (auto simp: indexes_ok_def mk_item_index_def column_index_def intro: filter_cong)
  ultimately show ?thesis using updateIndex_all_ok defineIndex_groups [OF assms] by fastforce
qed

lemma table_built_indexes: "table_built ops t \<Longrightarrow> indexes_ok (tb_groups t) t"
proof (induction rule: table_built.induct)
  case new show ?case by (rule no_index_ok) (simp_all add: mk_item_table_def)
next
  case (add t g t')
  then show ?case using table_push_indexes by (simp add: tb_add_push [OF group_built_wf [OF add.hyps(2)]])
next
  case (add_const t g t')
  then show ?case using table_push_indexes tb_add_const_push by blast
next
  case (index t tys t')
  then show ?case using defineIndex_ok by blast
qed

lemma unique_filter:
  "distinct (map f (filter P gs)) \<Longrightarrow> (\<And>g. g \<in> set gs \<Longrightarrow> P g) \<Longrightarrow> length (filter (\<lambda>g. f g = v) gs) \<le> 1"
proof (induction gs)
  case (Cons g gs)
  then show ?case by (auto simp: filter_empty_conv) (metis imageI)
qed simp

text \<open>
  However a table was built, a search in the index of a column finds exactly the rows that have the
  value in that column, each once, when the key has the kind of the column (\<open>double\<close>, whose equality
  is not that of values, apart); in a unique index there is at most one.
\<close>

lemma index_find_exact:
  assumes "table_built ops t" and "c \<in> set (tb_indexed t)"
    and "\<forall>g \<in> set (tb_groups t). getItemType (ig_items g ! c) = getItemType key"
    and "getItemType key \<noteq> ITEM_TYPE_DOUBLE"
  shows "\<exists>es. ix_find ops key (tb_indexes t ! c) = Inr es
    \<and> mset (map snd es) = mset (filter (\<lambda>g. it_val (ig_items g ! c) = it_val key) (tb_groups t))
    \<and> (ix_type (tb_indexes t ! c) = ITEM_DATA_INDEX_TYPE_UNIQUE \<longrightarrow> length es \<le> 1)"
proof -
  let ?ix = "tb_indexes t ! c" and ?gs = "tb_groups t" and ?p = "\<lambda>e. it_val (fst e) = it_val key"
  have ok: "indexes_ok ?gs t" by (rule table_built_indexes [OF assms(1)])
  then have ci: "column_index ?gs c ?ix" and kind: "ix_type ?ix \<noteq> ITEM_DATA_INDEX_TYPE_NONE"
    using assms(2) by (auto simp: indexes_ok_def)
  let ?es = "map (\<lambda>g. (ig_items g ! c, g)) ?gs"
  have es: "mset (ix_entries ?ix) = mset ?es" using ci by (simp add: column_index_def)
  have "set (ix_entries ?ix) = set ?es" using es by (rule mset_eq_setD)
  then have "list_all (\<lambda>e. getItemType (fst e) = getItemType key) (ix_entries ?ix)"
    using assms(3) by (auto simp: list_all_iff)
  then have found: "ix_find ops key ?ix = Inr (filter ?p (ix_entries ?ix))"
    using kind assms(4) by (simp add: ix_find_def equal_range_same_kind)
  have "mset (filter ?p (ix_entries ?ix)) = mset (filter ?p ?es)" unfolding mset_filter es ..
  also have "filter ?p ?es = map (\<lambda>g. (ig_items g ! c, g)) (filter (\<lambda>g. it_val (ig_items g ! c) = it_val key) ?gs)"
    by (simp add: filter_map comp_def)
  finally have m: "mset (filter ?p (ix_entries ?ix)) = mset (map (\<lambda>g. (ig_items g ! c, g)) (filter (\<lambda>g. it_val (ig_items g ! c) = it_val key) ?gs))" .
  then have rows: "mset (map snd (filter ?p (ix_entries ?ix))) = mset (filter (\<lambda>g. it_val (ig_items g ! c) = it_val key) ?gs)"
    by (simp add: mset_map image_mset.compositionality comp_def)
  moreover have "length (filter ?p (ix_entries ?ix)) \<le> 1" if u: "ix_type ?ix = ITEM_DATA_INDEX_TYPE_UNIQUE"
  proof -
    have "length (filter (\<lambda>g. it_val (ig_items g ! c) = it_val key) ?gs) \<le> 1"
      using ci u assms(3,4) by (intro unique_filter [where P = "\<lambda>g. getItemType (ig_items g ! c) \<noteq> ITEM_TYPE_DOUBLE"]) (auto simp: column_index_def)
    then show ?thesis using arg_cong [OF rows, of size] by (simp only: size_mset length_map)
  qed
  ultimately show ?thesis using found by blast
qed

definition ex_index_table :: "unit item_table" where
  "ex_index_table = ex_int_table\<lparr>tb_indexes := [\<lparr>ix_type = ITEM_DATA_INDEX_TYPE_UNIQUE,
     ix_entries = [(mk_item 1 (ItemInt 5) False, hd (tb_groups ex_int_table))]\<rparr>], tb_indexed := [0]\<rparr>"

lemma index_find_exact_witness:
  "\<forall>ops. \<exists>es. ix_find ops (mk_item 7 (ItemInt 5) False) (tb_indexes ex_index_table ! 0) = Inr es
     \<and> mset (map snd es) = mset (tb_groups ex_int_table)"
proof
  fix ops
  have "table_built ops ex_index_table"
    by (rule table_built.index [OF ex_int_table_built, of _ "[ITEM_DATA_INDEX_TYPE_UNIQUE]"])
       (simp add: defineIndex_def hasIndex_def ex_index_table_def ex_int_table_def mk_item_table_def mk_item_index_def
         updateIndex_def update_index_at_def ig_getItemAt_def ix_insert_def mk_item_def)
  from index_find_exact [OF this, of 0 "mk_item 7 (ItemInt 5) False"]
  show "\<exists>es. ix_find ops (mk_item 7 (ItemInt 5) False) (tb_indexes ex_index_table ! 0) = Inr es
     \<and> mset (map snd es) = mset (tb_groups ex_int_table)"
    by (auto simp: ex_index_table_def ex_int_table_def getItemType_def mk_item_def)
qed

text \<open>
  The order of group types is none: two types of one length can both be less than the other, which a
  \<open>std::set\<close> of them does not allow.
\<close>

lemma group_type_less_not_asymmetric:
  "group_type_less [ITEM_TYPE_INT, ITEM_TYPE_STRING] [ITEM_TYPE_STRING, ITEM_TYPE_INT]
    \<and> group_type_less [ITEM_TYPE_STRING, ITEM_TYPE_INT] [ITEM_TYPE_INT, ITEM_TYPE_STRING]"
  by (simp add: group_type_less_def)

section \<open>Writing and reading a row\<close>

text \<open>A time survives the way into a row and back iff it fits an \<open>int\<close>.\<close>

lemma addNewItem_time_read:
  assumes "- (2 ^ 63) \<le> t" "t < 2 ^ 63" "addNewItem_time t False mk_item_group = Inr g"
  shows "\<exists>s. read_time (mk_group_stream g) = Inr (sint (word_of_int t :: u32), s)
    \<and> (sint (word_of_int t :: u32) = t \<longleftrightarrow> in_int t)"
proof -
  have "sint (word_of_int t :: u32) = t \<longleftrightarrow> in_int t"
    by (auto simp: in_int_def sint_sbintrunc' signed_take_bit_int_eq_self_iff)
  then show ?thesis using assms(3)
    by (auto simp: addNewItem_time_def addNewItem_def ig_add_def mk_item_group_def read_time_def mk_group_stream_def
      substitute_def gs_getItem_def ig_getItemAt_def item_cast_def mk_item_def)
qed

end
