(* ===== verification/Smart_Buffer.thy ===== *)
theory Smart_Buffer
  imports Hato_Prelude
begin

text \<open>
  Byte buffers with a read and write position (src/server/mlpl/src/SmartBuffer.h, SmartBuffer.cc). Memory is
  the list of the bytes that were allocated; an access outside of it is \<open>BufUndefined\<close>. A \<open>size_t\<close> is a
  number below \<open>2 ^ 64\<close> and sums wrap. Whether \<open>realloc\<close> succeeds and what fresh memory holds are
  arguments. Values of \<open>T\<close> are little-endian, as the protocols on top of the buffer say.
\<close>

section \<open>Bytes\<close>

datatype buf_exc = BufAlloc | BufRangeError | BufOutOfRange | BufAssert | BufUndefined

type_synonym 'a bres = "buf_exc + 'a"

definition le_bytes :: "nat \<Rightarrow> nat \<Rightarrow> u8 list" where
  "le_bytes n v = map (\<lambda>k. word_of_nat (v div 256 ^ k)) [0..<n]"

fun from_le :: "u8 list \<Rightarrow> nat" where
  "from_le [] = 0"
| "from_le (b # bs) = unat b + 256 * from_le bs"

definition byte_of :: "char \<Rightarrow> u8" where
  "byte_of c = word_of_nat (of_char c)"

definition char_of_byte :: "u8 \<Rightarrow> char" where
  "char_of_byte b = char_of (unat b)"

definition size_t :: "nat \<Rightarrow> nat" where
  "size_t n = n mod 2 ^ 64"

section \<open>The buffer\<close>

record smart_buffer =
  sb_index :: nat
  sb_buf :: "u8 list option"
  sb_size :: nat
  sb_watermark :: nat

record alloc_env =
  al_ok :: "nat \<Rightarrow> bool"
  al_byte :: "nat \<Rightarrow> u8"

definition mk_buffer :: smart_buffer where
  "mk_buffer = \<lparr>sb_index = 0, sb_buf = None, sb_size = 0, sb_watermark = 0\<rparr>"

definition resetIndex :: "smart_buffer \<Rightarrow> smart_buffer" where
  "resetIndex sb = sb\<lparr>sb_index := 0\<rparr>"

definition setIndex :: "nat \<Rightarrow> smart_buffer \<Rightarrow> smart_buffer" where
  "setIndex i sb = sb\<lparr>sb_index := i\<rparr>"

definition resetIndexDeep :: "smart_buffer \<Rightarrow> smart_buffer" where
  "resetIndexDeep sb = (resetIndex sb)\<lparr>sb_watermark := 0\<rparr>"

definition sb_alloc :: "alloc_env \<Rightarrow> nat \<Rightarrow> bool \<Rightarrow> smart_buffer \<Rightarrow> smart_buffer bres" where
  "sb_alloc env sz deep sb =
     (if \<not> al_ok env sz then Inl BufAlloc
      else
        let old = (case sb_buf sb of None \<Rightarrow> [] | Some b \<Rightarrow> b);
            sb = sb\<lparr>sb_buf := Some (take sz old @ map (al_byte env) [length old..<sz])\<rparr>;
            sb = (if deep then resetIndexDeep sb else sb)
        in Inr (sb\<lparr>sb_size := sz\<rparr>))"

definition mk_buffer_sized :: "alloc_env \<Rightarrow> nat \<Rightarrow> smart_buffer bres" where
  "mk_buffer_sized env sz = sb_alloc env sz True mk_buffer"

definition remainingSize :: "smart_buffer \<Rightarrow> nat" where
  "remainingSize sb = size_t (sb_size sb + 2 ^ 64 - sb_index sb)"

definition ensureRemainingSize :: "alloc_env \<Rightarrow> nat \<Rightarrow> smart_buffer \<Rightarrow> smart_buffer bres" where
  "ensureRemainingSize env sz sb =
     (let requiredSize = size_t (sb_index sb + sz)
      in if requiredSize > sb_size sb then sb_alloc env requiredSize False sb else Inr sb)"

definition setWatermarkIfNeeded :: "nat \<Rightarrow> smart_buffer \<Rightarrow> smart_buffer" where
  "setWatermarkIfNeeded index sb = (if index > sb_watermark sb then sb\<lparr>sb_watermark := index\<rparr> else sb)"

definition incIndex :: "nat \<Rightarrow> smart_buffer \<Rightarrow> smart_buffer" where
  "incIndex sz sb =
     (let sb = sb\<lparr>sb_index := size_t (sb_index sb + sz)\<rparr> in setWatermarkIfNeeded (sb_index sb) sb)"

text \<open>Accesses to the memory.\<close>

definition overwrite :: "nat \<Rightarrow> 'a list \<Rightarrow> 'a list \<Rightarrow> 'a list" where
  "overwrite i bs b = take i b @ bs @ drop (i + length bs) b"

definition write_at :: "nat \<Rightarrow> u8 list \<Rightarrow> smart_buffer \<Rightarrow> smart_buffer bres" where
  "write_at i bs sb =
     (case sb_buf sb of
        None \<Rightarrow> Inl BufUndefined
      | Some b \<Rightarrow> if i + length bs \<le> length b then Inr (sb\<lparr>sb_buf := Some (overwrite i bs b)\<rparr>) else Inl BufUndefined)"

definition read_at :: "nat \<Rightarrow> nat \<Rightarrow> smart_buffer \<Rightarrow> u8 list bres" where
  "read_at i n sb =
     (case sb_buf sb of
        None \<Rightarrow> Inl BufUndefined
      | Some b \<Rightarrow> if i + n \<le> length b then Inr (take n (drop i b)) else Inl BufUndefined)"

definition buf_add :: "u8 list \<Rightarrow> smart_buffer \<Rightarrow> smart_buffer bres" where
  "buf_add src sb = bindR (write_at (sb_index sb) src sb) (\<lambda>sb. Inr (incIndex (length src) sb))"

text \<open>\<open>addTemplate<T>\<close> for a type of \<open>n\<close> bytes.\<close>

definition addTemplate :: "nat \<Rightarrow> nat \<Rightarrow> smart_buffer \<Rightarrow> smart_buffer bres" where
  "addTemplate n v sb = buf_add (le_bytes n v) sb"

definition add8 :: "u8 \<Rightarrow> smart_buffer \<Rightarrow> smart_buffer bres" where
  "add8 v sb = addTemplate 1 (unat v) sb"

definition add16 :: "u16 \<Rightarrow> smart_buffer \<Rightarrow> smart_buffer bres" where
  "add16 v sb = addTemplate 2 (unat v) sb"

definition add32 :: "u32 \<Rightarrow> smart_buffer \<Rightarrow> smart_buffer bres" where
  "add32 v sb = addTemplate 4 (unat v) sb"

definition add64 :: "u64 \<Rightarrow> smart_buffer \<Rightarrow> smart_buffer bres" where
  "add64 v sb = addTemplate 8 (unat v) sb"

definition addZero :: "nat \<Rightarrow> smart_buffer \<Rightarrow> smart_buffer bres" where
  "addZero sz sb = bindR (write_at (sb_index sb) (replicate sz 0) sb) (\<lambda>sb. Inr (incIndex sz sb))"

text \<open>The shift \<open>1 << (8 * sizeof(T))\<close> of an \<open>int\<close> is undefined from four bytes on.\<close>

definition add_sized_string :: "nat \<Rightarrow> string \<Rightarrow> smart_buffer \<Rightarrow> smart_buffer bres" where
  "add_sized_string n str sb =
     (if n \<ge> 4 then Inl BufUndefined
      else if length str > 2 ^ (8 * n) - 1 then Inl BufRangeError
      else bindR (buf_add (le_bytes n (length str)) sb) (buf_add (map byte_of str)))"

definition addEx :: "alloc_env \<Rightarrow> u8 list \<Rightarrow> smart_buffer \<Rightarrow> smart_buffer bres" where
  "addEx env src sb =
     bindR (ensureRemainingSize env (size_t (sb_index sb + length src)) sb) (buf_add src)"

definition addExTemplate :: "alloc_env \<Rightarrow> nat \<Rightarrow> nat \<Rightarrow> smart_buffer \<Rightarrow> smart_buffer bres" where
  "addExTemplate env n v sb = bindR (ensureRemainingSize env n sb) (addTemplate n v)"

definition setAt :: "nat \<Rightarrow> u32 \<Rightarrow> smart_buffer \<Rightarrow> smart_buffer bres" where
  "setAt index v sb = write_at index (le_bytes 4 (unat v)) sb"

definition getValue :: "nat \<Rightarrow> nat \<Rightarrow> smart_buffer \<Rightarrow> nat bres" where
  "getValue n index sb =
     (let headIndex = (if index = 2 ^ 64 - 1 then sb_index sb else index)
      in bindR (read_at headIndex n sb) (\<lambda>bs. Inr (from_le bs)))"

definition getValueAndIncIndex :: "nat \<Rightarrow> smart_buffer \<Rightarrow> (nat \<times> smart_buffer) bres" where
  "getValueAndIncIndex n sb =
     bindR (read_at (sb_index sb) n sb) (\<lambda>bs. Inr (from_le bs, sb\<lparr>sb_index := size_t (sb_index sb + n)\<rparr>))"

definition sb_getString :: "nat \<Rightarrow> nat \<Rightarrow> smart_buffer \<Rightarrow> string bres" where
  "sb_getString n index sb =
     (let pos = (if index = 2 ^ 64 - 1 then sb_index sb else index)
      in bindR (getValue n pos sb) (\<lambda>len.
         bindR (read_at (size_t (pos + n)) len sb) (\<lambda>bs. Inr (map char_of_byte bs))))"

definition getStringAndIncIndex :: "nat \<Rightarrow> smart_buffer \<Rightarrow> (string \<times> smart_buffer) bres" where
  "getStringAndIncIndex n sb =
     bindR (sb_getString n (2 ^ 64 - 1) sb) (\<lambda>s.
       Inr (s, sb\<lparr>sb_index := size_t (sb_index sb + (n + length s))\<rparr>))"

text \<open>A string header is its length and the distance from the header to the text.\<close>

definition insertString :: "string \<Rightarrow> nat \<Rightarrow> smart_buffer \<Rightarrow> (nat \<times> smart_buffer) bres" where
  "insertString str bodyIndex sb =
     (let nextBodyIndex = size_t (bodyIndex + length str + 1);
          offset = sint (word_of_int (int bodyIndex - int (sb_index sb)) :: u64)
      in if length str > 2 ^ 32 - 1 then Inl BufRangeError
         else if nextBodyIndex > sb_size sb then Inl BufOutOfRange
         else if offset > 2 ^ 31 - 1 \<or> offset < - (2 ^ 31) then Inl BufOutOfRange
         else
           bindR (buf_add (le_bytes 4 (length str) @ le_bytes 4 (nat (offset mod 2 ^ 32))) sb) (\<lambda>sb.
           bindR (write_at bodyIndex (map byte_of str @ [0]) sb) (\<lambda>sb.
             Inr (nextBodyIndex, setWatermarkIfNeeded nextBodyIndex sb))))"

definition extractString :: "nat \<Rightarrow> smart_buffer \<Rightarrow> string bres" where
  "extractString header sb =
     bindR (read_at header 4 sb) (\<lambda>sz.
     bindR (read_at (header + 4) 4 sb) (\<lambda>offset.
       let body = int header + sint (word_of_nat (from_le offset) :: u32)
       in if body < 0 then Inl BufUndefined
          else bindR (read_at (nat body) (from_le sz) sb) (\<lambda>bs. Inr (map char_of_byte bs))))"

definition extractStringAndIncIndex :: "smart_buffer \<Rightarrow> (string \<times> smart_buffer) bres" where
  "extractStringAndIncIndex sb =
     bindR (extractString (sb_index sb) sb) (\<lambda>s. Inr (s, sb\<lparr>sb_index := size_t (sb_index sb + 8)\<rparr>))"

text \<open>The buffer that takes the contents over, and what is left behind.\<close>

definition handOver :: "smart_buffer \<Rightarrow> smart_buffer \<times> smart_buffer" where
  "handOver sb = (sb, (resetIndexDeep sb)\<lparr>sb_buf := None, sb_size := 0\<rparr>)"

text \<open>The copy constructor and the assignment allocate the size, which resets the indexes they have copied.\<close>

definition sb_copy :: "alloc_env \<Rightarrow> smart_buffer \<Rightarrow> smart_buffer bres" where
  "sb_copy env rhs =
     bindR (sb_alloc env (sb_size rhs) True (rhs\<lparr>sb_buf := None\<rparr>)) (\<lambda>sb.
     bindR (read_at 0 (sb_size rhs) rhs) (\<lambda>bs. write_at 0 bs sb))"

section \<open>Lemmas on bytes\<close>

named_theorems buf_simps "contents of byte buffers"

lemma length_le_bytes [simp, buf_simps]: "length (le_bytes n v) = n"
  by (simp add: le_bytes_def)

lemma le_bytes_eq_Nil [simp]: "le_bytes n v = [] \<longleftrightarrow> n = 0"
  by (simp add: le_bytes_def)

lemma le_bytes_Suc: "le_bytes (Suc n) v = word_of_nat v # le_bytes n (v div 256)"
  by (simp add: le_bytes_def upt_conv_Cons map_Suc_upt [symmetric] comp_def div_mult2_eq del: upt_Suc)

lemma from_le_bytes [simp, buf_simps]: "from_le (le_bytes n v) = v mod 256 ^ n"
proof (induction n arbitrary: v)
  case (Suc n)
  then show ?case by (simp add: le_bytes_Suc mod_mult2_eq unat_of_nat)
qed (simp add: le_bytes_def)

lemma char_of_byte_of [simp]: "char_of_byte (byte_of c) = c"
  by (simp add: char_of_byte_def byte_of_def unat_of_nat)

lemma map_char_of_byte [simp, buf_simps]: "map char_of_byte (map byte_of s) = s"
  by (induction s) simp_all

lemma char_of_byte_comp [simp]: "char_of_byte \<circ> byte_of = id"
  by (simp add: fun_eq_iff)

lemma length_overwrite [simp, buf_simps]: "i + length bs \<le> length b \<Longrightarrow> length (overwrite i bs b) = length b"
  by (simp add: overwrite_def)

lemma overwrite_append [buf_simps]: "i = length p \<Longrightarrow> overwrite i bs (p @ r) = p @ bs @ drop (length bs) r"
  by (simp add: overwrite_def)

lemma take_overwrite: "i + length bs \<le> length b \<Longrightarrow> take i (overwrite i bs b) = take i b"
  by (simp add: overwrite_def)

lemma slice_overwrite: "i + length bs \<le> length b \<Longrightarrow> take (length bs) (drop i (overwrite i bs b)) = bs"
  by (simp add: overwrite_def)

lemma size_t_id [simp, buf_simps]: "n < 2 ^ 64 \<Longrightarrow> size_t n = n"
  by (simp add: size_t_def)

section \<open>What the operations do\<close>

text \<open>A buffer in use: the memory has the recorded size, and the position and the watermark lie in it.\<close>

definition buf_ok :: "smart_buffer \<Rightarrow> bool" where
  "buf_ok sb \<longleftrightarrow> (case sb_buf sb of None \<Rightarrow> sb_size sb = 0 | Some b \<Rightarrow> sb_size sb = length b)
     \<and> sb_index sb \<le> sb_size sb \<and> sb_watermark sb \<le> sb_size sb \<and> sb_size sb < 2 ^ 63"

lemma sb_alloc_grow:
  assumes "buf_ok sb" "sb_size sb \<le> n" "n < 2 ^ 63" "al_ok env n"
  shows "sb_alloc env n False sb = Inr (sb\<lparr>sb_buf := Some ((case sb_buf sb of None \<Rightarrow> [] | Some b \<Rightarrow> b)
    @ map (al_byte env) [sb_size sb..<n]), sb_size := n\<rparr>)"
  using assms by (cases "sb_buf sb") (simp_all add: sb_alloc_def buf_ok_def)

lemma ensureRemainingSize_ok:
  assumes "buf_ok sb" "sb_index sb + n < 2 ^ 63" "\<And>k. k < 2 ^ 63 \<Longrightarrow> al_ok env k"
  shows "\<exists>sb'. ensureRemainingSize env n sb = Inr sb' \<and> buf_ok sb' \<and> sb_index sb + n \<le> sb_size sb'
    \<and> sb_index sb' = sb_index sb \<and> sb_watermark sb' = sb_watermark sb
    \<and> (\<forall>b. sb_buf sb = Some b \<longrightarrow> (\<exists>c. sb_buf sb' = Some (b @ c)))"
proof (cases "sb_index sb + n > sb_size sb")
  case True
  then show ?thesis using assms sb_alloc_grow [OF assms(1), of "sb_index sb + n" env]
    by (cases "sb_buf sb") (auto simp: ensureRemainingSize_def buf_ok_def Let_def)
next
  case False
  then show ?thesis using assms by (auto simp: ensureRemainingSize_def Let_def)
qed

lemma buf_add_ok:
  assumes "sb_buf sb = Some b" "buf_ok sb" "sb_index sb + length bs \<le> length b"
  shows "buf_add bs sb = Inr (sb\<lparr>sb_buf := Some (overwrite (sb_index sb) bs b),
      sb_index := sb_index sb + length bs, sb_watermark := max (sb_watermark sb) (sb_index sb + length bs)\<rparr>)"
  using assms by (auto simp: buf_add_def write_at_def incIndex_def setWatermarkIfNeeded_def Let_def buf_ok_def max_def)

lemma buf_ok_add:
  assumes "sb_buf sb = Some b" "buf_ok sb" "sb_index sb + length bs \<le> length b"
  shows "buf_ok (sb\<lparr>sb_buf := Some (overwrite (sb_index sb) bs b),
      sb_index := sb_index sb + length bs, sb_watermark := max (sb_watermark sb) (sb_index sb + length bs)\<rparr>)"
  using assms by (simp add: buf_ok_def)

text \<open>The writes that make room first.\<close>

datatype ex_write = WBytes "u8 list" | WValue nat nat

fun ex_bytes :: "ex_write \<Rightarrow> u8 list" where
  "ex_bytes (WBytes bs) = bs"
| "ex_bytes (WValue n v) = le_bytes n v"

fun do_write :: "alloc_env \<Rightarrow> ex_write \<Rightarrow> smart_buffer \<Rightarrow> smart_buffer bres" where
  "do_write env (WBytes bs) sb = addEx env bs sb"
| "do_write env (WValue n v) sb = addExTemplate env n v sb"

lemma do_write_ensure:
  "do_write env w sb = bindR (ensureRemainingSize env
     (case w of WBytes bs \<Rightarrow> size_t (sb_index sb + length bs) | WValue n v \<Rightarrow> n) sb) (buf_add (ex_bytes w))"
proof -
  have "addTemplate n v = buf_add (le_bytes n v)" for n v by (simp add: addTemplate_def fun_eq_iff)
  then show ?thesis by (cases w) (simp_all add: addEx_def addExTemplate_def)
qed

lemma do_write_ok:
  assumes "buf_ok sb" "2 * (sb_index sb + length (ex_bytes w)) < 2 ^ 63" "0 < sb_index sb + length (ex_bytes w)"
    and "\<And>k. k < 2 ^ 63 \<Longrightarrow> al_ok env k"
  shows "\<exists>sb' b'. do_write env w sb = Inr sb' \<and> buf_ok sb' \<and> sb_index sb' = sb_index sb + length (ex_bytes w)
    \<and> sb_watermark sb' = max (sb_watermark sb) (sb_index sb') \<and> sb_buf sb' = Some b'
    \<and> (\<forall>b. sb_buf sb = Some b \<longrightarrow> take (sb_index sb) b' = take (sb_index sb) b)
    \<and> take (length (ex_bytes w)) (drop (sb_index sb) b') = ex_bytes w"
proof -
  let ?n = "case w of WBytes bs \<Rightarrow> size_t (sb_index sb + length bs) | WValue n v \<Rightarrow> n"
  have n: "length (ex_bytes w) \<le> ?n" "sb_index sb + ?n < 2 ^ 63" "0 < sb_index sb + ?n" using assms(2,3) by (cases w; simp)+
  obtain s where s: "ensureRemainingSize env ?n sb = Inr s" "buf_ok s" "sb_index sb + ?n \<le> sb_size s"
      "sb_index s = sb_index sb" "sb_watermark s = sb_watermark sb" "\<forall>b. sb_buf sb = Some b \<longrightarrow> (\<exists>c. sb_buf s = Some (b @ c))"
    using ensureRemainingSize_ok [OF assms(1) n(2) assms(4)] by blast
  obtain b where b: "sb_buf s = Some b" "sb_size s = length b"
    using s(2,3) n(3) by (cases "sb_buf s") (auto simp: buf_ok_def)
  have fits: "sb_index s + length (ex_bytes w) \<le> length b" using n(1) s(3,4) b(2) by simp
  have old: "take (sb_index sb) b = take (sb_index sb) c" if "sb_buf sb = Some c" for c
    using s(6) that b(1) assms(1) by (auto simp: buf_ok_def)
  let ?b' = "overwrite (sb_index sb) (ex_bytes w) b"
  let ?s' = "s\<lparr>sb_buf := Some ?b', sb_index := sb_index sb + length (ex_bytes w),
    sb_watermark := max (sb_watermark sb) (sb_index sb + length (ex_bytes w))\<rparr>"
  have "do_write env w sb = Inr ?s'" "buf_ok ?s'"
    using do_write_ensure [of env w sb] s(1) buf_add_ok [OF b(1) s(2) fits] buf_ok_add [OF b(1) s(2) fits] s(4,5) by simp_all
  moreover have "take (sb_index sb) ?b' = take (sb_index sb) b" "take (length (ex_bytes w)) (drop (sb_index sb) ?b') = ex_bytes w"
    using fits s(4) by (simp_all add: take_overwrite slice_overwrite)
  ultimately show ?thesis using old by (intro exI [of _ ?s'] exI [of _ ?b']) simp
qed

lemma writes_ok:
  assumes "buf_ok sb" "2 * (sb_index sb + length (concat (map ex_bytes ws))) < 2 ^ 63" "list_all (\<lambda>w. ex_bytes w \<noteq> []) ws"
    and "\<And>k. k < 2 ^ 63 \<Longrightarrow> al_ok env k"
    and "sb_buf sb = Some b \<or> sb_index sb = 0 \<and> b = []" "sb_watermark sb = sb_index sb"
  shows "\<exists>sb' b'. foldR (do_write env) ws sb = Inr sb' \<and> buf_ok sb'
    \<and> sb_index sb' = sb_index sb + length (concat (map ex_bytes ws)) \<and> sb_watermark sb' = sb_index sb'
    \<and> (sb_buf sb' = Some b' \<or> sb_index sb' = 0 \<and> b' = [])
    \<and> take (sb_index sb') b' = take (sb_index sb) b @ concat (map ex_bytes ws)"
  using assms
proof (induction ws arbitrary: sb b)
  case Nil
  then show ?case by (cases "sb_buf sb = Some b") auto
next
  case (Cons w ws)
  let ?n = "length (ex_bytes w)"
  have n: "0 < ?n" using Cons.prems(3) by simp
  obtain s c where s: "do_write env w sb = Inr s" "buf_ok s" "sb_index s = sb_index sb + ?n"
      "sb_watermark s = max (sb_watermark sb) (sb_index s)" "sb_buf s = Some c"
      "\<forall>d. sb_buf sb = Some d \<longrightarrow> take (sb_index sb) c = take (sb_index sb) d"
      "take ?n (drop (sb_index sb) c) = ex_bytes w"
    using do_write_ok [OF Cons.prems(1) _ _ Cons.prems(4), of w] n Cons.prems(2) by fastforce
  have pre: "take (sb_index sb) c = take (sb_index sb) b" using Cons.prems(5) s(6) by auto
  have "take (sb_index s) c = take (sb_index sb) b @ ex_bytes w" by (simp add: s(3) take_add pre s(7))
  moreover have "\<exists>sb' b'. foldR (do_write env) ws s = Inr sb' \<and> buf_ok sb'
    \<and> sb_index sb' = sb_index s + length (concat (map ex_bytes ws)) \<and> sb_watermark sb' = sb_index sb'
    \<and> (sb_buf sb' = Some b' \<or> sb_index sb' = 0 \<and> b' = [])
    \<and> take (sb_index sb') b' = take (sb_index s) c @ concat (map ex_bytes ws)"
    using Cons.prems s by (intro Cons.IH) simp_all
  ultimately show ?case using s(1,3) by (simp add: add.assoc)
qed

fun read_values :: "nat list \<Rightarrow> smart_buffer \<Rightarrow> (nat list \<times> smart_buffer) bres" where
  "read_values [] sb = Inr ([], sb)"
| "read_values (n # ns) sb =
     bindR (getValueAndIncIndex n sb) (\<lambda>(v, sb). bindR (read_values ns sb) (\<lambda>(vs, sb). Inr (v # vs, sb)))"

lemma getValue_here:
  assumes "sb_buf sb = Some (p @ le_bytes n v @ r)" "sb_index sb = length p" "length (p @ le_bytes n v @ r) < 2 ^ 64"
  shows "getValueAndIncIndex n sb = Inr (v mod 256 ^ n, sb\<lparr>sb_index := length p + n\<rparr>)"
  using assms by (simp add: getValueAndIncIndex_def read_at_def)

lemma read_values_here:
  assumes "sb_buf sb = Some (p @ concat (map (\<lambda>(n, v). le_bytes n v) ws) @ r)" "sb_index sb = length p"
    "length (p @ concat (map (\<lambda>(n, v). le_bytes n v) ws) @ r) < 2 ^ 64"
  shows "read_values (map fst ws) sb
    = Inr (map (\<lambda>(n, v). v mod 256 ^ n) ws, sb\<lparr>sb_index := length (p @ concat (map (\<lambda>(n, v). le_bytes n v) ws))\<rparr>)"
  using assms
proof (induction ws arbitrary: p sb)
  case (Cons w ws)
  obtain n v where w: "w = (n, v)" by (cases w)
  let ?r = "concat (map (\<lambda>(n, v). le_bytes n v) ws) @ r"
  have step: "getValueAndIncIndex n sb = Inr (v mod 256 ^ n, sb\<lparr>sb_index := length p + n\<rparr>)"
    using Cons.prems by (intro getValue_here [where r = ?r]) (simp_all add: w)
  show ?case using Cons.IH [of "sb\<lparr>sb_index := length p + n\<rparr>" "p @ le_bytes n v"] Cons.prems by (simp add: w step add.assoc)
qed simp

text \<open>
  C23. Values that are written one after the other into a new buffer with the growing writes are read back
  in order, each modulo the width of its type, as long as the memory can be had; no access leaves the
  memory, and position and watermark end at the total length.
\<close>

theorem buffer_roundtrip:
  assumes "list_all (\<lambda>(n, v). 0 < n) ws" and "2 * sum_list (map fst ws) < 2 ^ 63" and "\<forall>k < 2 ^ 63. al_ok env k"
  shows "\<exists>sb. foldR (\<lambda>(n, v). addExTemplate env n v) ws mk_buffer = Inr sb \<and> buf_ok sb
    \<and> sb_index sb = sum_list (map fst ws) \<and> sb_watermark sb = sum_list (map fst ws)
    \<and> (ws \<noteq> [] \<longrightarrow> read_values (map fst ws) (resetIndex sb) = Inr (map (\<lambda>(n, v). v mod 256 ^ n) ws, sb))"
proof -
  let ?ws = "map (\<lambda>(n, v). WValue n v) ws"
  have bytes: "map ex_bytes ?ws = map (\<lambda>(n, v). le_bytes n v) ws" by (auto simp: comp_def split_beta)
  have len: "length (concat (map (\<lambda>(n, v). le_bytes n v) ws)) = sum_list (map fst ws)"
    by (simp add: length_concat comp_def split_beta)
  have fold: "foldR (do_write env) ?ws sb = foldR (\<lambda>(n, v). addExTemplate env n v) ws sb" for sb
    by (induction ws arbitrary: sb) (auto intro!: bindR_cong)
  have ne: "list_all (\<lambda>w. ex_bytes w \<noteq> []) ?ws"
    using assms(1) by (auto simp: list_all_iff)
  have start: "\<exists>sb b. foldR (do_write env) ?ws mk_buffer = Inr sb \<and> buf_ok sb
      \<and> sb_index sb = sum_list (map fst ws) \<and> sb_watermark sb = sb_index sb
      \<and> (sb_buf sb = Some b \<or> sb_index sb = 0 \<and> b = []) \<and> take (sb_index sb) b = concat (map (\<lambda>(n, v). le_bytes n v) ws)"
    using writes_ok [of mk_buffer ?ws env "[]", unfolded bytes len, OF _ _ ne] assms(2,3)
    by (simp add: mk_buffer_def buf_ok_def)
  obtain sb b where sb: "foldR (do_write env) ?ws mk_buffer = Inr sb" "buf_ok sb"
      "sb_index sb = sum_list (map fst ws)" "sb_watermark sb = sb_index sb"
      "sb_buf sb = Some b \<or> sb_index sb = 0 \<and> b = []" "take (sb_index sb) b = concat (map (\<lambda>(n, v). le_bytes n v) ws)"
    using start by blast
  have "read_values (map fst ws) (resetIndex sb) = Inr (map (\<lambda>(n, v). v mod 256 ^ n) ws, sb)" if "ws \<noteq> []"
  proof -
    have "0 < sb_index sb" using that assms(1) sb(3) by (cases ws) auto
    then have b: "sb_buf sb = Some (concat (map (\<lambda>(n, v). le_bytes n v) ws) @ drop (sb_index sb) b)"
      using sb(5,6) append_take_drop_id [of "sb_index sb" b] by simp
    have "length (concat (map (\<lambda>(n, v). le_bytes n v) ws) @ drop (sb_index sb) b) < 2 ^ 64"
      using sb(2) b by (simp add: buf_ok_def)
    then show ?thesis
      using read_values_here [of "resetIndex sb" "[]" ws] b sb(3) by (simp add: resetIndex_def len)
  qed
  then show ?thesis using sb fold by auto
qed

theorem buffer_roundtrip_witness:
  "\<exists>sb. foldR (\<lambda>(n, v). addExTemplate \<lparr>al_ok = \<lambda>_. True, al_byte = \<lambda>_. 0\<rparr> n v) [(2, 258), (4, 7)] mk_buffer = Inr sb
    \<and> read_values [2, 4] (resetIndex sb) = Inr ([258, 7], sb)"
  using buffer_roundtrip [of "[(2, 258), (4, 7)]" "\<lparr>al_ok = \<lambda>_. True, al_byte = \<lambda>_. 0\<rparr>"] by auto

text \<open>A copy has the contents, but starts with the position and the watermark at zero.\<close>

lemma sb_copy_resets:
  assumes "sb_buf rhs = Some b" "buf_ok rhs" "al_ok env (sb_size rhs)"
  shows "sb_copy env rhs = Inr (rhs\<lparr>sb_index := 0, sb_watermark := 0\<rparr>)"
  using assms by (simp add: sb_copy_def sb_alloc_def buf_ok_def read_at_def write_at_def overwrite_def
      resetIndexDeep_def resetIndex_def)

end
