(* ===== verification/Named_Pipe.thy ===== *)
theory Named_Pipe
  imports Smart_Buffer
begin

text \<open>
  Pipes between the server and the processes of resident actions (src/server/common/NamedPipe.cc): a queue
  of buffers to write, and one read request at a time. What the channel of GLib answers to a read or a
  write, the status and the number of bytes, is an argument; a watch and a timer are flags that tell
  whether the event source exists. Opening the FIFO is not modelled.
\<close>

section \<open>The model\<close>

record 'k named_pipe =
  np_writer :: bool
  np_writeBufs :: "smart_buffer list"
  np_watch :: bool
  np_pullCb :: "'k option"
  np_pullBuf :: smart_buffer
  np_request :: nat
  np_remaining :: nat
  np_timeoutSet :: bool
  np_timer :: bool

definition mk_pipe :: "bool \<Rightarrow> 'k named_pipe" where
  "mk_pipe writer = \<lparr>np_writer = writer, np_writeBufs = [], np_watch = False, np_pullCb = None,
     np_pullBuf = mk_buffer, np_request = 0, np_remaining = 0, np_timeoutSet = False, np_timer = False\<rparr>"

definition setTimeoutIfNeeded :: "'k named_pipe \<Rightarrow> 'k named_pipe" where
  "setTimeoutIfNeeded p = (if \<not> np_timeoutSet p then p else if np_timer p then p else p\<lparr>np_timer := True\<rparr>)"

definition removeTimeout :: "'k named_pipe \<Rightarrow> 'k named_pipe" where
  "removeTimeout p = p\<lparr>np_timer := False\<rparr>"

text \<open>\<open>setTimeout\<close> with a callback; the tag of a former timer is kept though its source is removed.\<close>

definition np_setTimeout :: "nat \<Rightarrow> 'k named_pipe \<Rightarrow> 'k named_pipe" where
  "np_setTimeout timeout p = (if timeout = 0 then p else p\<lparr>np_timeoutSet := True\<rparr>)"

definition enableWriteCbIfNeeded :: "'k named_pipe \<Rightarrow> 'k named_pipe" where
  "enableWriteCbIfNeeded p = (if np_watch p then p else p\<lparr>np_watch := True\<rparr>)"

text \<open>\<open>push\<close> takes the contents; the caller keeps an empty buffer.\<close>

definition push :: "smart_buffer \<Rightarrow> 'k named_pipe \<Rightarrow> (smart_buffer \<times> 'k named_pipe) bres" where
  "push buf p =
     (if \<not> np_writer p then Inl BufAssert
      else
        let (taken, left) = handOver (resetIndex buf);
            p = p\<lparr>np_writeBufs := np_writeBufs p @ [taken]\<rparr>
        in Inr (left, setTimeoutIfNeeded (enableWriteCbIfNeeded p)))"

record gio_write =
  gw_ok :: bool
  gw_bytes :: nat
  gw_flushed :: bool

text \<open>The result, whether all was written, the bytes that the channel took, and the buffer.\<close>

definition writeBuf :: "gio_write \<Rightarrow> smart_buffer \<Rightarrow> (bool \<times> bool \<times> u8 list \<times> smart_buffer) bres" where
  "writeBuf w buf =
     (let count = sb_watermark buf - sb_index buf in
      bindR (read_at (sb_index buf) (gw_bytes w) buf) (\<lambda>out.
        if \<not> gw_ok w then Inr (False, False, out, buf)
        else if \<not> gw_flushed w then Inr (False, False, out, buf)
        else Inr (True, gw_bytes w = count, out, incIndex (gw_bytes w) buf)))"

text \<open>The loop of \<open>writeCb\<close>; each round asks the channel once and goes on when the buffer is written.\<close>

fun writeCb_loop ::
  "(nat \<Rightarrow> gio_write) \<Rightarrow> nat \<Rightarrow> smart_buffer list \<Rightarrow> 'k named_pipe \<Rightarrow> (u8 list \<times> bool \<times> 'k named_pipe) bres" where
  "writeCb_loop answers k [] p = Inr ([], False, p\<lparr>np_writeBufs := []\<rparr>)"
| "writeCb_loop answers k (b # bs) p =
     bindR (writeBuf (answers k) b) (\<lambda>(ok, fullyWritten, out, b).
       if \<not> ok then Inr (out, False, p\<lparr>np_writeBufs := b # bs\<rparr>)
       else if fullyWritten then
         bindR (writeCb_loop answers (k + 1) bs (removeTimeout p)) (\<lambda>(rest, continue, p). Inr (out @ rest, continue, p))
       else Inr (out, True, setTimeoutIfNeeded (p\<lparr>np_watch := True, np_writeBufs := b # bs\<rparr>)))"

definition writeCb :: "(nat \<Rightarrow> gio_write) \<Rightarrow> 'k named_pipe \<Rightarrow> (u8 list \<times> bool \<times> 'k named_pipe) bres" where
  "writeCb answers p = writeCb_loop answers 0 (np_writeBufs p) (p\<lparr>np_watch := False\<rparr>)"

definition pull :: "alloc_env \<Rightarrow> nat \<Rightarrow> 'k \<Rightarrow> 'k named_pipe \<Rightarrow> 'k named_pipe bres" where
  "pull env sz callback p =
     (if np_pullCb p \<noteq> None then Inl BufAssert
      else bindR (ensureRemainingSize env sz (np_pullBuf p)) (\<lambda>buf.
        Inr (setTimeoutIfNeeded (p\<lparr>np_request := sz, np_remaining := sz, np_pullCb := Some callback,
          np_pullBuf := resetIndex buf, np_watch := True\<rparr>))))"

text \<open>
  \<open>readCb\<close> with the status and the bytes that the channel delivers. It returns the callback to run, with
  the status, and whether the watch stays.
\<close>

definition readCb ::
  "bool \<Rightarrow> u8 list \<Rightarrow> 'k named_pipe \<Rightarrow> (('k \<times> bool) option \<times> bool \<times> 'k named_pipe) bres" where
  "readCb statOk chunk p =
     (case np_pullCb p of
        None \<Rightarrow> Inl BufAssert
      | Some callback \<Rightarrow>
          bindR (write_at (sb_index (np_pullBuf p)) chunk (np_pullBuf p)) (\<lambda>buf.
            let p = p\<lparr>np_pullBuf := buf\<rparr> in
            if \<not> statOk then
              Inr (Some (callback, False), False,
                (removeTimeout p)\<lparr>np_pullBuf := resetIndex (np_pullBuf p), np_watch := False\<rparr>)
            else
              let p = p\<lparr>np_remaining := np_remaining p - length chunk\<rparr> in
              if np_remaining p = 0 then
                Inr (Some (callback, True), False,
                  p\<lparr>np_watch := False, np_pullCb := None, np_pullBuf := resetIndex (np_pullBuf p)\<rparr>)
              else Inr (None, True, p)))"

section \<open>Writing keeps the order\<close>

text \<open>The bytes of a buffer that are still to be written.\<close>

definition pending :: "smart_buffer \<Rightarrow> u8 list" where
  "pending sb = (case sb_buf sb of None \<Rightarrow> [] | Some b \<Rightarrow> drop (sb_index sb) (take (sb_watermark sb) b))"

definition writable :: "smart_buffer \<Rightarrow> bool" where
  "writable sb \<longleftrightarrow> buf_ok sb \<and> sb_buf sb \<noteq> None \<and> sb_index sb \<le> sb_watermark sb"

text \<open>What the channel promises: no error, and no more bytes than it was offered.\<close>

definition channel_ok :: "(nat \<Rightarrow> gio_write) \<Rightarrow> smart_buffer list \<Rightarrow> bool" where
  "channel_ok answers bs \<longleftrightarrow> (\<forall>k < length bs.
     gw_ok (answers k) \<and> gw_flushed (answers k) \<and> gw_bytes (answers k) \<le> length (pending (bs ! k)))"

lemma pending_resetIndex:
  "sb_buf buf = Some b \<Longrightarrow> pending (resetIndex buf) = take (sb_watermark buf) b"
  by (simp add: pending_def resetIndex_def)

lemma writeBuf_ok:
  assumes "writable b" "gw_ok w" "gw_flushed w" "gw_bytes w \<le> length (pending b)"
  shows "\<exists>b'. writeBuf w b = Inr (True, gw_bytes w = length (pending b), take (gw_bytes w) (pending b), b')
    \<and> writable b' \<and> pending b' = drop (gw_bytes w) (pending b)"
proof -
  obtain d where d: "sb_buf b = Some d" "sb_size b = length d" "sb_watermark b \<le> length d" "length d < 2 ^ 63"
      "sb_index b \<le> sb_watermark b"
    using assms(1) by (auto simp: writable_def buf_ok_def)
  have len: "length (pending b) = sb_watermark b - sb_index b" using d by (simp add: pending_def)
  have out: "take (gw_bytes w) (drop (sb_index b) d) = take (gw_bytes w) (pending b)"
    using assms(4) d len by (simp add: pending_def drop_take min_absorb1)
  have inc: "incIndex (gw_bytes w) b = b\<lparr>sb_index := sb_index b + gw_bytes w\<rparr>"
    using assms(4) d len by (simp add: incIndex_def setWatermarkIfNeeded_def Let_def)
  have "writeBuf w b = Inr (True, gw_bytes w = length (pending b), take (gw_bytes w) (pending b), b\<lparr>sb_index := sb_index b + gw_bytes w\<rparr>)"
    using assms d len out inc by (simp add: writeBuf_def read_at_def)
  moreover have "writable (b\<lparr>sb_index := sb_index b + gw_bytes w\<rparr>)"
    using assms(4) d len by (auto simp: writable_def buf_ok_def)
  moreover have "pending (b\<lparr>sb_index := sb_index b + gw_bytes w\<rparr>) = drop (gw_bytes w) (pending b)"
    using d by (simp add: pending_def add.commute)
  ultimately show ?thesis by blast
qed

lemma writeCb_loop_ok:
  assumes "list_all writable bs"
    and "\<And>i. i < length bs \<Longrightarrow> gw_ok (answers (k + i)) \<and> gw_flushed (answers (k + i))
      \<and> gw_bytes (answers (k + i)) \<le> length (pending (bs ! i))"
  shows "\<exists>out cont p'. writeCb_loop answers k bs p = Inr (out, cont, p') \<and> list_all writable (np_writeBufs p')
    \<and> out @ concat (map pending (np_writeBufs p')) = concat (map pending bs)
    \<and> (cont \<longleftrightarrow> np_writeBufs p' \<noteq> []) \<and> (cont \<longrightarrow> np_watch p') \<and> np_writer p' = np_writer p"
  using assms
proof (induction bs arbitrary: k p)
  case (Cons b bs)
  let ?w = "answers k"
  obtain b' where b': "writeBuf ?w b = Inr (True, gw_bytes ?w = length (pending b), take (gw_bytes ?w) (pending b), b')"
      "writable b'" "pending b' = drop (gw_bytes ?w) (pending b)"
    using writeBuf_ok [of b ?w] Cons.prems(1) Cons.prems(2) [of 0] by auto
  show ?case
  proof (cases "gw_bytes ?w = length (pending b)")
    case True
    obtain out cont p' where IH: "writeCb_loop answers (k + 1) bs (removeTimeout p) = Inr (out, cont, p')"
        "list_all writable (np_writeBufs p')" "out @ concat (map pending (np_writeBufs p')) = concat (map pending bs)"
        "cont \<longleftrightarrow> np_writeBufs p' \<noteq> []" "cont \<longrightarrow> np_watch p'" "np_writer p' = np_writer p"
      using Cons.IH [of "k + 1" "removeTimeout p"] Cons.prems(1) Cons.prems(2) [of "Suc _"]
      by (auto simp: removeTimeout_def)
    then show ?thesis using b' True by simp
  next
    case False
    then show ?thesis using b' Cons.prems(1) by (simp add: setTimeoutIfNeeded_def append_assoc [symmetric])
  qed
qed auto

text \<open>The life of a writing end: the bytes the channel took so far, and the contents that were pushed.\<close>

inductive pipe_run :: "'k named_pipe \<Rightarrow> u8 list \<Rightarrow> u8 list \<Rightarrow> bool" where
  start: "pipe_run (mk_pipe True) [] []"
| push: "pipe_run p out msgs \<Longrightarrow> buf_ok buf \<Longrightarrow> sb_buf buf = Some b \<Longrightarrow> push buf p = Inr (left, p')
    \<Longrightarrow> pipe_run p' out (msgs @ take (sb_watermark buf) b)"
| written: "pipe_run p out msgs \<Longrightarrow> channel_ok answers (np_writeBufs p) \<Longrightarrow> writeCb answers p = Inr (sent, c, p')
    \<Longrightarrow> pipe_run p' (out @ sent) msgs"

lemma pipe_run_fifo:
  "pipe_run p out msgs \<Longrightarrow> np_writer p \<and> list_all writable (np_writeBufs p)
    \<and> out @ concat (map pending (np_writeBufs p)) = msgs \<and> (np_writeBufs p \<noteq> [] \<longrightarrow> np_watch p)"
proof (induction rule: pipe_run.induct)
  case start show ?case by (simp add: mk_pipe_def)
next
  case (push p out msgs buf b left p')
  then have p': "p' = setTimeoutIfNeeded (enableWriteCbIfNeeded (p\<lparr>np_writeBufs := np_writeBufs p @ [resetIndex buf]\<rparr>))"
    by (auto simp: push_def handOver_def)
  have "writable (resetIndex buf)" using push.hyps by (simp add: writable_def buf_ok_def resetIndex_def)
  then show ?case using push.IH pending_resetIndex [OF push.hyps(3)]
    by (auto simp: p' setTimeoutIfNeeded_def enableWriteCbIfNeeded_def)
next
  case (written p out msgs answers sent c p')
  obtain out' cont p'' where w: "writeCb answers p = Inr (out', cont, p'')" "list_all writable (np_writeBufs p'')"
      "out' @ concat (map pending (np_writeBufs p'')) = concat (map pending (np_writeBufs p))"
      "cont \<longleftrightarrow> np_writeBufs p'' \<noteq> []" "cont \<longrightarrow> np_watch p''" "np_writer p'' = np_writer p"
    using writeCb_loop_ok [of "np_writeBufs p" answers 0 "p\<lparr>np_watch := False\<rparr>"] written.IH written.hyps(2)
    by (auto simp: writeCb_def channel_ok_def)
  then show ?case using written.IH written.hyps(3) by auto
qed

text \<open>
  C24. Whatever chunks the channel takes, the bytes that left a writing end are a prefix of the contents that
  were pushed, in order, without loss or repetition; the rest is in the queue, and while there is a rest
  the channel is watched. Every callback runs to its end without an invalid access.
\<close>

theorem pipe_writes_in_order:
  assumes "pipe_run p out msgs"
  shows "out @ concat (map pending (np_writeBufs p)) = msgs \<and> (np_writeBufs p \<noteq> [] \<longrightarrow> np_watch p)
    \<and> (channel_ok answers (np_writeBufs p) \<longrightarrow>
        (\<exists>out' c p'. writeCb answers p = Inr (out', c, p') \<and> (c \<longleftrightarrow> np_writeBufs p' \<noteq> [])))"
  using pipe_run_fifo [OF assms] writeCb_loop_ok [of "np_writeBufs p" answers 0 "p\<lparr>np_watch := False\<rparr>"]
  by (auto simp: writeCb_def channel_ok_def)

definition ex_message :: smart_buffer where
  "ex_message = \<lparr>sb_index = 3, sb_buf = Some [1, 2, 3, 0], sb_size = 4, sb_watermark = 3\<rparr>"

theorem pipe_writes_in_order_witness:
  "\<exists>p. push ex_message (mk_pipe True :: unit named_pipe) = Inr (mk_buffer, p)
    \<and> [] @ concat (map pending (np_writeBufs p)) = [1, 2, 3]"
proof -
  obtain p :: "unit named_pipe" where p: "push ex_message (mk_pipe True) = Inr (mk_buffer, p)"
    by (simp add: push_def mk_pipe_def handOver_def resetIndexDeep_def resetIndex_def mk_buffer_def ex_message_def)
  have "pipe_run p [] ([] @ take (sb_watermark ex_message) [1, 2, 3, 0])"
    by (rule pipe_run.push [OF pipe_run.start _ _ p]) (simp_all add: ex_message_def buf_ok_def)
  from pipe_writes_in_order [OF this] p show ?thesis by (auto simp: ex_message_def)
qed

section \<open>Reading\<close>

text \<open>A request, and the chunks that answer it one after the other.\<close>

fun read_chunks :: "u8 list list \<Rightarrow> 'k named_pipe \<Rightarrow> (('k \<times> bool) option \<times> 'k named_pipe) bres" where
  "read_chunks [] p = Inr (None, p)"
| "read_chunks (c # cs) p =
     bindR (readCb True c p) (\<lambda>(cb, cont, p). if cont then read_chunks cs p else Inr (cb, p))"

lemma pull_ok:
  assumes "np_pullCb p = None" "buf_ok (np_pullBuf p)" "sb_index (np_pullBuf p) + n < 2 ^ 63" "0 < n"
    and "\<forall>k < 2 ^ 63. al_ok env k"
  shows "\<exists>p' b. pull env n k p = Inr p' \<and> np_pullCb p' = Some k \<and> np_request p' = n \<and> np_remaining p' = n
    \<and> buf_ok (np_pullBuf p') \<and> sb_index (np_pullBuf p') = 0 \<and> sb_buf (np_pullBuf p') = Some b \<and> n \<le> length b
    \<and> np_watch p' \<and> np_timeoutSet p' = np_timeoutSet p \<and> (np_timeoutSet p \<longrightarrow> np_timer p')"
proof -
  obtain buf where buf: "ensureRemainingSize env n (np_pullBuf p) = Inr buf" "buf_ok buf" "sb_index (np_pullBuf p) + n \<le> sb_size buf"
    using ensureRemainingSize_ok [OF assms(2,3)] assms(5) by blast
  obtain b where "sb_buf buf = Some b" "n \<le> length b"
    using buf(2,3) assms(4) by (cases "sb_buf buf") (auto simp: buf_ok_def)
  then show ?thesis using buf assms(1)
    by (auto simp: pull_def resetIndex_def buf_ok_def setTimeoutIfNeeded_def)
qed

text \<open>What is in the buffer when the callback runs: every chunk was written to its start.\<close>

fun layers :: "u8 list list \<Rightarrow> u8 list \<Rightarrow> u8 list" where
  "layers [] b = b"
| "layers (c # cs) b = layers cs (overwrite 0 c b)"

lemma read_chunks_layers:
  assumes "np_pullCb p = Some k" "sb_buf (np_pullBuf p) = Some b" "sb_index (np_pullBuf p) = 0"
    and "cs \<noteq> []" "list_all (\<lambda>c. c \<noteq> []) cs" "length (concat cs) = np_remaining p" "np_remaining p \<le> length b"
  shows "\<exists>p'. read_chunks cs p = Inr (Some (k, True), p') \<and> np_pullCb p' = None
    \<and> sb_buf (np_pullBuf p') = Some (layers cs b) \<and> sb_index (np_pullBuf p') = 0 \<and> np_timer p' = np_timer p"
  using assms
proof (induction cs arbitrary: p b)
  case (Cons c cs)
  have le: "length c \<le> length b" using Cons.prems(6,7) by simp
  have stored: "write_at (sb_index (np_pullBuf p)) c (np_pullBuf p) = Inr ((np_pullBuf p)\<lparr>sb_buf := Some (overwrite 0 c b)\<rparr>)"
    using Cons.prems(2,3) le by (simp add: write_at_def)
  show ?case
  proof (cases "cs = []")
    case True
    then show ?thesis using Cons.prems stored by (auto simp: readCb_def resetIndex_def)
  next
    case False
    let ?p = "p\<lparr>np_pullBuf := (np_pullBuf p)\<lparr>sb_buf := Some (overwrite 0 c b)\<rparr>, np_remaining := np_remaining p - length c\<rparr>"
    have "0 < length (concat cs)" using False Cons.prems(5) by (cases cs) auto
    then have "np_remaining p - length c \<noteq> 0" using Cons.prems(6) unfolding concat.simps length_append by linarith
    then have "readCb True c p = Inr (None, True, ?p)" using Cons.prems stored by (simp add: readCb_def)
    moreover have "\<exists>p'. read_chunks cs ?p = Inr (Some (k, True), p') \<and> np_pullCb p' = None
        \<and> sb_buf (np_pullBuf p') = Some (layers cs (overwrite 0 c b)) \<and> sb_index (np_pullBuf p') = 0 \<and> np_timer p' = np_timer ?p"
      using Cons.prems False le by (intro Cons.IH) auto
    ultimately show ?thesis by simp
  qed
qed simp

lemma layers_single: "length c \<le> length b \<Longrightarrow> take (length c) (layers [c] b) = c"
  by (simp add: overwrite_def)

lemma layers_two:
  "length c + length d \<le> length b \<Longrightarrow> length d \<le> length c
    \<Longrightarrow> take (length c) (layers [c, d] b) = d @ drop (length d) c"
  by (simp add: overwrite_def)

text \<open>
  A request that the channel answers with one chunk hands that chunk to the callback, with the position
  at its start. Answered with two, the second is written over the first: the callback gets the second chunk
  in the place of the first bytes. In both cases a timer that the request started keeps running when the
  callback is called.
\<close>

lemma pipe_read_chunks:
  assumes "np_pullCb p = None" "buf_ok (np_pullBuf p)" "sb_index (np_pullBuf p) + n < 2 ^ 63"
    and "\<forall>k < 2 ^ 63. al_ok env k"
  shows "(length c = n \<and> c \<noteq> [] \<longrightarrow>
      (\<exists>p' p'' b. pull env n k p = Inr p' \<and> read_chunks [c] p' = Inr (Some (k, True), p'') \<and> sb_index (np_pullBuf p'') = 0
        \<and> sb_buf (np_pullBuf p'') = Some b \<and> take n b = c \<and> (np_timeoutSet p \<longrightarrow> np_timer p'')))
    \<and> (length c + length d = n \<and> d \<noteq> [] \<and> length d \<le> length c \<longrightarrow>
      (\<exists>p' p'' b. pull env n k p = Inr p' \<and> read_chunks [c, d] p' = Inr (Some (k, True), p'') \<and> sb_index (np_pullBuf p'') = 0
        \<and> sb_buf (np_pullBuf p'') = Some b \<and> take (length c) b = d @ drop (length d) c \<and> (np_timeoutSet p \<longrightarrow> np_timer p'')))"
proof -
  have served: "\<exists>p' p'' b. pull env n k p = Inr p' \<and> read_chunks cs p' = Inr (Some (k, True), p'') \<and> sb_index (np_pullBuf p'') = 0
      \<and> sb_buf (np_pullBuf p'') = Some (layers cs b) \<and> n \<le> length b \<and> (np_timeoutSet p \<longrightarrow> np_timer p'')"
    if cs: "cs \<noteq> []" "list_all (\<lambda>c. c \<noteq> []) cs" "length (concat cs) = n" for cs
  proof -
    have "0 < n" using cs by (cases cs) auto
    then obtain p' b where p': "pull env n k p = Inr p'" "np_pullCb p' = Some k" "np_remaining p' = n"
        "sb_index (np_pullBuf p') = 0" "sb_buf (np_pullBuf p') = Some b" "n \<le> length b" "np_timeoutSet p \<longrightarrow> np_timer p'"
      using pull_ok [OF assms(1-3) _ assms(4)] by blast
    then show ?thesis using read_chunks_layers [OF p'(2,5,4) cs(1,2)] cs(3) by auto
  qed
  show ?thesis
  proof (intro conjI impI)
    assume c: "length c = n \<and> c \<noteq> []"
    obtain p' p'' b where r: "pull env n k p = Inr p'" "read_chunks [c] p' = Inr (Some (k, True), p'')"
        "sb_index (np_pullBuf p'') = 0" "sb_buf (np_pullBuf p'') = Some (layers [c] b)" "n \<le> length b" "np_timeoutSet p \<longrightarrow> np_timer p''"
      using served [of "[c]"] c by auto
    then show "\<exists>p' p'' b. pull env n k p = Inr p' \<and> read_chunks [c] p' = Inr (Some (k, True), p'') \<and> sb_index (np_pullBuf p'') = 0
        \<and> sb_buf (np_pullBuf p'') = Some b \<and> take n b = c \<and> (np_timeoutSet p \<longrightarrow> np_timer p'')"
      using layers_single [of c b] c by (intro exI [of _ p'] exI [of _ p''] exI [of _ "layers [c] b"]) simp
  next
    assume c: "length c + length d = n \<and> d \<noteq> [] \<and> length d \<le> length c"
    then have "c \<noteq> []" by auto
    then obtain p' p'' b where r: "pull env n k p = Inr p'" "read_chunks [c, d] p' = Inr (Some (k, True), p'')"
        "sb_index (np_pullBuf p'') = 0" "sb_buf (np_pullBuf p'') = Some (layers [c, d] b)" "n \<le> length b" "np_timeoutSet p \<longrightarrow> np_timer p''"
      using served [of "[c, d]"] c by auto
    then show "\<exists>p' p'' b. pull env n k p = Inr p' \<and> read_chunks [c, d] p' = Inr (Some (k, True), p'') \<and> sb_index (np_pullBuf p'') = 0
        \<and> sb_buf (np_pullBuf p'') = Some b \<and> take (length c) b = d @ drop (length d) c \<and> (np_timeoutSet p \<longrightarrow> np_timer p'')"
      using layers_two [of c d b] c by (intro exI [of _ p'] exI [of _ p''] exI [of _ "layers [c, d] b"]) simp
  qed
qed

lemma pipe_read_chunks_witness:
  "\<exists>p' p'' b. pull \<lparr>al_ok = \<lambda>_. True, al_byte = \<lambda>_. 0\<rparr> 3 () (mk_pipe False) = Inr p'
    \<and> read_chunks [[1, 2], [3]] p' = Inr (Some ((), True), p'') \<and> sb_buf (np_pullBuf p'') = Some b \<and> take (length [1, 2 :: u8]) b = [3, 2]"
  using pipe_read_chunks [of "mk_pipe False :: unit named_pipe" 3 "\<lparr>al_ok = \<lambda>_. True, al_byte = \<lambda>_. 0\<rparr>" "[1, 2]" "()" "[3]"]
  by (auto simp: mk_pipe_def mk_buffer_def buf_ok_def)

end
