(* ===== verification/Resident_Proto.thy ===== *)
theory Resident_Proto
  imports Named_Pipe Action_Tables
begin

text \<open>
  The protocol between the server and the process of a resident action: the packets that
  \<open>ResidentCommunicator\<close> builds (src/server/src/ResidentCommunicator.cc, ResidentProtocol.h), how
  hatoholResidentYard.cc reads them, and how the callbacks of ActionManager.cc read the answers.
\<close>

section \<open>The model\<close>

datatype packet_type =
    RESIDENT_PROTO_PKT_TYPE_LAUNCHED
  | RESIDENT_PROTO_PKT_TYPE_MODULE_LOADED
  | RESIDENT_PROTO_PKT_TYPE_PARAMETERS
  | RESIDENT_PROTO_PKT_TYPE_NOTIFY_EVENT
  | RESIDENT_PROTO_PKT_TYPE_NOTIFY_EVENT_ACK

fun packet_code :: "packet_type \<Rightarrow> u16" where
  "packet_code RESIDENT_PROTO_PKT_TYPE_LAUNCHED = 0"
| "packet_code RESIDENT_PROTO_PKT_TYPE_MODULE_LOADED = 1"
| "packet_code RESIDENT_PROTO_PKT_TYPE_PARAMETERS = 2"
| "packet_code RESIDENT_PROTO_PKT_TYPE_NOTIFY_EVENT = 3"
| "packet_code RESIDENT_PROTO_PKT_TYPE_NOTIFY_EVENT_ACK = 4"

definition HATOHOL_SESSION_ID_LEN :: nat where
  "HATOHOL_SESSION_ID_LEN = 36"

definition RESIDENT_PROTO_HEADER_LEN :: nat where
  "RESIDENT_PROTO_HEADER_LEN = 4 + 2"

definition RESIDENT_PROTO_EVENT_BODY_BASE_LEN :: nat where
  "RESIDENT_PROTO_EVENT_BODY_BASE_LEN = 4 + 4 + 8 + 8 + 4 + 8 + 2 + 8 + 2 + 2 + HATOHOL_SESSION_ID_LEN"

lemmas proto_lens = HATOHOL_SESSION_ID_LEN_def RESIDENT_PROTO_HEADER_LEN_def RESIDENT_PROTO_EVENT_BODY_BASE_LEN_def

definition getBodySize :: "smart_buffer \<Rightarrow> (nat \<times> smart_buffer) bres" where
  "getBodySize sb =
     (if sb_size sb < RESIDENT_PROTO_HEADER_LEN then Inl BufAssert
      else let sb = resetIndex sb in bindR (read_at (sb_index sb) 4 sb) (\<lambda>bs. Inr (from_le bs, sb)))"

definition getPacketType :: "smart_buffer \<Rightarrow> (nat \<times> smart_buffer) bres" where
  "getPacketType sb =
     (if sb_size sb < RESIDENT_PROTO_HEADER_LEN then Inl BufAssert
      else let sb = incIndex 4 (resetIndex sb) in bindR (read_at (sb_index sb) 2 sb) (\<lambda>bs. Inr (from_le bs, sb)))"

definition setHeader :: "alloc_env \<Rightarrow> u32 \<Rightarrow> packet_type \<Rightarrow> smart_buffer \<Rightarrow> smart_buffer bres" where
  "setHeader env bodySize ty sb =
     bindR (ensureRemainingSize env (RESIDENT_PROTO_HEADER_LEN + unat bodySize) sb) (\<lambda>sb.
     bindR (add32 bodySize (resetIndexDeep sb)) (add16 (packet_code ty)))"

text \<open>\<open>addModulePath\<close> and \<open>addModuleOption\<close>; the length is cut to 16 bits.\<close>

definition addModuleString :: "string \<Rightarrow> smart_buffer \<Rightarrow> smart_buffer bres" where
  "addModuleString s sb =
     bindR (add16 (word_of_nat (length s)) sb) (\<lambda>sb.
     bindR (write_at (sb_index sb) (map byte_of s) sb) (\<lambda>sb. Inr (incIndex (length s) sb)))"

definition setModuleLoaded :: "alloc_env \<Rightarrow> u32 \<Rightarrow> smart_buffer \<Rightarrow> smart_buffer bres" where
  "setModuleLoaded env code sb = bindR (setHeader env 4 RESIDENT_PROTO_PKT_TYPE_MODULE_LOADED sb) (add32 code)"

definition setNotifyEventAck :: "alloc_env \<Rightarrow> u32 \<Rightarrow> smart_buffer \<Rightarrow> smart_buffer bres" where
  "setNotifyEventAck env resultCode sb =
     bindR (setHeader env 4 RESIDENT_PROTO_PKT_TYPE_NOTIFY_EVENT_ACK sb) (add32 resultCode)"

text \<open>\<open>add\<close> of the 36 characters of a session identifier reads behind the text when it is shorter.\<close>

definition addSessionId :: "string \<Rightarrow> smart_buffer \<Rightarrow> smart_buffer bres" where
  "addSessionId sessionId sb =
     (let src = map byte_of sessionId @ [0]
      in if length src < HATOHOL_SESSION_ID_LEN then Inl BufUndefined
         else buf_add (take HATOHOL_SESSION_ID_LEN src) sb)"

definition setNotifyEventBody :: "alloc_env \<Rightarrow> int \<Rightarrow> 'a event_info_scheme \<Rightarrow> string \<Rightarrow> smart_buffer \<Rightarrow> smart_buffer bres" where
  "setNotifyEventBody env actionId ev sessionId sb =
     (let bodySize = (word_of_nat (RESIDENT_PROTO_EVENT_BODY_BASE_LEN + (length (ev_hostIdInServer ev) + 1)
            + (length (ev_id ev) + 1) + (length (ev_triggerId ev) + 1)) :: u32);
          bodyIdx = RESIDENT_PROTO_HEADER_LEN + RESIDENT_PROTO_EVENT_BODY_BASE_LEN
      in bindR (setHeader env bodySize RESIDENT_PROTO_PKT_TYPE_NOTIFY_EVENT sb) (\<lambda>sb.
         bindR (add32 (word_of_int actionId) sb) (\<lambda>sb.
         bindR (add32 (word_of_int (ev_serverId ev)) sb) (\<lambda>sb.
         bindR (insertString (ev_hostIdInServer ev) bodyIdx sb) (\<lambda>(bodyIdx, sb).
         bindR (add64 (word_of_int (ev_time ev)) sb) (\<lambda>sb.
         bindR (add32 (word_of_int (ev_nsec ev)) sb) (\<lambda>sb.
         bindR (insertString (ev_id ev) bodyIdx sb) (\<lambda>(bodyIdx, sb).
         bindR (add16 (word_of_int (ev_type ev)) sb) (\<lambda>sb.
         bindR (insertString (ev_triggerId ev) bodyIdx sb) (\<lambda>(bodyIdx, sb).
         bindR (add16 (word_of_int (ev_status ev)) sb) (\<lambda>sb.
         bindR (add16 (word_of_int (ev_severity ev)) sb) (\<lambda>sb.
           addSessionId sessionId sb))))))))))))"

text \<open>What the process of a resident action gets.\<close>

record notify_arg =
  na_actionId :: nat
  na_serverId :: nat
  na_hostIdInServer :: string
  na_sec :: nat
  na_nsec :: nat
  na_eventId :: string
  na_eventType :: nat
  na_triggerId :: string
  na_triggerStatus :: nat
  na_triggerSeverity :: nat
  na_sessionId :: string

text \<open>The texts of the argument are C strings.\<close>

definition read_notify_arg :: "smart_buffer \<Rightarrow> (notify_arg \<times> smart_buffer) bres" where
  "read_notify_arg sb =
     bindR (getValueAndIncIndex 4 sb) (\<lambda>(actionId, sb).
     bindR (getValueAndIncIndex 4 sb) (\<lambda>(serverId, sb).
     bindR (extractStringAndIncIndex sb) (\<lambda>(hostIdInServer, sb).
     bindR (getValueAndIncIndex 8 sb) (\<lambda>(sec, sb).
     bindR (getValueAndIncIndex 4 sb) (\<lambda>(nsec, sb).
     bindR (extractStringAndIncIndex sb) (\<lambda>(eventId, sb).
     bindR (getValueAndIncIndex 2 sb) (\<lambda>(eventType, sb).
     bindR (extractStringAndIncIndex sb) (\<lambda>(triggerId, sb).
     bindR (getValueAndIncIndex 2 sb) (\<lambda>(triggerStatus, sb).
     bindR (getValueAndIncIndex 2 sb) (\<lambda>(triggerSeverity, sb).
     bindR (read_at (sb_index sb) HATOHOL_SESSION_ID_LEN sb) (\<lambda>sessionId.
       Inr (\<lparr>na_actionId = actionId, na_serverId = serverId, na_hostIdInServer = cstr hostIdInServer,
              na_sec = sec, na_nsec = nsec, na_eventId = cstr eventId, na_eventType = eventType,
              na_triggerId = cstr triggerId, na_triggerStatus = triggerStatus, na_triggerSeverity = triggerSeverity,
              na_sessionId = cstr (map char_of_byte sessionId)\<rparr>,
            incIndex HATOHOL_SESSION_ID_LEN sb))))))))))))"

text \<open>The handler of the body: the module runs, and its result goes back in an acknowledgement.\<close>

definition gotNotifyEventBodyCb ::
  "alloc_env \<Rightarrow> (notify_arg \<Rightarrow> u32) \<Rightarrow> smart_buffer \<Rightarrow> (notify_arg \<times> smart_buffer) bres" where
  "gotNotifyEventBodyCb env notifyEvent sb =
     bindR (read_notify_arg sb) (\<lambda>(arg, sb).
     bindR (setNotifyEventAck env (notifyEvent arg) mk_buffer) (\<lambda>ack. Inr (arg, ack)))"

text \<open>The header of an event: the size of the body to ask for, or \<open>None\<close> to quit.\<close>

definition eventCb :: "bool \<Rightarrow> smart_buffer \<Rightarrow> nat option bres" where
  "eventCb statOk sb =
     (if \<not> statOk then Inr None
      else bindR (getPacketType sb) (\<lambda>(pktType, sb).
        if pktType = unat (packet_code RESIDENT_PROTO_PKT_TYPE_NOTIFY_EVENT)
        then bindR (getBodySize sb) (\<lambda>(n, sb). Inr (Some n))
        else Inr None))"

text \<open>The parameters of a module, as the process reads them.\<close>

definition read_module_string :: "smart_buffer \<Rightarrow> (string \<times> smart_buffer) bres" where
  "read_module_string sb =
     bindR (getValueAndIncIndex 2 sb) (\<lambda>(len, sb).
     bindR (read_at (sb_index sb) len sb) (\<lambda>bs. Inr (map char_of_byte bs, incIndex len sb)))"

definition read_parameters :: "smart_buffer \<Rightarrow> (string \<times> string) bres" where
  "read_parameters sb =
     bindR (read_module_string sb) (\<lambda>(modulePath, sb).
     bindR (read_module_string sb) (\<lambda>(moduleOption, sb). Inr (modulePath, moduleOption)))"

definition sendParameters :: "alloc_env \<Rightarrow> string \<Rightarrow> string \<Rightarrow> smart_buffer bres" where
  "sendParameters env modulePath moduleOption =
     bindR (setHeader env (word_of_nat (2 + length modulePath + 2 + length moduleOption))
              RESIDENT_PROTO_PKT_TYPE_PARAMETERS mk_buffer) (\<lambda>sb.
     bindR (addModuleString modulePath sb) (addModuleString moduleOption))"

text \<open>The code that the process sends when it has loaded its module, and the failure the server logs.\<close>

definition module_loaded_failure :: "nat \<Rightarrow> int option" where
  "module_loaded_failure resultCode =
     (if resultCode = 0 then None
      else Some (case resultCode of Suc 0 \<Rightarrow> 2 | Suc (Suc 0) \<Rightarrow> 4 | Suc (Suc (Suc 0)) \<Rightarrow> 5
        | Suc (Suc (Suc (Suc 0))) \<Rightarrow> 6 | Suc (Suc (Suc (Suc (Suc 0)))) \<Rightarrow> 7 | _ \<Rightarrow> 8))"

text \<open>An answer that consists of a header and a 32 bit code.\<close>

definition read_answer :: "packet_type \<Rightarrow> smart_buffer \<Rightarrow> nat option bres" where
  "read_answer ty sb =
     bindR (getPacketType sb) (\<lambda>(pktType, sb).
       if pktType \<noteq> unat (packet_code ty) then Inr None
       else bindR (read_at (sb_index (incIndex RESIDENT_PROTO_HEADER_LEN (resetIndex sb))) 4 sb) (\<lambda>bs. Inr (Some (from_le bs))))"

section \<open>Building a packet\<close>

text \<open>
  A packet under construction: \<open>pre\<close> has been written from the front, \<open>bodies\<close> from the end of the fixed
  part of \<open>base\<close> bytes on; \<open>tot\<close> bytes are reserved for the bodies.
\<close>

definition packet :: "nat \<Rightarrow> nat \<Rightarrow> u8 list \<Rightarrow> u8 list \<Rightarrow> smart_buffer \<Rightarrow> bool" where
  "packet base tot pre bodies sb \<longleftrightarrow>
     (\<exists>j k. sb_buf sb = Some (pre @ j @ bodies @ k) \<and> length pre + length j = base \<and> length bodies + length k = tot)
     \<and> sb_index sb = length pre \<and> sb_size sb = base + tot \<and> base + tot < 2 ^ 31
     \<and> sb_watermark sb = (if bodies = [] then length pre else base + length bodies)"

lemma packetI:
  assumes "sb_buf sb = Some (pre @ j @ bodies @ k)" "length pre + length j = base" "length bodies + length k = tot"
    and "sb_index sb = length pre" "sb_size sb = base + tot" "base + tot < 2 ^ 31"
    and "sb_watermark sb = (if bodies = [] then length pre else base + length bodies)"
  shows "packet base tot pre bodies sb"
  unfolding packet_def using assms by blast

lemma packet_buf_ok: "packet base tot pre bodies sb \<Longrightarrow> buf_ok sb"
  by (auto simp: packet_def buf_ok_def)

lemma packet_add:
  assumes "packet base tot pre bodies sb" "length pre + length bs \<le> base"
  shows "\<exists>sb'. buf_add bs sb = Inr sb' \<and> packet base tot (pre @ bs) bodies sb'"
proof -
  obtain j k where jk: "sb_buf sb = Some (pre @ j @ bodies @ k)" "length pre + length j = base" "length bodies + length k = tot"
    using assms(1) by (auto simp: packet_def)
  have idx: "sb_index sb = length pre" using assms(1) by (simp add: packet_def)
  have "overwrite (sb_index sb) bs (pre @ j @ bodies @ k) = (pre @ bs) @ drop (length bs) j @ bodies @ k"
    using assms(2) jk(2) idx by (simp add: overwrite_def)
  then have add: "buf_add bs sb = Inr (sb\<lparr>sb_buf := Some ((pre @ bs) @ drop (length bs) j @ bodies @ k),
      sb_index := length (pre @ bs), sb_watermark := max (sb_watermark sb) (length (pre @ bs))\<rparr>)"
    using buf_add_ok [OF jk(1) packet_buf_ok [OF assms(1)], of bs] assms(2) jk idx by simp
  have "packet base tot (pre @ bs) bodies (sb\<lparr>sb_buf := Some ((pre @ bs) @ drop (length bs) j @ bodies @ k),
      sb_index := length (pre @ bs), sb_watermark := max (sb_watermark sb) (length (pre @ bs))\<rparr>)"
    using assms jk by (intro packetI [of _ _ "drop (length bs) j" _ k]) (auto simp: packet_def)
  with add show ?thesis by blast
qed

definition string_header :: "nat \<Rightarrow> nat \<Rightarrow> u8 list" where
  "string_header len offset = le_bytes 4 len @ le_bytes 4 offset"

definition string_body :: "string \<Rightarrow> u8 list" where
  "string_body s = map byte_of s @ [0]"

lemma length_string_header [simp]: "length (string_header n k) = 8"
  by (simp add: string_header_def)

lemma length_string_body [simp]: "length (string_body s) = length s + 1"
  by (simp add: string_body_def)

lemma packet_insert:
  assumes p: "packet base tot pre bodies sb" and pre: "length pre + 8 \<le> base"
    and body: "length bodies + length s + 1 \<le> tot"
  shows "\<exists>sb'. insertString s (base + length bodies) sb = Inr (base + length (bodies @ string_body s), sb')
    \<and> packet base tot (pre @ string_header (length s) (base + length bodies - length pre)) (bodies @ string_body s) sb'"
proof -
  let ?off = "base + length bodies - length pre"
  have idx: "sb_index sb = length pre" and size: "sb_size sb = base + tot" "base + tot < 2 ^ 31"
    using p by (simp_all add: packet_def)
  have off: "int (base + length bodies) - int (sb_index sb) = int ?off" "?off < 2 ^ 31" using pre idx size body by auto
  then have soff: "sint (word_of_int (int (base + length bodies) - int (sb_index sb)) :: u64) = int ?off"
    by (simp only: off(1) sint_sbintrunc', subst signed_take_bit_int_eq_self_iff) auto
  obtain s1 where s1: "buf_add (string_header (length s) ?off) sb = Inr s1"
      "packet base tot (pre @ string_header (length s) ?off) bodies s1"
    using packet_add [OF p, of "string_header (length s) ?off"] pre by auto
  obtain j k where jk: "sb_buf s1 = Some ((pre @ string_header (length s) ?off) @ j @ bodies @ k)"
      "length (pre @ string_header (length s) ?off) + length j = base" "length bodies + length k = tot"
    using s1(2) by (auto simp: packet_def)
  let ?b = "(pre @ string_header (length s) ?off) @ j @ (bodies @ string_body s) @ drop (length (string_body s)) k"
  have "overwrite (base + length bodies) (string_body s) (((pre @ string_header (length s) ?off) @ j @ bodies) @ k) = ?b"
    using jk(2) by (subst overwrite_append) auto
  then have wr: "write_at (base + length bodies) (string_body s) s1 = Inr (s1\<lparr>sb_buf := Some ?b\<rparr>)"
    using jk body by (simp add: write_at_def)
  let ?s2 = "setWatermarkIfNeeded (base + length (bodies @ string_body s)) (s1\<lparr>sb_buf := Some ?b\<rparr>)"
  have "insertString s (base + length bodies) sb = Inr (base + length (bodies @ string_body s), ?s2)"
    using s1(1) wr soff off(2) size body by (simp add: insertString_def string_header_def string_body_def Let_def add.assoc)
  moreover have "packet base tot (pre @ string_header (length s) ?off) (bodies @ string_body s) ?s2"
    using s1(2) jk body
    by (intro packetI [of _ _ j _ "drop (length (string_body s)) k"])
       (auto simp: packet_def setWatermarkIfNeeded_def string_body_def)
  ultimately show ?thesis by blast
qed

lemma packet_val:
  "packet base tot pre bodies sb \<Longrightarrow> length pre + n \<le> base
    \<Longrightarrow> \<exists>sb'. addTemplate n v sb = Inr sb' \<and> packet base tot (pre @ le_bytes n v) bodies sb'"
  using packet_add [of base tot pre bodies sb "le_bytes n v"] by (simp add: addTemplate_def)

definition packet_header :: "u32 \<Rightarrow> packet_type \<Rightarrow> u8 list" where
  "packet_header bodySize ty = le_bytes 4 (unat bodySize) @ le_bytes 2 (unat (packet_code ty))"

lemma length_packet_header [simp]: "length (packet_header n ty) = 6"
  by (simp add: packet_header_def)

lemma setHeader_packet:
  assumes "6 + unat bodySize = base + tot" "6 \<le> base" "base + tot < 2 ^ 31" "\<forall>k < 2 ^ 63. al_ok env k"
  shows "\<exists>sb. setHeader env bodySize ty mk_buffer = Inr sb \<and> packet base tot (packet_header bodySize ty) [] sb"
proof -
  let ?b = "map (al_byte env) [0..<base + tot]"
  let ?s = "\<lparr>sb_index = 0, sb_buf = Some ?b, sb_size = base + tot, sb_watermark = 0\<rparr>"
  have ens: "ensureRemainingSize env (RESIDENT_PROTO_HEADER_LEN + unat bodySize) mk_buffer = Inr ?s"
    using assms by (simp add: ensureRemainingSize_def mk_buffer_def sb_alloc_def proto_lens Let_def)
  have p0: "packet base tot [] [] (resetIndexDeep ?s)"
    using assms by (intro packetI [of _ _ "take base ?b" _ "drop base ?b"])
      (simp_all add: resetIndexDeep_def resetIndex_def)
  obtain s1 where s1: "addTemplate 4 (unat bodySize) (resetIndexDeep ?s) = Inr s1"
      "packet base tot (le_bytes 4 (unat bodySize)) [] s1"
    using packet_val [OF p0, of 4] assms(2) by auto
  obtain s2 where s2: "addTemplate 2 (unat (packet_code ty)) s1 = Inr s2"
      "packet base tot (packet_header bodySize ty) [] s2"
    using packet_val [OF s1(2), of 2] assms(2) by (auto simp: packet_header_def)
  have "setHeader env bodySize ty mk_buffer = Inr s2"
    unfolding setHeader_def ens bindR_simps add32_def s1(1) add16_def s2(1) ..
  with s2(2) show ?thesis by blast
qed

lemma packet_done:
  assumes "packet base tot pre bodies sb" "length pre = base" "length bodies = tot" "0 < tot"
  shows "sb_buf sb = Some (pre @ bodies) \<and> sb_watermark sb = base + tot \<and> buf_ok sb"
  using assms packet_buf_ok [OF assms(1)] by (auto simp: packet_def)

section \<open>Events\<close>

text \<open>The bytes of an event: the header, the fixed part, and the texts.\<close>

definition event_fixed :: "int \<Rightarrow> 'a event_info_scheme \<Rightarrow> string \<Rightarrow> u8 list" where
  "event_fixed actionId ev sessionId =
     le_bytes 4 (unat (word_of_int actionId :: u32)) @ le_bytes 4 (unat (word_of_int (ev_serverId ev) :: u32))
     @ string_header (length (ev_hostIdInServer ev)) 78
     @ le_bytes 8 (unat (word_of_int (ev_time ev) :: u64)) @ le_bytes 4 (unat (word_of_int (ev_nsec ev) :: u32))
     @ string_header (length (ev_id ev)) (59 + length (ev_hostIdInServer ev))
     @ le_bytes 2 (unat (word_of_int (ev_type ev) :: u16))
     @ string_header (length (ev_triggerId ev)) (50 + (length (ev_hostIdInServer ev) + length (ev_id ev)))
     @ le_bytes 2 (unat (word_of_int (ev_status ev) :: u16)) @ le_bytes 2 (unat (word_of_int (ev_severity ev) :: u16))
     @ map byte_of sessionId"

definition event_texts :: "'a event_info_scheme \<Rightarrow> u8 list" where
  "event_texts ev = string_body (ev_hostIdInServer ev) @ string_body (ev_id ev) @ string_body (ev_triggerId ev)"

lemma length_event_fixed: "length sessionId = 36 \<Longrightarrow> length (event_fixed a ev sessionId) = 86"
  by (simp add: event_fixed_def)

lemma setNotifyEventBody_bytes:
  assumes "length (event_texts ev) + 92 < 2 ^ 31" "length sessionId = 36" "\<forall>k < 2 ^ 63. al_ok env k"
  shows "\<exists>sb. setNotifyEventBody env a ev sessionId mk_buffer = Inr sb \<and> buf_ok sb \<and> sb_watermark sb = 92 + length (event_texts ev)
    \<and> sb_buf sb = Some (packet_header (word_of_nat (86 + length (event_texts ev))) RESIDENT_PROTO_PKT_TYPE_NOTIFY_EVENT
        @ event_fixed a ev sessionId @ event_texts ev)"
proof -
  let ?h = "ev_hostIdInServer ev" and ?e = "ev_id ev" and ?g = "ev_triggerId ev" and ?t = "length (event_texts ev)"
  let ?size = "word_of_nat (86 + length (event_texts ev)) :: u32"
  have t: "?t = length ?h + 1 + (length ?e + 1) + (length ?g + 1)" by (simp add: event_texts_def)
  have size: "6 + unat ?size = 92 + ?t" using assms(1) by (simp add: unat_of_nat del: of_nat_add)
  have lens: "RESIDENT_PROTO_EVENT_BODY_BASE_LEN + (length ?h + 1) + (length ?e + 1) + (length ?g + 1) = 86 + ?t"
    "RESIDENT_PROTO_HEADER_LEN + RESIDENT_PROTO_EVENT_BODY_BASE_LEN = 92 + length ([] :: u8 list)"
    using t by (simp_all add: proto_lens)
  obtain s0 where s0: "setHeader env ?size RESIDENT_PROTO_PKT_TYPE_NOTIFY_EVENT mk_buffer = Inr s0"
      "packet 92 ?t (packet_header ?size RESIDENT_PROTO_PKT_TYPE_NOTIFY_EVENT) [] s0"
    using setHeader_packet [OF size _ _ assms(3)] assms(1) by auto
  note s1 = packet_val [OF s0(2), of 4 "unat (word_of_int a :: u32)"]
  then obtain s1 where s1: "addTemplate 4 (unat (word_of_int a :: u32)) s0 = Inr s1"
      "packet 92 ?t (packet_header ?size RESIDENT_PROTO_PKT_TYPE_NOTIFY_EVENT @ le_bytes 4 (unat (word_of_int a :: u32))) [] s1"
    by auto
  obtain s2 p2 where s2: "addTemplate 4 (unat (word_of_int (ev_serverId ev) :: u32)) s1 = Inr s2" "packet 92 ?t p2 [] s2"
      "p2 = packet_header ?size RESIDENT_PROTO_PKT_TYPE_NOTIFY_EVENT @ le_bytes 4 (unat (word_of_int a :: u32))
        @ le_bytes 4 (unat (word_of_int (ev_serverId ev) :: u32))" "length p2 = 14"
    using packet_val [OF s1(2), of 4 "unat (word_of_int (ev_serverId ev) :: u32)"] by auto
  obtain s3 p3 where s3: "insertString ?h (92 + length ([] :: u8 list)) s2 = Inr (92 + length (string_body ?h), s3)"
      "packet 92 ?t p3 (string_body ?h) s3" "p3 = p2 @ string_header (length ?h) 78" "length p3 = 22"
    using packet_insert [OF s2(2), of ?h] s2(4) t by auto
  obtain s4 p4 where s4: "addTemplate 8 (unat (word_of_int (ev_time ev) :: u64)) s3 = Inr s4" "packet 92 ?t p4 (string_body ?h) s4"
      "p4 = p3 @ le_bytes 8 (unat (word_of_int (ev_time ev) :: u64))" "length p4 = 30"
    using packet_val [OF s3(2), of 8 "unat (word_of_int (ev_time ev) :: u64)"] s3(4) by auto
  obtain s5 p5 where s5: "addTemplate 4 (unat (word_of_int (ev_nsec ev) :: u32)) s4 = Inr s5" "packet 92 ?t p5 (string_body ?h) s5"
      "p5 = p4 @ le_bytes 4 (unat (word_of_int (ev_nsec ev) :: u32))" "length p5 = 34"
    using packet_val [OF s4(2), of 4 "unat (word_of_int (ev_nsec ev) :: u32)"] s4(4) by auto
  obtain s6 p6 where s6: "insertString ?e (92 + length (string_body ?h)) s5 = Inr (92 + length (string_body ?h @ string_body ?e), s6)"
      "packet 92 ?t p6 (string_body ?h @ string_body ?e) s6" "p6 = p5 @ string_header (length ?e) (59 + length ?h)" "length p6 = 42"
    using packet_insert [OF s5(2), of ?e] s5(4) t by auto
  obtain s7 p7 where s7: "addTemplate 2 (unat (word_of_int (ev_type ev) :: u16)) s6 = Inr s7" "packet 92 ?t p7 (string_body ?h @ string_body ?e) s7"
      "p7 = p6 @ le_bytes 2 (unat (word_of_int (ev_type ev) :: u16))" "length p7 = 44"
    using packet_val [OF s6(2), of 2 "unat (word_of_int (ev_type ev) :: u16)"] s6(4) by auto
  obtain s8 p8 where s8: "insertString ?g (92 + length (string_body ?h @ string_body ?e)) s7
        = Inr (92 + length ((string_body ?h @ string_body ?e) @ string_body ?g), s8)"
      "packet 92 ?t p8 (event_texts ev) s8"
      "p8 = p7 @ string_header (length ?g) (50 + (length ?h + length ?e))" "length p8 = 52"
    using packet_insert [OF s7(2), of ?g] s7(4) t by (auto simp: event_texts_def add.assoc)
  obtain s9 p9 where s9: "addTemplate 2 (unat (word_of_int (ev_status ev) :: u16)) s8 = Inr s9" "packet 92 ?t p9 (event_texts ev) s9"
      "p9 = p8 @ le_bytes 2 (unat (word_of_int (ev_status ev) :: u16))" "length p9 = 54"
    using packet_val [OF s8(2), of 2 "unat (word_of_int (ev_status ev) :: u16)"] s8(4) by auto
  obtain s10 p10 where s10: "addTemplate 2 (unat (word_of_int (ev_severity ev) :: u16)) s9 = Inr s10" "packet 92 ?t p10 (event_texts ev) s10"
      "p10 = p9 @ le_bytes 2 (unat (word_of_int (ev_severity ev) :: u16))" "length p10 = 56"
    using packet_val [OF s9(2), of 2 "unat (word_of_int (ev_severity ev) :: u16)"] s9(4) by auto
  obtain s11 where s11: "buf_add (map byte_of sessionId) s10 = Inr s11" "packet 92 ?t (p10 @ map byte_of sessionId) (event_texts ev) s11"
    using packet_add [OF s10(2), of "map byte_of sessionId"] s10(4) assms(2) by auto
  have sess: "addSessionId sessionId s10 = Inr s11" using s11(1) assms(2) by (simp add: addSessionId_def proto_lens)
  have "setNotifyEventBody env a ev sessionId mk_buffer = Inr s11"
    unfolding setNotifyEventBody_def Let_def lens s0(1) bindR_simps add32_def add64_def add16_def s1(1) s2(1) s3(1) s4(1) s5(1)
      s6(1) s7(1) s8(1) s9(1) s10(1) prod.case by (rule sess)
  moreover have "p10 @ map byte_of sessionId = packet_header ?size RESIDENT_PROTO_PKT_TYPE_NOTIFY_EVENT @ event_fixed a ev sessionId"
    by (simp add: s10(3) s9(3) s8(3) s7(3) s6(3) s5(3) s4(3) s3(3) s2(3) event_fixed_def)
  moreover have "sb_buf s11 = Some ((p10 @ map byte_of sessionId) @ event_texts ev) \<and> sb_watermark s11 = 92 + ?t \<and> buf_ok s11"
    by (rule packet_done [OF s11(2)]) (simp_all add: s10(4) assms(2) t)
  ultimately show ?thesis by simp
qed

lemma get_at:
  assumes "sb_buf sb = Some b" "b = p @ le_bytes n v @ r" "i = length p" "length b < 2 ^ 31" "v < 256 ^ n"
  shows "getValueAndIncIndex n (sb\<lparr>sb_index := i\<rparr>) = Inr (v, sb\<lparr>sb_index := i + n\<rparr>)"
  using getValue_here [of "sb\<lparr>sb_index := i\<rparr>" p n v r] assms by simp

lemma extract_at:
  assumes "sb_buf sb = Some b" "b = p @ string_header (length s) (8 + length q) @ q @ map byte_of s @ r" "i = length p"
    and "length b < 2 ^ 31"
  shows "extractStringAndIncIndex (sb\<lparr>sb_index := i\<rparr>) = Inr (s, sb\<lparr>sb_index := i + 8\<rparr>)"
proof -
  let ?s = "sb\<lparr>sb_index := i\<rparr>"
  have len: "length s < 2 ^ 31" "8 + length q < 2 ^ 31" using assms by auto
  have 1: "read_at i 4 ?s = Inr (le_bytes 4 (length s))" "read_at (i + 4) 4 ?s = Inr (le_bytes 4 (8 + length q))"
    using assms by (simp_all add: read_at_def string_header_def)
  have 2: "read_at (i + (8 + length q)) (length s) ?s = Inr (map byte_of s)"
    using assms by (simp add: read_at_def)
  have m: "length s mod 256 ^ 4 = length s" "(8 + length q) mod 256 ^ 4 = 8 + length q" using len by simp_all
  have w: "(word_of_nat (8 + length q) :: u32) = word_of_int (int (8 + length q))" by simp
  have off: "sint (word_of_nat (8 + length q) :: u32) = int (8 + length q)"
    unfolding w sint_sbintrunc' by (subst signed_take_bit_int_eq_self_iff) (use len(2) in auto)
  have "extractString i ?s = Inr s"
    using off 2 by (simp only: extractString_def 1 bindR_simps from_le_bytes m Let_def) (simp add: nat_add_distrib)
  then show ?thesis using assms by (simp add: extractStringAndIncIndex_def)
qed

definition sent_arg :: "int \<Rightarrow> 'a event_info_scheme \<Rightarrow> string \<Rightarrow> notify_arg" where
  "sent_arg a ev sessionId =
     \<lparr>na_actionId = unat (word_of_int a :: u32), na_serverId = unat (word_of_int (ev_serverId ev) :: u32),
      na_hostIdInServer = cstr (ev_hostIdInServer ev), na_sec = unat (word_of_int (ev_time ev) :: u64),
      na_nsec = unat (word_of_int (ev_nsec ev) :: u32), na_eventId = cstr (ev_id ev),
      na_eventType = unat (word_of_int (ev_type ev) :: u16), na_triggerId = cstr (ev_triggerId ev),
      na_triggerStatus = unat (word_of_int (ev_status ev) :: u16),
      na_triggerSeverity = unat (word_of_int (ev_severity ev) :: u16), na_sessionId = cstr sessionId\<rparr>"

lemma unat_bytes:
  "unat (w :: u16) < 256 ^ 2" "unat (x :: u32) < 256 ^ 4" "unat (y :: u64) < 256 ^ 8"
  using unsigned_less [of w, where ?'a = nat] unsigned_less [of x, where ?'a = nat] unsigned_less [of y, where ?'a = nat] by simp_all

lemma read_notify_arg_sent:
  assumes "sb_buf sb = Some (event_fixed a ev sessionId @ event_texts ev @ r)" "sb_index sb = 0" "length sessionId = 36"
    and "length (event_fixed a ev sessionId @ event_texts ev @ r) < 2 ^ 31"
  shows "\<exists>sb'. read_notify_arg sb = Inr (sent_arg a ev sessionId, sb')"
proof -
  define A where "A = le_bytes 4 (unat (word_of_int a :: u32))"
  define S where "S = le_bytes 4 (unat (word_of_int (ev_serverId ev) :: u32))"
  define H where "H = string_header (length (ev_hostIdInServer ev)) 78"
  define T where "T = le_bytes 8 (unat (word_of_int (ev_time ev) :: u64))"
  define N where "N = le_bytes 4 (unat (word_of_int (ev_nsec ev) :: u32))"
  define E where "E = string_header (length (ev_id ev)) (59 + length (ev_hostIdInServer ev))"
  define Y where "Y = le_bytes 2 (unat (word_of_int (ev_type ev) :: u16))"
  define G where "G = string_header (length (ev_triggerId ev)) (50 + (length (ev_hostIdInServer ev) + length (ev_id ev)))"
  define U where "U = le_bytes 2 (unat (word_of_int (ev_status ev) :: u16))"
  define V where "V = le_bytes 2 (unat (word_of_int (ev_severity ev) :: u16))"
  define K where "K = map byte_of sessionId"
  let ?h = "map byte_of (ev_hostIdInServer ev)" and ?e = "map byte_of (ev_id ev)" and ?g = "map byte_of (ev_triggerId ev)"
  define b where "b = A @ S @ H @ T @ N @ E @ Y @ G @ U @ V @ K @ ?h @ 0 # ?e @ 0 # ?g @ 0 # r"
  note defs = A_def S_def H_def T_def N_def E_def Y_def G_def U_def V_def K_def
  have lens: "length A = 4" "length S = 4" "length H = 8" "length T = 8" "length N = 4" "length E = 8" "length Y = 2"
    "length G = 8" "length U = 2" "length V = 2" "length K = 36" using assms(3) by (simp_all add: defs)
  have b: "sb_buf sb = Some b" "length b < 2 ^ 31"
    using assms(1,4) by (simp_all add: b_def defs event_fixed_def event_texts_def string_body_def)
  have sb: "sb\<lparr>sb_index := 0\<rparr> = sb" using assms(2) by simp
  have "b = ([]) @ le_bytes 4 (unat (word_of_int a :: u32)) @ S @ H @ T @ N @ E @ Y @ G @ U @ V @ K @ ?h @ 0 # ?e @ 0 # ?g @ 0 # r" by (simp add: b_def A_def)
  from get_at [OF b(1) this _ b(2) unat_bytes(2), of 0] have 1:
    "getValueAndIncIndex 4 sb = Inr (unat (word_of_int a :: u32), sb\<lparr>sb_index := 4\<rparr>)" by (simp add: lens sb)
  have "b = (A) @ le_bytes 4 (unat (word_of_int (ev_serverId ev) :: u32)) @ H @ T @ N @ E @ Y @ G @ U @ V @ K @ ?h @ 0 # ?e @ 0 # ?g @ 0 # r" by (simp add: b_def S_def)
  from get_at [OF b(1) this _ b(2) unat_bytes(2), of 4] have 2:
    "getValueAndIncIndex 4 (sb\<lparr>sb_index := 4\<rparr>) = Inr (unat (word_of_int (ev_serverId ev) :: u32), sb\<lparr>sb_index := 8\<rparr>)" by (simp add: lens)
  have "b = (A @ S) @ string_header (length (ev_hostIdInServer ev)) (8 + length (T @ N @ E @ Y @ G @ U @ V @ K)) @ (T @ N @ E @ Y @ G @ U @ V @ K) @ map byte_of (ev_hostIdInServer ev) @ 0 # ?e @ 0 # ?g @ 0 # r" by (simp add: b_def H_def lens)
  from extract_at [OF b(1) this _ b(2), of 8] have 3:
    "extractStringAndIncIndex (sb\<lparr>sb_index := 8\<rparr>) = Inr (ev_hostIdInServer ev, sb\<lparr>sb_index := 16\<rparr>)" by (simp add: lens)
  have "b = (A @ S @ H) @ le_bytes 8 (unat (word_of_int (ev_time ev) :: u64)) @ N @ E @ Y @ G @ U @ V @ K @ ?h @ 0 # ?e @ 0 # ?g @ 0 # r" by (simp add: b_def T_def)
  from get_at [OF b(1) this _ b(2) unat_bytes(3), of 16] have 4:
    "getValueAndIncIndex 8 (sb\<lparr>sb_index := 16\<rparr>) = Inr (unat (word_of_int (ev_time ev) :: u64), sb\<lparr>sb_index := 24\<rparr>)" by (simp add: lens)
  have "b = (A @ S @ H @ T) @ le_bytes 4 (unat (word_of_int (ev_nsec ev) :: u32)) @ E @ Y @ G @ U @ V @ K @ ?h @ 0 # ?e @ 0 # ?g @ 0 # r" by (simp add: b_def N_def)
  from get_at [OF b(1) this _ b(2) unat_bytes(2), of 24] have 5:
    "getValueAndIncIndex 4 (sb\<lparr>sb_index := 24\<rparr>) = Inr (unat (word_of_int (ev_nsec ev) :: u32), sb\<lparr>sb_index := 28\<rparr>)" by (simp add: lens)
  have "b = (A @ S @ H @ T @ N) @ string_header (length (ev_id ev)) (8 + length (Y @ G @ U @ V @ K @ ?h @ [0])) @ (Y @ G @ U @ V @ K @ ?h @ [0]) @ map byte_of (ev_id ev) @ 0 # ?g @ 0 # r" by (simp add: b_def E_def lens)
  from extract_at [OF b(1) this _ b(2), of 28] have 6:
    "extractStringAndIncIndex (sb\<lparr>sb_index := 28\<rparr>) = Inr (ev_id ev, sb\<lparr>sb_index := 36\<rparr>)" by (simp add: lens)
  have "b = (A @ S @ H @ T @ N @ E) @ le_bytes 2 (unat (word_of_int (ev_type ev) :: u16)) @ G @ U @ V @ K @ ?h @ 0 # ?e @ 0 # ?g @ 0 # r" by (simp add: b_def Y_def)
  from get_at [OF b(1) this _ b(2) unat_bytes(1), of 36] have 7:
    "getValueAndIncIndex 2 (sb\<lparr>sb_index := 36\<rparr>) = Inr (unat (word_of_int (ev_type ev) :: u16), sb\<lparr>sb_index := 38\<rparr>)" by (simp add: lens)
  have "b = (A @ S @ H @ T @ N @ E @ Y) @ string_header (length (ev_triggerId ev)) (8 + length (U @ V @ K @ ?h @ 0 # ?e @ [0])) @ (U @ V @ K @ ?h @ 0 # ?e @ [0]) @ map byte_of (ev_triggerId ev) @ 0 # r" by (simp add: b_def G_def lens)
  from extract_at [OF b(1) this _ b(2), of 38] have 8:
    "extractStringAndIncIndex (sb\<lparr>sb_index := 38\<rparr>) = Inr (ev_triggerId ev, sb\<lparr>sb_index := 46\<rparr>)" by (simp add: lens)
  have "b = (A @ S @ H @ T @ N @ E @ Y @ G) @ le_bytes 2 (unat (word_of_int (ev_status ev) :: u16)) @ V @ K @ ?h @ 0 # ?e @ 0 # ?g @ 0 # r" by (simp add: b_def U_def)
  from get_at [OF b(1) this _ b(2) unat_bytes(1), of 46] have 9:
    "getValueAndIncIndex 2 (sb\<lparr>sb_index := 46\<rparr>) = Inr (unat (word_of_int (ev_status ev) :: u16), sb\<lparr>sb_index := 48\<rparr>)" by (simp add: lens)
  have "b = (A @ S @ H @ T @ N @ E @ Y @ G @ U) @ le_bytes 2 (unat (word_of_int (ev_severity ev) :: u16)) @ K @ ?h @ 0 # ?e @ 0 # ?g @ 0 # r" by (simp add: b_def V_def)
  from get_at [OF b(1) this _ b(2) unat_bytes(1), of 48] have 10:
    "getValueAndIncIndex 2 (sb\<lparr>sb_index := 48\<rparr>) = Inr (unat (word_of_int (ev_severity ev) :: u16), sb\<lparr>sb_index := 50\<rparr>)" by (simp add: lens)
  have 11: "read_at 50 36 (sb\<lparr>sb_index := 50\<rparr>) = Inr K"
    using b(1) lens by (simp add: read_at_def b_def)
  have K: "map char_of_byte K = sessionId" by (simp only: K_def map_char_of_byte)
  show ?thesis
    unfolding read_notify_arg_def 1 2 3 4 5 6 7 8 9 10 bindR_simps prod.case HATOHOL_SESSION_ID_LEN_def
    by (simp add: 11 K sent_arg_def)
qed

lemma read_header:
  assumes "buf_ok hb" "sb_buf hb = Some (packet_header n ty @ r)"
  shows "\<exists>hb'. getPacketType hb = Inr (unat (packet_code ty), hb') \<and> sb_buf hb' = sb_buf hb \<and> sb_size hb' = sb_size hb
    \<and> getBodySize hb' = Inr (unat n, resetIndex hb')"
proof -
  have size: "sb_size hb = 6 + length r" using assms by (simp add: buf_ok_def)
  have val: "unat n mod 4294967296 = unat n" "unat (packet_code ty) mod 65536 = unat (packet_code ty)"
    using unat_bytes(2) [of n] unat_bytes(1) [of "packet_code ty"] by simp_all
  let ?hb = "incIndex 4 (resetIndex hb)"
  have hb: "sb_index ?hb = 4" "sb_buf ?hb = sb_buf hb" "sb_size ?hb = sb_size hb"
    by (simp_all add: incIndex_def resetIndex_def setWatermarkIfNeeded_def Let_def)
  have "read_at 4 2 ?hb = Inr (le_bytes 2 (unat (packet_code ty)))" "read_at 0 4 (resetIndex ?hb) = Inr (le_bytes 4 (unat n))"
    using assms(2) hb by (simp_all add: read_at_def packet_header_def resetIndex_def)
  then show ?thesis using hb size val
    by (intro exI [of _ ?hb]) (simp add: getPacketType_def getBodySize_def proto_lens Let_def resetIndex_def)
qed

lemma ack_bytes:
  assumes "\<forall>k < 2 ^ 63. al_ok env k"
  shows "\<exists>sb. setNotifyEventAck env code mk_buffer = Inr sb \<and> buf_ok sb \<and> sb_watermark sb = 10
    \<and> sb_buf sb = Some (packet_header 4 RESIDENT_PROTO_PKT_TYPE_NOTIFY_EVENT_ACK @ le_bytes 4 (unat code))"
proof -
  obtain s where s: "setHeader env 4 RESIDENT_PROTO_PKT_TYPE_NOTIFY_EVENT_ACK mk_buffer = Inr s"
      "packet 10 0 (packet_header 4 RESIDENT_PROTO_PKT_TYPE_NOTIFY_EVENT_ACK) [] s"
    using setHeader_packet [of 4 10 0, OF _ _ _ assms] by auto
  obtain s' where s': "addTemplate 4 (unat code) s = Inr s'"
      "packet 10 0 (packet_header 4 RESIDENT_PROTO_PKT_TYPE_NOTIFY_EVENT_ACK @ le_bytes 4 (unat code)) [] s'"
    using packet_val [OF s(2), of 4 "unat code"] by auto
  have "setNotifyEventAck env code mk_buffer = Inr s'" by (simp add: setNotifyEventAck_def s(1) add32_def s'(1))
  moreover have "sb_buf s' = Some (packet_header 4 RESIDENT_PROTO_PKT_TYPE_NOTIFY_EVENT_ACK @ le_bytes 4 (unat code))
      \<and> sb_watermark s' = 10" using s'(2) by (auto simp: packet_def)
  ultimately show ?thesis using packet_buf_ok [OF s'(2)] by blast
qed

lemma read_answer_code:
  assumes "buf_ok ab" "sb_buf ab = Some ((packet_header 4 ty @ le_bytes 4 (unat code)) @ r)"
  shows "read_answer ty ab = Inr (Some (unat (code :: u32)))"
proof -
  obtain ab' where ab': "getPacketType ab = Inr (unat (packet_code ty), ab')" "sb_buf ab' = sb_buf ab"
    using read_header [OF assms(1)] assms(2) by auto
  have idx: "sb_index (incIndex 6 (resetIndex ab')) = 6" by (simp add: incIndex_def resetIndex_def setWatermarkIfNeeded_def Let_def)
  have "read_at 6 4 ab' = Inr (le_bytes 4 (unat code))" using ab'(2) assms(2) by (simp add: read_at_def)
  then show ?thesis using ab'(1) idx unat_bytes(2) [of code] by (simp add: read_answer_def proto_lens)
qed

text \<open>
  C25. An event that the server sends to a resident action arrives as it was sent. The packet is built
  without an invalid access; its first six bytes are a header that makes the process ask for exactly the
  rest; from the rest, whatever follows it in the buffer, the process reads the identifiers, the times, the
  kind, the status, the severity, the texts up to their first NUL and the session identifier; and from the
  process's answer the server reads the result of the module.
\<close>

theorem resident_event_delivered:
  assumes "length (event_texts ev) + 92 < 2 ^ 31" "length sessionId = 36" "\<forall>k < 2 ^ 63. al_ok env k"
  shows "\<exists>sb hdr body. setNotifyEventBody env a ev sessionId mk_buffer = Inr sb \<and> pending (resetIndex sb) = hdr @ body
    \<and> length hdr = RESIDENT_PROTO_HEADER_LEN
    \<and> (\<forall>hb r. buf_ok hb \<and> sb_buf hb = Some (hdr @ r) \<longrightarrow> eventCb True hb = Inr (Some (length body)))
    \<and> (\<forall>bb r. sb_buf bb = Some (body @ r) \<and> sb_index bb = 0 \<and> length (body @ r) < 2 ^ 31 \<longrightarrow>
         (\<exists>ack. gotNotifyEventBodyCb env f bb = Inr (sent_arg a ev sessionId, ack)
           \<and> (\<forall>ab q. buf_ok ab \<and> sb_buf ab = Some (pending (resetIndex ack) @ q)
               \<longrightarrow> read_answer RESIDENT_PROTO_PKT_TYPE_NOTIFY_EVENT_ACK ab = Inr (Some (unat (f (sent_arg a ev sessionId)))))))"
proof -
  let ?n = "word_of_nat (86 + length (event_texts ev)) :: u32" and ?ty = RESIDENT_PROTO_PKT_TYPE_NOTIFY_EVENT
  let ?hdr = "packet_header ?n ?ty" and ?body = "event_fixed a ev sessionId @ event_texts ev"
  obtain sb where sb: "setNotifyEventBody env a ev sessionId mk_buffer = Inr sb"
      "sb_watermark sb = 92 + length (event_texts ev)" "sb_buf sb = Some (?hdr @ ?body)"
    using setNotifyEventBody_bytes [OF assms] by blast
  have len: "length ?body = 86 + length (event_texts ev)" using length_event_fixed [OF assms(2)] by simp
  have n: "unat ?n = length ?body" using assms(1) len by (simp add: unat_of_nat del: of_nat_add)
  have pend: "pending (resetIndex sb) = ?hdr @ ?body" using sb(2,3) len by (simp add: pending_resetIndex)
  have ev: "eventCb True hb = Inr (Some (length ?body))" if hb: "buf_ok hb" "sb_buf hb = Some (?hdr @ r)" for hb r
    using read_header [OF hb] n by (auto simp: eventCb_def)
  obtain ack where ack: "setNotifyEventAck env (f (sent_arg a ev sessionId)) mk_buffer = Inr ack" "sb_watermark ack = 10"
      "sb_buf ack = Some (packet_header 4 RESIDENT_PROTO_PKT_TYPE_NOTIFY_EVENT_ACK @ le_bytes 4 (unat (f (sent_arg a ev sessionId))))"
    using ack_bytes [OF assms(3)] by blast
  have got: "gotNotifyEventBodyCb env f bb = Inr (sent_arg a ev sessionId, ack)"
    if bb: "sb_buf bb = Some (?body @ r)" "sb_index bb = 0" "length (?body @ r) < 2 ^ 31" for bb r
    using read_notify_arg_sent [of bb a ev sessionId r] bb assms(2) ack(1) by (auto simp: gotNotifyEventBodyCb_def)
  have "pending (resetIndex ack) = packet_header 4 RESIDENT_PROTO_PKT_TYPE_NOTIFY_EVENT_ACK @ le_bytes 4 (unat (f (sent_arg a ev sessionId)))"
    using ack(2,3) by (simp add: pending_resetIndex)
  then have ans: "read_answer RESIDENT_PROTO_PKT_TYPE_NOTIFY_EVENT_ACK ab = Inr (Some (unat (f (sent_arg a ev sessionId))))"
    if "buf_ok ab" "sb_buf ab = Some (pending (resetIndex ack) @ q)" for ab q
    using read_answer_code [OF that(1)] that(2) by simp
  have hl: "length ?hdr = RESIDENT_PROTO_HEADER_LEN" by (simp add: proto_lens)
  have body: "\<exists>ack. gotNotifyEventBodyCb env f bb = Inr (sent_arg a ev sessionId, ack)
      \<and> (\<forall>ab q. buf_ok ab \<and> sb_buf ab = Some (pending (resetIndex ack) @ q)
          \<longrightarrow> read_answer RESIDENT_PROTO_PKT_TYPE_NOTIFY_EVENT_ACK ab = Inr (Some (unat (f (sent_arg a ev sessionId)))))"
    if "sb_buf bb = Some (?body @ r)" "sb_index bb = 0" "length (?body @ r) < 2 ^ 31" for bb r
    using got [OF that] ans by blast
  show ?thesis
    by (rule exI [of _ sb], rule exI [of _ ?hdr], rule exI [of _ ?body]) (use sb(1) pend hl ev body in blast)
qed

definition ex_resident_event :: event_info where
  "ex_resident_event = \<lparr>ev_serverId = 1, ev_id = ''7'', ev_time = 10, ev_nsec = 20, ev_type = 1, ev_triggerId = ''t'',
     ev_status = 1, ev_severity = 2, ev_hostIdInServer = ''h''\<rparr>"

theorem resident_event_delivered_witness:
  "\<exists>sb. setNotifyEventBody \<lparr>al_ok = \<lambda>_. True, al_byte = \<lambda>_. 0\<rparr> 5 ex_resident_event (replicate 36 CHR ''a'') mk_buffer = Inr sb"
proof -
  have "length (event_texts ex_resident_event) + 92 < 2 ^ 31" by (simp add: ex_resident_event_def event_texts_def)
  from resident_event_delivered [OF this, of "replicate 36 CHR ''a''" "\<lparr>al_ok = \<lambda>_. True, al_byte = \<lambda>_. 0\<rparr>" 5]
  show ?thesis by fastforce
qed

text \<open>A module path of 65536 characters is announced as empty.\<close>

lemma module_path_length_wraps:
  assumes "length s = 65536" "sb_buf sb = Some b" "buf_ok sb" "sb_index sb + 2 + 65536 \<le> length b" "sb_index sb = 0"
  shows "\<exists>sb' sb''. addModuleString s sb = Inr sb' \<and> read_module_string (resetIndex sb') = Inr ([], sb'')"
proof -
  have z: "(word_of_nat (length s) :: u16) = 0" using assms(1) by (simp add: word_eq_iff_unsigned unat_of_nat)
  have 1: "add16 (word_of_nat (length s)) sb = Inr (sb\<lparr>sb_buf := Some (le_bytes 2 0 @ drop 2 b), sb_index := 2,
      sb_watermark := max (sb_watermark sb) 2\<rparr>)"
    using buf_add_ok [OF assms(2,3), of "le_bytes 2 0"] assms(4,5) z
    by (simp add: add16_def addTemplate_def overwrite_def numeral_2_eq_2)
  have "\<exists>sb'. addModuleString s sb = Inr sb' \<and> (\<exists>r. sb_buf sb' = Some (le_bytes 2 0 @ r))"
    using assms(1,4,5) unfolding addModuleString_def 1 by (simp add: write_at_def overwrite_def incIndex_def setWatermarkIfNeeded_def Let_def)
  then obtain sb' r where sb': "addModuleString s sb = Inr sb'" "sb_buf sb' = Some (le_bytes 2 0 @ r)" by blast
  then show ?thesis
    by (auto simp: read_module_string_def getValueAndIncIndex_def read_at_def resetIndex_def)
qed

end
