(* ===== verification/Incident_Send.thy ===== *)
theory Incident_Send
  imports Hato_Error Hato_Prelude
begin

text \<open>
  Sending incidents to a tracker (src/server/src/IncidentSender.cc, IncidentSenderManager.cc): the attempts at
  one job with their limit, the thread that takes jobs from a queue, and the map of senders. What the
  tracker answers, which attempts and which history entries end in an exception, when an exit is requested, and the
  rows of the tracker table are arguments; the jobs carry an identifier in the place of the event or incident.
\<close>

section \<open>One job\<close>

datatype job_status = JOB_QUEUED | JOB_STARTED | JOB_WAITING_RETRY | JOB_RETRYING | JOB_SUCCEEDED | JOB_FAILED

text \<open>
  A job with the callback it has: jobs from an event are reported through \<open>createCallback\<close>, jobs from an
  incident through \<open>updateCallback\<close>.
\<close>

record job =
  jb_id :: nat
  jb_event :: bool
  jb_createCallback :: bool
  jb_updateCallback :: bool

definition notifyStatus :: "job \<Rightarrow> job_status \<Rightarrow> (nat \<times> job_status) list" where
  "notifyStatus j st =
     (if jb_event j \<and> jb_createCallback j then [(jb_id j, st)]
      else if jb_updateCallback j then [(jb_id j, st)] else [])"

text \<open>
  The answers of the world during the attempts at a job: what \<open>send\<close> returns, unless it throws, and whether
  \<open>saveIncidentHistory\<close> throws. The limit is that of the start of the job: nothing in the server changes it afterwards.
\<close>

record send_world =
  sw_send :: "nat \<Rightarrow> hterr"
  sw_throws :: "nat \<Rightarrow> bool"
  sw_historyThrows :: bool
  sw_exitBefore :: "nat \<Rightarrow> bool"
  sw_exitAfter :: "nat \<Rightarrow> bool"

lemma next_attempt:
  assumes "i \<le> r" "i \<noteq> r"
  shows "unat (i + 1 :: u64) = unat i + 1"
proof -
  have "unat i < unat r" using assms by (simp add: word_less_nat_alt [symmetric] order_neq_le_trans)
  then have "unat i + 1 < 2 ^ 64" using unsigned_less [of r, where ?'a = nat] by simp
  then show ?thesis by (simp add: unat_word_ariths)
qed

text \<open>
  The loop of \<open>trySend\<close>, with its \<open>size_t\<close> counter. It returns the last result, \<open>Inl\<close> for an exception, the number of
  attempts and what was reported on the way.
\<close>

function trySend_loop :: "send_world \<Rightarrow> u64 \<Rightarrow> job \<Rightarrow> u64 \<Rightarrow> hterr \<Rightarrow> (unit + hterr) \<times> nat \<times> (nat \<times> job_status) list" where
  "trySend_loop w retryLimit j i result =
     (if \<not> i \<le> retryLimit then (Inr result, 0, [])
      else if sw_throws w (unat i) then (Inl (), 1, [])
      else
        let result = sw_send w (unat i) in
        if result = HTERR_OK then (Inr result, 1, [])
        else if result \<noteq> HTERR_FAILED_TO_SEND_INCIDENT then (Inr result, 1, [])
        else if i = retryLimit then (Inr result, 1, [])
        else if sw_exitBefore w (unat i) then (Inr result, 1, [])
        else if sw_exitAfter w (unat i) then (Inr result, 1, notifyStatus j JOB_WAITING_RETRY)
        else
          let (r, n, log) = trySend_loop w retryLimit j (i + 1) result
          in (r, n + 1, notifyStatus j JOB_WAITING_RETRY @ notifyStatus j JOB_RETRYING @ log))"
  by pat_completeness auto

termination
proof (relation "measure (\<lambda>(w, r, j, i, res). unat r - unat i)")
  fix w :: send_world and retryLimit :: u64 and j :: job and i :: u64 and result x
  assume "\<not> \<not> i \<le> retryLimit" "i \<noteq> retryLimit"
  moreover from this have "unat i < unat retryLimit" by (simp add: word_less_nat_alt [symmetric] order_neq_le_trans)
  ultimately show "((w, retryLimit, j, i + 1, x), w, retryLimit, j, i, result) \<in> measure (\<lambda>(w, r, j, i, res). unat r - unat i)"
    by (simp add: next_attempt)
qed simp

declare trySend_loop.simps [simp del]

text \<open>The result of \<open>trySend\<close>, the number of attempts, the reports, and whether a history entry is stored.\<close>

definition trySend :: "send_world \<Rightarrow> u64 \<Rightarrow> bool \<Rightarrow> job \<Rightarrow> (unit + hterr) \<times> nat \<times> (nat \<times> job_status) list \<times> bool" where
  "trySend w retryLimit record_history j =
     (case trySend_loop w retryLimit j 0 HTERR_OK of
        (Inl _, n, log) \<Rightarrow> (Inl (), n, log, False)
      | (Inr result, n, log) \<Rightarrow>
          if result = HTERR_OK then
            if record_history \<and> sw_historyThrows w then (Inl (), n, log, False)
            else (Inr result, n, log @ notifyStatus j JOB_SUCCEEDED, record_history)
          else (Inr result, n, log @ notifyStatus j JOB_FAILED, False))"

section \<open>The attempts are bounded\<close>

definition reports_of :: "job \<Rightarrow> job_status list \<Rightarrow> (nat \<times> job_status) list" where
  "reports_of j sts = concat (map (notifyStatus j) sts)"

text \<open>The result of an attempt, and that it is followed by another one if neither the limit nor an exit forbids it.\<close>

definition sent :: "send_world \<Rightarrow> nat \<Rightarrow> unit + hterr" where
  "sent w k = (if sw_throws w k then Inl () else Inr (sw_send w k))"

lemma sent_iff [simp]: "sent w k = Inr e \<longleftrightarrow> \<not> sw_throws w k \<and> sw_send w k = e" "sent w k = Inl u \<longleftrightarrow> sw_throws w k"
  by (simp_all add: sent_def)

lemma trySend_loop_runs:
  assumes "i \<le> retryLimit"
  shows "\<exists>n tl. n \<le> unat retryLimit - unat i
    \<and> trySend_loop w retryLimit j i res = (sent w (unat i + n), n + 1,
        reports_of j (concat (replicate n [JOB_WAITING_RETRY, JOB_RETRYING]) @ tl))
    \<and> (tl = [] \<or> tl = [JOB_WAITING_RETRY])
    \<and> (\<forall>k < n. sent w (unat i + k) = Inr HTERR_FAILED_TO_SEND_INCIDENT)
    \<and> (sent w (unat i + n) = Inr HTERR_FAILED_TO_SEND_INCIDENT \<longrightarrow>
         unat i + n = unat retryLimit \<or> sw_exitBefore w (unat i + n) \<or> sw_exitAfter w (unat i + n))"
  using assms
proof (induction w retryLimit j i res rule: trySend_loop.induct)
  case (1 w retryLimit j i res)
  let ?r = "sw_send w (unat i)"
  let ?go = "\<not> sw_throws w (unat i) \<and> ?r = HTERR_FAILED_TO_SEND_INCIDENT \<and> i \<noteq> retryLimit \<and> \<not> sw_exitBefore w (unat i) \<and> \<not> sw_exitAfter w (unat i)"
  show ?case
  proof (cases ?go)
    case True
    have nxt: "unat (i + 1) = unat i + 1" using next_attempt [OF "1.prems"] True by blast
    have lt: "unat i < unat retryLimit" using "1.prems" True by (simp add: word_less_nat_alt [symmetric] order_neq_le_trans)
    then have le: "i + 1 \<le> retryLimit" by (simp add: word_le_nat_alt nxt)
    obtain n tl where IH: "n \<le> unat retryLimit - unat (i + 1)"
        "trySend_loop w retryLimit j (i + 1) ?r = (sent w (unat (i + 1) + n), n + 1,
          reports_of j (concat (replicate n [JOB_WAITING_RETRY, JOB_RETRYING]) @ tl))"
        "tl = [] \<or> tl = [JOB_WAITING_RETRY]" "\<forall>k < n. sent w (unat (i + 1) + k) = Inr HTERR_FAILED_TO_SEND_INCIDENT"
        "sent w (unat (i + 1) + n) = Inr HTERR_FAILED_TO_SEND_INCIDENT \<longrightarrow>
          unat (i + 1) + n = unat retryLimit \<or> sw_exitBefore w (unat (i + 1) + n) \<or> sw_exitAfter w (unat (i + 1) + n)"
      using "1.IH" [OF _ _ refl _ _ _ _ _ le] "1.prems" True by fastforce
    have "\<forall>k < Suc n. sent w (unat i + k) = Inr HTERR_FAILED_TO_SEND_INCIDENT"
      using IH(4) True nxt by (auto simp: less_Suc_eq_0_disj)
    then show ?thesis using IH True "1.prems" nxt lt
      by (intro exI [of _ "Suc n"] exI [of _ tl])
         (simp add: trySend_loop.simps [of w retryLimit j i] reports_of_def)
  next
    case False
    then show ?thesis
      using "1.prems" by (intro exI [of _ 0] exI [of _ "if \<not> sw_throws w (unat i) \<and> sw_send w (unat i) = HTERR_FAILED_TO_SEND_INCIDENT
        \<and> i \<noteq> retryLimit \<and> \<not> sw_exitBefore w (unat i) then [JOB_WAITING_RETRY] else []"])
        (auto simp: trySend_loop.simps [of w retryLimit j i] reports_of_def Let_def sent_def)
  qed
qed

text \<open>
  C37. The attempts at a job end, for every limit of the type \<open>size_t\<close>, the largest included: the tracker is
  asked at least once and at most \<open>retryLimit + 1\<close> times, every attempt but the last failed to be sent, and
  when also the last did, the limit was reached or an exit was requested. Between the attempts the job is
  reported as waiting and retrying, and at the end once as succeeded or failed, as its result is; an
  exception of the last attempt, or of storing the history of a sent incident, is passed on with no report.
\<close>

theorem trySend_bounded:
  "\<exists>n log. trySend w retryLimit h j =
      (if sent w n = Inr HTERR_OK \<and> h \<and> sw_historyThrows w then Inl () else sent w n, n + 1, log,
       h \<and> \<not> sw_historyThrows w \<and> sent w n = Inr HTERR_OK)
    \<and> n \<le> unat retryLimit
    \<and> (\<forall>k < n. sent w k = Inr HTERR_FAILED_TO_SEND_INCIDENT)
    \<and> (sent w n = Inr HTERR_FAILED_TO_SEND_INCIDENT \<longrightarrow> n = unat retryLimit \<or> sw_exitBefore w n \<or> sw_exitAfter w n)
    \<and> (\<exists>tl. (tl = [] \<or> tl = [JOB_WAITING_RETRY])
        \<and> log = reports_of j (concat (replicate n [JOB_WAITING_RETRY, JOB_RETRYING]) @ tl
            @ (if sw_throws w n then []
               else if sw_send w n = HTERR_OK then if h \<and> sw_historyThrows w then [] else [JOB_SUCCEEDED]
               else [JOB_FAILED])))"
proof -
  obtain n tl where run: "n \<le> unat retryLimit"
      "trySend_loop w retryLimit j 0 HTERR_OK = (sent w n, n + 1,
        reports_of j (concat (replicate n [JOB_WAITING_RETRY, JOB_RETRYING]) @ tl))"
      "tl = [] \<or> tl = [JOB_WAITING_RETRY]" "\<forall>k < n. sent w k = Inr HTERR_FAILED_TO_SEND_INCIDENT"
      "sent w n = Inr HTERR_FAILED_TO_SEND_INCIDENT \<longrightarrow> n = unat retryLimit \<or> sw_exitBefore w n \<or> sw_exitAfter w n"
    using trySend_loop_runs [of 0 retryLimit w j HTERR_OK] by auto
  let ?log = "reports_of j (concat (replicate n [JOB_WAITING_RETRY, JOB_RETRYING]) @ tl
    @ (if sw_throws w n then []
       else if sw_send w n = HTERR_OK then if h \<and> sw_historyThrows w then [] else [JOB_SUCCEEDED]
       else [JOB_FAILED]))"
  have "trySend w retryLimit h j = (if sent w n = Inr HTERR_OK \<and> h \<and> sw_historyThrows w then Inl () else sent w n, n + 1, ?log,
      h \<and> \<not> sw_historyThrows w \<and> sent w n = Inr HTERR_OK)"
    by (auto simp: trySend_def run(2) reports_of_def sent_def)
  then show ?thesis using run(1,3,4,5) by blast
qed

definition ex_tracker :: "hterr \<Rightarrow> bool \<Rightarrow> send_world" where
  "ex_tracker e throws = \<lparr>sw_send = (\<lambda>k. if k < 2 then HTERR_FAILED_TO_SEND_INCIDENT else e), sw_throws = (\<lambda>k. throws \<and> k = 2),
     sw_historyThrows = False, sw_exitBefore = (\<lambda>k. False), sw_exitAfter = (\<lambda>k. False)\<rparr>"

text \<open>A tracker that cannot be reached twice and then answers: the third of four possible attempts succeeds.\<close>

theorem trySend_bounded_witness:
  "(\<forall>h j. fst (snd (trySend (ex_tracker HTERR_OK False) 3 h j)) = 3 \<and> fst (trySend (ex_tracker HTERR_OK False) 3 h j) = Inr HTERR_OK)"
proof (intro allI)
  fix h j
  let ?w = "ex_tracker HTERR_OK False"
  obtain n log where n: "trySend ?w 3 h j = (sent ?w n, n + 1, log, h \<and> sent ?w n = Inr HTERR_OK)"
      "\<forall>k < n. sw_send ?w k = HTERR_FAILED_TO_SEND_INCIDENT"
      "sw_send ?w n = HTERR_FAILED_TO_SEND_INCIDENT \<longrightarrow> n = unat (3 :: u64)"
    using trySend_bounded [of ?w 3 h j] by (auto simp: ex_tracker_def)
  have "n = 2"
    using n(2) [rule_format, of 2] n(3) by (cases "n < 2"; cases "2 < n") (auto simp: ex_tracker_def)
  then show "fst (snd (trySend ?w 3 h j)) = 3 \<and> fst (trySend ?w 3 h j) = Inr HTERR_OK"
    using n(1) by (simp add: ex_tracker_def)
qed

section \<open>The thread of a sender\<close>

text \<open>The thread waits for the semaphore, holds a job it took, or has ended.\<close>

datatype worker = WWaiting | WGot job | WEnded

record sender =
  sn_queue :: "job list"
  sn_running :: "job option"
  sn_sem :: nat
  sn_exit :: bool
  sn_retryLimit :: u64
  sn_history :: bool
  sn_thread :: worker
  sn_log :: "(nat \<times> job_status) list"

definition mk_sender :: "bool \<Rightarrow> sender" where
  "mk_sender shouldRecordIncidentHistory =
     \<lparr>sn_queue = [], sn_running = None, sn_sem = 0, sn_exit = False, sn_retryLimit = 3,
      sn_history = shouldRecordIncidentHistory, sn_thread = WWaiting, sn_log = []\<rparr>"

definition pushJob :: "job \<Rightarrow> sender \<Rightarrow> sender" where
  "pushJob j s = s\<lparr>sn_queue := sn_queue s @ [j], sn_log := sn_log s @ notifyStatus j JOB_QUEUED, sn_sem := sn_sem s + 1\<rparr>"

definition popJob :: "sender \<Rightarrow> job option \<times> sender" where
  "popJob s =
     (case sn_queue s of
        [] \<Rightarrow> (None, s\<lparr>sn_running := None\<rparr>)
      | j # js \<Rightarrow> (Some j, s\<lparr>sn_queue := js, sn_running := Some j, sn_log := sn_log s @ notifyStatus j JOB_STARTED\<rparr>))"

text \<open>\<open>waitNextJob\<close> once the semaphore has let it through.\<close>

definition waitNextJob :: "sender \<Rightarrow> job option \<times> sender" where
  "waitNextJob s =
     (let s = s\<lparr>sn_sem := sn_sem s - 1\<rparr> in if sn_exit s then (None, s) else popJob s)"

definition mainThread_take :: "sender \<Rightarrow> sender" where
  "mainThread_take s =
     (case waitNextJob s of (None, s) \<Rightarrow> s\<lparr>sn_thread := WEnded\<rparr> | (Some j, s) \<Rightarrow> s\<lparr>sn_thread := WGot j\<rparr>)"

text \<open>
  An exception leaves the loop of the thread, which catches none, with \<open>runningJob\<close> set; \<open>threadStarter\<close> of
  \<open>HatoholThreadBase\<close> then ends the thread, since \<open>onCaughtException\<close> is not overridden.
\<close>

definition mainThread_run :: "send_world \<Rightarrow> job \<Rightarrow> sender \<Rightarrow> sender" where
  "mainThread_run w j s =
     (if sn_exit s then s\<lparr>sn_running := None, sn_thread := WWaiting\<rparr>
      else case trySend w (sn_retryLimit s) (sn_history s) j of
             (Inl _, _, log, _) \<Rightarrow> s\<lparr>sn_log := sn_log s @ log, sn_thread := WEnded\<rparr>
           | (Inr _, _, log, _) \<Rightarrow> s\<lparr>sn_log := sn_log s @ log, sn_running := None, sn_thread := WWaiting\<rparr>)"

definition setRetryLimit :: "u64 \<Rightarrow> sender \<Rightarrow> sender" where
  "setRetryLimit limit s = s\<lparr>sn_retryLimit := limit\<rparr>"

definition sender_waitExit :: "sender \<Rightarrow> sender" where
  "sender_waitExit s = s\<lparr>sn_sem := sn_sem s + 1\<rparr>"

definition isIdling :: "sender \<Rightarrow> bool" where
  "isIdling s \<longleftrightarrow> sn_queue s = [] \<and> sn_running s = None"

text \<open>
  The runs of a sender: other threads queue jobs, change the limit or request the exit; the thread takes a
  job when the semaphore allows it and tries to send it. The lists are the jobs queued, taken and
  finished so far.
\<close>

definition threw :: "send_world \<Rightarrow> job \<Rightarrow> sender \<Rightarrow> bool" where
  "threw w j s \<longleftrightarrow> fst (trySend w (sn_retryLimit s) (sn_history s) j) = Inl ()"

inductive sender_run :: "sender \<Rightarrow> job list \<Rightarrow> job list \<Rightarrow> job list \<Rightarrow> bool" where
  start: "sender_run (mk_sender h) [] [] []"
| queue: "sender_run s q t d \<Longrightarrow> sender_run (pushJob j s) (q @ [j]) t d"
| limit: "sender_run s q t d \<Longrightarrow> sender_run (setRetryLimit n s) q t d"
| exit: "sender_run s q t d \<Longrightarrow> sender_run (s\<lparr>sn_exit := True\<rparr>) q t d"
| wait_exit: "sender_run s q t d \<Longrightarrow> sn_exit s \<Longrightarrow> sender_run (sender_waitExit s) q t d"
| take: "sender_run s q t d \<Longrightarrow> sn_thread s = WWaiting \<Longrightarrow> 0 < sn_sem s
    \<Longrightarrow> sender_run (mainThread_take s) q (case fst (waitNextJob s) of None \<Rightarrow> t | Some j \<Rightarrow> t @ [j]) d"
| run: "sender_run s q t d \<Longrightarrow> sn_thread s = WGot j
    \<Longrightarrow> sender_run (mainThread_run w j s) q t (if sn_exit s \<or> threw w j s then d else d @ [j])"

definition sender_inv :: "sender \<Rightarrow> job list \<Rightarrow> job list \<Rightarrow> job list \<Rightarrow> bool" where
  "sender_inv s q t d \<longleftrightarrow>
     sn_sem s = length (sn_queue s) \<and> t @ sn_queue s = q
     \<and> (case sn_thread s of
           WWaiting \<Rightarrow> sn_running s = None \<and> d = t
         | WGot j \<Rightarrow> sn_running s = Some j \<and> t = d @ [j]
         | WEnded \<Rightarrow> \<exists>j w l h. sn_running s = Some j \<and> t = d @ [j] \<and> fst (trySend w l h j) = Inl ())"

lemma take_exit [simp]: "sn_exit (mainThread_take s) = sn_exit s"
  by (cases "sn_queue s") (simp_all add: mainThread_take_def waitNextJob_def popJob_def Let_def)

lemma take_next:
  assumes "\<not> sn_exit s" "sn_queue s = j # js"
  shows "fst (waitNextJob s) = Some j \<and> mainThread_take s = s\<lparr>sn_queue := js, sn_running := Some j, sn_sem := sn_sem s - 1,
    sn_thread := WGot j, sn_log := sn_log s @ notifyStatus j JOB_STARTED\<rparr>"
  using assms by (simp add: mainThread_take_def waitNextJob_def popJob_def Let_def)

lemma sender_run_inv: "sender_run s q t d \<Longrightarrow> \<not> sn_exit s \<Longrightarrow> sender_inv s q t d"
proof (induction rule: sender_run.induct)
  case (take s q t d)
  then have inv: "sender_inv s q t d" and ex: "\<not> sn_exit s" by simp_all
  then obtain j js where js: "sn_queue s = j # js" using take.hyps by (cases "sn_queue s") (auto simp: sender_inv_def)
  show ?case using inv take_next [OF ex js] take.hyps(2) js by (simp add: sender_inv_def)
next
  case (run s q t d j w)
  then have inv: "sender_inv s q t d" and ex: "\<not> sn_exit s" by (auto simp: mainThread_run_def split: if_splits sum.splits prod.splits)
  obtain r n log b where r: "trySend w (sn_retryLimit s) (sn_history s) j = (r, n, log, b)" by (cases "trySend w (sn_retryLimit s) (sn_history s) j")
  show ?case
  proof (cases r)
    case (Inl u)
    then have "fst (trySend w (sn_retryLimit s) (sn_history s) j) = Inl ()" using r by simp
    then have "\<exists>w l h. fst (trySend w l h j) = Inl ()" by blast
    then show ?thesis using inv ex run.hyps(2) r Inl by (auto simp: sender_inv_def mainThread_run_def threw_def)
  next
    case (Inr e)
    then show ?thesis using inv ex run.hyps(2) r by (auto simp: sender_inv_def mainThread_run_def threw_def)
  qed
qed (simp_all add: sender_inv_def mk_sender_def pushJob_def setRetryLimit_def sender_waitExit_def split: worker.splits)

lemma sender_take_next:
  assumes "sender_inv s q t d" "\<not> sn_exit s" "sn_thread s = WWaiting" "sn_queue s = j # js"
  shows "0 < sn_sem s \<and> sn_thread (mainThread_take s) = WGot j \<and> sn_queue (mainThread_take s) = js"
  using assms take_next [OF assms(2,4)] by (simp add: sender_inv_def)

text \<open>
  C38. As long as no exit is requested, whatever the threads do and the tracker answers, the thread takes the
  jobs in the order they were queued and finishes each of them before the next; the sender idles exactly when
  every queued job has been finished; and while a job is queued and the thread waits, the semaphore lets the
  thread through and gives it the oldest job. The thread ends only when an attempt at a job, or storing its
  history, throws: then this job stays the running one, the sender never idles again, and the jobs queued
  behind it stay queued.
\<close>

theorem incident_jobs_in_order:
  assumes "sender_run s q t d" and "\<not> sn_exit s"
  shows "t @ sn_queue s = q \<and> (\<exists>r. t = d @ r \<and> length r \<le> 1)
    \<and> (isIdling s \<longleftrightarrow> d = q)
    \<and> (\<forall>j js. sn_thread s = WWaiting \<and> sn_queue s = j # js \<longrightarrow>
        0 < sn_sem s \<and> sn_thread (mainThread_take s) = WGot j \<and> sn_queue (mainThread_take s) = js)
    \<and> (sn_thread s = WEnded \<longrightarrow> (\<exists>j w l h. t = d @ [j] \<and> sn_running s = Some j \<and> fst (trySend w l h j) = Inl ()))
    \<and> (\<forall>j w. sn_thread s = WGot j \<longrightarrow>
        sn_thread (mainThread_run w j s) = (if fst (trySend w (sn_retryLimit s) (sn_history s) j) = Inl () then WEnded else WWaiting))"
proof -
  have inv: "sender_inv s q t d" by (rule sender_run_inv [OF assms])
  have "sn_thread (mainThread_run w j s) = (if fst (trySend w (sn_retryLimit s) (sn_history s) j) = Inl () then WEnded else WWaiting)" for w j
    using assms(2) by (auto simp: mainThread_run_def split: prod.splits sum.splits)
  then show ?thesis using inv sender_take_next [OF inv assms(2)]
    by (auto simp: sender_inv_def isIdling_def split: worker.splits)
qed

definition ex_job :: job where
  "ex_job = \<lparr>jb_id = 1, jb_event = True, jb_createCallback = True, jb_updateCallback = False\<rparr>"

text \<open>A job whose third attempt throws ends the thread.\<close>

theorem incident_jobs_in_order_witness:
  "\<exists>s. sender_run s [ex_job] [ex_job] [] \<and> sn_thread s = WGot ex_job
    \<and> sn_thread (mainThread_run (ex_tracker HTERR_OK True) ex_job s) = WEnded \<and> sn_thread (mainThread_run (ex_tracker HTERR_OK False) ex_job s) = WWaiting"
proof -
  let ?s = "mainThread_take (pushJob ex_job (mk_sender False))"
  have run: "sender_run ?s ([] @ [ex_job]) [ex_job] []"
    using sender_run.take [OF sender_run.queue [OF sender_run.start [of False], of ex_job]]
    by (simp add: pushJob_def mk_sender_def waitNextJob_def popJob_def Let_def)
  have s: "sn_thread ?s = WGot ex_job" "\<not> sn_exit ?s" "sn_retryLimit ?s = 3" "sn_history ?s = False"
    by (simp_all add: mainThread_take_def pushJob_def mk_sender_def waitNextJob_def popJob_def Let_def)
  have "fst (trySend (ex_tracker HTERR_OK True) 3 False ex_job) = Inl ()" "fst (trySend (ex_tracker HTERR_OK False) 3 False ex_job) \<noteq> Inl ()"
    by (simp_all add: trySend_def trySend_loop.simps ex_tracker_def)
  with incident_jobs_in_order [OF run s(2)] run s show ?thesis by auto
qed

section \<open>The map of senders\<close>

text \<open>
  The senders by the identifier of their tracker; a sender is a handle, and creating one for a row of the
  tracker table gives a handle or, for an unknown type, none.
\<close>

datatype mgr_exc = MgrUndefined

record 'h sender_mgr =
  sm_senders :: "(int \<times> 'h) list"

definition createSender :: "('r \<Rightarrow> 'h option) \<Rightarrow> 'r list \<Rightarrow> 'h option" where
  "createSender new_sender trackers = (case trackers of [tracker] \<Rightarrow> new_sender tracker | _ \<Rightarrow> None)"

definition mgr_getSender ::
  "(int \<Rightarrow> 'r list) \<Rightarrow> ('r \<Rightarrow> 'h option) \<Rightarrow> int \<Rightarrow> bool \<Rightarrow> 'h sender_mgr \<Rightarrow> 'h option \<times> 'h sender_mgr" where
  "mgr_getSender getIncidentTrackers new_sender tid autoCreate m =
     (case map_of (sm_senders m) tid of
        Some h \<Rightarrow> (Some h, m)
      | None \<Rightarrow>
          if \<not> autoCreate then (None, m)
          else case createSender new_sender (getIncidentTrackers tid) of
            None \<Rightarrow> (None, m)
          | Some h \<Rightarrow> (Some h, m\<lparr>sm_senders := std_map_put tid h (sm_senders m)\<rparr>))"

text \<open>Queueing for a tracker: the error and the sender that got the job.\<close>

definition mgr_queue ::
  "(int \<Rightarrow> 'r list) \<Rightarrow> ('r \<Rightarrow> 'h option) \<Rightarrow> int \<Rightarrow> 'h sender_mgr \<Rightarrow> hterr \<times> 'h option \<times> 'h sender_mgr" where
  "mgr_queue getIncidentTrackers new_sender trackerId m =
     (case mgr_getSender getIncidentTrackers new_sender trackerId True m of
        (None, m) \<Rightarrow> (HTERR_FAILED_TO_SEND_INCIDENT, None, m)
      | (Some h, m) \<Rightarrow> (HTERR_OK, Some h, m))"

text \<open>\<open>deleteSender\<close> reads the element through its iterator after it has erased it.\<close>

definition deleteSender :: "int \<Rightarrow> 'h sender_mgr \<Rightarrow> mgr_exc + 'h sender_mgr" where
  "deleteSender tid m = (case map_of (sm_senders m) tid of None \<Rightarrow> Inr m | Some h \<Rightarrow> Inl MgrUndefined)"

text \<open>\<open>setOnChangedIncidentTracker\<close> calls a method of the sender that \<open>getSender\<close> returns, or of NULL.\<close>

definition mgr_setOnChangedIncidentTracker ::
  "(int \<Rightarrow> 'r list) \<Rightarrow> ('r \<Rightarrow> 'h option) \<Rightarrow> int \<Rightarrow> 'h sender_mgr \<Rightarrow> mgr_exc + 'h \<times> 'h sender_mgr" where
  "mgr_setOnChangedIncidentTracker getIncidentTrackers new_sender tid m =
     (case mgr_getSender getIncidentTrackers new_sender tid True m of (None, m) \<Rightarrow> Inl MgrUndefined | (Some h, m) \<Rightarrow> Inr (h, m))"

definition mgr_isIdling :: "('h \<Rightarrow> bool) \<Rightarrow> 'h sender_mgr \<Rightarrow> bool" where
  "mgr_isIdling idling m = list_all (\<lambda>(tid, h). idling h) (sm_senders m)"

lemma mgr_queue_same_sender:
  assumes "std_map_wf (sm_senders m)" "mgr_queue g n tid m = (HTERR_OK, Some h, m')"
  shows "mgr_queue g' n' tid m' = (HTERR_OK, Some h, m')"
  using assms by (auto simp: mgr_queue_def mgr_getSender_def map_of_std_map_put split: option.splits if_splits)

lemma deleteSender_undefined: "map_of (sm_senders m) tid = Some h \<Longrightarrow> deleteSender tid m = Inl MgrUndefined"
  by (simp add: deleteSender_def)

end
