(* ===== verification/Stat_Counter.thy ===== *)
theory Stat_Counter
  imports Hato_Prelude
begin

text \<open>
  Points in time (src/server/mlpl/src/SmartTime.cc) and the counter of events per interval
  (src/server/src/StatisticsCounter.cc). The current time is an argument of every operation that reads the clock.
\<close>

section \<open>Points in time\<close>

datatype smart_time = SmartTime (tv_sec: int) (tv_nsec: int)

definition NANO_SEC_PER_SEC :: int where
  "NANO_SEC_PER_SEC = 1000000000"

definition time_plus :: "smart_time \<Rightarrow> smart_time \<Rightarrow> smart_time" where
  "time_plus t rhs =
     (let sec = tv_sec t + tv_sec rhs; nsec = tv_nsec t + tv_nsec rhs
      in if nsec \<ge> NANO_SEC_PER_SEC then SmartTime (sec + 1) (nsec - NANO_SEC_PER_SEC) else SmartTime sec nsec)"

definition time_minus :: "smart_time \<Rightarrow> smart_time \<Rightarrow> smart_time" where
  "time_minus t rhs =
     (let sec = tv_sec t - tv_sec rhs; nsec = tv_nsec t - tv_nsec rhs
      in if nsec < 0 then SmartTime (sec - 1) (nsec + 1000000000) else SmartTime sec nsec)"

definition hasValidTime :: "smart_time \<Rightarrow> bool" where
  "hasValidTime t \<longleftrightarrow> tv_sec t \<noteq> 0 \<or> tv_nsec t \<noteq> 0"

definition time_ge :: "smart_time \<Rightarrow> smart_time \<Rightarrow> bool" where
  "time_ge t rhs \<longleftrightarrow>
     (if tv_sec t > tv_sec rhs then True else if tv_sec t < tv_sec rhs then False else tv_nsec t \<ge> tv_nsec rhs)"

definition time_gt :: "smart_time \<Rightarrow> smart_time \<Rightarrow> bool" where
  "time_gt t rhs \<longleftrightarrow> \<not> time_ge rhs t"

definition time_le :: "smart_time \<Rightarrow> smart_time \<Rightarrow> bool" where
  "time_le t rhs \<longleftrightarrow> \<not> time_gt t rhs"

definition time_less :: "smart_time \<Rightarrow> smart_time \<Rightarrow> bool" where
  "time_less t rhs \<longleftrightarrow> \<not> time_ge t rhs"

lemmas time_cmp_defs = time_gt_def time_le_def time_less_def time_ge_def

text \<open>The comparisons, all written with \<open>operator>=\<close>, make the points in time a linear order.\<close>

instantiation smart_time :: linorder
begin

definition less_eq_smart_time :: "smart_time \<Rightarrow> smart_time \<Rightarrow> bool" where
  "less_eq_smart_time = time_le"

definition less_smart_time :: "smart_time \<Rightarrow> smart_time \<Rightarrow> bool" where
  "less_smart_time = time_less"

instance
  by standard (auto simp: less_eq_smart_time_def less_smart_time_def time_cmp_defs smart_time.expand split: if_splits)

end

definition ns :: "smart_time \<Rightarrow> int" where
  "ns t = tv_sec t * NANO_SEC_PER_SEC + tv_nsec t"

definition time_ok :: "smart_time \<Rightarrow> bool" where
  "time_ok t \<longleftrightarrow> 0 \<le> tv_nsec t \<and> tv_nsec t < NANO_SEC_PER_SEC"

lemma time_plus_ns: "time_ok t \<Longrightarrow> time_ok u \<Longrightarrow> time_ok (time_plus t u) \<and> ns (time_plus t u) = ns t + ns u"
  by (auto simp: time_plus_def time_ok_def ns_def NANO_SEC_PER_SEC_def Let_def algebra_simps)

lemma time_minus_ns: "time_ok t \<Longrightarrow> time_ok u \<Longrightarrow> time_ok (time_minus t u) \<and> ns (time_minus t u) = ns t - ns u"
  by (auto simp: time_minus_def time_ok_def ns_def NANO_SEC_PER_SEC_def Let_def algebra_simps)

lemma less_ns: "time_ok t \<Longrightarrow> time_ok u \<Longrightarrow> t < u \<longleftrightarrow> ns t < ns u"
  by (auto simp: less_smart_time_def time_cmp_defs time_ok_def ns_def NANO_SEC_PER_SEC_def)

lemma le_ns: "time_ok t \<Longrightarrow> time_ok u \<Longrightarrow> t \<le> u \<longleftrightarrow> ns t \<le> ns u"
  by (auto simp: less_eq_smart_time_def time_cmp_defs time_ok_def ns_def NANO_SEC_PER_SEC_def)

section \<open>The counter\<close>

record slot =
  sl_start :: smart_time
  sl_end :: smart_time
  sl_number :: u64

record stat_counter =
  sc_interval :: smart_time
  sc_prev :: slot
  sc_curr :: slot
  sc_currEnd :: smart_time

definition initializeSlots :: "smart_time \<Rightarrow> stat_counter \<Rightarrow> stat_counter" where
  "initializeSlots now c =
     c\<lparr>sc_prev := \<lparr>sl_start = time_minus now (sc_interval c), sl_end = now, sl_number = 0\<rparr>,
       sc_curr := \<lparr>sl_start = now, sl_end = now, sl_number = 0\<rparr>,
       sc_currEnd := time_plus now (sc_interval c)\<rparr>"

definition mk_stat_counter :: "smart_time \<Rightarrow> smart_time \<Rightarrow> stat_counter" where
  "mk_stat_counter interval now =
     (let none = \<lparr>sl_start = SmartTime 0 0, sl_end = SmartTime 0 0, sl_number = 0\<rparr>
      in initializeSlots now \<lparr>sc_interval = interval, sc_prev = none, sc_curr = none, sc_currEnd = SmartTime 0 0\<rparr>)"

definition fixupSlots :: "smart_time \<Rightarrow> stat_counter \<Rightarrow> stat_counter" where
  "fixupSlots now c =
     (if now < sc_currEnd c then c\<lparr>sc_curr := (sc_curr c)\<lparr>sl_end := now\<rparr>\<rparr>
      else
        let nextEndTime = time_plus (sc_currEnd c) (sc_interval c) in
        if now < nextEndTime then
          let prev = (sc_curr c)\<lparr>sl_end := sc_currEnd c\<rparr>
          in c\<lparr>sc_prev := prev, sc_curr := \<lparr>sl_start = sl_end prev, sl_end = now, sl_number = 0\<rparr>, sc_currEnd := nextEndTime\<rparr>
        else initializeSlots now c)"

definition stat_add :: "smart_time \<Rightarrow> u64 \<Rightarrow> stat_counter \<Rightarrow> stat_counter" where
  "stat_add now number c =
     (let c = fixupSlots now c in c\<lparr>sc_curr := (sc_curr c)\<lparr>sl_number := sl_number (sc_curr c) + number\<rparr>\<rparr>)"

definition stat_get :: "smart_time \<Rightarrow> stat_counter \<Rightarrow> (slot \<times> slot) \<times> stat_counter" where
  "stat_get now c = (let c = fixupSlots now c in ((sc_prev c, sc_curr c), c))"

section \<open>What it counts\<close>

text \<open>The sum of what was added in an interval of time, open at its end.\<close>

definition added :: "(smart_time \<times> u64) list \<Rightarrow> int \<Rightarrow> int \<Rightarrow> u64" where
  "added log from until = sum_list (map snd (filter (\<lambda>e. from \<le> ns (fst e) \<and> ns (fst e) < until) log))"

text \<open>The uses of a counter when the clock does not go back.\<close>

inductive counter_run :: "smart_time \<Rightarrow> stat_counter \<Rightarrow> (smart_time \<times> u64) list \<Rightarrow> smart_time \<Rightarrow> bool" for interval where
  start: "time_ok now \<Longrightarrow> counter_run interval (mk_stat_counter interval now) [] now"
| add: "counter_run interval c log now \<Longrightarrow> time_ok now' \<Longrightarrow> now \<le> now'
    \<Longrightarrow> counter_run interval (stat_add now' n c) (log @ [(now', n)]) now'"
| get: "counter_run interval c log now \<Longrightarrow> time_ok now' \<Longrightarrow> now \<le> now'
    \<Longrightarrow> counter_run interval (snd (stat_get now' c)) log now'"

definition counter_ok :: "smart_time \<Rightarrow> stat_counter \<Rightarrow> (smart_time \<times> u64) list \<Rightarrow> smart_time \<Rightarrow> bool" where
  "counter_ok interval c log now \<longleftrightarrow>
     sc_interval c = interval \<and> time_ok now \<and> time_ok (sc_currEnd c) \<and> time_ok (sl_start (sc_curr c)) \<and> time_ok (sl_start (sc_prev c))
     \<and> ns (sc_currEnd c) = ns (sl_start (sc_curr c)) + ns interval \<and> ns (sl_start (sc_curr c)) \<le> ns now \<and> ns now < ns (sc_currEnd c)
     \<and> sl_end (sc_curr c) = now \<and> sl_end (sc_prev c) = sl_start (sc_curr c)
     \<and> ns (sl_start (sc_prev c)) = ns (sl_start (sc_curr c)) - ns interval
     \<and> sl_number (sc_curr c) = added log (ns (sl_start (sc_curr c))) (ns (sc_currEnd c))
     \<and> sl_number (sc_prev c) = added log (ns (sl_start (sc_prev c))) (ns (sl_start (sc_curr c)))
     \<and> (\<forall>e \<in> set log. ns (fst e) \<le> ns now)"

lemma added_none: "(\<And>e. e \<in> set log \<Longrightarrow> ns (fst e) < from) \<Longrightarrow> added log from until = 0"
proof -
  assume "\<And>e. e \<in> set log \<Longrightarrow> ns (fst e) < from"
  then have "filter (\<lambda>e. from \<le> ns (fst e) \<and> ns (fst e) < until) log = []" by (fastforce simp: filter_empty_conv)
  then show ?thesis by (simp add: added_def)
qed

lemma added_append: "added (log @ [e]) a b = added log a b + (if a \<le> ns (fst e) \<and> ns (fst e) < b then snd e else 0)"
  by (simp add: added_def)

lemma initializeSlots_ok:
  assumes "time_ok interval" "0 < ns interval" "time_ok now" "sc_interval c = interval" "\<forall>e \<in> set log. ns (fst e) < ns now - ns interval"
  shows "counter_ok interval (initializeSlots now c) log now"
proof -
  have "added log (ns now) b = 0" "added log (ns now - ns interval) b = 0" for b
    using assms(2,5) by (auto intro!: added_none)
  then show ?thesis using assms time_plus_ns [OF assms(3,1)] time_minus_ns [OF assms(3,1)]
    by (auto simp: counter_ok_def initializeSlots_def)
qed

lemma fixupSlots_ok:
  assumes iv: "time_ok interval" "0 < ns interval" and c: "counter_ok interval c log now" and now: "time_ok now'" "now \<le> now'"
  shows "counter_ok interval (fixupSlots now' c) log now'"
proof -
  have le: "ns now \<le> ns now'" using le_ns now c by (auto simp: counter_ok_def)
  have log: "\<forall>e \<in> set log. ns (fst e) \<le> ns now" "\<forall>e \<in> set log. ns (fst e) < ns (sc_currEnd c)" using c by (auto simp: counter_ok_def)
  let ?next = "time_plus (sc_currEnd c) interval"
  have nxt: "time_ok ?next" "ns ?next = ns (sc_currEnd c) + ns interval" using time_plus_ns c iv(1) by (auto simp: counter_ok_def)
  consider (same) "now' < sc_currEnd c" | (shift) "\<not> now' < sc_currEnd c" "now' < ?next" | (fresh) "\<not> now' < sc_currEnd c" "\<not> now' < ?next"
    by blast
  then show ?thesis
  proof cases
    case same
    then show ?thesis using c now le less_ns by (fastforce simp: counter_ok_def fixupSlots_def)
  next
    case shift
    then have t: "ns (sc_currEnd c) \<le> ns now'" "ns now' < ns ?next" using less_ns now(1) nxt(1) c by (auto simp: counter_ok_def)
    have "added log (ns (sc_currEnd c)) (ns ?next) = 0" using log(2) by (auto intro!: added_none)
    then show ?thesis using shift c now t nxt log(2) le
      by (fastforce simp: counter_ok_def fixupSlots_def Let_def)
  next
    case fresh
    then have "ns ?next \<le> ns now'" using less_ns now(1) nxt(1) by auto
    then have "\<forall>e \<in> set log. ns (fst e) < ns now' - ns interval" using log(2) nxt(2) by fastforce
    then have "counter_ok interval (initializeSlots now' c) log now'"
      using iv now(1) c by (intro initializeSlots_ok) (auto simp: counter_ok_def)
    then show ?thesis using fresh c by (simp add: fixupSlots_def counter_ok_def)
  qed
qed

lemma stat_add_ok:
  assumes "time_ok interval" "0 < ns interval" "counter_ok interval c log now" "time_ok now'" "now \<le> now'"
  shows "counter_ok interval (stat_add now' n c) (log @ [(now', n)]) now'"
  using fixupSlots_ok [OF assms] by (auto simp: counter_ok_def stat_add_def Let_def added_append)

lemma counter_run_ok:
  assumes "counter_run interval c log now" "time_ok interval" "0 < ns interval"
  shows "counter_ok interval c log now"
  using assms(1)
proof (induction rule: counter_run.induct)
  case (start now)
  then show ?case using assms(2,3) by (auto simp: mk_stat_counter_def Let_def intro!: initializeSlots_ok)
next
  case (add c log now now' n)
  then show ?case using stat_add_ok assms(2,3) by blast
next
  case (get c log now now')
  then show ?case using fixupSlots_ok assms(2,3) by (simp add: stat_get_def Let_def)
qed

text \<open>
  C28. While the clock does not go back, \<open>get\<close> returns two adjacent slots: the previous one has exactly the
  length of the interval and the current one reaches from its end to now, for less than an interval. Each
  holds the sum of what was added in it, modulo \<open>2 ^ 64\<close>, though the counter keeps no more than these
  two numbers.
\<close>

theorem statistics_slots_exact:
  assumes "counter_run interval c log now" and "time_ok interval" "0 < ns interval" and "time_ok now'" "now \<le> now'"
    and "stat_get now' c = ((prev, cur), c')"
  shows "ns (sl_end prev) = ns (sl_start prev) + ns interval \<and> sl_start cur = sl_end prev \<and> sl_end cur = now'
    \<and> ns (sl_start cur) \<le> ns now' \<and> ns now' < ns (sl_start cur) + ns interval
    \<and> sl_number prev = added log (ns (sl_start prev)) (ns (sl_end prev))
    \<and> sl_number cur = added log (ns (sl_start cur)) (ns now' + 1)"
proof -
  have ok: "counter_ok interval c' log now'"
    using fixupSlots_ok [OF assms(2,3) counter_run_ok [OF assms(1-3)] assms(4,5)] assms(6) by (simp add: stat_get_def Let_def)
  have pc: "prev = sc_prev c'" "cur = sc_curr c'" using assms(6) by (auto simp: stat_get_def Let_def)
  have "added log a (ns (sc_currEnd c')) = added log a (ns now' + 1)" for a
    using ok by (auto simp: counter_ok_def added_def intro!: arg_cong [where f = "\<lambda>xs. sum_list (map snd xs)"] filter_cong)
  then show ?thesis using ok pc by (auto simp: counter_ok_def)
qed

theorem statistics_slots_exact_witness:
  "\<exists>prev cur c'. stat_get (SmartTime 12 0) (stat_add (SmartTime 3 0) 7 (mk_stat_counter (SmartTime 10 0) (SmartTime 0 0)))
      = ((prev, cur), c')
    \<and> sl_number prev = added [(SmartTime 3 0, 7)] (ns (sl_start prev)) (ns (sl_end prev))"
proof -
  have ok: "time_ok (SmartTime s 0)" for s by (simp add: time_ok_def NANO_SEC_PER_SEC_def)
  have le: "SmartTime a 0 \<le> SmartTime b 0 \<longleftrightarrow> a \<le> b" for a b by (auto simp: less_eq_smart_time_def time_cmp_defs)
  have run: "counter_run (SmartTime 10 0) (stat_add (SmartTime 3 0) 7 (mk_stat_counter (SmartTime 10 0) (SmartTime 0 0))) ([] @ [(SmartTime 3 0, 7)]) (SmartTime 3 0)"
    by (rule counter_run.add [OF counter_run.start]) (simp_all add: ok le)
  obtain prev cur c' where g: "stat_get (SmartTime 12 0) (stat_add (SmartTime 3 0) 7 (mk_stat_counter (SmartTime 10 0) (SmartTime 0 0)))
      = ((prev, cur), c')" by (metis prod.collapse)
  show ?thesis using statistics_slots_exact [OF run ok _ ok _ g] g by (auto simp: le ns_def NANO_SEC_PER_SEC_def)
qed

end
