(* ===== verification/Host_Cache.thy ===== *)
theory Host_Cache
  imports Host_Tables
begin

text \<open>
  The cache of hosts of one monitoring server (src/server/src/HostInfoCache.cc): from the identifier of a host in
  the server to its global identifier and name. Every method holds the lock, so each is one step.
\<close>

section \<open>The model\<close>

record cache_elem =
  ce_hostId :: int
  ce_name :: string

type_synonym host_cache = "(string \<times> cache_elem) list"

definition cache_update :: "server_host_def \<Rightarrow> int \<Rightarrow> bool \<Rightarrow> host_cache \<Rightarrow> host_cache res" where
  "cache_update d hostId adhoc m =
     (let doUpdate = (case map_of m (sh_hostIdInServer d) of Some elem \<Rightarrow> ce_name elem \<noteq> sh_name d | None \<Rightarrow> True)
      in if \<not> doUpdate then Inr m
         else
           let elem = \<lparr>ce_hostId = (if hostId \<noteq> INVALID_HOST_ID then hostId else sh_hostId d), ce_name = sh_name d\<rparr>
           in if adhoc \<or> ce_hostId elem \<noteq> INVALID_HOST_ID then Inr (std_map_put (sh_hostIdInServer d) elem m)
              else Inl HatoholException)"

definition cache_getHostId :: "server_host_def \<Rightarrow> (string \<times> int) list option \<Rightarrow> int" where
  "cache_getHostId d hostHostIdMap =
     (case hostHostIdMap of
        None \<Rightarrow> INVALID_HOST_ID
      | Some ids \<Rightarrow> (case map_of ids (sh_hostIdInServer d) of None \<Rightarrow> INVALID_HOST_ID | Some i \<Rightarrow> i))"

definition cache_update_all :: "server_host_def list \<Rightarrow> (string \<times> int) list option \<Rightarrow> host_cache \<Rightarrow> host_cache res" where
  "cache_update_all svHostDefs ids m = foldR (\<lambda>d. cache_update d (cache_getHostId d ids) False) svHostDefs m"

text \<open>The constructor with a server fills the cache with the hosts that the query for the server returns.\<close>

definition mk_host_cache :: "server_host_def list option \<Rightarrow> host_cache res" where
  "mk_host_cache svHostDefs = (case svHostDefs of None \<Rightarrow> Inr [] | Some ds \<Rightarrow> cache_update_all ds None [])"

definition cache_getName :: "string \<Rightarrow> host_cache \<Rightarrow> cache_elem option" where
  "cache_getName hid m = map_of m hid"

definition registerAdHoc :: "string \<Rightarrow> string \<Rightarrow> host_cache \<Rightarrow> (cache_elem \<times> host_cache) res" where
  "registerAdHoc idInServer name m =
     (let d = \<lparr>sh_id = -1, sh_hostId = INVALID_HOST_ID, sh_serverId = -2, sh_hostIdInServer = idInServer, sh_name = name,
               sh_status = HOST_STAT_INAPPLICABLE\<rparr>
      in bindR (cache_update d INVALID_HOST_ID True m) (\<lambda>m.
           Inr (\<lparr>ce_hostId = sh_hostId d, ce_name = sh_name d\<rparr>, m)))"

section \<open>Properties\<close>

text \<open>What one update leaves for an identifier: a known name keeps its entry.\<close>

definition merged :: "server_host_def \<Rightarrow> int \<Rightarrow> cache_elem option \<Rightarrow> cache_elem" where
  "merged d hostId old =
     (case old of
        Some elem \<Rightarrow> if ce_name elem = sh_name d then elem
          else \<lparr>ce_hostId = (if hostId \<noteq> INVALID_HOST_ID then hostId else sh_hostId d), ce_name = sh_name d\<rparr>
      | None \<Rightarrow> \<lparr>ce_hostId = (if hostId \<noteq> INVALID_HOST_ID then hostId else sh_hostId d), ce_name = sh_name d\<rparr>)"

lemma cache_update_Inr:
  assumes "std_map_wf m" "cache_update d hostId adhoc m = Inr m'"
  shows "std_map_wf m' \<and> map_of m' = (map_of m)(sh_hostIdInServer d \<mapsto> merged d hostId (map_of m (sh_hostIdInServer d)))"
  using assms by (auto simp: cache_update_def merged_def Let_def map_of_std_map_put fun_eq_iff split: if_splits option.splits)

text \<open>The name that a list of reports gives an identifier: that of its last report.\<close>

definition reported_name :: "server_host_def list \<Rightarrow> string \<Rightarrow> string option" where
  "reported_name ds hid = map_option sh_name (find (\<lambda>d. sh_hostIdInServer d = hid) (rev ds))"

lemma reported_name_Cons:
  "reported_name (d # ds) hid = (case reported_name ds hid of Some n \<Rightarrow> Some n
     | None \<Rightarrow> if sh_hostIdInServer d = hid then Some (sh_name d) else None)"
  by (auto simp: reported_name_def find_append split: option.splits)

lemma merged_name [simp]: "ce_name (merged d i old) = sh_name d"
  by (simp add: merged_def split: option.splits)

lemma cache_update_all_names:
  assumes "std_map_wf m" "cache_update_all ds ids m = Inr m'"
  shows "std_map_wf m' \<and> map_option ce_name (cache_getName hid m')
    = (case reported_name ds hid of Some n \<Rightarrow> Some n | None \<Rightarrow> map_option ce_name (cache_getName hid m))"
  using assms unfolding cache_update_all_def
proof (induction ds arbitrary: m)
  case Nil
  then show ?case by (simp add: reported_name_def)
next
  case (Cons d ds)
  then obtain m1 where m1: "cache_update d (cache_getHostId d ids) False m = Inr m1"
      "foldR (\<lambda>d. cache_update d (cache_getHostId d ids) False) ds m1 = Inr m'" by (auto simp: res_simps)
  note up = cache_update_Inr [OF Cons.prems(1) m1(1)]
  from Cons.IH [OF conjunct1 [OF up] m1(2)] up show ?case
    by (auto simp: reported_name_Cons cache_getName_def split: option.splits)
qed

lemma no_exception_with_ids:
  assumes "\<forall>d \<in> set ds. sh_hostId d \<noteq> INVALID_HOST_ID"
  shows "\<exists>m'. cache_update_all ds ids m = Inr m'"
  unfolding cache_update_all_def
  using assms
proof (induction ds arbitrary: m)
  case (Cons d ds)
  have "\<exists>m1. cache_update d (cache_getHostId d ids) False m = Inr m1" using Cons.prems by (auto simp: cache_update_def Let_def)
  then show ?case using Cons by auto
qed simp

text \<open>
  When every report has a global host identifier the cache takes it without an exception, and afterwards
  an identifier has the name of its last report, or the one it had before when there is none.
\<close>

lemma host_cache_names:
  assumes "std_map_wf m" and "\<forall>d \<in> set ds. sh_hostId d \<noteq> INVALID_HOST_ID"
  shows "\<exists>m'. cache_update_all ds ids m = Inr m' \<and> map_option ce_name (cache_getName hid m')
    = (case reported_name ds hid of Some n \<Rightarrow> Some n | None \<Rightarrow> map_option ce_name (cache_getName hid m))"
  using no_exception_with_ids [OF assms(2)] cache_update_all_names [OF assms(1)] by blast

lemma host_cache_names_witness:
  "\<exists>m'. cache_update_all [\<lparr>sh_id = 1, sh_hostId = 5, sh_serverId = 1, sh_hostIdInServer = ''a'', sh_name = ''web'', sh_status = 0\<rparr>] None [] = Inr m'
    \<and> map_option ce_name (cache_getName ''a'' m') = Some ''web''"
  using host_cache_names [of "[]" "[\<lparr>sh_id = 1, sh_hostId = 5, sh_serverId = 1, sh_hostIdInServer = ''a'', sh_name = ''web'', sh_status = 0\<rparr>]" None "''a''"]
  by (simp add: INVALID_HOST_ID_def reported_name_def)

text \<open>
  A host that was registered ad hoc keeps the invalid global identifier when its report arrives with the
  same name.
\<close>

lemma adhoc_host_id_stuck:
  assumes "std_map_wf m" "cache_getName hid m = None" "registerAdHoc hid n m = Inr (e, m1)"
    and "sh_hostIdInServer d = hid" "sh_name d = n" "cache_update_all [d] ids m1 = Inr m2"
  shows "map_option ce_hostId (cache_getName hid m2) = Some INVALID_HOST_ID"
  using assms by (auto simp: registerAdHoc_def cache_update_def cache_getName_def cache_update_all_def map_of_std_map_put
      split: if_splits option.splits)

end
