(* ===== verification/Last_Info.thy ===== *)
theory Last_Info
  imports Host_Sync
begin

text \<open>
  The marks that plugins leave about what they sent last (src/server/src/DBTablesLastInfo.cc): one text for
  every kind of data and server.
\<close>

section \<open>The table\<close>

definition LAST_INFO_ALL :: int where
  "LAST_INFO_ALL = -1"

definition INVALID_LAST_INFO_ID :: int where
  "INVALID_LAST_INFO_ID = 2 ^ 64 - 1"

definition INVALID_LAST_INFO_SERVER_ID :: int where
  "INVALID_LAST_INFO_SERVER_ID = -1"

record last_info =
  li_id :: int
  li_dataType :: int
  li_value :: string
  li_serverId :: int

type_synonym last_db = "last_info list db_state"

definition COLUMN_DEF_LAST_INFO :: "column_def list" where
  "COLUMN_DEF_LAST_INFO =
     [column ''last_info_id'' SQL_COLUMN_TYPE_BIGUINT 20 SQL_KEY_PRI SQL_COLUMN_FLAG_AUTO_INC,
      (column ''data_type'' SQL_COLUMN_TYPE_INT 11 SQL_KEY_IDX 0)\<lparr>cd_canBeNull := True\<rparr>,
      (column ''value'' SQL_COLUMN_TYPE_VARCHAR 32767 SQL_KEY_NONE 0)\<lparr>cd_canBeNull := True\<rparr>,
      (column ''server_id'' SQL_COLUMN_TYPE_INT 11 SQL_KEY_IDX 0)\<lparr>cd_canBeNull := True\<rparr>]"

definition tableProfileLastInfo :: table_profile where
  "tableProfileLastInfo =
     \<lparr>tp_name = ''last_info'', tp_columnDefs = COLUMN_DEF_LAST_INFO,
      tp_indexDefs = [\<lparr>ix_name = ''LastUniqId'', ix_columnIndexes = [1, 3], ix_isUnique = True\<rparr>],
      tp_uniqueKeyColumnIndexes = [1, 3]\<rparr>"

definition last_row :: "last_info \<Rightarrow> sql_row" where
  "last_row l = (\<lambda>_. VStr [])(''last_info_id'' := VInt (li_id l), ''data_type'' := VInt (li_dataType l),
     ''value'' := VStr (li_value l), ''server_id'' := VInt (li_serverId l))"

abbreviation last_key :: "last_info \<Rightarrow> int \<times> int" where
  "last_key l \<equiv> (li_dataType l, li_serverId l)"

definition last_keys :: "(last_info, int \<times> int) table_keys" where
  "last_keys = \<lparr>tk_id = li_id, tk_setId = (\<lambda>i l. l\<lparr>li_id := i\<rparr>), tk_unique = Some last_key\<rparr>"

section \<open>Conditions\<close>

record last_option =
  lq_type :: int
  lq_idList :: "int list"
  lq_serverId :: int

definition mk_last_option :: last_option where
  "mk_last_option = \<lparr>lq_type = LAST_INFO_ALL, lq_idList = [], lq_serverId = INVALID_LAST_INFO_SERVER_ID\<rparr>"

definition last_makeIdListCondition :: "int list \<Rightarrow> string" where
  "last_makeIdListCondition idList = inject_loop True '','' (map dec_int idList) ''last_info_id in ('' @ '')''"

definition makeServerIdCondition :: "int \<Rightarrow> string" where
  "makeServerIdCondition serverId = ''server_id='' @ dec_int serverId"

definition getLastInfoTypeCondition :: "last_option \<Rightarrow> string" where
  "getLastInfoTypeCondition opt = (if lq_type opt = LAST_INFO_ALL then [] else ''data_type='' @ dec_int (lq_type opt))"

definition lq_getCondition :: "last_option \<Rightarrow> string" where
  "lq_getCondition opt =
     (let glue = (\<lambda>cond. if cond = [] then [] else cond @ '' AND '');
          cond = [];
          typeCond = getLastInfoTypeCondition opt;
          cond = (if typeCond \<noteq> [] then glue cond @ typeCond else cond);
          cond = (if lq_idList opt \<noteq> [] then glue cond @ last_makeIdListCondition (lq_idList opt) else cond)
      in if lq_serverId opt \<noteq> INVALID_LAST_INFO_SERVER_ID then glue cond @ makeServerIdCondition (lq_serverId opt) else cond)"

section \<open>Operations\<close>

text \<open>The three checks of privileges are the same.\<close>

definition last_checkPrivilege :: "op_privilege \<Rightarrow> hterr" where
  "last_checkPrivilege p = (if op_userId p = INVALID_USER_ID then HTERR_INVALID_USER else HTERR_OK)"

text \<open>
  The identifier that \<open>upsertLastInfo\<close> returns is what the connection reports as inserted last: the new row's,
  or, when a row was updated, whatever it reports then, which is the argument \<open>stale\<close>.
\<close>

definition upsert_last :: "host_env \<Rightarrow> int \<Rightarrow> last_info \<Rightarrow> last_info list \<Rightarrow> (last_info list \<times> int) res" where
  "upsert_last env stale l rows =
     bindR (agent_upsert (he_agent env) (he_engine env) last_keys (l\<lparr>li_value := cstr (li_value l)\<rparr>) rows) (\<lambda>(rows', _).
       Inr (rows', if length rows < length rows' then li_id (last rows') else stale))"

definition upsertLastInfo :: "host_env \<Rightarrow> int \<Rightarrow> last_info \<Rightarrow> op_privilege \<Rightarrow> bool \<Rightarrow> last_db \<Rightarrow> (last_db \<times> int) res" where
  "upsertLastInfo env stale l p useTransaction db =
     (if last_checkPrivilege p \<noteq> HTERR_OK then Inr (db, INVALID_LAST_INFO_ID)
      else if useTransaction then table_trx (\<lambda>rows _. upsert_last env stale l rows) None db 0
      else bindR (upsert_last env stale l (st_data db)) (\<lambda>(rows, i). Inr (db\<lparr>st_data := rows\<rparr>, i)))"

definition updateLastInfo :: "host_env \<Rightarrow> last_info \<Rightarrow> op_privilege \<Rightarrow> last_db \<Rightarrow> (hterr \<times> last_db) res" where
  "updateLastInfo env l p db =
     (if last_checkPrivilege p \<noteq> HTERR_OK then Inr (last_checkPrivilege p, db)
      else bindR (table_trx (\<lambda>rows _.
             let rows' = tbl_update (he_engine env) last_row (''last_info_id='' @ dec_int (li_id l))
                   (\<lambda>r. r\<lparr>li_dataType := li_dataType l, li_value := cstr (li_value l), li_serverId := li_serverId l\<rparr>) rows
             in if keys_unique last_keys rows' then Inr (rows', ()) else Inl HatoholException) None db ())
           (\<lambda>(db, _). Inr (HTERR_OK, db)))"

definition getLastInfoList :: "host_env \<Rightarrow> last_option \<Rightarrow> last_db \<Rightarrow> hterr \<times> last_info list" where
  "getLastInfoList env opt db = (HTERR_OK, tbl_select (he_engine env) last_row (lq_getCondition opt) (st_data db))"

definition deleteLastInfoList :: "host_env \<Rightarrow> int list \<Rightarrow> op_privilege \<Rightarrow> last_db \<Rightarrow> (hterr \<times> last_db) res" where
  "deleteLastInfoList env idList p db =
     (if last_checkPrivilege p \<noteq> HTERR_OK then Inr (last_checkPrivilege p, db)
      else if idList = [] then Inr (HTERR_INVALID_PARAMETER, db)
      else bindR (table_trx (\<lambda>rows _.
             let rows' = tbl_delete (he_engine env) last_row (last_makeIdListCondition idList) rows
             in Inr (rows', length rows - length rows')) None db 0) (\<lambda>(db, numAffectedRows).
           Inr (if numAffectedRows \<noteq> length idList then HTERR_DELETE_INCOMPLETE else HTERR_OK, db)))"

section \<open>What the conditions select\<close>

interpretation lasts: keyed_table last_keys last_key
  by unfold_locales (simp_all add: last_keys_def)

definition lq_accepts :: "last_option \<Rightarrow> last_info \<Rightarrow> bool" where
  "lq_accepts opt l \<longleftrightarrow> (lq_type opt \<noteq> LAST_INFO_ALL \<longrightarrow> li_dataType l = lq_type opt)
     \<and> (lq_idList opt \<noteq> [] \<longrightarrow> li_id l \<in> set (lq_idList opt))
     \<and> (lq_serverId opt \<noteq> INVALID_LAST_INFO_SERVER_ID \<longrightarrow> li_serverId l = lq_serverId opt)"

text \<open>The parts of the text with the atoms that they are read as.\<close>

definition lq_parts :: "last_option \<Rightarrow> (string \<times> sql_atom) list" where
  "lq_parts opt =
     (if lq_type opt \<noteq> LAST_INFO_ALL then [(getLastInfoTypeCondition opt, AtEq ''data_type'' (VInt (lq_type opt)))] else [])
     @ (if lq_idList opt \<noteq> [] then [(last_makeIdListCondition (lq_idList opt), AtIn ''last_info_id'' (map VInt (lq_idList opt)))] else [])
     @ (if lq_serverId opt \<noteq> INVALID_LAST_INFO_SERVER_ID
        then [(makeServerIdCondition (lq_serverId opt), AtEq ''server_id'' (VInt (lq_serverId opt)))] else [])"

lemma last_idents [simp]: "ident ''last_info_id''" "ident ''data_type''" "ident ''server_id''"
  by code_simp+

lemma lq_parts_lexed:
  assumes "(s, a) \<in> set (lq_parts opt)"
  shows "s \<noteq> []" "lexes s (atom_toks a) \<and> wf_atom a \<and> cols_ok a"
proof -
  show "s \<noteq> []"
    using assms by (auto simp: lq_parts_def getLastInfoTypeCondition_def last_makeIdListCondition_def makeServerIdCondition_def split: if_splits)
  have "lexes (getLastInfoTypeCondition opt) (atom_toks (AtEq ''data_type'' (VInt (lq_type opt))))" if "lq_type opt \<noteq> LAST_INFO_ALL"
    using that lexes_ident_eq [of "''data_type''" "VInt (lq_type opt)"] by (simp add: getLastInfoTypeCondition_def enc_int_def)
  moreover have "lexes (last_makeIdListCondition (lq_idList opt)) (atom_toks (AtIn ''last_info_id'' (map VInt (lq_idList opt))))"
    if "lq_idList opt \<noteq> []"
    using that lexes_ident_in_lower [of "''last_info_id''" "map VInt (lq_idList opt)"]
    by (simp add: last_makeIdListCondition_def inject_loop_join comp_def enc_int_def)
  moreover have "lexes (makeServerIdCondition (lq_serverId opt)) (atom_toks (AtEq ''server_id'' (VInt (lq_serverId opt))))"
    using lexes_ident_eq [of "''server_id''" "VInt (lq_serverId opt)"] by (simp add: makeServerIdCondition_def enc_int_def)
  ultimately show "lexes s (atom_toks a) \<and> wf_atom a \<and> cols_ok a"
    using assms by (auto simp: lq_parts_def split: if_splits)
qed

lemma lq_condition: "lq_getCondition opt = join_with '' AND '' (map fst (lq_parts opt))"
  by (auto simp: lq_getCondition_def lq_parts_def Let_def getLastInfoTypeCondition_def last_makeIdListCondition_def)

lemma lq_parts_hold: "(\<forall>(s, a) \<in> set (lq_parts opt). holds_atom (last_row l) a) \<longleftrightarrow> lq_accepts opt l"
  by (auto simp: lq_parts_def lq_accepts_def last_row_def)

context host_env_ok
begin

lemma last_rows: "where_rows (he_engine env) last_row (lq_getCondition opt) = lq_accepts opt"
proof (cases "lq_parts opt = []")
  case True
  then show ?thesis using lq_parts_hold [of opt] by (auto simp: where_rows_def lq_condition fun_eq_iff)
next
  case False
  have ne: "join_with '' AND '' (map fst (lq_parts opt)) \<noteq> []"
    using False lq_parts_lexed(1) by (subst join_with_eq_Nil) fastforce+
  show ?thesis
    unfolding lq_condition
    by (rule where_rows_sql [OF _ ne]) (subst sql_where_and [OF _ False ne], use lq_parts_lexed(2) lq_parts_hold in auto)
qed

lemma getLastInfoList_rows: "getLastInfoList env opt db = (HTERR_OK, filter (lq_accepts opt) (st_data db))"
  by (simp add: getLastInfoList_def tbl_select_def last_rows)

lemma upsertLastInfo_map:
  assumes "lasts.wf_rows (st_data db)" "op_userId p \<noteq> INVALID_USER_ID" "li_id l = AUTO_INCREMENT_VALUE"
  obtains db' i j where "upsertLastInfo env stale l p trx db = Inr (db', i)" "lasts.wf_rows (st_data db')"
    "lasts.lookup (st_data db') = (lasts.lookup (st_data db))(last_key l := Some (l\<lparr>li_id := j, li_value := cstr (li_value l)\<rparr>))"
    "set (st_data db') = insert (l\<lparr>li_id := j, li_value := cstr (li_value l)\<rparr>) {r \<in> set (st_data db). last_key r \<noteq> last_key l}"
    "j = (case lasts.lookup (st_data db) (last_key l) of Some r \<Rightarrow> li_id r | None \<Rightarrow> en_nextId (he_engine env) (map li_id (st_data db)))"
proof -
  let ?l = "l\<lparr>li_value := cstr (li_value l)\<rparr>"
  have auto: "tk_id last_keys ?l = 0" using assms(3) by (simp add: last_keys_def AUTO_INCREMENT_VALUE_def)
  obtain rows' b j where u: "agent_upsert (he_agent env) (he_engine env) last_keys ?l (st_data db) = Inr (rows', b)" "lasts.wf_rows rows'"
    "lasts.lookup rows' = (lasts.lookup (st_data db))(last_key ?l := Some (tk_setId last_keys j ?l))"
    "set rows' = insert (tk_setId last_keys j ?l) {r \<in> set (st_data db). last_key r \<noteq> last_key ?l}"
    "j = (case lasts.lookup (st_data db) (last_key ?l) of Some r \<Rightarrow> tk_id last_keys r
       | None \<Rightarrow> en_nextId (he_engine env) (map (tk_id last_keys) (st_data db)))"
    by (rule lasts.upsert_auto [OF user_engine_ok_axioms assms(1) auto, of "he_agent env"])
  have l: "tk_setId last_keys j ?l = l\<lparr>li_id := j, li_value := cstr (li_value l)\<rparr>" "tk_id last_keys = li_id" by (simp_all add: last_keys_def)
  have "\<exists>i db'. upsertLastInfo env stale l p trx db = Inr (db', i) \<and> st_data db' = rows'"
    using u(1) assms(2) by (simp add: upsertLastInfo_def last_checkPrivilege_def upsert_last_def table_trx_run)
  then show thesis using that u(2-5) unfolding l by auto
qed

end

text \<open>
  What a plugin stored last for a kind of data of its server is what it reads: storing a mark changes the
  mark of that kind and server and no other, keeps at most one for each, and the query for that kind and
  server returns this mark alone, with the text up to its first NUL.
\<close>

lemma last_info_roundtrip:
  assumes "host_env_ok env" and "lasts.wf_rows (st_data db)" and "op_userId p \<noteq> INVALID_USER_ID" and "li_id l = AUTO_INCREMENT_VALUE"
    and "li_dataType l \<noteq> LAST_INFO_ALL" and "li_serverId l \<noteq> INVALID_LAST_INFO_SERVER_ID"
  shows "\<exists>db' i j. upsertLastInfo env stale l p trx db = Inr (db', i) \<and> lasts.wf_rows (st_data db')
    \<and> getLastInfoList env \<lparr>lq_type = li_dataType l, lq_idList = [], lq_serverId = li_serverId l\<rparr> db'
        = (HTERR_OK, [l\<lparr>li_id := j, li_value := cstr (li_value l)\<rparr>])
    \<and> (\<forall>k. k \<noteq> last_key l \<longrightarrow> lasts.lookup (st_data db') k = lasts.lookup (st_data db) k)"
proof -
  obtain db' i j where u: "upsertLastInfo env stale l p trx db = Inr (db', i)" "lasts.wf_rows (st_data db')"
    "lasts.lookup (st_data db') = (lasts.lookup (st_data db))(last_key l := Some (l\<lparr>li_id := j, li_value := cstr (li_value l)\<rparr>))"
    "set (st_data db') = insert (l\<lparr>li_id := j, li_value := cstr (li_value l)\<rparr>) {r \<in> set (st_data db). last_key r \<noteq> last_key l}"
    by (rule host_env_ok.upsertLastInfo_map [OF assms(1-4)])
  let ?o = "\<lparr>lq_type = li_dataType l, lq_idList = [], lq_serverId = li_serverId l\<rparr>" and ?new = "l\<lparr>li_id := j, li_value := cstr (li_value l)\<rparr>"
  have "set (filter (lq_accepts ?o) (st_data db')) = {?new}" using assms(5,6) by (auto simp: lq_accepts_def u(4))
  moreover have "distinct (filter (lq_accepts ?o) (st_data db'))" using u(2) by (auto simp: lasts.wf_rows_def distinct_map intro: distinct_filter)
  ultimately have "filter (lq_accepts ?o) (st_data db') = [?new]"
    by (cases "filter (lq_accepts ?o) (st_data db')"; cases "tl (filter (lq_accepts ?o) (st_data db'))") auto
  then show ?thesis using u(1-3) by (intro exI [of _ db'] exI [of _ i] exI [of _ j]) (simp add: host_env_ok.getLastInfoList_rows [OF assms(1)])
qed

definition ex_last_db :: last_db where
  "ex_last_db = \<lparr>st_data = [\<lparr>li_id = 3, li_dataType = 4, li_value = ''100'', li_serverId = 1\<rparr>,
     \<lparr>li_id = 4, li_dataType = 3, li_value = ''20'', li_serverId = 1\<rparr>], st_base = None\<rparr>"

definition ex_mark :: last_info where
  "ex_mark = \<lparr>li_id = 0, li_dataType = 4, li_value = ''101'', li_serverId = 1\<rparr>"

text \<open>The mark of the events of server 1 moves on; the mark of its triggers stays.\<close>

lemma last_info_roundtrip_witness:
  "\<exists>db' i j. upsertLastInfo ex_host_env 9 ex_mark ex_admin True ex_last_db = Inr (db', i)
     \<and> getLastInfoList ex_host_env \<lparr>lq_type = 4, lq_idList = [], lq_serverId = 1\<rparr> db'
         = (HTERR_OK, [\<lparr>li_id = j, li_dataType = 4, li_value = ''101'', li_serverId = 1\<rparr>])
     \<and> lasts.lookup (st_data db') (3, 1) = Some \<lparr>li_id = 4, li_dataType = 3, li_value = ''20'', li_serverId = 1\<rparr>"
proof -
  have "tk_id last_keys = li_id" by (simp add: last_keys_def)
  then have wf: "lasts.wf_rows (st_data ex_last_db)" unfolding lasts.wf_rows_def by (simp add: ex_last_db_def)
  have hyps: "op_userId ex_admin \<noteq> INVALID_USER_ID" "li_id ex_mark = AUTO_INCREMENT_VALUE"
      "li_dataType ex_mark \<noteq> LAST_INFO_ALL" "li_serverId ex_mark \<noteq> INVALID_LAST_INFO_SERVER_ID"
    by (simp_all add: ex_mark_def ex_admin_def INVALID_USER_ID_def AUTO_INCREMENT_VALUE_def
        LAST_INFO_ALL_def INVALID_LAST_INFO_SERVER_ID_def)
  have vals: "li_dataType ex_mark = 4" "li_serverId ex_mark = 1" "cstr (li_value ex_mark) = ''101''"
      "ex_mark\<lparr>li_id := j, li_value := ''101''\<rparr> = \<lparr>li_id = j, li_dataType = 4, li_value = ''101'', li_serverId = 1\<rparr>" for j
    by (simp_all add: ex_mark_def cstr_def nul_def)
  have "lasts.lookup (st_data ex_last_db) (3, 1) = Some \<lparr>li_id = 4, li_dataType = 3, li_value = ''20'', li_serverId = 1\<rparr>"
    by (simp add: lasts.lookup_def ex_last_db_def)
  then show ?thesis
    using last_info_roundtrip [OF ex_hosts.host_env_ok_axioms wf hyps, of 9 True] unfolding vals by fastforce
qed

section \<open>Updates and deletions\<close>

text \<open>Deleting marks by identifier removes exactly these, and says whether all of them were there.\<close>

lemma deleteLastInfoList_exact:
  assumes "host_env_ok env" "op_userId p \<noteq> INVALID_USER_ID" "ids \<noteq> []"
  shows "\<exists>db'. deleteLastInfoList env ids p db = Inr (if length (filter (\<lambda>l. li_id l \<in> set ids) (st_data db)) = length ids
      then HTERR_OK else HTERR_DELETE_INCOMPLETE, db') \<and> st_data db' = filter (\<lambda>l. li_id l \<notin> set ids) (st_data db)"
proof -
  have "lq_getCondition (mk_last_option\<lparr>lq_idList := ids\<rparr>) = last_makeIdListCondition ids"
    using assms(3) by (simp add: lq_getCondition_def mk_last_option_def getLastInfoTypeCondition_def)
  then have sel: "where_rows (he_engine env) last_row (last_makeIdListCondition ids) = (\<lambda>l. li_id l \<in> set ids)"
    using host_env_ok.last_rows [OF assms(1), of "mk_last_option\<lparr>lq_idList := ids\<rparr>"] assms(3)
    by (simp add: lq_accepts_def mk_last_option_def fun_eq_iff)
  show ?thesis
    using assms(2,3) sum_length_filter_compl [of "\<lambda>l. li_id l \<in> set ids" "st_data db"]
    by (auto simp: deleteLastInfoList_def last_checkPrivilege_def table_trx_run Let_def tbl_delete_def sel)
qed

text \<open>
  An update that would give two marks the same kind and server is refused by the database: the
  transaction is rolled back and the exception reaches the caller.
\<close>

lemma updateLastInfo_conflict:
  assumes "host_env_ok env" "op_userId p \<noteq> INVALID_USER_ID"
    and "r \<in> set (st_data db)" "s \<in> set (st_data db)" "li_id r = li_id l" "li_id s \<noteq> li_id l" "last_key s = last_key l"
  shows "updateLastInfo env l p db = Inl HatoholException"
proof -
  let ?f = "\<lambda>r. r\<lparr>li_dataType := li_dataType l, li_value := cstr (li_value l), li_serverId := li_serverId l\<rparr>"
  have sel: "where_rows (he_engine env) last_row (''last_info_id='' @ dec_int (li_id l)) = (\<lambda>r. li_id r = li_id l)"
    using host_env_ok.rows_render [OF assms(1), of "[[AtEq ''last_info_id'' (VInt (li_id l))]]" last_row]
    by (simp add: render_single enc_int_def selects_def holds_def last_row_def cond_ok_def)
  let ?rows = "tbl_update (he_engine env) last_row (''last_info_id='' @ dec_int (li_id l)) ?f (st_data db)"
  have "?f r \<in> set ?rows" "s \<in> set ?rows" using assms(3-6) unfolding tbl_update_def sel by (force simp: image_iff)+
  moreover have "last_key (?f r) = last_key s" "?f r \<noteq> s" using assms(5-7) by auto
  ultimately have "\<not> inj_on last_key (set ?rows)" unfolding inj_on_def by blast
  then have "\<not> distinct (map last_key ?rows)" by (simp only: distinct_map simp_thms)
  then show ?thesis
    using assms(2) by (simp add: updateLastInfo_def last_checkPrivilege_def table_trx_run Let_def lasts.keys_unique_iff)
qed

end
