(* ===== verification/Mon_Incidents.thy ===== *)
theory Mon_Incidents
  imports Mon_EventStore
begin

text \<open>
  Incidents and their histories (src/server/src/DBTablesMonitoring.cc): what trackers report about the incidents
  opened for events, the comments of users, and the number of comments that every incident carries.
\<close>

section \<open>Rows and options\<close>

definition incident_row :: "incident_info \<Rightarrow> sql_row" where
  "incident_row i = (\<lambda>_. VStr [])(''tracker_id'' := VInt (ic_trackerId i), ''server_id'' := VInt (ic_serverId i),
     ''event_id'' := VStr (ic_eventId i), ''trigger_id'' := VStr (ic_triggerId i), ''identifier'' := VStr (ic_identifier i),
     ''status'' := VStr (ic_status i), ''unified_event_id'' := VInt (ic_unifiedEventId i), ''comment_count'' := VInt (ic_commentCount i))"

definition history_row :: "incident_history \<Rightarrow> sql_row" where
  "history_row h = (\<lambda>_. VStr [])(''id'' := VInt (ih_id h), ''unified_event_id'' := VInt (ih_unifiedEventId h),
     ''user_id'' := VInt (ih_userId h), ''status'' := VStr (ih_status h), ''comment'' := VStr (ih_comment h))"

text \<open>The targets that mean all, of the type \<open>uint64_t\<close>.\<close>

definition ALL_INCIDENTS :: int where
  "ALL_INCIDENTS = 2 ^ 64 - 1"

definition INVALID_ID :: int where
  "INVALID_ID = 2 ^ 64 - 1"

definition ALL_INCIDENT_TRACKERS :: int where
  "ALL_INCIDENT_TRACKERS = -1"

record incidents_option =
  nq_query :: data_query_option
  nq_unifiedEventId :: int

definition mk_incidents_option :: incidents_option where
  "mk_incidents_option = \<lparr>nq_query = mk_data_query_option, nq_unifiedEventId = ALL_INCIDENTS\<rparr>"

definition nq_getCondition :: "incidents_option \<Rightarrow> string" where
  "nq_getCondition opt =
     (let condition = []
      in if nq_unifiedEventId opt \<noteq> ALL_INCIDENTS
         then addCondition condition (''unified_event_id='' @ dec_int (nq_unifiedEventId opt)) ADD_TYPE_AND False else condition)"

record histories_option =
  yq_query :: data_query_option
  yq_id :: int
  yq_unifiedEventId :: int
  yq_userId :: int

definition mk_histories_option :: histories_option where
  "mk_histories_option = \<lparr>yq_query = mk_data_query_option, yq_id = INVALID_ID, yq_unifiedEventId = INVALID_ID, yq_userId = INVALID_USER_ID\<rparr>"

definition yq_setSortType :: "bool \<Rightarrow> sort_direction \<Rightarrow> histories_option \<Rightarrow> histories_option" where
  "yq_setSortType byTime direction opt =
     opt\<lparr>yq_query := (if byTime
        then dqo_setSortOrderVect (yq_query opt)
               [\<lparr>so_columnName = ''created_at_sec'', so_direction = direction\<rparr>,
                \<lparr>so_columnName = ''created_at_ns'', so_direction = direction\<rparr>,
                \<lparr>so_columnName = ''unified_event_id'', so_direction = direction\<rparr>]
        else dqo_setSortOrder (yq_query opt) \<lparr>so_columnName = ''unified_event_id'', so_direction = direction\<rparr>)\<rparr>"

definition yq_steps :: "histories_option \<Rightarrow> (bool \<times> string res) list" where
  "yq_steps opt =
     [(yq_id opt \<noteq> INVALID_ID, Inr (''id='' @ dec_int (yq_id opt))),
      (yq_unifiedEventId opt \<noteq> INVALID_ID, Inr (''unified_event_id='' @ dec_int (yq_unifiedEventId opt))),
      (yq_userId opt \<noteq> INVALID_USER_ID, Inr (''user_id='' @ dec_int (yq_userId opt)))]"

definition yq_getCondition :: "histories_option \<Rightarrow> string res" where
  "yq_getCondition opt = add_steps (yq_steps opt) []"

section \<open>Incidents\<close>

text \<open>The status code has no column.\<close>

definition stored_incident :: "incident_info \<Rightarrow> incident_info" where
  "stored_incident i = i\<lparr>ic_eventId := cstr (ic_eventId i), ic_triggerId := cstr (ic_triggerId i), ic_identifier := cstr (ic_identifier i),
     ic_location := cstr (ic_location i), ic_status := cstr (ic_status i), ic_assignee := cstr (ic_assignee i),
     ic_priority := cstr (ic_priority i), ic_statusCode := STATUS_UNKNOWN, ic_createdAt := int_timespec (ic_createdAt i),
     ic_updatedAt := int_timespec (ic_updatedAt i)\<rparr>"

definition addIncidentInfoWithoutTransaction :: "incident_info \<Rightarrow> incident_info list \<Rightarrow> incident_info list" where
  "addIncidentInfoWithoutTransaction i = upsert_unique (\<lambda>i. (ic_trackerId i, ic_identifier i)) (stored_incident i)"

definition addIncidentInfo :: "incident_info \<Rightarrow> mon_db \<Rightarrow> (mon_db \<times> unit) res" where
  "addIncidentInfo i db = table_trx (\<lambda>d _. Inr (d\<lparr>mt_incidents := addIncidentInfoWithoutTransaction i (mt_incidents d)\<rparr>, ())) None db ()"

definition incident_update :: "incident_info \<Rightarrow> incident_info \<Rightarrow> incident_info" where
  "incident_update i r = r\<lparr>ic_status := cstr (ic_status i), ic_assignee := cstr (ic_assignee i), ic_createdAt := int_timespec (ic_createdAt i),
     ic_updatedAt := int_timespec (ic_updatedAt i), ic_priority := cstr (ic_priority i), ic_doneRatio := ic_doneRatio i, ic_commentCount := ic_commentCount i\<rparr>"

definition updateIncidentInfo :: "mon_env \<Rightarrow> incident_info \<Rightarrow> mon_db \<Rightarrow> (mon_db \<times> hterr) res" where
  "updateIncidentInfo env i db =
     (let condition = ''tracker_id='' @ dec_int (ic_trackerId i) @ '' AND identifier='' @ enc_str (ic_identifier i)
      in table_trx (\<lambda>d _.
           if \<not> tbl_exists (me_engine env) incident_row condition (mt_incidents d) then Inr (d, HTERR_NOT_FOUND_TARGET_RECORD)
           else Inr (d\<lparr>mt_incidents := tbl_update (me_engine env) incident_row condition (incident_update i) (mt_incidents d)\<rparr>, HTERR_OK))
           None db HTERR_OK)"

definition getIncidentInfoVect :: "mon_env \<Rightarrow> incidents_option \<Rightarrow> mon_db \<Rightarrow> hterr \<times> incident_info list" where
  "getIncidentInfoVect env opt db =
     (let condition = nq_getCondition opt
      in if isAlwaysFalseCondition condition then (HTERR_OK, [])
         else if dqo_maxNumber (nq_query opt) = 0 \<and> dqo_offset (nq_query opt) \<noteq> 0 then (HTERR_OFFSET_WITHOUT_LIMIT, [])
         else (HTERR_OK, limit_rows (nq_query opt) (me_orderIncidents env (getOrderBy (nq_query opt))
                 (tbl_select (me_engine env) incident_row condition (mt_incidents (st_data db))))))"

text \<open>
  A result that a query declares as \<open>SQL_COLUMN_TYPE_INT\<close> is read as an \<open>int\<close> of 32 bits: \<open>sqlite3_column_int\<close> and
  \<open>atoi\<close> drop the higher bits.
\<close>

definition read_int_cell :: "int \<Rightarrow> int" where
  "read_int_cell v = sint (word_of_int v :: u32)"

definition getLastUpdateTimeOfIncidents :: "mon_env \<Rightarrow> int \<Rightarrow> mon_db \<Rightarrow> u64 res" where
  "getLastUpdateTimeOfIncidents env trackerId db =
     (let condition = (if trackerId \<noteq> ALL_INCIDENT_TRACKERS then ''tracker_id='' @ dec_int trackerId else []);
          rows = tbl_select (me_engine env) incident_row condition (mt_incidents (st_data db));
          found = (if rows = [] then 0 else Max ((\<lambda>i. fst (ic_updatedAt i)) ` set rows))
      in case cast_uint64 (ItemInt (read_int_cell found) :: unit item_val) of
           Inl _ \<Rightarrow> Inl HatoholException
         | Inr v \<Rightarrow> Inr v)"

section \<open>Histories\<close>

definition stored_history :: "incident_history \<Rightarrow> incident_history" where
  "stored_history h = h\<lparr>ih_status := cstr (ih_status h), ih_comment := cstr (ih_comment h), ih_createdAt := int_timespec (ih_createdAt h)\<rparr>"

text \<open>\<open>IncidentHistory::initialize\<close>; the constant for no event is one of the type \<open>guint\<close>.\<close>

definition initIncidentHistory :: "int \<times> int \<Rightarrow> incident_history" where
  "initIncidentHistory currTime = \<lparr>ih_id = AUTO_INCREMENT_VALUE, ih_unifiedEventId = 2 ^ 32 - 1, ih_userId = INVALID_USER_ID,
     ih_status = [], ih_comment = [], ih_createdAt = currTime\<rparr>"

definition comment_condition :: "int \<Rightarrow> string" where
  "comment_condition unifiedEventId = ''unified_event_id='' @ dec_int unifiedEventId @ '' and comment is not null and comment<>'' @ [quot, quot]"

definition getIncidentCommentCount :: "mon_env \<Rightarrow> int \<Rightarrow> mon_db \<Rightarrow> u64" where
  "getIncidentCommentCount env unifiedEventId db =
     (let rows = tbl_select (me_engine env) history_row (comment_condition unifiedEventId) (mt_histories (st_data db))
      in word_of_int (read_int_cell (int (length (remdups (map ih_id rows))))))"

text \<open>
  The number is added to the statement as a value of 64 bits for a column of the type \<open>INT\<close>.
  \<open>DBAgentSQLite3::getColumnValueString\<close> casts such a value to \<open>int\<close>; \<open>DBAgentMySQL\<close> prints it.
\<close>

definition sqlite_int_value :: "u64 \<Rightarrow> int res" where
  "sqlite_int_value v =
     (case cast_int (ItemUint64 v :: unit item_val) of Inl _ \<Rightarrow> Inl HatoholException | Inr i \<Rightarrow> Inr i)"

definition mysql_int_value :: "u64 \<Rightarrow> int res" where
  "mysql_int_value v = Inr (uint v)"

definition int_column_value :: "agent_kind \<Rightarrow> u64 \<Rightarrow> int res" where
  "int_column_value ag v = (case ag of AgentSQLite3 \<Rightarrow> sqlite_int_value v | AgentMySQL \<Rightarrow> mysql_int_value v)"

definition updateIncidentCommentCount :: "mon_env \<Rightarrow> int \<Rightarrow> mon_db \<Rightarrow> (mon_db \<times> hterr) res" where
  "updateIncidentCommentCount env unifiedEventId db =
     (let commentCount = getIncidentCommentCount env unifiedEventId db;
          condition = ''unified_event_id='' @ dec_int unifiedEventId
      in table_trx (\<lambda>d _.
           if \<not> tbl_exists (me_engine env) incident_row condition (mt_incidents d) then Inr (d, HTERR_NOT_FOUND_TARGET_RECORD)
           else bindR (int_column_value (he_agent (me_host env)) commentCount) (\<lambda>v.
             Inr (d\<lparr>mt_incidents := tbl_update (me_engine env) incident_row condition (\<lambda>r. r\<lparr>ic_commentCount := v\<rparr>) (mt_incidents d)\<rparr>,
                  HTERR_OK))) None db HTERR_OK)"

definition insert_history :: "mon_env \<Rightarrow> incident_history \<Rightarrow> mon_tables \<Rightarrow> mon_tables res" where
  "insert_history env h d =
     (let ids = map ih_id (mt_histories d)
      in if ih_id h \<noteq> AUTO_INCREMENT_VALUE \<and> ih_id h \<in> set ids then Inl HatoholException
         else Inr (d\<lparr>mt_histories := mt_histories d
                @ [(stored_history h)\<lparr>ih_id := if ih_id h = AUTO_INCREMENT_VALUE then en_nextId (me_engine env) ids else ih_id h\<rparr>]\<rparr>))"

text \<open>
  The two transactions of an operation are separate: what the first stored stays when the second throws,
  so the result has the tables also for an exception. The error of the second is not looked at.
\<close>

definition count_after :: "mon_env \<Rightarrow> int \<Rightarrow> mon_db \<Rightarrow> hterr res \<times> mon_db" where
  "count_after env unifiedEventId db =
     (case updateIncidentCommentCount env unifiedEventId db of
        Inl x \<Rightarrow> (Inl x, db)
      | Inr (db', _) \<Rightarrow> (Inr HTERR_OK, db'))"

definition addIncidentHistory :: "mon_env \<Rightarrow> incident_history \<Rightarrow> mon_db \<Rightarrow> hterr res \<times> mon_db" where
  "addIncidentHistory env h db =
     (case table_trx (\<lambda>d _. bindR (insert_history env h d) (\<lambda>d. Inr (d, ()))) None db () of
        Inl x \<Rightarrow> (Inl x, db)
      | Inr (db', _) \<Rightarrow> count_after env (ih_unifiedEventId h) db')"

definition history_update :: "incident_history \<Rightarrow> incident_history \<Rightarrow> incident_history" where
  "history_update h r = r\<lparr>ih_unifiedEventId := ih_unifiedEventId h, ih_userId := ih_userId h, ih_status := cstr (ih_status h),
     ih_comment := cstr (ih_comment h), ih_createdAt := int_timespec (ih_createdAt h)\<rparr>"

definition update_history_trx :: "mon_env \<Rightarrow> incident_history \<Rightarrow> mon_db \<Rightarrow> (mon_db \<times> hterr) res" where
  "update_history_trx env h db =
     (let condition = ''id='' @ dec_int (ih_id h)
      in table_trx (\<lambda>d _.
           if \<not> tbl_exists (me_engine env) history_row condition (mt_histories d) then Inr (d, HTERR_NOT_FOUND_TARGET_RECORD)
           else Inr (d\<lparr>mt_histories := tbl_update (me_engine env) history_row condition (history_update h) (mt_histories d)\<rparr>, HTERR_OK))
           None db HTERR_OK)"

definition updateIncidentHistory :: "mon_env \<Rightarrow> incident_history \<Rightarrow> mon_db \<Rightarrow> hterr res \<times> mon_db" where
  "updateIncidentHistory env h db =
     (case update_history_trx env h db of
        Inl x \<Rightarrow> (Inl x, db)
      | Inr (db', _) \<Rightarrow> count_after env (ih_unifiedEventId h) db')"

definition getIncidentHistory :: "mon_env \<Rightarrow> histories_option \<Rightarrow> mon_db \<Rightarrow> (hterr \<times> incident_history list) res" where
  "getIncidentHistory env opt db =
     bindR (yq_getCondition opt) (\<lambda>condition.
       Inr (HTERR_OK, me_orderHistories env (getOrderBy (yq_query opt))
              (tbl_select (me_engine env) history_row condition (mt_histories (st_data db)))))"

end
