(* ===== verification/Mon_Comments.thy ===== *)
theory Mon_Comments
  imports Mon_Incidents
begin

text \<open>
  The number of comments that an incident carries is the number of comments in the histories of its event, as
  long as histories are only added, or edited without moving them to another event.
\<close>

section \<open>What the conditions select\<close>

lemma incident_idents [simp]: "ident ''unified_event_id''" "ident ''id''" "ident ''user_id''" "ident ''tracker_id''" "ident ''identifier''"
  by code_simp+

lemma comment_text_rest: "lex ('' and comment is not null and comment<>'' @ [quot, quot])
    = Some [TAnd, TId ''comment'', TIs, TNot, TNull, TAnd, TId ''comment'', TNe, TStr []]"
  by code_simp

lemma comment_condition_reads:
  "sql_where (comment_condition e) (history_row h) = Some (ih_unifiedEventId h = e \<and> ih_comment h \<noteq> [])"
proof -
  let ?rest = "'' and comment is not null and comment<>'' @ [quot, quot]"
  have text_split: "comment_condition e = (''unified_event_id='' @ dec_int e) @ ?rest" by (simp add: comment_condition_def)
  have "lexes (''unified_event_id='' @ dec_int e) [TId ''unified_event_id'', TEq, TInt e]"
    using lexes_ident_eq [of "''unified_event_id''" "VInt e"] by (simp add: enc_int_def)
  from lexesD [OF this, of ?rest] have "lex (comment_condition e) = Some ([TId ''unified_event_id'', TEq, TInt e]
      @ [TAnd, TId ''comment'', TIs, TNot, TNull, TAnd, TId ''comment'', TNe, TStr []])"
    unfolding text_split comment_text_rest by simp
  then have "sql_parse (comment_condition e) = Some [[AtEq ''unified_event_id'' (VInt e), AtNot [[AtNull ''comment'']], AtNe ''comment'' (VStr [])]]"
    by (simp add: sql_parse_def eval_nat_numeral)
  moreover have "comment_condition e \<noteq> []" by (simp add: comment_condition_def)
  ultimately show ?thesis by (auto simp: sql_where_def holds_def history_row_def fails_def fails_atom_def holds_atom_def)
qed

lemma read_int_cell_small: "- (2 ^ 31) \<le> v \<Longrightarrow> v < 2 ^ 31 \<Longrightarrow> read_int_cell v = v"
  using signed_take_bit_int_eq_self [of 31 v] by (simp add: read_int_cell_def signed_of_int)

section \<open>The count\<close>

definition comments :: "mon_tables \<Rightarrow> int \<Rightarrow> int" where
  "comments d e = int (length (filter (\<lambda>h. ih_unifiedEventId h = e \<and> ih_comment h \<noteq> []) (mt_histories d)))"

definition recount :: "int \<Rightarrow> mon_tables \<Rightarrow> mon_tables" where
  "recount e d = d\<lparr>mt_incidents := map (\<lambda>i. if ic_unifiedEventId i = e then i\<lparr>ic_commentCount := comments d e\<rparr> else i) (mt_incidents d)\<rparr>"

definition counts_right :: "mon_tables \<Rightarrow> bool" where
  "counts_right d \<longleftrightarrow> (\<forall>i \<in> set (mt_incidents d). ic_commentCount i = comments d (ic_unifiedEventId i))"

definition histories_ok :: "mon_tables \<Rightarrow> bool" where
  "histories_ok d \<longleftrightarrow> distinct (map ih_id (mt_histories d)) \<and> length (mt_histories d) < 2 ^ 31"

lemma recount_right:
  assumes "counts_right d" "mt_incidents d' = mt_incidents d" "\<And>e'. e' \<noteq> e \<Longrightarrow> comments d' e' = comments d e'"
  shows "counts_right (recount e d')"
proof -
  have "comments (recount e d') e' = comments d' e'" for e' by (simp add: comments_def recount_def)
  then show ?thesis using assms by (auto simp: counts_right_def) (auto simp: recount_def split: if_splits)
qed

context mon_env_ok
begin

lemma rows_event_id: "where_rows (me_engine env) incident_row (''unified_event_id='' @ dec_int e) = (\<lambda>i. ic_unifiedEventId i = e)"
  using rows_render [of "[[AtEq ''unified_event_id'' (VInt e)]]" incident_row]
  by (simp add: render_single enc_int_def selects_def holds_def incident_row_def cond_ok_def)

lemma rows_history_id: "where_rows (me_engine env) history_row (''id='' @ dec_int i) = (\<lambda>h. ih_id h = i)"
  using rows_render [of "[[AtEq ''id'' (VInt i)]]" history_row]
  by (simp add: render_single enc_int_def selects_def holds_def history_row_def cond_ok_def)

lemma getIncidentCommentCount_comments:
  assumes "histories_ok (st_data db)"
  shows "uint (getIncidentCommentCount env e db) = comments (st_data db) e"
proof -
  let ?P = "\<lambda>h. ih_unifiedEventId h = e \<and> ih_comment h \<noteq> []" and ?hs = "mt_histories (st_data db)"
  have "where_rows (me_engine env) history_row (comment_condition e) = ?P"
    by (rule where_rows_sql [OF comment_condition_reads]) (simp add: comment_condition_def)
  then have sel: "tbl_select (me_engine env) history_row (comment_condition e) ?hs = filter ?P ?hs" by (simp add: tbl_select_def)
  have "distinct (map ih_id (filter ?P ?hs))" using assms by (simp add: histories_ok_def distinct_map_filter)
  then have "getIncidentCommentCount env e db = word_of_int (read_int_cell (comments (st_data db) e))"
    by (simp add: getIncidentCommentCount_def sel comments_def distinct_remdups_id)
  moreover have "0 \<le> comments (st_data db) e" "comments (st_data db) e < 2 ^ 31"
    using assms le_less_trans [OF length_filter_le [of ?P ?hs]] by (simp_all add: comments_def histories_ok_def)
  ultimately show ?thesis by (simp add: read_int_cell_small uint_word_of_int)
qed

text \<open>With \<open>DBAgentMySQL\<close> the incidents of the event get the right number, and nothing else changes.\<close>

lemma count_after_mysql:
  assumes "he_agent (me_host env) = AgentMySQL" "histories_ok (st_data db)"
  shows "\<exists>db'. count_after env e db = (Inr HTERR_OK, db') \<and> st_data db' = recount e (st_data db)"
proof (cases "\<exists>i \<in> set (mt_incidents (st_data db)). ic_unifiedEventId i = e")
  case True
  then have "tbl_exists (me_engine env) incident_row (''unified_event_id='' @ dec_int e) (mt_incidents (st_data db))"
    unfolding tbl_exists_def tbl_select_def rows_event_id by (auto simp: filter_empty_conv)
  then show ?thesis
    using getIncidentCommentCount_comments [OF assms(2), of e] assms(1)
    unfolding count_after_def updateIncidentCommentCount_def Let_def tbl_update_def rows_event_id
    by (simp add: table_trx_run int_column_value_def mysql_int_value_def recount_def)
next
  case False
  then have none: "\<not> tbl_exists (me_engine env) incident_row (''unified_event_id='' @ dec_int e) (mt_incidents (st_data db))"
    unfolding tbl_exists_def tbl_select_def rows_event_id by (auto simp: filter_empty_conv)
  have "map (\<lambda>i. if ic_unifiedEventId i = e then i\<lparr>ic_commentCount := c\<rparr> else i) (mt_incidents (st_data db)) = mt_incidents (st_data db)" for c
    using False by (auto intro: map_idI)
  then have "recount e (st_data db) = st_data db" by (simp add: recount_def)
  then show ?thesis using none by (simp add: count_after_def updateIncidentCommentCount_def Let_def table_trx_run)
qed

lemma insert_history_auto:
  assumes "ih_id h = AUTO_INCREMENT_VALUE"
  obtains i where "insert_history env h d = Inr (d\<lparr>mt_histories := mt_histories d @ [(stored_history h)\<lparr>ih_id := i\<rparr>]\<rparr>)"
    "i \<notin> ih_id ` set (mt_histories d)" "0 < i"
  using that assms nextId_fresh [of "map ih_id (mt_histories d)"] nextId_pos
  by (simp add: insert_history_def Let_def)

lemma addIncidentHistory_mysql:
  assumes "he_agent (me_host env) = AgentMySQL" "histories_ok (st_data db)" "length (mt_histories (st_data db)) + 1 < 2 ^ 31"
    and "ih_id h = AUTO_INCREMENT_VALUE" "counts_right (st_data db)"
  obtains db' i where "addIncidentHistory env h db = (Inr HTERR_OK, db')" "counts_right (st_data db')" "histories_ok (st_data db')"
    "mt_histories (st_data db') = mt_histories (st_data db) @ [(stored_history h)\<lparr>ih_id := i\<rparr>]"
    "st_data db' = recount (ih_unifiedEventId h) ((st_data db)\<lparr>mt_histories := mt_histories (st_data db) @ [(stored_history h)\<lparr>ih_id := i\<rparr>]\<rparr>)"
proof -
  let ?e = "ih_unifiedEventId h"
  obtain i where i: "insert_history env h (st_data db) = Inr ((st_data db)\<lparr>mt_histories := mt_histories (st_data db) @ [(stored_history h)\<lparr>ih_id := i\<rparr>]\<rparr>)"
    "i \<notin> ih_id ` set (mt_histories (st_data db))" by (rule insert_history_auto [OF assms(4)])
  let ?d = "(st_data db)\<lparr>mt_histories := mt_histories (st_data db) @ [(stored_history h)\<lparr>ih_id := i\<rparr>]\<rparr>"
  have ok: "histories_ok ?d" using assms(2,3) i(2) by (simp add: histories_ok_def)
  obtain db1 where db1: "table_trx (\<lambda>d _. bindR (insert_history env h d) (\<lambda>d. Inr (d, ()))) None db () = Inr (db1, ())" "st_data db1 = ?d"
    using i(1) by (simp add: table_trx_run)
  obtain db' where db': "count_after env ?e db1 = (Inr HTERR_OK, db')" "st_data db' = recount ?e ?d"
    using count_after_mysql [OF assms(1), of db1 ?e] ok db1(2) by auto
  have "counts_right (st_data db')"
    unfolding db'(2) by (rule recount_right [OF assms(5)]) (simp_all add: comments_def stored_history_def)
  moreover have "histories_ok (st_data db')" using ok by (simp add: db'(2) histories_ok_def recount_def)
  ultimately show thesis using that [of db' i] db1(1) db' by (simp add: addIncidentHistory_def recount_def)
qed

lemma update_history_rows:
  obtains db' err where "update_history_trx env h db = Inr (db', err)"
    "st_data db' = (st_data db)\<lparr>mt_histories := map (\<lambda>g. if ih_id g = ih_id h then history_update h g else g) (mt_histories (st_data db))\<rparr>"
    "err = (if \<exists>g \<in> set (mt_histories (st_data db)). ih_id g = ih_id h then HTERR_OK else HTERR_NOT_FOUND_TARGET_RECORD)"
proof (cases "\<exists>g \<in> set (mt_histories (st_data db)). ih_id g = ih_id h")
  case True
  then have "tbl_exists (me_engine env) history_row (''id='' @ dec_int (ih_id h)) (mt_histories (st_data db))"
    unfolding tbl_exists_def tbl_select_def rows_history_id by (auto simp: filter_empty_conv)
  then show thesis using that True unfolding update_history_trx_def Let_def tbl_update_def rows_history_id by (simp add: table_trx_run)
next
  case False
  then have "\<not> tbl_exists (me_engine env) history_row (''id='' @ dec_int (ih_id h)) (mt_histories (st_data db))"
    unfolding tbl_exists_def tbl_select_def rows_history_id by (auto simp: filter_empty_conv)
  moreover have "map (\<lambda>g. if ih_id g = ih_id h then history_update h g else g) (mt_histories (st_data db)) = mt_histories (st_data db)"
    using False by (auto intro: map_idI)
  ultimately show thesis using that False by (simp add: update_history_trx_def Let_def table_trx_run)
qed

lemma updateIncidentHistory_mysql:
  assumes "he_agent (me_host env) = AgentMySQL" "histories_ok (st_data db)" "counts_right (st_data db)"
    and "\<forall>g \<in> set (mt_histories (st_data db)). ih_id g = ih_id h \<longrightarrow> ih_unifiedEventId g = ih_unifiedEventId h"
  obtains db' where "updateIncidentHistory env h db = (Inr HTERR_OK, db')" "counts_right (st_data db')" "histories_ok (st_data db')"
proof -
  let ?e = "ih_unifiedEventId h" and ?f = "\<lambda>g. if ih_id g = ih_id h then history_update h g else g"
  let ?d = "(st_data db)\<lparr>mt_histories := map ?f (mt_histories (st_data db))\<rparr>"
  obtain db1 err where db1: "update_history_trx env h db = Inr (db1, err)" "st_data db1 = ?d"
    by (rule update_history_rows [of h db])
  have "map ih_id (map ?f (mt_histories (st_data db))) = map ih_id (mt_histories (st_data db))" by (simp add: history_update_def)
  then have ok: "histories_ok ?d" using assms(2) unfolding histories_ok_def by (simp del: map_map map_eq_conv)
  obtain db' where db': "count_after env ?e db1 = (Inr HTERR_OK, db')" "st_data db' = recount ?e ?d"
    using count_after_mysql [OF assms(1), of db1 ?e] ok db1(2) by auto
  have "counts_right (st_data db')"
    unfolding db'(2)
  proof (rule recount_right [OF assms(3)])
    fix e' assume "e' \<noteq> ?e"
    then have "(\<lambda>g. ih_unifiedEventId (?f g) = e' \<and> ih_comment (?f g) \<noteq> []) g \<longleftrightarrow> ih_unifiedEventId g = e' \<and> ih_comment g \<noteq> []"
      if "g \<in> set (mt_histories (st_data db))" for g
      using assms(4) that by (auto simp: history_update_def)
    then show "comments ?d e' = comments (st_data db) e'"
      by (simp add: comments_def filter_map comp_def cong: filter_cong)
  qed simp
  moreover have "histories_ok (st_data db')" using ok by (simp add: db'(2) histories_ok_def recount_def)
  ultimately show thesis using that [of db'] db1(1) db'(1) by (simp add: updateIncidentHistory_def)
qed

end

lemma addIncidentInfo_counts:
  assumes "addIncidentInfo i db = Inr (db', u)" "counts_right (st_data db)" "ic_commentCount i = comments (st_data db) (ic_unifiedEventId i)"
  shows "counts_right (st_data db')" "mt_histories (st_data db') = mt_histories (st_data db)"
proof -
  have d: "st_data db' = (st_data db)\<lparr>mt_incidents := addIncidentInfoWithoutTransaction i (mt_incidents (st_data db))\<rparr>"
    using assms(1) by (auto simp: addIncidentInfo_def table_trx_run)
  have "set (mt_incidents (st_data db')) \<subseteq> insert (stored_incident i) (set (mt_incidents (st_data db)))"
    by (auto simp: d addIncidentInfoWithoutTransaction_def upsert_unique_def split: if_splits)
  then show "counts_right (st_data db')"
    using assms(2,3) by (auto simp: counts_right_def comments_def d stored_incident_def)
  show "mt_histories (st_data db') = mt_histories (st_data db)" by (simp add: d)
qed

section \<open>Every sequence of operations\<close>

text \<open>
  Trackers report incidents with the number of comments there are, users add comments, and edit comments
  of the same event, in any order.
\<close>

inductive comment_reach :: "mon_env \<Rightarrow> mon_db \<Rightarrow> bool" for env where
  start: "mt_histories (st_data db) = [] \<Longrightarrow> mt_incidents (st_data db) = [] \<Longrightarrow> comment_reach env db"
| report: "comment_reach env db \<Longrightarrow> ic_commentCount i = comments (st_data db) (ic_unifiedEventId i) \<Longrightarrow>
    addIncidentInfo i db = Inr (db', u) \<Longrightarrow> comment_reach env db'"
| comment: "comment_reach env db \<Longrightarrow> ih_id h = AUTO_INCREMENT_VALUE \<Longrightarrow> length (mt_histories (st_data db)) + 1 < 2 ^ 31 \<Longrightarrow>
    addIncidentHistory env h db = (r, db') \<Longrightarrow> comment_reach env db'"
| edit: "comment_reach env db \<Longrightarrow>
    \<forall>g \<in> set (mt_histories (st_data db)). ih_id g = ih_id h \<longrightarrow> ih_unifiedEventId g = ih_unifiedEventId h \<Longrightarrow>
    updateIncidentHistory env h db = (r, db') \<Longrightarrow> comment_reach env db'"


section \<open>Examples\<close>

definition ex_mysql_env :: mon_env where
  "ex_mysql_env = ex_mon_env\<lparr>me_host := ex_host_env\<lparr>he_agent := AgentMySQL\<rparr>\<rparr>"

interpretation ex_mysql: mon_env_ok ex_mysql_env
  by unfold_locales
    (use ex_hosts.nextId_fresh ex_hosts.nextId_pos ex_hosts.matches_where in \<open>simp_all add: ex_mysql_env_def ex_mon_env_def\<close>)

definition ex_incident :: "string \<Rightarrow> int \<Rightarrow> incident_info" where
  "ex_incident n e = \<lparr>ic_trackerId = 1, ic_serverId = 1, ic_eventId = ''e'', ic_triggerId = ''t'', ic_identifier = n, ic_location = [],
     ic_status = ''New'', ic_assignee = [], ic_createdAt = (10, 0), ic_updatedAt = (10, 0), ic_priority = [], ic_doneRatio = 0,
     ic_unifiedEventId = e, ic_commentCount = 0, ic_statusCode = STATUS_UNKNOWN\<rparr>"

definition ex_no_incidents :: mon_db where
  "ex_no_incidents = \<lparr>st_data = \<lparr>mt_triggers = [], mt_events = [], mt_incidents = [], mt_histories = [], mt_items = [], mt_categories = []\<rparr>, st_base = None\<rparr>"

definition ex_comment :: "int \<Rightarrow> string \<Rightarrow> incident_history" where
  "ex_comment e c = \<lparr>ih_id = 0, ih_unifiedEventId = e, ih_userId = 1, ih_status = ''New'', ih_comment = c, ih_createdAt = (20, 0)\<rparr>"

definition ex_incident_db :: mon_db where
  "ex_incident_db = (case addIncidentInfo (ex_incident ''100'' 5) ex_no_incidents of Inr (db, _) \<Rightarrow> db | Inl _ \<Rightarrow> ex_no_incidents)"

lemma ex_incident_db: "addIncidentInfo (ex_incident ''100'' 5) ex_no_incidents = Inr (ex_incident_db, ())"
    "st_data ex_incident_db = (st_data ex_no_incidents)\<lparr>mt_incidents := [ex_incident ''100'' 5]\<rparr>"
  by (auto simp: ex_incident_db_def addIncidentInfo_def table_trx_run addIncidentInfoWithoutTransaction_def upsert_unique_def
      ex_no_incidents_def stored_incident_def ex_incident_def cstr_def nul_def int_timespec_def int_time_small)

lemma ex_incident_reach: "comment_reach env ex_incident_db"
  by (rule comment_reach.report [OF comment_reach.start _ ex_incident_db(1)])
    (simp_all add: ex_no_incidents_def ex_incident_def comments_def)


section \<open>Where the numbers go wrong\<close>

text \<open>
  C30. With \<open>DBAgentSQLite3\<close> a comment on an event that has an incident ends in an exception after the comment was stored:
  the number of comments is handed over with 64 bits for a column of 32, and the cast of such a value to \<open>int\<close> is
  not defined. The incident keeps its old number.
\<close>

theorem sqlite_comment_throws:
  assumes "mon_env_ok env" and "he_agent (me_host env) = AgentSQLite3" and "ih_id h = AUTO_INCREMENT_VALUE"
    and "i \<in> set (mt_incidents (st_data db))" and "ic_unifiedEventId i = ih_unifiedEventId h"
  shows "\<exists>db' k. addIncidentHistory env h db = (Inl HatoholException, db')
    \<and> st_data db' = (st_data db)\<lparr>mt_histories := mt_histories (st_data db) @ [(stored_history h)\<lparr>ih_id := k\<rparr>]\<rparr>"
proof -
  obtain k where k: "insert_history env h (st_data db) = Inr ((st_data db)\<lparr>mt_histories := mt_histories (st_data db) @ [(stored_history h)\<lparr>ih_id := k\<rparr>]\<rparr>)"
    by (rule mon_env_ok.insert_history_auto [OF assms(1,3)])
  let ?d = "(st_data db)\<lparr>mt_histories := mt_histories (st_data db) @ [(stored_history h)\<lparr>ih_id := k\<rparr>]\<rparr>"
  obtain db1 where db1: "table_trx (\<lambda>d _. bindR (insert_history env h d) (\<lambda>d. Inr (d, ()))) None db () = Inr (db1, ())" "st_data db1 = ?d"
    using k by (simp add: table_trx_run)
  have "tbl_exists (me_engine env) incident_row (''unified_event_id='' @ dec_int (ih_unifiedEventId h)) (mt_incidents (st_data db1))"
    using assms(4,5) unfolding tbl_exists_def tbl_select_def mon_env_ok.rows_event_id [OF assms(1)] db1(2) by (auto simp: filter_empty_conv)
  then have "updateIncidentCommentCount env (ih_unifiedEventId h) db1 = Inl HatoholException"
    unfolding updateIncidentCommentCount_def Let_def by (simp add: table_trx_run int_column_value_def sqlite_int_value_def assms(2))
  then show ?thesis using db1 by (intro exI [of _ db1] exI [of _ k]) (simp add: addIncidentHistory_def count_after_def)
qed

theorem sqlite_comment_throws_witness:
  "\<exists>db' k. addIncidentHistory ex_mon_env (ex_comment 5 ''done'') ex_incident_db = (Inl HatoholException, db')
     \<and> mt_histories (st_data db') = [(ex_comment 5 ''done'')\<lparr>ih_id := k\<rparr>] \<and> map ic_commentCount (mt_incidents (st_data db')) = [0]"
proof -
  let ?h = "ex_comment 5 ''done''"
  have hyps: "he_agent (me_host ex_mon_env) = AgentSQLite3" "ih_id ?h = AUTO_INCREMENT_VALUE"
      "ex_incident ''100'' 5 \<in> set (mt_incidents (st_data ex_incident_db))" "ic_unifiedEventId (ex_incident ''100'' 5) = ih_unifiedEventId ?h"
    by (simp_all add: ex_mon_env_def ex_host_env_def ex_comment_def AUTO_INCREMENT_VALUE_def ex_incident_db(2) ex_incident_def)
  have "stored_history ?h = ?h" by (simp add: stored_history_def ex_comment_def cstr_def nul_def int_timespec_def int_time_small)
  then show ?thesis
    using sqlite_comment_throws [OF ex_mon.mon_env_ok_axioms hyps]
    by (auto simp: ex_incident_db(2) ex_no_incidents_def ex_incident_def)
qed

text \<open>Moving a comment to another event leaves the number of the event it is taken from as it was.\<close>

lemma moved_comment_stale:
  assumes "mon_env_ok env" "he_agent (me_host env) = AgentMySQL" "histories_ok (st_data db)" "counts_right (st_data db)"
    and "g \<in> set (mt_histories (st_data db))" "ih_id g = ih_id h" "ih_comment g \<noteq> []" "ih_unifiedEventId g \<noteq> ih_unifiedEventId h"
    and "i \<in> set (mt_incidents (st_data db))" "ic_unifiedEventId i = ih_unifiedEventId g"
  shows "\<exists>db'. updateIncidentHistory env h db = (Inr HTERR_OK, db') \<and> i \<in> set (mt_incidents (st_data db'))
    \<and> ic_commentCount i = comments (st_data db') (ic_unifiedEventId i) + 1"
proof -
  let ?e = "ih_unifiedEventId h" and ?f = "\<lambda>g. if ih_id g = ih_id h then history_update h g else g" and ?hs = "mt_histories (st_data db)"
  let ?d = "(st_data db)\<lparr>mt_histories := map ?f ?hs\<rparr>"
  obtain db1 err where db1: "update_history_trx env h db = Inr (db1, err)" "st_data db1 = ?d"
    by (rule mon_env_ok.update_history_rows [OF assms(1), of h db])
  have "map ih_id (map ?f ?hs) = map ih_id ?hs" by (simp add: history_update_def)
  then have ok: "histories_ok (st_data db1)" using assms(3) unfolding db1(2) histories_ok_def by (simp del: map_map map_eq_conv)
  obtain db' where db': "count_after env ?e db1 = (Inr HTERR_OK, db')" "st_data db' = recount ?e ?d"
    using mon_env_ok.count_after_mysql [OF assms(1,2) ok, of ?e] db1(2) by auto
  obtain as bs where split: "?hs = as @ g # bs" using assms(5) by (auto simp: in_set_conv_decomp)
  then have others: "ih_id x \<noteq> ih_id h" if "x \<in> set as \<union> set bs" for x
    using assms(3,6) that unfolding histories_ok_def split by (auto simp: image_iff)
  then have "map ?f as = as" "map ?f bs = bs" by (auto intro: map_idI)
  then have "comments (st_data db) (ih_unifiedEventId g) = comments (st_data db') (ih_unifiedEventId g) + 1"
    using assms(6-8) unfolding comments_def db'(2) recount_def by (simp add: split history_update_def)
  moreover have "i \<in> set (mt_incidents (st_data db'))" using assms(8,9,10) unfolding db'(2) recount_def by (auto simp: image_iff intro!: bexI [of _ i])
  ultimately show ?thesis
    using assms(4,9,10) db1(1) db'(1) by (intro exI [of _ db']) (simp add: updateIncidentHistory_def counts_right_def)
qed

section \<open>Queries\<close>

locale incident_env_ok = mon_env_ok env for env :: mon_env +
  assumes orderIncidents: "mset (me_orderIncidents env ord is) = mset is"
    and orderHistories: "mset (me_orderHistories env ord hs) = mset hs"
begin

lemma getIncidentInfoVect_mset:
  assumes "dqo_maxNumber (nq_query opt) = 0" "dqo_offset (nq_query opt) = 0"
  shows "\<exists>is. getIncidentInfoVect env opt db = (HTERR_OK, is)
    \<and> mset is = mset (filter (\<lambda>i. nq_unifiedEventId opt = ALL_INCIDENTS \<or> ic_unifiedEventId i = nq_unifiedEventId opt) (mt_incidents (st_data db)))"
proof (cases "nq_unifiedEventId opt = ALL_INCIDENTS")
  case True
  then show ?thesis
    using assms by (simp add: getIncidentInfoVect_def nq_getCondition_def Let_def isAlwaysFalseCondition_def alwaysFalseCondition_def
        limit_rows_def orderIncidents tbl_select_def where_rows_def [abs_def])
next
  case False
  let ?c = "''unified_event_id='' @ dec_int (nq_unifiedEventId opt)"
  have c: "nq_getCondition opt = ?c" "\<not> isAlwaysFalseCondition ?c"
    using False by (simp_all add: nq_getCondition_def addCondition_def isAlwaysFalseCondition_def alwaysFalseCondition_def)
  show ?thesis
    using assms False c(2) unfolding getIncidentInfoVect_def c(1) Let_def tbl_select_def rows_event_id
    by (simp add: limit_rows_def orderIncidents)
qed

text \<open>The steps of the option of histories narrow nothing but what they name.\<close>

definition yq_atoms :: "histories_option \<Rightarrow> sql_atom list" where
  "yq_atoms opt = [AtEq ''id'' (VInt (yq_id opt)), AtEq ''unified_event_id'' (VInt (yq_unifiedEventId opt)), AtEq ''user_id'' (VInt (yq_userId opt))]"

lemma getIncidentHistory_mset:
  "\<exists>hs. getIncidentHistory env opt db = Inr (HTERR_OK, hs)
    \<and> mset hs = mset (filter (\<lambda>h. (yq_id opt \<noteq> INVALID_ID \<longrightarrow> ih_id h = yq_id opt)
        \<and> (yq_unifiedEventId opt \<noteq> INVALID_ID \<longrightarrow> ih_unifiedEventId h = yq_unifiedEventId opt)
        \<and> (yq_userId opt \<noteq> INVALID_USER_ID \<longrightarrow> ih_userId h = yq_userId opt)) (mt_histories (st_data db)))"
proof -
  let ?P = "\<lambda>h. (yq_id opt \<noteq> INVALID_ID \<longrightarrow> ih_id h = yq_id opt) \<and> (yq_unifiedEventId opt \<noteq> INVALID_ID \<longrightarrow> ih_unifiedEventId h = yq_unifiedEventId opt)
    \<and> (yq_userId opt \<noteq> INVALID_USER_ID \<longrightarrow> ih_userId h = yq_userId opt)"
  have part: "part_ok (c @ ''='' @ dec_int v) (AtEq c (VInt v))" if "ident c" for c v
    using part_ok_render [of "AtEq c (VInt v)"] that by (simp add: enc_int_def)
  have empty: "reads_as [] []" "tight []" by (simp_all add: reads_as_def)
  have "steps_ok (yq_steps opt) (yq_atoms opt)"
    using part [of "''id''" "yq_id opt"] part [of "''unified_event_id''" "yq_unifiedEventId opt"] part [of "''user_id''" "yq_userId opt"]
    by (simp add: steps_ok_def yq_steps_def yq_atoms_def)
  then obtain s c where s: "add_steps (yq_steps opt) [] = Inr s" "reads_as s c"
      "\<forall>row. selects c row \<longleftrightarrow> selects [] row \<and> steps_hold (yq_steps opt) (yq_atoms opt) row"
    using add_steps_reads [of "yq_steps opt" "yq_atoms opt" "[]" "[]"] empty by blast
  have "sql_where s (history_row h) = Some (?P h)" for h
    using s(3) reads_as_where [OF s(2), of "history_row h"] by (simp add: steps_hold_def yq_steps_def yq_atoms_def history_row_def)
  then have "where_rows (me_engine env) history_row s = ?P" by (rule where_rows_read)
  then show ?thesis by (simp add: getIncidentHistory_def yq_getCondition_def s(1) tbl_select_def orderHistories)
qed

end

interpretation ex_incidents: incident_env_ok ex_mysql_env
  by unfold_locales (simp_all add: ex_mysql_env_def ex_mon_env_def)

text \<open>
  The time of the last update is read through a result of 32 bits, the type of another column: from 2038 on
  the query throws.
\<close>

lemma last_update_time_overflows:
  assumes "mon_env_ok env" "mt_incidents (st_data db) = [i]" "2 ^ 31 \<le> fst (ic_updatedAt i)" "fst (ic_updatedAt i) < 2 ^ 32"
  shows "getLastUpdateTimeOfIncidents env ALL_INCIDENT_TRACKERS db = Inl HatoholException"
proof -
  let ?t = "fst (ic_updatedAt i)"
  have "(word_of_int (?t - 2 ^ 32) :: u32) = word_of_int ?t" by (subst wi_hom_sub [symmetric]) simp
  then have "read_int_cell ?t = read_int_cell (?t - 2 ^ 32)" by (simp only: read_int_cell_def)
  then have "read_int_cell ?t < 0" using read_int_cell_small [of "?t - 2 ^ 32"] assms(3,4) by simp
  then show ?thesis using assms(2) by (simp add: getLastUpdateTimeOfIncidents_def tbl_select_def where_rows_def)
qed

lemma last_update_time_max:
  assumes "mon_env_ok env" "mt_incidents (st_data db) \<noteq> []" "\<forall>i \<in> set (mt_incidents (st_data db)). 0 \<le> fst (ic_updatedAt i) \<and> fst (ic_updatedAt i) < 2 ^ 31"
  shows "getLastUpdateTimeOfIncidents env ALL_INCIDENT_TRACKERS db =
    Inr (word_of_int (Max ((\<lambda>i. fst (ic_updatedAt i)) ` set (mt_incidents (st_data db)))))"
proof -
  let ?M = "Max ((\<lambda>i. fst (ic_updatedAt i)) ` set (mt_incidents (st_data db)))"
  have "?M \<in> (\<lambda>i. fst (ic_updatedAt i)) ` set (mt_incidents (st_data db))" using assms(2) by (intro Max_in) auto
  then have "0 \<le> ?M" "?M < 2 ^ 31" using assms(3) by auto
  moreover have "tbl_select (me_engine env) incident_row [] (mt_incidents (st_data db)) = mt_incidents (st_data db)"
    by (simp add: tbl_select_def where_rows_def)
  ultimately show ?thesis
    using read_int_cell_small [of ?M] assms(2) by (simp add: getLastUpdateTimeOfIncidents_def Let_def del: Max_less_iff)
qed

end
