(* ===== verification/Mon_Items.thy ===== *)
theory Mon_Items
  imports Mon_EventStore
begin

text \<open>
  Monitoring items and their categories (src/server/src/DBTablesMonitoring.cc): the option of a query, storing,
  synchronising, listing and counting. Categories have a table of their own, with a row for every item and name.
\<close>

section \<open>Query option\<close>

definition ALL_ITEMS :: string where
  "ALL_ITEMS = ''*''"

definition synapseItemsQueryOption :: synapse where
  "synapseItemsQueryOption =
     \<lparr>sy_tableProfile = tableProfileItems, sy_selfIdColumnIdx = 2, sy_serverIdColumnIdx = 1,
      sy_hostTableProfile = tableProfileItems, sy_hostIdColumnIdx = 4, sy_needToJoinHostgroup = True,
      sy_hostgroupMapTableProfile = tableProfileHostgroupMember, sy_hostgroupMapServerIdColumnIdx = 1,
      sy_hostgroupMapHostIdColumnIdx = 2, sy_hostgroupMapGroupIdColumnIdx = 3,
      sy_globalHostIdColumnIdx = 3, sy_hostgroupMapGlobalHostIdColumnIdx = 4\<rparr>"

record items_option =
  iq_base :: host_option
  iq_query :: data_query_option
  iq_targetId :: string
  iq_itemCategoryName :: string
  iq_excludeFlags :: u32

definition mk_items_option :: "host_option \<Rightarrow> items_option" where
  "mk_items_option base =
     \<lparr>iq_base = base, iq_query = mk_data_query_option, iq_targetId = ALL_ITEMS, iq_itemCategoryName = [], iq_excludeFlags = 0\<rparr>"

definition iq_shouldExcludeInvalidHost :: "items_option \<Rightarrow> bool" where
  "iq_shouldExcludeInvalidHost opt \<longleftrightarrow> and (iq_excludeFlags opt) EXCLUDE_INVALID_HOST \<noteq> 0"

definition iq_steps :: "items_option \<Rightarrow> (bool \<times> string res) list" where
  "iq_steps opt =
     [(iq_shouldExcludeInvalidHost opt, Inr (''server_host_def.status!='' @ dec_int HOST_STAT_REMOVED)),
      (iq_targetId opt \<noteq> ALL_ITEMS, Inr (''items.id='' @ enc_str (iq_targetId opt))),
      (iq_itemCategoryName opt \<noteq> [], Inr (''item_categories.name='' @ enc_str (iq_itemCategoryName opt)))]"

definition iq_getCondition :: "items_option \<Rightarrow> string res" where
  "iq_getCondition opt =
     bindR (getCondition (iq_base opt)) (\<lambda>condition.
       if isAlwaysFalseCondition condition then Inr condition else add_steps (iq_steps opt) condition)"

definition iq_full_names :: "items_option \<Rightarrow> items_option" where
  "iq_full_names opt = opt\<lparr>iq_base := (iq_base opt)\<lparr>ho_tableNameAlways := True\<rparr>\<rparr>"

section \<open>Rows\<close>

text \<open>An item with what a query joins: a category, the server's definition of the host, a membership of the host.\<close>

type_synonym item_join = "item_info \<times> item_category option \<times> server_host_def option \<times> hostgroup_member option"

definition opt_col :: "('a \<Rightarrow> sql_val) \<Rightarrow> 'a option \<Rightarrow> sql_val" where
  "opt_col f x = (case x of None \<Rightarrow> VNull | Some y \<Rightarrow> f y)"

definition item_row :: "item_join \<Rightarrow> sql_row" where
  "item_row = (\<lambda>(i, c, d, m). (\<lambda>_. VNull)(
     ''id'' := VStr (it_id i), ''server_id'' := VInt (it_serverId i),
     ''items.global_id'' := VInt (it_globalId i), ''items.server_id'' := VInt (it_serverId i), ''items.id'' := VStr (it_id i),
     ''items.host_id_in_server'' := VStr (it_hostIdInServer i),
     ''item_categories.name'' := opt_col (\<lambda>c. VStr (cg_name c)) c,
     ''server_host_def.status'' := opt_col (\<lambda>d. VInt (sh_status d)) d,
     ''hostgroup_member.host_group_id'' := opt_col (\<lambda>m. VStr (hm_hostgroupIdInServer m)) m))"

definition category_row :: "item_category \<Rightarrow> sql_row" where
  "category_row c = (\<lambda>_. VStr [])(''id'' := VInt (cg_id c), ''global_item_id'' := VInt (cg_globalItemId c), ''name'' := VStr (cg_name c))"

definition left_join :: "('a \<Rightarrow> 'b \<Rightarrow> bool) \<Rightarrow> 'a list \<Rightarrow> 'b list \<Rightarrow> ('a \<times> 'b option) list" where
  "left_join p xs ys = concat (map (\<lambda>x. case filter (p x) ys of [] \<Rightarrow> [(x, None)] | hits \<Rightarrow> map (\<lambda>y. (x, Some y)) hits) xs)"

definition with_members :: "mon_env \<Rightarrow> host_option \<Rightarrow> (item_info \<times> 'c \<times> 'd) list \<Rightarrow> (item_info \<times> 'c \<times> 'd \<times> hostgroup_member option) list" where
  "with_members env opt rows =
     (if isHostgroupUsed opt
      then map (\<lambda>((i, c, d), m). (i, c, d, Some m))
             (filter (\<lambda>((i, c, d), m). it_globalHostId i = hm_hostId m) (List.product rows (ht_members (me_hosts env))))
      else map (\<lambda>(i, c, d). (i, c, d, None)) rows)"

definition item_category_join :: "mon_tables \<Rightarrow> (item_info \<times> item_category option) list" where
  "item_category_join d = left_join (\<lambda>i c. it_globalId i = cg_globalItemId c) (mt_items d) (mt_categories d)"

text \<open>The joins of the queries that narrow items, and of the query that reads the chosen ones.\<close>

definition item_join_rows :: "mon_env \<Rightarrow> host_option \<Rightarrow> mon_tables \<Rightarrow> item_join list" where
  "item_join_rows env opt d =
     with_members env opt (map (\<lambda>((i, c), s). (i, c, s))
       (left_join (\<lambda>(i, c) s. it_serverId i = sh_serverId s \<and> it_hostIdInServer i = sh_hostIdInServer s)
          (item_category_join d) (ht_defs (me_hosts env))))"

definition item_read_rows :: "mon_env \<Rightarrow> host_option \<Rightarrow> mon_tables \<Rightarrow> item_join list" where
  "item_read_rows env opt d = with_members env opt (map (\<lambda>(i, c). (i, c, None)) (item_category_join d))"

section \<open>Lists and counts\<close>

definition item_builder :: "items_option \<Rightarrow> string res" where
  "item_builder opt =
     bindR (addTable0 (mk_join_builder tableProfileItems (iq_base opt)) tableProfileItemCategories LEFT_JOIN 0 1) (\<lambda>b.
     bindR (addTable2 b tableProfileServerHostDef LEFT_JOIN tableProfileItems 1 2 tableProfileItems 4 3) (\<lambda>b.
     bindR (build_join b) (\<lambda>_. iq_getCondition (iq_full_names opt))))"

definition getGlobalItemIds :: "mon_env \<Rightarrow> items_option \<Rightarrow> mon_db \<Rightarrow> int list res" where
  "getGlobalItemIds env opt db =
     bindR (item_builder opt) (\<lambda>condition.
       if isAlwaysFalseCondition condition then Inr []
       else if dqo_maxNumber (iq_query opt) = 0 \<and> dqo_offset (iq_query opt) \<noteq> 0 then Inr []
       else Inr (limit_rows (iq_query opt) (me_orderItems env (getOrderBy (iq_query opt))
              (remdups (map (\<lambda>(i, _). it_globalId i) (tbl_select (me_engine env) item_row condition (item_join_rows env (iq_base opt) (st_data db))))))))"

definition global_id_condition :: "int list \<Rightarrow> string" where
  "global_id_condition ids = inject_loop True '','' (map dec_int ids) ''items.global_id IN ('' @ '')''"

text \<open>A row of the result goes to the item with its global identifier, or makes a new one; an empty name of a category is dropped.\<close>

definition collect_item :: "item_info \<times> string \<Rightarrow> item_full list \<Rightarrow> item_full list" where
  "collect_item = (\<lambda>(i, name) acc.
     let names = (if name = [] then [] else [name])
     in if it_globalId i \<in> it_globalId ` set acc
        then map (\<lambda>a. if it_globalId a = it_globalId i then a\<lparr>it_categoryNames := it_categoryNames a @ names\<rparr> else a) acc
        else acc @ [item_info.extend i (item_full.fields names)])"

definition category_text :: "item_category option \<Rightarrow> string" where
  "category_text c = (case c of None \<Rightarrow> [] | Some c \<Rightarrow> cg_name c)"

definition getItemInfoList :: "mon_env \<Rightarrow> items_option \<Rightarrow> mon_db \<Rightarrow> item_full list res" where
  "getItemInfoList env opt db =
     bindR (getGlobalItemIds env opt db) (\<lambda>ids.
       if ids = [] then Inr []
       else
         let rows = map (\<lambda>(i, c, _). (i, category_text c))
               (tbl_select (me_engine env) item_row (global_id_condition ids) (item_read_rows env (iq_base opt) (st_data db)));
             rows = (if isHostgroupUsed (iq_base opt) then remdups rows else rows)
         in Inr (fold collect_item rows []))"

text \<open>The names are returned as the database finds them: no option of items sets an order.\<close>

definition getItemCategoryNames :: "mon_env \<Rightarrow> items_option \<Rightarrow> mon_db \<Rightarrow> string list res" where
  "getItemCategoryNames env opt db =
     bindR (item_builder opt) (\<lambda>condition.
       if isAlwaysFalseCondition condition then Inr []
       else if dqo_maxNumber (iq_query opt) = 0 \<and> dqo_offset (iq_query opt) \<noteq> 0 then Inr []
       else Inr (map (case_option [] id) (limit_rows (iq_query opt)
              (remdups (map (\<lambda>(_, c, _). map_option cg_name c)
                 (tbl_select (me_engine env) item_row condition (item_join_rows env (iq_base opt) (st_data db))))))))"

definition getNumberOfItems :: "mon_env \<Rightarrow> items_option \<Rightarrow> mon_db \<Rightarrow> nat res" where
  "getNumberOfItems env opt db =
     bindR (item_builder opt) (\<lambda>condition.
       Inr (length (remdups (map (\<lambda>(i, _). it_globalId i)
         (tbl_select (me_engine env) item_row condition (item_join_rows env (iq_base opt) (st_data db)))))))"

section \<open>Storing\<close>

abbreviation item_key :: "item_info \<Rightarrow> int \<times> string" where
  "item_key i \<equiv> (it_serverId i, it_id i)"

definition item_keys :: "(item_info, int \<times> string) table_keys" where
  "item_keys = \<lparr>tk_id = it_globalId, tk_setId = (\<lambda>g i. i\<lparr>it_globalId := g\<rparr>), tk_unique = Some item_key\<rparr>"

definition stored_item :: "item_info \<Rightarrow> item_info" where
  "stored_item i = i\<lparr>it_globalId := AUTO_INCREMENT_VALUE, it_id := cstr (it_id i), it_hostIdInServer := cstr (it_hostIdInServer i),
     it_brief := cstr (it_brief i), it_lastValue := cstr (it_lastValue i), it_prevValue := cstr (it_prevValue i), it_unit := cstr (it_unit i),
     it_sec := int_time (it_sec i), it_nsec := int_time (it_nsec i)\<rparr>"

definition addItemCategoryWithoutTransaction :: "mon_env \<Rightarrow> int \<times> string \<Rightarrow> item_category list \<Rightarrow> item_category list" where
  "addItemCategoryWithoutTransaction env = (\<lambda>(globalItemId, name) cs.
     cs @ [\<lparr>cg_id = en_nextId (me_engine env) (map cg_id cs), cg_globalItemId = globalItemId, cg_name = cstr name\<rparr>])"

definition getItemCategoriesFromId :: "mon_env \<Rightarrow> int \<Rightarrow> item_category list \<Rightarrow> item_category list" where
  "getItemCategoriesFromId env globalItemId cs =
     tbl_select (me_engine env) category_row (''global_item_id='' @ dec_int globalItemId) cs"

definition deleteItemCateoryWithoutTransaction :: "mon_env \<Rightarrow> int \<Rightarrow> item_category list \<Rightarrow> item_category list" where
  "deleteItemCateoryWithoutTransaction env i cs = tbl_delete (me_engine env) category_row (''id='' @ dec_int i) cs"

text \<open>The names that are new and the identifiers of the categories to delete. \<open>insert\<close> keeps the first category of a name.\<close>

definition category_map_insert :: "item_category \<Rightarrow> (string \<times> item_category) list \<Rightarrow> (string \<times> item_category) list" where
  "category_map_insert c m = (case map_of m (cg_name c) of Some _ \<Rightarrow> m | None \<Rightarrow> std_map_put (cg_name c) c m)"

fun calcDelta_loop :: "string list \<Rightarrow> (string \<times> item_category) list \<Rightarrow> string list \<Rightarrow> string list \<times> (string \<times> item_category) list" where
  "calcDelta_loop [] m added = (added, m)"
| "calcDelta_loop (name # names) m added =
     (case map_of m name of
        None \<Rightarrow> calcDelta_loop names m (added @ [name])
      | Some _ \<Rightarrow> calcDelta_loop names (std_map_erase name m) added)"

definition calcDelta :: "item_category list \<Rightarrow> string list \<Rightarrow> string list \<times> int list" where
  "calcDelta currCategories latestCategoryNames =
     (let (added, m) = calcDelta_loop latestCategoryNames (fold category_map_insert currCategories []) []
      in (added, map (\<lambda>(_, c). cg_id c) m))"

definition getGlobalItemId :: "mon_env \<Rightarrow> int \<Rightarrow> string \<Rightarrow> item_info list \<Rightarrow> int res" where
  "getGlobalItemId env serverId itemId items =
     (case tbl_select (me_engine env) (\<lambda>i. item_row (i, None, None, None))
             (''server_id='' @ dec_int serverId @ '' AND id='' @ enc_str itemId) items of
        [i] \<Rightarrow> Inr (it_globalId i)
      | _ \<Rightarrow> Inl HatoholException)"

text \<open>
  \<open>DBAgentSQLite3::lastUpsertDidInsert\<close> is an assertion that fails; \<open>DBAgentMySQL\<close> looks at the number of affected rows, which is
  one exactly after an insertion.
\<close>

definition lastUpsertDidInsert :: "agent_kind \<Rightarrow> 'r list \<Rightarrow> 'r list \<Rightarrow> bool res" where
  "lastUpsertDidInsert ag before after =
     (case ag of AgentSQLite3 \<Rightarrow> Inl HatoholException | AgentMySQL \<Rightarrow> Inr (length before < length after))"

definition addItemInfoWithoutTransaction :: "mon_env \<Rightarrow> item_full \<Rightarrow> mon_tables \<Rightarrow> mon_tables res" where
  "addItemInfoWithoutTransaction env i d =
     bindR (agent_upsert (he_agent (me_host env)) (me_engine env) item_keys (stored_item (item_info.truncate i)) (mt_items d)) (\<lambda>(items, _).
     bindR (lastUpsertDidInsert (he_agent (me_host env)) (mt_items d) items) (\<lambda>inserted.
     bindR (if inserted then Inr (it_globalId (last items), it_categoryNames i, [])
            else bindR (getGlobalItemId env (it_serverId i) (it_id i) items) (\<lambda>g.
              let (added, deleted) = calcDelta (getItemCategoriesFromId env g (mt_categories d)) (it_categoryNames i)
              in Inr (g, added, deleted))) (\<lambda>(g, added, deleted).
       let cs = fold (deleteItemCateoryWithoutTransaction env) deleted (mt_categories d);
           cs = fold (\<lambda>name. addItemCategoryWithoutTransaction env (g, name)) added cs
       in Inr (d\<lparr>mt_items := items, mt_categories := cs\<rparr>))))"

definition addItemInfo :: "mon_env \<Rightarrow> item_full \<Rightarrow> mon_db \<Rightarrow> (mon_db \<times> unit) res" where
  "addItemInfo env i db = table_trx (\<lambda>d _. bindR (addItemInfoWithoutTransaction env i d) (\<lambda>d. Inr (d, ()))) None db ()"

definition addItemInfoList :: "mon_env \<Rightarrow> item_full list \<Rightarrow> mon_db \<Rightarrow> (mon_db \<times> unit) res" where
  "addItemInfoList env is db = table_trx (\<lambda>d _. bindR (foldR (addItemInfoWithoutTransaction env) is d) (\<lambda>d. Inr (d, ()))) None db ()"

definition makeConditionForDeleteItem :: "string list \<Rightarrow> int \<Rightarrow> string" where
  "makeConditionForDeleteItem idList serverId =
     inject_loop True '','' (map enc_str idList) ''id IN ('' @ '')'' @ '' AND '' @ ''server_id='' @ dec_int serverId"

definition deleteItemInfo :: "mon_env \<Rightarrow> string list \<Rightarrow> int \<Rightarrow> mon_db \<Rightarrow> (hterr \<times> mon_db) res" where
  "deleteItemInfo env idList serverId db =
     (if idList = [] then Inr (HTERR_INVALID_PARAMETER, db)
      else bindR (table_trx (\<lambda>d _.
             let items = tbl_delete (me_engine env) (\<lambda>i. item_row (i, None, None, None)) (makeConditionForDeleteItem idList serverId) (mt_items d)
             in Inr (d\<lparr>mt_items := items\<rparr>, length (mt_items d) - length items)) None db 0) (\<lambda>(db, numAffectedRows).
           Inr (if numAffectedRows \<noteq> length idList then HTERR_DELETE_INCOMPLETE else HTERR_OK, db)))"

section \<open>Synchronisation\<close>

definition item_description :: "item_full \<Rightarrow> string \<times> string \<times> string list \<times> (int \<times> int) \<times> int \<times> string" where
  "item_description i = (it_brief i, it_lastValue i, it_categoryNames i, (it_sec i, it_nsec i), it_valueType i, it_unit i)"

definition isItemChanged :: "item_full \<Rightarrow> (string \<times> item_full) list \<Rightarrow> bool" where
  "isItemChanged = name_changed it_id item_description"

definition getTargetHostId :: "item_full list \<Rightarrow> string" where
  "getTargetHostId is = (if \<forall>i \<in> set is. it_hostIdInServer i = it_hostIdInServer (hd is) then it_hostIdInServer (hd is) else ALL_LOCAL_HOSTS)"

definition system_items_option :: "mon_env \<Rightarrow> int \<Rightarrow> string \<Rightarrow> items_option" where
  "system_items_option env serverId hostId =
     mk_items_option (setTargetHostId (system_host_option (me_host env) synapseItemsQueryOption serverId) hostId)"

definition syncItems :: "mon_env \<Rightarrow> item_full list \<Rightarrow> int \<Rightarrow> mon_db \<Rightarrow> (hterr \<times> mon_db) res" where
  "syncItems env incoming serverId db =
     (if incoming = [] then Inr (HTERR_OK, db)
      else bindR (getItemInfoList env (system_items_option env serverId (getTargetHostId incoming)) db) (\<lambda>currItems.
        let currentItemMap = fold (\<lambda>i m. std_map_put (it_id i) i m) currItems [];
            picked = sync_loop it_id isItemChanged incoming currentItemMap [];
            invalidIds = map (\<lambda>(_, i). it_id i) (fst picked)
        in bindR (if invalidIds = [] then Inr (HTERR_OK, db) else deleteItemInfo env invalidIds serverId db) (\<lambda>(err, db).
           bindR (if snd picked = [] then Inr (db, ()) else addItemInfoList env (snd picked) db) (\<lambda>(db, _). Inr (err, db)))))"

end
