(* ===== verification/Mon_ItemStore.thy ===== *)
theory Mon_ItemStore
  imports Mon_Items
begin

text \<open>
  Storing an item leaves exactly the given categories behind it, whatever it had before; deleting an item leaves its
  categories in their table.
\<close>

section \<open>The difference of categories\<close>

interpretation items: keyed_table item_keys item_key
  by unfold_locales (simp_all add: item_keys_def)

lemma items_wf_ids: "items.wf_rows rows \<Longrightarrow> distinct (map it_globalId rows)"
  unfolding items.wf_rows_def by (simp add: item_keys_def)

lemma items_wf_length: "items.wf_rows rows \<Longrightarrow> length rows = card (item_key ` set rows)"
  using distinct_card [of "map item_key rows"] unfolding items.wf_rows_def by simp

lemma image_insert_rest: "k \<in> f ` S \<Longrightarrow> insert k (f ` {q \<in> S. f q \<noteq> k}) = f ` S"
  by auto

lemma calcDelta_loop_result:
  assumes "std_map_wf m" "distinct names"
  shows "fst (calcDelta_loop names m added) = added @ filter (\<lambda>n. map_of m n = None) names"
    "std_map_wf (snd (calcDelta_loop names m added))"
    "map_of (snd (calcDelta_loop names m added)) k = (if k \<in> set names then None else map_of m k)"
proof -
  have "fst (calcDelta_loop names m added) = added @ filter (\<lambda>n. map_of m n = None) names
    \<and> std_map_wf (snd (calcDelta_loop names m added))
    \<and> (\<forall>k. map_of (snd (calcDelta_loop names m added)) k = (if k \<in> set names then None else map_of m k))"
    using assms
  proof (induction names arbitrary: m added)
    case (Cons n names)
    show ?case
    proof (cases "map_of m n")
      case None
      with Cons.IH [OF Cons.prems(1), of "added @ [n]"] Cons.prems(2) show ?thesis by simp
    next
      case (Some c)
      have "filter (\<lambda>k. map_of (std_map_erase n m) k = None) names = filter (\<lambda>k. map_of m k = None) names"
        using Cons.prems by (intro filter_cong refl) (auto simp: map_of_std_map_erase)
      with Some Cons.IH [OF std_map_wf_erase [OF Cons.prems(1)], of n added] Cons.prems show ?thesis
        by (simp add: map_of_std_map_erase)
    qed
  qed simp
  then show "fst (calcDelta_loop names m added) = added @ filter (\<lambda>n. map_of m n = None) names"
    "std_map_wf (snd (calcDelta_loop names m added))"
    "map_of (snd (calcDelta_loop names m added)) k = (if k \<in> set names then None else map_of m k)" by blast+
qed

lemma category_map:
  assumes "distinct (map cg_name cs)"
  shows "std_map_wf (fold category_map_insert cs [])"
    "map_of (fold category_map_insert cs []) n = find (\<lambda>c. cg_name c = n) cs"
proof -
  have "std_map_wf (fold category_map_insert cs m)
      \<and> (\<forall>n. map_of (fold category_map_insert cs m) n = (case map_of m n of Some c \<Rightarrow> Some c | None \<Rightarrow> find (\<lambda>c. cg_name c = n) cs))"
    if "std_map_wf m" for m
    using that by (induction cs arbitrary: m) (auto simp: category_map_insert_def map_of_std_map_put std_map_wf_put split: option.splits)
  from this [OF std_map_wf_Nil] show "std_map_wf (fold category_map_insert cs [])"
    "map_of (fold category_map_insert cs []) n = find (\<lambda>c. cg_name c = n) cs" by simp_all
qed

lemma calcDelta_exact:
  assumes "distinct (map cg_name cs)" "distinct names"
  obtains del where "calcDelta cs names = (filter (\<lambda>n. n \<notin> cg_name ` set cs) names, del)"
    "set del = cg_id ` {c \<in> set cs. cg_name c \<notin> set names}"
proof -
  let ?m = "fold category_map_insert cs []" and ?r = "calcDelta_loop names (fold category_map_insert cs []) []"
  note loop = calcDelta_loop_result [OF category_map(1) [OF assms(1)] assms(2), of "[]"]
  have none: "map_of ?m n = None \<longleftrightarrow> n \<notin> cg_name ` set cs" for n
    by (auto simp: category_map(2) [OF assms(1)] find_None_iff)
  have "(n, c) \<in> set (snd ?r) \<longleftrightarrow> map_of (snd ?r) n = Some c" for n c
    using map_of_eq_Some_iff [OF std_map_wf_distinct [OF loop(2)]] by auto
  also have "map_of (snd ?r) n = Some c \<longleftrightarrow> c \<in> set cs \<and> cg_name c = n \<and> n \<notin> set names" for n c
    using find_distinct [OF assms(1), of n c] by (auto simp: loop(3) category_map(2) [OF assms(1)])
  finally have mem: "(n, c) \<in> set (snd ?r) \<longleftrightarrow> c \<in> set cs \<and> cg_name c = n \<and> n \<notin> set names" for n c .
  have "set (map (\<lambda>(_, c). cg_id c) (snd ?r)) = cg_id ` {c \<in> set cs. cg_name c \<notin> set names}"
    using mem by force
  then show thesis using that [of "map (\<lambda>(_, c). cg_id c) (snd ?r)"] loop(1) by (simp add: calcDelta_def none case_prod_unfold)
qed

section \<open>Storing an item\<close>

definition categories_of :: "mon_tables \<Rightarrow> int \<Rightarrow> string list" where
  "categories_of d g = map cg_name (filter (\<lambda>c. cg_globalItemId c = g) (mt_categories d))"

text \<open>One row for a key and for a global identifier; categories with identifiers of their own, of stored items, each name once.\<close>

definition items_ok :: "mon_tables \<Rightarrow> bool" where
  "items_ok d \<longleftrightarrow> items.wf_rows (mt_items d) \<and> distinct (map cg_id (mt_categories d))
     \<and> cg_globalItemId ` set (mt_categories d) \<subseteq> it_globalId ` set (mt_items d) \<and> (\<forall>g. distinct (categories_of d g))"

lemma item_idents [simp]: "ident ''global_item_id''" "ident ''id''" "ident ''server_id''"
  by code_simp+

context mon_env_ok
begin

lemma rows_category:
  "where_rows (me_engine env) category_row (''global_item_id='' @ dec_int g) = (\<lambda>c. cg_globalItemId c = g)"
  "where_rows (me_engine env) category_row (''id='' @ dec_int g) = (\<lambda>c. cg_id c = g)"
  using rows_render [of "[[AtEq ''global_item_id'' (VInt g)]]" category_row] rows_render [of "[[AtEq ''id'' (VInt g)]]" category_row]
  by (simp_all add: render_single enc_int_def selects_def holds_def category_row_def cond_ok_def)

lemma rows_item_key:
  "where_rows (me_engine env) (\<lambda>i. item_row (i, None, None, None)) (''server_id='' @ dec_int s @ '' AND id='' @ enc_str n) =
     (\<lambda>i. item_key i = (s, cstr n))"
  using rows_render [of "[[AtEq ''server_id'' (VInt s), AtEq ''id'' (VStr n)]]" "\<lambda>i. item_row (i, None, None, None)"]
  by (simp add: render_single render_def enc_int_def selects_def holds_def item_row_def cond_ok_def)

lemma delete_categories: "fold (deleteItemCateoryWithoutTransaction env) ids cs = filter (\<lambda>c. cg_id c \<notin> set ids) cs"
proof (induction ids arbitrary: cs)
  case (Cons i ids)
  have "deleteItemCateoryWithoutTransaction env i cs = filter (\<lambda>c. cg_id c \<noteq> i) cs"
    unfolding deleteItemCateoryWithoutTransaction_def tbl_delete_def rows_category ..
  then show ?case using Cons.IH by (auto intro: filter_cong)
qed simp

lemma add_categories:
  assumes "distinct (map cg_id cs)"
  shows "\<exists>news. fold (\<lambda>name. addItemCategoryWithoutTransaction env (g, name)) names cs = cs @ news
    \<and> map cg_name news = map cstr names \<and> (\<forall>c \<in> set news. cg_globalItemId c = g) \<and> distinct (map cg_id (cs @ news))"
  using assms
proof (induction names arbitrary: cs)
  case (Cons n names)
  let ?c = "\<lparr>cg_id = en_nextId (me_engine env) (map cg_id cs), cg_globalItemId = g, cg_name = cstr n\<rparr>"
  have step: "addItemCategoryWithoutTransaction env (g, n) cs = cs @ [?c]" by (simp add: addItemCategoryWithoutTransaction_def)
  have "distinct (map cg_id (cs @ [?c]))" using Cons.prems nextId_fresh [of "map cg_id cs"] by simp
  from Cons.IH [OF this] obtain news where "fold (\<lambda>name. addItemCategoryWithoutTransaction env (g, name)) names (cs @ [?c]) = (cs @ [?c]) @ news"
    "map cg_name news = map cstr names" "\<forall>c \<in> set news. cg_globalItemId c = g" "distinct (map cg_id ((cs @ [?c]) @ news))" by blast
  then show ?case by (intro exI [of _ "?c # news"]) (simp add: step)
qed simp

lemma getGlobalItemId_found:
  assumes "items.wf_rows rows" "items.lookup rows (s, cstr n) = Some r"
  shows "getGlobalItemId env s n rows = Inr (it_globalId r)"
proof -
  have r: "r \<in> set rows" "item_key r = (s, cstr n)" using assms items.lookup_Some by auto
  then have "set (filter (\<lambda>i. item_key i = (s, cstr n)) rows) = {r}"
    using assms(1) by (auto simp: items.wf_rows_def distinct_map inj_on_def)
  moreover have "distinct (filter (\<lambda>i. item_key i = (s, cstr n)) rows)" using assms(1) by (auto simp: items.wf_rows_def distinct_map)
  ultimately have "filter (\<lambda>i. item_key i = (s, cstr n)) rows = [r]"
    by (cases "filter (\<lambda>i. item_key i = (s, cstr n)) rows"; cases "tl (filter (\<lambda>i. item_key i = (s, cstr n)) rows)") auto
  then show ?thesis unfolding getGlobalItemId_def tbl_select_def rows_item_key by simp
qed

text \<open>The categories of the item afterwards: the names that stay and the new ones.\<close>

lemma categories_after:
  assumes "distinct (map cg_id (mt_categories d))" "distinct (categories_of d g)" "distinct names" "\<forall>n \<in> set names. cstr n = n"
    and "calcDelta (filter (\<lambda>c. cg_globalItemId c = g) (mt_categories d)) names = (added, deleted)"
  obtains cs where "fold (\<lambda>name. addItemCategoryWithoutTransaction env (g, name)) added
        (fold (deleteItemCateoryWithoutTransaction env) deleted (mt_categories d)) = cs"
    "distinct (map cg_id cs)" "set (map cg_name (filter (\<lambda>c. cg_globalItemId c = g) cs)) = set names"
    "distinct (map cg_name (filter (\<lambda>c. cg_globalItemId c = g) cs))"
    "\<forall>h. h \<noteq> g \<longrightarrow> filter (\<lambda>c. cg_globalItemId c = h) cs = filter (\<lambda>c. cg_globalItemId c = h) (mt_categories d)"
proof -
  let ?mine = "filter (\<lambda>c. cg_globalItemId c = g) (mt_categories d)"
  have added: "added = filter (\<lambda>n. n \<notin> cg_name ` set ?mine) names" and deleted: "set deleted = cg_id ` {c \<in> set ?mine. cg_name c \<notin> set names}"
    by (rule calcDelta_exact [OF assms(2) [unfolded categories_of_def] assms(3)]; use assms(5) in simp)+
  define left where "left = filter (\<lambda>c. cg_id c \<notin> set deleted) (mt_categories d)"
  have one: "c = c'" if "c \<in> set (mt_categories d)" "c' \<in> set (mt_categories d)" "cg_id c = cg_id c'" for c c'
    using assms(1) that by (auto simp: distinct_map inj_on_def)
  have gone: "cg_id c \<in> set deleted \<longleftrightarrow> cg_globalItemId c = g \<and> cg_name c \<notin> set names" if "c \<in> set (mt_categories d)" for c
    using that one by (auto simp: deleted)
  have "distinct (map cg_id left)" using assms(1) by (simp add: left_def distinct_map_filter)
  from add_categories [OF this, of g added] obtain news where news:
    "fold (\<lambda>name. addItemCategoryWithoutTransaction env (g, name)) added left = left @ news" "map cg_name news = map cstr added"
    "\<forall>c \<in> set news. cg_globalItemId c = g" "distinct (map cg_id (left @ news))" by blast
  have "map cstr added = added" using assms(4) by (intro map_idI) (auto simp: added)
  then have names: "map cg_name news = added" using news(2) by simp
  have lg: "filter (\<lambda>c. cg_globalItemId c = g) left = filter (\<lambda>c. cg_name c \<in> set names) ?mine"
    unfolding left_def by (simp, intro filter_cong refl) (use gone in auto)
  have ng: "filter (\<lambda>c. cg_globalItemId c = g) news = news" using news(3) by simp
  have "set (map cg_name (filter (\<lambda>c. cg_globalItemId c = g) (left @ news))) = set names"
    unfolding filter_append map_append lg ng names by (auto simp: added)
  moreover have "distinct (map cg_name (filter (\<lambda>c. cg_globalItemId c = g) (left @ news)))"
    using distinct_map_filter [OF assms(2) [unfolded categories_of_def], of "\<lambda>c. cg_name c \<in> set names"] assms(3)
    unfolding filter_append map_append lg ng names distinct_append by (auto simp: added)
  moreover have "filter (\<lambda>c. cg_globalItemId c = h) (left @ news) = filter (\<lambda>c. cg_globalItemId c = h) (mt_categories d)" if "h \<noteq> g" for h
  proof -
    have "filter (\<lambda>c. cg_globalItemId c = h) news = []" using news(3) that by (auto simp: filter_empty_conv)
    moreover have "filter (\<lambda>c. cg_globalItemId c = h) left = filter (\<lambda>c. cg_globalItemId c = h) (mt_categories d)"
      unfolding left_def by (simp, intro filter_cong refl) (use gone that in auto)
    ultimately show ?thesis by simp
  qed
  ultimately show thesis using that [OF refl, unfolded delete_categories, folded left_def, unfolded news(1)] news(4) by blast
qed

lemma upsert_new_item:
  assumes "items.lookup rows (item_key new) = None" "it_globalId new = AUTO_INCREMENT_VALUE"
  shows "agent_upsert AgentMySQL (me_engine env) item_keys new rows =
    Inr (rows @ [new\<lparr>it_globalId := en_nextId (me_engine env) (map it_globalId rows)\<rparr>], False)"
proof -
  have "find (id_hit item_keys new) rows = None" "find (unique_hit item_keys new) rows = None"
    using assms by (auto simp: find_None_iff id_hit_def item_keys_def items.unique_hit_iff [unfolded item_keys_def] items.lookup_None image_iff)
  then show ?thesis using assms(2) by (simp add: agent_upsert_def mysql_upsert_def insert_row_def item_keys_def)
qed

lemma addItem_rows:
  assumes "he_agent (me_host env) = AgentMySQL" "items_ok d" "distinct (it_categoryNames i)" "\<forall>n \<in> set (it_categoryNames i). cstr n = n"
  defines "new \<equiv> stored_item (item_info.truncate i)"
  obtains cs rows g where "addItemInfoWithoutTransaction env i d = Inr (d\<lparr>mt_items := rows, mt_categories := cs\<rparr>)"
    "items.wf_rows rows" "items.lookup rows = (items.lookup (mt_items d))(item_key new := Some (new\<lparr>it_globalId := g\<rparr>))"
    "set rows = insert (new\<lparr>it_globalId := g\<rparr>) {r \<in> set (mt_items d). item_key r \<noteq> item_key new}"
    "distinct (map cg_id cs)" "set (map cg_name (filter (\<lambda>c. cg_globalItemId c = g) cs)) = set (it_categoryNames i)"
    "distinct (map cg_name (filter (\<lambda>c. cg_globalItemId c = g) cs))"
    "\<forall>h. h \<noteq> g \<longrightarrow> filter (\<lambda>c. cg_globalItemId c = h) cs = filter (\<lambda>c. cg_globalItemId c = h) (mt_categories d)"
    "\<forall>r \<in> set (mt_items d). item_key r = item_key new \<longrightarrow> it_globalId r = g"
proof -
  have ok: "items.wf_rows (mt_items d)" "distinct (map cg_id (mt_categories d))" "distinct (categories_of d h)" for h using assms(2) by (simp_all add: items_ok_def)
  have auto: "tk_id item_keys new = 0" "it_globalId new = AUTO_INCREMENT_VALUE" by (simp_all add: item_keys_def new_def stored_item_def AUTO_INCREMENT_VALUE_def)
  have key: "item_key new = (it_serverId i, cstr (it_id i))" by (simp add: new_def stored_item_def item_info.truncate_def)
  have tk: "tk_id item_keys = it_globalId" "\<And>g. tk_setId item_keys g new = new\<lparr>it_globalId := g\<rparr>" by (simp_all add: item_keys_def)
  obtain rows b g where up: "agent_upsert AgentMySQL (me_engine env) item_keys new (mt_items d) = Inr (rows, b)" "items.wf_rows rows"
    "items.lookup rows = (items.lookup (mt_items d))(item_key new := Some (new\<lparr>it_globalId := g\<rparr>))"
    "set rows = insert (new\<lparr>it_globalId := g\<rparr>) {r \<in> set (mt_items d). item_key r \<noteq> item_key new}"
    "g = (case items.lookup (mt_items d) (item_key new) of Some r \<Rightarrow> it_globalId r | None \<Rightarrow> en_nextId (me_engine env) (map it_globalId (mt_items d)))"
    by (rule items.upsert_auto [OF user_engine_ok_axioms ok(1) auto(1), of AgentMySQL, unfolded tk])
  have own: "it_globalId r = g" if "r \<in> set (mt_items d)" "item_key r = item_key new" for r
    using up(5) that items.lookup_Some [OF ok(1), of "item_key new" r] by simp
  let ?mine = "filter (\<lambda>c. cg_globalItemId c = g) (mt_categories d)"
  obtain added deleted where plan: "calcDelta ?mine (it_categoryNames i) = (added, deleted)" by (cases "calcDelta ?mine (it_categoryNames i)")
  obtain cs where cs: "fold (\<lambda>name. addItemCategoryWithoutTransaction env (g, name)) added
        (fold (deleteItemCateoryWithoutTransaction env) deleted (mt_categories d)) = cs"
    "distinct (map cg_id cs)" "set (map cg_name (filter (\<lambda>c. cg_globalItemId c = g) cs)) = set (it_categoryNames i)"
    "distinct (map cg_name (filter (\<lambda>c. cg_globalItemId c = g) cs))"
    "\<forall>h. h \<noteq> g \<longrightarrow> filter (\<lambda>c. cg_globalItemId c = h) cs = filter (\<lambda>c. cg_globalItemId c = h) (mt_categories d)"
    by (rule categories_after [OF ok(2) ok(3) assms(3,4) plan])
  have "addItemInfoWithoutTransaction env i d = Inr (d\<lparr>mt_items := rows, mt_categories := cs\<rparr>)"
  proof (cases "items.lookup (mt_items d) (item_key new)")
    case None
    have rows: "rows = mt_items d @ [new\<lparr>it_globalId := g\<rparr>]" using up(1,5) upsert_new_item [OF None auto(2)] None by simp
    have "g \<notin> it_globalId ` set (mt_items d)" using up(5) None nextId_fresh [of "map it_globalId (mt_items d)"] by simp
    then have "?mine = []" using assms(2) by (auto simp: items_ok_def filter_empty_conv)
    then have "added = it_categoryNames i" "deleted = []" using calcDelta_exact [of ?mine "it_categoryNames i"] plan assms(3) by auto
    then show ?thesis using up(1) cs(1) assms(1) by (simp add: addItemInfoWithoutTransaction_def new_def [symmetric] lastUpsertDidInsert_def rows)
  next
    case (Some r)
    have r: "r \<in> set (mt_items d)" "item_key r = item_key new" using Some items.lookup_Some [OF ok(1)] by auto
    have "item_key new \<in> item_key ` set (mt_items d)" using image_eqI [where f = item_key, OF r(2) [symmetric] r(1)] .
    moreover have "item_key (new\<lparr>it_globalId := g\<rparr>) = item_key new" by simp
    ultimately have "item_key ` set rows = item_key ` set (mt_items d)"
      using image_insert_rest [of "item_key new" item_key "set (mt_items d)"] by (simp only: up(4) image_insert)
    then have len: "\<not> length (mt_items d) < length rows" using items_wf_length [OF up(2)] items_wf_length [OF ok(1)] by simp
    have "items.lookup rows (it_serverId i, cstr (it_id i)) = Some (new\<lparr>it_globalId := g\<rparr>)" by (simp add: up(3) key [symmetric])
    from getGlobalItemId_found [OF up(2) this] have gid: "getGlobalItemId env (it_serverId i) (it_id i) rows = Inr g" by simp
    have "getItemCategoriesFromId env g (mt_categories d) = ?mine" unfolding getItemCategoriesFromId_def tbl_select_def rows_category ..
    then show ?thesis
      using up(1) cs(1) assms(1) len plan gid by (simp add: addItemInfoWithoutTransaction_def new_def [symmetric] lastUpsertDidInsert_def)
  qed
  then show thesis using that up(2-4) cs(2-5) own by blast
qed

end

text \<open>
  C31. Storing an item with \<open>DBAgentMySQL\<close>, new or known, whose category names are distinct and free of
  NUL, in tables where every category belongs to an item (which the deletion of items does not keep, see
  below): under its server and identifier is afterwards the \<open>stored_item\<close> of the reported one (texts end
  at their first NUL, the time of the last value is cut to an \<open>int\<close>), and its categories are exactly the
  reported names, each once; other items and their categories stay, and so does the rest of the database.
\<close>

theorem addItemInfo_exact:
  assumes "mon_env_ok env" and "he_agent (me_host env) = AgentMySQL" and "items_ok (st_data db)"
    and "distinct (it_categoryNames i)" and "\<forall>n \<in> set (it_categoryNames i). cstr n = n"
    and "new = stored_item (item_info.truncate i)"
  shows "\<exists>db' g rows cs. addItemInfo env i db = Inr (db', ()) \<and> st_data db' = (st_data db)\<lparr>mt_items := rows, mt_categories := cs\<rparr>
    \<and> items_ok (st_data db') \<and> items.lookup rows = (items.lookup (mt_items (st_data db)))(item_key new \<mapsto> new\<lparr>it_globalId := g\<rparr>)
    \<and> set (categories_of (st_data db') g) = set (it_categoryNames i)
    \<and> (\<forall>r \<in> set (mt_items (st_data db)). item_key r \<noteq> item_key new \<longrightarrow>
        it_globalId r \<noteq> g \<and> categories_of (st_data db') (it_globalId r) = categories_of (st_data db) (it_globalId r))"
proof -
  let ?d = "st_data db"
  obtain cs rows g where r: "addItemInfoWithoutTransaction env i ?d = Inr (?d\<lparr>mt_items := rows, mt_categories := cs\<rparr>)"
    "items.wf_rows rows" "items.lookup rows = (items.lookup (mt_items ?d))(item_key new := Some (new\<lparr>it_globalId := g\<rparr>))"
    "set rows = insert (new\<lparr>it_globalId := g\<rparr>) {r \<in> set (mt_items ?d). item_key r \<noteq> item_key new}"
    "distinct (map cg_id cs)" "set (map cg_name (filter (\<lambda>c. cg_globalItemId c = g) cs)) = set (it_categoryNames i)"
    "distinct (map cg_name (filter (\<lambda>c. cg_globalItemId c = g) cs))"
    "\<forall>h. h \<noteq> g \<longrightarrow> filter (\<lambda>c. cg_globalItemId c = h) cs = filter (\<lambda>c. cg_globalItemId c = h) (mt_categories ?d)"
    "\<forall>r \<in> set (mt_items ?d). item_key r = item_key new \<longrightarrow> it_globalId r = g"
    by (rule mon_env_ok.addItem_rows [OF assms(1-5), folded assms(6)])
  obtain db' where db': "addItemInfo env i db = Inr (db', ())" "st_data db' = ?d\<lparr>mt_items := rows, mt_categories := cs\<rparr>"
    using r(1) by (simp add: addItemInfo_def table_trx_run)
  have cat: "categories_of (st_data db') h = (if h = g then map cg_name (filter (\<lambda>c. cg_globalItemId c = g) cs) else categories_of ?d h)" for h
    using r(8) by (simp add: categories_of_def db'(2))
  have "cg_globalItemId c \<in> it_globalId ` set rows" if "c \<in> set cs" for c
  proof (cases "cg_globalItemId c = g")
    case True
    have "new\<lparr>it_globalId := g\<rparr> \<in> set rows" by (simp add: r(4))
    with True show ?thesis by (intro image_eqI [of _ _ "new\<lparr>it_globalId := g\<rparr>"]) simp_all
  next
    case False
    have "c \<in> set (filter (\<lambda>c'. cg_globalItemId c' = cg_globalItemId c) cs)" using that by simp
    then have "c \<in> set (mt_categories ?d)" using r(8) False by (metis filter_is_subset subsetD)
    then obtain q where "q \<in> set (mt_items ?d)" "cg_globalItemId c = it_globalId q" using assms(3) by (force simp: items_ok_def)
    with False r(9) show ?thesis by (auto simp: r(4))
  qed
  then have ok: "items_ok (st_data db')"
    using r(2,5,7) cat assms(3) by (auto simp: items_ok_def db'(2))
  have "it_globalId q \<noteq> g" if "q \<in> set (mt_items ?d)" "item_key q \<noteq> item_key new" for q
  proof
    assume "it_globalId q = g"
    moreover have "q \<in> set rows" "new\<lparr>it_globalId := g\<rparr> \<in> set rows" using that by (auto simp: r(4))
    ultimately have "q = new\<lparr>it_globalId := g\<rparr>" using items_wf_ids [OF r(2)] by (simp add: distinct_map inj_on_def)
    with that(2) show False by simp
  qed
  with db' ok r(3,6) cat show ?thesis by (intro exI [of _ db'] exI [of _ g] exI [of _ rows] exI [of _ cs]) auto
qed

definition ex_item :: "int \<Rightarrow> string \<Rightarrow> string list \<Rightarrow> item_full" where
  "ex_item g n names = \<lparr>it_globalId = g, it_serverId = 1, it_id = n, it_globalHostId = 7, it_hostIdInServer = ''h'', it_brief = ''load'',
     it_sec = 10, it_nsec = 0, it_lastValue = ''0.5'', it_prevValue = ''0.4'', it_valueType = 1, it_unit = [], it_categoryNames = names\<rparr>"

definition ex_items_db :: mon_db where
  "ex_items_db = \<lparr>st_data = \<lparr>mt_triggers = [], mt_events = [], mt_incidents = [], mt_histories = [],
     mt_items = [item_info.truncate (ex_item 3 ''cpu'' []), item_info.truncate (ex_item 4 ''net'' [])],
     mt_categories = [\<lparr>cg_id = 1, cg_globalItemId = 3, cg_name = ''A''\<rparr>, \<lparr>cg_id = 2, cg_globalItemId = 3, cg_name = ''B''\<rparr>,
       \<lparr>cg_id = 5, cg_globalItemId = 4, cg_name = ''A''\<rparr>]\<rparr>, st_base = None\<rparr>"

definition ex_mysql_mon :: mon_env where
  "ex_mysql_mon = ex_mon_env\<lparr>me_host := ex_host_env\<lparr>he_agent := AgentMySQL\<rparr>\<rparr>"

interpretation ex_mysql_mon: mon_env_ok ex_mysql_mon
  by unfold_locales
    (use ex_hosts.nextId_fresh ex_hosts.nextId_pos ex_hosts.matches_where in \<open>simp_all add: ex_mysql_mon_def ex_mon_env_def\<close>)

lemma ex_items_ok: "items_ok (st_data ex_items_db)"
proof -
  have "items.wf_rows (mt_items (st_data ex_items_db))"
    unfolding items.wf_rows_def by (simp add: item_keys_def ex_items_db_def ex_item_def item_info.truncate_def)
  then show ?thesis by (auto simp: items_ok_def categories_of_def ex_items_db_def ex_item_def item_info.truncate_def)
qed

text \<open>The item had the categories A and B and is reported with B and C; the other item keeps its A.\<close>

theorem addItemInfo_exact_witness:
  "\<exists>db' g. addItemInfo ex_mysql_mon (ex_item 0 ''cpu'' [''B'', ''C'']) ex_items_db = Inr (db', ())
     \<and> set (categories_of (st_data db') g) = {''B'', ''C''} \<and> set (categories_of (st_data db') 4) = {''A''}"
proof -
  let ?i = "ex_item 0 ''cpu'' [''B'', ''C'']" and ?r = "item_info.truncate (ex_item 4 ''net'' [])"
  have my: "he_agent (me_host ex_mysql_mon) = AgentMySQL" by (simp add: ex_mysql_mon_def)
  have names: "distinct (it_categoryNames ?i)" "\<forall>n \<in> set (it_categoryNames ?i). cstr n = n" "set (it_categoryNames ?i) = {''B'', ''C''}"
    by (simp_all add: ex_item_def cstr_def nul_def)
  have r: "?r \<in> set (mt_items (st_data ex_items_db))" "item_key ?r \<noteq> item_key (stored_item (item_info.truncate ?i))" "it_globalId ?r = 4"
      "categories_of (st_data ex_items_db) 4 = [''A'']"
    by (simp_all add: ex_items_db_def ex_item_def item_info.truncate_def stored_item_def cstr_def nul_def categories_of_def)
  show ?thesis
    using addItemInfo_exact [OF ex_mysql_mon.mon_env_ok_axioms my ex_items_ok names(1,2) refl] r names(3) by fastforce
qed

section \<open>Deleting items\<close>

text \<open>
  The categories of a deleted item stay, with a global identifier that no item has. A synchronisation deletes
  every item that changed before it stores it again, so each change leaves its categories behind.
\<close>

lemma deleteItemInfo_orphans:
  assumes "mon_env_ok env" "items_ok (st_data db)" "deleteItemInfo env ids s db = Inr (err, db')"
    and "i \<in> set (mt_items (st_data db))" "it_serverId i = s" "it_id i \<in> set ids" "cstr (it_id i) = it_id i"
    and "categories_of (st_data db) (it_globalId i) \<noteq> []"
  shows "mt_categories (st_data db') = mt_categories (st_data db)" "\<not> items_ok (st_data db')"
proof -
  let ?row = "\<lambda>i. item_row (i, None, None, None)" and ?c = "makeConditionForDeleteItem ids s"
  have ne: "ids \<noteq> []" using assms(6) by auto
  have d: "st_data db' = (st_data db)\<lparr>mt_items := tbl_delete (me_engine env) ?row ?c (mt_items (st_data db))\<rparr>"
    using assms(3) ne by (auto simp: deleteItemInfo_def table_trx_run Let_def)
  then show cats: "mt_categories (st_data db') = mt_categories (st_data db)" by simp
  have render: "?c = render [[AtIn ''id'' (map VStr ids), AtEq ''server_id'' (VInt s)]]"
    using ne by (simp add: makeConditionForDeleteItem_def inject_loop_join render_def enc_int_def comp_def)
  have hit: "where_rows (me_engine env) ?row ?c j" if "it_serverId j = s" "it_id j \<in> set ids" "cstr (it_id j) = it_id j" for j
    using host_env_ok.rows_render [OF mon_env_ok.axioms(1) [OF assms(1)], of "[[AtIn ''id'' (map VStr ids), AtEq ''server_id'' (VInt s)]]" ?row] that ne
    unfolding render by (auto simp: cond_ok_def selects_def holds_def item_row_def image_iff intro!: bexI [of _ "it_id j"])
  have "j = i" if "j \<in> set (mt_items (st_data db))" "it_globalId j = it_globalId i" for j
    using assms(2,4) that items_wf_ids by (auto simp: items_ok_def distinct_map inj_on_def)
  then have "it_globalId i \<notin> it_globalId ` set (mt_items (st_data db'))"
    using hit [OF assms(5,6,7)] by (auto simp: d tbl_delete_def)
  moreover obtain c where "c \<in> set (mt_categories (st_data db))" "cg_globalItemId c = it_globalId i"
    using assms(8) by (auto simp: categories_of_def filter_empty_conv)
  ultimately show "\<not> items_ok (st_data db')" unfolding items_ok_def cats by (metis image_eqI subsetD)
qed

end
