(* ===== verification/Self_Monitor.thy ===== *)
theory Self_Monitor
  imports Mon_EventStore
begin

text \<open>
  Monitors that the server keeps of itself (src/server/src/SelfMonitor.cc): each has a trigger, notifies the
  monitors that listen to it, and may be told that its status cannot be known. Event generators and handlers of
  notifications are programs: they call monitors one after the other, may look at what \<open>getLastKnownStatus\<close> returns
  before each call, and may throw; like those of src/server/src/HatoholArmPluginGateHAPI2.cc they catch nothing. The
  calls run to a depth that is bounded by fuel.
\<close>

section \<open>Monitors\<close>

definition STATELESS_MONITOR :: string where
  "STATELESS_MONITOR = ''__STATELESS_SELF_MONITOR''"

definition DEFAULT_SELF_MONITOR_HOST_NAME :: string where
  "DEFAULT_SELF_MONITOR_HOST_NAME = ''(self-monitor)''"

definition INAPPLICABLE_HOST_ID :: int where
  "INAPPLICABLE_HOST_ID = 2 ^ 64 - 3"

definition EVENT_TYPE_AUTO :: int where
  "EVENT_TYPE_AUTO = -2"

definition EVENT_TYPE_GOOD :: int where
  "EVENT_TYPE_GOOD = 0"

definition EVENT_TYPE_BAD :: int where
  "EVENT_TYPE_BAD = 1"

definition NUM_TRIGGER_STATUS :: int where
  "NUM_TRIGGER_STATUS = 3"

datatype call = CUpdate nat int | CSetWorkable nat bool | CSaveEvent nat string int

text \<open>What \<open>getLastKnownStatus\<close> returns for the monitors that are alive.\<close>

type_synonym view = "nat \<Rightarrow> int option"

datatype prog = PReturn | PThrow | PCall call "view \<Rightarrow> prog"

type_synonym generator = "nat \<Rightarrow> int \<Rightarrow> int \<Rightarrow> view \<Rightarrow> prog"

record monitor =
  mo_trigger :: trigger_info
  mo_lastKnownStatus :: int
  mo_actualStatus :: int
  mo_listeners :: "nat list"
  mo_eventGenerators :: "int \<Rightarrow> int \<Rightarrow> generator"
  mo_notificationHandler :: "nat \<Rightarrow> nat \<Rightarrow> int \<Rightarrow> int \<Rightarrow> view \<Rightarrow> prog"
  mo_inUpdating :: bool
  mo_workable :: bool
  mo_inSetWorkableCall :: bool

text \<open>
  The monitors that are alive, the tables of the database that they write to, the events handed to the
  data store, and the clock.
\<close>

record world =
  wd_monitors :: "nat \<Rightarrow> monitor option"
  wd_mon :: mon_db
  wd_events :: "mon_event list"
  wd_now :: "int \<times> int"

definition put :: "nat \<Rightarrow> monitor \<Rightarrow> world \<Rightarrow> world" where
  "put i m w = w\<lparr>wd_monitors := (wd_monitors w)(i \<mapsto> m)\<rparr>"

datatype outcome = Done | Threw | Broken | NoFuel

definition unworkableVisibleStatus :: int where
  "unworkableVisibleStatus = TRIGGER_STATUS_UNKNOWN"

definition calcEventType :: "int \<Rightarrow> int" where
  "calcEventType trigStatus = (if trigStatus = TRIGGER_STATUS_OK then EVENT_TYPE_GOOD else EVENT_TYPE_BAD)"

definition mon_updateTrigger :: "monitor \<Rightarrow> world \<Rightarrow> outcome \<times> world" where
  "mon_updateTrigger m w =
     (if tg_id (mo_trigger m) = STATELESS_MONITOR then (Done, w)
      else case addTriggerInfo (mo_trigger m) (wd_mon w) of
             Inl _ \<Rightarrow> (Threw, w)
           | Inr (db, _) \<Rightarrow> (Done, w\<lparr>wd_mon := db\<rparr>))"

definition setupTriggerInfo :: "int \<Rightarrow> string \<Rightarrow> string \<Rightarrow> int \<Rightarrow> int \<times> int \<Rightarrow> trigger_info" where
  "setupTriggerInfo serverId triggerId brief severity currTime =
     \<lparr>tg_serverId = serverId, tg_id = triggerId, tg_status = TRIGGER_STATUS_UNKNOWN, tg_severity = severity,
      tg_sec = fst currTime, tg_nsec = snd currTime, tg_globalHostId = INAPPLICABLE_HOST_ID,
      tg_hostIdInServer = MONITORING_SELF_LOCAL_HOST_ID, tg_hostName = DEFAULT_SELF_MONITOR_HOST_NAME, tg_brief = brief,
      tg_extendedInfo = [], tg_validity = TRIGGER_VALID_SELF_MONITORING\<rparr>"

text \<open>The host that \<open>setupHostForSelfMonitor\<close> hands to \<open>upsertHost\<close>.\<close>

definition selfMonitorHost :: "int \<Rightarrow> server_host_def" where
  "selfMonitorHost serverId = \<lparr>sh_id = AUTO_INCREMENT_VALUE, sh_hostId = AUTO_ASSIGNED_ID, sh_serverId = serverId,
     sh_hostIdInServer = MONITORING_SELF_LOCAL_HOST_ID, sh_name = DEFAULT_SELF_MONITOR_HOST_NAME, sh_status = HOST_STAT_SELF_MONITOR\<rparr>"

definition mk_monitor :: "host_env \<Rightarrow> nat \<Rightarrow> int \<Rightarrow> string \<Rightarrow> string \<Rightarrow> int \<Rightarrow> world \<Rightarrow> host_db \<Rightarrow> (outcome \<times> world) \<times> host_db" where
  "mk_monitor env i serverId triggerId brief severity w hosts =
     (let m = \<lparr>mo_trigger = setupTriggerInfo serverId triggerId brief severity (wd_now w), mo_lastKnownStatus = TRIGGER_STATUS_UNKNOWN,
            mo_actualStatus = TRIGGER_STATUS_UNKNOWN, mo_listeners = [], mo_eventGenerators = (\<lambda>_ _ _ _ _ _. PReturn),
            mo_notificationHandler = (\<lambda>_ _ _ _ _. PReturn), mo_inUpdating = False, mo_workable = True, mo_inSetWorkableCall = False\<rparr>
      in case mon_updateTrigger m w of
           (Done, w) \<Rightarrow>
             (case upsertHost env (selfMonitorHost serverId) True hosts of
                Inl _ \<Rightarrow> ((Threw, w), hosts)
              | Inr (hosts, _) \<Rightarrow> ((Done, put i m w), hosts))
         | r \<Rightarrow> (r, hosts))"

definition status_range :: "int \<Rightarrow> int \<Rightarrow> bool" where
  "status_range st k \<longleftrightarrow> (if st = TRIGGER_STATUS_ALL then 0 \<le> k \<and> k < NUM_TRIGGER_STATUS else k = st)"

definition setEventGenerator :: "int \<Rightarrow> int \<Rightarrow> generator \<Rightarrow> monitor \<Rightarrow> monitor" where
  "setEventGenerator prevStatus newStatus gen m =
     m\<lparr>mo_eventGenerators := (\<lambda>p n. if status_range prevStatus p \<and> status_range newStatus n then gen else mo_eventGenerators m p n)\<rparr>"

definition setNotificationHandler :: "(nat \<Rightarrow> nat \<Rightarrow> int \<Rightarrow> int \<Rightarrow> view \<Rightarrow> prog) \<Rightarrow> monitor \<Rightarrow> monitor" where
  "setNotificationHandler handler m = m\<lparr>mo_notificationHandler := handler\<rparr>"

definition addNotificationListener :: "nat \<Rightarrow> monitor \<Rightarrow> monitor" where
  "addNotificationListener l m = m\<lparr>mo_listeners := mo_listeners m @ [l]\<rparr>"

section \<open>Calls\<close>

definition blank_event :: mon_event where
  "blank_event = initEventInfo \<lparr>ev_serverId = 0, ev_id = [], ev_time = 0, ev_nsec = 0, ev_type = 0, ev_triggerId = [], ev_status = 0,
     ev_severity = 0, ev_hostIdInServer = [], ev_unifiedId = 0, ev_globalHostId = 0, ev_hostName = [], ev_brief = [], ev_extendedInfo = []\<rparr>"

definition saveEvent :: "monitor \<Rightarrow> string \<Rightarrow> int \<Rightarrow> world \<Rightarrow> world" where
  "saveEvent m brief eventType w =
     (let t = mo_trigger m
      in w\<lparr>wd_events := wd_events w @ [blank_event\<lparr>ev_serverId := tg_serverId t, ev_id := [], ev_time := fst (wd_now w), ev_nsec := snd (wd_now w),
            ev_type := (if eventType \<noteq> EVENT_TYPE_AUTO then eventType else calcEventType (tg_status t)), ev_triggerId := tg_id t,
            ev_status := tg_status t, ev_severity := tg_severity t, ev_globalHostId := tg_globalHostId t,
            ev_hostIdInServer := tg_hostIdInServer t, ev_hostName := tg_hostName t,
            ev_brief := (if brief \<noteq> [] then brief else tg_brief t), ev_extendedInfo := tg_extendedInfo t\<rparr>]\<rparr>)"

definition getLastKnownStatus :: "world \<Rightarrow> view" where
  "getLastKnownStatus w = (\<lambda>i. map_option mo_lastKnownStatus (wd_monitors w i))"

primrec do_prog :: "(call \<Rightarrow> world \<Rightarrow> outcome \<times> world) \<Rightarrow> prog \<Rightarrow> world \<Rightarrow> outcome \<times> world" where
  "do_prog run PReturn = (\<lambda>w. (Done, w))"
| "do_prog run PThrow = (\<lambda>w. (Threw, w))"
| "do_prog run (PCall c k) = (\<lambda>w. case run c w of (Done, w) \<Rightarrow> do_prog run (k (getLastKnownStatus w)) w | r \<Rightarrow> r)"

definition generateEvent :: "(call \<Rightarrow> world \<Rightarrow> outcome \<times> world) \<Rightarrow> nat \<Rightarrow> monitor \<Rightarrow> int \<Rightarrow> int \<Rightarrow> world \<Rightarrow> outcome \<times> world" where
  "generateEvent run i m prevStatus newStatus w =
     (if status_range TRIGGER_STATUS_ALL prevStatus \<and> status_range TRIGGER_STATUS_ALL newStatus
      then do_prog run (mo_eventGenerators m prevStatus newStatus i prevStatus newStatus (getLastKnownStatus w)) w else (Broken, w))"

text \<open>The loop over the listeners: one that is gone is erased from the list of the monitor.\<close>

fun notify :: "(call \<Rightarrow> world \<Rightarrow> outcome \<times> world) \<Rightarrow> nat \<Rightarrow> int \<Rightarrow> int \<Rightarrow> nat list \<Rightarrow> world \<Rightarrow> outcome \<times> world" where
  "notify run i prevStatus newStatus [] w = (Done, w)"
| "notify run i prevStatus newStatus (l # ls) w =
     (case wd_monitors w l of
        Some m \<Rightarrow>
          (case do_prog run (mo_notificationHandler m l i prevStatus newStatus (getLastKnownStatus w)) w of
             (Done, w) \<Rightarrow> notify run i prevStatus newStatus ls w
           | r \<Rightarrow> r)
      | None \<Rightarrow>
          notify run i prevStatus newStatus ls
            (case wd_monitors w i of None \<Rightarrow> w | Some s \<Rightarrow> put i (s\<lparr>mo_listeners := remove1 l (mo_listeners s)\<rparr>) w))"

text \<open>The guard objects reset a flag when the call is left, also by an exception.\<close>

definition reap :: "nat \<Rightarrow> (monitor \<Rightarrow> monitor) \<Rightarrow> outcome \<times> world \<Rightarrow> outcome \<times> world" where
  "reap i f = (\<lambda>(r, w). (r, case wd_monitors w i of None \<Rightarrow> w | Some m \<Rightarrow> put i (f m) w))"

definition update_begin :: "int \<Rightarrow> monitor \<Rightarrow> monitor" where
  "update_begin st m =
     (let m = m\<lparr>mo_inUpdating := True\<rparr>;
          m = (if mo_inSetWorkableCall m then m else m\<lparr>mo_actualStatus := st\<rparr>);
          visible = (if mo_workable m then st else unworkableVisibleStatus)
      in m\<lparr>mo_trigger := (mo_trigger m)\<lparr>tg_status := visible\<rparr>\<rparr>)"

definition update_end :: "int \<Rightarrow> monitor \<Rightarrow> monitor" where
  "update_end st m = (if st \<noteq> TRIGGER_STATUS_UNKNOWN then m\<lparr>mo_lastKnownStatus := st\<rparr> else m)"

definition mon_update :: "(call \<Rightarrow> world \<Rightarrow> outcome \<times> world) \<Rightarrow> nat \<Rightarrow> int \<Rightarrow> world \<Rightarrow> outcome \<times> world" where
  "mon_update run i st w =
     (case wd_monitors w i of
        None \<Rightarrow> (Broken, w)
      | Some m0 \<Rightarrow>
          if mo_inUpdating m0 then (Threw, w)
          else
            let m = update_begin st m0; prevStatus = tg_status (mo_trigger m0); status = tg_status (mo_trigger m)
            in reap i (\<lambda>m. m\<lparr>mo_inUpdating := False\<rparr>)
                 (case mon_updateTrigger m (put i m w) of
                    (Done, w) \<Rightarrow>
                      (case generateEvent run i m prevStatus status w of
                         (Done, w) \<Rightarrow>
                           (case notify run i prevStatus status (mo_listeners m) w of
                              (Done, w) \<Rightarrow> reap i (update_end status) (Done, w)
                            | r \<Rightarrow> r)
                       | r \<Rightarrow> r)
                  | r \<Rightarrow> r))"

definition setWorkable :: "(call \<Rightarrow> world \<Rightarrow> outcome \<times> world) \<Rightarrow> nat \<Rightarrow> bool \<Rightarrow> world \<Rightarrow> outcome \<times> world" where
  "setWorkable run i workable w =
     (case wd_monitors w i of
        None \<Rightarrow> (Broken, w)
      | Some m \<Rightarrow>
          let m = m\<lparr>mo_inSetWorkableCall := True, mo_workable := workable\<rparr>
          in reap i (\<lambda>m. m\<lparr>mo_inSetWorkableCall := False\<rparr>)
               (mon_update run i (if workable then mo_actualStatus m else unworkableVisibleStatus) (put i m w)))"

fun run_call :: "nat \<Rightarrow> call \<Rightarrow> world \<Rightarrow> outcome \<times> world" where
  "run_call 0 c w = (NoFuel, w)"
| "run_call (Suc n) (CUpdate i st) w = mon_update (run_call n) i st w"
| "run_call (Suc n) (CSetWorkable i b) w = setWorkable (run_call n) i b w"
| "run_call (Suc n) (CSaveEvent i brief ty) w =
     (case wd_monitors w i of None \<Rightarrow> (Broken, w) | Some m \<Rightarrow> (Done, saveEvent m brief ty w))"

end
