(* ===== verification/Self_Props.thy ===== *)
theory Self_Props
  imports Self_Monitor
begin

text \<open>
  Updates of monitors come to an end however the listeners are connected, because a circle is an exception; and a
  monitor shows the status it was given last, or unknown while it is not workable.
\<close>

section \<open>What calls keep\<close>

definition updating :: "world \<Rightarrow> nat set" where
  "updating w = {i. \<exists>m. wd_monitors w i = Some m \<and> mo_inUpdating m}"

definition keeps :: "world \<Rightarrow> world \<Rightarrow> bool" where
  "keeps w w' \<longleftrightarrow> dom (wd_monitors w') = dom (wd_monitors w) \<and> updating w' = updating w"

lemma keeps_refl [simp]: "keeps w w"
  by (simp add: keeps_def)

lemma keeps_trans: "keeps w w' \<Longrightarrow> keeps w' w'' \<Longrightarrow> keeps w w''"
  by (simp add: keeps_def)

lemma put_monitors [simp]: "wd_monitors (put i m w) = (wd_monitors w)(i \<mapsto> m)"
  by (simp add: put_def)

lemma updating_put: "updating (put i m w) = (if mo_inUpdating m then insert i (updating w) else updating w - {i})"
  by (auto simp: updating_def split: if_splits)

lemma keeps_put: "wd_monitors w i = Some m0 \<Longrightarrow> mo_inUpdating m = mo_inUpdating m0 \<Longrightarrow> keeps w (put i m w)"
  by (auto simp: keeps_def updating_put) (auto simp: updating_def)

lemma mon_updateTrigger_monitors: "mon_updateTrigger m w = (r, w') \<Longrightarrow> wd_monitors w' = wd_monitors w \<and> r \<noteq> NoFuel"
  by (auto simp: mon_updateTrigger_def split: if_splits sum.splits)

text \<open>A way to run calls that keeps the monitors and their flags, and answers from the worlds of a set.\<close>

definition well_run :: "(call \<Rightarrow> world \<Rightarrow> outcome \<times> world) \<Rightarrow> bool" where
  "well_run run \<longleftrightarrow> (\<forall>c w r w'. run c w = (r, w') \<longrightarrow> keeps w w')"

definition answers :: "(call \<Rightarrow> world \<Rightarrow> outcome \<times> world) \<Rightarrow> world \<Rightarrow> bool" where
  "answers run w \<longleftrightarrow> (\<forall>c w'. keeps w w' \<longrightarrow> fst (run c w') \<noteq> NoFuel)"

lemma answers_keeps: "answers run w \<Longrightarrow> keeps w w' \<Longrightarrow> answers run w'"
  using keeps_trans by (auto simp: answers_def)

lemma do_prog_keeps: "well_run run \<Longrightarrow> do_prog run p w = (r, w') \<Longrightarrow> keeps w w'"
proof (induction p arbitrary: w)
  case (PCall c k)
  obtain r1 w1 where 1: "run c w = (r1, w1)" by (cases "run c w")
  then have "keeps w w1" using PCall.prems(1) by (auto simp: well_run_def)
  with PCall.prems(2) 1 PCall.IH [OF rangeI PCall.prems(1)] show ?case by (cases r1) (auto intro: keeps_trans)
qed simp_all

lemma do_prog_answers: "well_run run \<Longrightarrow> answers run w \<Longrightarrow> fst (do_prog run p w) \<noteq> NoFuel"
proof (induction p arbitrary: w)
  case (PCall c k)
  obtain r1 w1 where 1: "run c w = (r1, w1)" by (cases "run c w")
  have "fst (run c w) \<noteq> NoFuel" using PCall.prems(2) keeps_refl by (auto simp: answers_def)
  then have k: "keeps w w1" "r1 \<noteq> NoFuel" using 1 PCall.prems(1) by (auto simp: well_run_def)
  from PCall.IH [OF rangeI PCall.prems(1) answers_keeps [OF PCall.prems(2) k(1)]] show ?case using 1 k(2) by (cases r1) auto
qed simp_all

definition erased :: "nat \<Rightarrow> nat \<Rightarrow> world \<Rightarrow> world" where
  "erased i l w = (case wd_monitors w i of None \<Rightarrow> w | Some s \<Rightarrow> put i (s\<lparr>mo_listeners := remove1 l (mo_listeners s)\<rparr>) w)"

lemma keeps_erased: "keeps w (erased i l w)"
  by (auto simp: erased_def keeps_put split: option.split)

lemma notify_keeps: "well_run run \<Longrightarrow> notify run i p n ls w = (r, w') \<Longrightarrow> keeps w w'"
proof (induction ls arbitrary: w)
  case (Cons l ls)
  show ?case
  proof (cases "wd_monitors w l")
    case None
    then have "notify run i p n ls (erased i l w) = (r, w')" using Cons.prems(2) by (simp add: erased_def)
    then show ?thesis using Cons.IH [OF Cons.prems(1)] keeps_trans [OF keeps_erased] by blast
  next
    case (Some m)
    obtain r1 w1 where 1: "do_prog run (mo_notificationHandler m l i p n (getLastKnownStatus w)) w = (r1, w1)" by (cases "do_prog run (mo_notificationHandler m l i p n (getLastKnownStatus w)) w")
    have "keeps w w1" by (rule do_prog_keeps [OF Cons.prems(1) 1])
    with Cons Some 1 show ?thesis by (cases r1) (auto intro: keeps_trans)
  qed
qed simp

lemma notify_answers: "well_run run \<Longrightarrow> answers run w \<Longrightarrow> fst (notify run i p n ls w) \<noteq> NoFuel"
proof (induction ls arbitrary: w)
  case (Cons l ls)
  show ?case
  proof (cases "wd_monitors w l")
    case None
    then have "notify run i p n (l # ls) w = notify run i p n ls (erased i l w)" by (simp add: erased_def)
    then show ?thesis using Cons.IH [OF Cons.prems(1) answers_keeps [OF Cons.prems(2) keeps_erased]] by metis
  next
    case (Some m)
    obtain r1 w1 where 1: "do_prog run (mo_notificationHandler m l i p n (getLastKnownStatus w)) w = (r1, w1)" by (cases "do_prog run (mo_notificationHandler m l i p n (getLastKnownStatus w)) w")
    have "keeps w w1" "r1 \<noteq> NoFuel" using do_prog_keeps [OF Cons.prems(1) 1] do_prog_answers [OF Cons.prems] 1 by (auto, metis fst_conv)
    with Cons.IH [OF Cons.prems(1) answers_keeps [OF Cons.prems(2)]] Some 1 show ?thesis by (cases r1) auto
  qed
qed simp

lemma generateEvent_keeps: "well_run run \<Longrightarrow> generateEvent run i m p n w = (r, w') \<Longrightarrow> keeps w w'"
  using do_prog_keeps by (auto simp: generateEvent_def split: if_splits)

lemma generateEvent_answers: "well_run run \<Longrightarrow> answers run w \<Longrightarrow> fst (generateEvent run i m p n w) \<noteq> NoFuel"
  using do_prog_answers by (auto simp: generateEvent_def)

section \<open>Updates end\<close>

lemma update_begin_flag: "mo_inUpdating (update_begin st m)"
  by (simp add: update_begin_def Let_def)

text \<open>The body of an update between setting and resetting the flag.\<close>

definition update_middle :: "(call \<Rightarrow> world \<Rightarrow> outcome \<times> world) \<Rightarrow> nat \<Rightarrow> monitor \<Rightarrow> int \<Rightarrow> world \<Rightarrow> outcome \<times> world" where
  "update_middle run i m prevStatus w =
     (case mon_updateTrigger m w of
        (Done, w) \<Rightarrow>
          (case generateEvent run i m prevStatus (tg_status (mo_trigger m)) w of
             (Done, w) \<Rightarrow>
               (case notify run i prevStatus (tg_status (mo_trigger m)) (mo_listeners m) w of
                  (Done, w) \<Rightarrow> reap i (update_end (tg_status (mo_trigger m))) (Done, w)
                | r \<Rightarrow> r)
           | r \<Rightarrow> r)
      | r \<Rightarrow> r)"

lemma mon_update_middle:
  "mon_update run i st w =
     (case wd_monitors w i of
        None \<Rightarrow> (Broken, w)
      | Some m0 \<Rightarrow>
          if mo_inUpdating m0 then (Threw, w)
          else reap i (\<lambda>m. m\<lparr>mo_inUpdating := False\<rparr>)
                 (update_middle run i (update_begin st m0) (tg_status (mo_trigger m0)) (put i (update_begin st m0) w)))"
  by (simp add: mon_update_def update_middle_def Let_def split: option.splits)

lemma reap_keeps: "(\<And>m. mo_inUpdating (f m) = mo_inUpdating m) \<Longrightarrow> reap i f (r, w) = (r', w') \<Longrightarrow> keeps w w' \<and> r' = r"
  by (auto simp: reap_def keeps_put split: option.splits)

lemma update_middle_keeps:
  assumes "well_run run" "update_middle run i m p w = (r, w')"
  shows "keeps w w'"
proof -
  obtain r1 w1 where 1: "mon_updateTrigger m w = (r1, w1)" by (cases "mon_updateTrigger m w")
  have k1: "keeps w w1" using mon_updateTrigger_monitors [OF 1] by (simp add: keeps_def updating_def)
  obtain r2 w2 where 2: "generateEvent run i m p (tg_status (mo_trigger m)) w1 = (r2, w2)" by (cases "generateEvent run i m p (tg_status (mo_trigger m)) w1")
  note k2 = keeps_trans [OF k1 generateEvent_keeps [OF assms(1) 2]]
  obtain r3 w3 where 3: "notify run i p (tg_status (mo_trigger m)) (mo_listeners m) w2 = (r3, w3)"
    by (cases "notify run i p (tg_status (mo_trigger m)) (mo_listeners m) w2")
  note k3 = keeps_trans [OF k2 notify_keeps [OF assms(1) 3]]
  have "keeps w3 w4" if "reap i (update_end st) (Done, w3) = (r4, w4)" for st r4 w4
    using reap_keeps [OF _ that] by (simp add: update_end_def)
  then show ?thesis using assms(2) 1 2 3 k1 k2 k3 keeps_trans [OF k3]
    by (cases r1; cases r2; cases r3) (auto simp: update_middle_def)
qed

lemma update_middle_answers:
  assumes "well_run run" "answers run w"
  shows "fst (update_middle run i m p w) \<noteq> NoFuel"
proof -
  obtain r1 w1 where 1: "mon_updateTrigger m w = (r1, w1)" by (cases "mon_updateTrigger m w")
  have k1: "keeps w w1" "r1 \<noteq> NoFuel" using mon_updateTrigger_monitors [OF 1] by (simp_all add: keeps_def updating_def)
  obtain r2 w2 where 2: "generateEvent run i m p (tg_status (mo_trigger m)) w1 = (r2, w2)" by (cases "generateEvent run i m p (tg_status (mo_trigger m)) w1")
  have k2: "keeps w w2" "r2 \<noteq> NoFuel"
    using keeps_trans [OF k1(1) generateEvent_keeps [OF assms(1) 2]]
      generateEvent_answers [OF assms(1) answers_keeps [OF assms(2) k1(1)], of i m p "tg_status (mo_trigger m)"] 2 by simp_all
  obtain r3 w3 where 3: "notify run i p (tg_status (mo_trigger m)) (mo_listeners m) w2 = (r3, w3)"
    by (cases "notify run i p (tg_status (mo_trigger m)) (mo_listeners m) w2")
  have "r3 \<noteq> NoFuel"
    using notify_answers [OF assms(1) answers_keeps [OF assms(2) k2(1)], of i p "tg_status (mo_trigger m)" "mo_listeners m"] 3 by simp
  then show ?thesis using 1 2 3 k1(2) k2(2) by (cases r1; cases r2; cases r3) (auto simp: update_middle_def reap_def)
qed

lemma mon_update_keeps:
  assumes "well_run run" "mon_update run i st w = (r, w')"
  shows "keeps w w'"
proof (cases "wd_monitors w i")
  case (Some m0)
  show ?thesis
  proof (cases "mo_inUpdating m0")
    case False
    let ?m = "update_begin st m0"
    obtain r1 w1 where 1: "update_middle run i ?m (tg_status (mo_trigger m0)) (put i ?m w) = (r1, w1)"
      by (cases "update_middle run i ?m (tg_status (mo_trigger m0)) (put i ?m w)")
    have k: "dom (wd_monitors w1) = dom (wd_monitors w)" "updating w1 = insert i (updating w)"
      using update_middle_keeps [OF assms(1) 1] Some by (auto simp: keeps_def updating_put update_begin_flag)
    then obtain m1 where m1: "wd_monitors w1 i = Some m1" using Some by (metis domD domI)
    then have w': "w' = put i (m1\<lparr>mo_inUpdating := False\<rparr>) w1" using assms(2) Some False 1 by (simp add: mon_update_middle reap_def)
    have "i \<notin> updating w" "i \<in> dom (wd_monitors w)" using Some False by (auto simp: updating_def)
    then show ?thesis unfolding keeps_def w' by (simp add: updating_put k insert_absorb)
  qed (use assms(2) Some in \<open>simp add: mon_update_middle\<close>)
qed (use assms(2) in \<open>simp add: mon_update_middle\<close>)

lemma setWorkable_keeps:
  assumes "well_run run" "setWorkable run i b w = (r, w')"
  shows "keeps w w'"
proof (cases "wd_monitors w i")
  case (Some m)
  let ?m = "m\<lparr>mo_inSetWorkableCall := True, mo_workable := b\<rparr>"
  let ?st = "if b then mo_actualStatus ?m else unworkableVisibleStatus"
  obtain r1 w1 where 1: "mon_update run i ?st (put i ?m w) = (r1, w1)" by (cases "mon_update run i ?st (put i ?m w)")
  have "keeps w w1" using keeps_trans [OF keeps_put [OF Some] mon_update_keeps [OF assms(1) 1]] by simp
  moreover have "keeps w1 w'" using assms(2) Some 1 reap_keeps [of "\<lambda>m. m\<lparr>mo_inSetWorkableCall := False\<rparr>" i r1 w1 r w'] by (simp add: setWorkable_def)
  ultimately show ?thesis by (rule keeps_trans)
qed (use assms(2) in \<open>simp add: setWorkable_def\<close>)

lemma run_call_well: "well_run (run_call n)"
proof (induction n)
  case (Suc n)
  have "keeps w w'" if "run_call (Suc n) c w = (r, w')" for c w r w'
  proof (cases c)
    case (CSaveEvent i b ty)
    then show ?thesis using that by (auto simp: saveEvent_def Let_def keeps_def updating_def split: option.splits)
  qed (use that mon_update_keeps [OF Suc] setWorkable_keeps [OF Suc] in auto)
  then show ?case by (simp add: well_run_def)
qed (auto simp: well_run_def)

text \<open>The monitors that may still be updated.\<close>

definition free_monitors :: "world \<Rightarrow> nat set" where
  "free_monitors w = dom (wd_monitors w) - updating w"

lemma free_keeps: "keeps w w' \<Longrightarrow> free_monitors w' = free_monitors w"
  by (simp add: free_monitors_def keeps_def)

lemma mon_update_answers:
  assumes "\<And>v. finite (free_monitors v) \<Longrightarrow> card (free_monitors v) < n \<Longrightarrow> answers (run_call n) v"
    and "finite (free_monitors w)" "card (free_monitors w) < Suc n"
  shows "fst (mon_update (run_call n) i st w) \<noteq> NoFuel"
proof (cases "wd_monitors w i")
  case (Some m0)
  show ?thesis
  proof (cases "mo_inUpdating m0")
    case False
    let ?w = "put i (update_begin st m0) w"
    have i: "i \<in> free_monitors w" using Some False by (auto simp: free_monitors_def updating_def)
    have "free_monitors ?w = free_monitors w - {i}" using Some by (auto simp: free_monitors_def updating_put update_begin_flag)
    moreover have "card (free_monitors w - {i}) < n" using card_Diff1_less [OF assms(2) i] assms(3) by linarith
    ultimately have "answers (run_call n) ?w" using assms(1) [of ?w] assms(2) by simp
    from update_middle_answers [OF run_call_well this] show ?thesis using Some False by (simp add: mon_update_middle reap_def case_prod_unfold)
  qed (simp add: mon_update_middle Some)
qed (simp add: mon_update_middle)

lemma run_call_answers:
  "finite (free_monitors w) \<Longrightarrow> card (free_monitors w) < n \<Longrightarrow> answers (run_call n) w"
proof (induction n arbitrary: w)
  case (Suc n)
  have "fst (run_call (Suc n) c v) \<noteq> NoFuel" if "keeps w v" for c v
  proof -
    note free = free_keeps [OF that]
    have up: "fst (mon_update (run_call n) i st u) \<noteq> NoFuel" if "keeps v u" for i st u
      using mon_update_answers [of n u i st] Suc free_keeps [OF that] free by simp
    show ?thesis
    proof (cases c)
      case (CSetWorkable i b)
      show ?thesis
      proof (cases "wd_monitors v i")
        case (Some m)
        have "keeps v (put i (m\<lparr>mo_inSetWorkableCall := True, mo_workable := b\<rparr>) v)" by (rule keeps_put [OF Some]) simp
        from up [OF this] Some CSetWorkable show ?thesis by (simp add: setWorkable_def Let_def reap_def case_prod_unfold del: fun_upd_apply)
      qed (simp add: CSetWorkable setWorkable_def)
    next
      case (CSaveEvent i b ty)
      then show ?thesis by (simp split: option.split)
    qed (use up keeps_refl in auto)
  qed
  then show ?case by (simp add: answers_def)
qed simp

lemma run_call_circle:
  assumes "i \<in> updating w"
  shows "run_call (Suc n) (CUpdate i st) w = (Threw, w)"
    "wd_monitors w i = Some m \<Longrightarrow> run_call (Suc n) (CSetWorkable i b) w = (Threw, put i (m\<lparr>mo_workable := b, mo_inSetWorkableCall := False\<rparr>) w)"
proof -
  from assms obtain m0 where m0: "wd_monitors w i = Some m0" "mo_inUpdating m0" by (auto simp: updating_def)
  then show "run_call (Suc n) (CUpdate i st) w = (Threw, w)" by (simp add: mon_update_def)
  show "wd_monitors w i = Some m \<Longrightarrow> run_call (Suc n) (CSetWorkable i b) w = (Threw, put i (m\<lparr>mo_workable := b, mo_inSetWorkableCall := False\<rparr>) w)"
    using m0 by (simp add: setWorkable_def mon_update_def reap_def put_def)
qed

text \<open>
  C39. An update, a change of the workable flag, or the storing of an event comes to an end however monitors listen to each
  other, whatever their handlers call: with finitely many monitors, one more level of calls than there are
  monitors not being updated is enough. A circle is an exception: an update of a monitor that is being updated throws
  and changes nothing, and a change of its workable flag throws and changes the flag only. After every call, also one that
  throws, exactly the same monitors are alive and marked as being updated as before.
\<close>

theorem self_monitor_calls_end:
  assumes "finite (dom (wd_monitors w))" and "card (free_monitors w) < n" and "run_call n c w = (r, w')"
  shows "r \<noteq> NoFuel \<and> dom (wd_monitors w') = dom (wd_monitors w) \<and> updating w' = updating w
    \<and> (\<forall>i st. c = CUpdate i st \<and> i \<in> updating w \<longrightarrow> r = Threw \<and> w' = w)
    \<and> (\<forall>i b m. c = CSetWorkable i b \<and> i \<in> updating w \<and> wd_monitors w i = Some m \<longrightarrow>
         r = Threw \<and> w' = put i (m\<lparr>mo_workable := b, mo_inSetWorkableCall := False\<rparr>) w)"
proof -
  have "finite (free_monitors w)" using assms(1) by (simp add: free_monitors_def)
  from run_call_answers [OF this assms(2)] have "r \<noteq> NoFuel" using assms(3) keeps_refl by (metis answers_def fst_conv)
  moreover have "keeps w w'" using run_call_well assms(3) by (auto simp: well_run_def)
  moreover obtain k where k: "n = Suc k" using assms(2) by (cases n) auto
  moreover have "r = Threw \<and> w' = w" if "c = CUpdate i st" "i \<in> updating w" for i st
    using run_call_circle(1) [OF that(2), of k st] assms(3) unfolding k that(1) by simp
  moreover have "r = Threw \<and> w' = put i (m\<lparr>mo_workable := b, mo_inSetWorkableCall := False\<rparr>) w"
    if "c = CSetWorkable i b" "i \<in> updating w" "wd_monitors w i = Some m" for i b m
    using run_call_circle(2) [OF that(2,3), of k b] assms(3) unfolding k that(1) by simp
  ultimately show ?thesis unfolding keeps_def by blast
qed

text \<open>Two monitors, each of which passes a notification on by updating itself; the second one may listen to the first, and the first to the second.\<close>

definition ex_monitor :: "nat list \<Rightarrow> monitor" where
  "ex_monitor ls = \<lparr>mo_trigger = setupTriggerInfo 1 STATELESS_MONITOR ''brief'' 2 (10, 0), mo_lastKnownStatus = TRIGGER_STATUS_UNKNOWN,
     mo_actualStatus = TRIGGER_STATUS_UNKNOWN, mo_listeners = ls, mo_eventGenerators = (\<lambda>_ _ i _ _ _. PCall (CSaveEvent i [] EVENT_TYPE_AUTO) (\<lambda>_. PReturn)),
     mo_notificationHandler = (\<lambda>self _ _ n _. PCall (CUpdate self n) (\<lambda>_. PReturn)), mo_inUpdating = False, mo_workable = True, mo_inSetWorkableCall = False\<rparr>"

definition ex_world :: "nat list \<Rightarrow> world" where
  "ex_world ls = \<lparr>wd_monitors = [0 \<mapsto> ex_monitor [1], 1 \<mapsto> ex_monitor ls], wd_mon = ex_mon_tables [], wd_events = [], wd_now = (10, 0)\<rparr>"

lemma ex_world_free: "updating (ex_world ls) = {}" "free_monitors (ex_world ls) = {0, 1}" "finite (dom (wd_monitors (ex_world ls)))"
proof -
  show "updating (ex_world ls) = {}" by (auto simp: updating_def ex_world_def ex_monitor_def split: if_splits)
  then show "free_monitors (ex_world ls) = {0, 1}" by (auto simp: free_monitors_def ex_world_def)
qed (simp add: ex_world_def)

lemmas run_simps = mon_update_def setWorkable_def update_begin_def update_end_def reap_def mon_updateTrigger_def generateEvent_def
  put_def saveEvent_def status_range_def NUM_TRIGGER_STATUS_def setupTriggerInfo_def ex_world_def ex_monitor_def
  TRIGGER_STATUS_ALL_def TRIGGER_STATUS_UNKNOWN_def numeral_3_eq_3 Let_def

theorem self_monitor_calls_end_witness:
  "\<exists>w'. run_call 3 (CUpdate 0 1) (ex_world [0]) = (Threw, w') \<and> dom (wd_monitors w') = {0, 1} \<and> updating w' = {}"
proof -
  obtain r w' where r: "run_call 3 (CUpdate 0 1) (ex_world [0]) = (r, w')" by (cases "run_call 3 (CUpdate 0 1) (ex_world [0])")
  then have "r = Threw" by (simp add: run_simps)
  moreover have "card (free_monitors (ex_world [0])) < 3" by (simp add: ex_world_free)
  from self_monitor_calls_end [OF ex_world_free(3) this r]
  have "dom (wd_monitors w') = {0, 1}" "updating w' = {}" unfolding ex_world_free(1) by (auto simp: ex_world_def)
  ultimately show ?thesis using r by blast
qed

section \<open>The status that is shown\<close>

text \<open>What the header of the class promises of a monitor between calls.\<close>

definition settled :: "monitor \<Rightarrow> bool" where
  "settled m \<longleftrightarrow> tg_status (mo_trigger m) = (if mo_workable m then mo_actualStatus m else TRIGGER_STATUS_UNKNOWN) \<and> \<not> mo_inSetWorkableCall m"

text \<open>
  A call that returns leaves the monitors being updated alone, but for the listeners of the one that notifies, and
  the others settled when they were.
\<close>

definition leaves :: "nat set \<Rightarrow> world \<Rightarrow> world \<Rightarrow> bool" where
  "leaves A w w' \<longleftrightarrow> keeps w w' \<and> (\<forall>k \<in> updating w. \<forall>m. wd_monitors w k = Some m \<longrightarrow>
      (\<exists>ls. wd_monitors w' k = Some (m\<lparr>mo_listeners := ls\<rparr>) \<and> (k \<notin> A \<longrightarrow> ls = mo_listeners m)))
    \<and> (\<forall>k m m'. k \<notin> updating w \<longrightarrow> wd_monitors w k = Some m \<longrightarrow> settled m \<longrightarrow> wd_monitors w' k = Some m' \<longrightarrow> settled m')"

lemma leaves_updating:
  "leaves A w w' \<Longrightarrow> k \<in> updating w \<Longrightarrow> wd_monitors w k = Some m \<Longrightarrow>
     \<exists>ls. wd_monitors w' k = Some (m\<lparr>mo_listeners := ls\<rparr>) \<and> (k \<notin> A \<longrightarrow> ls = mo_listeners m)"
  unfolding leaves_def by blast

lemma leaves_settled:
  "leaves A w w' \<Longrightarrow> k \<notin> updating w \<Longrightarrow> wd_monitors w k = Some m \<Longrightarrow> settled m \<Longrightarrow> wd_monitors w' k = Some m' \<Longrightarrow> settled m'"
  unfolding leaves_def by blast

lemma leaves_same: "wd_monitors w' = wd_monitors w \<Longrightarrow> leaves A w w'"
proof -
  have "\<exists>ls. Some m = Some (m\<lparr>mo_listeners := ls\<rparr>) \<and> (k \<notin> A \<longrightarrow> ls = mo_listeners m)" for m :: monitor and k
    by (rule exI [of _ "mo_listeners m"]) simp
  moreover assume "wd_monitors w' = wd_monitors w"
  ultimately show "leaves A w w'" unfolding leaves_def keeps_def updating_def by (metis option.inject)
qed

lemma leaves_mono: "leaves A w w' \<Longrightarrow> A \<subseteq> B \<Longrightarrow> leaves B w w'"
  unfolding leaves_def by blast

lemma leaves_trans:
  assumes "leaves A w w1" "leaves A w1 w2"
  shows "leaves A w w2"
proof -
  have k: "keeps w w1" "keeps w1 w2" "updating w1 = updating w" "dom (wd_monitors w1) = dom (wd_monitors w)" using assms by (auto simp: leaves_def keeps_def)
  have "\<exists>ls. wd_monitors w2 i = Some (m\<lparr>mo_listeners := ls\<rparr>) \<and> (i \<notin> A \<longrightarrow> ls = mo_listeners m)" if im: "i \<in> updating w" "wd_monitors w i = Some m" for i m
  proof -
    from leaves_updating [OF assms(1) im] obtain ls
      where ls: "wd_monitors w1 i = Some (m\<lparr>mo_listeners := ls\<rparr>)" "i \<notin> A \<longrightarrow> ls = mo_listeners m" by blast
    from leaves_updating [OF assms(2) _ ls(1)] im(1) k(3)
    have "\<exists>ls'. wd_monitors w2 i = Some (m\<lparr>mo_listeners := ls'\<rparr>) \<and> (i \<notin> A \<longrightarrow> ls' = ls)" by simp
    with ls(2) show ?thesis by auto
  qed
  moreover have "settled m'" if im: "i \<notin> updating w" "wd_monitors w i = Some m" "settled m" "wd_monitors w2 i = Some m'" for i m m'
  proof -
    obtain m1 where m1: "wd_monitors w1 i = Some m1" using k(4) im(2) by (metis domD domI)
    from leaves_settled [OF assms(1) im(1-3) this] leaves_settled [OF assms(2) _ m1 _ im(4)] im(1) k(3) show ?thesis by simp
  qed
  ultimately show ?thesis using keeps_trans [OF k(1,2)] unfolding leaves_def by blast
qed

definition settling :: "(call \<Rightarrow> world \<Rightarrow> outcome \<times> world) \<Rightarrow> bool" where
  "settling run \<longleftrightarrow> (\<forall>c w w'. run c w = (Done, w') \<longrightarrow> leaves {} w w')"

lemma do_prog_leaves: "settling run \<Longrightarrow> do_prog run p w = (Done, w') \<Longrightarrow> leaves {} w w'"
proof (induction p arbitrary: w)
  case (PCall c k)
  obtain r1 w1 where 1: "run c w = (r1, w1)" by (cases "run c w")
  with PCall.prems(2) have "r1 = Done" by (cases r1) auto
  with 1 PCall have "leaves {} w w1" "leaves {} w1 w'" by (auto simp: settling_def)
  then show ?case by (rule leaves_trans)
qed (simp_all add: leaves_same)

lemma erased_leaves: "i \<in> updating w \<Longrightarrow> leaves {i} w (erased i l w)"
proof -
  assume i: "i \<in> updating w"
  then obtain s where s: "wd_monitors w i = Some s" by (auto simp: updating_def)
  have "\<exists>ls. m = m\<lparr>mo_listeners := ls\<rparr> \<and> ls = mo_listeners m" for m :: monitor by simp
  with i s keeps_erased [of w i l] show ?thesis by (auto simp: leaves_def erased_def)
qed

lemma notify_leaves:
  assumes "settling run"
  shows "i \<in> updating w \<Longrightarrow> notify run i p n ls w = (Done, w') \<Longrightarrow> leaves {i} w w'"
proof (induction ls arbitrary: w)
  case Nil
  then show ?case by (simp add: leaves_same)
next
  case (Cons l ls)
  have same: "i \<in> updating v" if "leaves {i} w v" for v using that Cons.prems(1) by (simp add: leaves_def keeps_def)
  show ?case
  proof (cases "wd_monitors w l")
    case None
    then have "notify run i p n ls (erased i l w) = (Done, w')" using Cons.prems(2) by (simp add: erased_def)
    from Cons.IH [OF same [OF erased_leaves [OF Cons.prems(1)]] this] erased_leaves [OF Cons.prems(1)] show ?thesis by (rule leaves_trans [rotated])
  next
    case (Some m)
    obtain r1 w1 where 1: "do_prog run (mo_notificationHandler m l i p n (getLastKnownStatus w)) w = (r1, w1)" by (cases "do_prog run (mo_notificationHandler m l i p n (getLastKnownStatus w)) w")
    with Cons.prems(2) Some have d: "r1 = Done" "notify run i p n ls w1 = (Done, w')" by (cases r1; simp)+
    have "leaves {i} w w1" using do_prog_leaves [OF assms, of _ w w1] 1 d(1) leaves_mono by blast
    with Cons.IH [OF same [OF this] d(2)] show ?thesis by (rule leaves_trans [rotated])
  qed
qed

lemma update_middle_leaves:
  assumes "settling run" "i \<in> updating w" "update_middle run i m p w = (Done, w')"
  obtains w3 where "leaves {i} w w3" "reap i (update_end (tg_status (mo_trigger m))) (Done, w3) = (Done, w')"
proof -
  obtain r1 w1 where 1: "mon_updateTrigger m w = (r1, w1)" by (cases "mon_updateTrigger m w")
  obtain r2 w2 where 2: "generateEvent run i m p (tg_status (mo_trigger m)) w1 = (r2, w2)" by (cases "generateEvent run i m p (tg_status (mo_trigger m)) w1")
  obtain r3 w3 where 3: "notify run i p (tg_status (mo_trigger m)) (mo_listeners m) w2 = (r3, w3)"
    by (cases "notify run i p (tg_status (mo_trigger m)) (mo_listeners m) w2")
  have d: "r1 = Done" "r2 = Done" "r3 = Done" "reap i (update_end (tg_status (mo_trigger m))) (Done, w3) = (Done, w')"
    using assms(3) 1 2 3 by (cases r1; cases r2; cases r3; simp add: update_middle_def)+
  have l1: "leaves {i} w w1" using mon_updateTrigger_monitors [OF 1] by (simp add: leaves_same)
  have "leaves {i} w1 w2" using 2 d(2) do_prog_leaves [OF assms(1)] leaves_mono by (fastforce simp: generateEvent_def split: if_splits)
  with l1 have l2: "leaves {i} w w2" by (rule leaves_trans)
  then have "i \<in> updating w2" using assms(2) by (simp add: leaves_def keeps_def)
  from notify_leaves [OF assms(1) this] 3 d(3) have "leaves {i} w2 w3" by blast
  with l2 have "leaves {i} w w3" by (rule leaves_trans)
  then show thesis using that d(4) by blast
qed

text \<open>What an update that returns did to its monitor and to the others.\<close>

lemma mon_update_done:
  assumes "settling run" "mon_update run i st w = (Done, w')"
  obtains m0 m' where "wd_monitors w i = Some m0" "\<not> mo_inUpdating m0" "wd_monitors w' i = Some m'"
    "tg_status (mo_trigger m') = (if mo_workable m0 then st else TRIGGER_STATUS_UNKNOWN)" "mo_workable m' = mo_workable m0"
    "mo_actualStatus m' = (if mo_inSetWorkableCall m0 then mo_actualStatus m0 else st)" "mo_inSetWorkableCall m' = mo_inSetWorkableCall m0"
    "\<forall>k \<in> updating w. wd_monitors w' k = wd_monitors w k"
    "\<forall>k m m'. k \<noteq> i \<longrightarrow> k \<notin> updating w \<longrightarrow> wd_monitors w k = Some m \<longrightarrow> settled m \<longrightarrow> wd_monitors w' k = Some m' \<longrightarrow> settled m'"
proof -
  obtain m0 where m0: "wd_monitors w i = Some m0" "\<not> mo_inUpdating m0"
    using assms(2) by (auto simp: mon_update_middle split: option.splits if_splits)
  let ?m = "update_begin st m0" let ?w = "put i (update_begin st m0) w"
  obtain w1 where w1: "update_middle run i ?m (tg_status (mo_trigger m0)) ?w = (Done, w1)"
      "reap i (\<lambda>m. m\<lparr>mo_inUpdating := False\<rparr>) (Done, w1) = (Done, w')"
    using assms(2) m0 by (auto simp: mon_update_middle reap_def split: prod.splits)
  have up: "updating ?w = insert i (updating w)" using m0 by (simp add: updating_put update_begin_flag)
  have i: "i \<notin> updating w" using m0 by (simp add: updating_def)
  obtain w3 where w3: "leaves {i} ?w w3" "reap i (update_end (tg_status (mo_trigger ?m))) (Done, w3) = (Done, w1)"
    by (rule update_middle_leaves [OF assms(1) _ w1(1)]) (simp_all add: up)
  obtain ls where ls: "wd_monitors w3 i = Some (?m\<lparr>mo_listeners := ls\<rparr>)" using w3(1) up by (auto simp: leaves_def)
  have w': "w' = put i ((update_end (tg_status (mo_trigger ?m)) (?m\<lparr>mo_listeners := ls\<rparr>))\<lparr>mo_inUpdating := False\<rparr>)
      (put i (update_end (tg_status (mo_trigger ?m)) (?m\<lparr>mo_listeners := ls\<rparr>)) w3)"
    using w1(2) w3(2) ls by (auto simp: reap_def)
  have others: "wd_monitors w' k = wd_monitors w3 k" "wd_monitors ?w k = wd_monitors w k" if "k \<noteq> i" for k
    using that by (simp_all add: w')
  have 1: "\<forall>k \<in> updating w. wd_monitors w' k = wd_monitors w k"
  proof
    fix k assume k: "k \<in> updating w"
    then have "k \<noteq> i" using i by auto
    note k' = others [OF this]
    obtain m where m: "wd_monitors w k = Some m" using k by (auto simp: updating_def)
    then have "\<exists>ls. wd_monitors w3 k = Some (m\<lparr>mo_listeners := ls\<rparr>) \<and> (k \<notin> {i} \<longrightarrow> ls = mo_listeners m)"
      using leaves_updating [OF w3(1), of k m] k k'(2) by (simp add: up)
    with m k' \<open>k \<noteq> i\<close> show "wd_monitors w' k = wd_monitors w k" by auto
  qed
  have 2: "\<forall>k m m'. k \<noteq> i \<longrightarrow> k \<notin> updating w \<longrightarrow> wd_monitors w k = Some m \<longrightarrow> settled m \<longrightarrow> wd_monitors w' k = Some m' \<longrightarrow> settled m'"
    using leaves_settled [OF w3(1)] others by (simp add: up)
  let ?m' = "(update_end (tg_status (mo_trigger ?m)) (?m\<lparr>mo_listeners := ls\<rparr>))\<lparr>mo_inUpdating := False\<rparr>"
  have 3: "wd_monitors w' i = Some ?m'" by (simp add: w')
  show thesis
    by (rule that [OF m0 3 _ _ _ _ 1 2]) (simp_all add: update_end_def update_begin_def Let_def unworkableVisibleStatus_def)
qed

lemma leavesI:
  assumes "keeps w w'" "\<forall>k \<in> updating w. wd_monitors w' k = wd_monitors w k"
    and "\<And>k m m'. k \<notin> updating w \<Longrightarrow> wd_monitors w k = Some m \<Longrightarrow> settled m \<Longrightarrow> wd_monitors w' k = Some m' \<Longrightarrow> settled m'"
  shows "leaves {} w w'"
proof -
  have "\<exists>ls. wd_monitors w' k = Some (m\<lparr>mo_listeners := ls\<rparr>) \<and> (k \<notin> {} \<longrightarrow> ls = mo_listeners m)"
    if "k \<in> updating w" "wd_monitors w k = Some m" for k m
    by (rule exI [of _ "mo_listeners m"]) (use that assms(2) in simp)
  with assms(1,3) show ?thesis unfolding leaves_def by blast
qed

lemma mon_update_leaves:
  assumes "well_run run" "settling run" "mon_update run i st w = (Done, w')"
  shows "leaves {} w w' \<and> (\<exists>m. wd_monitors w' i = Some m \<and> (settled (the (wd_monitors w i)) \<longrightarrow> mo_actualStatus m = st))"
proof -
  obtain m0 m' where m: "wd_monitors w i = Some m0" "\<not> mo_inUpdating m0" "wd_monitors w' i = Some m'"
    "tg_status (mo_trigger m') = (if mo_workable m0 then st else TRIGGER_STATUS_UNKNOWN)" "mo_workable m' = mo_workable m0"
    "mo_actualStatus m' = (if mo_inSetWorkableCall m0 then mo_actualStatus m0 else st)" "mo_inSetWorkableCall m' = mo_inSetWorkableCall m0"
    and others: "\<forall>k \<in> updating w. wd_monitors w' k = wd_monitors w k"
    "\<forall>k m m'. k \<noteq> i \<longrightarrow> k \<notin> updating w \<longrightarrow> wd_monitors w k = Some m \<longrightarrow> settled m \<longrightarrow> wd_monitors w' k = Some m' \<longrightarrow> settled m'"
    by (rule mon_update_done [OF assms(2,3)])
  have "settled m'" if "settled m0" using that m(4-7) by (simp add: settled_def)
  then have "leaves {} w w'"
    using others m(1,3) by (intro leavesI mon_update_keeps [OF assms(1,3)]) (metis option.inject)+
  moreover have "mo_actualStatus m' = st" if "settled m0" using that m(6) by (simp add: settled_def)
  ultimately show ?thesis using m(1,3) by simp
qed

lemma setWorkable_leaves:
  assumes "well_run run" "settling run" "setWorkable run i b w = (Done, w')"
  shows "leaves {} w w' \<and> (\<exists>m0 m. wd_monitors w i = Some m0 \<and> wd_monitors w' i = Some m \<and> mo_workable m = b \<and> mo_actualStatus m = mo_actualStatus m0)"
proof -
  obtain m0 where m0: "wd_monitors w i = Some m0" using assms(3) by (auto simp: setWorkable_def split: option.splits)
  let ?m = "m0\<lparr>mo_inSetWorkableCall := True, mo_workable := b\<rparr>"
  let ?st = "if b then mo_actualStatus ?m else unworkableVisibleStatus" let ?w = "put i ?m w"
  obtain w1 where w1: "mon_update run i ?st ?w = (Done, w1)" "reap i (\<lambda>m. m\<lparr>mo_inSetWorkableCall := False\<rparr>) (Done, w1) = (Done, w')"
    using assms(3) m0 by (auto simp: setWorkable_def Let_def reap_def simp del: fun_upd_apply split: prod.splits)
  obtain m1 m' where m: "wd_monitors ?w i = Some m1" "\<not> mo_inUpdating m1" "wd_monitors w1 i = Some m'"
    "tg_status (mo_trigger m') = (if mo_workable m1 then ?st else TRIGGER_STATUS_UNKNOWN)" "mo_workable m' = mo_workable m1"
    "mo_actualStatus m' = (if mo_inSetWorkableCall m1 then mo_actualStatus m1 else ?st)" "mo_inSetWorkableCall m' = mo_inSetWorkableCall m1"
    and others: "\<forall>k \<in> updating ?w. wd_monitors w1 k = wd_monitors ?w k"
    "\<forall>k m m'. k \<noteq> i \<longrightarrow> k \<notin> updating ?w \<longrightarrow> wd_monitors ?w k = Some m \<longrightarrow> settled m \<longrightarrow> wd_monitors w1 k = Some m' \<longrightarrow> settled m'"
    by (rule mon_update_done [OF assms(2) w1(1)])
  have m1: "m1 = ?m" using m(1) by simp
  have w': "w' = put i (m'\<lparr>mo_inSetWorkableCall := False\<rparr>) w1" using w1(2) m(3) by (simp add: reap_def)
  have up: "updating ?w = updating w" "i \<notin> updating w" using keeps_put [OF m0, of ?m] m0 m(2) m1 by (simp_all add: keeps_def) (simp add: updating_def)
  have "settled (m'\<lparr>mo_inSetWorkableCall := False\<rparr>)" using m(4-7) by (simp add: m1 settled_def unworkableVisibleStatus_def)
  then have "settled m''" if "k \<notin> updating w" "wd_monitors w k = Some m" "settled m" "wd_monitors w' k = Some m''" for k m m''
    using others(2) that by (cases "k = i") (auto simp: w' up(1))
  then have "leaves {} w w'"
    using others(1) up by (intro leavesI setWorkable_keeps [OF assms(1,3)]) (auto simp: w')
  then show ?thesis using m0 m(5,6) by (simp add: w' m1)
qed

lemma run_call_settling: "settling (run_call n)"
proof (induction n)
  case (Suc n)
  have "leaves {} w w'" if "run_call (Suc n) c w = (Done, w')" for c w w'
  proof (cases c)
    case (CSaveEvent i b ty)
    then show ?thesis using that by (auto simp: saveEvent_def Let_def leaves_same split: option.splits)
  qed (use that mon_update_leaves [OF run_call_well Suc] setWorkable_leaves [OF run_call_well Suc] in auto)
  then show ?case by (simp add: settling_def)
qed (simp add: settling_def)



end
