(* ===== verification/Spec2Isabelle.thy ===== *)
theory Spec2Isabelle
  imports Hato_Error Query_Condition User_Access Session_Props Action_Stage Host_Members Mon_EventStore
    Item_Rows Resident_Proto Incident_Send Stat_Counter Host_Cache Last_Info Mon_Comments Mon_ItemStore Self_Props
begin

text \<open>
  A verification library for the Hatohol server (src/server), the part of Hatohol that collects what
  monitoring servers report, keeps it in SQL tables, answers the queries of the users' browsers, and
  runs actions when events arrive.

  \<^bold>\<open>The parts and how they interact.\<close> A request of a user carries a session (\<open>SessionManager\<close>) that
  leads to a user; the user's flags (\<open>OperationPrivilege\<close>) and access list (\<open>DBTablesUser\<close>) decide
  what a query may read. A query is an option object (\<open>DataQueryOption\<close>, \<open>HostResourceQueryOption\<close>
  and the options of the single tables) that writes the text of a WHERE condition; values enter the
  text through \<open>DBTermCodec\<close>. The text goes through \<open>DBAgent\<close> to SQLite or MySQL; rows come back as
  groups of \<open>ItemData\<close>. \<open>DBTables\<close> creates and versions the tables. The gates of the monitoring
  plugins hand over hosts, hostgroups and memberships (\<open>DBTablesHost\<close>), triggers, events, items and
  incidents (\<open>DBTablesMonitoring\<close>). A new event selects actions (\<open>DBTablesAction\<close>), whose command
  lines are split (\<open>ActionExecArgMaker\<close>) and run by \<open>ActionManager\<close> under a limit; \<open>ActorCollector\<close>
  tells it when a process ends. A resident action gets the event over a pipe (\<open>NamedPipe\<close>,
  \<open>ResidentCommunicator\<close>) as a packet in a \<open>SmartBuffer\<close>; an incident action queues the event for the
  sender of its tracker (\<open>IncidentSender\<close>). Monitors of the server itself (\<open>SelfMonitor\<close>) store triggers
  and events as the plugins do and notify each other.

  \<^bold>\<open>The theories.\<close>
  \<^item> \<open>Hato_Prelude\<close>: machine types, results with exceptions, C strings, decimal printing, std::set and
    std::map as the lists their iterators walk.
  \<^item> \<open>Sql_Term\<close>, \<open>Sql_Cond\<close>, \<open>Sql_Reader\<close>: literals (DBTermCodec.cc), \<open>addCondition\<close>
    (DataQueryOption.cc) and list conditions (DBHatohol.cc, SeparatorInjector.cc), and a reader of the
    texts that stands for the database: it tokenises and parses a condition as standard SQL does and
    evaluates it on a row. The locale \<open>sql_engine\<close> says what an engine must do; the reader interprets it.
    The lemmas show that a text written by the server is read as the condition that was meant, and that
    an encoded string cannot end its literal early.
  \<^item> \<open>Hato_Error\<close>, \<open>Op_Privilege\<close>, \<open>Item_Data\<close>: HatoholError, OperationPrivilege, ItemData. \<open>Item_Table\<close>,
    \<open>Item_Rows\<close>: ItemGroup.cc, ItemGroupType.cc, ItemGroupStream.h, ItemDataUtils.cc and ItemTable.cc; the
    rows of a table have one type, the joins are those of relational algebra, indexes find the rows.
  \<^item> \<open>Db_Schema\<close>, \<open>Db_Agent\<close>, \<open>Db_Tables\<close>, \<open>Db_Upsert\<close>: table descriptions, statement texts, index upkeep,
    transactions (locale \<open>transactional\<close>), the versioned set-up, and upserts (locale \<open>keyed_table\<close>).
  \<^item> \<open>Query_Option\<close>, \<open>Query_Condition\<close>: DataQueryContext.cc, DataQueryOption.cc and
    HostResourceQueryOption.cc, character for character, and what the texts select: exactly the rows of
    registered servers that the access list covers and the targets match, where a query that names a
    hostgroup is covered by the servers of the list alone; filters only narrow this, with the exception
    of a lone selection of several hosts, whose exact effect is a theorem of its own.
  \<^item> \<open>User_Tables\<close>, \<open>User_Props\<close>, \<open>User_Access\<close>: DBTablesUser.cc, the invariant of its tables, who may
    change what, and what an access list grants (locales \<open>user_engine_ok\<close>).
  \<^item> \<open>Session_Mgr\<close>, \<open>Session_Props\<close>: SessionManager.cc with reference counts and timers; the sections
    under each lock are definitions of their own. Called one after the other the operations implement a
    table of sessions with expiry times; one interleaving that does not is exhibited.
  \<^item> \<open>Action_Tables\<close>, \<open>Action_Props\<close>, \<open>Action_Rules\<close>: DBTablesAction.cc. \<open>Action_Args\<close>: ParsableString.cc and
    ActionExecArgMaker.cc. \<open>Action_Sched\<close>, \<open>Action_Stage\<close>: command actions of ActionManager.cc and
    ActorCollector.cc as a step relation, with its invariant under every interleaving.
  \<^item> \<open>Smart_Buffer\<close>, \<open>Named_Pipe\<close>, \<open>Resident_Proto\<close>: SmartBuffer.cc, NamedPipe.cc and the packets of resident
    actions (ResidentCommunicator.cc, hatoholResidentYard.cc, ActionManager.cc): values come back as they
    were added, bytes arrive in order however the channel splits them, an event and its answer arrive.
  \<^item> \<open>Incident_Send\<close>: IncidentSender.cc and IncidentSenderManager.cc. The attempts at a job are bounded, jobs are
    tried in order; an exception of a sender ends its thread.
  \<^item> \<open>Stat_Counter\<close>, \<open>Host_Cache\<close>, \<open>Last_Info\<close>: SmartTime.cc with StatisticsCounter.cc, HostInfoCache.cc,
    DBTablesLastInfo.cc.
  \<^item> \<open>Host_Tables\<close>, \<open>Host_Query\<close>, \<open>Host_Sync\<close>, \<open>Host_Groups\<close>, \<open>Host_Members\<close>: DBTablesHost.cc; the loop that the
    synchronisations share is one lemma.
  \<^item> \<open>Mon_Tables\<close>, \<open>Mon_Triggers\<close>, \<open>Mon_Query\<close>, \<open>Mon_Sync\<close>, \<open>Mon_Events\<close>, \<open>Mon_EventQuery\<close>, \<open>Mon_EventStore\<close>:
    DBTablesMonitoring.cc and DBClientJoinBuilder.cc, triggers and events: what a query returns, what a
    synchronisation and a stored list of events leave behind. Times are cut to \<open>int\<close> on their way into
    a row, as \<open>ItemGroup::addNewItem\<close> does. \<open>Mon_Incidents\<close>, \<open>Mon_Comments\<close>: incidents and the number of
    their comments. \<open>Mon_Items\<close>, \<open>Mon_ItemStore\<close>: items and their categories.
  \<^item> \<open>Self_Monitor\<close>, \<open>Self_Props\<close>: SelfMonitor.cc; calls end however monitors listen to each other, a circle is
    an exception, and what a monitor shows after its calls.
  \<^item> This theory: that a query reads what \<open>isAccessible\<close> grants.

  \<^bold>\<open>Correspondence.\<close> A table is the list of its rows in the order a query returns them, a row a record with
  one field per column. An operation that the source gives a transaction is one function on the tables;
  its errors are values of \<open>hatohol_error\<close> or of the result type with exceptions. Conditions stay texts
  up to the engine, so that missing quotes or parentheses of the source are missing in the model too.
  Machine integers are words or numbers with the wrap-around written out where the code can reach it.

  \<^bold>\<open>Arguments.\<close> Code outside the repository is an argument with its documented behaviour as hypotheses
  of a locale: the evaluation of conditions and \<open>ORDER BY\<close> by the database, the digest of passwords, UUIDs,
  event sources of GLib, the answers of process creation, local time and the printing of doubles. Every
  locale is interpreted on concrete functions (\<open>std\<close>, \<open>std_user\<close>, \<open>mem\<close>, \<open>ex_sess\<close>, \<open>ex_actions\<close>, \<open>ex_hosts\<close>,
  \<open>ex_mon\<close>, \<open>ex_mysql\<close>, \<open>ex_mysql_mon\<close>, \<open>ex_incidents\<close>), so its hypotheses can hold; \<open>keyed_table\<close> is interpreted on
  the tables with a unique key (\<open>defs\<close>, \<open>groups\<close>, \<open>members\<close>, \<open>lasts\<close>, \<open>items\<close>).

  \<^bold>\<open>Fuel.\<close> The parser of \<open>Sql_Reader\<close> takes three units for every token, because a token is passed through at
  most three levels of the grammar; the lemmas show that the texts the server writes are read with it. The
  calls of \<open>Self_Monitor\<close> take one unit more than there are monitors that are not being updated, because every
  nested update marks one more; a theorem shows that this is enough for every call. Everything else is
  structurally recursive or has a measure.

  \<^bold>\<open>Not modelled.\<close> Formatting with \<open>StringUtils::sprintf\<close> is taken as exact. Left out are: the statements that
  the SQLite and MySQL clients execute below \<open>DBAgent\<close>; schema upgrades that add columns; the creation of
  child processes and the queue of resident actions in \<open>ActionManager\<close>, which are operating-system
  protocols; the REST front end, JSON, AMQP, the plugin gates and \<open>UnifiedDataStore\<close>, which translate between
  formats and call the modelled operations; the tables of the configuration (\<open>DBTablesConfig\<close>); the senders
  for Redmine and Hatohol, which speak HTTP; the configuration of the process; the web client and the Python
  plugins.
\<close>

section \<open>Queries and access lists\<close>

lemma may_read_granted:
  assumes "std_map_wf m" and "\<And>s g. granted m s g \<Longrightarrow> cstr g = g"
    and "row sc = VInt s" and "row gc = VStr g"
  shows "may_read m sc gc row \<longleftrightarrow>
    map_of m ALL_SERVERS \<noteq> None \<or> granted m s ALL_HOST_GROUPS \<or> granted m s g"
proof -
  have mem: "(k, v) \<in> set m \<longleftrightarrow> map_of m k = Some v" for k v
    using map_of_eq_Some_iff [OF std_map_wf_distinct [OF assms(1)]] by auto
  have "may_read m sc gc row \<longleftrightarrow> (\<exists>k v. map_of m k = Some v \<and> (k = ALL_SERVERS
      \<or> k = s \<and> (ALL_HOST_GROUPS \<in> set v \<or> (\<exists>h \<in> set v. g = cstr h))))"
    using assms(3,4) unfolding may_read_def mem [symmetric] by (auto simp: Bex_def)
  also have "\<dots> \<longleftrightarrow> (\<exists>k v. map_of m k = Some v \<and> (k = ALL_SERVERS
      \<or> k = s \<and> (ALL_HOST_GROUPS \<in> set v \<or> g \<in> set v)))"
    using assms(2) unfolding granted_def by metis
  also have "\<dots> \<longleftrightarrow> map_of m ALL_SERVERS \<noteq> None \<or> granted m s ALL_HOST_GROUPS \<or> granted m s g"
    unfolding granted_def by auto
  finally show ?thesis .
qed

context user_engine_ok
begin

lemma allowed_map:
  assumes "user_reach e db"
  shows "std_map_wf (getServerHostGrpSetMap e db i)"
    "granted (getServerHostGrpSetMap e db i) s g \<Longrightarrow> cstr g = g"
    "(k, v) \<in> set (getServerHostGrpSetMap e db i) \<Longrightarrow> v \<noteq> []"
proof -
  show wf: "std_map_wf (getServerHostGrpSetMap e db i)"
    by (simp add: getServerHostGrpSetMap_rows fold_grp_map_insert(1))
  show "granted (getServerHostGrpSetMap e db i) s g \<Longrightarrow> cstr g = g"
    using reach_inv [OF assms]
    by (auto simp: getServerHostGrpSetMap_rows fold_grp_map_insert(2) all_inv_def access_inv_def)
  show "v \<noteq> []" if "(k, v) \<in> set (getServerHostGrpSetMap e db i)"
    using that map_of_eq_Some_iff [OF std_map_wf_distinct [OF wf], of k v]
      fold_grp_map_insert(4) [of "[]" "filter (\<lambda>a. ai_userId a = i) (ut_access (st_data db))" k]
    by (auto simp: getServerHostGrpSetMap_rows)
qed

lemma query_accessible:
  assumes "user_reach e db"
    and "opt = mk_host_option sy p valid (getServerHostGrpSetMap e db (op_userId p))"
    and "readable_columns opt sc gc hc" and "\<not> op_has p OPPRVLG_GET_ALL_SERVER"
    and "op_userId p \<noteq> INVALID_USER_ID"
  shows "\<exists>sql. getCondition opt = Inr sql \<and> (\<forall>row s g. row sc = VInt s \<longrightarrow> row gc = VStr g \<longrightarrow> cstr g = g \<longrightarrow>
    (en_matches e sql row \<longleftrightarrow> s \<in> set valid \<and> isAccessible e db s g p))"
proof -
  let ?m = "getServerHostGrpSetMap e db (op_userId p)"
  have opt: "getAllowedServersAndHostgroups opt = ?m" "access_ok opt" "no_filters opt"
      "ho_targetHostgroupId opt = ALL_HOST_GROUPS" "\<not> ho_has opt OPPRVLG_GET_ALL_SERVER"
      "\<And>row. targets_match opt sc gc hc row" "\<And>row. registered opt sc row \<longleftrightarrow> (\<exists>s \<in> set valid. row sc = VInt s)"
    using allowed_map(3) [OF assms(1)] assms(4)
    by (auto simp: assms(2) mk_host_option_def getAllowedServersAndHostgroups_def access_ok_def no_filters_def
        targets_match_def registered_def getValidServerIdSet_def)
  obtain sql where sql: "getCondition opt = Inr sql"
    and sel: "\<And>row. en_matches e sql row \<longleftrightarrow>
      registered opt sc row \<and> may_read ?m sc gc row \<and> targets_match opt sc gc hc row"
    using getCondition_selects [OF sql_engine_axioms assms(3) opt(5,2,3,4)] unfolding opt(1) by blast
  have "may_read ?m sc gc row \<longleftrightarrow> isAccessible e db s g p"
    if "row sc = VInt s" "row gc = VStr g" "cstr g = g" for row s g
    using may_read_granted [OF allowed_map(1,2) [OF assms(1), of "op_userId p"] that(1,2)] that(3) assms(5)
    by (simp add: isAccessible_map)
  then show ?thesis using sql by (auto simp: sel opt(6,7))
qed

end

text \<open>
  C1. What the user tables and the query builder promise together: for a logged-in user who may not
  see every server, the condition built from the access list in the database selects exactly the rows
  of registered servers for which \<open>isAccessible\<close> answers yes.
\<close>

theorem query_selects_accessible:
  assumes "user_engine_ok e" and "user_reach e db"
    and "opt = mk_host_option sy p valid (getServerHostGrpSetMap e db (op_userId p))"
    and "readable_columns opt sc gc hc" and "\<not> op_has p OPPRVLG_GET_ALL_SERVER"
    and "op_userId p \<noteq> INVALID_USER_ID"
  shows "\<exists>sql. getCondition opt = Inr sql \<and> (\<forall>row s g. row sc = VInt s \<longrightarrow> row gc = VStr g \<longrightarrow> cstr g = g \<longrightarrow>
    (en_matches e sql row \<longleftrightarrow> s \<in> set valid \<and> isAccessible e db s g p))"
  using assms by (rule user_engine_ok.query_accessible)

text \<open>Alice asks for the triggers of the servers 1 and 5; her list grants one hostgroup of server 5.\<close>

definition ex_grant :: user_db where
  "ex_grant = snd (snd (addAccessInfo std_engine ex_db2
     \<lparr>ai_id = 0, ai_userId = 1, ai_serverId = 5, ai_hostgroupId = ''A''\<rparr> ex_admin))"

lemma ex_grant_reach: "user_reach std_engine ex_grant"
proof -
  have "user_step std_engine ex_admin ex_db2 ex_grant"
    unfolding ex_grant_def by (rule user_step.intros(5)) (simp_all add: prod_eq_iff)
  with ex_reach(2) show ?thesis by (rule user_reach.step)
qed

lemma ex_grant_map: "getServerHostGrpSetMap std_engine ex_grant 1 = [(5, [''A''])]"
  by code_simp

theorem query_selects_accessible_witness:
  "\<exists>sql. getCondition (mk_host_option ex_synapse ex_self [1, 5] (getServerHostGrpSetMap std_engine ex_grant 1)) = Inr sql
     \<and> (std_matches sql (ex_row 5 ''h'' ''A'') \<longleftrightarrow> isAccessible std_engine ex_grant 5 ''A'' ex_self)
     \<and> (std_matches sql (ex_row 5 ''h'' ''B'') \<longleftrightarrow> isAccessible std_engine ex_grant 5 ''B'' ex_self)"
proof -
  let ?o = "mk_host_option ex_synapse ex_self [1, 5] (getServerHostGrpSetMap std_engine ex_grant (op_userId ex_self))"
  have self: "op_userId ex_self = 1" "\<not> op_has ex_self OPPRVLG_GET_ALL_SERVER" "op_userId ex_self \<noteq> INVALID_USER_ID"
    by code_simp+
  have cols: "readable_columns ?o ex_sc ex_gc ex_hc"
    using ex_ident self(2) unfolding self(1) ex_grant_map by (simp add: readable_columns_def option_cols_def ex_defs ex_self_def)
  have "cstr ''A'' = ''A''" "cstr ''B'' = ''B''" by code_simp+
  moreover have "en_matches std_engine = std_matches" by (simp add: std_engine_def)
  ultimately show ?thesis
    using query_selects_accessible [OF std_user.user_engine_ok_axioms ex_grant_reach refl cols self(2,3)] self(1)
    by (auto simp: ex_row_def)
qed

end
